(* ===== verification/Prelude.thy ===== *)
theory Prelude
  imports Main "HOL-Library.Word" "HOL-Library.List_Lexorder" "HOL-Library.Char_ord"
    "HOL-Library.Code_Target_Nat"
begin

text \<open>
  Shared vocabulary of the development: the machine integers of the Rust sources as words,
  the two ways a Rust function can fail (an \<open>Err\<close> value, and a panic), three-way comparison,
  and the generic facts on lists and words that the component theories use.

  Arithmetic on words wraps, as the sources do in the release profile (the workspace manifest
  sets no \<^verbatim>\<open>overflow-checks\<close>). A string is a list of bytes (\<^typ>\<open>char\<close>), as a Rust \<^verbatim>\<open>str\<close> is, so
  \<open>length\<close> counts bytes and \<open><\<close> compares bytes lexicographically.
\<close>

section \<open>Machine integers\<close>

type_synonym u8 = "8 word"
type_synonym u16 = "16 word"
type_synonym u32 = "32 word"
type_synonym u64 = "64 word"
type_synonym u128 = "128 word"
type_synonym u256 = "256 word"

abbreviation U32_MAX :: nat where "U32_MAX \<equiv> 4294967295"
abbreviation U64_MAX :: nat where "U64_MAX \<equiv> 18446744073709551615"

section \<open>Results and panics\<close>

datatype ('e, 'a) result = Ok 'a | Err 'e

datatype 'a outcome = Return 'a | Panic string

primrec is_ok :: "('e, 'a) result \<Rightarrow> bool" where
  "is_ok (Ok a) = True"
| "is_ok (Err e) = False"

definition is_err :: "('e, 'a) result \<Rightarrow> bool" where
  "is_err r = (\<not> is_ok r)"

primrec result_map :: "('a \<Rightarrow> 'b) \<Rightarrow> ('e, 'a) result \<Rightarrow> ('e, 'b) result" where
  "result_map f (Ok a) = Ok (f a)"
| "result_map f (Err e) = Err e"

primrec outcome_bind :: "'a outcome \<Rightarrow> ('a \<Rightarrow> 'b outcome) \<Rightarrow> 'b outcome" where
  "outcome_bind (Return a) f = f a"
| "outcome_bind (Panic m) f = Panic m"

primrec outcome_map :: "('a \<Rightarrow> 'b) \<Rightarrow> 'a outcome \<Rightarrow> 'b outcome" where
  "outcome_map f (Return a) = Return (f a)"
| "outcome_map f (Panic m) = Panic m"

text \<open>\<^verbatim>\<open>Option::expect\<close>: the value, or a panic with the message.\<close>

definition expect :: "string \<Rightarrow> 'a option \<Rightarrow> 'a outcome" where
  "expect msg x = (case x of None \<Rightarrow> Panic msg | Some a \<Rightarrow> Return a)"

text \<open>A subscript that panics out of range, as every slice and flatbuffers vector access does.\<close>

definition vec_get :: "'a list \<Rightarrow> nat \<Rightarrow> 'a outcome" where
  "vec_get xs i = (if i < length xs then Return (xs ! i) else Panic ''index out of bounds'')"

text \<open>Consuming an iterator whose filter or map can panic.\<close>

fun outcome_filter :: "('a \<Rightarrow> bool outcome) \<Rightarrow> 'a list \<Rightarrow> 'a list outcome" where
  "outcome_filter p [] = Return []"
| "outcome_filter p (x # xs) =
    outcome_bind (p x) (\<lambda>b.
    outcome_map (\<lambda>ys. if b then x # ys else ys) (outcome_filter p xs))"

fun outcome_concat_map :: "('a \<Rightarrow> 'b list outcome) \<Rightarrow> 'a list \<Rightarrow> 'b list outcome" where
  "outcome_concat_map f [] = Return []"
| "outcome_concat_map f (x # xs) =
    outcome_bind (f x) (\<lambda>ys. outcome_map (\<lambda>zs. ys @ zs) (outcome_concat_map f xs))"

lemma outcome_bind_Return_iff [simp]:
  "outcome_bind x f = Return b \<longleftrightarrow> (\<exists>a. x = Return a \<and> f a = Return b)"
  by (cases x) auto

lemma outcome_map_Return_iff [simp]:
  "outcome_map f x = Return b \<longleftrightarrow> (\<exists>a. x = Return a \<and> b = f a)"
  by (cases x) auto

lemma outcome_filter_total:
  "(\<And>x. x \<in> set xs \<Longrightarrow> p x = Return (q x)) \<Longrightarrow> outcome_filter p xs = Return (filter q xs)"
  by (induction xs) auto

lemma outcome_concat_map_total:
  "(\<And>x. x \<in> set xs \<Longrightarrow> f x = Return (g x)) \<Longrightarrow>
    outcome_concat_map f xs = Return (concat (map g xs))"
  by (induction xs) auto

lemma vec_get_in_range [simp]: "i < length xs \<Longrightarrow> vec_get xs i = Return (xs ! i)"
  by (simp add: vec_get_def)

lemma vec_get_Return_iff: "vec_get xs i = Return a \<longleftrightarrow> i < length xs \<and> xs ! i = a"
  by (auto simp: vec_get_def)

lemma expect_simps [simp]:
  "expect m (Some a) = Return a"
  "expect m None = Panic m"
  by (simp_all add: expect_def)

lemma expect_Return_iff [simp]: "expect m x = Return a \<longleftrightarrow> x = Some a"
  by (cases x) simp_all

lemma is_err_simps [simp]: "is_err (Ok a) = False" "is_err (Err e) = True"
  by (simp_all add: is_err_def)

section \<open>Three-way comparison\<close>

datatype ordering = Less | Equal | Greater

definition cmp :: "'a::linorder \<Rightarrow> 'a \<Rightarrow> ordering" where
  "cmp a b = (if a < b then Less else if a = b then Equal else Greater)"

lemma cmp_iffs [simp]:
  "cmp a b = Less \<longleftrightarrow> a < b"
  "cmp a b = Equal \<longleftrightarrow> a = b"
  "cmp a b = Greater \<longleftrightarrow> b < a"
  by (auto simp: cmp_def)

text \<open>
  A comparator over the indices \<open>0..<n\<close> is ascending when the positions answering \<open>Less\<close> come
  first, then those answering \<open>Equal\<close>, then those answering \<open>Greater\<close>: the precondition of every
  binary search in the sources.
\<close>

primrec rank :: "ordering \<Rightarrow> nat" where
  "rank Less = 0"
| "rank Equal = 1"
| "rank Greater = 2"

definition ascending_cmp :: "nat \<Rightarrow> (nat \<Rightarrow> ordering) \<Rightarrow> bool" where
  "ascending_cmp n f = (\<forall>j < n. \<forall>i \<le> j. rank (f i) \<le> rank (f j))"

lemma rank_simps_iff [simp]:
  "rank x = 0 \<longleftrightarrow> x = Less"
  "rank x \<le> 0 \<longleftrightarrow> x = Less"
  "2 \<le> rank x \<longleftrightarrow> x = Greater"
  "rank x < 2 \<longleftrightarrow> x \<noteq> Greater"
  by (cases x; simp)+

lemma ascending_cmpD: "ascending_cmp n f \<Longrightarrow> i \<le> j \<Longrightarrow> j < n \<Longrightarrow> rank (f i) \<le> rank (f j)"
  by (simp add: ascending_cmp_def)

lemma ascending_cmp_Less: "ascending_cmp n f \<Longrightarrow> i \<le> j \<Longrightarrow> j < n \<Longrightarrow> f j = Less \<Longrightarrow> f i = Less"
  using ascending_cmpD [of n f i j] by simp

lemma ascending_cmp_Greater:
  "ascending_cmp n f \<Longrightarrow> i \<le> j \<Longrightarrow> j < n \<Longrightarrow> f i = Greater \<Longrightarrow> f j = Greater"
  using ascending_cmpD [of n f i j] by (cases "f j") simp_all

lemma rank_cmp_mono: "a \<le> a' \<Longrightarrow> rank (cmp a b) \<le> rank (cmp a' b)"
  by (auto simp: cmp_def)

lemma ascending_cmp_sorted:
  assumes "sorted (map k xs)"
  shows "ascending_cmp (length xs) (\<lambda>i. cmp (k (xs ! i)) b)"
proof -
  have "k (xs ! i) \<le> k (xs ! j)" if "i \<le> j" "j < length xs" for i j
    using sorted_nth_mono [OF assms that(1)] that by simp
  then show ?thesis
    by (simp add: ascending_cmp_def rank_cmp_mono)
qed

section \<open>Lists\<close>

lemma take_Suc_nth: "n < length xs \<Longrightarrow> take (Suc n) xs = take n xs @ [xs ! n]"
  by (rule take_Suc_conv_app_nth)

lemma sorted_wrt_less_distinct: "sorted_wrt (<) (xs :: 'a::linorder list) \<Longrightarrow> distinct xs"
  by (simp add: strict_sorted_iff)

lemma sorted_wrt_less_sorted: "sorted_wrt (<) (xs :: 'a::linorder list) \<Longrightarrow> sorted xs"
  by (simp add: strict_sorted_iff)

lemma sorted_wrt_snoc [simp]:
  "sorted_wrt R (xs @ [x]) \<longleftrightarrow> sorted_wrt R xs \<and> (\<forall>y \<in> set xs. R y x)"
  by (simp add: sorted_wrt_append)

section \<open>Words\<close>

lemma unat_of_nat_u32 [simp]: "n \<le> U32_MAX \<Longrightarrow> unat (of_nat n :: u32) = n"
  by (simp add: unat_of_nat take_bit_nat_eq_self_iff)

lemma unat_u32_le [simp]: "unat (x :: u32) \<le> U32_MAX"
  using unsigned_less [where 'a = nat, of x] by simp

lemma unat_u64_le [simp]: "unat (x :: u64) \<le> U64_MAX"
  using unsigned_less [where 'a = nat, of x] by simp

lemma unat_u64_Suc:
  assumes "(x :: u64) \<noteq> - 1"
  shows "unat (x + 1) = Suc (unat x)"
proof -
  have "unat x \<noteq> unat (- 1 :: u64)"
    using assms by (simp only: word_unat_eq_iff not_False_eq_True)
  moreover have "unat (- 1 :: u64) = U64_MAX"
    by (simp add: unsigned_minus_1_eq_mask mask_eq_exp_minus_1)
  ultimately have "unat x < U64_MAX"
    using unat_u64_le [of x] by linarith
  then show ?thesis
    by (simp add: unat_word_ariths)
qed

lemma u64_less_Suc: "(x :: u64) \<noteq> - 1 \<Longrightarrow> x < x + 1"
  by (simp add: word_less_nat_alt unat_u64_Suc)

lemma u64_Suc_le: "(x :: u64) \<noteq> - 1 \<Longrightarrow> x < y \<Longrightarrow> x + 1 \<le> y"
  by (simp add: word_less_nat_alt word_le_nat_alt unat_u64_Suc)

lemma map_filter_append: "List.map_filter f (xs @ ys) = List.map_filter f xs @ List.map_filter f ys"
  by (simp add: List.map_filter_def)

end
