(* ===== verification/Rust_Std.thy ===== *)
theory Rust_Std
  imports Prelude
begin

text \<open>
  The parts of the Rust standard library the sources use: bytes and UTF-8, decimal formatting and
  \<^verbatim>\<open>str::parse::<u64>\<close>, \<^verbatim>\<open>split_once\<close> and \<^verbatim>\<open>splitn\<close>, and
  \<^verbatim>\<open>slice::binary_search_by\<close>.
\<close>

section \<open>Bytes and strings\<close>

definition byte_of :: "char \<Rightarrow> u8" where
  "byte_of c = of_nat (of_char c)"

definition char_of_byte :: "u8 \<Rightarrow> char" where
  "char_of_byte b = char_of (unat b)"

definition as_bytes :: "string \<Rightarrow> u8 list" where
  "as_bytes s = map byte_of s"

definition string_of_bytes :: "u8 list \<Rightarrow> string" where
  "string_of_bytes bs = map char_of_byte bs"

lemma of_char_less_256: "(of_char c :: nat) < 256"
  by (simp add: nat_of_char_less_256)

lemma unat_byte_of [simp]: "unat (byte_of c) = of_char c"
  by (simp add: byte_of_def unat_of_nat take_bit_nat_eq_self_iff nat_of_char_less_256)

lemma char_of_byte_of [simp]: "char_of_byte (byte_of c) = c"
  by (simp add: char_of_byte_def)

lemma byte_of_char_of_byte [simp]: "byte_of (char_of_byte b) = b"
proof -
  have "unat b < 256"
    using unsigned_less [where 'a = nat, of b] by simp
  then show ?thesis
    by (simp add: byte_of_def char_of_byte_def of_char_of)
qed

lemma byte_of_inj [simp]: "byte_of c = byte_of d \<longleftrightarrow> c = d"
  by (metis char_of_byte_of)

lemma string_of_bytes_as_bytes [simp]: "string_of_bytes (as_bytes s) = s"
  by (simp add: string_of_bytes_def as_bytes_def comp_def)

lemma as_bytes_string_of_bytes [simp]: "as_bytes (string_of_bytes bs) = bs"
  by (simp add: string_of_bytes_def as_bytes_def comp_def)

lemma length_as_bytes [simp]: "length (as_bytes s) = length s"
  by (simp add: as_bytes_def)

lemma length_string_of_bytes [simp]: "length (string_of_bytes s) = length s"
  by (simp add: string_of_bytes_def)

lemma as_bytes_inj [simp]: "as_bytes s = as_bytes t \<longleftrightarrow> s = t"
  by (metis string_of_bytes_as_bytes)

lemma as_bytes_append [simp]: "as_bytes (s @ t) = as_bytes s @ as_bytes t"
  by (simp add: as_bytes_def)

lemma string_of_bytes_append [simp]:
  "string_of_bytes (s @ t) = string_of_bytes s @ string_of_bytes t"
  by (simp add: string_of_bytes_def)

text \<open>
  \<^verbatim>\<open>std::str::from_utf8\<close>: the well-formed sequences of the Unicode standard, by the range of the
  leading byte.
\<close>

definition utf8_cont :: "u8 \<Rightarrow> bool" where
  "utf8_cont b = (0x80 \<le> b \<and> b \<le> 0xBF)"

fun utf8_valid :: "u8 list \<Rightarrow> bool" where
  "utf8_valid [] = True"
| "utf8_valid (a # bs) =
    (if a < 0x80 then utf8_valid bs
     else case bs of
       [] \<Rightarrow> False
     | b # cs \<Rightarrow>
         if 0xC2 \<le> a \<and> a \<le> 0xDF then utf8_cont b \<and> utf8_valid cs
         else case cs of
           [] \<Rightarrow> False
         | c # ds \<Rightarrow>
             if 0xE0 \<le> a \<and> a \<le> 0xEF then
               (if a = 0xE0 then 0xA0 \<le> b \<and> b \<le> 0xBF
                else if a = 0xED then 0x80 \<le> b \<and> b \<le> 0x9F
                else utf8_cont b) \<and> utf8_cont c \<and> utf8_valid ds
             else case ds of
               [] \<Rightarrow> False
             | d # es \<Rightarrow>
                 0xF0 \<le> a \<and> a \<le> 0xF4 \<and>
                 (if a = 0xF0 then 0x90 \<le> b \<and> b \<le> 0xBF
                  else if a = 0xF4 then 0x80 \<le> b \<and> b \<le> 0x8F
                  else utf8_cont b) \<and> utf8_cont c \<and> utf8_cont d \<and> utf8_valid es)"

definition from_utf8 :: "u8 list \<Rightarrow> string option" where
  "from_utf8 bs = (if utf8_valid bs then Some (string_of_bytes bs) else None)"

lemma utf8_valid_ascii: "(\<forall>b \<in> set bs. b < 0x80) \<Longrightarrow> utf8_valid bs"
  by (induction bs) auto

definition is_ascii_alphanumeric :: "u8 \<Rightarrow> bool" where
  "is_ascii_alphanumeric b =
    ((byte_of CHR ''0'' \<le> b \<and> b \<le> byte_of CHR ''9'') \<or>
     (byte_of CHR ''A'' \<le> b \<and> b \<le> byte_of CHR ''Z'') \<or>
     (byte_of CHR ''a'' \<le> b \<and> b \<le> byte_of CHR ''z''))"

lemma is_ascii_alphanumeric_range: "is_ascii_alphanumeric b \<Longrightarrow> 0 < b \<and> b < 0x80"
  by (auto simp: is_ascii_alphanumeric_def byte_of_def word_less_nat_alt word_le_nat_alt)

section \<open>Splitting\<close>

fun split_once :: "char \<Rightarrow> string \<Rightarrow> (string \<times> string) option" where
  "split_once c [] = None"
| "split_once c (x # xs) =
    (if x = c then Some ([], xs)
     else case split_once c xs of None \<Rightarrow> None | Some (a, b) \<Rightarrow> Some (x # a, b))"

fun splitn :: "nat \<Rightarrow> char \<Rightarrow> string \<Rightarrow> string list" where
  "splitn 0 c s = []"
| "splitn (Suc 0) c s = [s]"
| "splitn (Suc (Suc n)) c s =
    (case split_once c s of None \<Rightarrow> [s] | Some (a, b) \<Rightarrow> a # splitn (Suc n) c b)"

lemma split_once_append [simp]: "c \<notin> set a \<Longrightarrow> split_once c (a @ c # b) = Some (a, b)"
  by (induction a) auto

lemma split_once_Some: "split_once c s = Some (a, b) \<longleftrightarrow> s = a @ c # b \<and> c \<notin> set a"
proof
  show "split_once c s = Some (a, b) \<Longrightarrow> s = a @ c # b \<and> c \<notin> set a"
    by (induction s arbitrary: a) (auto split: if_splits option.splits prod.splits)
qed auto

section \<open>Decimal numbers\<close>

definition digit :: "nat \<Rightarrow> char" where
  "digit d = char_of (48 + d)"

definition digit_val :: "char \<Rightarrow> nat option" where
  "digit_val c =
    (let n = of_char c in if 48 \<le> n \<and> n \<le> 57 then Some (n - 48) else None)"

fun show_nat :: "nat \<Rightarrow> string" where
  "show_nat n = (if n < 10 then [digit n] else show_nat (n div 10) @ [digit (n mod 10)])"

declare show_nat.simps [simp del]

text \<open>\<^verbatim>\<open>{:010}\<close>: at least \<open>w\<close> digits, padded with zeros on the left.\<close>

definition fmt_pad :: "nat \<Rightarrow> nat \<Rightarrow> string" where
  "fmt_pad w n = (let d = show_nat n in replicate (w - length d) (CHR ''0'') @ d)"

text \<open>
  The checked accumulation of \<^verbatim>\<open>u64::from_str_radix(_, 10)\<close>: \<^const>\<open>None\<close> for an invalid digit or an
  overflow. \<^verbatim>\<open>parse::<u64>\<close> rejects the empty string and a lone sign, and accepts one leading
  \<^verbatim>\<open>+\<close>.
\<close>

fun parse_digits :: "nat \<Rightarrow> string \<Rightarrow> nat option" where
  "parse_digits acc [] = Some acc"
| "parse_digits acc (c # cs) =
    (case digit_val c of
       None \<Rightarrow> None
     | Some d \<Rightarrow> if acc * 10 + d \<le> U64_MAX then parse_digits (acc * 10 + d) cs else None)"

definition parse_u64 :: "string \<Rightarrow> u64 option" where
  "parse_u64 s =
    (case s of
       [] \<Rightarrow> None
     | c # cs \<Rightarrow>
         if c = CHR ''+'' then (if cs = [] then None else map_option of_nat (parse_digits 0 cs))
         else map_option of_nat (parse_digits 0 s))"

lemma of_char_digit [simp]: "d < 10 \<Longrightarrow> of_char (digit d) = 48 + d"
  by (simp add: digit_def of_char_of)

lemma digit_val_digit [simp]: "d < 10 \<Longrightarrow> digit_val (digit d) = Some d"
  by (simp add: digit_val_def)

lemma digit_zero: "CHR ''0'' = digit 0"
proof -
  have "(of_char (CHR ''0'') :: nat) = of_char (digit 0)"
    by simp
  then show ?thesis
    by (simp only: of_char_eq_iff)
qed

lemma set_show_nat: "c \<in> set (show_nat n) \<Longrightarrow> \<exists>d < 10. c = digit d"
proof (induction n rule: show_nat.induct)
  case (1 n)
  then show ?case
    by (subst (asm) (2) show_nat.simps) (auto split: if_splits intro: exI [of _ "n mod 10"])
qed

lemma set_fmt_pad: "c \<in> set (fmt_pad w n) \<Longrightarrow> \<exists>d < 10. c = digit d"
proof -
  assume "c \<in> set (fmt_pad w n)"
  then have "c = CHR ''0'' \<or> c \<in> set (show_nat n)"
    by (auto simp: fmt_pad_def Let_def split: if_splits)
  then show ?thesis
    using set_show_nat digit_zero by (metis zero_less_numeral)
qed

lemma show_nat_not_Nil [simp]: "show_nat n \<noteq> []"
  by (subst show_nat.simps) simp

lemma fmt_pad_not_Nil [simp]: "fmt_pad w n \<noteq> []"
  by (simp add: fmt_pad_def Let_def)

lemma digit_not_separator:
  assumes "d < 10"
  shows "digit d \<noteq> CHR ''/''" "digit d \<noteq> CHR ''-''" "digit d \<noteq> CHR ''+''"
proof -
  have "of_char (digit d) \<ge> (48 :: nat)"
    using assms by simp
  then show "digit d \<noteq> CHR ''/''" "digit d \<noteq> CHR ''-''" "digit d \<noteq> CHR ''+''"
    by auto
qed

lemma fmt_pad_separators [simp]:
  "CHR ''/'' \<notin> set (fmt_pad w n)" "CHR ''-'' \<notin> set (fmt_pad w n)" "CHR ''+'' \<notin> set (fmt_pad w n)"
  using set_fmt_pad digit_not_separator by metis+

lemma parse_digits_append:
  "parse_digits acc (xs @ ys) =
    (case parse_digits acc xs of None \<Rightarrow> None | Some a \<Rightarrow> parse_digits a ys)"
  by (induction xs arbitrary: acc) (auto split: option.splits)

lemma parse_digits_zeros [simp]: "parse_digits 0 (replicate k (CHR ''0'') @ xs) = parse_digits 0 xs"
  by (induction k) (simp_all add: digit_zero)

lemma parse_digits_show_nat: "n \<le> U64_MAX \<Longrightarrow> parse_digits 0 (show_nat n) = Some n"
proof (induction n rule: show_nat.induct)
  case (1 n)
  show ?case
  proof (cases "n < 10")
    case True
    then show ?thesis
      by (subst show_nat.simps) simp
  next
    case False
    then have "parse_digits 0 (show_nat (n div 10)) = Some (n div 10)"
      using 1 by simp
    with False 1(2) show ?thesis
      by (subst show_nat.simps) (simp add: parse_digits_append)
  qed
qed

lemma parse_u64_digits:
  "s \<noteq> [] \<Longrightarrow> CHR ''+'' \<notin> set s \<Longrightarrow> parse_u64 s = map_option of_nat (parse_digits 0 s)"
  by (cases s) (auto simp: parse_u64_def)

lemma parse_u64_fmt_pad [simp]: "parse_u64 (fmt_pad w (unat (n :: u64))) = Some n"
proof -
  have "parse_digits 0 (fmt_pad w (unat n)) = Some (unat n)"
    by (simp add: fmt_pad_def Let_def parse_digits_show_nat)
  then show ?thesis
    by (simp add: parse_u64_digits)
qed

section \<open>Slices\<close>

text \<open>
  \<^verbatim>\<open>slice::binary_search_by\<close> with the comparator applied by index. The loop halves \<open>sz\<close> and
  probes once more at the end.
\<close>

function bsearch_loop :: "(nat \<Rightarrow> ordering) \<Rightarrow> nat \<Rightarrow> nat \<Rightarrow> nat" where
  "bsearch_loop f base sz =
    (if sz \<le> 1 then base
     else let half = sz div 2; mid = base + half
          in bsearch_loop f (if f mid = Greater then base else mid) (sz - half))"
  by pat_completeness auto
termination
  by (relation "measure (\<lambda>(f, base, sz). sz)") auto

declare bsearch_loop.simps [simp del]

definition slice_binary_search_by :: "nat \<Rightarrow> (nat \<Rightarrow> ordering) \<Rightarrow> (nat, nat) result" where
  "slice_binary_search_by n f =
    (if n = 0 then Err 0
     else let base = bsearch_loop f 0 n in
       case f base of Equal \<Rightarrow> Ok base | Less \<Rightarrow> Err (base + 1) | Greater \<Rightarrow> Err base)"

lemma bsearch_loop_base: "sz \<le> 1 \<Longrightarrow> bsearch_loop f base sz = base"
  by (subst bsearch_loop.simps) simp

lemma bsearch_loop_step:
  "\<not> sz \<le> 1 \<Longrightarrow> bsearch_loop f base sz =
    bsearch_loop f (if f (base + sz div 2) = Greater then base else base + sz div 2) (sz - sz div 2)"
  by (subst bsearch_loop.simps) (simp add: Let_def)

lemma bsearch_loop_bounds:
  "0 < sz \<Longrightarrow> base \<le> bsearch_loop f base sz \<and> bsearch_loop f base sz < base + sz"
proof (induction f base sz rule: bsearch_loop.induct)
  case (1 f base sz)
  show ?case
  proof (cases "sz \<le> 1")
    case True
    with 1(2) show ?thesis
      by (simp add: bsearch_loop_base)
  next
    case False
    then show ?thesis
      using 1(1) [OF False refl refl] by (auto simp: bsearch_loop_step [OF False])
  qed
qed

text \<open>
  On an ascending comparator the loop ends on the last position that is not \<open>Greater\<close>, provided
  the invariant holds at the start: everything before \<open>base\<close> is not \<open>Greater\<close>, everything from
  \<open>base + sz\<close> on is.
\<close>

lemma bsearch_loop_last:
  assumes "ascending_cmp n f" "0 < sz" "base + sz \<le> n"
    and "base = 0 \<or> f base \<noteq> Greater"
    and "\<forall>i. base + sz \<le> i \<and> i < n \<longrightarrow> f i = Greater"
  shows "let r = bsearch_loop f base sz in
    (r = 0 \<or> f r \<noteq> Greater) \<and> (\<forall>i. r < i \<and> i < n \<longrightarrow> f i = Greater)"
  using assms
proof (induction f base sz rule: bsearch_loop.induct)
  case (1 f base sz)
  show ?case
  proof (cases "sz \<le> 1")
    case True
    with 1(3) have "sz = 1" by simp
    with 1(5,6) show ?thesis
      by (simp add: bsearch_loop_base Let_def Suc_le_eq)
  next
    case False
    define mid where "mid = base + sz div 2"
    have mid: "mid < n" "base < mid"
      using False 1(4) by (auto simp: mid_def)
    have up: "f i = Greater" if "f mid = Greater" "mid \<le> i" "i < n" for i
      using ascending_cmp_Greater [OF 1(2), of mid i] that by simp
    have "let r = bsearch_loop f (if f mid = Greater then base else mid) (sz - sz div 2) in
      (r = 0 \<or> f r \<noteq> Greater) \<and> (\<forall>i. r < i \<and> i < n \<longrightarrow> f i = Greater)"
    proof (rule 1(1) [OF False refl, unfolded mid_def [symmetric], OF refl 1(2)])
      show "\<forall>i. (if f mid = Greater then base else mid) + (sz - sz div 2) \<le> i \<and> i < n
          \<longrightarrow> f i = Greater"
        using 1(6) up by (auto simp: mid_def)
    qed (use False 1(4,5) mid in \<open>auto simp: mid_def\<close>)
    then show ?thesis
      by (simp only: bsearch_loop_step [OF False] mid_def)
  qed
qed

lemma slice_binary_search_by_Ok: "slice_binary_search_by n f = Ok i \<Longrightarrow> i < n \<and> f i = Equal"
  using bsearch_loop_bounds [of n 0 f]
  by (auto simp: slice_binary_search_by_def Let_def split: if_splits ordering.splits)

lemma slice_binary_search_by_Err:
  assumes "ascending_cmp n f" "slice_binary_search_by n f = Err p"
  shows "p \<le> n \<and> (\<forall>i < p. f i = Less) \<and> (\<forall>i. p \<le> i \<and> i < n \<longrightarrow> f i = Greater)"
proof (cases "n = 0")
  case True
  with assms show ?thesis by (simp add: slice_binary_search_by_def)
next
  case False
  define r where "r = bsearch_loop f 0 n"
  have "let r = bsearch_loop f 0 n in
      (r = 0 \<or> f r \<noteq> Greater) \<and> (\<forall>i. r < i \<and> i < n \<longrightarrow> f i = Greater)"
    by (rule bsearch_loop_last [OF assms(1)]) (use False in auto)
  then have r: "r < n" "r = 0 \<or> f r \<noteq> Greater" "\<forall>i. r < i \<and> i < n \<longrightarrow> f i = Greater"
    using bsearch_loop_bounds [of n 0 f] False by (simp_all add: r_def Let_def)
  show ?thesis
  proof (cases "f r")
    case Less
    then have "p = r + 1"
      using assms(2) False by (simp add: slice_binary_search_by_def r_def Let_def)
    with Less r ascending_cmp_Less [OF assms(1) _ r(1) Less] show ?thesis
      by auto
  next
    case Greater
    then have "p = r" "r = 0"
      using assms(2) False r by (auto simp: slice_binary_search_by_def r_def [symmetric] Let_def)
    with Greater r show ?thesis
      by (auto simp: le_less)
  next
    case Equal
    with assms(2) False show ?thesis
      by (simp add: slice_binary_search_by_def r_def Let_def)
  qed
qed

end
