(* ===== verification/Search.thy ===== *)
theory Search
  imports Rust_Std
begin

text \<open>
  The three binary searches of \<^verbatim>\<open>crates/assignments/src/reader.rs\<close>, over a length and a comparator
  by index: \<^verbatim>\<open>partition_point\<close>, \<^verbatim>\<open>lookup_index_by_key\<close> and \<^verbatim>\<open>binary_search_by\<close>. Each
  loop is total by a measure on its interval. The locale \<open>key_search\<close> is what a caller needs of a
  lookup by key; it holds of the reader's own search and of the standard library's, and it is also
  the documented behaviour assumed of \<^verbatim>\<open>flatbuffers::Vector::lookup_by_key\<close>, which is not part of
  the sources.
\<close>

section \<open>partition\_point\<close>

function partition_loop :: "(nat \<Rightarrow> bool) \<Rightarrow> nat \<Rightarrow> nat \<Rightarrow> nat" where
  "partition_loop pred low high =
    (if low < high then
       let mid = low + (high - low) div 2
       in if pred mid then partition_loop pred (mid + 1) high else partition_loop pred low mid
     else low)"
  by pat_completeness auto
termination
  by (relation "measure (\<lambda>(pred, low, high). high - low)") auto

declare partition_loop.simps [simp del]

definition partition_point :: "nat \<Rightarrow> (nat \<Rightarrow> bool) \<Rightarrow> nat" where
  "partition_point len pred = partition_loop pred 0 len"

lemma partition_loop_post:
  assumes "low \<le> high" "high \<le> n" "low = 0 \<or> pred (low - 1)" "high = n \<or> \<not> pred high"
  shows "low \<le> partition_loop pred low high \<and> partition_loop pred low high \<le> high \<and>
    (partition_loop pred low high = 0 \<or> pred (partition_loop pred low high - 1)) \<and>
    (partition_loop pred low high = n \<or> \<not> pred (partition_loop pred low high))"
  using assms
proof (induction pred low high rule: partition_loop.induct)
  case (1 pred low high)
  define mid where "mid = low + (high - low) div 2"
  show ?case
  proof (cases "low < high")
    case True
    then have mid: "low \<le> mid" "mid < high"
      by (auto simp: mid_def)
    show ?thesis
    proof (cases "pred mid")
      case True
      have "partition_loop pred low high = partition_loop pred (mid + 1) high"
        using \<open>low < high\<close> True by (subst partition_loop.simps) (simp add: Let_def mid_def)
      with 1(1) [OF \<open>low < high\<close> mid_def True] mid True 1(4,6) show ?thesis
        by auto
    next
      case False
      have "partition_loop pred low high = partition_loop pred low mid"
        using \<open>low < high\<close> False by (subst partition_loop.simps) (simp add: Let_def mid_def)
      with 1(2) [OF \<open>low < high\<close> mid_def False] mid False 1(4,5) show ?thesis
        by auto
    qed
  next
    case False
    then have "partition_loop pred low high = low"
      by (subst partition_loop.simps) simp
    with False 1(3,5,6) show ?thesis
      by auto
  qed
qed

text \<open>Without any assumption on the predicate: the result separates a hit from a miss.\<close>

lemma partition_point_boundary:
  "partition_point n pred \<le> n"
  "0 < partition_point n pred \<Longrightarrow> pred (partition_point n pred - 1)"
  "partition_point n pred < n \<Longrightarrow> \<not> pred (partition_point n pred)"
  using partition_loop_post [of 0 n n pred] by (auto simp: partition_point_def)

definition prefix_pred :: "nat \<Rightarrow> (nat \<Rightarrow> bool) \<Rightarrow> bool" where
  "prefix_pred n pred = (\<forall>j < n. pred j \<longrightarrow> (\<forall>i \<le> j. pred i))"

lemma partition_point_prefix:
  assumes "prefix_pred n pred" "i < n"
  shows "pred i \<longleftrightarrow> i < partition_point n pred"
proof (cases "i < partition_point n pred")
  case True
  then have "pred (partition_point n pred - 1)" "partition_point n pred - 1 < n"
    "i \<le> partition_point n pred - 1"
    using partition_point_boundary [of n pred] by auto
  with assms(1) True show ?thesis
    unfolding prefix_pred_def by blast
next
  case False
  then have "\<not> pred (partition_point n pred)"
    using partition_point_boundary(3) [of n pred] assms(2) by simp
  with assms False show ?thesis
    unfolding prefix_pred_def by (meson not_less)
qed

lemma partition_point_eqI:
  assumes "k \<le> n" "\<And>i. i < n \<Longrightarrow> pred i \<longleftrightarrow> i < k"
  shows "partition_point n pred = k"
proof -
  have "prefix_pred n pred"
    using assms(2) unfolding prefix_pred_def by (meson le_less_trans order_less_trans)
  then have "i < k \<longleftrightarrow> i < partition_point n pred" if "i < n" for i
    using partition_point_prefix assms(2) that by blast
  from this [of k] this [of "partition_point n pred"] show ?thesis
    using partition_point_boundary(1) [of n pred] assms(1) by fastforce
qed

section \<open>lookup\_index\_by\_key\<close>

text \<open>The comparator may panic (\<^verbatim>\<open>get_worker\<close> parses a peer id in it), so it returns an outcome.\<close>

function lookup_loop :: "(nat \<Rightarrow> ordering outcome) \<Rightarrow> nat \<Rightarrow> nat \<Rightarrow> nat option outcome" where
  "lookup_loop f left right =
    (if left \<le> right then
       let mid = (left + right) div 2
       in case f mid of
            Panic m \<Rightarrow> Panic m
          | Return Equal \<Rightarrow> Return (Some mid)
          | Return Less \<Rightarrow> lookup_loop f (mid + 1) right
          | Return Greater \<Rightarrow> if mid = 0 then Return None else lookup_loop f left (mid - 1)
     else Return None)"
  by pat_completeness auto
termination
  by (relation "measure (\<lambda>(f, left, right). Suc right - left)") auto

declare lookup_loop.simps [simp del]

definition lookup_index_by_key :: "nat \<Rightarrow> (nat \<Rightarrow> ordering outcome) \<Rightarrow> nat option outcome" where
  "lookup_index_by_key len f = (if len = 0 then Return None else lookup_loop f 0 (len - 1))"

lemma lookup_loop_cases:
  fixes left right :: nat
  defines "mid \<equiv> (left + right) div 2"
  assumes "\<And>i. left \<le> i \<Longrightarrow> i \<le> right \<Longrightarrow> f i = Return (g i)"
  shows "lookup_loop f left right =
    (if left \<le> right then
       case g mid of Equal \<Rightarrow> Return (Some mid) | Less \<Rightarrow> lookup_loop f (mid + 1) right
       | Greater \<Rightarrow> if mid = 0 then Return None else lookup_loop f left (mid - 1)
     else Return None)"
proof (cases "left \<le> right")
  case True
  then have "f mid = Return (g mid)"
    using assms(2) by (simp add: mid_def)
  with True show ?thesis
    by (subst lookup_loop.simps) (simp add: Let_def mid_def split: ordering.split)
next
  case False
  then show ?thesis
    by (subst lookup_loop.simps) simp
qed

lemma lookup_loop_correct:
  assumes "\<And>i. left \<le> i \<Longrightarrow> i \<le> right \<Longrightarrow> f i = Return (g i)"
    and "ascending_cmp n g" "right < n" "left \<le> right + 1"
  shows "\<exists>r. lookup_loop f left right = Return r \<and>
    (case r of Some i \<Rightarrow> i < n \<and> g i = Equal
     | None \<Rightarrow> \<forall>i. left \<le> i \<and> i \<le> right \<longrightarrow> g i \<noteq> Equal)"
  using assms
proof (induction f left right rule: lookup_loop.induct)
  case (1 f left right)
  define mid where "mid = (left + right) div 2"
  note step = lookup_loop_cases [of left right f g, OF 1(3), folded mid_def]
  show ?case
  proof (cases "left \<le> right")
    case False
    with step show ?thesis by auto
  next
    case True
    then have mid: "left \<le> mid" "mid \<le> right"
      by (auto simp: mid_def)
    then have fmid: "f mid = Return (g mid)"
      using 1(3) by simp
    show ?thesis
    proof (cases "g mid")
      case Equal
      with True step mid 1(5) show ?thesis by auto
    next
      case Less
      have low: "g i \<noteq> Equal" if "i \<le> mid" for i
        using ascending_cmp_Less [OF 1(4) that] mid(2) 1(5) Less by auto
      obtain r where "lookup_loop f (mid + 1) right = Return r"
        "case r of Some i \<Rightarrow> i < n \<and> g i = Equal
         | None \<Rightarrow> \<forall>i. mid + 1 \<le> i \<and> i \<le> right \<longrightarrow> g i \<noteq> Equal"
        using 1(1) [OF True mid_def fmid Less] 1(3-5) mid by fastforce
      with True Less step low show ?thesis
        by (auto split: option.splits simp: not_less_eq_eq [symmetric])
    next
      case Greater
      have high: "g i \<noteq> Equal" if "mid \<le> i" "i \<le> right" for i
        using ascending_cmp_Greater [OF 1(4) that(1)] that 1(5) Greater by auto
      show ?thesis
      proof (cases "mid = 0")
        case True
        with \<open>left \<le> right\<close> Greater step high show ?thesis by auto
      next
        case False
        obtain r where "lookup_loop f left (mid - 1) = Return r"
          "case r of Some i \<Rightarrow> i < n \<and> g i = Equal
           | None \<Rightarrow> \<forall>i. left \<le> i \<and> i \<le> mid - 1 \<longrightarrow> g i \<noteq> Equal"
          using 1(2) [OF True mid_def fmid Greater False] 1(3-5) mid by fastforce
        with True False Greater step high show ?thesis
          by (auto split: option.splits) (metis Suc_pred le_simps(2) not_less)
      qed
    qed
  qed
qed

lemma lookup_loop_Some:
  "lookup_loop f left right = Return (Some i) \<Longrightarrow> left \<le> i \<and> i \<le> right \<and> f i = Return Equal"
proof (induction f left right rule: lookup_loop.induct)
  case (1 f left right)
  define mid where "mid = (left + right) div 2"
  from 1(3) have "left \<le> right"
    by (subst (asm) lookup_loop.simps) (simp split: if_splits)
  with 1(3) have step: "(case f mid of Panic m \<Rightarrow> Panic m | Return Equal \<Rightarrow> Return (Some mid)
      | Return Less \<Rightarrow> lookup_loop f (mid + 1) right
      | Return Greater \<Rightarrow> if mid = 0 then Return None else lookup_loop f left (mid - 1)) = Return (Some i)"
    unfolding mid_def by (subst (asm) lookup_loop.simps) (simp only: Let_def simp_thms if_True)
  have "left \<le> mid" "mid \<le> right"
    using \<open>left \<le> right\<close> by (auto simp: mid_def)
  with step 1(1,2) [OF \<open>left \<le> right\<close> mid_def] show ?case
    by (fastforce split: outcome.splits ordering.splits if_splits)
qed

lemma lookup_index_by_key_correct:
  assumes "\<And>i. i < n \<Longrightarrow> f i = Return (g i)" "ascending_cmp n g"
  shows "\<exists>r. lookup_index_by_key n f = Return r \<and>
    (case r of Some i \<Rightarrow> i < n \<and> g i = Equal | None \<Rightarrow> \<forall>i < n. g i \<noteq> Equal)"
proof (cases "n = 0")
  case True
  then show ?thesis by (simp add: lookup_index_by_key_def)
next
  case False
  obtain r where "lookup_loop f 0 (n - 1) = Return r"
    "case r of Some i \<Rightarrow> i < n \<and> g i = Equal | None \<Rightarrow> \<forall>i. 0 \<le> i \<and> i \<le> n - 1 \<longrightarrow> g i \<noteq> Equal"
    using lookup_loop_correct [of 0 "n - 1" f g n] assms False by fastforce
  with False show ?thesis
    by (auto simp: lookup_index_by_key_def split: option.splits)
qed

section \<open>binary\_search\_by\<close>

text \<open>
  The bounds are \<^verbatim>\<open>isize\<close>, \<open>left\<close> starting at \<open>-1\<close>; their sum is never negative inside the loop, so
  the truncating division of the source is \<open>div\<close>.
\<close>

function bs_loop :: "(nat \<Rightarrow> ordering) \<Rightarrow> int \<Rightarrow> int \<Rightarrow> (nat option, nat) result" where
  "bs_loop f left right =
    (if left + 1 < right then
       let mid = (left + right) div 2
       in case f (nat mid) of
            Less \<Rightarrow> bs_loop f mid right
          | Greater \<Rightarrow> bs_loop f left mid
          | Equal \<Rightarrow> Ok (nat mid)
     else Err (if left = -1 then None else Some (nat left)))"
  by pat_completeness auto
termination
  by (relation "measure (\<lambda>(f, left, right). nat (right - left))") auto

declare bs_loop.simps [simp del]

definition binary_search_by :: "nat \<Rightarrow> (nat \<Rightarrow> ordering) \<Rightarrow> (nat option, nat) result" where
  "binary_search_by len f = bs_loop f (-1) (int len)"

text \<open>
  What the documentation of the search promises: an equal position, or the greatest position
  comparing less, or that there is none.
\<close>

definition bs_post :: "nat \<Rightarrow> (nat \<Rightarrow> ordering) \<Rightarrow> (nat option, nat) result \<Rightarrow> bool" where
  "bs_post n f r =
    (case r of
       Ok i \<Rightarrow> i < n \<and> f i = Equal
     | Err None \<Rightarrow> (\<forall>j < n. f j = Greater)
     | Err (Some i) \<Rightarrow> i < n \<and> (\<forall>j < n. f j = (if j \<le> i then Less else Greater)))"

lemma bs_loop_correct:
  assumes "ascending_cmp n f" "-1 \<le> left" "left < right" "right \<le> int n"
    and "left = -1 \<or> f (nat left) = Less" "right = int n \<or> f (nat right) = Greater"
  shows "bs_post n f (bs_loop f left right)"
  using assms
proof (induction f left right rule: bs_loop.induct)
  case (1 f left right)
  define mid where "mid = (left + right) div 2"
  show ?case
  proof (cases "left + 1 < right")
    case True
    then have mid: "left < mid" "mid < right" "0 \<le> mid"
      using 1(4) by (auto simp: mid_def)
    have step: "bs_loop f left right = (case f (nat mid) of
        Less \<Rightarrow> bs_loop f mid right | Greater \<Rightarrow> bs_loop f left mid | Equal \<Rightarrow> Ok (nat mid))"
      unfolding mid_def using True by (subst bs_loop.simps) (simp only: Let_def if_True simp_thms)
    show ?thesis
    proof (cases "f (nat mid)")
      case Less
      with 1(1) [OF True mid_def Less 1(3)] mid step 1(6,8) show ?thesis by simp
    next
      case Greater
      with 1(2) [OF True mid_def Greater 1(3)] mid step 1(4,6,7) show ?thesis by simp
    next
      case Equal
      with step mid 1(6) show ?thesis by (simp add: bs_post_def)
    qed
  next
    case False
    then have eq: "right = left + 1"
      "bs_loop f left right = Err (if left = -1 then None else Some (nat left))"
      using 1(5) by (simp, subst bs_loop.simps, simp)
    have up: "f j = Greater" if "right \<le> int j" "j < n" for j
      using 1(8) ascending_cmp_Greater [OF 1(3), of "nat right" j] that 1(4,5) by auto
    have low: "f j = Less" if "int j \<le> left" for j
      using 1(7) ascending_cmp_Less [OF 1(3), of j "nat left"] that 1(5,6) by auto
    show ?thesis
      using eq up low 1(4-6) by (auto simp: bs_post_def)
  qed
qed

lemma binary_search_by_post: "ascending_cmp n f \<Longrightarrow> bs_post n f (binary_search_by n f)"
  unfolding binary_search_by_def by (rule bs_loop_correct) auto

section \<open>Search by key\<close>

locale key_search =
  fixes find_by :: "nat \<Rightarrow> (nat \<Rightarrow> ordering) \<Rightarrow> nat option"
  assumes find_sound: "find_by n f = Some i \<Longrightarrow> i < n \<and> f i = Equal"
    and find_complete: "ascending_cmp n f \<Longrightarrow> i < n \<Longrightarrow> f i = Equal \<Longrightarrow> find_by n f \<noteq> None"
begin

text \<open>On a vector sorted by key, the search finds an entry exactly when the key is present.\<close>

lemma find_key_Some:
  "find_by (length xs) (\<lambda>i. cmp (key (xs ! i)) k) = Some i \<Longrightarrow> i < length xs \<and> key (xs ! i) = k"
  using find_sound [of "length xs" "\<lambda>i. cmp (key (xs ! i)) k"] by simp

lemma find_key_None_iff:
  assumes "sorted (map key xs)"
  shows "find_by (length xs) (\<lambda>i. cmp (key (xs ! i)) k) = None \<longleftrightarrow> k \<notin> key ` set xs"
    (is "?find = None \<longleftrightarrow> _")
proof
  assume none: "?find = None"
  show "k \<notin> key ` set xs"
  proof
    assume "k \<in> key ` set xs"
    then obtain i where "i < length xs" "key (xs ! i) = k"
      by (auto simp: in_set_conv_nth)
    with find_complete [OF ascending_cmp_sorted [OF assms], of i k] none show False
      by simp
  qed
next
  assume notin: "k \<notin> key ` set xs"
  show "?find = None"
  proof (rule ccontr)
    assume "?find \<noteq> None"
    then obtain i where "?find = Some i" by blast
    from find_key_Some [OF this] notin show False by auto
  qed
qed

text \<open>With distinct keys the position is the one holding the key.\<close>

lemma find_key_eq:
  assumes "sorted_wrt (<) (map key xs)" "i < length xs" "key (xs ! i) = k"
  shows "find_by (length xs) (\<lambda>i. cmp (key (xs ! i)) k) = Some i"
proof -
  have "find_by (length xs) (\<lambda>i. cmp (key (xs ! i)) k) \<noteq> None"
    using assms find_key_None_iff [OF sorted_wrt_less_sorted [OF assms(1)], of k] by auto
  then obtain j where j: "find_by (length xs) (\<lambda>i. cmp (key (xs ! i)) k) = Some j"
    by blast
  have "j = i"
    using find_key_Some [OF j] assms sorted_wrt_less_distinct [OF assms(1)]
    by (simp add: distinct_conv_nth) blast
  with j show ?thesis by simp
qed

end

text \<open>The reader's lookup with a comparator that cannot panic.\<close>

definition lookup_index_pure :: "nat \<Rightarrow> (nat \<Rightarrow> ordering) \<Rightarrow> nat option" where
  "lookup_index_pure n f =
    (case lookup_index_by_key n (\<lambda>i. Return (f i)) of Return r \<Rightarrow> r | Panic m \<Rightarrow> None)"

lemma lookup_index_by_key_pure:
  assumes "\<And>i. i < n \<Longrightarrow> f i = Return (g i)" "ascending_cmp n g"
  obtains r where "lookup_index_by_key n f = Return r"
    and "r = None \<Longrightarrow> \<forall>i < n. g i \<noteq> Equal" and "\<And>i. r = Some i \<Longrightarrow> i < n \<and> g i = Equal"
  using lookup_index_by_key_correct [OF assms] by (auto split: option.splits)

interpretation index_search: key_search lookup_index_pure
proof
  show "i < n \<and> f i = Equal" if "lookup_index_pure n f = Some i" for n f i
  proof -
    have "lookup_loop (\<lambda>i. Return (f i)) 0 (n - 1) = Return (Some i)" "n \<noteq> 0"
      using that by (auto simp: lookup_index_pure_def lookup_index_by_key_def
          split: outcome.splits if_splits)
    from lookup_loop_Some [OF this(1)] this(2) show ?thesis by auto
  qed
  show "lookup_index_pure n f \<noteq> None" if "ascending_cmp n f" "i < n" "f i = Equal" for n f i
    using lookup_index_by_key_correct [of n "\<lambda>i. Return (f i)" f] that
    by (auto simp: lookup_index_pure_def split: option.splits)
qed

definition slice_find :: "nat \<Rightarrow> (nat \<Rightarrow> ordering) \<Rightarrow> nat option" where
  "slice_find n f = (case slice_binary_search_by n f of Ok i \<Rightarrow> Some i | Err e \<Rightarrow> None)"

interpretation slice_search: key_search slice_find
proof
  show "slice_find n f = Some i \<Longrightarrow> i < n \<and> f i = Equal" for n f i
    using slice_binary_search_by_Ok [of n f i] by (auto simp: slice_find_def split: result.splits)
  show "slice_find n f \<noteq> None" if "ascending_cmp n f" "i < n" "f i = Equal" for n f i
  proof
    assume "slice_find n f = None"
    then obtain p where "slice_binary_search_by n f = Err p"
      by (auto simp: slice_find_def split: result.splits)
    from slice_binary_search_by_Err [OF that(1) this] that(2,3) show False
      by (cases "i < p") auto
  qed
qed

end
