(* ===== verification/Data_Chunk.thy ===== *)
theory Data_Chunk
  imports Rust_Std
begin

text \<open>
  The validated chunk identifier of \<^verbatim>\<open>crates/data-chunk/src/lib.rs\<close>: the struct, its checked
  constructor, the accessors, \<^verbatim>\<open>Display\<close> and \<^verbatim>\<open>FromStr\<close>. The invariant \<open>dc_wf\<close> is what the
  constructor establishes; \<^verbatim>\<open>last_hash\<close> panics only outside it, printing is injective on it, and
  parsing inverts printing.
\<close>

definition HASH_MIN_LEN :: nat where "HASH_MIN_LEN = 5"
definition HASH_MAX_LEN :: nat where "HASH_MAX_LEN = 8"

record data_chunk =
  dc_top :: u64
  dc_first_block :: u64
  dc_last_block :: u64
  dc_last_hash :: "u8 list"

definition valid_hash :: "string \<Rightarrow> bool" where
  "valid_hash h =
    (HASH_MIN_LEN \<le> length h \<and> length h \<le> HASH_MAX_LEN \<and>
     list_all (\<lambda>b. is_ascii_alphanumeric b \<or> b = byte_of CHR ''_'') (as_bytes h))"

definition pad_hash :: "string \<Rightarrow> u8 list" where
  "pad_hash h = as_bytes h @ replicate (HASH_MAX_LEN - length h) 0"

definition data_chunk_new :: "u64 \<Rightarrow> u64 \<Rightarrow> u64 \<Rightarrow> string \<Rightarrow> data_chunk option" where
  "data_chunk_new tp first_block last_block last_hash =
    (if \<not> (valid_hash last_hash \<and> tp \<le> first_block \<and> first_block \<le> last_block) then None
     else Some \<lparr>dc_top = tp, dc_first_block = first_block, dc_last_block = last_block,
                dc_last_hash = pad_hash last_hash\<rparr>)"

text \<open>The bytes up to the first NUL, all of them when there is none.\<close>

definition until_nul :: "u8 list \<Rightarrow> u8 list" where
  "until_nul bs = takeWhile (\<lambda>b. b \<noteq> 0) bs"

definition data_chunk_last_hash :: "data_chunk \<Rightarrow> string outcome" where
  "data_chunk_last_hash c = expect ''ASCII hash'' (from_utf8 (until_nul (dc_last_hash c)))"

definition data_chunk_display :: "data_chunk \<Rightarrow> string outcome" where
  "data_chunk_display c =
    outcome_map
      (\<lambda>h. fmt_pad 10 (unat (dc_top c)) @ ''/'' @ fmt_pad 10 (unat (dc_first_block c)) @ ''-'' @
           fmt_pad 10 (unat (dc_last_block c)) @ ''-'' @ h)
      (data_chunk_last_hash c)"

definition data_chunk_from_str :: "string \<Rightarrow> data_chunk option" where
  "data_chunk_from_str s =
    (case split_once CHR ''/'' s of
       None \<Rightarrow> None
     | Some (tp, rng) \<Rightarrow>
         (case splitn 3 CHR ''-'' rng of
            [first_block, last_block, h] \<Rightarrow>
              (case parse_u64 tp of
                 None \<Rightarrow> None
               | Some t \<Rightarrow>
                   (case parse_u64 first_block of
                      None \<Rightarrow> None
                    | Some f \<Rightarrow>
                        (case parse_u64 last_block of
                           None \<Rightarrow> None
                         | Some l \<Rightarrow> data_chunk_new t f l h)))
          | _ \<Rightarrow> None))"

section \<open>Well-formed chunks\<close>

definition dc_wf :: "data_chunk \<Rightarrow> bool" where
  "dc_wf c = (dc_top c \<le> dc_first_block c \<and> dc_first_block c \<le> dc_last_block c \<and>
     (let h = string_of_bytes (until_nul (dc_last_hash c))
      in valid_hash h \<and> dc_last_hash c = pad_hash h))"

lemma valid_hash_bytes: "valid_hash h \<Longrightarrow> b \<in> set (as_bytes h) \<Longrightarrow> 0 < b \<and> b < 0x80"
  using is_ascii_alphanumeric_range [of b]
  by (auto simp: valid_hash_def list_all_iff byte_of_def)

lemma until_nul_pad_hash [simp]:
  assumes "valid_hash h"
  shows "until_nul (pad_hash h) = as_bytes h"
proof -
  have "\<forall>b \<in> set (as_bytes h). b \<noteq> 0"
    using valid_hash_bytes [OF assms] by auto
  then show ?thesis
    by (simp add: until_nul_def pad_hash_def takeWhile_tail)
qed

lemma from_utf8_hash [simp]: "valid_hash h \<Longrightarrow> from_utf8 (as_bytes h) = Some h"
  by (simp add: from_utf8_def utf8_valid_ascii valid_hash_bytes)

lemma length_pad_hash [simp]: "valid_hash h \<Longrightarrow> length (pad_hash h) = HASH_MAX_LEN"
  by (simp add: pad_hash_def valid_hash_def)

lemma dc_wf_iff:
  "dc_wf c \<longleftrightarrow> dc_top c \<le> dc_first_block c \<and> dc_first_block c \<le> dc_last_block c \<and>
     (\<exists>h. valid_hash h \<and> dc_last_hash c = pad_hash h)"
  by (auto simp: dc_wf_def Let_def)

lemma dc_wf_hash_length: "dc_wf c \<Longrightarrow> length (dc_last_hash c) = HASH_MAX_LEN"
  by (auto simp: dc_wf_iff)

lemma data_chunk_new_Some:
  "data_chunk_new t f l h = Some c \<longleftrightarrow>
    valid_hash h \<and> t \<le> f \<and> f \<le> l \<and>
    c = \<lparr>dc_top = t, dc_first_block = f, dc_last_block = l, dc_last_hash = pad_hash h\<rparr>"
  by (auto simp: data_chunk_new_def)

lemma data_chunk_new_wf: "data_chunk_new t f l h = Some c \<Longrightarrow> dc_wf c"
  by (auto simp: data_chunk_new_Some dc_wf_iff)

lemma data_chunk_new_last_hash: "data_chunk_new t f l h = Some c \<Longrightarrow> data_chunk_last_hash c = Return h"
  by (auto simp: data_chunk_new_Some data_chunk_last_hash_def)

lemma dc_wf_new: "dc_wf c \<Longrightarrow> \<exists>h. data_chunk_last_hash c = Return h \<and>
    data_chunk_new (dc_top c) (dc_first_block c) (dc_last_block c) h = Some c"
  by (auto simp: dc_wf_iff data_chunk_new_Some data_chunk_last_hash_def)

section \<open>Printing and parsing\<close>

definition chunk_string :: "string \<Rightarrow> string \<Rightarrow> string \<Rightarrow> string \<Rightarrow> string" where
  "chunk_string t f l h = t @ ''/'' @ f @ ''-'' @ l @ ''-'' @ h"

lemma splitn_3:
  "splitn 3 c s = [x, y, z] \<longleftrightarrow> s = x @ c # y @ c # z \<and> c \<notin> set x \<and> c \<notin> set y"
proof
  show "splitn 3 c s = [x, y, z] \<Longrightarrow> s = x @ c # y @ c # z \<and> c \<notin> set x \<and> c \<notin> set y"
    by (auto simp: numeral_3_eq_3 split_once_Some split: option.splits)
qed (simp add: numeral_3_eq_3)

lemma data_chunk_from_str_Some:
  "data_chunk_from_str s = Some c \<longleftrightarrow>
    (\<exists>ts fs ls h t f l. s = chunk_string ts fs ls h \<and>
       CHR ''/'' \<notin> set ts \<and> CHR ''-'' \<notin> set fs \<and> CHR ''-'' \<notin> set ls \<and>
       parse_u64 ts = Some t \<and> parse_u64 fs = Some f \<and> parse_u64 ls = Some l \<and>
       data_chunk_new t f l h = Some c)" (is "?lhs \<longleftrightarrow> ?rhs")
proof
  assume ?lhs
  then obtain ts r fs ls h t f l
    where "split_once CHR ''/'' s = Some (ts, r)" "splitn 3 CHR ''-'' r = [fs, ls, h]"
      and "parse_u64 ts = Some t" "parse_u64 fs = Some f" "parse_u64 ls = Some l"
      and "data_chunk_new t f l h = Some c"
    by (auto simp: data_chunk_from_str_def split: option.splits list.splits prod.splits)
  moreover from this have "s = chunk_string ts fs ls h \<and> CHR ''/'' \<notin> set ts \<and>
      CHR ''-'' \<notin> set fs \<and> CHR ''-'' \<notin> set ls"
    by (simp add: split_once_Some splitn_3 chunk_string_def)
  ultimately show ?rhs
    by blast
next
  assume ?rhs
  then obtain ts fs ls h t f l where s: "s = ts @ CHR ''/'' # fs @ CHR ''-'' # ls @ CHR ''-'' # h"
    "CHR ''/'' \<notin> set ts" "CHR ''-'' \<notin> set fs" "CHR ''-'' \<notin> set ls"
    "parse_u64 ts = Some t" "parse_u64 fs = Some f" "parse_u64 ls = Some l"
    "data_chunk_new t f l h = Some c"
    by (auto simp: chunk_string_def)
  moreover have "splitn 3 CHR ''-'' (fs @ CHR ''-'' # ls @ CHR ''-'' # h) = [fs, ls, h]"
    using s by (simp add: splitn_3)
  ultimately show ?lhs
    by (simp add: data_chunk_from_str_def)
qed

lemma data_chunk_display_wf:
  "dc_wf c \<Longrightarrow> \<exists>h. data_chunk_last_hash c = Return h \<and>
     data_chunk_display c = Return (chunk_string (fmt_pad 10 (unat (dc_top c)))
       (fmt_pad 10 (unat (dc_first_block c))) (fmt_pad 10 (unat (dc_last_block c))) h)"
  using dc_wf_new [of c] by (auto simp: data_chunk_display_def chunk_string_def)

lemma data_chunk_roundtrip:
  assumes "dc_wf c"
  shows "\<exists>s. data_chunk_display c = Return s \<and> data_chunk_from_str s = Some c"
proof -
  obtain h where "data_chunk_last_hash c = Return h"
    "data_chunk_new (dc_top c) (dc_first_block c) (dc_last_block c) h = Some c"
    using dc_wf_new [OF assms] by blast
  moreover obtain s where "data_chunk_display c = Return s"
    "s = chunk_string (fmt_pad 10 (unat (dc_top c))) (fmt_pad 10 (unat (dc_first_block c)))
      (fmt_pad 10 (unat (dc_last_block c))) h"
    using data_chunk_display_wf [OF assms] calculation by auto
  ultimately show ?thesis
    unfolding data_chunk_from_str_Some
    by (metis fmt_pad_separators(1,2) parse_u64_fmt_pad)
qed

text \<open>
  C20: A chunk identifier built by the constructor prints without panicking, and parsing the
  printed string gives the identifier back: \<^verbatim>\<open>FromStr\<close> inverts \<^verbatim>\<open>Display\<close>.
\<close>
theorem data_chunk_print_parse:
  assumes "data_chunk_new tp first_block last_block hash = Some c"
  shows "\<exists>s. data_chunk_display c = Return s \<and> data_chunk_from_str s = Some c \<and>
    s = fmt_pad 10 (unat tp) @ ''/'' @ fmt_pad 10 (unat first_block) @ ''-'' @
        fmt_pad 10 (unat last_block) @ ''-'' @ hash"
proof -
  have "data_chunk_display c = Return (chunk_string (fmt_pad 10 (unat tp))
    (fmt_pad 10 (unat first_block)) (fmt_pad 10 (unat last_block)) hash)"
    using data_chunk_display_wf [OF data_chunk_new_wf [OF assms]] data_chunk_new_last_hash [OF assms]
      assms by (auto simp: data_chunk_new_Some)
  with data_chunk_roundtrip [OF data_chunk_new_wf [OF assms]] show ?thesis
    by (auto simp: chunk_string_def)
qed

theorem data_chunk_print_parse_witness:
  "\<exists>s. data_chunk_display \<lparr>dc_top = 0, dc_first_block = 221, dc_last_block = 1000,
      dc_last_hash = pad_hash ''0xabc''\<rparr> = Return s \<and>
    data_chunk_from_str s = Some \<lparr>dc_top = 0, dc_first_block = 221, dc_last_block = 1000,
      dc_last_hash = pad_hash ''0xabc''\<rparr>"
proof -
  have "data_chunk_new 0 221 1000 ''0xabc'' = Some \<lparr>dc_top = 0, dc_first_block = 221,
    dc_last_block = 1000, dc_last_hash = pad_hash ''0xabc''\<rparr>"
    by code_simp
  from data_chunk_print_parse [OF this] show ?thesis
    by blast
qed

text \<open>
  C21: Everything the parser accepts satisfies the invariant of the type: blocks are ordered
  \<open>top \<le> first \<le> last\<close>, the hash is five to eight word characters, and reading the hash back from its
  NUL-padded bytes does not panic.
\<close>
theorem data_chunk_from_str_sound:
  assumes "data_chunk_from_str s = Some c"
  shows "dc_top c \<le> dc_first_block c \<and> dc_first_block c \<le> dc_last_block c \<and>
    length (dc_last_hash c) = HASH_MAX_LEN \<and>
    (\<exists>h pre. data_chunk_last_hash c = Return h \<and> valid_hash h \<and> s = pre @ ''-'' @ h)"
proof -
  obtain ts fs ls h t f l where "s = chunk_string ts fs ls h" "data_chunk_new t f l h = Some c"
    using assms unfolding data_chunk_from_str_Some by blast
  then have "s = (ts @ ''/'' @ fs @ ''-'' @ ls) @ ''-'' @ h" "valid_hash h"
    "data_chunk_last_hash c = Return h" "dc_wf c"
    using data_chunk_new_last_hash data_chunk_new_wf
    by (auto simp: chunk_string_def data_chunk_new_Some)
  then show ?thesis
    using dc_wf_hash_length [of c] by (auto simp: dc_wf_iff)
qed

theorem data_chunk_from_str_sound_witness:
  "\<exists>c. data_chunk_from_str ''+5/7-9-abcde'' = Some c \<and> dc_top c \<le> dc_first_block c \<and>
    length (dc_last_hash c) = HASH_MAX_LEN"
proof -
  have "data_chunk_from_str ''+5/7-9-abcde'' =
    Some \<lparr>dc_top = 5, dc_first_block = 7, dc_last_block = 9, dc_last_hash = pad_hash ''abcde''\<rparr>"
    by (simp add: data_chunk_from_str_def numeral_3_eq_3 parse_u64_def digit_val_def
        data_chunk_new_Some valid_hash_def HASH_MIN_LEN_def HASH_MAX_LEN_def as_bytes_def
        is_ascii_alphanumeric_def byte_of_def)
  with data_chunk_from_str_sound [OF this] show ?thesis
    by blast
qed

end
