(* ===== verification/Chunk_Id.thy ===== *)
theory Chunk_Id
  imports Data_Chunk
begin

text \<open>
  The string assembly of the readers: \<^verbatim>\<open>push_padded\<close> and \<^verbatim>\<open>push_chunk_id\<close> of
  \<^verbatim>\<open>crates/assignments/src/reader.rs\<close>, and \<^verbatim>\<open>push_segment\<close> of \<^verbatim>\<open>assignment_fb.rs\<close>. The
  hand-written digit loop is shown equal to the \<^verbatim>\<open>{:010}\<close> format of the standard library, so
  a chunk id rebuilt from columns is exactly what printing the identifier gives.
\<close>

section \<open>push\_padded\<close>

definition PAD :: u64 where "PAD = 10000000000"

text \<open>
  The digit loop. Stepping below index 0 would panic, in both profiles: the subtraction does in a
  debug build, the subscript of the wrapped index in a release build.
\<close>

function fill_digits :: "u8 list \<Rightarrow> nat \<Rightarrow> u64 \<Rightarrow> u8 list outcome" where
  "fill_digits digits at rest =
    (if rest > 0 then
       if at = 0 then Panic ''index out of bounds''
       else fill_digits (digits[at - 1 := byte_of CHR ''0'' + ucast (rest mod 10)]) (at - 1) (rest div 10)
     else Return digits)"
  by pat_completeness auto
termination
  by (relation "measure (\<lambda>(digits, at, rest). at)") auto

declare fill_digits.simps [simp del]

definition push_padded :: "string \<Rightarrow> u64 \<Rightarrow> string outcome" where
  "push_padded out value =
    (if value \<ge> PAD then Return (out @ show_nat (unat value))
     else outcome_bind (fill_digits (replicate 10 (byte_of CHR ''0'')) 10 value)
       (\<lambda>digits. outcome_map (\<lambda>s. out @ s) (expect ''ascii digits'' (from_utf8 digits))))"

definition push_chunk_id :: "string \<Rightarrow> u64 \<Rightarrow> u64 \<Rightarrow> u64 \<Rightarrow> string \<Rightarrow> string outcome" where
  "push_chunk_id out tp first_block last_block hash =
    outcome_bind (push_padded out tp) (\<lambda>out.
    outcome_bind (push_padded (out @ ''/'') first_block) (\<lambda>out.
    outcome_bind (push_padded (out @ ''-'') last_block) (\<lambda>out.
    Return (out @ ''-'' @ hash))))"

subsection \<open>Fixed-width decimals\<close>

fun fixed_digits :: "nat \<Rightarrow> nat \<Rightarrow> string" where
  "fixed_digits 0 n = []"
| "fixed_digits (Suc k) n = fixed_digits k (n div 10) @ [digit (n mod 10)]"

lemma length_fixed_digits [simp]: "length (fixed_digits k n) = k"
  by (induction k arbitrary: n) auto

lemma fixed_digits_0: "fixed_digits k 0 = replicate k (CHR ''0'')"
  by (induction k) (simp_all add: digit_zero replicate_append_same)

lemma show_nat_small: "n < 10 \<Longrightarrow> show_nat n = [digit n]"
  by (subst show_nat.simps) simp

lemma show_nat_step: "\<not> n < 10 \<Longrightarrow> show_nat n = show_nat (n div 10) @ [digit (n mod 10)]"
  by (subst show_nat.simps) simp

lemma fixed_digits_fmt_pad: "n < 10 ^ Suc k \<Longrightarrow> fixed_digits (Suc k) n = fmt_pad (Suc k) n"
proof (induction k arbitrary: n)
  case 0
  then show ?case by (simp add: fmt_pad_def Let_def show_nat_small)
next
  case (Suc k)
  show ?case
  proof (cases "n < 10")
    case True
    then show ?thesis
      using fixed_digits_0 [of "Suc k"] by (simp add: fmt_pad_def Let_def show_nat_small)
  next
    case False
    have "n div 10 < 10 ^ Suc k"
      using Suc.prems by (simp add: div_less_iff_less_mult mult.commute)
    from Suc.IH [OF this] have "fixed_digits (Suc k) (n div 10) = fmt_pad (Suc k) (n div 10)" .
    then show ?thesis
      using False by (simp add: fmt_pad_def Let_def show_nat_step [of n])
  qed
qed

lemma fixed_width_fmt_pad: "0 < w \<Longrightarrow> n < 10 ^ w \<Longrightarrow> fixed_digits w n = fmt_pad w n"
  using fixed_digits_fmt_pad [of n "w - 1"] by (cases w) auto

lemma length_show_nat: "10 ^ k \<le> n \<Longrightarrow> k < length (show_nat n)"
proof (induction k arbitrary: n)
  case 0
  then show ?case by simp
next
  case (Suc k)
  have "\<not> n < 10"
    using order.trans [OF _ Suc.prems, of 10] by simp
  moreover have "10 ^ k \<le> n div 10"
    using Suc.prems by (simp add: less_eq_div_iff_mult_less_eq)
  ultimately show ?case
    using Suc.IH [of "n div 10"] by (simp add: show_nat_step)
qed

lemma fmt_pad_wide: "10 ^ w \<le> n \<Longrightarrow> fmt_pad w n = show_nat n"
  using length_show_nat [of w n] by (simp add: fmt_pad_def Let_def)

lemma byte_of_digit: "d < 10 \<Longrightarrow> byte_of (digit d) = byte_of CHR ''0'' + of_nat d"
  by (simp add: byte_of_def)

lemma replicate_Suc_snoc: "replicate (Suc k) x = replicate k x @ [x]"
  by (simp add: replicate_append_same)

lemma fill_digits_step:
  "n \<noteq> 0 \<Longrightarrow> fill_digits ds (Suc k) n =
    fill_digits (ds[k := byte_of CHR ''0'' + ucast (n mod 10)]) k (n div 10)"
  by (subst fill_digits.simps) (simp add: word_neq_0_conv)

lemma fill_digits_correct:
  "unat n < 10 ^ k \<Longrightarrow> fill_digits (replicate k (byte_of CHR ''0'') @ suf) k n =
    Return (as_bytes (fixed_digits k (unat n)) @ suf)"
proof (induction k arbitrary: n suf)
  case 0
  then have "n = 0"
    by (simp add: unat_eq_0)
  then show ?case by (subst fill_digits.simps) (simp add: as_bytes_def)
next
  case (Suc k)
  show ?case
  proof (cases "n = 0")
    case True
    then show ?thesis
      by (subst fill_digits.simps)
        (simp only: unsigned_0 fixed_digits_0, simp add: as_bytes_def)
  next
    case False
    define b where "b = byte_of CHR ''0'' + ucast (n mod 10)"
    have "ucast (n mod 10) = (of_nat (unat (n mod 10)) :: u8)"
      by (rule of_nat_unat [symmetric])
    then have b: "b = byte_of (digit (unat n mod 10))"
      by (simp add: b_def byte_of_digit unat_mod)
    have upd: "(replicate (Suc k) (byte_of CHR ''0'') @ suf)[k := b] =
        replicate k (byte_of CHR ''0'') @ b # suf"
      by (simp add: list_update_append replicate_Suc_snoc del: replicate.simps)
    have "unat (n div 10) < 10 ^ k"
      using Suc.prems by (simp add: unat_div div_less_iff_less_mult mult.commute)
    then have "fill_digits (replicate k (byte_of CHR ''0'') @ b # suf) k (n div 10) =
        Return (as_bytes (fixed_digits k (unat n div 10)) @ b # suf)"
      using Suc.IH [of "n div 10" "b # suf"] by (simp add: unat_div)
    then show ?thesis
      by (simp only: fill_digits_step [OF False] b_def [symmetric] upd) (simp add: b as_bytes_def)
  qed
qed

lemma as_bytes_digits_ascii:
  assumes "\<forall>c \<in> set s. \<exists>d < 10. c = digit d"
  shows "from_utf8 (as_bytes s) = Some s"
proof -
  have "byte_of (digit d) < 0x80" if "d < 10" for d
    using that by (simp add: word_less_nat_alt)
  then have "\<forall>b \<in> set (as_bytes s). b < 0x80"
    using assms by (auto simp: as_bytes_def)
  then show ?thesis
    by (simp add: from_utf8_def utf8_valid_ascii)
qed

lemma push_padded_eq [simp]: "push_padded out v = Return (out @ fmt_pad 10 (unat v))"
proof (cases "v \<ge> PAD")
  case True
  then have "10 ^ 10 \<le> unat v"
    by (simp add: PAD_def word_le_nat_alt)
  with True show ?thesis
    by (simp add: push_padded_def fmt_pad_wide)
next
  case False
  then have lt: "unat v < 10 ^ 10"
    by (simp add: PAD_def word_le_nat_alt not_le)
  have "fixed_digits 10 (unat v) = fmt_pad 10 (unat v)"
    using lt by (intro fixed_width_fmt_pad) simp_all
  moreover have "from_utf8 (as_bytes (fmt_pad 10 (unat v))) = Some (fmt_pad 10 (unat v))"
    using set_fmt_pad by (intro as_bytes_digits_ascii) blast
  ultimately show ?thesis
    using fill_digits_correct [OF lt, of "[]"] False by (simp add: push_padded_def)
qed

lemma push_chunk_id_eq [simp]:
  "push_chunk_id out t f l h =
    Return (out @ chunk_string (fmt_pad 10 (unat t)) (fmt_pad 10 (unat f)) (fmt_pad 10 (unat l)) h)"
  by (simp add: push_chunk_id_def chunk_string_def)

lemma push_chunk_id_display:
  assumes "data_chunk_last_hash c = Return h"
  shows "push_chunk_id [] (dc_top c) (dc_first_block c) (dc_last_block c) h = data_chunk_display c"
  using assms by (simp add: data_chunk_display_def chunk_string_def)

section \<open>push\_segment\<close>

definition ends_with :: "string \<Rightarrow> char \<Rightarrow> bool" where
  "ends_with s c = (s \<noteq> [] \<and> last s = c)"

definition trim_start_matches :: "char \<Rightarrow> string \<Rightarrow> string" where
  "trim_start_matches c s = dropWhile (\<lambda>x. x = c) s"

definition push_segment :: "string \<Rightarrow> string \<Rightarrow> string" where
  "push_segment url segment =
    (if \<not> ends_with url CHR ''/'' then url @ ''/'' else url) @ trim_start_matches CHR ''/'' segment"

text \<open>
  What is appended after the last character of \<open>url\<close> that is not part of its trailing separator
  starts with exactly one separator, whichever side carried it.
\<close>

lemma push_segment_single_separator:
  "\<exists>pre seg. push_segment url segment = pre @ ''/'' @ seg \<and> (pre = url \<or> pre @ ''/'' = url) \<and>
     (seg = [] \<or> hd seg \<noteq> CHR ''/'')"
proof -
  have seg: "trim_start_matches CHR ''/'' segment = [] \<or>
      hd (trim_start_matches CHR ''/'' segment) \<noteq> CHR ''/''"
    unfolding trim_start_matches_def using hd_dropWhile [of "\<lambda>x. x = CHR ''/''" segment] by blast
  show ?thesis
  proof (cases "ends_with url CHR ''/''")
    case True
    then have url: "butlast url @ ''/'' = url"
      by (metis append_butlast_last_id ends_with_def)
    have "push_segment url segment = url @ trim_start_matches CHR ''/'' segment"
      using True by (simp add: push_segment_def)
    also have "\<dots> = butlast url @ ''/'' @ trim_start_matches CHR ''/'' segment"
      by (subst url [symmetric]) simp
    finally show ?thesis
      using seg url by blast
  next
    case False
    then show ?thesis
      using seg by (auto simp: push_segment_def)
  qed
qed

end
