(* ===== verification/Columns.thy ===== *)
theory Columns
  imports Search Chunk_Id
begin

text \<open>
  The column encodings both assignment formats share: run-length tops (\<^verbatim>\<open>TopRun\<close>, searched by
  \<^verbatim>\<open>top_at\<close>), compressed sparse rows (an offsets column delimiting slices of a values column),
  NUL-padded hashes, and \<^verbatim>\<open>check_columns\<close>, the consistency check of
  \<^verbatim>\<open>crates/assignments/src/reader.rs\<close>. For each encoding there is a relation between the column
  and the list of values it stands for, preserved by appending, from which reading gives the value
  back.
\<close>

section \<open>Top runs\<close>

record top_run =
  tr_first_chunk_index :: u32
  tr_top :: u64

text \<open>A run is appended only when the top differs from that of the last run.\<close>

definition push_top :: "u32 \<Rightarrow> u64 \<Rightarrow> top_run list \<Rightarrow> top_run list" where
  "push_top index tp tops =
    (if tops = [] \<or> tr_top (last tops) \<noteq> tp
     then tops @ [\<lparr>tr_first_chunk_index = index, tr_top = tp\<rparr>] else tops)"

text \<open>The last run starting at or before the index.\<close>

definition top_at :: "top_run list \<Rightarrow> u32 \<Rightarrow> u64 option" where
  "top_at tops i =
    (let above = partition_point (length tops) (\<lambda>k. tr_first_chunk_index (tops ! k) \<le> i)
     in if above = 0 then None else Some (tr_top (tops ! (above - 1))))"

fun runs_ascend :: "top_run list \<Rightarrow> bool" where
  "runs_ascend (a # b # runs) =
    (tr_first_chunk_index a < tr_first_chunk_index b \<and> runs_ascend (b # runs))"
| "runs_ascend runs = True"

definition check_top_runs :: "top_run list \<Rightarrow> (string, unit) result" where
  "check_top_runs runs =
    (case runs of
       [] \<Rightarrow> Err ''a dataset with chunks must have at least one top run''
     | first # rest \<Rightarrow>
         if tr_first_chunk_index first \<noteq> 0 then Err ''the first top run must start at chunk 0''
         else if \<not> runs_ascend runs then Err ''top runs must strictly ascend by first_chunk_index''
         else Ok ())"

lemma runs_ascend_iff: "runs_ascend runs \<longleftrightarrow> sorted_wrt (<) (map tr_first_chunk_index runs)"
proof (induction runs rule: runs_ascend.induct)
  case (1 a b runs)
  then show ?case
    by (auto intro: order.strict_trans)
qed auto

text \<open>
  \<open>runs_rel tops ts\<close>: the runs encode the list \<open>ts\<close> of one top per chunk. The number of chunks stays
  within \<^verbatim>\<open>u32\<close>, so that no index wraps.
\<close>

definition runs_rel :: "top_run list \<Rightarrow> u64 list \<Rightarrow> bool" where
  "runs_rel tops ts =
    (sorted_wrt (<) (map tr_first_chunk_index tops) \<and>
     (\<forall>r \<in> set tops. unat (tr_first_chunk_index r) < length ts) \<and>
     (ts \<noteq> [] \<longrightarrow> tops \<noteq> [] \<and> tr_first_chunk_index (hd tops) = 0 \<and> tr_top (last tops) = last ts) \<and>
     (\<forall>i < length ts. top_at tops (of_nat i) = Some (ts ! i)))"

lemma top_prefix:
  assumes "sorted_wrt (<) (map tr_first_chunk_index tops)"
  shows "prefix_pred (length tops) (\<lambda>k. tr_first_chunk_index (tops ! k) \<le> i)"
proof -
  have "tr_first_chunk_index (tops ! a) \<le> tr_first_chunk_index (tops ! b)"
    if "a \<le> b" "b < length tops" for a b
    using sorted_nth_mono [OF sorted_wrt_less_sorted [OF assms] that(1)] that by simp
  then show ?thesis
    unfolding prefix_pred_def by (meson order.trans)
qed

lemma top_at_all_below:
  assumes "tops \<noteq> []" "\<forall>r \<in> set tops. tr_first_chunk_index r \<le> i"
  shows "top_at tops i = Some (tr_top (last tops))"
proof -
  have "partition_point (length tops) (\<lambda>k. tr_first_chunk_index (tops ! k) \<le> i) = length tops"
    using assms(2) by (intro partition_point_eqI) auto
  then show ?thesis
    using assms(1) by (simp add: top_at_def last_conv_nth)
qed

lemma top_at_snoc_above:
  assumes "sorted_wrt (<) (map tr_first_chunk_index tops)" "i < tr_first_chunk_index r"
  shows "top_at (tops @ [r]) i = top_at tops i"
proof -
  let ?k = "partition_point (length tops) (\<lambda>k. tr_first_chunk_index (tops ! k) \<le> i)"
  have "partition_point (length (tops @ [r])) (\<lambda>k. tr_first_chunk_index ((tops @ [r]) ! k) \<le> i) = ?k"
  proof (rule partition_point_eqI)
    show "?k \<le> length (tops @ [r])"
      using partition_point_boundary(1) [of "length tops"] by (simp add: le_Suc_eq)
    show "tr_first_chunk_index ((tops @ [r]) ! j) \<le> i \<longleftrightarrow> j < ?k" if "j < length (tops @ [r])" for j
    proof (cases "j < length tops")
      case True
      then show ?thesis
        using partition_point_prefix [OF top_prefix [OF assms(1)] True, of i]
        by (simp add: nth_append)
    next
      case False
      with that have "j = length tops" by simp
      then show ?thesis
        using assms(2)
          partition_point_boundary(1) [of "length tops" "\<lambda>k. tr_first_chunk_index (tops ! k) \<le> i"]
        by (simp add: nth_append leD)
    qed
  qed
  then show ?thesis
    using partition_point_boundary(1) [of "length tops" "\<lambda>k. tr_first_chunk_index (tops ! k) \<le> i"]
    by (auto simp: top_at_def nth_append Let_def)
qed

lemma of_nat_u32_less: "i < j \<Longrightarrow> j \<le> U32_MAX \<Longrightarrow> (of_nat i :: u32) < of_nat j"
  by (simp add: word_less_nat_alt)

lemma of_nat_u32_le_iff: "i \<le> U32_MAX \<Longrightarrow> (x :: u32) \<le> of_nat i \<longleftrightarrow> unat x \<le> i"
  by (simp add: word_le_nat_alt)

lemma runs_rel_Nil [simp]: "runs_rel [] []"
  by (simp add: runs_rel_def)

lemma runs_rel_push_top:
  assumes rel: "runs_rel tops ts" and bound: "length ts \<le> U32_MAX"
  shows "runs_rel (push_top (of_nat (length ts)) t tops) (ts @ [t])"
proof -
  let ?n = "of_nat (length ts) :: u32"
  let ?r = "\<lparr>tr_first_chunk_index = ?n, tr_top = t\<rparr>"
  have below: "\<forall>r \<in> set tops. tr_first_chunk_index r < ?n"
    using rel bound by (auto simp: runs_rel_def word_less_nat_alt)
  have keep: "top_at tops (of_nat i) = Some ((ts @ [t]) ! i)" if "i < length ts" for i
    using rel that by (simp add: runs_rel_def nth_append)
  show ?thesis
  proof (cases "tops = [] \<or> tr_top (last tops) \<noteq> t")
    case True
    have "top_at (tops @ [?r]) (of_nat i) = Some ((ts @ [t]) ! i)" if "i < length (ts @ [t])" for i
    proof (cases "i < length ts")
      case True
      then show ?thesis
        using keep [OF True] rel of_nat_u32_less [OF True bound]
        by (subst top_at_snoc_above) (auto simp: runs_rel_def)
    next
      case False
      with that have "i = length ts" by simp
      then show ?thesis
        using below by (subst top_at_all_below) (auto simp: less_imp_le)
    qed
    moreover have "tr_first_chunk_index (hd (tops @ [?r])) = 0"
      using rel by (cases "ts = []") (auto simp: runs_rel_def hd_append)
    ultimately show ?thesis
      using True rel below bound by (auto simp: runs_rel_def push_top_def less_Suc_eq)
  next
    case False
    then have "ts \<noteq> []"
      using rel last_in_set [of tops] by (auto simp: runs_rel_def)
    moreover have "top_at tops ?n = Some t"
      using False below by (subst top_at_all_below) (auto simp: less_imp_le)
    ultimately show ?thesis
      using False rel keep by (auto simp: runs_rel_def push_top_def less_Suc_eq nth_append)
  qed
qed

lemma runs_rel_check: "runs_rel tops ts \<Longrightarrow> ts \<noteq> [] \<Longrightarrow> check_top_runs tops = Ok ()"
  by (cases tops) (auto simp: runs_rel_def check_top_runs_def runs_ascend_iff)

section \<open>Compressed sparse rows\<close>

text \<open>The slice of \<open>vals\<close> between two consecutive offsets, clamped to the values there are.\<close>

definition csr_slice :: "u32 list \<Rightarrow> 'a list \<Rightarrow> nat \<Rightarrow> 'a list outcome" where
  "csr_slice offsets vals i =
    outcome_bind (vec_get offsets i) (\<lambda>start.
    outcome_bind (vec_get offsets (i + 1)) (\<lambda>end'.
    Return (map (\<lambda>k. vals ! k) [unat start ..< min (unat end') (length vals)])))"

definition csr_rel :: "u32 list \<Rightarrow> 'a list \<Rightarrow> 'a list list \<Rightarrow> bool" where
  "csr_rel ends vals rows =
    (vals = concat rows \<and> length ends = length rows \<and>
     (\<forall>i < length rows. ends ! i = of_nat (length (concat (take (Suc i) rows)))))"

lemma csr_rel_Nil [simp]: "csr_rel [] [] []"
  by (simp add: csr_rel_def)

lemma csr_rel_push:
  "csr_rel ends vals rows \<Longrightarrow>
    csr_rel (ends @ [of_nat (length (vals @ row))]) (vals @ row) (rows @ [row])"
  by (auto simp: csr_rel_def nth_append less_Suc_eq)

lemma length_concat_take_le: "length (concat (take i rows)) \<le> length (concat rows)"
  by (metis append_take_drop_id concat_append le_add1 length_append)

lemma nth_concat_slice:
  assumes "i < length rows"
  shows "map (\<lambda>k. concat rows ! k)
    [length (concat (take i rows)) ..< length (concat (take (Suc i) rows))] = rows ! i"
proof -
  have split: "concat rows = concat (take i rows) @ rows ! i @ concat (drop (Suc i) rows)"
    using assms by (metis concat.simps(2) concat_append id_take_nth_drop)
  have "length (concat (take (Suc i) rows)) = length (concat (take i rows)) + length (rows ! i)"
    using assms by (simp add: take_Suc_conv_app_nth)
  then show ?thesis
    by (intro nth_equalityI) (simp_all add: split nth_append)
qed

lemma csr_offset:
  assumes "csr_rel ends vals rows" "length vals \<le> U32_MAX" "i \<le> length rows"
  shows "unat ((0 # ends) ! i) = length (concat (take i rows))"
proof (cases i)
  case (Suc k)
  with assms(3) have "k < length rows"
    by simp
  with assms(1) have "ends ! k = of_nat (length (concat (take (Suc k) rows)))"
    by (simp add: csr_rel_def del: take_Suc)
  moreover have "length (concat (take (Suc k) rows)) \<le> U32_MAX"
    using length_concat_take_le [of "Suc k" rows] assms(1,2) by (simp add: csr_rel_def del: take_Suc)
  ultimately show ?thesis
    using Suc by simp
qed simp

lemma csr_slice_row:
  assumes "csr_rel ends vals rows" "length vals \<le> U32_MAX" "i < length rows"
  shows "csr_slice (0 # ends) vals i = Return (rows ! i)"
proof -
  have len: "length (0 # ends) = Suc (length rows)" and vals: "vals = concat rows"
    using assms(1) by (auto simp: csr_rel_def)
  have "unat ((0 # ends) ! i) = length (concat (take i rows))"
    "unat ((0 # ends) ! (i + 1)) = length (concat (take (Suc i) rows))"
    using csr_offset [OF assms(1,2), of i] csr_offset [OF assms(1,2), of "i + 1"] assms(3)
    by simp_all
  then show ?thesis
    using assms(3) len nth_concat_slice [OF assms(3)] length_concat_take_le [of "Suc i" rows]
    by (simp add: csr_slice_def vals min_absorb1)
qed

section \<open>Column checks\<close>

datatype invalid_assignment =
  Flatbuffer string
| Columns string string

fun check_dense :: "string \<Rightarrow> nat \<Rightarrow> (string \<times> nat) list \<Rightarrow> (invalid_assignment, unit) result" where
  "check_dense dataset chunks [] = Ok ()"
| "check_dense dataset chunks ((name, len) # rest) =
    (if len \<noteq> chunks then
       Err (Columns dataset (name @ '' holds '' @ show_nat len @ '' of '' @ show_nat chunks @ '' chunks''))
     else check_dense dataset chunks rest)"

fun check_runs :: "string \<Rightarrow> (string \<times> u32 option) list \<Rightarrow> (invalid_assignment, unit) result" where
  "check_runs dataset [] = Ok ()"
| "check_runs dataset ((name, first) # rest) =
    (case first of
       None \<Rightarrow> Err (Columns dataset (name @ '' is empty, so chunk 0 falls in no run''))
     | Some f \<Rightarrow>
         if f \<noteq> 0 then
           Err (Columns dataset (name @ '' starts at chunk '' @ show_nat (unat f) @ '', not 0''))
         else check_runs dataset rest)"

definition check_columns ::
  "string \<Rightarrow> nat \<Rightarrow> (string \<times> nat) list \<Rightarrow> (string \<times> u32 option) list \<Rightarrow> (invalid_assignment, unit) result"
where
  "check_columns dataset chunks dense runs =
    (case check_dense dataset chunks dense of
       Err e \<Rightarrow> Err e
     | Ok _ \<Rightarrow> check_runs dataset runs)"

lemma check_dense_Ok: "check_dense d n dense = Ok () \<longleftrightarrow> (\<forall>(name, len) \<in> set dense. len = n)"
  by (induction d n dense rule: check_dense.induct) auto

lemma check_runs_Ok: "check_runs d runs = Ok () \<longleftrightarrow> (\<forall>(name, first) \<in> set runs. first = Some 0)"
  by (induction d runs rule: check_runs.induct) (auto split: option.splits)

lemma check_columns_Ok:
  "check_columns d n dense runs = Ok () \<longleftrightarrow>
    (\<forall>(name, len) \<in> set dense. len = n) \<and> (\<forall>(name, first) \<in> set runs. first = Some 0)"
  unfolding check_dense_Ok [of d, symmetric] check_runs_Ok [of d, symmetric]
  by (cases "check_dense d n dense") (simp_all add: check_columns_def)

text \<open>
  What the check of the runs is for: when the first run starts at chunk 0, every chunk falls in some
  run, whatever the other runs are.
\<close>

lemma top_at_defined:
  assumes "tops \<noteq> []" "tr_first_chunk_index (hd tops) = 0"
  shows "top_at tops i \<noteq> None"
proof -
  have "partition_point (length tops) (\<lambda>k. tr_first_chunk_index (tops ! k) \<le> i) \<noteq> 0"
  proof
    assume "partition_point (length tops) (\<lambda>k. tr_first_chunk_index (tops ! k) \<le> i) = 0"
    then have "\<not> tr_first_chunk_index (tops ! 0) \<le> i"
      using partition_point_boundary(3) [of "length tops" "\<lambda>k. tr_first_chunk_index (tops ! k) \<le> i"]
        assms(1) by simp
    then show False
      using assms by (simp add: hd_conv_nth)
  qed
  then show ?thesis
    by (simp add: top_at_def Let_def)
qed

section \<open>Hashes\<close>

text \<open>The reader's view of a padded hash: \<^const>\<open>None\<close> only if the bytes are not UTF-8.\<close>

definition hash_str :: "u8 list \<Rightarrow> string option" where
  "hash_str bytes = from_utf8 (until_nul bytes)"

lemma hash_str_pad_hash [simp]: "valid_hash h \<Longrightarrow> hash_str (pad_hash h) = Some h"
  by (simp add: hash_str_def)

lemma hash_str_last_hash: "data_chunk_last_hash c = Return h \<longleftrightarrow> hash_str (dc_last_hash c) = Some h"
  by (simp add: data_chunk_last_hash_def hash_str_def)

end
