(* ===== verification/Ordered_Map.thy ===== *)
theory Ordered_Map
  imports Search
begin

text \<open>
  \<^verbatim>\<open>BTreeMap\<close> as an association list sorted strictly by key, and the contract its users rely on:
  lookups see the last insertion, and iteration is in ascending key order, which is what makes the
  vectors the builders emit searchable by key.
\<close>

locale ordered_map =
  fixes lookup :: "'m \<Rightarrow> 'k::linorder \<Rightarrow> 'v option"
    and insrt :: "'k \<Rightarrow> 'v \<Rightarrow> 'm \<Rightarrow> 'm"
    and iter :: "'m \<Rightarrow> ('k \<times> 'v) list"
    and invar :: "'m \<Rightarrow> bool"
  assumes lookup_insrt: "invar m \<Longrightarrow> lookup (insrt k v m) = (lookup m)(k \<mapsto> v)"
    and invar_insrt: "invar m \<Longrightarrow> invar (insrt k v m)"
    and iter_sorted: "invar m \<Longrightarrow> sorted_wrt (<) (map fst (iter m))"
    and iter_lookup: "invar m \<Longrightarrow> lookup m k = Some v \<longleftrightarrow> (k, v) \<in> set (iter m)"
begin

lemma lookup_None_iff: "invar m \<Longrightarrow> lookup m k = None \<longleftrightarrow> k \<notin> fst ` set (iter m)"
  using iter_lookup [of m k] by (cases "lookup m k") force+

end

text \<open>A map whose entries are searched by key in its iteration order.\<close>

locale searched_map = ordered_map lookup insrt iter invar + key_search find_by
  for lookup :: "'m \<Rightarrow> 'k::linorder \<Rightarrow> 'v option"
    and insrt :: "'k \<Rightarrow> 'v \<Rightarrow> 'm \<Rightarrow> 'm"
    and iter :: "'m \<Rightarrow> ('k \<times> 'v) list"
    and invar :: "'m \<Rightarrow> bool"
    and find_by :: "nat \<Rightarrow> (nat \<Rightarrow> ordering) \<Rightarrow> nat option"
begin

lemma search_iter_Some:
  assumes "invar m" "lookup m k = Some v"
  shows "\<exists>i < length (iter m). find_by (length (iter m)) (\<lambda>i. cmp (fst (iter m ! i)) k) = Some i \<and>
    iter m ! i = (k, v)"
proof -
  from assms obtain i where i: "i < length (iter m)" "iter m ! i = (k, v)"
    using iter_lookup by (metis in_set_conv_nth)
  with find_key_eq [OF iter_sorted [OF assms(1)], of i k] show ?thesis
    by auto
qed

lemma search_iter_None:
  assumes "invar m" "lookup m k = None"
  shows "find_by (length (iter m)) (\<lambda>i. cmp (fst (iter m ! i)) k) = None"
  using assms find_key_None_iff [OF sorted_wrt_less_sorted [OF iter_sorted [OF assms(1)]], of k]
  by (simp add: lookup_None_iff)

end

type_synonym ('k, 'v) btree = "('k \<times> 'v) list"

fun btree_insert :: "'k::linorder \<Rightarrow> 'v \<Rightarrow> ('k, 'v) btree \<Rightarrow> ('k, 'v) btree" where
  "btree_insert k v [] = [(k, v)]"
| "btree_insert k v ((k', v') # m) =
    (if k < k' then (k, v) # (k', v') # m
     else if k = k' then (k, v) # m
     else (k', v') # btree_insert k v m)"

definition btree_inv :: "('k::linorder, 'v) btree \<Rightarrow> bool" where
  "btree_inv m = sorted_wrt (<) (map fst m)"

lemma btree_inv_Nil [simp]: "btree_inv []"
  by (simp add: btree_inv_def)

lemma fst_btree_insert: "fst ` set (btree_insert k v m) = insert k (fst ` set m)"
  by (induction k v m rule: btree_insert.induct) auto

lemma btree_inv_insert [simp]: "btree_inv m \<Longrightarrow> btree_inv (btree_insert k v m)"
proof (induction k v m rule: btree_insert.induct)
  case (2 k v k' v' m)
  have hd: "\<forall>x \<in> fst ` set m. k' < x" and "btree_inv m"
    using 2(2) by (auto simp: btree_inv_def)
  consider "k < k'" | "k = k'" | "k' < k"
    by fastforce
  then show ?case
  proof cases
    case 1
    with 2(2) hd show ?thesis
      by (auto simp: btree_inv_def dest: order.strict_trans)
  next
    case 2
    with \<open>btree_inv m\<close> hd show ?thesis
      by (auto simp: btree_inv_def)
  next
    case 3
    then have "\<forall>x \<in> fst ` set (btree_insert k v m). k' < x"
      using hd by (simp add: fst_btree_insert)
    with 3 2(1) \<open>btree_inv m\<close> show ?thesis
      by (auto simp: btree_inv_def)
  qed
qed (simp add: btree_inv_def)

lemma btree_lookup_insert [simp]:
  "btree_inv m \<Longrightarrow> map_of (btree_insert k v m) = (map_of m)(k \<mapsto> v)"
proof (induction k v m rule: btree_insert.induct)
  case (2 k v k' v' m)
  then show ?case
    by (auto simp: btree_inv_def fun_upd_twist)
qed simp

lemma btree_lookup_iff: "btree_inv m \<Longrightarrow> map_of m k = Some v \<longleftrightarrow> (k, v) \<in> set m"
  by (rule map_of_eq_Some_iff) (simp add: btree_inv_def sorted_wrt_less_distinct)

interpretation btree_map: ordered_map map_of btree_insert "\<lambda>m. m" btree_inv
  by unfold_locales (simp_all add: btree_lookup_iff, simp add: btree_inv_def)

interpretation btree_search: searched_map map_of btree_insert "\<lambda>m. m" btree_inv lookup_index_pure
  by unfold_locales

text \<open>The same for any search that meets the contract, in particular the one of flatbuffers.\<close>

lemma btree_searched_map: "key_search fnd \<Longrightarrow> searched_map map_of btree_insert (\<lambda>m. m) btree_inv fnd"
  by (intro searched_map.intro btree_map.ordered_map_axioms)

lemmas btree_search_Some = searched_map.search_iter_Some [OF btree_searched_map]
lemmas btree_search_None = searched_map.search_iter_None [OF btree_searched_map]

end
