(* ===== verification/Assignment_FB.thy ===== *)
theory Assignment_FB
  imports Columns Ordered_Map
begin

text \<open>
  The tables of the three FlatBuffers schemas (\<^verbatim>\<open>crates/assignments/schema/*.fbs\<close>) as records,
  and the helpers of \<^verbatim>\<open>assignment_fb.rs\<close> and of the worker status.

  A table or vector offset is modelled here by the value it denotes; \<open>Blob_Roots\<close> shows that the blobs
  the builders write read back as these values. A field without \<^verbatim>\<open>required\<close> is an option, except the
  scalars, which default to zero. Peer ids are an abstract linearly ordered type \<open>'p\<close>; their byte encoding
  \<open>to_bytes\<close> and its parser \<open>from_bytes\<close> are parameters.
\<close>

section \<open>assignment.fbs\<close>

record encrypted_headers =
  eh_identity :: "u8 list"
  eh_nonce :: "u8 list"
  eh_ciphertext :: "u8 list"

record worker_entry =
  we_worker_id :: "u8 list"
  we_status :: u8
  we_encrypted_headers :: "encrypted_headers option"

record file_url =
  fu_filename :: string
  fu_url :: string

record fb_chunk =
  ck_first_block :: u64
  ck_id :: string
  ck_dataset_id :: string
  ck_size :: u32
  ck_last_block_hash :: "string option"
  ck_last_block_timestamp :: "u64 option"
  ck_dataset_base_url :: string
  ck_base_url :: string
  ck_files :: "file_url list"
  ck_worker_indexes :: "u16 list"

record fb_dataset =
  ds_id :: string
  ds_chunks :: "fb_chunk list"
  ds_last_block :: u64

record fb_assignment =
  as_datasets :: "fb_dataset list"
  as_workers :: "worker_entry list"

section \<open>worker\_assignment.fbs\<close>

record table_roster =
  ro_write_schema_id :: u32
  ro_tables :: "string list"

record generation_entry =
  ge_version :: u32
  ge_base_url :: string

record worker_dataset =
  wd_id :: string
  wd_last_block :: u64
  wd_base_url :: string
  wd_generations :: "generation_entry list option"
  wd_first_blocks :: "u64 list"
  wd_block_deltas :: "u32 list"
  wd_hashes :: "u8 list list"
  wd_tops :: "top_run list"
  wd_sizes :: "u32 list"
  wd_write_schema_ids :: "u32 list"
  wd_tables_present_offsets :: "u32 list option"
  wd_tables_present :: "u8 list option"
  wd_versions :: "u32 list option"
  wd_worker_offsets :: "u32 list"
  wd_worker_indexes :: "u16 list"

record worker_assignment =
  wa_datasets :: "worker_dataset list"
  wa_workers :: "worker_entry list"
  wa_schemas :: "table_roster list"

section \<open>portal\_assignment.fbs\<close>

record portal_dataset =
  pd_id :: string
  pd_last_block :: u64
  pd_last_block_hash :: "string option"
  pd_read_schema_id :: u32
  pd_first_blocks :: "u64 list"
  pd_block_deltas :: "u32 list"
  pd_hashes :: "u8 list list"
  pd_tops :: "top_run list"
  pd_timestamps :: "u64 list"
  pd_versions :: "u32 list option"
  pd_worker_offsets :: "u32 list"
  pd_worker_indexes :: "u16 list"

record portal_entry =
  pe_worker_id :: "u8 list"
  pe_status :: u8

record portal_assignment =
  pa_datasets :: "portal_dataset list"
  pa_workers :: "portal_entry list"

section \<open>Worker status\<close>

datatype worker_status = StatusOk | Unreliable | DeprecatedVersion | UnsupportedVersion

text \<open>The schema's enum is a byte, so the reader must map the values no name exists for.\<close>

primrec status_to_fb :: "worker_status \<Rightarrow> u8" where
  "status_to_fb StatusOk = 0"
| "status_to_fb Unreliable = 1"
| "status_to_fb DeprecatedVersion = 2"
| "status_to_fb UnsupportedVersion = 3"

definition status_from_fb :: "u8 \<Rightarrow> worker_status" where
  "status_from_fb s =
    (if s = 0 then StatusOk
     else if s = 1 then Unreliable
     else if s = 2 then DeprecatedVersion
     else if s = 3 then UnsupportedVersion
     else UnsupportedVersion)"

lemma status_roundtrip [simp]: "status_from_fb (status_to_fb s) = s"
  by (cases s) (simp_all add: status_from_fb_def)

section \<open>Worker ids\<close>

definition WORKER_ID_LEN :: nat where "WORKER_ID_LEN = 38"

text \<open>
  \<^verbatim>\<open>From<PeerId>\<close>: the first 38 bytes of the encoding; a shorter one panics. The assertion that no
  byte is left over is a debug one.
\<close>

definition worker_id_from :: "('p \<Rightarrow> u8 list) \<Rightarrow> 'p \<Rightarrow> u8 list outcome" where
  "worker_id_from to_bytes peer_id =
    (let buf = to_bytes peer_id
     in if length buf < WORKER_ID_LEN then Panic ''PeerId should always have a valid length''
        else Return (take WORKER_ID_LEN buf))"

definition worker_id_try_into :: "(u8 list \<Rightarrow> 'p option) \<Rightarrow> u8 list \<Rightarrow> 'p option" where
  "worker_id_try_into from_bytes worker_id = from_bytes worker_id"

text \<open>What is relied on of a peer id's encoding: 38 bytes (an ed25519 identity), and parsing inverts it.\<close>

definition codec_ok :: "('p \<Rightarrow> u8 list) \<Rightarrow> (u8 list \<Rightarrow> 'p option) \<Rightarrow> 'p \<Rightarrow> bool" where
  "codec_ok to_bytes from_bytes p =
    (length (to_bytes p) = WORKER_ID_LEN \<and> from_bytes (to_bytes p) = Some p)"

lemma worker_id_roundtrip:
  "codec_ok to_bytes from_bytes p \<Longrightarrow>
    worker_id_from to_bytes p = Return (to_bytes p) \<and>
    worker_id_try_into from_bytes (to_bytes p) = Some p"
  by (simp add: codec_ok_def worker_id_from_def worker_id_try_into_def)

text \<open>The builders insist on ascending peer ids: whether adding \<open>p\<close> after \<open>last'\<close> breaks the order.\<close>

definition out_of_order :: "'p::linorder option \<Rightarrow> 'p \<Rightarrow> bool" where
  "out_of_order last' p = (case last' of None \<Rightarrow> False | Some l \<Rightarrow> \<not> l < p)"

section \<open>Dataset helpers\<close>

text \<open>\<^verbatim>\<open>first_block\<close> and \<^verbatim>\<open>last_block_hash\<close> subscript the chunks, so an empty dataset panics.\<close>

definition dataset_first_block :: "fb_dataset \<Rightarrow> u64 outcome" where
  "dataset_first_block d = outcome_map ck_first_block (vec_get (ds_chunks d) 0)"

definition dataset_last_block_hash :: "fb_dataset \<Rightarrow> string option outcome" where
  "dataset_last_block_hash d =
    (if ds_chunks d = [] then Panic ''index out of bounds''
     else outcome_map ck_last_block_hash (vec_get (ds_chunks d) (length (ds_chunks d) - 1)))"

definition portal_chunk_count :: "portal_dataset \<Rightarrow> nat" where
  "portal_chunk_count d = length (pd_first_blocks d)"

definition portal_first_block :: "portal_dataset \<Rightarrow> u64 outcome" where
  "portal_first_block d = vec_get (pd_first_blocks d) 0"

text \<open>
  \<^verbatim>\<open>get_generation\<close>: \<^verbatim>\<open>lookup_by_key\<close> of flatbuffers is the parameter \<open>lk\<close>, a search over a
  length and a comparator by index.
\<close>

type_synonym key_lookup = "nat \<Rightarrow> (nat \<Rightarrow> ordering) \<Rightarrow> nat option"

definition lookup_by_key :: "key_lookup \<Rightarrow> ('a \<Rightarrow> 'k::linorder) \<Rightarrow> 'a list \<Rightarrow> 'k \<Rightarrow> 'a option" where
  "lookup_by_key lk key xs k = map_option (\<lambda>i. xs ! i) (lk (length xs) (\<lambda>i. cmp (key (xs ! i)) k))"

definition get_generation :: "key_lookup \<Rightarrow> worker_dataset \<Rightarrow> u32 \<Rightarrow> generation_entry option" where
  "get_generation lk d version =
    (case wd_generations d of
       None \<Rightarrow> None
     | Some gens \<Rightarrow> lookup_by_key lk ge_version gens version)"

lemma lookup_by_key_Some:
  assumes "key_search lk" "lookup_by_key lk key xs k = Some x"
  shows "x \<in> set xs \<and> key x = k"
  using key_search.find_key_Some [OF assms(1), of xs key k] assms(2)
  by (auto simp: lookup_by_key_def)

lemma lookup_by_key_None:
  assumes "key_search lk" "sorted (map key xs)"
  shows "lookup_by_key lk key xs k = None \<longleftrightarrow> k \<notin> key ` set xs"
  using key_search.find_key_None_iff [OF assms, of k] by (simp add: lookup_by_key_def)

lemma lookup_by_key_eq:
  assumes "key_search lk" "sorted_wrt (<) (map key xs)" "x \<in> set xs"
  shows "lookup_by_key lk key xs (key x) = Some x"
proof -
  from assms(3) obtain i where i: "i < length xs" "xs ! i = x"
    by (metis in_set_conv_nth)
  then show ?thesis
    using key_search.find_key_eq [OF assms(1,2) i(1), of "key x"] by (simp add: lookup_by_key_def)
qed

text \<open>A vector emitted from a \<^verbatim>\<open>BTreeMap\<close>, looked up by its key.\<close>

lemma lookup_by_key_btree:
  assumes "key_search lk" "btree_inv m" "\<And>k v. key (f (k, v)) = k"
  shows "lookup_by_key lk key (map f m) k = map_option (\<lambda>v. f (k, v)) (map_of m k)"
proof -
  have keys: "map key (map f m) = map fst m"
    using assms(3) by auto
  have sorted: "sorted_wrt (<) (map key (map f m))"
    using assms(2) by (simp only: keys btree_inv_def)
  show ?thesis
  proof (cases "map_of m k")
    case None
    then have "k \<notin> key ` set (map f m)"
      by (metis keys list.set_map map_of_eq_None_iff)
    with None lookup_by_key_None [OF assms(1) sorted_wrt_less_sorted [OF sorted], of k] show ?thesis
      by simp
  next
    case (Some v)
    then have "f (k, v) \<in> set (map f m)"
      by (simp add: map_of_SomeD)
    from lookup_by_key_eq [OF assms(1) sorted this] Some show ?thesis
      by (simp add: assms(3))
  qed
qed

end
