(* ===== verification/Headers.thy ===== *)
theory Headers
  imports Assignment_FB
begin

text \<open>
  Sealed worker headers: \<^verbatim>\<open>timed_hmac\<close> and \<^verbatim>\<open>encrypt_with_rng\<close> of
  \<^verbatim>\<open>crates/assignments/src/signatures.rs\<close>, the header plaintext of the builders, and
  \<^verbatim>\<open>decrypt_headers\<close> of \<^verbatim>\<open>reader.rs\<close>. The cryptographic primitives, base64, url encoding, the
  peer id's text form and the JSON parser come from other crates: they are the fields of the record
  \<open>crypto\<close>, a parameter of every definition that uses them.
\<close>

record ('p, 'sk, 'rng) crypto =
  cr_to_bytes :: "'p \<Rightarrow> u8 list"
  cr_to_string :: "'p \<Rightarrow> string"
  cr_hmac_sha256 :: "u8 list \<Rightarrow> u8 list \<Rightarrow> u8 list"
  cr_base64 :: "u8 list \<Rightarrow> string"
  cr_urlencode :: "u8 list \<Rightarrow> string"
  cr_to_montgomery :: "u8 list \<Rightarrow> u8 list option"
  cr_generate_key :: "'rng \<Rightarrow> 'sk \<times> 'rng"
  cr_public_key :: "'sk \<Rightarrow> u8 list"
  cr_generate_nonce :: "'rng \<Rightarrow> u8 list \<times> 'rng"
  cr_box_encrypt :: "u8 list \<Rightarrow> 'sk \<Rightarrow> u8 list \<Rightarrow> u8 list \<Rightarrow> u8 list option"
  cr_box_decrypt :: "u8 list \<Rightarrow> 'sk \<Rightarrow> u8 list \<Rightarrow> u8 list \<Rightarrow> u8 list option"
  cr_parse_json :: "string \<Rightarrow> (string \<times> string option) list option option"

definition timed_hmac :: "('p, 'sk, 'rng) crypto \<Rightarrow> string \<Rightarrow> string \<Rightarrow> nat \<Rightarrow> string" where
  "timed_hmac cr message secret timestamp =
    (let digest = cr_hmac_sha256 cr (as_bytes secret) (as_bytes (message @ show_nat timestamp));
         token = cr_urlencode cr (as_bytes (cr_base64 cr digest))
     in show_nat timestamp @ ''-'' @ token)"

text \<open>
  \<open>cr_to_montgomery\<close> stands for parsing the last 32 bytes as a compressed Edwards point,
  decompressing it and converting it to a public key; the nonce is drawn only after it succeeded.
\<close>

definition encrypt_with_rng ::
  "('p, 'sk, 'rng) crypto \<Rightarrow> 'p \<Rightarrow> 'sk \<Rightarrow> u8 list \<Rightarrow> 'rng \<Rightarrow> 'rng \<times> (string, u8 list \<times> u8 list) result"
where
  "encrypt_with_rng cr worker_id secret_key plaintext rng =
    (let peer_id_decoded = cr_to_bytes cr worker_id
     in if length peer_id_decoded \<noteq> 38 then (rng, Err ''WorkerID parsing failed'')
        else case cr_to_montgomery cr (drop 6 peer_id_decoded) of
          None \<Rightarrow> (rng, Err ''Failed to decompress Edwards point'')
        | Some worker_public_key \<Rightarrow>
            (let (nonce, rng') = cr_generate_nonce cr rng
             in case cr_box_encrypt cr worker_public_key secret_key nonce plaintext of
                  None \<Rightarrow> (rng', Err ''Error'')
                | Some ciphertext \<Rightarrow> (rng', Ok (ciphertext, nonce))))"

definition header_plaintext :: "string \<Rightarrow> string \<Rightarrow> string" where
  "header_plaintext ident worker_signature =
    CHR ''{'' # CHR 0x22 # ''worker-id'' @ CHR 0x22 # CHR '':'' # CHR 0x22 # ident @ CHR 0x22 #
    CHR '','' # CHR 0x22 # ''worker-signature'' @ CHR 0x22 # CHR '':'' # CHR 0x22 #
    worker_signature @ CHR 0x22 # ''}''"

text \<open>
  \<^verbatim>\<open>decrypt_headers\<close>. The worker's keypair is given by the box key it converts to (\<open>box_key\<close>,
  through a SHA-512 of its ed25519 seed), \<^const>\<open>None\<close> when it is not an ed25519 key. A public key is
  32 bytes. The nonce is copied into a fixed array by \<^verbatim>\<open>GenericArray::from_slice\<close>, which panics
  unless it is 24 bytes long. The JSON parser gives \<^const>\<open>None\<close> on malformed text, \<open>Some None\<close> when
  the value is not an object, and otherwise its entries, those that are not strings as \<^const>\<open>None\<close>.
\<close>

definition collect_headers :: "(string \<times> string option) list \<Rightarrow> (string, string) btree" where
  "collect_headers entries =
    fold (\<lambda>(k, v) m. case v of None \<Rightarrow> m | Some s \<Rightarrow> btree_insert k s m) entries []"

definition decrypt_headers ::
  "('p, 'sk, 'rng) crypto \<Rightarrow> encrypted_headers option \<Rightarrow> 'sk option \<Rightarrow>
    (string, (string, string) btree) result outcome"
where
  "decrypt_headers cr headers box_key =
    (case box_key of
       None \<Rightarrow> Return (Err ''not an ed25519 key'')
     | Some worker_secret_key \<Rightarrow>
         (case headers of
            None \<Rightarrow> Return (Err ''EncryptedHeaders field missing'')
          | Some h \<Rightarrow>
              if length (eh_identity h) \<noteq> 32 then Return (Err ''invalid public key'')
              else if length (eh_nonce h) \<noteq> 24 then Panic ''GenericArray::from_slice''
              else
                (case cr_box_decrypt cr (eh_identity h) worker_secret_key (eh_nonce h)
                    (eh_ciphertext h) of
                   None \<Rightarrow> Return (Err ''aead::Error'')
                 | Some plaintext_bytes \<Rightarrow>
                     (case from_utf8 plaintext_bytes of
                        None \<Rightarrow> Return (Err ''invalid utf-8'')
                      | Some plaintext \<Rightarrow>
                          (case cr_parse_json cr plaintext of
                             None \<Rightarrow> Return (Err ''invalid JSON'')
                           | Some None \<Rightarrow> Return (Err ''Parsed headers JSON is not an object'')
                           | Some (Some entries) \<Rightarrow> Return (Ok (collect_headers entries)))))))"

section \<open>Round trip\<close>

text \<open>
  What is relied on of the box: opening with the receiver's secret key and the sender's public key
  inverts sealing with the receiver's public key and the sender's secret key, for the nonce used.
\<close>

definition box_ok :: "('p, 'sk, 'rng) crypto \<Rightarrow> u8 list \<Rightarrow> 'sk \<Rightarrow> 'sk \<Rightarrow> bool" where
  "box_ok cr worker_pk worker_sk sender_sk =
    (\<forall>nonce msg c. cr_box_encrypt cr worker_pk sender_sk nonce msg = Some c \<longrightarrow>
       cr_box_decrypt cr (cr_public_key cr sender_sk) worker_sk nonce c = Some msg)"

lemma encrypt_with_rng_Ok:
  assumes "encrypt_with_rng cr p sk msg rng = (rng', Ok (c, n))"
  obtains pk where "length (cr_to_bytes cr p) = 38"
    "cr_to_montgomery cr (drop 6 (cr_to_bytes cr p)) = Some pk"
    "cr_box_encrypt cr pk sk n msg = Some c" "cr_generate_nonce cr rng = (n, rng')"
  using assms
  by (auto simp: encrypt_with_rng_def Let_def split: if_splits option.splits prod.splits)

lemma decrypt_encrypted:
  assumes "encrypt_with_rng cr p sk msg rng = (rng', Ok (c, n))"
    and "cr_to_montgomery cr (drop 6 (cr_to_bytes cr p)) = Some pk" "box_ok cr pk worker_sk sk"
  shows "cr_box_decrypt cr (cr_public_key cr sk) worker_sk n c = Some msg"
  using assms by (auto simp: box_ok_def elim!: encrypt_with_rng_Ok)

end
