(* ===== verification/Registry.thy ===== *)
theory Registry
  imports Headers
begin

text \<open>
  The worker registry all three builders implement: workers are added in strictly ascending order of
  their peer ids, which is what lets a reader bisect the entries. The locale \<open>worker_registry\<close> is the
  contract of an \<^verbatim>\<open>add_worker\<close>; \<open>registered\<close> says which peer ids a builder holds.
\<close>

definition registered :: "('p::linorder \<Rightarrow> u8 list) \<Rightarrow> u8 list list \<Rightarrow> 'p option \<Rightarrow> 'p list \<Rightarrow> bool" where
  "registered to_bytes ids last_id ps =
    (ids = map to_bytes ps \<and> sorted_wrt (<) ps \<and>
     last_id = (if ps = [] then None else Some (last ps)))"

lemma registered_Nil [simp]: "registered to_bytes [] None []"
  by (simp add: registered_def)

lemma registered_snoc:
  assumes "registered to_bytes ids l ps" "\<not> out_of_order l p"
  shows "registered to_bytes (ids @ [to_bytes p]) (Some p) (ps @ [p])"
proof -
  have "\<forall>q \<in> set ps. q < p"
  proof (cases ps rule: rev_cases)
    case (snoc qs l')
    then have "l' < p" "\<forall>q \<in> set qs. q < l'"
      using assms by (simp_all add: registered_def out_of_order_def)
    with snoc show ?thesis
      by (auto intro: order.strict_trans)
  qed simp
  with assms(1) show ?thesis
    by (simp add: registered_def)
qed

fun add_all :: "('w \<Rightarrow> 'b \<Rightarrow> 'b outcome) \<Rightarrow> 'w list \<Rightarrow> 'b \<Rightarrow> 'b outcome" where
  "add_all add [] b = Return b"
| "add_all add (w # ws) b = outcome_bind (add w b) (add_all add ws)"

locale worker_registry =
  fixes add :: "'w \<Rightarrow> 'b \<Rightarrow> 'b outcome"
    and peer :: "'w \<Rightarrow> 'p::linorder"
    and to_bytes :: "'p \<Rightarrow> u8 list"
    and ids :: "'b \<Rightarrow> u8 list list"
    and last_id :: "'b \<Rightarrow> 'p option"
  assumes add_Return: "length (to_bytes (peer w)) = WORKER_ID_LEN \<Longrightarrow> add w b = Return b' \<Longrightarrow>
      ids b' = ids b @ [to_bytes (peer w)] \<and> last_id b' = Some (peer w) \<and>
      \<not> out_of_order (last_id b) (peer w)"
    and add_defined: "length (to_bytes (peer w)) = WORKER_ID_LEN \<Longrightarrow>
      \<not> out_of_order (last_id b) (peer w) \<Longrightarrow> \<exists>b'. add w b = Return b'"
    and add_panics: "out_of_order (last_id b) (peer w) \<Longrightarrow> \<exists>m. add w b = Panic m"
begin

lemma registered_add:
  assumes "registered to_bytes (ids b) (last_id b) ps" "length (to_bytes (peer w)) = WORKER_ID_LEN"
    and "add w b = Return b'"
  shows "registered to_bytes (ids b') (last_id b') (ps @ [peer w])"
  using registered_snoc [OF assms(1)] add_Return [OF assms(2,3)] by simp

lemma registered_add_all:
  assumes "registered to_bytes (ids b) (last_id b) ps"
    and "\<forall>w \<in> set ws. length (to_bytes (peer w)) = WORKER_ID_LEN" "add_all add ws b = Return b'"
  shows "registered to_bytes (ids b') (last_id b') (ps @ map peer ws)"
  using assms
proof (induction ws arbitrary: b ps)
  case (Cons w ws)
  then obtain b1 where b1: "add w b = Return b1" "add_all add ws b1 = Return b'"
    by auto
  with registered_add [OF Cons.prems(1) _ b1(1)] Cons.IH [of b1 "ps @ [peer w]"] Cons.prems(2)
  show ?case
    by simp
qed simp

text \<open>Adding ascending workers never panics.\<close>

lemma add_all_defined:
  assumes "registered to_bytes (ids b) (last_id b) ps"
    and "\<forall>w \<in> set ws. length (to_bytes (peer w)) = WORKER_ID_LEN"
    and "sorted_wrt (<) (ps @ map peer ws)"
  shows "\<exists>b'. add_all add ws b = Return b'"
  using assms
proof (induction ws arbitrary: b ps)
  case (Cons w ws)
  have "\<not> out_of_order (last_id b) (peer w)"
    using Cons.prems(1,3) by (auto simp: registered_def out_of_order_def sorted_wrt_append)
  then obtain b1 where b1: "add w b = Return b1"
    using add_defined [of w b] Cons.prems(2) by auto
  have "registered to_bytes (ids b1) (last_id b1) (ps @ [peer w])"
    using registered_add [OF Cons.prems(1) _ b1] Cons.prems(2) by simp
  with Cons.IH [of b1 "ps @ [peer w]"] Cons.prems b1 show ?case
    by auto
qed simp

end

section \<open>Finding a worker\<close>

lemma find_registered:
  assumes "length ids = length ps" "sorted_wrt (<) (ps :: 'p::linorder list)"
    and "\<And>i. i < length ps \<Longrightarrow> f i = Return (cmp (ps ! i) p)"
  shows "i < length ps \<Longrightarrow> ps ! i = p \<Longrightarrow> lookup_index_by_key (length ids) f = Return (Some i)"
    and "p \<notin> set ps \<Longrightarrow> lookup_index_by_key (length ids) f = Return None"
proof -
  have "ascending_cmp (length ps) (\<lambda>i. cmp (ps ! i) p)"
    using ascending_cmp_sorted [of "\<lambda>x. x" ps p] sorted_wrt_less_sorted [OF assms(2)] by simp
  from lookup_index_by_key_pure [OF assms(3) this]
  obtain r where r: "lookup_index_by_key (length ps) f = Return r"
    "r = None \<Longrightarrow> \<forall>i < length ps. ps ! i \<noteq> p" "\<And>i. r = Some i \<Longrightarrow> i < length ps \<and> ps ! i = p"
    by auto
  show "lookup_index_by_key (length ids) f = Return (Some i)" if here: "i < length ps" "ps ! i = p"
  proof -
    obtain j where "r = Some j"
      using r(2) here by (cases r) auto
    moreover from r(3) [OF this] have "j = i"
      using here sorted_wrt_less_distinct [OF assms(2)] by (simp add: distinct_conv_nth) blast
    ultimately show ?thesis
      using r(1) assms(1) by simp
  qed
  show "lookup_index_by_key (length ids) f = Return None" if "p \<notin> set ps"
    using r assms(1) that by (cases r) auto
qed

end
