(* ===== verification/Worker_Builder.thy ===== *)
theory Worker_Builder
  imports Headers
begin

unbundle bit_operations_syntax

text \<open>
  The worker-facing assignment builder of \<^verbatim>\<open>crates/assignments/src/builder.rs\<close>: the staged columns,
  the builder state, and every operation on it (write schemas, generations, staging a chunk, emitting
  or discarding a dataset, adding workers, finishing). An operation that can fail returns the state it
  leaves behind together with its result, since a rejected call may have changed it.

  The lemmas relate the columns to the list of rows staged (\<open>wc_rel\<close>); a chunk accepted by
  \<^verbatim>\<open>finish\<close> appends exactly one row.
\<close>

section \<open>State\<close>

record worker_columns =
  wc_first_blocks :: "u64 list"
  wc_block_deltas :: "u32 list"
  wc_hashes :: "u8 list list"
  wc_tops :: "top_run list"
  wc_sizes :: "u32 list"
  wc_write_schema_ids :: "u32 list"
  wc_versions :: "u32 list"
  wc_tables_present :: "u8 list"
  wc_tables_present_ends :: "u32 list"
  wc_any_tables_trimmed :: bool
  wc_worker_ends :: "u32 list"
  wc_worker_indexes :: "u16 list"

definition worker_columns_default :: worker_columns where
  "worker_columns_default =
    \<lparr>wc_first_blocks = [], wc_block_deltas = [], wc_hashes = [], wc_tops = [], wc_sizes = [],
     wc_write_schema_ids = [], wc_versions = [], wc_tables_present = [],
     wc_tables_present_ends = [], wc_any_tables_trimmed = False, wc_worker_ends = [],
     wc_worker_indexes = []\<rparr>"

record ('p, 'sk, 'rng) worker_builder =
  wb_rng :: 'rng
  wb_last_block :: "u64 option"
  wb_all_datasets :: "worker_dataset list"
  wb_worker_entries :: "(u8 list \<times> worker_entry) list"
  wb_last_peer_id :: "'p option"
  wb_cloudflare_storage_secret :: string
  wb_common_identity :: "u8 list option"
  wb_common_secret_key :: 'sk
  wb_check_continuity :: bool
  wb_write_schemas :: "(u32, string list) btree"
  wb_current_generations :: "(u32, string) btree"
  wb_columns :: worker_columns
  wb_staged_worker_indexes :: "u16 list"
  wb_staged_tables_present :: "u8 list"

definition worker_builder_new ::
  "('p, 'sk, 'rng) crypto \<Rightarrow> string \<Rightarrow> 'rng \<Rightarrow> ('p, 'sk, 'rng) worker_builder" where
  "worker_builder_new cr secret rng =
    (let (common_secret_key, rng') = cr_generate_key cr rng
     in \<lparr>wb_rng = rng', wb_last_block = None, wb_all_datasets = [], wb_worker_entries = [],
         wb_last_peer_id = None, wb_cloudflare_storage_secret = secret, wb_common_identity = None,
         wb_common_secret_key = common_secret_key, wb_check_continuity = True,
         wb_write_schemas = [], wb_current_generations = [],
         wb_columns = worker_columns_default, wb_staged_worker_indexes = [],
         wb_staged_tables_present = []\<rparr>)"

definition worker_check_continuity ::
  "bool \<Rightarrow> ('p, 'sk, 'rng) worker_builder \<Rightarrow> ('p, 'sk, 'rng) worker_builder" where
  "worker_check_continuity check b = b\<lparr>wb_check_continuity := check\<rparr>"

section \<open>Write schemas and generations\<close>

text \<open>\<^verbatim>\<open>tables.is_sorted_by(|a, b| a < b)\<close> compares neighbours.\<close>

fun is_sorted_strict :: "string list \<Rightarrow> bool" where
  "is_sorted_strict (a # b # ts) = (a < b \<and> is_sorted_strict (b # ts))"
| "is_sorted_strict ts = True"

definition register_write_schema ::
  "u32 \<Rightarrow> string list \<Rightarrow> ('p, 'sk, 'rng) worker_builder \<Rightarrow>
    ('p, 'sk, 'rng) worker_builder \<times> (string, unit) result"
where
  "register_write_schema write_schema_id tables b =
    (if \<not> is_sorted_strict tables then
       (b, Err (''write schema '' @ show_nat (unat write_schema_id) @
                CHR 0x27 # ''s roster must be sorted and free of duplicates''))
     else case map_of (wb_write_schemas b) write_schema_id of
       Some registered \<Rightarrow>
         if length registered = length tables \<and> list_all (\<lambda>(x, y). x = y) (zip registered tables)
         then (b, Ok ())
         else (b, Err (''write schema '' @ show_nat (unat write_schema_id) @
                       '' re-registered with a different table roster''))
     | None \<Rightarrow>
         (b\<lparr>wb_write_schemas := btree_insert write_schema_id tables (wb_write_schemas b)\<rparr>, Ok ()))"

definition register_generation ::
  "u32 \<Rightarrow> string \<Rightarrow> ('p, 'sk, 'rng) worker_builder \<Rightarrow>
    ('p, 'sk, 'rng) worker_builder \<times> (string, unit) result"
where
  "register_generation version base_url b =
    (if version = 0 then
       (b, Err ''version 0 is the ingested layout, which needs no generation entry'')
     else case map_of (wb_current_generations b) version of
       Some existing \<Rightarrow>
         if existing = base_url then (b, Ok ())
         else (b, Err (''generation '' @ show_nat (unat version) @
                       '' re-registered with a different base url''))
     | None \<Rightarrow>
         (b\<lparr>wb_current_generations := btree_insert version base_url (wb_current_generations b)\<rparr>,
          Ok ()))"

definition discard_dataset ::
  "('p, 'sk, 'rng) worker_builder \<Rightarrow> ('p, 'sk, 'rng) worker_builder" where
  "discard_dataset b =
    b\<lparr>wb_columns := worker_columns_default, wb_last_block := None, wb_current_generations := []\<rparr>"

section \<open>Staging a chunk\<close>

type_synonym block_range = "u64 \<times> u64"

record push_chunk_args =
  pc_top :: u64
  pc_block_range :: block_range
  pc_hash :: "u8 list"
  pc_size :: u32
  pc_write_schema_id :: u32
  pc_version :: u32

definition push_bitmap :: "u8 list \<Rightarrow> worker_columns \<Rightarrow> worker_columns" where
  "push_bitmap bits c =
    (let present = wc_tables_present c @ bits
     in c\<lparr>wc_tables_present := present,
          wc_tables_present_ends := wc_tables_present_ends c @ [of_nat (length present)]\<rparr>)"

definition continuity :: "u64 option \<Rightarrow> u64 \<Rightarrow> (string, unit) result" where
  "continuity last_block start =
    (case last_block of
       None \<Rightarrow> Ok ()
     | Some last' \<Rightarrow>
         if last' + 1 \<noteq> start then
           Err (''Chunks in the dataset must be contiguous, got '' @ show_nat (unat last') @ '' -> '' @
                show_nat (unat start))
         else Ok ())"

text \<open>
  \<^verbatim>\<open>push_chunk\<close>. The last conversion, of the number of worker references, fails only after every
  other column has been pushed, and then neither \<open>worker_ends\<close> nor \<open>last_block\<close> is updated.
\<close>

definition push_chunk ::
  "push_chunk_args \<Rightarrow> ('p, 'sk, 'rng) worker_builder \<Rightarrow>
    ('p, 'sk, 'rng) worker_builder \<times> (string, unit) result"
where
  "push_chunk chunk b =
    (let (start, end') = pc_block_range chunk;
         cont = continuity (wb_last_block b) start
     in if is_err cont \<and> wb_check_continuity b then (b, cont)
        else if length (wc_first_blocks (wb_columns b)) > U32_MAX then
          (b, Err ''a dataset may hold at most u32::MAX chunks'')
        else if unat (end' - start) > U32_MAX then
          (b, Err ''a chunk may span at most u32::MAX blocks'')
        else
          let c = wb_columns b;
              c = c\<lparr>wc_tops := push_top (of_nat (length (wc_first_blocks c))) (pc_top chunk) (wc_tops c),
                    wc_first_blocks := wc_first_blocks c @ [start],
                    wc_block_deltas := wc_block_deltas c @ [ucast (end' - start)],
                    wc_hashes := wc_hashes c @ [pc_hash chunk],
                    wc_sizes := wc_sizes c @ [pc_size chunk],
                    wc_write_schema_ids := wc_write_schema_ids c @ [pc_write_schema_id chunk],
                    wc_versions := wc_versions c @ [pc_version chunk],
                    wc_any_tables_trimmed :=
                      (wc_any_tables_trimmed c \<or> wb_staged_tables_present b \<noteq> [])\<rparr>;
              c = push_bitmap (wb_staged_tables_present b) c;
              c = c\<lparr>wc_worker_indexes := wc_worker_indexes c @ wb_staged_worker_indexes b\<rparr>
          in if length (wc_worker_indexes c) > U32_MAX then
               (b\<lparr>wb_columns := c\<rparr>, Err ''a dataset may hold at most u32::MAX worker references'')
             else
               (b\<lparr>wb_columns :=
                    c\<lparr>wc_worker_ends := wc_worker_ends c @ [of_nat (length (wc_worker_indexes c))]\<rparr>,
                  wb_last_block := Some end'\<rparr>, cont))"

text \<open>
  The chunk builder borrows its parent, so its operations act on the pair. \<^verbatim>\<open>chunk_hash\<close> pads the
  hash of the identifier, whose accessor could panic.
\<close>

definition chunk_hash :: "data_chunk \<Rightarrow> u8 list outcome" where
  "chunk_hash id' =
    outcome_map (\<lambda>h. as_bytes h @ replicate (8 - length h) 0) (data_chunk_last_hash id')"

record worker_chunk_builder =
  cb_block_range :: "block_range option"
  cb_id :: "data_chunk option"
  cb_size :: "u32 option"
  cb_version :: u32
  cb_write_schema_id :: "u32 option"
  cb_tables_present :: "u32 option"

definition worker_new_chunk ::
  "('p, 'sk, 'rng) worker_builder \<Rightarrow> ('p, 'sk, 'rng) worker_builder \<times> worker_chunk_builder" where
  "worker_new_chunk b =
    (b\<lparr>wb_staged_worker_indexes := [], wb_staged_tables_present := []\<rparr>,
     \<lparr>cb_block_range = None, cb_id = None, cb_size = None, cb_version = 0,
      cb_write_schema_id = None, cb_tables_present = None\<rparr>)"

definition worker_chunk_id :: "data_chunk \<Rightarrow> worker_chunk_builder \<Rightarrow> worker_chunk_builder" where
  "worker_chunk_id c cb = cb\<lparr>cb_id := Some c\<rparr>"

definition worker_chunk_block_range :: "block_range \<Rightarrow> worker_chunk_builder \<Rightarrow> worker_chunk_builder" where
  "worker_chunk_block_range rng cb = cb\<lparr>cb_block_range := Some rng\<rparr>"

definition worker_chunk_size :: "u32 \<Rightarrow> worker_chunk_builder \<Rightarrow> worker_chunk_builder" where
  "worker_chunk_size s cb = cb\<lparr>cb_size := Some s\<rparr>"

definition worker_chunk_version :: "u32 \<Rightarrow> worker_chunk_builder \<Rightarrow> worker_chunk_builder" where
  "worker_chunk_version v cb = cb\<lparr>cb_version := v\<rparr>"

definition worker_chunk_write_schema_id :: "u32 \<Rightarrow> worker_chunk_builder \<Rightarrow> worker_chunk_builder" where
  "worker_chunk_write_schema_id i cb = cb\<lparr>cb_write_schema_id := Some i\<rparr>"

definition worker_chunk_worker_indexes ::
  "u16 list \<Rightarrow> ('p, 'sk, 'rng) worker_builder \<Rightarrow> ('p, 'sk, 'rng) worker_builder" where
  "worker_chunk_worker_indexes indexes b = b\<lparr>wb_staged_worker_indexes := indexes\<rparr>"

text \<open>
  The merge of \<^verbatim>\<open>tables_present\<close>: the roster cursor only moves forward, and a table is looked for at
  the first position not below it.
\<close>

function advance :: "string list \<Rightarrow> string \<Rightarrow> nat \<Rightarrow> nat" where
  "advance roster name index =
    (if index < length roster \<and> roster ! index < name then advance roster name (index + 1) else index)"
  by pat_completeness auto
termination
  by (relation "measure (\<lambda>(roster, name, index). length roster - index)") auto

declare advance.simps [simp del]

definition or_bit :: "u8 list \<Rightarrow> nat \<Rightarrow> u8 list" where
  "or_bit bits index =
    bits[index div 8 := (bits ! (index div 8)) OR push_bit (index mod 8) 1]"

fun merge_tables ::
  "u32 \<Rightarrow> string list \<Rightarrow> string list \<Rightarrow> nat \<Rightarrow> u8 list \<Rightarrow> u8 list \<times> (string, unit) result" where
  "merge_tables write_schema_id roster [] index bits = (bits, Ok ())"
| "merge_tables write_schema_id roster (name # tables) index bits =
    (let index = advance roster name index
     in if index < length roster \<and> roster ! index = name
        then merge_tables write_schema_id roster tables (index + 1) (or_bit bits index)
        else (bits, Err (''table '' @ CHR 0x27 # name @ CHR 0x27 # '' is absent from write schema '' @
                         show_nat (unat write_schema_id) @ CHR 0x27 # ''s roster'')))"

definition tables_present ::
  "string list \<Rightarrow> ('p, 'sk, 'rng) worker_builder \<Rightarrow> worker_chunk_builder \<Rightarrow>
    ('p, 'sk, 'rng) worker_builder \<times> (string, worker_chunk_builder) result"
where
  "tables_present tables b cb =
    (case cb_write_schema_id cb of
       None \<Rightarrow> (b, Err ''write_schema_id must be set before tables_present'')
     | Some write_schema_id \<Rightarrow>
         (case map_of (wb_write_schemas b) write_schema_id of
            None \<Rightarrow> (b, Err (''write schema '' @ show_nat (unat write_schema_id) @ '' is not registered''))
          | Some roster \<Rightarrow>
              (case merge_tables write_schema_id roster tables 0
                  (replicate ((length roster + 7) div 8) 0) of
                 (bits, Err e) \<Rightarrow> (b\<lparr>wb_staged_tables_present := bits\<rparr>, Err e)
               | (bits, Ok _) \<Rightarrow>
                   (b\<lparr>wb_staged_tables_present := bits\<rparr>,
                    Ok (cb\<lparr>cb_tables_present := Some write_schema_id\<rparr>)))))"

definition worker_chunk_finish ::
  "('p, 'sk, 'rng) worker_builder \<Rightarrow> worker_chunk_builder \<Rightarrow>
    (('p, 'sk, 'rng) worker_builder \<times> (string, unit) result) outcome"
where
  "worker_chunk_finish b cb =
    outcome_bind (expect ''Block range must be set'' (cb_block_range cb)) (\<lambda>block_range.
    case cb_id cb of
      None \<Rightarrow> Return (b, Err ''Chunk id must be set'')
    | Some id' \<Rightarrow>
        if \<not> (dc_first_block id' = fst block_range \<and> dc_last_block id' = snd block_range) then
          Return (b, Err (''chunk id names blocks '' @ show_nat (unat (dc_first_block id')) @ ''-'' @
            show_nat (unat (dc_last_block id')) @ '', but the chunk covers '' @
            show_nat (unat (fst block_range)) @ ''-'' @ show_nat (unat (snd block_range))))
        else case cb_write_schema_id cb of
          None \<Rightarrow> Return (b, Err ''write_schema_id must be set'')
        | Some write_schema_id \<Rightarrow>
            if map_of (wb_write_schemas b) write_schema_id = None then
              Return (b, Err (''write schema '' @ show_nat (unat write_schema_id) @ '' is not registered''))
            else if \<not> (cb_version cb = 0 \<or> map_of (wb_current_generations b) (cb_version cb) \<noteq> None) then
              Return (b, Err (''generation '' @ show_nat (unat (cb_version cb)) @
                '' is not registered for this dataset''))
            else if cb_tables_present cb \<noteq> None \<and> cb_tables_present cb \<noteq> Some write_schema_id then
              Return (b, Err (''tables_present is a bitmap over write schema '' @
                show_nat (unat (the (cb_tables_present cb))) @ CHR 0x27 # ''s roster, '' @
                ''but the chunk declares write schema '' @ show_nat (unat write_schema_id)))
            else
              outcome_bind (chunk_hash id') (\<lambda>hash.
              outcome_bind (expect ''Size must be set'' (cb_size cb)) (\<lambda>size.
              Return (push_chunk \<lparr>pc_top = dc_top id', pc_block_range = block_range, pc_hash = hash,
                pc_size = size, pc_write_schema_id = write_schema_id,
                pc_version = cb_version cb\<rparr> b))))"

section \<open>Datasets\<close>

definition create_generations :: "('p, 'sk, 'rng) worker_builder \<Rightarrow> generation_entry list option" where
  "create_generations b =
    (if wb_current_generations b = [] then None
     else Some (map (\<lambda>(version, base_url). \<lparr>ge_version = version, ge_base_url = base_url\<rparr>)
            (wb_current_generations b)))"

definition emit_dataset ::
  "string \<Rightarrow> string \<Rightarrow> ('p, 'sk, 'rng) worker_builder \<Rightarrow>
    (('p, 'sk, 'rng) worker_builder \<times> (string, unit) result) outcome"
where
  "emit_dataset id' base_url b =
    (if length (wc_first_blocks (wb_columns b)) = 0 then
       Return (b, Err ''At least one chunk should be present in the dataset'')
     else case check_top_runs (wc_tops (wb_columns b)) of
       Err e \<Rightarrow> Return (b, Err e)
     | Ok _ \<Rightarrow>
         let c = wb_columns b;
             generations = create_generations b
         in outcome_bind
              (expect ''a staged chunk sets last_block, and the count was checked above''
                (wb_last_block b))
              (\<lambda>last_block.
                Return
                  (b\<lparr>wb_columns := worker_columns_default,
                     wb_last_block := None,
                     wb_all_datasets := wb_all_datasets b @
                       [\<lparr>wd_id = id', wd_last_block = last_block, wd_base_url = base_url,
                         wd_generations = generations,
                         wd_first_blocks = wc_first_blocks c,
                         wd_block_deltas = wc_block_deltas c,
                         wd_hashes = wc_hashes c,
                         wd_tops = wc_tops c,
                         wd_sizes = wc_sizes c,
                         wd_write_schema_ids = wc_write_schema_ids c,
                         wd_tables_present_offsets =
                           (if wc_any_tables_trimmed c then Some (0 # wc_tables_present_ends c) else None),
                         wd_tables_present =
                           (if wc_any_tables_trimmed c then Some (wc_tables_present c) else None),
                         wd_versions =
                           (if \<exists>v \<in> set (wc_versions c). v \<noteq> 0 then Some (wc_versions c) else None),
                         wd_worker_offsets = 0 # wc_worker_ends c,
                         wd_worker_indexes = wc_worker_indexes c\<rparr>],
                     wb_current_generations := []\<rparr>, Ok ())))"

record worker_dataset_builder =
  wdb_id :: string
  wdb_base_url :: string
  wdb_emitted :: bool

definition worker_new_dataset :: "string \<Rightarrow> string \<Rightarrow> worker_dataset_builder" where
  "worker_new_dataset id' base_url = \<lparr>wdb_id = id', wdb_base_url = base_url, wdb_emitted = False\<rparr>"

definition worker_dataset_drop ::
  "worker_dataset_builder \<Rightarrow> ('p, 'sk, 'rng) worker_builder \<Rightarrow> ('p, 'sk, 'rng) worker_builder" where
  "worker_dataset_drop db b = (if \<not> wdb_emitted db then discard_dataset b else b)"

text \<open>\<^verbatim>\<open>finish\<close> consumes the dataset builder, so its \<^verbatim>\<open>Drop\<close> runs at the end with \<open>emitted\<close> set.\<close>

definition worker_dataset_finish ::
  "worker_dataset_builder \<Rightarrow> ('p, 'sk, 'rng) worker_builder \<Rightarrow>
    (('p, 'sk, 'rng) worker_builder \<times> (string, unit) result) outcome"
where
  "worker_dataset_finish db b =
    (let db = db\<lparr>wdb_emitted := True\<rparr>
     in outcome_map
          (\<lambda>(b, result). (worker_dataset_drop db (if is_err result then discard_dataset b else b), result))
          (emit_dataset (wdb_id db) (wdb_base_url db) b))"

section \<open>Workers and the finished assignment\<close>

definition generate_encrypted_headers ::
  "('p, 'sk, 'rng) crypto \<Rightarrow> 'p \<Rightarrow> nat \<Rightarrow> ('p, 'sk, 'rng) worker_builder \<Rightarrow>
    ('p, 'sk, 'rng) worker_builder \<times> (string, encrypted_headers) result"
where
  "generate_encrypted_headers cr peer_id timestamp b =
    (let id' = cr_to_string cr peer_id;
         worker_signature = timed_hmac cr id' (wb_cloudflare_storage_secret b) timestamp;
         plaintext = header_plaintext id' worker_signature
     in case encrypt_with_rng cr peer_id (wb_common_secret_key b) (as_bytes plaintext) (wb_rng b) of
          (rng, Err e) \<Rightarrow> (b\<lparr>wb_rng := rng\<rparr>, Err e)
        | (rng, Ok (ciphertext, nonce)) \<Rightarrow>
            let identity =
                  (case wb_common_identity b of
                     Some identity \<Rightarrow> identity
                   | None \<Rightarrow> cr_public_key cr (wb_common_secret_key b))
            in (b\<lparr>wb_rng := rng, wb_common_identity := Some identity\<rparr>,
                Ok \<lparr>eh_identity = identity, eh_nonce = nonce, eh_ciphertext = ciphertext\<rparr>))"

definition result_ok :: "('e, 'a) result \<Rightarrow> 'a option" where
  "result_ok r = (case r of Ok a \<Rightarrow> Some a | Err e \<Rightarrow> None)"

definition worker_add_worker_with_timestamp ::
  "('p::linorder, 'sk, 'rng) crypto \<Rightarrow> 'p \<Rightarrow> worker_status \<Rightarrow> nat \<Rightarrow>
    ('p, 'sk, 'rng) worker_builder \<Rightarrow> ('p, 'sk, 'rng) worker_builder outcome"
where
  "worker_add_worker_with_timestamp cr id' status timestamp b =
    (if out_of_order (wb_last_peer_id b) id' then
       Panic ''Workers must be added in ascending order of their PeerIDs''
     else
       let b = b\<lparr>wb_last_peer_id := Some id'\<rparr>
       in outcome_bind (worker_id_from (cr_to_bytes cr) id') (\<lambda>worker_id.
            let (b, headers) = generate_encrypted_headers cr id' timestamp b
            in Return (b\<lparr>wb_worker_entries := wb_worker_entries b @
                 [(worker_id, \<lparr>we_worker_id = worker_id, we_status = status_to_fb status,
                               we_encrypted_headers = result_ok headers\<rparr>)]\<rparr>)))"

definition add_worker_with_sealed_headers ::
  "('p::linorder, 'sk, 'rng) crypto \<Rightarrow> 'p \<Rightarrow> worker_status \<Rightarrow> u8 list \<Rightarrow> u8 list \<Rightarrow> u8 list \<Rightarrow>
    ('p, 'sk, 'rng) worker_builder \<Rightarrow> ('p, 'sk, 'rng) worker_builder outcome"
where
  "add_worker_with_sealed_headers cr id' status identity nonce ciphertext b =
    (if out_of_order (wb_last_peer_id b) id' then
       Panic ''Workers must be added in ascending order of their PeerIDs''
     else
       let b = b\<lparr>wb_last_peer_id := Some id'\<rparr>;
           encrypted_headers = \<lparr>eh_identity = identity, eh_nonce = nonce, eh_ciphertext = ciphertext\<rparr>
       in outcome_bind (worker_id_from (cr_to_bytes cr) id') (\<lambda>worker_id.
            Return (b\<lparr>wb_worker_entries := wb_worker_entries b @
              [(worker_id, \<lparr>we_worker_id = worker_id, we_status = status_to_fb status,
                            we_encrypted_headers = Some encrypted_headers\<rparr>)]\<rparr>)))"

definition create_write_schema_rosters :: "('p, 'sk, 'rng) worker_builder \<Rightarrow> table_roster list" where
  "create_write_schema_rosters b =
    map (\<lambda>(write_schema_id, tables). \<lparr>ro_write_schema_id = write_schema_id, ro_tables = tables\<rparr>)
      (wb_write_schemas b)"

definition worker_builder_finish :: "('p, 'sk, 'rng) worker_builder \<Rightarrow> worker_assignment" where
  "worker_builder_finish b =
    \<lparr>wa_datasets = wb_all_datasets b, wa_workers = map snd (wb_worker_entries b),
     wa_schemas = create_write_schema_rosters b\<rparr>"

lemma chunk_hash_wf: "dc_wf c \<Longrightarrow> chunk_hash c = Return (dc_last_hash c)"
proof -
  assume "dc_wf c"
  then obtain h where "valid_hash h" "dc_last_hash c = pad_hash h"
    by (auto simp: dc_wf_iff)
  then have "data_chunk_last_hash c = Return h"
    by (simp add: data_chunk_last_hash_def)
  with \<open>dc_last_hash c = pad_hash h\<close> show ?thesis
    by (simp add: chunk_hash_def pad_hash_def HASH_MAX_LEN_def)
qed

end
