(* ===== verification/Table_Bitmap.thy ===== *)
theory Table_Bitmap
  imports Worker_Builder
begin

text \<open>
  The bitmap of \<^verbatim>\<open>tables_present\<close>: the one-pass merge against a strictly sorted roster succeeds
  exactly on strictly sorted subsets of the roster, and the bits it sets select exactly the tables
  given. The reading side is the filter of \<^verbatim>\<open>chunk_tables\<close>.
\<close>

definition bit_at :: "u8 list \<Rightarrow> nat \<Rightarrow> bool" where
  "bit_at bits index =
    (index div 8 < length bits \<and> (bits ! (index div 8)) AND push_bit (index mod 8) 1 \<noteq> 0)"

definition select_tables :: "string list \<Rightarrow> u8 list option \<Rightarrow> string list" where
  "select_tables tables bits =
    map snd (filter (\<lambda>(index, table). case bits of None \<Rightarrow> True | Some bits \<Rightarrow> bit_at bits index)
      (enumerate 0 tables))"

lemma bit_at_iff: "bit_at bits i \<longleftrightarrow> i div 8 < length bits \<and> bit (bits ! (i div 8)) (i mod 8)"
  by (simp add: bit_at_def bit_iff_and_push_bit_not_eq_0)

lemma bit_at_zeros [simp]: "\<not> bit_at (replicate n 0) i"
  by (simp add: bit_at_iff)

lemma length_or_bit [simp]: "length (or_bit bits i) = length bits"
  by (simp add: or_bit_def)

lemma bit_at_or_bit:
  assumes "i div 8 < length bits"
  shows "bit_at (or_bit bits i) j \<longleftrightarrow> bit_at bits j \<or> j = i"
proof -
  have "j = i \<longleftrightarrow> j div 8 = i div 8 \<and> j mod 8 = i mod 8"
    by (metis div_mult_mod_eq)
  moreover have "bit (push_bit (i mod 8) (1 :: u8)) k \<longleftrightarrow> k = i mod 8" for k
    by (auto simp: bit_exp_iff)
  ultimately show ?thesis
    using assms by (auto simp: bit_at_iff or_bit_def nth_list_update bit_or_iff)
qed

lemma is_sorted_strict_iff: "is_sorted_strict ts \<longleftrightarrow> sorted_wrt (<) ts"
proof (induction ts rule: is_sorted_strict.induct)
  case (1 a b ts)
  then show ?case
    by (auto intro: order.strict_trans)
qed auto

section \<open>The roster cursor\<close>

lemma advance_post:
  "index \<le> advance roster name index \<and>
   (\<forall>i. index \<le> i \<and> i < advance roster name index \<longrightarrow> i < length roster \<and> roster ! i < name) \<and>
   (advance roster name index < length roster \<longrightarrow> \<not> roster ! advance roster name index < name)"
proof (induction roster name index rule: advance.induct)
  case (1 roster name index)
  show ?case
  proof (cases "index < length roster \<and> roster ! index < name")
    case True
    then have "advance roster name index = advance roster name (index + 1)"
      by (subst advance.simps) simp
    moreover have "i = index \<or> index + 1 \<le> i" if "index \<le> i" for i
      using that by auto
    ultimately show ?thesis
      using 1 [OF True] True by (metis add_leD1)
  next
    case False
    then have "advance roster name index = index"
      by (subst advance.simps) auto
    with False show ?thesis
      by auto
  qed
qed

lemma advance_eq:
  assumes "sorted_wrt (<) roster" "index \<le> i" "i < length roster"
  shows "advance roster (roster ! i) index = i"
proof -
  let ?a = "advance roster (roster ! i) index"
  have post: "index \<le> ?a" "\<forall>k. index \<le> k \<and> k < ?a \<longrightarrow> k < length roster \<and> roster ! k < roster ! i"
    "?a < length roster \<longrightarrow> \<not> roster ! ?a < roster ! i"
    using advance_post [of index roster "roster ! i"] by blast+
  have "\<not> i < ?a"
    using post(2) assms(2) by blast
  moreover have "\<not> ?a < i"
    using post(3) assms(3) sorted_wrt_nth_less [OF assms(1), of ?a i] by linarith
  ultimately show ?thesis
    by simp
qed

section \<open>The merge\<close>

text \<open>A successful merge visits strictly ascending positions from the cursor on.\<close>

lemma merge_tables_Ok:
  assumes "sorted_wrt (<) roster" "length bits = (length roster + 7) div 8"
    and "merge_tables w roster tables index bits = (bits', Ok ())"
  shows "\<exists>is. sorted_wrt (<) is \<and> (\<forall>i \<in> set is. index \<le> i \<and> i < length roster) \<and>
    tables = map (\<lambda>i. roster ! i) is \<and> (\<forall>j. bit_at bits' j \<longleftrightarrow> bit_at bits j \<or> j \<in> set is)"
  using assms
proof (induction w roster tables index bits rule: merge_tables.induct)
  case (1 w roster index bits)
  then show ?case
    by (intro exI [of _ "[]"]) simp
next
  case (2 w roster name tables index bits)
  let ?a = "advance roster name index"
  have a: "?a < length roster" "roster ! ?a = name"
    and rest: "merge_tables w roster tables (?a + 1) (or_bit bits ?a) = (bits', Ok ())"
    using 2(4) by (auto simp: Let_def split: if_splits)
  have "?a div 8 < length bits"
    using a(1) 2(3) by linarith
  moreover obtain "is" where "is": "sorted_wrt (<) is" "\<forall>i \<in> set is. ?a + 1 \<le> i \<and> i < length roster"
    "tables = map (\<lambda>i. roster ! i) is" "\<forall>j. bit_at bits' j \<longleftrightarrow> bit_at (or_bit bits ?a) j \<or> j \<in> set is"
    using 2(1) [OF refl conjI [OF a]] 2(2,3) rest by auto
  ultimately show ?case
    using a advance_post [of index roster name]
    by (intro exI [of _ "?a # is"]) (auto simp: bit_at_or_bit)
qed

text \<open>Conversely every strictly sorted sublist is accepted.\<close>

lemma merge_tables_accepts:
  assumes "sorted_wrt (<) roster" "sorted_wrt (<) is" "\<forall>i \<in> set is. index \<le> i \<and> i < length roster"
  shows "\<exists>bits'. merge_tables w roster (map (\<lambda>i. roster ! i) is) index bits = (bits', Ok ())"
  using assms
proof (induction "is" arbitrary: index bits)
  case (Cons i "is")
  have adv: "advance roster (roster ! i) index = i"
    using Cons.prems by (intro advance_eq) auto
  have "\<exists>bits'. merge_tables w roster (map (\<lambda>i. roster ! i) is) (i + 1) (or_bit bits i) = (bits', Ok ())"
    using Cons.prems by (intro Cons.IH) auto
  with adv Cons.prems show ?case
    by (simp add: Let_def)
qed simp

text \<open>\<open>encodes roster bits tables\<close>: the bitmap stands for the tables, over the roster.\<close>

definition encodes :: "string list \<Rightarrow> u8 list \<Rightarrow> string list \<Rightarrow> bool" where
  "encodes roster bits tables =
    (\<forall>i < length roster. bit_at bits i \<longleftrightarrow> roster ! i \<in> set tables)"

lemma select_tables_None [simp]: "select_tables tables None = tables"
  by (simp add: select_tables_def)

lemma select_tables_filter:
  assumes "\<And>i. i < length roster \<Longrightarrow> bit_at bits i \<longleftrightarrow> P (roster ! i)"
  shows "select_tables roster (Some bits) = filter P roster"
proof -
  have "filter (\<lambda>(index, table). bit_at bits index) (enumerate 0 roster) =
      filter (\<lambda>(index, table). P table) (enumerate 0 roster)"
    using assms by (intro filter_cong) (auto simp: in_set_enumerate_eq)
  also have "map snd \<dots> = filter P (map snd (enumerate 0 roster))"
    by (simp only: filter_map comp_def case_prod_unfold)
  finally show ?thesis
    by (simp add: select_tables_def)
qed

lemma select_encodes:
  assumes "encodes roster bits tables" "sorted_wrt (<) roster" "sorted_wrt (<) tables"
    and "set tables \<subseteq> set roster"
  shows "select_tables roster (Some bits) = tables"
proof -
  have "select_tables roster (Some bits) = filter (\<lambda>t. t \<in> set tables) roster"
    using assms(1) by (intro select_tables_filter) (simp add: encodes_def)
  moreover have "filter (\<lambda>t. t \<in> set tables) roster = tables"
    using assms(2-4)
    by (intro sorted_distinct_set_unique) (auto simp: strict_sorted_iff sorted_wrt_filter)
  ultimately show ?thesis
    by simp
qed

lemma merge_tables_encodes:
  assumes "sorted_wrt (<) roster"
    and "merge_tables w roster tables 0 (replicate ((length roster + 7) div 8) 0) = (bits, Ok ())"
  shows "encodes roster bits tables \<and> sorted_wrt (<) tables \<and> set tables \<subseteq> set roster"
proof -
  obtain "is" where "is": "sorted_wrt (<) is" "\<forall>i \<in> set is. i < length roster"
    "tables = map (\<lambda>i. roster ! i) is" "\<forall>j. bit_at bits j \<longleftrightarrow> j \<in> set is"
    using merge_tables_Ok [OF assms(1) _ assms(2)] by auto
  have inj: "roster ! i = roster ! j \<longleftrightarrow> i = j" if "i < length roster" "j < length roster" for i j
    using that sorted_wrt_less_distinct [OF assms(1)] by (simp add: nth_eq_iff_index_eq)
  have "encodes roster bits tables"
    using "is" inj by (auto simp: encodes_def)
  moreover have "sorted_wrt (<) tables"
    unfolding "is"(3) sorted_wrt_map
    using "is"(1) by (rule sorted_wrt_mono_rel [rotated])
      (use "is"(2) sorted_wrt_nth_less [OF assms(1)] in auto)
  ultimately show ?thesis
    using "is"(2,3) by auto
qed

lemma merge_tables_length: "length (fst (merge_tables w roster tables i bits)) = length bits"
  by (induction w roster tables i bits rule: merge_tables.induct) (auto simp: Let_def)

end
