(* ===== verification/Worker_Reader.thy ===== *)
theory Worker_Reader
  imports Headers Table_Bitmap
begin

text \<open>
  The worker-facing half of \<^verbatim>\<open>crates/assignments/src/reader.rs\<close>: loading and checking an assignment,
  the row cursor \<^verbatim>\<open>WorkerChunk\<close> with its accessors, the lookups, and the scan for one worker's
  holdings. Every subscript of a column is a \<^const>\<open>vec_get\<close>, so an accessor that could panic returns
  an outcome.
\<close>

section \<open>Loading\<close>

definition worker_dense :: "worker_dataset \<Rightarrow> (string \<times> nat) list" where
  "worker_dense d =
    [(''block_deltas'', length (wd_block_deltas d)),
     (''hashes'', length (wd_hashes d)),
     (''sizes'', length (wd_sizes d)),
     (''write_schema_ids'', length (wd_write_schema_ids d)),
     (''worker_offsets'', length (wd_worker_offsets d) - 1)] @
    (case wd_versions d of None \<Rightarrow> [] | Some c \<Rightarrow> [(''versions'', length c)]) @
    (case wd_tables_present_offsets d of
       None \<Rightarrow> []
     | Some c \<Rightarrow> [(''tables_present_offsets'', length c - 1)])"

definition first_run :: "top_run list \<Rightarrow> u32 option" where
  "first_run tops = (if tops \<noteq> [] then Some (tr_first_chunk_index (tops ! 0)) else None)"

definition worker_check_dataset :: "worker_dataset \<Rightarrow> (invalid_assignment, unit) result" where
  "worker_check_dataset d =
    check_columns (wd_id d) (length (wd_first_blocks d)) (worker_dense d)
      [(''tops'', first_run (wd_tops d))]"

fun check_datasets ::
  "('d \<Rightarrow> (invalid_assignment, unit) result) \<Rightarrow> 'd list \<Rightarrow> (invalid_assignment, unit) result" where
  "check_datasets check [] = Ok ()"
| "check_datasets check (d # ds) =
    (case check d of Err e \<Rightarrow> Err e | Ok _ \<Rightarrow> check_datasets check ds)"

text \<open>\<open>verify\<close> stands for the flatbuffers verifier, which gives the root table or rejects the buffer.\<close>

definition worker_from_owned ::
  "('buf \<Rightarrow> (string, worker_assignment) result) \<Rightarrow> 'buf \<Rightarrow> (invalid_assignment, worker_assignment) result"
where
  "worker_from_owned verify buf =
    (case verify buf of
       Err e \<Rightarrow> Err (Flatbuffer e)
     | Ok assignment \<Rightarrow>
         (case check_datasets worker_check_dataset (wa_datasets assignment) of
            Err e \<Rightarrow> Err e
          | Ok _ \<Rightarrow> Ok assignment))"

section \<open>One row\<close>

record worker_chunk =
  wk_dataset :: worker_dataset
  wk_index :: u32

definition worker_chunk_count :: "worker_dataset \<Rightarrow> nat" where
  "worker_chunk_count d = length (wd_first_blocks d)"

definition worker_chunk_at :: "worker_dataset \<Rightarrow> u32 \<Rightarrow> worker_chunk option" where
  "worker_chunk_at d index =
    (if unat index < worker_chunk_count d then Some \<lparr>wk_dataset = d, wk_index = index\<rparr> else None)"

definition worker_chunks :: "worker_dataset \<Rightarrow> worker_chunk list" where
  "worker_chunks d =
    map (\<lambda>index. \<lparr>wk_dataset = d, wk_index = of_nat index\<rparr>)
      [0 ..< unat (of_nat (worker_chunk_count d) :: u32)]"

definition wk_first_block :: "worker_chunk \<Rightarrow> u64 outcome" where
  "wk_first_block k = vec_get (wd_first_blocks (wk_dataset k)) (unat (wk_index k))"

definition wk_last_block :: "worker_chunk \<Rightarrow> u64 outcome" where
  "wk_last_block k =
    outcome_bind (wk_first_block k) (\<lambda>first_block.
    outcome_map (\<lambda>delta. first_block + ucast delta)
      (vec_get (wd_block_deltas (wk_dataset k)) (unat (wk_index k))))"

definition wk_size :: "worker_chunk \<Rightarrow> u32 outcome" where
  "wk_size k = vec_get (wd_sizes (wk_dataset k)) (unat (wk_index k))"

definition wk_version :: "worker_chunk \<Rightarrow> u32 outcome" where
  "wk_version k =
    (case wd_versions (wk_dataset k) of
       None \<Rightarrow> Return 0
     | Some column \<Rightarrow> vec_get column (unat (wk_index k)))"

definition wk_write_schema_id :: "worker_chunk \<Rightarrow> u32 outcome" where
  "wk_write_schema_id k = vec_get (wd_write_schema_ids (wk_dataset k)) (unat (wk_index k))"

definition wk_top :: "worker_chunk \<Rightarrow> u64 outcome" where
  "wk_top k = expect ''the first top run covers chunk 0 onwards''
    (top_at (wd_tops (wk_dataset k)) (wk_index k))"

definition wk_hash :: "worker_chunk \<Rightarrow> string option outcome" where
  "wk_hash k = outcome_map hash_str (vec_get (wd_hashes (wk_dataset k)) (unat (wk_index k)))"

definition wk_id :: "worker_chunk \<Rightarrow> string option outcome" where
  "wk_id k =
    outcome_bind (wk_top k) (\<lambda>tp.
    outcome_bind (wk_first_block k) (\<lambda>first_block.
    outcome_bind (wk_last_block k) (\<lambda>last_block.
    outcome_bind (wk_hash k) (\<lambda>hash.
    case hash of
      None \<Rightarrow> Return None
    | Some h \<Rightarrow> outcome_map Some (push_chunk_id [] tp first_block last_block h)))))"

text \<open>\<^verbatim>\<open>bytes.get(start..end)\<close>: \<^const>\<open>None\<close> when the range is reversed or ends past the slice.\<close>

definition get_range :: "'a list \<Rightarrow> nat \<Rightarrow> nat \<Rightarrow> 'a list option" where
  "get_range xs start end' =
    (if start \<le> end' \<and> end' \<le> length xs then Some (take (end' - start) (drop start xs)) else None)"

definition wk_tables_present :: "worker_chunk \<Rightarrow> u8 list option outcome" where
  "wk_tables_present k =
    (case wd_tables_present_offsets (wk_dataset k) of
       None \<Rightarrow> Return None
     | Some offsets \<Rightarrow>
         outcome_bind (vec_get offsets (unat (wk_index k))) (\<lambda>start.
         outcome_bind (vec_get offsets (unat (wk_index k) + 1)) (\<lambda>end'.
         Return
           (case wd_tables_present (wk_dataset k) of
              None \<Rightarrow> None
            | Some bytes \<Rightarrow>
                (case get_range bytes (unat start) (unat end') of
                   None \<Rightarrow> None
                 | Some bits \<Rightarrow> if bits \<noteq> [] then Some bits else None)))))"

definition push_separator :: "string \<Rightarrow> string" where
  "push_separator url = (if \<not> ends_with url CHR ''/'' then url @ ''/'' else url)"

definition wk_url :: "key_lookup \<Rightarrow> worker_chunk \<Rightarrow> string option outcome" where
  "wk_url lk k =
    outcome_bind (wk_hash k) (\<lambda>hash.
    case hash of
      None \<Rightarrow> Return None
    | Some h \<Rightarrow>
        outcome_bind (wk_version k) (\<lambda>version.
        case (if version \<noteq> 0 then
                map_option (\<lambda>g. push_segment (wd_base_url (wk_dataset k)) (ge_base_url g))
                  (get_generation lk (wk_dataset k) version)
              else Some (wd_base_url (wk_dataset k))) of
          None \<Rightarrow> Return None
        | Some url \<Rightarrow>
            outcome_bind (wk_top k) (\<lambda>tp.
            outcome_bind (wk_first_block k) (\<lambda>first_block.
            outcome_bind (wk_last_block k) (\<lambda>last_block.
            outcome_map Some (push_chunk_id (push_separator url) tp first_block last_block h))))))"

definition wk_worker_indexes :: "worker_chunk \<Rightarrow> u16 list outcome" where
  "wk_worker_indexes k =
    csr_slice (wd_worker_offsets (wk_dataset k)) (wd_worker_indexes (wk_dataset k)) (unat (wk_index k))"

section \<open>Lookups\<close>

record chunk_ref =
  cr_dataset_index :: u32
  cr_chunk_index :: u32

definition worker_get_dataset_by_ref :: "worker_assignment \<Rightarrow> chunk_ref \<Rightarrow> worker_dataset option" where
  "worker_get_dataset_by_ref a r =
    (if unat (cr_dataset_index r) < length (wa_datasets a)
     then Some (wa_datasets a ! unat (cr_dataset_index r)) else None)"

definition worker_get_chunk :: "worker_assignment \<Rightarrow> chunk_ref \<Rightarrow> worker_chunk option" where
  "worker_get_chunk a r =
    (case worker_get_dataset_by_ref a r of
       None \<Rightarrow> None
     | Some d \<Rightarrow> worker_chunk_at d (cr_chunk_index r))"

definition worker_get_dataset :: "key_lookup \<Rightarrow> worker_assignment \<Rightarrow> string \<Rightarrow> worker_dataset option" where
  "worker_get_dataset lk a dataset = lookup_by_key lk wd_id (wa_datasets a) dataset"

definition worker_chunk_url :: "key_lookup \<Rightarrow> worker_assignment \<Rightarrow> chunk_ref \<Rightarrow> string option outcome" where
  "worker_chunk_url lk a r =
    (case worker_get_chunk a r of None \<Rightarrow> Return None | Some k \<Rightarrow> wk_url lk k)"

definition get_write_schema :: "key_lookup \<Rightarrow> worker_assignment \<Rightarrow> u32 \<Rightarrow> table_roster option" where
  "get_write_schema lk a write_schema_id =
    lookup_by_key lk ro_write_schema_id (wa_schemas a) write_schema_id"

definition chunk_tables :: "key_lookup \<Rightarrow> worker_assignment \<Rightarrow> worker_chunk \<Rightarrow> string list option outcome" where
  "chunk_tables lk a k =
    outcome_bind (wk_write_schema_id k) (\<lambda>write_schema_id.
    case get_write_schema lk a write_schema_id of
      None \<Rightarrow> Return None
    | Some roster \<Rightarrow>
        outcome_map (\<lambda>bits. Some (select_tables (ro_tables roster) bits)) (wk_tables_present k))"

record assigned_worker =
  aw_assignment :: worker_assignment
  aw_reader :: worker_entry
  aw_index :: u16

definition worker_get_worker_by_index :: "worker_assignment \<Rightarrow> u16 \<Rightarrow> assigned_worker outcome" where
  "worker_get_worker_by_index a index =
    outcome_map (\<lambda>w. \<lparr>aw_assignment = a, aw_reader = w, aw_index = index\<rparr>)
      (vec_get (wa_workers a) (unat index))"

text \<open>The comparator parses the entry's peer id, and panics when it does not parse.\<close>

definition compare_worker :: "(u8 list \<Rightarrow> 'p::linorder option) \<Rightarrow> worker_entry list \<Rightarrow> 'p \<Rightarrow> nat \<Rightarrow> ordering outcome" where
  "compare_worker from_bytes workers id' i =
    outcome_bind (vec_get workers i) (\<lambda>x.
    outcome_map (\<lambda>parsed. cmp parsed id')
      (expect ''parse peer id'' (worker_id_try_into from_bytes (we_worker_id x))))"

definition worker_get_worker ::
  "(u8 list \<Rightarrow> 'p::linorder option) \<Rightarrow> worker_assignment \<Rightarrow> 'p \<Rightarrow> assigned_worker option outcome" where
  "worker_get_worker from_bytes a id' =
    outcome_bind (lookup_index_by_key (length (wa_workers a)) (compare_worker from_bytes (wa_workers a) id'))
      (\<lambda>r. case r of
         None \<Rightarrow> Return None
       | Some i \<Rightarrow>
           outcome_map (\<lambda>w. Some \<lparr>aw_assignment = a, aw_reader = w, aw_index = of_nat i\<rparr>)
             (vec_get (wa_workers a) i))"

section \<open>One worker's holdings\<close>

definition holdings :: "assigned_worker \<Rightarrow> worker_dataset \<Rightarrow> worker_chunk list outcome" where
  "holdings w d =
    (let offsets = wd_worker_offsets d; indexes = wd_worker_indexes d in
     outcome_map (map (\<lambda>chunk. \<lparr>wk_dataset = d, wk_index = of_nat chunk\<rparr>))
       (outcome_filter
         (\<lambda>chunk.
           outcome_bind (vec_get offsets chunk) (\<lambda>start.
           outcome_map
             (\<lambda>end'. \<exists>slot \<in> set [unat start ..< min (unat end') (length indexes)].
                indexes ! slot = aw_index w)
             (vec_get offsets (chunk + 1))))
         [0 ..< worker_chunk_count d]))"

definition iter_chunks_with_dataset :: "assigned_worker \<Rightarrow> (worker_dataset \<times> worker_chunk) list outcome" where
  "iter_chunks_with_dataset w =
    outcome_concat_map (\<lambda>d. outcome_map (map (\<lambda>k. (d, k))) (holdings w d)) (wa_datasets (aw_assignment w))"

definition iter_chunks :: "assigned_worker \<Rightarrow> worker_chunk list outcome" where
  "iter_chunks w = outcome_map (map snd) (iter_chunks_with_dataset w)"

definition iter_chunks_with_ref :: "assigned_worker \<Rightarrow> (chunk_ref \<times> worker_chunk) list outcome" where
  "iter_chunks_with_ref w =
    outcome_concat_map
      (\<lambda>(i, d). outcome_map
        (map (\<lambda>k. (\<lparr>cr_dataset_index = of_nat i, cr_chunk_index = wk_index k\<rparr>, k))) (holdings w d))
      (enumerate 0 (wa_datasets (aw_assignment w)))"

definition aw_peer_id :: "(u8 list \<Rightarrow> 'p option) \<Rightarrow> assigned_worker \<Rightarrow> 'p option" where
  "aw_peer_id from_bytes w = worker_id_try_into from_bytes (we_worker_id (aw_reader w))"

definition aw_status :: "assigned_worker \<Rightarrow> worker_status" where
  "aw_status w = status_from_fb (we_status (aw_reader w))"

definition aw_decrypt_headers ::
  "('p, 'sk, 'rng) crypto \<Rightarrow> assigned_worker \<Rightarrow> 'sk option \<Rightarrow>
    (string, (string, string) btree) result outcome" where
  "aw_decrypt_headers cr w key = decrypt_headers cr (we_encrypted_headers (aw_reader w)) key"

end
