(* ===== verification/Worker_Lookup.thy ===== *)
theory Worker_Lookup
  imports Registry Worker_Reader
begin

text \<open>
  Finding a worker in the entries of a finished assignment, shared by the combined and the
  worker-facing format: entries written in ascending order of peer id are found by bisection.
\<close>

lemma find_worker:
  fixes peer :: "'w \<Rightarrow> 'p::linorder"
  assumes entries: "map (\<lambda>e. (we_worker_id e, we_status e)) es =
      map (\<lambda>w. (to_bytes (peer w), status_to_fb (st w))) ws"
    and sorted: "sorted_wrt (<) (map peer ws)"
    and codec: "\<forall>w \<in> set ws. codec_ok to_bytes from_bytes (peer w)"
  shows "length es = length ws"
    and "i < length ws \<Longrightarrow> worker_id_try_into from_bytes (we_worker_id (es ! i)) = Some (peer (ws ! i))"
    and "i < length ws \<Longrightarrow> status_from_fb (we_status (es ! i)) = st (ws ! i)"
    and "i < length ws \<Longrightarrow>
      lookup_index_by_key (length es) (compare_worker from_bytes es (peer (ws ! i))) = Return (Some i)"
    and "p \<notin> peer ` set ws \<Longrightarrow>
      lookup_index_by_key (length es) (compare_worker from_bytes es p) = Return None"
proof -
  show n: "length es = length ws"
    using arg_cong [OF entries, of length] by simp
  have entry: "we_worker_id (es ! j) = to_bytes (peer (ws ! j))" "we_status (es ! j) = status_to_fb (st (ws ! j))"
    if "j < length ws" for j
    using arg_cong [OF entries, of "\<lambda>xs. xs ! j"] n that by simp_all
  have parse: "worker_id_try_into from_bytes (we_worker_id (es ! j)) = Some (peer (ws ! j))"
    if "j < length ws" for j
    using entry [OF that] codec nth_mem [OF that] by (simp add: worker_id_try_into_def codec_ok_def)
  show "i < length ws \<Longrightarrow> worker_id_try_into from_bytes (we_worker_id (es ! i)) = Some (peer (ws ! i))"
    by (rule parse)
  show "i < length ws \<Longrightarrow> status_from_fb (we_status (es ! i)) = st (ws ! i)"
    by (simp add: entry)
  have comp: "compare_worker from_bytes es q j = Return (cmp (map peer ws ! j) q)"
    if "j < length (map peer ws)" for j q
    using that by (simp add: compare_worker_def n parse)
  note found = find_registered [OF _ sorted comp, of es]
  show "i < length ws \<Longrightarrow>
      lookup_index_by_key (length es) (compare_worker from_bytes es (peer (ws ! i))) = Return (Some i)"
    using found(1) [of i] n by simp
  show "p \<notin> peer ` set ws \<Longrightarrow>
      lookup_index_by_key (length es) (compare_worker from_bytes es p) = Return None"
    using found(2) [of p] n by simp
qed

end
