(* ===== verification/Staging.thy ===== *)
theory Staging
  imports Columns
begin

text \<open>
  Staging a sequence of chunks. \<open>stage_all\<close> runs a builder's per-chunk protocol over a list of chunk
  descriptions and keeps the builder only if every chunk was accepted. The locale \<open>chunk_stager\<close> is
  the contract of one such protocol: what the builder holds is a list of descriptions, and an accepted
  chunk appends its own.
\<close>

fun stage_all ::
  "('x \<Rightarrow> 'b \<Rightarrow> ('b \<times> (string, unit) result) outcome) \<Rightarrow> 'x list \<Rightarrow> 'b \<Rightarrow> 'b option" where
  "stage_all stage [] b = Some b"
| "stage_all stage (x # xs) b =
    (case stage x b of
       Return (b', Ok _) \<Rightarrow> stage_all stage xs b'
     | _ \<Rightarrow> None)"

locale chunk_stager =
  fixes holds :: "'b \<Rightarrow> 'x list \<Rightarrow> bool"
    and valid :: "'x \<Rightarrow> bool"
    and stage :: "'x \<Rightarrow> 'b \<Rightarrow> ('b \<times> (string, unit) result) outcome"
  assumes stage_ok: "holds b xs \<Longrightarrow> valid x \<Longrightarrow> stage x b = Return (b', Ok ()) \<Longrightarrow> holds b' (xs @ [x])"
begin

lemma holds_stage_all:
  "holds b xs \<Longrightarrow> \<forall>y \<in> set ys. valid y \<Longrightarrow> stage_all stage ys b = Some b' \<Longrightarrow> holds b' (xs @ ys)"
proof (induction ys arbitrary: b xs)
  case (Cons y ys)
  from Cons.prems(3) obtain b1 where step: "stage y b = Return (b1, Ok ())"
    and rest: "stage_all stage ys b1 = Some b'"
    by (auto split: outcome.splits prod.splits result.splits)
  have "holds b1 (xs @ [y])"
    using stage_ok [OF Cons.prems(1) _ step] Cons.prems(2) by simp
  from Cons.IH [OF this _ rest] Cons.prems(2) show ?case
    by simp
qed simp

end

end
