(* ===== verification/Worker_Rows.thy ===== *)
theory Worker_Rows
  imports Table_Bitmap Staging
begin

text \<open>
  The staged columns of the worker builder as a list of chunk descriptions (\<open>worker_spec\<close>). The
  relation \<open>worker_holds\<close> says that the builder's columns, bitmap and last block are those of the list;
  staging an accepted chunk appends its description, which interprets the \<open>chunk_stager\<close> contract.
\<close>

record worker_spec =
  ws_id :: data_chunk
  ws_size :: u32
  ws_version :: u32
  ws_schema :: u32
  ws_tables :: "string list option"
  ws_workers :: "u16 list"

text \<open>The calls a client makes for one chunk, in the order the setters allow.\<close>

definition worker_stage ::
  "worker_spec \<Rightarrow> ('p, 'sk, 'rng) worker_builder \<Rightarrow>
    (('p, 'sk, 'rng) worker_builder \<times> (string, unit) result) outcome"
where
  "worker_stage s b =
    (let (b, cb) = worker_new_chunk b;
         cb = worker_chunk_id (ws_id s) cb;
         cb = worker_chunk_block_range (dc_first_block (ws_id s), dc_last_block (ws_id s)) cb;
         cb = worker_chunk_size (ws_size s) cb;
         cb = worker_chunk_version (ws_version s) cb;
         cb = worker_chunk_write_schema_id (ws_schema s) cb;
         b = worker_chunk_worker_indexes (ws_workers s) b
     in case ws_tables s of
          None \<Rightarrow> worker_chunk_finish b cb
        | Some tables \<Rightarrow>
            (case tables_present tables b cb of
               (b, Err e) \<Rightarrow> Return (b, Err e)
             | (b, Ok cb) \<Rightarrow> worker_chunk_finish b cb))"

definition zero_bits :: "string list \<Rightarrow> u8 list" where
  "zero_bits roster = replicate ((length roster + 7) div 8) 0"

definition spec_bits :: "(u32, string list) btree \<Rightarrow> worker_spec \<Rightarrow> u8 list" where
  "spec_bits schemas s =
    (case (ws_tables s, map_of schemas (ws_schema s)) of
       (Some tables, Some roster) \<Rightarrow> fst (merge_tables (ws_schema s) roster tables 0 (zero_bits roster))
     | _ \<Rightarrow> [])"

definition spec_delta :: "worker_spec \<Rightarrow> u32" where
  "spec_delta s = ucast (dc_last_block (ws_id s) - dc_first_block (ws_id s))"

text \<open>What an accepted chunk satisfied when it was staged.\<close>

definition spec_ok ::
  "(u32, string list) btree \<Rightarrow> (u32, string) btree \<Rightarrow> worker_spec \<Rightarrow> bool" where
  "spec_ok schemas gens s =
    (dc_wf (ws_id s) \<and>
     unat (dc_last_block (ws_id s) - dc_first_block (ws_id s)) \<le> U32_MAX \<and>
     (ws_version s = 0 \<or> map_of gens (ws_version s) \<noteq> None) \<and>
     (\<exists>roster. map_of schemas (ws_schema s) = Some roster \<and>
        (\<forall>tables. ws_tables s = Some tables \<longrightarrow>
           snd (merge_tables (ws_schema s) roster tables 0 (zero_bits roster)) = Ok ())))"

definition wc_rel :: "(u32, string list) btree \<Rightarrow> worker_columns \<Rightarrow> worker_spec list \<Rightarrow> bool" where
  "wc_rel schemas c specs =
    (wc_first_blocks c = map (\<lambda>s. dc_first_block (ws_id s)) specs \<and>
     wc_block_deltas c = map spec_delta specs \<and>
     wc_hashes c = map (\<lambda>s. dc_last_hash (ws_id s)) specs \<and>
     wc_sizes c = map ws_size specs \<and>
     wc_write_schema_ids c = map ws_schema specs \<and>
     wc_versions c = map ws_version specs \<and>
     runs_rel (wc_tops c) (map (\<lambda>s. dc_top (ws_id s)) specs) \<and>
     csr_rel (wc_tables_present_ends c) (wc_tables_present c) (map (spec_bits schemas) specs) \<and>
     wc_any_tables_trimmed c = (\<exists>s \<in> set specs. spec_bits schemas s \<noteq> []) \<and>
     csr_rel (wc_worker_ends c) (wc_worker_indexes c) (map ws_workers specs) \<and>
     length (wc_worker_indexes c) \<le> U32_MAX \<and>
     length specs \<le> U32_MAX + 1)"

definition worker_holds :: "('p, 'sk, 'rng) worker_builder \<Rightarrow> worker_spec list \<Rightarrow> bool" where
  "worker_holds b specs =
    (wc_rel (wb_write_schemas b) (wb_columns b) specs \<and>
     (\<forall>s \<in> set specs. spec_ok (wb_write_schemas b) (wb_current_generations b) s) \<and>
     wb_last_block b = (if specs = [] then None else Some (dc_last_block (ws_id (last specs)))))"

lemma wc_rel_default [simp]: "wc_rel schemas worker_columns_default []"
  by (simp add: wc_rel_def worker_columns_default_def)

section \<open>One chunk\<close>

text \<open>The columns after appending one description.\<close>

definition wc_snoc :: "(u32, string list) btree \<Rightarrow> worker_spec \<Rightarrow> worker_columns \<Rightarrow> worker_columns" where
  "wc_snoc schemas s c =
    \<lparr>wc_first_blocks = wc_first_blocks c @ [dc_first_block (ws_id s)],
     wc_block_deltas = wc_block_deltas c @ [spec_delta s],
     wc_hashes = wc_hashes c @ [dc_last_hash (ws_id s)],
     wc_tops = push_top (of_nat (length (wc_first_blocks c))) (dc_top (ws_id s)) (wc_tops c),
     wc_sizes = wc_sizes c @ [ws_size s],
     wc_write_schema_ids = wc_write_schema_ids c @ [ws_schema s],
     wc_versions = wc_versions c @ [ws_version s],
     wc_tables_present = wc_tables_present c @ spec_bits schemas s,
     wc_tables_present_ends = wc_tables_present_ends c @
       [of_nat (length (wc_tables_present c @ spec_bits schemas s))],
     wc_any_tables_trimmed = (wc_any_tables_trimmed c \<or> spec_bits schemas s \<noteq> []),
     wc_worker_ends = wc_worker_ends c @ [of_nat (length (wc_worker_indexes c @ ws_workers s))],
     wc_worker_indexes = wc_worker_indexes c @ ws_workers s\<rparr>"

lemma wc_rel_snoc:
  assumes "wc_rel schemas c specs" "length specs \<le> U32_MAX"
    and "length (wc_worker_indexes c @ ws_workers s) \<le> U32_MAX"
  shows "wc_rel schemas (wc_snoc schemas s c) (specs @ [s])"
proof -
  have "runs_rel (push_top (of_nat (length specs)) (dc_top (ws_id s)) (wc_tops c))
      (map (\<lambda>s. dc_top (ws_id s)) specs @ [dc_top (ws_id s)])"
    using assms(1,2) runs_rel_push_top [of "wc_tops c" "map (\<lambda>s. dc_top (ws_id s)) specs"]
    by (simp add: wc_rel_def)
  moreover have "csr_rel (wc_tables_present_ends c @ [of_nat (length (wc_tables_present c @ spec_bits schemas s))])
      (wc_tables_present c @ spec_bits schemas s) (map (spec_bits schemas) specs @ [spec_bits schemas s])"
    "csr_rel (wc_worker_ends c @ [of_nat (length (wc_worker_indexes c @ ws_workers s))])
      (wc_worker_indexes c @ ws_workers s) (map ws_workers specs @ [ws_workers s])"
    using assms(1) by (intro csr_rel_push, simp add: wc_rel_def)+
  ultimately show ?thesis
    using assms by (auto simp: wc_rel_def wc_snoc_def)
qed

text \<open>The builder after staging: only the columns, the staged buffers and the last block changed.\<close>

lemma push_chunk_Ok:
  assumes "push_chunk p b = (b', Ok ())" "wb_staged_tables_present b = spec_bits schemas s"
    and "wb_staged_worker_indexes b = ws_workers s"
    and "p = \<lparr>pc_top = dc_top (ws_id s), pc_block_range = (dc_first_block (ws_id s), dc_last_block (ws_id s)),
      pc_hash = dc_last_hash (ws_id s), pc_size = ws_size s, pc_write_schema_id = ws_schema s,
      pc_version = ws_version s\<rparr>"
  shows "b' = b\<lparr>wb_columns := wc_snoc schemas s (wb_columns b),
      wb_last_block := Some (dc_last_block (ws_id s))\<rparr> \<and>
    length (wc_first_blocks (wb_columns b)) \<le> U32_MAX \<and>
    unat (dc_last_block (ws_id s) - dc_first_block (ws_id s)) \<le> U32_MAX \<and>
    length (wc_worker_indexes (wb_columns b) @ ws_workers s) \<le> U32_MAX"
  using assms
  by (auto simp: push_chunk_def Let_def push_bitmap_def wc_snoc_def spec_delta_def
      split: if_splits)

lemma tables_present_Ok:
  assumes "tables_present tables b cb = (b', Ok cb')" "cb_write_schema_id cb = Some w"
  obtains roster where "map_of (wb_write_schemas b) w = Some roster"
    and "merge_tables w roster tables 0 (zero_bits roster) = (wb_staged_tables_present b', Ok ())"
    and "b' = b\<lparr>wb_staged_tables_present := wb_staged_tables_present b'\<rparr>"
    and "cb' = cb\<lparr>cb_tables_present := Some w\<rparr>"
  using assms
  by (auto simp: tables_present_def zero_bits_def split: option.splits prod.splits result.splits)

lemma worker_chunk_finish_Ok:
  assumes "worker_chunk_finish b cb = Return (b', Ok ())"
    and "cb_id cb = Some c" "dc_wf c" "cb_write_schema_id cb = Some w"
  obtains block_range size where "cb_block_range cb = Some block_range" "cb_size cb = Some size"
    and "map_of (wb_write_schemas b) w \<noteq> None"
    and "cb_version cb = 0 \<or> map_of (wb_current_generations b) (cb_version cb) \<noteq> None"
    and "push_chunk \<lparr>pc_top = dc_top c, pc_block_range = block_range, pc_hash = dc_last_hash c,
      pc_size = size, pc_write_schema_id = w, pc_version = cb_version cb\<rparr> b = (b', Ok ())"
  using assms by (auto simp: worker_chunk_finish_def chunk_hash_wf split: if_splits)

text \<open>The builder a chunk is pushed into, when its table list was accepted.\<close>

lemma worker_stage_tables:
  assumes "worker_stage s b = Return (b', Ok ())"
  shows "\<exists>b1 cb. b1 = b\<lparr>wb_staged_worker_indexes := ws_workers s,
      wb_staged_tables_present := spec_bits (wb_write_schemas b) s\<rparr> \<and>
    worker_chunk_finish b1 cb = Return (b', Ok ()) \<and>
    cb_id cb = Some (ws_id s) \<and> cb_write_schema_id cb = Some (ws_schema s) \<and>
    cb_block_range cb = Some (dc_first_block (ws_id s), dc_last_block (ws_id s)) \<and>
    cb_size cb = Some (ws_size s) \<and> cb_version cb = ws_version s \<and>
    (\<forall>roster tables. map_of (wb_write_schemas b) (ws_schema s) = Some roster \<longrightarrow>
       ws_tables s = Some tables \<longrightarrow>
       snd (merge_tables (ws_schema s) roster tables 0 (zero_bits roster)) = Ok ())"
proof -
  define b0 :: "('a, 'b, 'c) worker_builder" where
    "b0 = b\<lparr>wb_staged_worker_indexes := ws_workers s, wb_staged_tables_present := []\<rparr>"
  define cb where "cb = \<lparr>cb_block_range = Some (dc_first_block (ws_id s), dc_last_block (ws_id s)),
    cb_id = Some (ws_id s), cb_size = Some (ws_size s), cb_version = ws_version s,
    cb_write_schema_id = Some (ws_schema s), cb_tables_present = None\<rparr>"
  have b0: "b\<lparr>wb_staged_tables_present := [], wb_staged_worker_indexes := ws_workers s\<rparr> = b0"
    by (simp add: b0_def)
  have stage: "(case ws_tables s of None \<Rightarrow> worker_chunk_finish b0 cb
      | Some tables \<Rightarrow> (case tables_present tables b0 cb of (b, Err e) \<Rightarrow> Return (b, Err e)
          | (b, Ok cb) \<Rightarrow> worker_chunk_finish b cb)) = Return (b', Ok ())"
    using assms
    by (cases "ws_tables s")
      (simp_all add: worker_stage_def worker_new_chunk_def worker_chunk_id_def worker_chunk_size_def
        worker_chunk_block_range_def worker_chunk_version_def worker_chunk_write_schema_id_def
        worker_chunk_worker_indexes_def b0 cb_def [symmetric])
  show ?thesis
  proof (cases "ws_tables s")
    case None
    with stage show ?thesis
      by (intro exI [of _ b0] exI [of _ cb]) (simp add: b0_def cb_def spec_bits_def)
  next
    case (Some tables)
    with stage obtain b1 cb1 where tp: "tables_present tables b0 cb = (b1, Ok cb1)"
      and fin: "worker_chunk_finish b1 cb1 = Return (b', Ok ())"
      by (auto split: prod.splits result.splits)
    have w: "cb_write_schema_id cb = Some (ws_schema s)"
      by (simp add: cb_def)
    from tables_present_Ok [OF tp w] obtain roster where
      roster: "map_of (wb_write_schemas b) (ws_schema s) = Some roster"
      and merge: "merge_tables (ws_schema s) roster tables 0 (zero_bits roster) =
        (wb_staged_tables_present b1, Ok ())"
      and eqs: "b1 = b0\<lparr>wb_staged_tables_present := wb_staged_tables_present b1\<rparr>"
        "cb1 = cb\<lparr>cb_tables_present := Some (ws_schema s)\<rparr>"
      by (auto simp: b0_def)
    have "b1 = b\<lparr>wb_staged_worker_indexes := ws_workers s,
        wb_staged_tables_present := spec_bits (wb_write_schemas b) s\<rparr>"
      by (subst eqs(1)) (simp add: b0_def spec_bits_def Some roster merge)
    then show ?thesis
      using fin roster merge eqs(2) Some by (intro exI [of _ b1] exI [of _ cb1]) (auto simp: cb_def)
  qed
qed

lemma worker_stage_Ok:
  assumes "worker_stage s b = Return (b', Ok ())" "dc_wf (ws_id s)"
  shows "b' = b\<lparr>wb_staged_worker_indexes := ws_workers s,
      wb_staged_tables_present := spec_bits (wb_write_schemas b) s,
      wb_columns := wc_snoc (wb_write_schemas b) s (wb_columns b),
      wb_last_block := Some (dc_last_block (ws_id s))\<rparr>"
    and "spec_ok (wb_write_schemas b) (wb_current_generations b) s"
    and "length (wc_first_blocks (wb_columns b)) \<le> U32_MAX"
    and "length (wc_worker_indexes (wb_columns b) @ ws_workers s) \<le> U32_MAX"
proof -
  let ?b1 = "b\<lparr>wb_staged_worker_indexes := ws_workers s,
      wb_staged_tables_present := spec_bits (wb_write_schemas b) s\<rparr>"
  obtain cb where fin: "worker_chunk_finish ?b1 cb = Return (b', Ok ())"
    and cb: "cb_id cb = Some (ws_id s)" "cb_write_schema_id cb = Some (ws_schema s)"
      "cb_block_range cb = Some (dc_first_block (ws_id s), dc_last_block (ws_id s))"
      "cb_size cb = Some (ws_size s)" "cb_version cb = ws_version s"
    and merge: "\<forall>roster tables. map_of (wb_write_schemas b) (ws_schema s) = Some roster \<longrightarrow>
       ws_tables s = Some tables \<longrightarrow>
       snd (merge_tables (ws_schema s) roster tables 0 (zero_bits roster)) = Ok ()"
    using worker_stage_tables [OF assms(1)] by auto
  from worker_chunk_finish_Ok [OF fin cb(1) assms(2) cb(2)] cb
  have reg: "map_of (wb_write_schemas b) (ws_schema s) \<noteq> None"
    "ws_version s = 0 \<or> map_of (wb_current_generations b) (ws_version s) \<noteq> None"
    and push: "push_chunk \<lparr>pc_top = dc_top (ws_id s),
      pc_block_range = (dc_first_block (ws_id s), dc_last_block (ws_id s)),
      pc_hash = dc_last_hash (ws_id s), pc_size = ws_size s, pc_write_schema_id = ws_schema s,
      pc_version = ws_version s\<rparr> ?b1 = (b', Ok ())"
    by auto
  note ok = push_chunk_Ok [OF push, of "wb_write_schemas b" s, simplified]
  from ok show "b' = b\<lparr>wb_staged_worker_indexes := ws_workers s,
      wb_staged_tables_present := spec_bits (wb_write_schemas b) s,
      wb_columns := wc_snoc (wb_write_schemas b) s (wb_columns b),
      wb_last_block := Some (dc_last_block (ws_id s))\<rparr>"
    by simp
  from ok show "length (wc_first_blocks (wb_columns b)) \<le> U32_MAX"
    "length (wc_worker_indexes (wb_columns b) @ ws_workers s) \<le> U32_MAX"
    by simp_all
  from ok reg merge assms(2) show "spec_ok (wb_write_schemas b) (wb_current_generations b) s"
    by (auto simp: spec_ok_def)
qed

lemma worker_holds_stage:
  assumes "worker_holds b specs" "dc_wf (ws_id s)" "worker_stage s b = Return (b', Ok ())"
  shows "worker_holds b' (specs @ [s])"
proof -
  have rel: "wc_rel (wb_write_schemas b) (wb_columns b) specs"
    using assms(1) by (simp add: worker_holds_def)
  then have "length specs \<le> U32_MAX"
    using worker_stage_Ok(3) [OF assms(3,2)] by (simp add: wc_rel_def)
  with rel have "wc_rel (wb_write_schemas b) (wc_snoc (wb_write_schemas b) s (wb_columns b)) (specs @ [s])"
    using worker_stage_Ok(4) [OF assms(3,2)] by (intro wc_rel_snoc)
  then show ?thesis
    using assms(1) worker_stage_Ok(2) [OF assms(3,2)]
    by (simp add: worker_stage_Ok(1) [OF assms(3,2)] worker_holds_def)
qed

interpretation worker_stager: chunk_stager worker_holds "\<lambda>s. dc_wf (ws_id s)" worker_stage
  by unfold_locales (rule worker_holds_stage)

end
