(* ===== verification/Worker_Roundtrip.thy ===== *)
theory Worker_Roundtrip
  imports Worker_Rows Worker_Reader
begin

text \<open>
  What the worker reader gives back for a dataset the worker builder emitted. The relation
  \<open>emitted\<close> describes the table written for a list of chunk descriptions; every accessor of the row
  cursor returns the description's own data.
\<close>

section \<open>The emitted table\<close>

definition emitted ::
  "(u32, string list) btree \<Rightarrow> (u32, string) btree \<Rightarrow> worker_dataset \<Rightarrow> worker_spec list \<Rightarrow> bool" where
  "emitted schemas gens d specs =
    (specs \<noteq> [] \<and> length specs \<le> U32_MAX + 1 \<and> (\<forall>s \<in> set specs. spec_ok schemas gens s) \<and>
     wd_last_block d = dc_last_block (ws_id (last specs)) \<and>
     wd_generations d = (if gens = [] then None
       else Some (map (\<lambda>(v, u). \<lparr>ge_version = v, ge_base_url = u\<rparr>) gens)) \<and>
     wd_first_blocks d = map (\<lambda>s. dc_first_block (ws_id s)) specs \<and>
     wd_block_deltas d = map spec_delta specs \<and>
     wd_hashes d = map (\<lambda>s. dc_last_hash (ws_id s)) specs \<and>
     runs_rel (wd_tops d) (map (\<lambda>s. dc_top (ws_id s)) specs) \<and>
     wd_sizes d = map ws_size specs \<and>
     wd_write_schema_ids d = map ws_schema specs \<and>
     (if \<exists>s \<in> set specs. spec_bits schemas s \<noteq> [] then
        \<exists>ends vals. wd_tables_present_offsets d = Some (0 # ends) \<and> wd_tables_present d = Some vals \<and>
          csr_rel ends vals (map (spec_bits schemas) specs)
      else wd_tables_present_offsets d = None) \<and>
     wd_versions d = (if \<exists>s \<in> set specs. ws_version s \<noteq> 0 then Some (map ws_version specs) else None) \<and>
     (\<exists>ends. wd_worker_offsets d = 0 # ends \<and>
        csr_rel ends (wd_worker_indexes d) (map ws_workers specs)) \<and>
     length (wd_worker_indexes d) \<le> U32_MAX)"

lemma worker_emit_Ok:
  assumes "worker_holds b specs" "specs \<noteq> []"
  shows "\<exists>d. worker_dataset_finish db b = Return (b\<lparr>wb_columns := worker_columns_default,
      wb_last_block := None, wb_all_datasets := wb_all_datasets b @ [d],
      wb_current_generations := []\<rparr>, Ok ()) \<and>
    wd_id d = wdb_id db \<and> wd_base_url d = wdb_base_url db \<and>
    emitted (wb_write_schemas b) (wb_current_generations b) d specs"
proof -
  let ?c = "wb_columns b"
  have rel: "wc_rel (wb_write_schemas b) ?c specs"
    and ok: "\<forall>s \<in> set specs. spec_ok (wb_write_schemas b) (wb_current_generations b) s"
    and last': "wb_last_block b = Some (dc_last_block (ws_id (last specs)))"
    using assms by (auto simp: worker_holds_def)
  have "check_top_runs (wc_tops ?c) = Ok ()"
    using rel assms(2) by (auto simp: wc_rel_def intro!: runs_rel_check)
  moreover have "wc_first_blocks ?c \<noteq> []"
    using rel assms(2) by (simp add: wc_rel_def)
  ultimately show ?thesis
    using rel ok last' assms(2)
    by (auto simp: worker_dataset_finish_def emit_dataset_def worker_dataset_drop_def Let_def
        emitted_def wc_rel_def create_generations_def)
qed

lemma worker_finish_nonempty:
  assumes "worker_holds b specs" "worker_dataset_finish db b = Return (b', Ok ())"
  shows "specs \<noteq> []"
  using assms
  by (auto simp: worker_holds_def wc_rel_def worker_dataset_finish_def emit_dataset_def Let_def)

lemma worker_finish_Ok:
  assumes "worker_holds b specs" "worker_dataset_finish db b = Return (b', Ok ())"
  obtains d where "b' = b\<lparr>wb_columns := worker_columns_default, wb_last_block := None,
      wb_all_datasets := wb_all_datasets b @ [d], wb_current_generations := []\<rparr>"
    and "wd_id d = wdb_id db" "wd_base_url d = wdb_base_url db"
    and "emitted (wb_write_schemas b) (wb_current_generations b) d specs"
  using worker_emit_Ok [OF assms(1) worker_finish_nonempty [OF assms], of db] assms(2) by auto

section \<open>Reading one row\<close>

lemma emitted_check: "emitted schemas gens d specs \<Longrightarrow> worker_check_dataset d = Ok ()"
  unfolding worker_check_dataset_def check_columns_Ok
  by (auto simp: emitted_def worker_dense_def first_run_def runs_rel_def csr_rel_def hd_conv_nth
      split: option.splits if_splits)

abbreviation row :: "worker_dataset \<Rightarrow> nat \<Rightarrow> worker_chunk" where
  "row d i \<equiv> \<lparr>wk_dataset = d, wk_index = of_nat i\<rparr>"

lemma row_index: "emitted schemas gens d specs \<Longrightarrow> i < length specs \<Longrightarrow> unat (of_nat i :: u32) = i"
  by (simp add: emitted_def)

lemma row_chunk_at:
  "emitted schemas gens d specs \<Longrightarrow> i < length specs \<Longrightarrow> worker_chunk_at d (of_nat i) = Some (row d i)"
  by (simp add: worker_chunk_at_def worker_chunk_count_def emitted_def)

lemma row_fields:
  assumes "emitted schemas gens d specs" "i < length specs"
  shows "wk_first_block (row d i) = Return (dc_first_block (ws_id (specs ! i)))"
    and "wk_size (row d i) = Return (ws_size (specs ! i))"
    and "wk_write_schema_id (row d i) = Return (ws_schema (specs ! i))"
    and "wk_hash (row d i) = Return (hash_str (dc_last_hash (ws_id (specs ! i))))"
  using assms
  by (simp_all add: wk_first_block_def wk_size_def wk_write_schema_id_def wk_hash_def row_index
      emitted_def)

lemma row_version:
  assumes "emitted schemas gens d specs" "i < length specs"
  shows "wk_version (row d i) = Return (ws_version (specs ! i))"
proof (cases "\<exists>s \<in> set specs. ws_version s \<noteq> 0")
  case True
  then show ?thesis
    using assms by (simp add: wk_version_def emitted_def)
next
  case False
  then have "ws_version (specs ! i) = 0"
    using assms(2) by simp
  with False show ?thesis
    using assms by (simp add: wk_version_def emitted_def)
qed

lemma row_top:
  assumes "emitted schemas gens d specs" "i < length specs"
  shows "wk_top (row d i) = Return (dc_top (ws_id (specs ! i)))"
  using assms by (simp add: wk_top_def emitted_def runs_rel_def)

text \<open>The delta fits its 32 bits, so adding it to the first block gives the last one.\<close>

lemma add_delta:
  fixes a b :: u64
  assumes "unat (b - a) \<le> U32_MAX"
  shows "a + ucast (ucast (b - a) :: u32) = b"
proof -
  have "(ucast (ucast x :: u32) :: u64) = x" if "unat x < 2 ^ 32" for x :: u64
    using that by (simp add: word_unat_eq_iff unsigned_ucast_eq unsigned_take_bit_eq take_bit_nat_eq_self)
  from this [of "b - a"] assms show ?thesis
    by simp
qed

lemma row_last_block:
  assumes "emitted schemas gens d specs" "i < length specs"
  shows "wk_last_block (row d i) = Return (dc_last_block (ws_id (specs ! i)))"
proof -
  have "unat (dc_last_block (ws_id (specs ! i)) - dc_first_block (ws_id (specs ! i))) \<le> U32_MAX"
    using assms by (simp add: emitted_def spec_ok_def)
  from add_delta [OF this] show ?thesis
    using assms row_fields(1) [OF assms]
    by (simp add: wk_last_block_def row_index emitted_def spec_delta_def)
qed

lemma row_worker_indexes:
  assumes "emitted schemas gens d specs" "i < length specs"
  shows "wk_worker_indexes (row d i) = Return (ws_workers (specs ! i))"
proof -
  obtain ends where "wd_worker_offsets d = 0 # ends"
    "csr_rel ends (wd_worker_indexes d) (map ws_workers specs)"
    "length (wd_worker_indexes d) \<le> U32_MAX"
    using assms(1) by (auto simp: emitted_def)
  with csr_slice_row [OF this(2,3), of i] assms show ?thesis
    by (simp add: wk_worker_indexes_def row_index)
qed

text \<open>The id and the url are rebuilt from the columns; they are the printed identifier.\<close>

lemma row_display:
  assumes "emitted schemas gens d specs" "i < length specs"
  obtains h where "hash_str (dc_last_hash (ws_id (specs ! i))) = Some h"
    and "data_chunk_display (ws_id (specs ! i)) =
      push_chunk_id [] (dc_top (ws_id (specs ! i))) (dc_first_block (ws_id (specs ! i)))
        (dc_last_block (ws_id (specs ! i))) h"
proof -
  have "dc_wf (ws_id (specs ! i))"
    using assms by (simp add: emitted_def spec_ok_def)
  then obtain h where h: "data_chunk_last_hash (ws_id (specs ! i)) = Return h"
    using dc_wf_new by blast
  show ?thesis
    using that h push_chunk_id_display [OF h] by (simp add: hash_str_last_hash)
qed

lemma row_id:
  assumes "emitted schemas gens d specs" "i < length specs"
  shows "wk_id (row d i) = outcome_map Some (data_chunk_display (ws_id (specs ! i)))"
proof -
  obtain h where "hash_str (dc_last_hash (ws_id (specs ! i))) = Some h"
    "data_chunk_display (ws_id (specs ! i)) =
      push_chunk_id [] (dc_top (ws_id (specs ! i))) (dc_first_block (ws_id (specs ! i)))
        (dc_last_block (ws_id (specs ! i))) h"
    using row_display [OF assms] .
  then show ?thesis
    by (simp add: wk_id_def row_top [OF assms] row_fields [OF assms] row_last_block [OF assms])
qed

text \<open>The download url: the dataset's base, the generation's prefix for a rewritten chunk, the id.\<close>

definition expected_base :: "string \<Rightarrow> (u32, string) btree \<Rightarrow> u32 \<Rightarrow> string" where
  "expected_base base_url gens version =
    (if version = 0 then base_url else push_segment base_url (the (map_of gens version)))"

lemma get_generation_emitted:
  assumes "key_search lk" "emitted schemas gens d specs" "btree_inv gens" "map_of gens v = Some u"
  shows "get_generation lk d v = Some \<lparr>ge_version = v, ge_base_url = u\<rparr>"
proof -
  have "gens \<noteq> []"
    using assms(4) by auto
  then have "wd_generations d = Some (map (\<lambda>(v, u). \<lparr>ge_version = v, ge_base_url = u\<rparr>) gens)"
    using assms(2) by (simp add: emitted_def)
  then show ?thesis
    using lookup_by_key_btree [OF assms(1,3), of ge_version "\<lambda>(v, u). \<lparr>ge_version = v, ge_base_url = u\<rparr>" v]
      assms(4) by (simp add: get_generation_def)
qed

lemma row_url:
  assumes "key_search lk" "emitted schemas gens d specs" "i < length specs" "btree_inv gens"
  shows "wk_url lk (row d i) = outcome_map
    (\<lambda>id'. Some (push_separator (expected_base (wd_base_url d) gens (ws_version (specs ! i))) @ id'))
    (data_chunk_display (ws_id (specs ! i)))"
proof -
  note em = assms(2,3)
  let ?v = "ws_version (specs ! i)"
  obtain h where h: "hash_str (dc_last_hash (ws_id (specs ! i))) = Some h"
    "data_chunk_display (ws_id (specs ! i)) =
      push_chunk_id [] (dc_top (ws_id (specs ! i))) (dc_first_block (ws_id (specs ! i)))
        (dc_last_block (ws_id (specs ! i))) h"
    using row_display [OF em] .
  note reads = row_fields [OF em] row_version [OF em] row_top [OF em] row_last_block [OF em]
  show ?thesis
  proof (cases "?v = 0")
    case True
    with h show ?thesis
      by (simp add: wk_url_def reads expected_base_def)
  next
    case False
    then obtain u where u: "map_of gens ?v = Some u"
      using em by (auto simp: emitted_def spec_ok_def)
    from False h get_generation_emitted [OF assms(1,2,4) u] u show ?thesis
      by (simp add: wk_url_def reads expected_base_def)
  qed
qed

section \<open>Tables\<close>

definition rosters_ok :: "(u32, string list) btree \<Rightarrow> bool" where
  "rosters_ok schemas = (btree_inv schemas \<and> (\<forall>(w, tables) \<in> set schemas. sorted_wrt (<) tables))"

lemma rosters_ok_Nil [simp]: "rosters_ok []"
  by (simp add: rosters_ok_def)

lemma rosters_ok_lookup: "rosters_ok schemas \<Longrightarrow> map_of schemas w = Some tables \<Longrightarrow> sorted_wrt (<) tables"
  using map_of_SomeD by (fastforce simp: rosters_ok_def)

lemma set_btree_insert: "set (btree_insert k v m) \<subseteq> insert (k, v) (set m)"
  by (induction k v m rule: btree_insert.induct) auto

lemma register_write_schema_rosters_ok:
  "rosters_ok (wb_write_schemas b) \<Longrightarrow>
    rosters_ok (wb_write_schemas (fst (register_write_schema w tables b)))"
  using set_btree_insert [of w tables "wb_write_schemas b"]
  by (auto simp: register_write_schema_def rosters_ok_def is_sorted_strict_iff split: option.splits)

lemma get_range_csr:
  assumes "csr_rel ends vals rows" "length vals \<le> U32_MAX" "i < length rows"
  shows "get_range vals (unat ((0 # ends) ! i)) (unat ((0 # ends) ! (i + 1))) = Some (rows ! i)"
proof -
  have vals: "vals = concat rows"
    using assms(1) by (simp add: csr_rel_def)
  have split: "concat rows = concat (take i rows) @ rows ! i @ concat (drop (Suc i) rows)"
    using assms(3) by (metis concat.simps(2) concat_append id_take_nth_drop)
  have "unat ((0 # ends) ! i) = length (concat (take i rows))"
    "unat ((0 # ends) ! (i + 1)) = length (concat (take i rows)) + length (rows ! i)"
    using csr_offset [OF assms(1,2), of i] csr_offset [OF assms(1,2), of "i + 1"] assms(3)
    by (simp_all add: take_Suc_conv_app_nth)
  moreover have "length (concat (take i rows)) + length (rows ! i) \<le> length (concat rows)"
    by (subst split) simp
  moreover have "take (length (rows ! i)) (drop (length (concat (take i rows))) (concat rows)) = rows ! i"
    by (subst split) simp
  ultimately show ?thesis
    by (simp add: get_range_def vals)
qed

lemma row_tables_present:
  assumes "emitted schemas gens d specs" "i < length specs"
    and "length (concat (map (spec_bits schemas) specs)) \<le> U32_MAX"
  shows "wk_tables_present (row d i) =
    Return (if spec_bits schemas (specs ! i) = [] then None else Some (spec_bits schemas (specs ! i)))"
proof (cases "\<exists>s \<in> set specs. spec_bits schemas s \<noteq> []")
  case True
  then obtain ends vals where csr: "wd_tables_present_offsets d = Some (0 # ends)"
    "wd_tables_present d = Some vals" "csr_rel ends vals (map (spec_bits schemas) specs)"
    using assms(1) by (auto simp: emitted_def)
  then have "length vals \<le> U32_MAX" "length ends = length specs"
    using assms(3) by (auto simp: csr_rel_def)
  then show ?thesis
    using get_range_csr [OF csr(3), of i] csr assms(2) row_index [OF assms(1,2)]
    by (simp add: wk_tables_present_def)
next
  case False
  then have "spec_bits schemas (specs ! i) = []"
    using assms(2) by simp
  with False assms(1) show ?thesis
    by (simp add: wk_tables_present_def emitted_def)
qed

text \<open>The tables a description stands for: those listed, or the whole roster.\<close>

definition spec_table_list :: "(u32, string list) btree \<Rightarrow> worker_spec \<Rightarrow> string list" where
  "spec_table_list schemas s =
    (case ws_tables s of None \<Rightarrow> the (map_of schemas (ws_schema s)) | Some tables \<Rightarrow> tables)"

lemma select_spec_bits:
  assumes "spec_ok schemas gens s" "rosters_ok schemas" "map_of schemas (ws_schema s) = Some roster"
  shows "select_tables roster (if spec_bits schemas s = [] then None else Some (spec_bits schemas s)) =
    spec_table_list schemas s"
proof (cases "ws_tables s")
  case None
  then show ?thesis
    using assms(3) by (simp add: spec_bits_def spec_table_list_def)
next
  case (Some tables)
  let ?m = "merge_tables (ws_schema s) roster tables 0 (zero_bits roster)"
  have "snd ?m = Ok ()"
    using assms(1,3) Some by (simp add: spec_ok_def)
  then have "?m = (fst ?m, Ok ())"
    by (metis prod.collapse)
  moreover have sorted: "sorted_wrt (<) roster"
    using rosters_ok_lookup [OF assms(2,3)] .
  ultimately have enc: "encodes roster (fst ?m) tables" "sorted_wrt (<) tables" "set tables \<subseteq> set roster"
    using merge_tables_encodes [OF sorted, of "ws_schema s" tables "fst ?m"] by (simp_all add: zero_bits_def)
  have bits: "spec_bits schemas s = fst ?m"
    using Some assms(3) by (simp add: spec_bits_def)
  show ?thesis
  proof (cases "fst ?m = []")
    case True
    then have "roster = []"
      using merge_tables_length [of "ws_schema s" roster tables 0 "zero_bits roster"]
      by (cases roster) (simp_all add: zero_bits_def)
    with enc True bits Some show ?thesis
      by (simp add: spec_table_list_def)
  next
    case False
    then show ?thesis
      using select_encodes [OF enc(1) sorted enc(2,3)] bits Some by (simp add: spec_table_list_def)
  qed
qed

lemma get_write_schema_finish:
  assumes "key_search lk" "rosters_ok (wb_write_schemas b)"
  shows "get_write_schema lk (worker_builder_finish b) w =
    map_option (\<lambda>tables. \<lparr>ro_write_schema_id = w, ro_tables = tables\<rparr>) (map_of (wb_write_schemas b) w)"
  using lookup_by_key_btree [OF assms(1), of "wb_write_schemas b" ro_write_schema_id
      "\<lambda>(w, tables). \<lparr>ro_write_schema_id = w, ro_tables = tables\<rparr>" w] assms(2)
  by (simp add: get_write_schema_def worker_builder_finish_def create_write_schema_rosters_def
      rosters_ok_def)

lemma row_chunk_tables:
  assumes "key_search lk" "emitted (wb_write_schemas b) gens d specs" "i < length specs"
    and "rosters_ok (wb_write_schemas b)"
    and "length (concat (map (spec_bits (wb_write_schemas b)) specs)) \<le> U32_MAX"
  shows "chunk_tables lk (worker_builder_finish b) (row d i) =
    Return (Some (spec_table_list (wb_write_schemas b) (specs ! i)))"
proof -
  have ok: "spec_ok (wb_write_schemas b) gens (specs ! i)"
    using assms(2,3) by (simp add: emitted_def)
  then obtain roster where "map_of (wb_write_schemas b) (ws_schema (specs ! i)) = Some roster"
    by (auto simp: spec_ok_def)
  then show ?thesis
    using select_spec_bits [OF ok assms(4)] row_tables_present [OF assms(2,3,5)]
    by (simp add: chunk_tables_def row_fields [OF assms(2,3)] get_write_schema_finish [OF assms(1,4)])
qed

section \<open>Holdings\<close>

lemma holdings_emitted:
  assumes "emitted schemas gens d specs"
  shows "holdings w d = Return
    (map (row d) (filter (\<lambda>i. aw_index w \<in> set (ws_workers (specs ! i))) [0 ..< length specs]))"
proof -
  have count: "worker_chunk_count d = length specs"
    using assms by (simp add: worker_chunk_count_def emitted_def)
  have probe: "outcome_bind (vec_get (wd_worker_offsets d) i) (\<lambda>start.
      outcome_map (\<lambda>end'. \<exists>slot \<in> set [unat start ..< min (unat end') (length (wd_worker_indexes d))].
        wd_worker_indexes d ! slot = aw_index w) (vec_get (wd_worker_offsets d) (i + 1))) =
    Return (aw_index w \<in> set (ws_workers (specs ! i)))" if "i < length specs" for i
  proof -
    have "wk_worker_indexes (row d i) = Return (ws_workers (specs ! i))"
      using row_worker_indexes [OF assms that] .
    then obtain a e where "vec_get (wd_worker_offsets d) i = Return a"
      "vec_get (wd_worker_offsets d) (i + 1) = Return e"
      and slice: "map ((!) (wd_worker_indexes d))
        [unat a ..< min (unat e) (length (wd_worker_indexes d))] = ws_workers (specs ! i)"
      by (auto simp: wk_worker_indexes_def csr_slice_def row_index [OF assms \<open>i < length specs\<close>])
    then show ?thesis
      unfolding slice [symmetric] by (simp add: image_iff) metis
  qed
  show ?thesis
    unfolding holdings_def Let_def count
    by (subst outcome_filter_total [where q = "\<lambda>i. aw_index w \<in> set (ws_workers (specs ! i))"],
        rule probe) simp_all
qed

end
