(* ===== verification/Worker_Trace.thy ===== *)
theory Worker_Trace
  imports Worker_Roundtrip Registry
begin

text \<open>
  The worker builder as a state machine. A state is the builder, the dataset builder borrowing it and
  the chunk builder borrowing that; the borrow rules say which calls are possible when. The steps are
  the calls of the public interface, rejected ones included. The invariant \<open>worker_inv\<close> holds in every
  reachable state: the staged columns are those of some list of chunks, or hold more worker references
  than 32 bits can count; registered rosters and generations are sorted, entries are in peer-id order,
  and an emitted dataset passes the reader's checks unless it holds that many references.
\<close>

type_synonym ('p, 'sk, 'rng) worker_state =
  "('p, 'sk, 'rng) worker_builder \<times> worker_dataset_builder option \<times> worker_chunk_builder option"

inductive worker_step ::
  "('p::linorder, 'sk, 'rng) crypto \<Rightarrow> ('p, 'sk, 'rng) worker_state \<Rightarrow> ('p, 'sk, 'rng) worker_state \<Rightarrow> bool"
  for cr where
  step_check_continuity:
    "worker_step cr (b, None, None) (worker_check_continuity check b, None, None)"
| step_register_write_schema:
    "worker_step cr (b, None, None) (fst (register_write_schema w tables b), None, None)"
| step_add_worker:
    "worker_add_worker_with_timestamp cr p st ts b = Return b' \<Longrightarrow>
     length (cr_to_bytes cr p) = WORKER_ID_LEN \<Longrightarrow>
     worker_step cr (b, None, None) (b', None, None)"
| step_add_sealed:
    "add_worker_with_sealed_headers cr p st identity nonce ciphertext b = Return b' \<Longrightarrow>
     length (cr_to_bytes cr p) = WORKER_ID_LEN \<Longrightarrow>
     worker_step cr (b, None, None) (b', None, None)"
| step_new_dataset:
    "worker_step cr (b, None, None) (b, Some (worker_new_dataset id' url), None)"
| step_register_generation:
    "worker_step cr (b, Some db, None) (fst (register_generation v url b), Some db, None)"
| step_new_chunk:
    "worker_new_chunk b = (b', cb) \<Longrightarrow> worker_step cr (b, Some db, None) (b', Some db, Some cb)"
| step_chunk_id:
    "dc_wf c \<Longrightarrow> worker_step cr (b, Some db, Some cb) (b, Some db, Some (worker_chunk_id c cb))"
| step_chunk_block_range:
    "worker_step cr (b, Some db, Some cb) (b, Some db, Some (worker_chunk_block_range rng cb))"
| step_chunk_size:
    "worker_step cr (b, Some db, Some cb) (b, Some db, Some (worker_chunk_size sz cb))"
| step_chunk_version:
    "worker_step cr (b, Some db, Some cb) (b, Some db, Some (worker_chunk_version v cb))"
| step_chunk_write_schema_id:
    "worker_step cr (b, Some db, Some cb) (b, Some db, Some (worker_chunk_write_schema_id w cb))"
| step_chunk_worker_indexes:
    "worker_step cr (b, Some db, Some cb) (worker_chunk_worker_indexes ws b, Some db, Some cb)"
| step_tables_present:
    "tables_present tables b cb = (b', Ok cb') \<Longrightarrow>
     worker_step cr (b, Some db, Some cb) (b', Some db, Some cb')"
| step_tables_present_rejected:
    "tables_present tables b cb = (b', Err e) \<Longrightarrow>
     worker_step cr (b, Some db, Some cb) (b', Some db, None)"
| step_chunk_finish:
    "worker_chunk_finish b cb = Return (b', r) \<Longrightarrow>
     worker_step cr (b, Some db, Some cb) (b', Some db, None)"
| step_chunk_drop:
    "worker_step cr (b, Some db, Some cb) (b, Some db, None)"
| step_dataset_finish:
    "worker_dataset_finish db b = Return (b', r) \<Longrightarrow>
     worker_step cr (b, Some db, None) (b', None, None)"
| step_dataset_drop:
    "worker_step cr (b, Some db, None) (worker_dataset_drop db b, None, None)"

inductive worker_reachable ::
  "('p::linorder, 'sk, 'rng) crypto \<Rightarrow> ('p, 'sk, 'rng) worker_state \<Rightarrow> bool" for cr where
  reach_new: "worker_reachable cr (worker_builder_new cr secret rng, None, None)"
| reach_step: "worker_reachable cr s \<Longrightarrow> worker_step cr s s' \<Longrightarrow> worker_reachable cr s'"

section \<open>The invariant\<close>

definition staged_ok :: "('p, 'sk, 'rng) worker_builder \<Rightarrow> worker_chunk_builder \<Rightarrow> bool" where
  "staged_ok b cb =
    ((\<forall>c. cb_id cb = Some c \<longrightarrow> dc_wf c) \<and>
     (case cb_tables_present cb of
        None \<Rightarrow> wb_staged_tables_present b = []
      | Some w \<Rightarrow> \<exists>roster tables. map_of (wb_write_schemas b) w = Some roster \<and>
          merge_tables w roster tables 0 (zero_bits roster) = (wb_staged_tables_present b, Ok ())))"

text \<open>
  The chunk that takes the worker references above 32 bits is rejected after its other columns were
  pushed, so from then on the offsets are fewer than the chunks.
\<close>

definition overflowed :: "worker_columns \<Rightarrow> bool" where
  "overflowed c =
    (U32_MAX < length (wc_worker_indexes c) \<and> length (wc_worker_ends c) < length (wc_first_blocks c))"

definition loads_unless_overflowed :: "worker_dataset \<Rightarrow> bool" where
  "loads_unless_overflowed d =
    (worker_check_dataset d = Ok () \<longleftrightarrow> length (wd_worker_indexes d) \<le> U32_MAX)"

definition builder_inv :: "('p::linorder, 'sk, 'rng) crypto \<Rightarrow> ('p, 'sk, 'rng) worker_builder \<Rightarrow> bool" where
  "builder_inv cr b =
    (rosters_ok (wb_write_schemas b) \<and> btree_inv (wb_current_generations b) \<and>
     ((\<exists>specs. worker_holds b specs) \<or> overflowed (wb_columns b)) \<and>
     (\<forall>d \<in> set (wb_all_datasets b). loads_unless_overflowed d) \<and>
     map fst (wb_worker_entries b) = map (\<lambda>e. we_worker_id (snd e)) (wb_worker_entries b) \<and>
     (\<exists>ps. registered (cr_to_bytes cr) (map fst (wb_worker_entries b)) (wb_last_peer_id b) ps))"

fun worker_inv :: "('p::linorder, 'sk, 'rng) crypto \<Rightarrow> ('p, 'sk, 'rng) worker_state \<Rightarrow> bool" where
  "worker_inv cr (b, dbo, cbo) =
    (builder_inv cr b \<and>
     (\<forall>db. dbo = Some db \<longrightarrow> \<not> wdb_emitted db) \<and>
     (dbo = None \<longrightarrow> worker_holds b [] \<and> wb_current_generations b = []) \<and>
     (\<forall>cb. cbo = Some cb \<longrightarrow> staged_ok b cb))"

lemma builder_inv_new: "builder_inv cr (worker_builder_new cr secret rng)"
  "worker_holds (worker_builder_new cr secret rng) []"
  by (auto simp: builder_inv_def worker_builder_new_def worker_holds_def Let_def
      split: prod.splits intro!: exI [of _ "[]"])

text \<open>The parts of the builder that \<open>worker_holds\<close> depends on.\<close>

lemma worker_holds_cong:
  assumes "worker_holds b specs" "wb_columns b' = wb_columns b" "wb_last_block b' = wb_last_block b"
    and "wb_write_schemas b' = wb_write_schemas b"
    and "wb_current_generations b' = wb_current_generations b"
  shows "worker_holds b' specs"
  using assms by (simp add: worker_holds_def)

lemma spec_ok_mono:
  assumes "spec_ok schemas gens s" "map_of gens \<subseteq>\<^sub>m map_of gens'" "map_of schemas \<subseteq>\<^sub>m map_of schemas'"
  shows "spec_ok schemas' gens' s"
  using assms by (fastforce simp: spec_ok_def map_le_def dom_def)

lemma worker_holds_generations:
  assumes "worker_holds b specs" "map_of (wb_current_generations b) \<subseteq>\<^sub>m map_of gens'"
  shows "worker_holds (b\<lparr>wb_current_generations := gens'\<rparr>) specs"
  using assms spec_ok_mono [OF _ assms(2) map_le_refl] by (auto simp: worker_holds_def)

lemma worker_holds_Nil:
  assumes "wb_columns b = worker_columns_default" "wb_last_block b = None"
  shows "worker_holds b []"
  using assms by (simp add: worker_holds_def)

lemma register_generation_inv:
  assumes "builder_inv cr b"
  shows "builder_inv cr (fst (register_generation v u b))"
proof (cases "v = 0 \<or> map_of (wb_current_generations b) v \<noteq> None")
  case True
  then show ?thesis
    using assms by (auto simp: register_generation_def split: option.splits)
next
  case False
  let ?gens = "btree_insert v u (wb_current_generations b)"
  have "map_of (wb_current_generations b) \<subseteq>\<^sub>m map_of ?gens"
    using assms False by (auto simp: builder_inv_def map_le_def)
  then have "worker_holds (b\<lparr>wb_current_generations := ?gens\<rparr>) specs" if "worker_holds b specs" for specs
    using worker_holds_generations [OF that] by blast
  then show ?thesis
    using assms False by (auto simp: register_generation_def builder_inv_def)
qed

lemma register_write_schema_fields:
  "\<exists>schemas. fst (register_write_schema w tables b) = b\<lparr>wb_write_schemas := schemas\<rparr>"
  by (auto simp: register_write_schema_def split: option.splits) (metis worker_builder.surjective
      worker_builder.update_convs(10))+

lemma register_write_schema_inv:
  assumes "builder_inv cr b" "worker_holds b []"
  shows "builder_inv cr (fst (register_write_schema w tables b))"
    and "worker_holds (fst (register_write_schema w tables b)) []"
proof -
  obtain schemas where eq: "fst (register_write_schema w tables b) = b\<lparr>wb_write_schemas := schemas\<rparr>"
    using register_write_schema_fields by blast
  show holds: "worker_holds (fst (register_write_schema w tables b)) []"
    using assms(2) by (simp add: eq worker_holds_def wc_rel_def)
  have "rosters_ok (wb_write_schemas (fst (register_write_schema w tables b)))"
    using assms(1) by (intro register_write_schema_rosters_ok) (simp add: builder_inv_def)
  with holds assms(1) show "builder_inv cr (fst (register_write_schema w tables b))"
    by (auto simp: builder_inv_def eq)
qed

section \<open>Adding workers\<close>

lemma generate_encrypted_headers_fields:
  assumes "generate_encrypted_headers cr p ts b = (b', h)"
  shows "\<exists>rng identity. b' = b\<lparr>wb_rng := rng, wb_common_identity := identity\<rparr>"
  using assms
  by (auto simp: generate_encrypted_headers_def Let_def split: prod.splits result.splits)
    (metis worker_builder.surjective worker_builder.update_convs(7))

lemma worker_add_fields:
  assumes "worker_add_worker_with_timestamp cr p st ts b = Return b'"
    and "length (cr_to_bytes cr p) = WORKER_ID_LEN"
  shows "\<exists>rng identity headers. b' = b\<lparr>wb_rng := rng, wb_common_identity := identity,
      wb_last_peer_id := Some p, wb_worker_entries := wb_worker_entries b @
        [(cr_to_bytes cr p, \<lparr>we_worker_id = cr_to_bytes cr p, we_status = status_to_fb st,
          we_encrypted_headers = headers\<rparr>)]\<rparr> \<and> \<not> out_of_order (wb_last_peer_id b) p"
proof -
  obtain b1 h where g: "generate_encrypted_headers cr p ts (b\<lparr>wb_last_peer_id := Some p\<rparr>) = (b1, h)"
    by (cases "generate_encrypted_headers cr p ts (b\<lparr>wb_last_peer_id := Some p\<rparr>)")
  from generate_encrypted_headers_fields [OF this] obtain rng identity where
    "b1 = b\<lparr>wb_last_peer_id := Some p, wb_rng := rng, wb_common_identity := identity\<rparr>"
    by blast
  with g assms show ?thesis
    by (auto simp: worker_add_worker_with_timestamp_def worker_id_from_def Let_def split: if_splits
        intro!: exI [of _ rng] exI [of _ identity] exI [of _ "result_ok h"])
qed

lemma worker_add_sealed_fields:
  assumes "add_worker_with_sealed_headers cr p st identity nonce ciphertext b = Return b'"
    and "length (cr_to_bytes cr p) = WORKER_ID_LEN"
  shows "b' = b\<lparr>wb_last_peer_id := Some p, wb_worker_entries := wb_worker_entries b @
      [(cr_to_bytes cr p, \<lparr>we_worker_id = cr_to_bytes cr p, we_status = status_to_fb st,
        we_encrypted_headers = Some \<lparr>eh_identity = identity, eh_nonce = nonce,
          eh_ciphertext = ciphertext\<rparr>\<rparr>)]\<rparr> \<and> \<not> out_of_order (wb_last_peer_id b) p"
  using assms
  by (auto simp: add_worker_with_sealed_headers_def worker_id_from_def Let_def split: if_splits)

interpretation worker_reg: worker_registry
  "\<lambda>(p, st, ts). worker_add_worker_with_timestamp cr p st ts" fst "cr_to_bytes cr"
  "\<lambda>b. map fst (wb_worker_entries b)" wb_last_peer_id
  for cr :: "('p::linorder, 'sk, 'rng) crypto"
proof
  fix w :: "'p \<times> worker_status \<times> nat" and b b' :: "('p, 'sk, 'rng) worker_builder"
  assume len: "length (cr_to_bytes cr (fst w)) = WORKER_ID_LEN"
  show "map fst (wb_worker_entries b') = map fst (wb_worker_entries b) @ [cr_to_bytes cr (fst w)] \<and>
      wb_last_peer_id b' = Some (fst w) \<and> \<not> out_of_order (wb_last_peer_id b) (fst w)"
    if "(case w of (p, st, ts) \<Rightarrow> worker_add_worker_with_timestamp cr p st ts) b = Return b'"
    using that len worker_add_fields [of cr "fst w" "fst (snd w)" "snd (snd w)" b b']
    by (auto simp: case_prod_unfold)
  show "\<exists>b'. (case w of (p, st, ts) \<Rightarrow> worker_add_worker_with_timestamp cr p st ts) b = Return b'"
    if "\<not> out_of_order (wb_last_peer_id b) (fst w)"
    using that len
    by (auto simp: worker_add_worker_with_timestamp_def worker_id_from_def Let_def case_prod_unfold)
next
  fix w :: "'p \<times> worker_status \<times> nat" and b :: "('p, 'sk, 'rng) worker_builder"
  show "\<exists>m. (case w of (p, st, ts) \<Rightarrow> worker_add_worker_with_timestamp cr p st ts) b = Panic m"
    if "out_of_order (wb_last_peer_id b) (fst w)"
    using that by (auto simp: worker_add_worker_with_timestamp_def case_prod_unfold)
qed

lemma builder_inv_add:
  assumes inv: "builder_inv cr b" "worker_holds b []"
    and b': "b' = b\<lparr>wb_rng := rng, wb_common_identity := identity, wb_last_peer_id := Some p,
      wb_worker_entries := wb_worker_entries b @ [(cr_to_bytes cr p, e)]\<rparr>"
    and e: "we_worker_id e = cr_to_bytes cr p" and ord: "\<not> out_of_order (wb_last_peer_id b) p"
  shows "builder_inv cr b' \<and> worker_holds b' []"
proof -
  have "worker_holds b' []"
    using inv(2) by (rule worker_holds_cong) (simp_all add: b')
  moreover obtain ps where
    "registered (cr_to_bytes cr) (map fst (wb_worker_entries b)) (wb_last_peer_id b) ps"
    using inv(1) by (auto simp: builder_inv_def)
  with registered_snoc [OF this ord]
  have "registered (cr_to_bytes cr) (map fst (wb_worker_entries b')) (wb_last_peer_id b') (ps @ [p])"
    by (simp add: b')
  ultimately show ?thesis
    using inv(1) e by (auto simp: builder_inv_def b')
qed

section \<open>Staging\<close>

text \<open>A push either leaves the builder alone, or appends one row, or overflows the worker references.\<close>

lemma push_chunk_cases:
  assumes "push_chunk p b = (b', r)"
    and "wb_staged_tables_present b = spec_bits schemas s" "wb_staged_worker_indexes b = ws_workers s"
    and "p = \<lparr>pc_top = dc_top (ws_id s), pc_block_range = (dc_first_block (ws_id s), dc_last_block (ws_id s)),
      pc_hash = dc_last_hash (ws_id s), pc_size = ws_size s, pc_write_schema_id = ws_schema s,
      pc_version = ws_version s\<rparr>"
  shows "b' = b \<or>
    b' = b\<lparr>wb_columns := wc_snoc schemas s (wb_columns b),
      wb_last_block := Some (dc_last_block (ws_id s))\<rparr> \<and>
    length (wc_first_blocks (wb_columns b)) \<le> U32_MAX \<and>
    unat (dc_last_block (ws_id s) - dc_first_block (ws_id s)) \<le> U32_MAX \<and>
    length (wc_worker_indexes (wb_columns b) @ ws_workers s) \<le> U32_MAX \<or>
    (\<exists>c. b' = b\<lparr>wb_columns := c\<rparr> \<and> U32_MAX < length (wc_worker_indexes c) \<and>
      wc_worker_ends c = wc_worker_ends (wb_columns b) \<and>
      length (wc_first_blocks c) = Suc (length (wc_first_blocks (wb_columns b))))"
  using assms
  by (auto simp: push_chunk_def Let_def push_bitmap_def wc_snoc_def spec_delta_def split: if_splits)

text \<open>Once there are too many references, no further chunk is accepted.\<close>

lemma overflowed_ends:
  assumes "worker_holds b specs \<or> overflowed (wb_columns b)"
  shows "length (wc_worker_ends (wb_columns b)) \<le> length (wc_first_blocks (wb_columns b))"
  using assms by (auto simp: worker_holds_def wc_rel_def csr_rel_def overflowed_def)

lemma worker_holds_snoc:
  assumes "worker_holds b specs" "spec_ok (wb_write_schemas b) (wb_current_generations b) s"
    and "length (wc_first_blocks (wb_columns b)) \<le> U32_MAX"
    and "length (wc_worker_indexes (wb_columns b) @ ws_workers s) \<le> U32_MAX"
  shows "worker_holds (b\<lparr>wb_columns := wc_snoc (wb_write_schemas b) s (wb_columns b),
    wb_last_block := Some (dc_last_block (ws_id s))\<rparr>) (specs @ [s])"
proof -
  have rel: "wc_rel (wb_write_schemas b) (wb_columns b) specs"
    using assms(1) by (simp add: worker_holds_def)
  then have "length specs \<le> U32_MAX"
    using assms(3) by (simp add: wc_rel_def)
  with rel assms(4) have "wc_rel (wb_write_schemas b) (wc_snoc (wb_write_schemas b) s (wb_columns b)) (specs @ [s])"
    by (intro wc_rel_snoc)
  with assms(1,2) show ?thesis
    by (simp add: worker_holds_def)
qed

text \<open>The description a finished chunk builder stands for.\<close>

definition finished_spec ::
  "('p, 'sk, 'rng) worker_builder \<Rightarrow> worker_chunk_builder \<Rightarrow> string list \<Rightarrow> worker_spec" where
  "finished_spec b cb tables =
    \<lparr>ws_id = the (cb_id cb), ws_size = the (cb_size cb), ws_version = cb_version cb,
     ws_schema = the (cb_write_schema_id cb),
     ws_tables = (if cb_tables_present cb = None then None else Some tables),
     ws_workers = wb_staged_worker_indexes b\<rparr>"

lemma worker_chunk_finish_push:
  assumes "worker_chunk_finish b cb = Return (b', r)" "staged_ok b cb"
  shows "b' = b \<or>
    (\<exists>s. push_chunk \<lparr>pc_top = dc_top (ws_id s),
        pc_block_range = (dc_first_block (ws_id s), dc_last_block (ws_id s)),
        pc_hash = dc_last_hash (ws_id s), pc_size = ws_size s, pc_write_schema_id = ws_schema s,
        pc_version = ws_version s\<rparr> b = (b', r) \<and>
      wb_staged_tables_present b = spec_bits (wb_write_schemas b) s \<and>
      wb_staged_worker_indexes b = ws_workers s \<and>
      (unat (dc_last_block (ws_id s) - dc_first_block (ws_id s)) \<le> U32_MAX \<longrightarrow>
        spec_ok (wb_write_schemas b) (wb_current_generations b) s))"
proof (cases "b' = b")
  case False
  with assms obtain rng c w sz where
    cb: "cb_block_range cb = Some rng" "cb_id cb = Some c" "cb_write_schema_id cb = Some w"
      "cb_size cb = Some sz" "rng = (dc_first_block c, dc_last_block c)" "dc_wf c"
    and reg: "map_of (wb_write_schemas b) w \<noteq> None"
      "cb_version cb = 0 \<or> map_of (wb_current_generations b) (cb_version cb) \<noteq> None"
      "cb_tables_present cb = None \<or> cb_tables_present cb = Some w"
    and push: "push_chunk \<lparr>pc_top = dc_top c, pc_block_range = rng, pc_hash = dc_last_hash c,
      pc_size = sz, pc_write_schema_id = w, pc_version = cb_version cb\<rparr> b = (b', r)"
    by (auto simp: worker_chunk_finish_def staged_ok_def chunk_hash_wf
        split: option.splits if_splits prod.splits)
  from reg(1) obtain roster where roster: "map_of (wb_write_schemas b) w = Some roster"
    by auto
  have "\<exists>tables. cb_tables_present cb = None \<and> wb_staged_tables_present b = [] \<or>
      cb_tables_present cb = Some w \<and>
      merge_tables w roster tables 0 (zero_bits roster) = (wb_staged_tables_present b, Ok ())"
    using reg(3) assms(2) roster by (auto simp: staged_ok_def)
  then obtain tables where tables: "cb_tables_present cb = None \<and> wb_staged_tables_present b = [] \<or>
      cb_tables_present cb = Some w \<and>
      merge_tables w roster tables 0 (zero_bits roster) = (wb_staged_tables_present b, Ok ())"
    by blast
  show ?thesis
    using cb reg push roster tables
    by (intro disjI2 exI [of _ "finished_spec b cb tables"])
      (auto simp: finished_spec_def spec_bits_def spec_ok_def)
qed simp

lemma builder_inv_chunk_finish:
  assumes "builder_inv cr b" "staged_ok b cb" "worker_chunk_finish b cb = Return (b', r)"
  shows "builder_inv cr b'"
proof (cases "b' = b")
  case False
  obtain specs where specs: "worker_holds b specs \<or> overflowed (wb_columns b)"
    using assms(1) by (auto simp: builder_inv_def)
  from False worker_chunk_finish_push [OF assms(3,2)] obtain s where
    push: "push_chunk \<lparr>pc_top = dc_top (ws_id s),
        pc_block_range = (dc_first_block (ws_id s), dc_last_block (ws_id s)),
        pc_hash = dc_last_hash (ws_id s), pc_size = ws_size s, pc_write_schema_id = ws_schema s,
        pc_version = ws_version s\<rparr> b = (b', r)"
    and staged: "wb_staged_tables_present b = spec_bits (wb_write_schemas b) s"
      "wb_staged_worker_indexes b = ws_workers s"
    and ok: "unat (dc_last_block (ws_id s) - dc_first_block (ws_id s)) \<le> U32_MAX \<longrightarrow>
        spec_ok (wb_write_schemas b) (wb_current_generations b) s"
    by blast
  from push_chunk_cases [OF push staged refl] False show ?thesis
  proof (elim disjE conjE exE)
    assume b': "b' = b\<lparr>wb_columns := wc_snoc (wb_write_schemas b) s (wb_columns b),
        wb_last_block := Some (dc_last_block (ws_id s))\<rparr>"
      and bounds: "length (wc_first_blocks (wb_columns b)) \<le> U32_MAX"
        "unat (dc_last_block (ws_id s) - dc_first_block (ws_id s)) \<le> U32_MAX"
        "length (wc_worker_indexes (wb_columns b) @ ws_workers s) \<le> U32_MAX"
    then have "worker_holds b specs"
      using specs by (auto simp: overflowed_def)
    from worker_holds_snoc [OF this _ bounds(1,3)] ok bounds(2)
    have "worker_holds b' (specs @ [s])"
      by (simp add: b')
    with assms(1) show ?thesis
      by (auto simp: builder_inv_def b')
  next
    fix c
    assume "b' = b\<lparr>wb_columns := c\<rparr>" "U32_MAX < length (wc_worker_indexes c)"
      "wc_worker_ends c = wc_worker_ends (wb_columns b)"
      "length (wc_first_blocks c) = Suc (length (wc_first_blocks (wb_columns b)))"
    with assms(1) overflowed_ends [OF specs] show ?thesis
      by (simp add: builder_inv_def overflowed_def)
  qed simp
qed (use assms(1) in simp)

section \<open>Datasets\<close>

lemma overflowed_not_loaded:
  assumes "wd_first_blocks d = wc_first_blocks c" "wd_worker_offsets d = 0 # wc_worker_ends c"
    and "wd_worker_indexes d = wc_worker_indexes c" "overflowed c"
  shows "loads_unless_overflowed d"
  using assms unfolding loads_unless_overflowed_def worker_check_dataset_def check_columns_Ok
  by (auto simp: overflowed_def worker_dense_def)

lemma worker_dataset_finish_cases:
  assumes "worker_holds b specs \<or> overflowed (wb_columns b)" "worker_dataset_finish db b = Return (b', r)"
  shows "b' = discard_dataset b \<or>
    (\<exists>d. b' = b\<lparr>wb_columns := worker_columns_default, wb_last_block := None,
        wb_all_datasets := wb_all_datasets b @ [d], wb_current_generations := []\<rparr> \<and>
      loads_unless_overflowed d)"
  using assms(1)
proof
  assume over: "overflowed (wb_columns b)"
  note defs = worker_dataset_finish_def emit_dataset_def worker_dataset_drop_def Let_def
  show ?thesis
  proof (cases "check_top_runs (wc_tops (wb_columns b))")
    case (Ok u)
    with assms(2) overflowed_not_loaded [OF _ _ _ over] show ?thesis
      by (auto simp: defs split: if_splits)
  next
    case (Err e)
    with assms(2) show ?thesis
      by (cases "wc_first_blocks (wb_columns b)") (simp_all add: defs)
  qed
next
  assume holds: "worker_holds b specs"
  show ?thesis
  proof (cases "specs = []")
    case True
    then show ?thesis
      using holds assms(2) by (auto simp: worker_dataset_finish_def emit_dataset_def
          worker_dataset_drop_def worker_holds_def wc_rel_def Let_def)
  next
    case False
    then show ?thesis
      using worker_emit_Ok [OF holds False, of db] assms(2) emitted_check
      by (auto simp: loads_unless_overflowed_def emitted_def)
  qed
qed

lemma builder_inv_discard: "builder_inv cr b \<Longrightarrow> builder_inv cr (discard_dataset b)"
  by (auto simp: builder_inv_def discard_dataset_def intro!: exI [of _ "[]"] worker_holds_Nil)

lemma worker_inv_dataset_finish:
  assumes "builder_inv cr b" "worker_dataset_finish db b = Return (b', r)"
  shows "worker_inv cr (b', None, None)"
proof -
  obtain specs where "worker_holds b specs \<or> overflowed (wb_columns b)"
    using assms(1) by (auto simp: builder_inv_def)
  from worker_dataset_finish_cases [OF this assms(2)] show ?thesis
  proof (elim disjE conjE exE)
    assume "b' = discard_dataset b"
    then show ?thesis
      using builder_inv_discard [OF assms(1)] by (auto simp: discard_dataset_def intro!: worker_holds_Nil)
  next
    fix d
    assume "b' = b\<lparr>wb_columns := worker_columns_default, wb_last_block := None,
        wb_all_datasets := wb_all_datasets b @ [d], wb_current_generations := []\<rparr>"
      and "loads_unless_overflowed d"
    then show ?thesis
      using assms(1) by (auto simp: builder_inv_def intro!: worker_holds_Nil exI [of _ "[]"])
  qed
qed

section \<open>Every step keeps the invariant\<close>

lemma builder_inv_staged [simp]:
  "builder_inv cr (b\<lparr>wb_staged_tables_present := bits\<rparr>) = builder_inv cr b"
  "builder_inv cr (b\<lparr>wb_staged_worker_indexes := ws\<rparr>) = builder_inv cr b"
  "builder_inv cr (b\<lparr>wb_check_continuity := check\<rparr>) = builder_inv cr b"
  by (simp_all add: builder_inv_def worker_holds_def)

lemma tables_present_staged:
  assumes "tables_present tables b cb = (b', r)"
  shows "\<exists>bits. b' = b\<lparr>wb_staged_tables_present := bits\<rparr>"
  using assms
  by (auto simp: tables_present_def split: option.splits prod.splits result.splits)
    (metis worker_builder.surjective worker_builder.update_convs(14))+

lemma staged_ok_tables_present:
  assumes "staged_ok b cb" "tables_present tables b cb = (b', Ok cb')"
  shows "staged_ok b' cb'"
proof -
  obtain w where w: "cb_write_schema_id cb = Some w"
    using assms(2) by (auto simp: tables_present_def split: option.splits)
  from tables_present_Ok [OF assms(2) w] obtain roster where
    roster: "map_of (wb_write_schemas b) w = Some roster"
    and merge: "merge_tables w roster tables 0 (zero_bits roster) = (wb_staged_tables_present b', Ok ())"
    and b': "b' = b\<lparr>wb_staged_tables_present := wb_staged_tables_present b'\<rparr>"
    and cb': "cb' = cb\<lparr>cb_tables_present := Some w\<rparr>" .
  have "wb_write_schemas b' = wb_write_schemas b"
    by (subst b') simp
  with roster merge assms(1) show ?thesis
    by (auto simp: staged_ok_def cb')
qed

lemma staged_ok_setters:
  assumes "staged_ok b cb"
  shows "dc_wf c \<Longrightarrow> staged_ok b (worker_chunk_id c cb)"
    and "staged_ok b (worker_chunk_block_range rng cb)"
    and "staged_ok b (worker_chunk_size sz cb)"
    and "staged_ok b (worker_chunk_version v cb)"
    and "staged_ok b (worker_chunk_write_schema_id w cb)"
    and "staged_ok (worker_chunk_worker_indexes ws b) cb"
  using assms
  by (simp_all add: staged_ok_def worker_chunk_id_def worker_chunk_block_range_def
      worker_chunk_size_def worker_chunk_version_def worker_chunk_write_schema_id_def
      worker_chunk_worker_indexes_def split: option.splits)

lemma worker_step_inv:
  assumes "worker_step cr s s'" "worker_inv cr s"
  shows "worker_inv cr s'"
  using assms
proof (induction rule: worker_step.induct)
  case (step_check_continuity b check)
  then show ?case
    by (simp add: worker_check_continuity_def worker_holds_def)
next
  case (step_register_write_schema b w tables)
  moreover obtain schemas where "fst (register_write_schema w tables b) = b\<lparr>wb_write_schemas := schemas\<rparr>"
    using register_write_schema_fields by blast
  ultimately show ?case
    using register_write_schema_inv [of cr b w tables] by simp
next
  case (step_add_worker p st ts b b')
  from worker_add_fields [OF step_add_worker(1,2)] obtain rng identity headers where
    "b' = b\<lparr>wb_rng := rng, wb_common_identity := identity, wb_last_peer_id := Some p,
      wb_worker_entries := wb_worker_entries b @
        [(cr_to_bytes cr p, \<lparr>we_worker_id = cr_to_bytes cr p, we_status = status_to_fb st,
          we_encrypted_headers = headers\<rparr>)]\<rparr>" "\<not> out_of_order (wb_last_peer_id b) p"
    by blast
  with builder_inv_add [OF _ _ this(1) _ this(2)] step_add_worker(3) show ?case
    by simp
next
  case (step_add_sealed p st identity nonce ciphertext b b')
  let ?e = "\<lparr>we_worker_id = cr_to_bytes cr p, we_status = status_to_fb st,
    we_encrypted_headers = Some \<lparr>eh_identity = identity, eh_nonce = nonce, eh_ciphertext = ciphertext\<rparr>\<rparr>"
  from worker_add_sealed_fields [OF step_add_sealed(1,2)]
  have b': "b' = b\<lparr>wb_rng := wb_rng b, wb_common_identity := wb_common_identity b,
      wb_last_peer_id := Some p, wb_worker_entries := wb_worker_entries b @ [(cr_to_bytes cr p, ?e)]\<rparr>"
    and ord: "\<not> out_of_order (wb_last_peer_id b) p"
    by simp_all
  from builder_inv_add [OF _ _ b' _ ord] step_add_sealed(3) show ?case
    by (simp add: b')
next
  case (step_new_dataset b id' url)
  then show ?case
    by (simp add: worker_new_dataset_def)
next
  case (step_register_generation b db v url)
  then show ?case
    using register_generation_inv [of cr b v url] by simp
next
  case (step_new_chunk b b' cb db)
  then show ?case
    by (auto simp: worker_new_chunk_def staged_ok_def)
next
  case (step_chunk_worker_indexes b db cb ws)
  then show ?case
    using staged_ok_setters(6) [of b cb ws] by (simp add: worker_chunk_worker_indexes_def)
next
  case (step_tables_present tables b cb b' cb' db)
  then show ?case
    using staged_ok_tables_present [of b cb tables b' cb'] tables_present_staged [of tables b cb b']
    by auto
next
  case (step_tables_present_rejected tables b cb b' e db)
  then show ?case
    using tables_present_staged [of tables b cb b'] by auto
next
  case (step_chunk_finish b cb b' r db)
  then show ?case
    using builder_inv_chunk_finish [of cr b cb b' r] by simp
next
  case (step_dataset_finish db b b' r)
  then show ?case
    using worker_inv_dataset_finish [of cr b db b' r] by simp
next
  case (step_dataset_drop b db)
  then show ?case
    using builder_inv_discard [of cr b]
    by (auto simp: worker_dataset_drop_def discard_dataset_def intro!: worker_holds_Nil)
qed (simp_all add: staged_ok_setters)

lemma worker_reachable_inv: "worker_reachable cr s \<Longrightarrow> worker_inv cr s"
proof (induction rule: worker_reachable.induct)
  case (reach_new secret rng)
  then show ?case
    using builder_inv_new [of cr secret rng]
    by (auto simp: worker_builder_new_def split: prod.splits)
next
  case (reach_step s s')
  then show ?case
    using worker_step_inv by blast
qed

end
