(* ===== verification/Samples.thy ===== *)
theory Samples
  imports Worker_Rows
begin

text \<open>
  Concrete values on which the properties of the assignment builders and readers are exercised: a
  peer-id codec and a transparent stand-in for the cryptography, chunk identifiers, and chunk
  descriptions with and without a table bitmap.
\<close>

definition sample_to_bytes :: "u8 \<Rightarrow> u8 list" where
  "sample_to_bytes p = replicate 37 0 @ [p]"

definition sample_from_bytes :: "u8 list \<Rightarrow> u8 option" where
  "sample_from_bytes bs = (if length bs = 38 then Some (bs ! 37) else None)"

text \<open>Enough of a JSON parser for the two-field object of the headers: the parts between quotes.\<close>

fun split_quotes :: "string \<Rightarrow> string \<Rightarrow> string list" where
  "split_quotes acc [] = [acc]"
| "split_quotes acc (c # cs) =
    (if c = CHR 0x22 then acc # split_quotes [] cs else split_quotes (acc @ [c]) cs)"

definition sample_json :: "string \<Rightarrow> (string \<times> string option) list option option" where
  "sample_json s =
    (case split_quotes [] s of
       [_, k1, _, v1, _, k2, _, v2, _] \<Rightarrow> Some (Some [(k1, Some v1), (k2, Some v2)])
     | _ \<Rightarrow> None)"

definition sample_crypto :: "(u8, u8, nat) crypto" where
  "sample_crypto =
    \<lparr>cr_to_bytes = sample_to_bytes, cr_to_string = (\<lambda>p. show_nat (unat p)),
     cr_hmac_sha256 = (\<lambda>key msg. key @ msg), cr_base64 = string_of_bytes,
     cr_urlencode = string_of_bytes, cr_to_montgomery = (\<lambda>bs. Some bs),
     cr_generate_key = (\<lambda>n. (7, Suc n)), cr_public_key = (\<lambda>sk. replicate 31 0 @ [sk]),
     cr_generate_nonce = (\<lambda>n. (replicate 24 (of_nat n), Suc n)),
     cr_box_encrypt = (\<lambda>pk sk nonce msg. Some msg),
     cr_box_decrypt = (\<lambda>pk sk nonce msg. Some msg),
     cr_parse_json = sample_json\<rparr>"

lemma sample_codec: "codec_ok sample_to_bytes sample_from_bytes p"
  by (simp add: codec_ok_def sample_to_bytes_def sample_from_bytes_def WORKER_ID_LEN_def nth_append)

lemma sample_crypto_to_bytes [simp]: "cr_to_bytes sample_crypto = sample_to_bytes"
  by (simp add: sample_crypto_def)

lemma length_sample_to_bytes [simp]: "length (sample_to_bytes p) = WORKER_ID_LEN"
  by (simp add: sample_to_bytes_def WORKER_ID_LEN_def)

text \<open>Three contiguous chunks in two top directories.\<close>

definition sample_chunk_1 :: data_chunk where
  "sample_chunk_1 = the (data_chunk_new 0 0 99 ''aaaaa'')"

definition sample_chunk_2 :: data_chunk where
  "sample_chunk_2 = the (data_chunk_new 0 100 199 ''bbbbbb'')"

definition sample_chunk_3 :: data_chunk where
  "sample_chunk_3 = the (data_chunk_new 200 200 299 ''c_c_c'')"

lemma sample_chunks_code [code]:
  "sample_chunk_1 = \<lparr>dc_top = 0, dc_first_block = 0, dc_last_block = 99,
    dc_last_hash = [97, 97, 97, 97, 97, 0, 0, 0]\<rparr>"
  "sample_chunk_2 = \<lparr>dc_top = 0, dc_first_block = 100, dc_last_block = 199,
    dc_last_hash = [98, 98, 98, 98, 98, 98, 0, 0]\<rparr>"
  "sample_chunk_3 = \<lparr>dc_top = 200, dc_first_block = 200, dc_last_block = 299,
    dc_last_hash = [99, 95, 99, 95, 99, 0, 0, 0]\<rparr>"
  by code_simp+

lemma sample_chunks_wf [simp]: "dc_wf sample_chunk_1" "dc_wf sample_chunk_2" "dc_wf sample_chunk_3"
  by code_simp+

definition sample_specs :: "worker_spec list" where
  "sample_specs =
    [\<lparr>ws_id = sample_chunk_1, ws_size = 10, ws_version = 0, ws_schema = 7, ws_tables = None,
      ws_workers = [0, 1]\<rparr>,
     \<lparr>ws_id = sample_chunk_2, ws_size = 20, ws_version = 3, ws_schema = 7,
      ws_tables = Some [''blocks'', ''logs''], ws_workers = [1]\<rparr>,
     \<lparr>ws_id = sample_chunk_3, ws_size = 30, ws_version = 0, ws_schema = 7, ws_tables = Some [],
      ws_workers = []\<rparr>]"

lemma sample_specs_wf: "\<forall>s \<in> set sample_specs. dc_wf (ws_id s)"
  by (simp add: sample_specs_def)

definition sample_roster :: "string list" where
  "sample_roster = [''blocks'', ''logs'', ''traces'']"

text \<open>A builder with one write schema and one generation registered, and nothing staged.\<close>

definition sample_builder :: "(u8, u8, nat) worker_builder" where
  "sample_builder =
    fst (register_generation 3 ''_bf/x''
      (fst (register_write_schema 7 sample_roster (worker_builder_new sample_crypto ''secret'' 0))))"

definition sample_staged :: "(u8, u8, nat) worker_builder" where
  "sample_staged = the (stage_all worker_stage sample_specs sample_builder)"

definition sample_dataset_builder :: worker_dataset_builder where
  "sample_dataset_builder = worker_new_dataset ''s3://a'' ''https://a.io''"

definition sample_emitted :: "(u8, u8, nat) worker_builder" where
  "sample_emitted =
    (case worker_dataset_finish sample_dataset_builder sample_staged of Return (b, r) \<Rightarrow> b)"

text \<open>Their values, computed once.\<close>

lemma sample_builder_code [code]:
  "sample_builder =
    \<lparr>wb_rng = 1, wb_last_block = None, wb_all_datasets = [], wb_worker_entries = [],
     wb_last_peer_id = None, wb_cloudflare_storage_secret = ''secret'', wb_common_identity = None,
     wb_common_secret_key = 7, wb_check_continuity = True,
     wb_write_schemas = [(7, [''blocks'', ''logs'', ''traces''])],
     wb_current_generations = [(3, ''_bf/x'')], wb_columns = worker_columns_default,
     wb_staged_worker_indexes = [], wb_staged_tables_present = []\<rparr>"
  by code_simp

lemma sample_stage_all: "stage_all worker_stage sample_specs sample_builder = Some sample_staged"
proof -
  have "stage_all worker_stage sample_specs sample_builder \<noteq> None"
    by code_simp
  then show ?thesis
    by (auto simp: sample_staged_def)
qed

lemma sample_staged_code [code]:
  "sample_staged = sample_builder
    \<lparr>wb_last_block := Some 299,
     wb_columns :=
       \<lparr>wc_first_blocks = [0, 100, 200], wc_block_deltas = [99, 99, 99],
        wc_hashes = [[97, 97, 97, 97, 97, 0, 0, 0], [98, 98, 98, 98, 98, 98, 0, 0], [99, 95, 99, 95, 99, 0, 0, 0]],
        wc_tops = [\<lparr>tr_first_chunk_index = 0, tr_top = 0\<rparr>, \<lparr>tr_first_chunk_index = 2, tr_top = 200\<rparr>],
        wc_sizes = [10, 20, 30], wc_write_schema_ids = [7, 7, 7], wc_versions = [0, 3, 0],
        wc_tables_present = [3, 0], wc_tables_present_ends = [0, 1, 2], wc_any_tables_trimmed = True,
        wc_worker_ends = [2, 3, 3], wc_worker_indexes = [0, 1, 1]\<rparr>,
     wb_staged_worker_indexes := [], wb_staged_tables_present := [0]\<rparr>"
  by code_simp

lemma sample_finish:
  "worker_dataset_finish sample_dataset_builder sample_staged = Return (sample_emitted, Ok ())"
proof -
  have "case worker_dataset_finish sample_dataset_builder sample_staged of
      Return (b, Ok _) \<Rightarrow> True | _ \<Rightarrow> False"
    by code_simp
  then show ?thesis
    by (auto simp: sample_emitted_def split: outcome.splits prod.splits result.splits)
qed

lemma sample_emitted_code [code]:
  "sample_emitted = sample_staged
    \<lparr>wb_last_block := None,
     wb_all_datasets :=
       [\<lparr>wd_id = ''s3://a'', wd_last_block = 299, wd_base_url = ''https://a.io'',
         wd_generations = Some [\<lparr>ge_version = 3, ge_base_url = ''_bf/x''\<rparr>],
         wd_first_blocks = [0, 100, 200], wd_block_deltas = [99, 99, 99],
         wd_hashes = [[97, 97, 97, 97, 97, 0, 0, 0], [98, 98, 98, 98, 98, 98, 0, 0], [99, 95, 99, 95, 99, 0, 0, 0]],
         wd_tops = [\<lparr>tr_first_chunk_index = 0, tr_top = 0\<rparr>, \<lparr>tr_first_chunk_index = 2, tr_top = 200\<rparr>],
         wd_sizes = [10, 20, 30], wd_write_schema_ids = [7, 7, 7],
         wd_tables_present_offsets = Some [0, 0, 1, 2], wd_tables_present = Some [3, 0],
         wd_versions = Some [0, 3, 0], wd_worker_offsets = [0, 2, 3, 3],
         wd_worker_indexes = [0, 1, 1]\<rparr>],
     wb_current_generations := [], wb_columns := worker_columns_default\<rparr>"
  by code_simp

lemma sample_clean:
  "wb_columns sample_builder = worker_columns_default" "wb_last_block sample_builder = None"
  by code_simp+

end
