(* ===== verification/Worker_Properties.thy ===== *)
theory Worker_Properties
  imports Worker_Trace Samples
begin

text \<open>
  The properties of the worker-facing assignment: the round trip from builder to reader, the table
  bitmap, download urls, holdings, worker lookup, sealed headers, and what every reachable builder
  guarantees about the assignment it finishes.
\<close>

section \<open>Round trip\<close>

lemma staged_emitted:
  assumes "wb_columns b = worker_columns_default" "wb_last_block b = None"
    and "\<forall>s \<in> set specs. dc_wf (ws_id s)" "stage_all worker_stage specs b = Some b1"
    and "worker_dataset_finish db b1 = Return (b2, Ok ())"
  obtains d where "wb_all_datasets b2 = wb_all_datasets b1 @ [d]" "wd_id d = wdb_id db"
    "wd_base_url d = wdb_base_url db"
    "emitted (wb_write_schemas b1) (wb_current_generations b1) d specs"
    "wb_write_schemas b2 = wb_write_schemas b1"
proof -
  have "worker_holds b1 ([] @ specs)"
    by (rule worker_stager.holds_stage_all [OF worker_holds_Nil [OF assms(1,2)] assms(3,4)])
  then have "worker_holds b1 specs"
    by simp
  from worker_finish_Ok [OF this assms(5)] obtain d where
    d: "b2 = b1\<lparr>wb_columns := worker_columns_default, wb_last_block := None,
        wb_all_datasets := wb_all_datasets b1 @ [d], wb_current_generations := []\<rparr>"
      "wd_id d = wdb_id db" "wd_base_url d = wdb_base_url db"
      "emitted (wb_write_schemas b1) (wb_current_generations b1) d specs" .
  show ?thesis
    by (rule that [of d]) (simp_all add: d)
qed

text \<open>
  C1: Chunks staged through the worker builder, and a dataset emitted from them, read back exactly.
  The emitted dataset passes the reader's column checks, has one row per staged chunk in order, and
  every accessor of row \<open>i\<close> (first and last block, size, version, write schema, top directory, chunk
  id, worker indexes) returns what chunk \<open>i\<close> was staged with, without panicking. In particular the id
  rebuilt from the columns is the printed form of the chunk's identifier.
\<close>
theorem worker_roundtrip:
  assumes "wb_columns b = worker_columns_default" "wb_last_block b = None"
    and "\<forall>s \<in> set specs. dc_wf (ws_id s)" "stage_all worker_stage specs b = Some b1"
    and "worker_dataset_finish db b1 = Return (b2, Ok ())"
  shows "\<exists>d. wb_all_datasets b2 = wb_all_datasets b1 @ [d] \<and>
    wd_id d = wdb_id db \<and> worker_check_dataset d = Ok () \<and>
    worker_chunk_count d = length specs \<and>
    (\<forall>i < length specs. \<exists>k. worker_chunk_at d (of_nat i) = Some k \<and>
       wk_first_block k = Return (dc_first_block (ws_id (specs ! i))) \<and>
       wk_last_block k = Return (dc_last_block (ws_id (specs ! i))) \<and>
       wk_size k = Return (ws_size (specs ! i)) \<and>
       wk_version k = Return (ws_version (specs ! i)) \<and>
       wk_write_schema_id k = Return (ws_schema (specs ! i)) \<and>
       wk_top k = Return (dc_top (ws_id (specs ! i))) \<and>
       wk_id k = outcome_map Some (data_chunk_display (ws_id (specs ! i))) \<and>
       wk_worker_indexes k = Return (ws_workers (specs ! i)))"
proof -
  obtain d where d: "wb_all_datasets b2 = wb_all_datasets b1 @ [d]" "wd_id d = wdb_id db"
      "wd_base_url d = wdb_base_url db"
    and em: "emitted (wb_write_schemas b1) (wb_current_generations b1) d specs"
    and sch: "wb_write_schemas b2 = wb_write_schemas b1"
    by (rule staged_emitted [OF assms(1-5)])
  have "worker_chunk_count d = length specs"
    using em by (simp add: worker_chunk_count_def emitted_def)
  then show ?thesis
    using d emitted_check [OF em] row_chunk_at [OF em] row_fields [OF em] row_last_block [OF em]
      row_version [OF em] row_top [OF em] row_id [OF em] row_worker_indexes [OF em]
    by (intro exI [of _ d]) auto
qed

lemmas sample_run = sample_clean sample_specs_wf sample_stage_all sample_finish

theorem worker_roundtrip_witness:
  "\<exists>d. wb_all_datasets sample_emitted = wb_all_datasets sample_staged @ [d] \<and>
    worker_check_dataset d = Ok () \<and> worker_chunk_count d = length sample_specs"
  using worker_roundtrip [OF sample_run] by blast

text \<open>
  C37: The tables of a chunk survive the bitmap. When the dataset of the staged chunks is read from the
  finished assignment, \<^verbatim>\<open>chunk_tables\<close> gives for chunk \<open>i\<close> exactly the table list it was staged with,
  or the whole roster of its write schema when it was staged without one. The bitmap bytes of one
  dataset are assumed to fit their 32-bit offsets, and \<^verbatim>\<open>lookup_by_key\<close> to find keys in sorted
  vectors.
\<close>
theorem worker_roundtrip_tables:
  assumes "wb_columns b = worker_columns_default" "wb_last_block b = None"
    and "\<forall>s \<in> set specs. dc_wf (ws_id s)" "stage_all worker_stage specs b = Some b1"
    and "worker_dataset_finish db b1 = Return (b2, Ok ())"
    and "key_search lk" "rosters_ok (wb_write_schemas b1)"
    and "length (concat (map (spec_bits (wb_write_schemas b1)) specs)) \<le> U32_MAX"
    and "i < length specs"
  shows "\<exists>d k. last (wa_datasets (worker_builder_finish b2)) = d \<and> worker_chunk_at d (of_nat i) = Some k \<and>
    chunk_tables lk (worker_builder_finish b2) k =
      Return (Some (case ws_tables (specs ! i) of
        None \<Rightarrow> the (map_of (wb_write_schemas b1) (ws_schema (specs ! i)))
      | Some tables \<Rightarrow> tables))"
proof -
  obtain d where d: "wb_all_datasets b2 = wb_all_datasets b1 @ [d]" "wd_id d = wdb_id db"
      "wd_base_url d = wdb_base_url db"
    and em: "emitted (wb_write_schemas b1) (wb_current_generations b1) d specs"
    and sch: "wb_write_schemas b2 = wb_write_schemas b1"
    by (rule staged_emitted [OF assms(1-5)])
  have "last (wa_datasets (worker_builder_finish b2)) = d"
    by (simp add: worker_builder_finish_def d)
  moreover have "chunk_tables lk (worker_builder_finish b2) (row d i) =
      Return (Some (spec_table_list (wb_write_schemas b1) (specs ! i)))"
    using row_chunk_tables [OF assms(6) em [folded sch] assms(9)] assms(7,8) by (simp add: sch)
  ultimately show ?thesis
    using row_chunk_at [OF em assms(9)] by (simp add: spec_table_list_def)
qed

theorem worker_roundtrip_tables_witness:
  "\<exists>d k. last (wa_datasets (worker_builder_finish sample_emitted)) = d \<and>
    worker_chunk_at d (of_nat 1) = Some k \<and>
    chunk_tables lookup_index_pure (worker_builder_finish sample_emitted) k =
      Return (Some [''blocks'', ''logs''])"
proof -
  have "rosters_ok (wb_write_schemas sample_staged)"
    "length (concat (map (spec_bits (wb_write_schemas sample_staged)) sample_specs)) \<le> U32_MAX"
    "1 < length sample_specs" "ws_tables (sample_specs ! 1) = Some [''blocks'', ''logs'']"
    by code_simp+
  with worker_roundtrip_tables [OF sample_run index_search.key_search_axioms, of 1] show ?thesis
    by simp
qed

text \<open>
  The download url of a chunk is the dataset's base url, then for a rewritten chunk the prefix
  registered for its version, then the chunk's printed identifier, with single separators between.
\<close>
theorem worker_roundtrip_url:
  assumes "wb_columns b = worker_columns_default" "wb_last_block b = None"
    and "\<forall>s \<in> set specs. dc_wf (ws_id s)" "stage_all worker_stage specs b = Some b1"
    and "worker_dataset_finish db b1 = Return (b2, Ok ())"
    and "key_search lk" "btree_inv (wb_current_generations b1)" "i < length specs"
  shows "\<exists>d k id'. last (wb_all_datasets b2) = d \<and> worker_chunk_at d (of_nat i) = Some k \<and>
    data_chunk_display (ws_id (specs ! i)) = Return id' \<and>
    wk_url lk k = Return (Some (push_separator
      (if ws_version (specs ! i) = 0 then wdb_base_url db
       else push_segment (wdb_base_url db)
         (the (map_of (wb_current_generations b1) (ws_version (specs ! i))))) @ id'))"
proof -
  obtain d where d: "wb_all_datasets b2 = wb_all_datasets b1 @ [d]" "wd_id d = wdb_id db"
      "wd_base_url d = wdb_base_url db"
    and em: "emitted (wb_write_schemas b1) (wb_current_generations b1) d specs"
    and sch: "wb_write_schemas b2 = wb_write_schemas b1"
    by (rule staged_emitted [OF assms(1-5)])
  obtain id' where "data_chunk_display (ws_id (specs ! i)) = Return id'"
    using data_chunk_display_wf assms(3,8) by fastforce
  then show ?thesis
    using row_url [OF assms(6) em assms(8,7)] row_chunk_at [OF em assms(8)] d
    by (simp add: expected_base_def)
qed

theorem worker_roundtrip_url_witness:
  "\<exists>d k. last (wb_all_datasets sample_emitted) = d \<and> worker_chunk_at d (of_nat 1) = Some k \<and>
    wk_url lookup_index_pure k =
      Return (Some ''https://a.io/_bf/x/0000000000/0000000100-0000000199-bbbbbb'')"
proof -
  have inv: "btree_inv (wb_current_generations sample_staged)" "1 < length sample_specs"
    by code_simp+
  have eqs: "ws_version (sample_specs ! 1) = 3" "ws_id (sample_specs ! 1) = sample_chunk_2"
    "push_separator (push_segment (wdb_base_url sample_dataset_builder)
      (the (map_of (wb_current_generations sample_staged) 3))) = ''https://a.io/_bf/x/''"
    "data_chunk_display sample_chunk_2 = Return ''0000000000/0000000100-0000000199-bbbbbb''"
    by code_simp+
  from worker_roundtrip_url [OF sample_run index_search.key_search_axioms inv] eqs show ?thesis
    by simp
qed

end
