(* ===== verification/Worker_Guarantees.thy ===== *)
theory Worker_Guarantees
  imports Worker_Lookup Worker_Properties
begin

text \<open>
  The guarantees of the worker-facing assignment that do not depend on one staged dataset: what
  loading checks, which workers and chunks are found, what every reachable builder finishes, and what
  a rejected or abandoned dataset leaves behind.
\<close>

section \<open>Checked assignments never make an accessor panic\<close>

lemma worker_check_dataset_Ok:
  "worker_check_dataset d = Ok () \<longleftrightarrow>
    (let n = length (wd_first_blocks d) in
     length (wd_block_deltas d) = n \<and> length (wd_hashes d) = n \<and> length (wd_sizes d) = n \<and>
     length (wd_write_schema_ids d) = n \<and> length (wd_worker_offsets d) - 1 = n \<and>
     (\<forall>c. wd_versions d = Some c \<longrightarrow> length c = n) \<and>
     (\<forall>c. wd_tables_present_offsets d = Some c \<longrightarrow> length c - 1 = n) \<and>
     wd_tops d \<noteq> [] \<and> tr_first_chunk_index (hd (wd_tops d)) = 0)"
  unfolding worker_check_dataset_def check_columns_Ok
  by (auto simp: worker_dense_def first_run_def Let_def hd_conv_nth split: option.splits if_splits)

lemma check_datasets_Ok: "check_datasets check ds = Ok () \<longleftrightarrow> (\<forall>d \<in> set ds. check d = Ok ())"
  by (induction check ds rule: check_datasets.induct) (auto split: result.splits)

definition no_panic :: "'a outcome \<Rightarrow> bool" where
  "no_panic x = (\<exists>a. x = Return a)"

lemma no_panic_bind [simp]:
  "no_panic (outcome_bind x f) \<longleftrightarrow> (\<exists>a. x = Return a \<and> no_panic (f a))"
  by (auto simp: no_panic_def)

lemma no_panic_simps [simp]:
  "no_panic (Return a)" "no_panic (outcome_map g x) \<longleftrightarrow> no_panic x"
  "no_panic (vec_get xs i) \<longleftrightarrow> i < length xs" "no_panic (expect m y) \<longleftrightarrow> y \<noteq> None"
  by (auto simp: no_panic_def vec_get_def expect_def split: option.splits)

text \<open>
  C11: Loading is enough. On any dataset that passed the checks of \<^verbatim>\<open>from_owned\<close>, whatever its
  columns contain otherwise, no accessor of a chunk with an index below the chunk count panics: first
  and last block, size, version, write schema, top, hash, id, table bitmap, url and worker indexes all
  return.
\<close>
theorem worker_accessors_total:
  assumes "worker_from_owned verify buf = Ok a" "d \<in> set (wa_datasets a)"
    and "worker_chunk_at d index = Some k"
  shows "no_panic (wk_first_block k) \<and> no_panic (wk_last_block k) \<and> no_panic (wk_size k) \<and>
    no_panic (wk_version k) \<and> no_panic (wk_write_schema_id k) \<and> no_panic (wk_top k) \<and>
    no_panic (wk_hash k) \<and> no_panic (wk_id k) \<and> no_panic (wk_tables_present k) \<and>
    no_panic (wk_url lk k) \<and> no_panic (wk_worker_indexes k)"
proof -
  have "check_datasets worker_check_dataset (wa_datasets a) = Ok ()"
    using assms(1) by (auto simp: worker_from_owned_def split: result.splits)
  then have ok: "worker_check_dataset d = Ok ()"
    using assms(2) by (simp add: check_datasets_Ok)
  have k: "k = \<lparr>wk_dataset = d, wk_index = index\<rparr>" "unat index < length (wd_first_blocks d)"
    using assms(3) by (auto simp: worker_chunk_at_def worker_chunk_count_def split: if_splits)
  note cols = ok [unfolded worker_check_dataset_Ok Let_def]
  have base: "no_panic (wk_first_block k)" "no_panic (wk_last_block k)" "no_panic (wk_size k)"
      "no_panic (wk_write_schema_id k)" "no_panic (wk_hash k)"
    using cols k by (simp_all add: wk_first_block_def wk_last_block_def wk_size_def
        wk_write_schema_id_def wk_hash_def)
  have more: "no_panic (wk_version k)" "no_panic (wk_tables_present k)" "no_panic (wk_worker_indexes k)"
    using cols k by (auto simp: wk_version_def wk_tables_present_def wk_worker_indexes_def
        csr_slice_def vec_get_def split: option.splits)
  have tp: "no_panic (wk_top k)"
    using cols k top_at_defined [of "wd_tops d" index] by (simp add: wk_top_def)
  obtain t f l h v where vals: "wk_top k = Return t" "wk_first_block k = Return f"
    "wk_last_block k = Return l" "wk_hash k = Return h" "wk_version k = Return v"
    using tp base more unfolding no_panic_def by metis
  have "no_panic (wk_id k)" "no_panic (wk_url lk k)"
    by (auto simp: wk_id_def wk_url_def vals split: option.splits)
  with base more tp show ?thesis
    by simp
qed

definition sample_loaded :: worker_assignment where
  "sample_loaded = worker_builder_finish sample_emitted"

lemma sample_loads: "worker_from_owned Ok sample_loaded = Ok sample_loaded"
  by code_simp

theorem worker_accessors_total_witness:
  "\<exists>d k. d \<in> set (wa_datasets sample_loaded) \<and> worker_chunk_at d 2 = Some k \<and>
    no_panic (wk_id k) \<and> no_panic (wk_url lookup_index_pure k)"
proof -
  have d: "hd (wa_datasets sample_loaded) \<in> set (wa_datasets sample_loaded)"
    "worker_chunk_at (hd (wa_datasets sample_loaded)) 2 \<noteq> None"
    by code_simp+
  then obtain k where k: "worker_chunk_at (hd (wa_datasets sample_loaded)) 2 = Some k"
    by blast
  from worker_accessors_total [OF sample_loads d(1) k, of lookup_index_pure] d(1) k show ?thesis
    by blast
qed

section \<open>Holdings\<close>

text \<open>
  C10: A worker finds exactly its chunks. For a dataset emitted from staged chunks, scanning it on
  behalf of the worker with index \<open>w\<close> yields, in chunk order, the rows of precisely those chunks that
  were staged with \<open>w\<close> among their worker indexes.
\<close>
theorem worker_holdings_exact:
  assumes "wb_columns b = worker_columns_default" "wb_last_block b = None"
    and "\<forall>s \<in> set specs. dc_wf (ws_id s)" "stage_all worker_stage specs b = Some b1"
    and "worker_dataset_finish db b1 = Return (b2, Ok ())"
  shows "\<exists>d. wb_all_datasets b2 = wb_all_datasets b1 @ [d] \<and>
    holdings w d = Return (map (\<lambda>i. \<lparr>wk_dataset = d, wk_index = of_nat i\<rparr>)
      (filter (\<lambda>i. aw_index w \<in> set (ws_workers (specs ! i))) [0 ..< length specs]))"
proof -
  obtain d where d: "wb_all_datasets b2 = wb_all_datasets b1 @ [d]" "wd_id d = wdb_id db"
      "wd_base_url d = wdb_base_url db"
    and em: "emitted (wb_write_schemas b1) (wb_current_generations b1) d specs"
    and sch: "wb_write_schemas b2 = wb_write_schemas b1"
    by (rule staged_emitted [OF assms])
  with holdings_emitted [OF em, of w] show ?thesis
    by blast
qed

theorem worker_holdings_exact_witness:
  "\<exists>d. wb_all_datasets sample_emitted = wb_all_datasets sample_staged @ [d] \<and>
    outcome_map length (holdings \<lparr>aw_assignment = sample_loaded,
      aw_reader = \<lparr>we_worker_id = [], we_status = 0, we_encrypted_headers = None\<rparr>,
      aw_index = 1\<rparr> d) = Return 2"
proof -
  let ?w = "\<lparr>aw_assignment = sample_loaded,
      aw_reader = \<lparr>we_worker_id = [], we_status = 0, we_encrypted_headers = None\<rparr>, aw_index = 1\<rparr>"
  have "length (filter (\<lambda>i. (1 :: u16) \<in> set (ws_workers (sample_specs ! i)))
      [0 ..< length sample_specs]) = 2"
    by code_simp
  with worker_holdings_exact [OF sample_run, of ?w] show ?thesis
    by auto
qed

section \<open>Worker lookup\<close>

lemma add_all_entries:
  assumes "\<forall>w \<in> set ws. length (cr_to_bytes cr (fst w)) = WORKER_ID_LEN"
    and "add_all (\<lambda>(p, st, ts). worker_add_worker_with_timestamp cr p st ts) ws b = Return b'"
  shows "map (\<lambda>e. (we_worker_id (snd e), we_status (snd e))) (wb_worker_entries b') =
    map (\<lambda>e. (we_worker_id (snd e), we_status (snd e))) (wb_worker_entries b) @
    map (\<lambda>w. (cr_to_bytes cr (fst w), status_to_fb (fst (snd w)))) ws"
  using assms
proof (induction ws arbitrary: b)
  case (Cons w ws)
  obtain p st ts where w: "w = (p, st, ts)"
    by (cases w)
  with Cons.prems(2) obtain b1 where b1: "worker_add_worker_with_timestamp cr p st ts b = Return b1"
    "add_all (\<lambda>(p, st, ts). worker_add_worker_with_timestamp cr p st ts) ws b1 = Return b'"
    by auto
  have "length (cr_to_bytes cr p) = WORKER_ID_LEN"
    using Cons.prems(1) w by simp
  from worker_add_fields [OF b1(1) this] Cons.IH [OF _ b1(2)] Cons.prems(1) w show ?case
    by auto
qed simp

text \<open>
  C23: Every worker added in ascending order is found again. After adding workers to an empty registry
  and finishing the assignment, \<^verbatim>\<open>get_worker\<close> returns for the \<open>i\<close>-th worker's peer id that peer id, the
  status it was added with and the index \<open>i\<close> cast to 16 bits, which is \<open>i\<close> itself as long as there are at
  most 65536 workers; for a peer id that was not added it returns \<^const>\<open>None\<close>. The peer ids are assumed to
  be 38 bytes that parse back (ed25519 identities).
\<close>
theorem worker_lookup:
  assumes "wb_worker_entries b = []" "wb_last_peer_id b = None"
    and "\<forall>(p, st, ts) \<in> set ws. codec_ok (cr_to_bytes cr) from_bytes p"
    and "add_all (\<lambda>(p, st, ts). worker_add_worker_with_timestamp cr p st ts) ws b = Return b'"
  shows "(\<forall>i < length ws. \<exists>w.
      worker_get_worker from_bytes (worker_builder_finish b') (fst (ws ! i)) = Return (Some w) \<and>
      aw_index w = of_nat i \<and> (length ws \<le> 65536 \<longrightarrow> unat (aw_index w) = i) \<and>
      aw_peer_id from_bytes w = Some (fst (ws ! i)) \<and> aw_status w = fst (snd (ws ! i))) \<and>
    (\<forall>p. p \<notin> fst ` set ws \<longrightarrow>
      worker_get_worker from_bytes (worker_builder_finish b') p = Return None)"
proof (intro conjI allI impI)
  let ?a = "worker_builder_finish b'"
  have len: "\<forall>w \<in> set ws. length (cr_to_bytes cr (fst w)) = WORKER_ID_LEN"
    using assms(3) by (auto simp: codec_ok_def)
  have "registered (cr_to_bytes cr) (map fst (wb_worker_entries b')) (wb_last_peer_id b') (map fst ws)"
    using worker_reg.registered_add_all [of cr b "[]", OF _ len assms(4)] assms(1,2) by simp
  then have sorted: "sorted_wrt (<) (map fst ws)"
    by (simp add: registered_def)
  have entries: "map (\<lambda>e. (we_worker_id e, we_status e)) (wa_workers ?a) =
      map (\<lambda>w. (cr_to_bytes cr (fst w), status_to_fb (fst (snd w)))) ws"
    using add_all_entries [OF len assms(4)] assms(1) by (simp add: worker_builder_finish_def comp_def)
  have codec: "\<forall>w \<in> set ws. codec_ok (cr_to_bytes cr) from_bytes (fst w)"
    using assms(3) by auto
  note found = find_worker [OF entries sorted codec]
  show "\<exists>w. worker_get_worker from_bytes ?a (fst (ws ! i)) = Return (Some w) \<and>
      aw_index w = of_nat i \<and> (length ws \<le> 65536 \<longrightarrow> unat (aw_index w) = i) \<and>
      aw_peer_id from_bytes w = Some (fst (ws ! i)) \<and> aw_status w = fst (snd (ws ! i))"
    if "i < length ws" for i
    using found(1) found(2-4) [OF that] that
    by (simp add: worker_get_worker_def aw_peer_id_def aw_status_def unat_of_nat take_bit_nat_eq_self_iff)
  show "worker_get_worker from_bytes ?a p = Return None" if "p \<notin> fst ` set ws" for p
    using found(5) [OF that] by (simp add: worker_get_worker_def)
qed

definition sample_workers :: "(u8 \<times> worker_status \<times> nat) list" where
  "sample_workers = [(3, StatusOk, 100), (5, Unreliable, 100), (9, DeprecatedVersion, 100)]"

theorem worker_lookup_witness:
  "\<exists>b' w. add_all (\<lambda>(p, st, ts). worker_add_worker_with_timestamp sample_crypto p st ts)
      sample_workers (worker_builder_new sample_crypto ''s'' 0) = Return b' \<and>
    worker_get_worker sample_from_bytes (worker_builder_finish b') 5 = Return (Some w) \<and>
    unat (aw_index w) = 1 \<and> aw_status w = Unreliable \<and>
    worker_get_worker sample_from_bytes (worker_builder_finish b') 4 = Return None"
proof -
  let ?b = "worker_builder_new sample_crypto ''s'' 0"
  have clean: "wb_worker_entries ?b = []" "wb_last_peer_id ?b = None"
    by code_simp+
  have codec: "\<forall>(p, st, ts) \<in> set sample_workers. codec_ok (cr_to_bytes sample_crypto) sample_from_bytes p"
    by (simp add: sample_codec)
  have "\<exists>b'. add_all (\<lambda>(p, st, ts). worker_add_worker_with_timestamp sample_crypto p st ts)
      sample_workers ?b = Return b'"
    by (rule worker_reg.add_all_defined [of sample_crypto _ "[]"])
      (simp_all add: clean sample_workers_def)
  then obtain b' where b': "add_all (\<lambda>(p, st, ts). worker_add_worker_with_timestamp sample_crypto p st ts)
      sample_workers ?b = Return b'"
    by blast
  have "1 < length sample_workers" "length sample_workers \<le> 65536" "sample_workers ! 1 = (5, Unreliable, 100)"
    "4 \<notin> fst ` set sample_workers"
    by (simp_all add: sample_workers_def)
  with worker_lookup [OF clean codec b'] b' show ?thesis
    by fastforce
qed

section \<open>Reachable builders\<close>

text \<open>The calls of \<open>worker_stage\<close> are steps of the state machine, so staged chunks are reachable.\<close>

lemma reachable_stage:
  assumes "worker_reachable cr (b, Some db, None)" "dc_wf (ws_id s)"
    and "worker_stage s b = Return (b', r)"
  shows "worker_reachable cr (b', Some db, None)"
proof -
  obtain b0 cb0 where new: "worker_new_chunk b = (b0, cb0)"
    by (cases "worker_new_chunk b")
  define cb where "cb = worker_chunk_write_schema_id (ws_schema s) (worker_chunk_version (ws_version s)
    (worker_chunk_size (ws_size s) (worker_chunk_block_range (dc_first_block (ws_id s), dc_last_block (ws_id s))
    (worker_chunk_id (ws_id s) cb0))))"
  define b1 where "b1 = worker_chunk_worker_indexes (ws_workers s) b0"
  have "worker_reachable cr (b0, Some db, Some cb)"
    unfolding cb_def
    by (intro reach_step [OF _ step_chunk_write_schema_id] reach_step [OF _ step_chunk_version]
        reach_step [OF _ step_chunk_size] reach_step [OF _ step_chunk_block_range]
        reach_step [OF _ step_chunk_id [OF assms(2)]] reach_step [OF assms(1) step_new_chunk [OF new]])
  then have r1: "worker_reachable cr (b1, Some db, Some cb)"
    unfolding b1_def by (rule reach_step [OF _ step_chunk_worker_indexes])
  have stage: "(case ws_tables s of None \<Rightarrow> worker_chunk_finish b1 cb
      | Some tables \<Rightarrow> (case tables_present tables b1 cb of (b, Err e) \<Rightarrow> Return (b, Err e)
          | (b, Ok cb) \<Rightarrow> worker_chunk_finish b cb)) = Return (b', r)"
    using assms(3) unfolding worker_stage_def new cb_def b1_def Let_def by simp
  show ?thesis
  proof (cases "ws_tables s")
    case None
    with stage have fin: "worker_chunk_finish b1 cb = Return (b', r)"
      by simp
    show ?thesis
      by (rule reach_step [OF r1 step_chunk_finish [OF fin]])
  next
    case (Some tables)
    obtain b2 t where tp: "tables_present tables b1 cb = (b2, t)"
      by (cases "tables_present tables b1 cb")
    show ?thesis
    proof (cases t)
      case (Ok cb2)
      with Some stage tp have fin: "worker_chunk_finish b2 cb2 = Return (b', r)"
        by simp
      show ?thesis
        by (rule reach_step [OF reach_step [OF r1 step_tables_present [OF tp [unfolded Ok]]]
            step_chunk_finish [OF fin]])
    next
      case (Err e)
      with Some stage tp have "b' = b2"
        by simp
      with reach_step [OF r1 step_tables_present_rejected [OF tp [unfolded Err]]] show ?thesis
        by simp
    qed
  qed
qed

lemma reachable_stage_all:
  assumes "worker_reachable cr (b, Some db, None)" "\<forall>s \<in> set specs. dc_wf (ws_id s)"
    and "stage_all worker_stage specs b = Some b'"
  shows "worker_reachable cr (b', Some db, None)"
  using assms
proof (induction specs arbitrary: b)
  case (Cons s specs)
  then show ?case
    using reachable_stage [OF Cons.prems(1), of s]
    by (auto split: outcome.splits prod.splits result.splits)
qed simp

lemma sample_staged_reachable: "worker_reachable sample_crypto (sample_staged, Some sample_dataset_builder, None)"
proof -
  have "worker_reachable sample_crypto (sample_builder, Some sample_dataset_builder, None)"
    unfolding sample_builder_def sample_dataset_builder_def
    by (rule reach_step [OF reach_step [OF reach_step [OF reach_new step_register_write_schema]
        step_new_dataset] step_register_generation])
  from reachable_stage_all [OF this sample_specs_wf sample_stage_all] show ?thesis .
qed

lemma sample_reachable: "worker_reachable sample_crypto (sample_emitted, None, None)"
  by (rule reach_step [OF sample_staged_reachable step_dataset_finish [OF sample_finish]])

text \<open>
  A dataset with too many worker references is reachable: a further chunk is rejected, and the dataset
  is finished all the same.
\<close>

definition sample_chunk_4 :: data_chunk where
  "sample_chunk_4 = \<lparr>dc_top = 200, dc_first_block = 300, dc_last_block = 399,
    dc_last_hash = [100, 100, 100, 100, 100, 0, 0, 0]\<rparr>"

lemma overflow_reached:
  "\<exists>b. worker_reachable sample_crypto (b, None, None) \<and>
    (\<exists>d \<in> set (wb_all_datasets b). worker_check_dataset d \<noteq> Ok ())"
proof -
  obtain ws :: "u16 list" where ws: "U32_MAX < length ws"
    using length_replicate [of "Suc U32_MAX" 0] by (metis lessI)
  define s where "s = \<lparr>ws_id = sample_chunk_4, ws_size = 10, ws_version = 0, ws_schema = 7,
    ws_tables = None, ws_workers = ws\<rparr>"
  let ?p = "\<lparr>pc_top = dc_top sample_chunk_4, pc_block_range = (300, 399),
    pc_hash = dc_last_hash sample_chunk_4, pc_size = 10, pc_write_schema_id = 7, pc_version = 0\<rparr>"
  let ?b = "sample_staged\<lparr>wb_staged_tables_present := [], wb_staged_worker_indexes := ws\<rparr>"
  have wf: "dc_wf sample_chunk_4"
    by code_simp
  have four: "dc_first_block sample_chunk_4 = 300" "dc_last_block sample_chunk_4 = 399"
    by (simp_all add: sample_chunk_4_def)
  have schema: "map_of (wb_write_schemas sample_staged) 7 \<noteq> None"
    by code_simp
  have stage: "worker_stage s sample_staged = Return (push_chunk ?p ?b)"
    using schema chunk_hash_wf [OF wf] four
    by (auto simp: s_def worker_stage_def worker_new_chunk_def worker_chunk_finish_def worker_chunk_id_def
        worker_chunk_block_range_def worker_chunk_size_def worker_chunk_version_def
        worker_chunk_write_schema_id_def worker_chunk_worker_indexes_def Let_def)
  obtain b r where push: "push_chunk ?p ?b = (b, r)"
    by (rule prod.exhaust)
  have "wb_last_block b = Some 299 \<and> U32_MAX < length (wc_worker_indexes (wb_columns b)) \<and>
      wc_first_blocks (wb_columns b) = [0, 100, 200, 300] \<and>
      check_top_runs (wc_tops (wb_columns b)) = Ok ()"
    using push ws
    by (auto simp: push_chunk_def sample_staged_code sample_builder_code continuity_def Let_def
        push_bitmap_def push_top_def sample_chunk_4_def check_top_runs_def)
  then have "\<exists>b'. worker_dataset_finish sample_dataset_builder b = Return (b', Ok ()) \<and>
      (\<exists>d \<in> set (wb_all_datasets b'). U32_MAX < length (wd_worker_indexes d))"
    by (simp add: worker_dataset_finish_def emit_dataset_def worker_dataset_drop_def
        sample_dataset_builder_def worker_new_dataset_def Let_def)
  then obtain b' d where fin: "worker_dataset_finish sample_dataset_builder b = Return (b', Ok ())"
    and d: "d \<in> set (wb_all_datasets b')" "U32_MAX < length (wd_worker_indexes d)"
    by blast
  have reach: "worker_reachable sample_crypto (b', None, None)"
    using reach_step [OF reachable_stage [OF sample_staged_reachable _ stage [unfolded push]]
        step_dataset_finish [OF fin]] wf
    by (simp add: s_def)
  moreover have "worker_check_dataset d \<noteq> Ok ()"
    using worker_reachable_inv [OF reach] d by (auto simp: builder_inv_def loads_unless_overflowed_def)
  ultimately show ?thesis
    using d(1) by blast
qed

text \<open>
  C22: Whatever calls are made on the worker builder, rejected ones included and in any order the
  borrow rules allow, an assignment finished while no dataset is open loads exactly when no dataset in
  it holds more than \<^verbatim>\<open>u32::MAX\<close> worker references: every other dataset passes the column checks of
  \<^verbatim>\<open>from_owned\<close>, and one with more does not, since the chunk that exceeds the limit is rejected after its
  other columns were pushed. The write schemas are strictly sorted by id with strictly sorted table
  rosters, and the worker entries are in strictly ascending order of peer id.
\<close>
theorem worker_reachable_loads:
  assumes "worker_reachable cr (b, None, None)"
  shows "(worker_from_owned Ok (worker_builder_finish b) = Ok (worker_builder_finish b) \<longleftrightarrow>
      (\<forall>d \<in> set (wa_datasets (worker_builder_finish b)). length (wd_worker_indexes d) \<le> U32_MAX)) \<and>
    (\<forall>d \<in> set (wa_datasets (worker_builder_finish b)).
      worker_check_dataset d = Ok () \<longleftrightarrow> length (wd_worker_indexes d) \<le> U32_MAX) \<and>
    sorted_wrt (<) (map ro_write_schema_id (wa_schemas (worker_builder_finish b))) \<and>
    (\<forall>roster \<in> set (wa_schemas (worker_builder_finish b)). sorted_wrt (<) (ro_tables roster)) \<and>
    (\<exists>ps. sorted_wrt (<) ps \<and>
      map we_worker_id (wa_workers (worker_builder_finish b)) = map (cr_to_bytes cr) ps)"
proof -
  let ?a = "worker_builder_finish b"
  have inv: "builder_inv cr b"
    using worker_reachable_inv [OF assms] by simp
  have each: "\<forall>d \<in> set (wa_datasets ?a). worker_check_dataset d = Ok () \<longleftrightarrow> length (wd_worker_indexes d) \<le> U32_MAX"
    using inv by (simp add: worker_builder_finish_def builder_inv_def loads_unless_overflowed_def)
  moreover have "worker_from_owned Ok ?a = Ok ?a \<longleftrightarrow> check_datasets worker_check_dataset (wa_datasets ?a) = Ok ()"
    by (auto simp: worker_from_owned_def split: result.splits)
  moreover have "map ro_write_schema_id (wa_schemas ?a) = map fst (wb_write_schemas b)"
    by (simp add: worker_builder_finish_def create_write_schema_rosters_def comp_def case_prod_unfold)
  moreover have "\<forall>roster \<in> set (wa_schemas ?a). sorted_wrt (<) (ro_tables roster)"
    using inv by (auto simp: worker_builder_finish_def create_write_schema_rosters_def builder_inv_def
        rosters_ok_def)
  moreover obtain ps where "sorted_wrt (<) ps" "map fst (wb_worker_entries b) = map (cr_to_bytes cr) ps"
    using inv by (auto simp: builder_inv_def registered_def)
  moreover have "map fst (wb_worker_entries b) = map we_worker_id (wa_workers ?a)"
    using inv by (simp add: builder_inv_def worker_builder_finish_def)
  moreover have "sorted_wrt (<) (map fst (wb_write_schemas b))"
    using inv by (simp add: builder_inv_def rosters_ok_def btree_inv_def)
  ultimately show ?thesis
    by (auto simp: check_datasets_Ok)
qed

theorem worker_reachable_loads_witness:
  "worker_reachable sample_crypto (sample_emitted, None, None) \<and>
    worker_from_owned Ok (worker_builder_finish sample_emitted) = Ok (worker_builder_finish sample_emitted)"
proof -
  have "\<forall>d \<in> set (wa_datasets (worker_builder_finish sample_emitted)). length (wd_worker_indexes d) \<le> U32_MAX"
    by code_simp
  then show ?thesis
    using worker_reachable_loads [OF sample_reachable] sample_reachable by blast
qed

text \<open>
  A rejected or abandoned dataset leaves nothing behind. Finishing a dataset that is rejected, or
  dropping a dataset builder that was never finished, leaves the columns empty, no last block and no
  generations, and does not touch the datasets emitted before.
\<close>
theorem worker_rejected_dataset_clean:
  "(\<forall>b' e. worker_dataset_finish db b = Return (b', Err e) \<longrightarrow>
      wb_columns b' = worker_columns_default \<and> wb_last_block b' = None \<and>
      wb_current_generations b' = [] \<and> wb_all_datasets b' = wb_all_datasets b) \<and>
   (\<not> wdb_emitted db \<longrightarrow>
      wb_columns (worker_dataset_drop db b) = worker_columns_default \<and>
      wb_last_block (worker_dataset_drop db b) = None \<and>
      wb_current_generations (worker_dataset_drop db b) = [] \<and>
      wb_all_datasets (worker_dataset_drop db b) = wb_all_datasets b)"
  by (auto simp: worker_dataset_finish_def worker_dataset_drop_def discard_dataset_def emit_dataset_def
      Let_def split: if_splits result.splits)

theorem worker_rejected_dataset_clean_witness:
  "\<exists>b' e. worker_dataset_finish sample_dataset_builder sample_builder = Return (b', Err e) \<and>
    wb_current_generations sample_builder \<noteq> [] \<and> wb_current_generations b' = []"
proof -
  have "case worker_dataset_finish sample_dataset_builder sample_builder of
      Return (b', Err e) \<Rightarrow> True | _ \<Rightarrow> False"
    by code_simp
  then obtain b' e where r: "worker_dataset_finish sample_dataset_builder sample_builder = Return (b', Err e)"
    by (auto split: outcome.splits prod.splits result.splits)
  have "wb_current_generations sample_builder \<noteq> []"
    by code_simp
  with r worker_rejected_dataset_clean [of sample_dataset_builder sample_builder] show ?thesis
    by blast
qed

section \<open>Which chunks are accepted\<close>

lemma sorted_subset_positions:
  assumes "sorted_wrt (<) roster" "sorted_wrt (<) tables" "set tables \<subseteq> set (roster :: string list)"
  shows "\<exists>is. sorted_wrt (<) is \<and> (\<forall>i \<in> set is. i < length roster) \<and> tables = map ((!) roster) is"
proof -
  let ?is = "filter (\<lambda>i. roster ! i \<in> set tables) [0 ..< length roster]"
  have "map ((!) roster) ?is = filter (\<lambda>t. t \<in> set tables) (map ((!) roster) [0 ..< length roster])"
    by (simp only: filter_map comp_def)
  also have "\<dots> = filter (\<lambda>t. t \<in> set tables) roster"
    by (simp only: map_nth)
  also have "\<dots> = tables"
    using assms by (intro sorted_distinct_set_unique) (auto simp: strict_sorted_iff sorted_wrt_filter)
  finally have "tables = map ((!) roster) ?is"
    by simp
  moreover have "sorted_wrt (<) ?is"
    by (intro sorted_wrt_filter) simp
  ultimately show ?thesis
    by (intro exI [of _ ?is]) simp
qed

lemma merge_tables_complete:
  assumes "sorted_wrt (<) roster" "sorted_wrt (<) tables" "set tables \<subseteq> set roster"
  shows "\<exists>bits'. merge_tables w roster tables 0 bits = (bits', Ok ())"
  using sorted_subset_positions [OF assms] merge_tables_accepts [OF assms(1), of _ 0 w bits] by auto

lemma staged_swap:
  "b\<lparr>wb_staged_tables_present := bits, wb_staged_worker_indexes := ws\<rparr> =
    b\<lparr>wb_staged_worker_indexes := ws, wb_staged_tables_present := bits\<rparr>"
  by simp

text \<open>The pushed chunk, and the builder it is pushed into.\<close>

lemma worker_stage_push:
  assumes "dc_wf (ws_id s)" "map_of (wb_write_schemas b) (ws_schema s) = Some roster"
    and "ws_version s = 0 \<or> map_of (wb_current_generations b) (ws_version s) \<noteq> None"
    and "\<forall>tables. ws_tables s = Some tables \<longrightarrow>
      (\<exists>bits. merge_tables (ws_schema s) roster tables 0 (zero_bits roster) = (bits, Ok ()))"
  shows "\<exists>bits. worker_stage s b = Return (push_chunk \<lparr>pc_top = dc_top (ws_id s),
      pc_block_range = (dc_first_block (ws_id s), dc_last_block (ws_id s)),
      pc_hash = dc_last_hash (ws_id s), pc_size = ws_size s, pc_write_schema_id = ws_schema s,
      pc_version = ws_version s\<rparr>
      (b\<lparr>wb_staged_worker_indexes := ws_workers s, wb_staged_tables_present := bits\<rparr>))"
proof (cases "ws_tables s")
  case None
  then show ?thesis
    using assms(1-3)
    by (intro exI [of _ "[]"])
      (auto simp: worker_stage_def worker_new_chunk_def worker_chunk_id_def worker_chunk_size_def
        worker_chunk_block_range_def worker_chunk_version_def worker_chunk_write_schema_id_def
        worker_chunk_worker_indexes_def worker_chunk_finish_def chunk_hash_wf staged_swap)
next
  case (Some tables)
  with assms(4) obtain bits where
    "merge_tables (ws_schema s) roster tables 0 (zero_bits roster) = (bits, Ok ())"
    by blast
  with Some show ?thesis
    using assms(1-3)
    by (intro exI [of _ bits])
      (auto simp: worker_stage_def worker_new_chunk_def worker_chunk_id_def worker_chunk_size_def
        worker_chunk_block_range_def worker_chunk_version_def worker_chunk_write_schema_id_def
        worker_chunk_worker_indexes_def worker_chunk_finish_def chunk_hash_wf tables_present_def
        zero_bits_def staged_swap)
qed

definition continues :: "u64 option \<Rightarrow> u64 \<Rightarrow> bool" where
  "continues last_block first = (case last_block of None \<Rightarrow> True | Some l \<Rightarrow> l + 1 = first)"

lemma is_err_continuity: "is_err (continuity l f) \<longleftrightarrow> \<not> continues l f"
  by (auto simp: continuity_def continues_def split: option.splits)

lemma continuity_Ok: "continues l f \<Longrightarrow> continuity l f = Ok ()"
  by (auto simp: continuity_def continues_def split: option.splits)

text \<open>
  Staging accepts every good chunk. When the chunk continues the dataset (or starts it), its
  identifier is well formed, it spans at most \<^verbatim>\<open>u32::MAX\<close> blocks, its write schema is registered
  with the listed tables a strictly sorted subset of the roster, its version is 0 or registered, and
  the counts fit 32 bits, the calls for one chunk end in \<open>Ok\<close>; and with the continuity check on, a chunk
  that does not continue the dataset is rejected with the builder's columns unchanged.
\<close>
theorem worker_stage_accepts:
  assumes "dc_wf (ws_id s)" "map_of (wb_write_schemas b) (ws_schema s) = Some roster"
    and "sorted_wrt (<) roster"
    and "ws_version s = 0 \<or> map_of (wb_current_generations b) (ws_version s) \<noteq> None"
    and "\<forall>tables. ws_tables s = Some tables \<longrightarrow> sorted_wrt (<) tables \<and> set tables \<subseteq> set roster"
    and "unat (dc_last_block (ws_id s) - dc_first_block (ws_id s)) \<le> U32_MAX"
    and "length (wc_first_blocks (wb_columns b)) \<le> U32_MAX"
    and "length (wc_worker_indexes (wb_columns b)) + length (ws_workers s) \<le> U32_MAX"
  shows "\<exists>b' r. worker_stage s b = Return (b', r) \<and>
    (continues (wb_last_block b) (dc_first_block (ws_id s)) \<longrightarrow> r = Ok ()) \<and>
    (\<not> continues (wb_last_block b) (dc_first_block (ws_id s)) \<longrightarrow>
      is_err r \<and> (wb_check_continuity b \<longrightarrow> wb_columns b' = wb_columns b))"
proof -
  have "\<forall>tables. ws_tables s = Some tables \<longrightarrow>
      (\<exists>bits. merge_tables (ws_schema s) roster tables 0 (zero_bits roster) = (bits, Ok ()))"
    using merge_tables_complete [OF assms(3)] assms(5) by blast
  from worker_stage_push [OF assms(1,2,4) this] obtain bits where
    stage: "worker_stage s b = Return (push_chunk \<lparr>pc_top = dc_top (ws_id s),
      pc_block_range = (dc_first_block (ws_id s), dc_last_block (ws_id s)),
      pc_hash = dc_last_hash (ws_id s), pc_size = ws_size s, pc_write_schema_id = ws_schema s,
      pc_version = ws_version s\<rparr>
      (b\<lparr>wb_staged_worker_indexes := ws_workers s, wb_staged_tables_present := bits\<rparr>))" (is "_ = Return ?r")
    by blast
  obtain b' r where r: "?r = (b', r)"
    by fastforce
  have "continues (wb_last_block b) (dc_first_block (ws_id s)) \<Longrightarrow> r = Ok ()"
    using r assms(6-8)
    by (auto simp: push_chunk_def Let_def push_bitmap_def is_err_continuity continuity_Ok)
  moreover have "is_err r" "wb_check_continuity b \<longrightarrow> wb_columns b' = wb_columns b"
    if "\<not> continues (wb_last_block b) (dc_first_block (ws_id s))"
    using r assms(6-8) that is_err_continuity [of "wb_last_block b"]
    by (auto simp: push_chunk_def Let_def push_bitmap_def split: if_splits)
  ultimately show ?thesis
    using stage r by auto
qed

theorem worker_stage_accepts_witness:
  "\<exists>b' r. worker_stage (sample_specs ! 1)
      (sample_builder\<lparr>wb_last_block := Some 99\<rparr>) = Return (b', r) \<and> r = Ok ()"
proof -
  let ?s = "sample_specs ! 1" and ?b = "sample_builder\<lparr>wb_last_block := Some 99\<rparr>"
  have hyps: "dc_wf (ws_id ?s)" "map_of (wb_write_schemas ?b) (ws_schema ?s) = Some sample_roster"
    "sorted_wrt (<) sample_roster"
    "ws_version ?s = 0 \<or> map_of (wb_current_generations ?b) (ws_version ?s) \<noteq> None"
    by code_simp+
  have tables: "\<forall>tables. ws_tables ?s = Some tables \<longrightarrow> sorted_wrt (<) tables \<and> set tables \<subseteq> set sample_roster"
    using hyps(3) by (simp add: sample_specs_def sample_roster_def)
  have bounds: "unat (dc_last_block (ws_id ?s) - dc_first_block (ws_id ?s)) \<le> U32_MAX"
    "length (wc_first_blocks (wb_columns ?b)) \<le> U32_MAX"
    "length (wc_worker_indexes (wb_columns ?b)) + length (ws_workers ?s) \<le> U32_MAX"
    "continues (wb_last_block ?b) (dc_first_block (ws_id ?s))"
    by code_simp+
  from worker_stage_accepts [OF hyps tables bounds(1-3)] bounds(4) show ?thesis
    by blast
qed

section \<open>Sealed headers\<close>

definition worker_signature ::
  "('p, 'sk, 'rng) crypto \<Rightarrow> ('p, 'sk, 'rng) worker_builder \<Rightarrow> 'p \<Rightarrow> nat \<Rightarrow> string" where
  "worker_signature cr b p ts = timed_hmac cr (cr_to_string cr p) (wb_cloudflare_storage_secret b) ts"

text \<open>
  C38: The headers sealed for a worker open with that worker's key. After adding a worker, the entry it
  appends to the finished assignment decrypts, with the secret key matching its peer id, to its own
  peer id and the timed signature over it. The box opening what it sealed, the sizes of keys and
  nonces, and the JSON parser reading the two-field object are what is assumed of the libraries.
\<close>
theorem worker_headers_roundtrip:
  assumes "worker_add_worker_with_timestamp cr p st ts b = Return b'"
    and "length (cr_to_bytes cr p) = WORKER_ID_LEN"
    and "cr_to_montgomery cr (drop 6 (cr_to_bytes cr p)) = Some pk"
    and "box_ok cr pk worker_key (wb_common_secret_key b)"
    and "\<forall>nonce msg. cr_box_encrypt cr pk (wb_common_secret_key b) nonce msg \<noteq> None"
    and "wb_common_identity b = None \<or>
      wb_common_identity b = Some (cr_public_key cr (wb_common_secret_key b))"
    and "length (cr_public_key cr (wb_common_secret_key b)) = 32"
    and "\<forall>rng. length (fst (cr_generate_nonce cr rng)) = 24"
    and "utf8_valid (as_bytes (header_plaintext (cr_to_string cr p) (worker_signature cr b p ts)))"
    and "cr_parse_json cr (header_plaintext (cr_to_string cr p) (worker_signature cr b p ts)) =
      Some (Some [(''worker-id'', Some (cr_to_string cr p)), (''worker-signature'', Some (worker_signature cr b p ts))])"
  shows "\<exists>m. aw_decrypt_headers cr \<lparr>aw_assignment = worker_builder_finish b',
      aw_reader = last (wa_workers (worker_builder_finish b')), aw_index = i\<rparr> (Some worker_key) =
        Return (Ok m) \<and>
    map_of m ''worker-id'' = Some (cr_to_string cr p) \<and> map_of m ''worker-signature'' = Some (worker_signature cr b p ts)"
proof -
  let ?b = "b\<lparr>wb_last_peer_id := Some p\<rparr>"
  let ?text = "as_bytes (header_plaintext (cr_to_string cr p) (worker_signature cr b p ts))"
  obtain nonce rng where nonce: "cr_generate_nonce cr (wb_rng b) = (nonce, rng)"
    by fastforce
  obtain c where c: "cr_box_encrypt cr pk (wb_common_secret_key b) nonce ?text = Some c"
    using assms(5) by auto
  have "encrypt_with_rng cr p (wb_common_secret_key b) ?text (wb_rng b) = (rng, Ok (c, nonce))"
    using assms(2,3) nonce c by (simp add: encrypt_with_rng_def WORKER_ID_LEN_def)
  then have "we_encrypted_headers (last (wa_workers (worker_builder_finish b'))) =
      Some \<lparr>eh_identity = cr_public_key cr (wb_common_secret_key b), eh_nonce = nonce, eh_ciphertext = c\<rparr>"
    using assms(1,2,6)
    by (auto simp: worker_add_worker_with_timestamp_def generate_encrypted_headers_def Let_def
        worker_id_from_def worker_builder_finish_def result_ok_def worker_signature_def split: if_splits)
  moreover have "cr_box_decrypt cr (cr_public_key cr (wb_common_secret_key b)) worker_key nonce c = Some ?text"
    using assms(4) c by (simp add: box_ok_def)
  moreover have "length nonce = 24"
    using assms(8) nonce by (metis fst_conv)
  ultimately show ?thesis
    using assms(7,9,10)
    by (simp add: aw_decrypt_headers_def decrypt_headers_def from_utf8_def collect_headers_def)
qed

theorem worker_headers_roundtrip_witness:
  "\<exists>b' m. worker_add_worker_with_timestamp sample_crypto 5 StatusOk 100
      (worker_builder_new sample_crypto ''s'' 0) = Return b' \<and>
    aw_decrypt_headers sample_crypto \<lparr>aw_assignment = worker_builder_finish b',
      aw_reader = last (wa_workers (worker_builder_finish b')), aw_index = 0\<rparr> (Some 1) = Return (Ok m) \<and>
    map_of m ''worker-id'' = Some ''5''"
proof -
  let ?b = "worker_builder_new sample_crypto ''s'' 0"
  obtain b' where b': "worker_add_worker_with_timestamp sample_crypto 5 StatusOk 100 ?b = Return b'"
    using worker_reg.add_defined [of sample_crypto "(5, StatusOk, 100)" ?b]
    by (auto simp: worker_builder_new_def sample_crypto_def out_of_order_def sample_to_bytes_def
        WORKER_ID_LEN_def)
  have m: "cr_to_montgomery sample_crypto (drop 6 (cr_to_bytes sample_crypto 5)) =
      Some (drop 6 (sample_to_bytes 5))"
    by (simp add: sample_crypto_def)
  have lib: "box_ok sample_crypto (drop 6 (sample_to_bytes 5)) 1 (wb_common_secret_key ?b)"
    "\<forall>nonce msg. cr_box_encrypt sample_crypto (drop 6 (sample_to_bytes 5)) (wb_common_secret_key ?b) nonce msg \<noteq> None"
    "wb_common_identity ?b = None \<or>
      wb_common_identity ?b = Some (cr_public_key sample_crypto (wb_common_secret_key ?b))"
    "length (cr_public_key sample_crypto (wb_common_secret_key ?b)) = 32"
    "\<forall>rng. length (fst (cr_generate_nonce sample_crypto rng)) = 24"
    by (simp_all add: box_ok_def sample_crypto_def worker_builder_new_def)
  let ?sig = "worker_signature sample_crypto ?b 5 100"
  have plain: "utf8_valid (as_bytes (header_plaintext (cr_to_string sample_crypto 5) ?sig))"
    "cr_parse_json sample_crypto (header_plaintext (cr_to_string sample_crypto 5) ?sig) =
      Some (Some [(''worker-id'', Some (cr_to_string sample_crypto 5)), (''worker-signature'', Some ?sig)])"
    "cr_to_string sample_crypto 5 = ''5''"
    by code_simp+
  from worker_headers_roundtrip [OF b' _ m lib plain(1,2), of 0] b' plain(3) show ?thesis
    by auto
qed

end
