(* ===== verification/Portal_Builder.thy ===== *)
theory Portal_Builder
  imports Worker_Builder Staging Registry
begin

text \<open>
  The portal-facing assignment builder of \<^verbatim>\<open>crates/assignments/src/builder.rs\<close>: its staged columns,
  state and operations, in the order of the source, followed by the relation between the columns and
  the chunks staged. It shares the continuity rule, the top runs and the hash padding with the worker
  side.
\<close>

section \<open>State\<close>

record portal_columns =
  pc_first_blocks :: "u64 list"
  pc_block_deltas :: "u32 list"
  pc_hashes :: "u8 list list"
  pc_tops :: "top_run list"
  pc_timestamps :: "u64 list"
  pc_versions :: "u32 list"
  pc_worker_ends :: "u32 list"
  pc_worker_indexes :: "u16 list"

definition portal_columns_default :: portal_columns where
  "portal_columns_default =
    \<lparr>pc_first_blocks = [], pc_block_deltas = [], pc_hashes = [], pc_tops = [], pc_timestamps = [],
     pc_versions = [], pc_worker_ends = [], pc_worker_indexes = []\<rparr>"

record 'p portal_builder =
  pb_last_block :: "u64 option"
  pb_all_datasets :: "portal_dataset list"
  pb_worker_entries :: "(u8 list \<times> portal_entry) list"
  pb_last_peer_id :: "'p option"
  pb_check_continuity :: bool
  pb_columns :: portal_columns
  pb_staged_worker_indexes :: "u16 list"

definition portal_builder_new :: "'p portal_builder" where
  "portal_builder_new =
    \<lparr>pb_last_block = None, pb_all_datasets = [], pb_worker_entries = [], pb_last_peer_id = None,
     pb_check_continuity = True, pb_columns = portal_columns_default, pb_staged_worker_indexes = []\<rparr>"

definition portal_check_continuity :: "bool \<Rightarrow> 'p portal_builder \<Rightarrow> 'p portal_builder" where
  "portal_check_continuity check b = b\<lparr>pb_check_continuity := check\<rparr>"

section \<open>Datasets\<close>

record portal_dataset_builder =
  pdb_id :: string
  pdb_read_schema_id :: u32
  pdb_emitted :: bool

definition portal_new_dataset :: "string \<Rightarrow> u32 \<Rightarrow> portal_dataset_builder" where
  "portal_new_dataset id' read_schema_id =
    \<lparr>pdb_id = id', pdb_read_schema_id = read_schema_id, pdb_emitted = False\<rparr>"

definition portal_discard_dataset :: "'p portal_builder \<Rightarrow> 'p portal_builder" where
  "portal_discard_dataset b = b\<lparr>pb_columns := portal_columns_default, pb_last_block := None\<rparr>"

definition portal_emit_dataset ::
  "string \<Rightarrow> u32 \<Rightarrow> string option \<Rightarrow> 'p portal_builder \<Rightarrow>
    ('p portal_builder \<times> (string, unit) result) outcome"
where
  "portal_emit_dataset id' read_schema_id last_block_hash b =
    (if length (pc_first_blocks (pb_columns b)) = 0 then
       Return (b, Err ''At least one chunk should be present in the dataset'')
     else case check_top_runs (pc_tops (pb_columns b)) of
       Err e \<Rightarrow> Return (b, Err e)
     | Ok _ \<Rightarrow>
         let c = pb_columns b
         in outcome_bind
              (expect ''a staged chunk sets last_block, and the count was checked above''
                (pb_last_block b))
              (\<lambda>last_block.
                Return
                  (b\<lparr>pb_columns := portal_columns_default,
                     pb_last_block := None,
                     pb_all_datasets := pb_all_datasets b @
                       [\<lparr>pd_id = id', pd_last_block = last_block, pd_last_block_hash = last_block_hash,
                         pd_read_schema_id = read_schema_id,
                         pd_first_blocks = pc_first_blocks c,
                         pd_block_deltas = pc_block_deltas c,
                         pd_hashes = pc_hashes c,
                         pd_tops = pc_tops c,
                         pd_timestamps = pc_timestamps c,
                         pd_versions =
                           (if \<exists>v \<in> set (pc_versions c). v \<noteq> 0 then Some (pc_versions c) else None),
                         pd_worker_offsets = 0 # pc_worker_ends c,
                         pd_worker_indexes = pc_worker_indexes c\<rparr>]\<rparr>, Ok ())))"

definition portal_dataset_drop ::
  "portal_dataset_builder \<Rightarrow> 'p portal_builder \<Rightarrow> 'p portal_builder" where
  "portal_dataset_drop db b = (if \<not> pdb_emitted db then portal_discard_dataset b else b)"

definition portal_dataset_finish ::
  "string option \<Rightarrow> portal_dataset_builder \<Rightarrow> 'p portal_builder \<Rightarrow>
    ('p portal_builder \<times> (string, unit) result) outcome"
where
  "portal_dataset_finish last_block_hash db b =
    (let db = db\<lparr>pdb_emitted := True\<rparr>
     in outcome_map
          (\<lambda>(b, result). (portal_dataset_drop db (if is_err result then portal_discard_dataset b else b), result))
          (portal_emit_dataset (pdb_id db) (pdb_read_schema_id db) last_block_hash b))"

section \<open>Workers and the finished assignment\<close>

definition portal_add_worker ::
  "('p::linorder \<Rightarrow> u8 list) \<Rightarrow> 'p \<Rightarrow> worker_status \<Rightarrow> 'p portal_builder \<Rightarrow> 'p portal_builder outcome"
where
  "portal_add_worker to_bytes id' status b =
    (if out_of_order (pb_last_peer_id b) id' then
       Panic ''Workers must be added in ascending order of their PeerIDs''
     else
       let b = b\<lparr>pb_last_peer_id := Some id'\<rparr>
       in outcome_map
            (\<lambda>worker_id. b\<lparr>pb_worker_entries := pb_worker_entries b @
              [(worker_id, \<lparr>pe_worker_id = worker_id, pe_status = status_to_fb status\<rparr>)]\<rparr>)
            (worker_id_from to_bytes id'))"

definition portal_builder_finish :: "'p portal_builder \<Rightarrow> portal_assignment" where
  "portal_builder_finish b =
    \<lparr>pa_datasets = pb_all_datasets b, pa_workers = map snd (pb_worker_entries b)\<rparr>"

section \<open>Staging a chunk\<close>

definition portal_push_chunk ::
  "u64 \<Rightarrow> block_range \<Rightarrow> u8 list \<Rightarrow> u32 \<Rightarrow> u64 \<Rightarrow> 'p portal_builder \<Rightarrow>
    'p portal_builder \<times> (string, unit) result"
where
  "portal_push_chunk tp block_range hash version timestamp b =
    (let (start, end') = block_range;
         cont = continuity (pb_last_block b) start
     in if is_err cont \<and> pb_check_continuity b then (b, cont)
        else if length (pc_first_blocks (pb_columns b)) > U32_MAX then
          (b, Err ''a dataset may hold at most u32::MAX chunks'')
        else if unat (end' - start) > U32_MAX then
          (b, Err ''a chunk may span at most u32::MAX blocks'')
        else
          let c = pb_columns b;
              c = c\<lparr>pc_tops := push_top (of_nat (length (pc_first_blocks c))) tp (pc_tops c),
                    pc_first_blocks := pc_first_blocks c @ [start],
                    pc_block_deltas := pc_block_deltas c @ [ucast (end' - start)],
                    pc_hashes := pc_hashes c @ [hash],
                    pc_versions := pc_versions c @ [version],
                    pc_timestamps := pc_timestamps c @ [timestamp],
                    pc_worker_indexes := pc_worker_indexes c @ pb_staged_worker_indexes b\<rparr>
          in if length (pc_worker_indexes c) > U32_MAX then
               (b\<lparr>pb_columns := c\<rparr>, Err ''a dataset may hold at most u32::MAX worker references'')
             else
               (b\<lparr>pb_columns :=
                    c\<lparr>pc_worker_ends := pc_worker_ends c @ [of_nat (length (pc_worker_indexes c))]\<rparr>,
                  pb_last_block := Some end'\<rparr>, cont))"

record portal_chunk_builder =
  pcb_block_range :: "block_range option"
  pcb_id :: "data_chunk option"
  pcb_version :: u32
  pcb_last_block_timestamp :: u64

definition portal_new_chunk :: "'p portal_builder \<Rightarrow> 'p portal_builder \<times> portal_chunk_builder" where
  "portal_new_chunk b =
    (b\<lparr>pb_staged_worker_indexes := []\<rparr>,
     \<lparr>pcb_block_range = None, pcb_id = None, pcb_version = 0, pcb_last_block_timestamp = 0\<rparr>)"

definition portal_chunk_id :: "data_chunk \<Rightarrow> portal_chunk_builder \<Rightarrow> portal_chunk_builder" where
  "portal_chunk_id c cb = cb\<lparr>pcb_id := Some c\<rparr>"

definition portal_chunk_block_range :: "block_range \<Rightarrow> portal_chunk_builder \<Rightarrow> portal_chunk_builder" where
  "portal_chunk_block_range rng cb = cb\<lparr>pcb_block_range := Some rng\<rparr>"

definition portal_chunk_last_block_timestamp :: "u64 \<Rightarrow> portal_chunk_builder \<Rightarrow> portal_chunk_builder" where
  "portal_chunk_last_block_timestamp ts cb = cb\<lparr>pcb_last_block_timestamp := ts\<rparr>"

definition portal_chunk_version :: "u32 \<Rightarrow> portal_chunk_builder \<Rightarrow> portal_chunk_builder" where
  "portal_chunk_version v cb = cb\<lparr>pcb_version := v\<rparr>"

definition portal_chunk_worker_indexes :: "u16 list \<Rightarrow> 'p portal_builder \<Rightarrow> 'p portal_builder" where
  "portal_chunk_worker_indexes indexes b = b\<lparr>pb_staged_worker_indexes := indexes\<rparr>"

definition portal_chunk_finish ::
  "'p portal_builder \<Rightarrow> portal_chunk_builder \<Rightarrow> ('p portal_builder \<times> (string, unit) result) outcome"
where
  "portal_chunk_finish b cb =
    outcome_bind (expect ''Block range must be set'' (pcb_block_range cb)) (\<lambda>block_range.
    case pcb_id cb of
      None \<Rightarrow> Return (b, Err ''Chunk id must be set'')
    | Some id' \<Rightarrow>
        if \<not> (dc_first_block id' = fst block_range \<and> dc_last_block id' = snd block_range) then
          Return (b, Err (''chunk id names blocks '' @ show_nat (unat (dc_first_block id')) @ ''-'' @
            show_nat (unat (dc_last_block id')) @ '', but the chunk covers '' @
            show_nat (unat (fst block_range)) @ ''-'' @ show_nat (unat (snd block_range))))
        else
          outcome_map
            (\<lambda>hash. portal_push_chunk (dc_top id') block_range hash (pcb_version cb)
              (pcb_last_block_timestamp cb) b)
            (chunk_hash id'))"

section \<open>Workers are registered in order\<close>

interpretation portal_reg: worker_registry
  "\<lambda>(p, st). portal_add_worker to_bytes p st" fst to_bytes
  "\<lambda>b. map fst (pb_worker_entries b)" pb_last_peer_id
  for to_bytes :: "'p::linorder \<Rightarrow> u8 list"
proof
  fix w :: "'p \<times> worker_status" and b b' :: "'p portal_builder"
  assume len: "length (to_bytes (fst w)) = WORKER_ID_LEN"
  show "map fst (pb_worker_entries b') = map fst (pb_worker_entries b) @ [to_bytes (fst w)] \<and>
      pb_last_peer_id b' = Some (fst w) \<and> \<not> out_of_order (pb_last_peer_id b) (fst w)"
    if "(case w of (p, st) \<Rightarrow> portal_add_worker to_bytes p st) b = Return b'"
    using that len
    by (auto simp: portal_add_worker_def worker_id_from_def Let_def case_prod_unfold split: if_splits)
  show "\<exists>b'. (case w of (p, st) \<Rightarrow> portal_add_worker to_bytes p st) b = Return b'"
    if "\<not> out_of_order (pb_last_peer_id b) (fst w)"
    using that len by (auto simp: portal_add_worker_def worker_id_from_def Let_def case_prod_unfold)
next
  fix w :: "'p \<times> worker_status" and b :: "'p portal_builder"
  show "\<exists>m. (case w of (p, st) \<Rightarrow> portal_add_worker to_bytes p st) b = Panic m"
    if "out_of_order (pb_last_peer_id b) (fst w)"
    using that by (auto simp: portal_add_worker_def case_prod_unfold)
qed

section \<open>Staged chunks\<close>

record portal_spec =
  ps_id :: data_chunk
  ps_version :: u32
  ps_timestamp :: u64
  ps_workers :: "u16 list"

definition portal_stage ::
  "portal_spec \<Rightarrow> 'p portal_builder \<Rightarrow> ('p portal_builder \<times> (string, unit) result) outcome" where
  "portal_stage s b =
    (let (b, cb) = portal_new_chunk b;
         cb = portal_chunk_id (ps_id s) cb;
         cb = portal_chunk_block_range (dc_first_block (ps_id s), dc_last_block (ps_id s)) cb;
         cb = portal_chunk_last_block_timestamp (ps_timestamp s) cb;
         cb = portal_chunk_version (ps_version s) cb;
         b = portal_chunk_worker_indexes (ps_workers s) b
     in portal_chunk_finish b cb)"

definition portal_spec_ok :: "portal_spec \<Rightarrow> bool" where
  "portal_spec_ok s =
    (dc_wf (ps_id s) \<and> unat (dc_last_block (ps_id s) - dc_first_block (ps_id s)) \<le> U32_MAX)"

definition pc_rel :: "portal_columns \<Rightarrow> portal_spec list \<Rightarrow> bool" where
  "pc_rel c specs =
    (pc_first_blocks c = map (\<lambda>s. dc_first_block (ps_id s)) specs \<and>
     pc_block_deltas c = map (\<lambda>s. ucast (dc_last_block (ps_id s) - dc_first_block (ps_id s))) specs \<and>
     pc_hashes c = map (\<lambda>s. dc_last_hash (ps_id s)) specs \<and>
     pc_timestamps c = map ps_timestamp specs \<and>
     pc_versions c = map ps_version specs \<and>
     runs_rel (pc_tops c) (map (\<lambda>s. dc_top (ps_id s)) specs) \<and>
     csr_rel (pc_worker_ends c) (pc_worker_indexes c) (map ps_workers specs) \<and>
     length (pc_worker_indexes c) \<le> U32_MAX \<and>
     length specs \<le> U32_MAX + 1)"

definition portal_holds :: "'p portal_builder \<Rightarrow> portal_spec list \<Rightarrow> bool" where
  "portal_holds b specs =
    (pc_rel (pb_columns b) specs \<and> (\<forall>s \<in> set specs. portal_spec_ok s) \<and>
     pb_last_block b = (if specs = [] then None else Some (dc_last_block (ps_id (last specs)))))"

lemma portal_holds_Nil:
  "pb_columns b = portal_columns_default \<Longrightarrow> pb_last_block b = None \<Longrightarrow> portal_holds b []"
  by (simp add: portal_holds_def pc_rel_def portal_columns_default_def)

definition pc_snoc :: "portal_spec \<Rightarrow> portal_columns \<Rightarrow> portal_columns" where
  "pc_snoc s c =
    \<lparr>pc_first_blocks = pc_first_blocks c @ [dc_first_block (ps_id s)],
     pc_block_deltas = pc_block_deltas c @ [ucast (dc_last_block (ps_id s) - dc_first_block (ps_id s))],
     pc_hashes = pc_hashes c @ [dc_last_hash (ps_id s)],
     pc_tops = push_top (of_nat (length (pc_first_blocks c))) (dc_top (ps_id s)) (pc_tops c),
     pc_timestamps = pc_timestamps c @ [ps_timestamp s],
     pc_versions = pc_versions c @ [ps_version s],
     pc_worker_ends = pc_worker_ends c @ [of_nat (length (pc_worker_indexes c @ ps_workers s))],
     pc_worker_indexes = pc_worker_indexes c @ ps_workers s\<rparr>"

lemma pc_rel_snoc:
  assumes "pc_rel c specs" "length specs \<le> U32_MAX"
    and "length (pc_worker_indexes c @ ps_workers s) \<le> U32_MAX"
  shows "pc_rel (pc_snoc s c) (specs @ [s])"
proof -
  have "runs_rel (push_top (of_nat (length specs)) (dc_top (ps_id s)) (pc_tops c))
      (map (\<lambda>s. dc_top (ps_id s)) specs @ [dc_top (ps_id s)])"
    using assms(1,2) runs_rel_push_top [of "pc_tops c" "map (\<lambda>s. dc_top (ps_id s)) specs"]
    by (simp add: pc_rel_def)
  moreover have "csr_rel (pc_worker_ends c @ [of_nat (length (pc_worker_indexes c @ ps_workers s))])
      (pc_worker_indexes c @ ps_workers s) (map ps_workers specs @ [ps_workers s])"
    using assms(1) by (intro csr_rel_push) (simp add: pc_rel_def)
  ultimately show ?thesis
    using assms by (auto simp: pc_rel_def pc_snoc_def)
qed

text \<open>A push either leaves the builder alone, or appends one row, or overflows the worker references.\<close>

lemma portal_push_cases:
  assumes "portal_push_chunk (dc_top (ps_id s)) (dc_first_block (ps_id s), dc_last_block (ps_id s))
      (dc_last_hash (ps_id s)) (ps_version s) (ps_timestamp s) b = (b', r)"
    and "pb_staged_worker_indexes b = ps_workers s"
    and "r \<noteq> Err ''a dataset may hold at most u32::MAX worker references''"
  shows "b' = b \<and> is_err r \<or>
    b' = b\<lparr>pb_columns := pc_snoc s (pb_columns b), pb_last_block := Some (dc_last_block (ps_id s))\<rparr> \<and>
    r = continuity (pb_last_block b) (dc_first_block (ps_id s)) \<and>
    length (pc_first_blocks (pb_columns b)) \<le> U32_MAX \<and>
    unat (dc_last_block (ps_id s) - dc_first_block (ps_id s)) \<le> U32_MAX \<and>
    length (pc_worker_indexes (pb_columns b) @ ps_workers s) \<le> U32_MAX"
  using assms by (auto simp: portal_push_chunk_def Let_def pc_snoc_def split: if_splits)

lemma portal_stage_push:
  assumes "dc_wf (ps_id s)"
  shows "portal_stage s b = Return (portal_push_chunk (dc_top (ps_id s))
      (dc_first_block (ps_id s), dc_last_block (ps_id s)) (dc_last_hash (ps_id s)) (ps_version s)
      (ps_timestamp s) (b\<lparr>pb_staged_worker_indexes := ps_workers s\<rparr>))"
  using assms
  by (simp add: portal_stage_def portal_new_chunk_def portal_chunk_id_def portal_chunk_block_range_def
      portal_chunk_last_block_timestamp_def portal_chunk_version_def portal_chunk_worker_indexes_def
      portal_chunk_finish_def chunk_hash_wf)

lemma portal_holds_stage:
  assumes "portal_holds b specs" "dc_wf (ps_id s)" "portal_stage s b = Return (b', r)"
    and "r \<noteq> Err ''a dataset may hold at most u32::MAX worker references''"
  shows "portal_holds b' specs \<and> is_err r \<or> portal_holds b' (specs @ [s])"
proof -
  let ?b = "b\<lparr>pb_staged_worker_indexes := ps_workers s\<rparr>"
  have "portal_push_chunk (dc_top (ps_id s)) (dc_first_block (ps_id s), dc_last_block (ps_id s))
      (dc_last_hash (ps_id s)) (ps_version s) (ps_timestamp s) ?b = (b', r)"
    using assms(3) by (simp add: portal_stage_push [OF assms(2)])
  from portal_push_cases [OF this _ assms(4)] consider "b' = ?b" "is_err r"
    | "b' = ?b\<lparr>pb_columns := pc_snoc s (pb_columns b), pb_last_block := Some (dc_last_block (ps_id s))\<rparr>"
      "length (pc_first_blocks (pb_columns b)) \<le> U32_MAX"
      "unat (dc_last_block (ps_id s) - dc_first_block (ps_id s)) \<le> U32_MAX"
      "length (pc_worker_indexes (pb_columns b) @ ps_workers s) \<le> U32_MAX"
    by auto
  then show ?thesis
  proof cases
    case 1
    then show ?thesis
      using assms(1) by (simp add: portal_holds_def)
  next
    case 2
    have rel: "pc_rel (pb_columns b) specs"
      using assms(1) by (simp add: portal_holds_def)
    with 2 have "pc_rel (pc_snoc s (pb_columns b)) (specs @ [s])"
      by (intro pc_rel_snoc) (simp_all add: pc_rel_def)
    with 2 assms(1,2) show ?thesis
      by (simp add: portal_holds_def portal_spec_ok_def)
  qed
qed

interpretation portal_stager: chunk_stager portal_holds "\<lambda>s. dc_wf (ps_id s)" portal_stage
proof
  show "portal_holds b' (specs @ [s])"
    if "portal_holds b specs" "dc_wf (ps_id s)" "portal_stage s b = Return (b', Ok ())"
    for b b' :: "'p portal_builder" and specs s
    using portal_holds_stage [OF that] by auto
qed

end
