(* ===== verification/Portal_Reader.thy ===== *)
theory Portal_Reader
  imports Worker_Reader
begin

text \<open>
  The portal-facing half of \<^verbatim>\<open>crates/assignments/src/reader.rs\<close>: loading, the row cursor
  \<^verbatim>\<open>PortalChunk\<close>, and the two searches a portal routes queries with, by block and by timestamp.
\<close>

section \<open>Loading\<close>

definition portal_dense :: "portal_dataset \<Rightarrow> (string \<times> nat) list" where
  "portal_dense d =
    [(''block_deltas'', length (pd_block_deltas d)),
     (''hashes'', length (pd_hashes d)),
     (''timestamps'', length (pd_timestamps d)),
     (''worker_offsets'', length (pd_worker_offsets d) - 1)] @
    (case pd_versions d of None \<Rightarrow> [] | Some c \<Rightarrow> [(''versions'', length c)])"

definition portal_check_dataset :: "portal_dataset \<Rightarrow> (invalid_assignment, unit) result" where
  "portal_check_dataset d =
    check_columns (pd_id d) (length (pd_first_blocks d)) (portal_dense d)
      [(''tops'', first_run (pd_tops d))]"

definition portal_from_owned ::
  "('buf \<Rightarrow> (string, portal_assignment) result) \<Rightarrow> 'buf \<Rightarrow> (invalid_assignment, portal_assignment) result"
where
  "portal_from_owned verify buf =
    (case verify buf of
       Err e \<Rightarrow> Err (Flatbuffer e)
     | Ok assignment \<Rightarrow>
         (case check_datasets portal_check_dataset (pa_datasets assignment) of
            Err e \<Rightarrow> Err e
          | Ok _ \<Rightarrow> Ok assignment))"

section \<open>One row\<close>

record portal_chunk =
  pk_dataset :: portal_dataset
  pk_index :: u32

definition portal_chunk_at :: "portal_dataset \<Rightarrow> u32 \<Rightarrow> portal_chunk option" where
  "portal_chunk_at d index =
    (if unat index < portal_chunk_count d then Some \<lparr>pk_dataset = d, pk_index = index\<rparr> else None)"

definition portal_chunks :: "portal_dataset \<Rightarrow> portal_chunk list" where
  "portal_chunks d =
    map (\<lambda>index. \<lparr>pk_dataset = d, pk_index = of_nat index\<rparr>)
      [0 ..< unat (of_nat (portal_chunk_count d) :: u32)]"

definition pk_first_block :: "portal_chunk \<Rightarrow> u64 outcome" where
  "pk_first_block k = vec_get (pd_first_blocks (pk_dataset k)) (unat (pk_index k))"

definition pk_last_block :: "portal_chunk \<Rightarrow> u64 outcome" where
  "pk_last_block k =
    outcome_bind (pk_first_block k) (\<lambda>first_block.
    outcome_map (\<lambda>delta. first_block + ucast delta)
      (vec_get (pd_block_deltas (pk_dataset k)) (unat (pk_index k))))"

definition pk_last_block_timestamp :: "portal_chunk \<Rightarrow> u64 outcome" where
  "pk_last_block_timestamp k = vec_get (pd_timestamps (pk_dataset k)) (unat (pk_index k))"

definition pk_version :: "portal_chunk \<Rightarrow> u32 outcome" where
  "pk_version k =
    (case pd_versions (pk_dataset k) of
       None \<Rightarrow> Return 0
     | Some versions \<Rightarrow> vec_get versions (unat (pk_index k)))"

definition pk_top :: "portal_chunk \<Rightarrow> u64 outcome" where
  "pk_top k = expect ''the first top run covers chunk 0 onwards''
    (top_at (pd_tops (pk_dataset k)) (pk_index k))"

definition pk_hash :: "portal_chunk \<Rightarrow> string option outcome" where
  "pk_hash k = outcome_map hash_str (vec_get (pd_hashes (pk_dataset k)) (unat (pk_index k)))"

definition pk_id :: "portal_chunk \<Rightarrow> string option outcome" where
  "pk_id k =
    outcome_bind (pk_top k) (\<lambda>tp.
    outcome_bind (pk_first_block k) (\<lambda>first_block.
    outcome_bind (pk_last_block k) (\<lambda>last_block.
    outcome_bind (pk_hash k) (\<lambda>hash.
    case hash of
      None \<Rightarrow> Return None
    | Some h \<Rightarrow> outcome_map Some (push_chunk_id [] tp first_block last_block h)))))"

definition pk_worker_indexes :: "portal_chunk \<Rightarrow> u16 list outcome" where
  "pk_worker_indexes k =
    csr_slice (pd_worker_offsets (pk_dataset k)) (pd_worker_indexes (pk_dataset k)) (unat (pk_index k))"

section \<open>Lookups\<close>

datatype chunk_not_found = UnknownDataset | BeforeFirst | AfterLast | InGap

definition portal_get_dataset :: "key_lookup \<Rightarrow> portal_assignment \<Rightarrow> string \<Rightarrow> portal_dataset option" where
  "portal_get_dataset lk a dataset = lookup_by_key lk pd_id (pa_datasets a) dataset"

definition portal_get_chunk :: "portal_assignment \<Rightarrow> chunk_ref \<Rightarrow> portal_chunk option" where
  "portal_get_chunk a r =
    (if unat (cr_dataset_index r) \<ge> length (pa_datasets a) then None
     else portal_chunk_at (pa_datasets a ! unat (cr_dataset_index r)) (cr_chunk_index r))"

definition portal_get_worker_id :: "(u8 list \<Rightarrow> 'p option) \<Rightarrow> portal_assignment \<Rightarrow> u16 \<Rightarrow> 'p option outcome" where
  "portal_get_worker_id from_bytes a index =
    outcome_map (\<lambda>w. worker_id_try_into from_bytes (pe_worker_id w)) (vec_get (pa_workers a) (unat index))"

text \<open>\<^verbatim>\<open>PortalWorker\<close> wraps the entry alone.\<close>

definition portal_get_worker_by_index :: "portal_assignment \<Rightarrow> u16 \<Rightarrow> portal_entry outcome" where
  "portal_get_worker_by_index a index = vec_get (pa_workers a) (unat index)"

definition portal_worker_status :: "portal_entry \<Rightarrow> worker_status" where
  "portal_worker_status w = status_from_fb (pe_status w)"

definition portal_find_chunk ::
  "key_lookup \<Rightarrow> portal_assignment \<Rightarrow> string \<Rightarrow> u64 \<Rightarrow> (chunk_not_found, portal_chunk) result outcome"
where
  "portal_find_chunk lk a dataset block =
    (case portal_get_dataset lk a dataset of
       None \<Rightarrow> Return (Err UnknownDataset)
     | Some d \<Rightarrow>
         if block > pd_last_block d then Return (Err AfterLast)
         else
           let above = partition_point (length (pd_first_blocks d)) (\<lambda>i. pd_first_blocks d ! i \<le> block)
           in if above = 0 then Return (Err BeforeFirst)
              else
                outcome_bind (expect ''index came from the column's own length''
                    (portal_chunk_at d (of_nat (above - 1)))) (\<lambda>chunk.
                outcome_map (\<lambda>last_block. if block > last_block then Err InGap else Ok chunk)
                  (pk_last_block chunk)))"

definition portal_find_chunk_by_timestamp ::
  "key_lookup \<Rightarrow> portal_assignment \<Rightarrow> string \<Rightarrow> u64 \<Rightarrow> (chunk_not_found, portal_chunk) result outcome"
where
  "portal_find_chunk_by_timestamp lk a dataset ts =
    (case portal_get_dataset lk a dataset of
       None \<Rightarrow> Return (Err UnknownDataset)
     | Some d \<Rightarrow>
         let count = portal_chunk_count d;
             index = partition_point count (\<lambda>i. pd_timestamps d ! i < ts)
         in if index = count then Return (Err AfterLast)
            else outcome_map Ok (expect ''index is below the chunk count''
                   (portal_chunk_at d (of_nat index))))"

end
