(* ===== verification/Portal_Properties.thy ===== *)
theory Portal_Properties
  imports Portal_Builder Portal_Reader Worker_Roundtrip Samples
begin

text \<open>
  The portal-facing round trip and the searches: which chunk a block or a timestamp routes to, for
  datasets the builder emitted.
\<close>

section \<open>The emitted table\<close>

definition portal_emitted :: "portal_dataset \<Rightarrow> portal_spec list \<Rightarrow> bool" where
  "portal_emitted d specs =
    (specs \<noteq> [] \<and> length specs \<le> U32_MAX + 1 \<and> (\<forall>s \<in> set specs. portal_spec_ok s) \<and>
     pd_last_block d = dc_last_block (ps_id (last specs)) \<and>
     pd_first_blocks d = map (\<lambda>s. dc_first_block (ps_id s)) specs \<and>
     pd_block_deltas d = map (\<lambda>s. ucast (dc_last_block (ps_id s) - dc_first_block (ps_id s))) specs \<and>
     pd_hashes d = map (\<lambda>s. dc_last_hash (ps_id s)) specs \<and>
     runs_rel (pd_tops d) (map (\<lambda>s. dc_top (ps_id s)) specs) \<and>
     pd_timestamps d = map ps_timestamp specs \<and>
     pd_versions d = (if \<exists>s \<in> set specs. ps_version s \<noteq> 0 then Some (map ps_version specs) else None) \<and>
     (\<exists>ends. pd_worker_offsets d = 0 # ends \<and>
        csr_rel ends (pd_worker_indexes d) (map ps_workers specs)) \<and>
     length (pd_worker_indexes d) \<le> U32_MAX)"

lemma portal_emit_Ok:
  assumes "portal_holds b specs" "specs \<noteq> []"
  shows "\<exists>d. portal_dataset_finish h db b = Return (b\<lparr>pb_columns := portal_columns_default,
      pb_last_block := None, pb_all_datasets := pb_all_datasets b @ [d]\<rparr>, Ok ()) \<and>
    pd_id d = pdb_id db \<and> pd_read_schema_id d = pdb_read_schema_id db \<and> pd_last_block_hash d = h \<and>
    portal_emitted d specs"
proof -
  let ?c = "pb_columns b"
  have rel: "pc_rel ?c specs" and ok: "\<forall>s \<in> set specs. portal_spec_ok s"
    and last': "pb_last_block b = Some (dc_last_block (ps_id (last specs)))"
    using assms by (auto simp: portal_holds_def)
  have "check_top_runs (pc_tops ?c) = Ok ()"
    using rel assms(2) by (auto simp: pc_rel_def intro!: runs_rel_check)
  moreover have "pc_first_blocks ?c \<noteq> []"
    using rel assms(2) by (simp add: pc_rel_def)
  ultimately show ?thesis
    using rel ok last' assms(2)
    by (auto simp: portal_dataset_finish_def portal_emit_dataset_def portal_dataset_drop_def Let_def
        portal_emitted_def pc_rel_def)
qed

lemma portal_finish_nonempty:
  assumes "portal_holds b specs" "portal_dataset_finish h db b = Return (b', Ok ())"
  shows "specs \<noteq> []"
  using assms
  by (auto simp: portal_holds_def pc_rel_def portal_dataset_finish_def portal_emit_dataset_def Let_def)

lemma portal_holds_emitted:
  assumes "portal_holds b1 specs" "portal_dataset_finish h db b1 = Return (b2, Ok ())"
  obtains d where "pb_all_datasets b2 = pb_all_datasets b1 @ [d]" "pd_id d = pdb_id db"
    "pd_last_block_hash d = h" "pd_read_schema_id d = pdb_read_schema_id db" "portal_emitted d specs"
proof -
  from portal_emit_Ok [OF assms(1) portal_finish_nonempty [OF assms], of h db] assms(2)
  obtain d where "b2 = b1\<lparr>pb_columns := portal_columns_default, pb_last_block := None,
        pb_all_datasets := pb_all_datasets b1 @ [d]\<rparr>"
    "pd_id d = pdb_id db" "pd_read_schema_id d = pdb_read_schema_id db" "pd_last_block_hash d = h"
    "portal_emitted d specs"
    by auto
  then show ?thesis
    by (intro that [of d]) simp_all
qed

lemma portal_staged_emitted:
  assumes "pb_columns b = portal_columns_default" "pb_last_block b = None"
    and "\<forall>s \<in> set specs. dc_wf (ps_id s)" "stage_all portal_stage specs b = Some b1"
    and "portal_dataset_finish h db b1 = Return (b2, Ok ())"
  obtains d where "pb_all_datasets b2 = pb_all_datasets b1 @ [d]" "pd_id d = pdb_id db"
    "pd_last_block_hash d = h" "pd_read_schema_id d = pdb_read_schema_id db" "portal_emitted d specs"
proof -
  have "portal_holds b1 ([] @ specs)"
    by (rule portal_stager.holds_stage_all [OF portal_holds_Nil [OF assms(1,2)] assms(3,4)])
  then have "portal_holds b1 specs"
    by simp
  from portal_holds_emitted [OF this assms(5)] that show ?thesis .
qed

section \<open>Reading one row\<close>

abbreviation prow :: "portal_dataset \<Rightarrow> nat \<Rightarrow> portal_chunk" where
  "prow d i \<equiv> \<lparr>pk_dataset = d, pk_index = of_nat i\<rparr>"

lemma portal_emitted_check: "portal_emitted d specs \<Longrightarrow> portal_check_dataset d = Ok ()"
  unfolding portal_check_dataset_def check_columns_Ok
  by (auto simp: portal_emitted_def portal_dense_def first_run_def runs_rel_def csr_rel_def hd_conv_nth
      split: option.splits if_splits)

lemma prow_index: "portal_emitted d specs \<Longrightarrow> i < length specs \<Longrightarrow> unat (of_nat i :: u32) = i"
  by (simp add: portal_emitted_def)

lemma prow_count: "portal_emitted d specs \<Longrightarrow> portal_chunk_count d = length specs"
  by (simp add: portal_chunk_count_def portal_emitted_def)

lemma prow_chunk_at:
  "portal_emitted d specs \<Longrightarrow> i < length specs \<Longrightarrow> portal_chunk_at d (of_nat i) = Some (prow d i)"
  by (simp add: portal_chunk_at_def prow_index prow_count)

lemma prow_fields:
  assumes "portal_emitted d specs" "i < length specs"
  shows "pk_first_block (prow d i) = Return (dc_first_block (ps_id (specs ! i)))"
    and "pk_last_block_timestamp (prow d i) = Return (ps_timestamp (specs ! i))"
    and "pk_hash (prow d i) = Return (hash_str (dc_last_hash (ps_id (specs ! i))))"
    and "pk_top (prow d i) = Return (dc_top (ps_id (specs ! i)))"
  using assms
  by (simp_all add: pk_first_block_def pk_last_block_timestamp_def pk_hash_def pk_top_def prow_index
      portal_emitted_def runs_rel_def)

lemma prow_last_block:
  assumes "portal_emitted d specs" "i < length specs"
  shows "pk_last_block (prow d i) = Return (dc_last_block (ps_id (specs ! i)))"
proof -
  have "unat (dc_last_block (ps_id (specs ! i)) - dc_first_block (ps_id (specs ! i))) \<le> U32_MAX"
    using assms by (simp add: portal_emitted_def portal_spec_ok_def)
  from add_delta [OF this] show ?thesis
    using assms prow_fields(1) [OF assms] by (simp add: pk_last_block_def prow_index portal_emitted_def)
qed

lemma prow_version:
  assumes "portal_emitted d specs" "i < length specs"
  shows "pk_version (prow d i) = Return (ps_version (specs ! i))"
proof (cases "\<exists>s \<in> set specs. ps_version s \<noteq> 0")
  case True
  then show ?thesis
    using assms by (simp add: pk_version_def portal_emitted_def)
next
  case False
  then have "ps_version (specs ! i) = 0"
    using assms(2) by simp
  with False show ?thesis
    using assms by (simp add: pk_version_def portal_emitted_def)
qed

lemma prow_worker_indexes:
  assumes "portal_emitted d specs" "i < length specs"
  shows "pk_worker_indexes (prow d i) = Return (ps_workers (specs ! i))"
proof -
  obtain ends where "pd_worker_offsets d = 0 # ends"
    "csr_rel ends (pd_worker_indexes d) (map ps_workers specs)"
    "length (pd_worker_indexes d) \<le> U32_MAX"
    using assms(1) by (auto simp: portal_emitted_def)
  with csr_slice_row [OF this(2,3), of i] assms show ?thesis
    by (simp add: pk_worker_indexes_def prow_index)
qed

lemma prow_id:
  assumes "portal_emitted d specs" "i < length specs"
  shows "pk_id (prow d i) = outcome_map Some (data_chunk_display (ps_id (specs ! i)))"
proof -
  have "dc_wf (ps_id (specs ! i))"
    using assms by (simp add: portal_emitted_def portal_spec_ok_def)
  then obtain h where h: "data_chunk_last_hash (ps_id (specs ! i)) = Return h"
    using dc_wf_new by blast
  show ?thesis
    using push_chunk_id_display [OF h, symmetric] h
    by (simp add: pk_id_def prow_fields [OF assms] prow_last_block [OF assms] hash_str_last_hash)
qed

text \<open>
  C24: Chunks staged through the portal builder read back exactly: the emitted dataset passes the
  reader's checks, keeps its id, read schema and head hash, has one row per chunk in order, and every
  accessor of row \<open>i\<close> returns what chunk \<open>i\<close> was staged with.
\<close>
theorem portal_roundtrip:
  assumes "pb_columns b = portal_columns_default" "pb_last_block b = None"
    and "\<forall>s \<in> set specs. dc_wf (ps_id s)" "stage_all portal_stage specs b = Some b1"
    and "portal_dataset_finish h db b1 = Return (b2, Ok ())"
  shows "\<exists>d. pb_all_datasets b2 = pb_all_datasets b1 @ [d] \<and> pd_id d = pdb_id db \<and>
    pd_read_schema_id d = pdb_read_schema_id db \<and> pd_last_block_hash d = h \<and>
    portal_check_dataset d = Ok () \<and> portal_chunk_count d = length specs \<and>
    (\<forall>i < length specs. \<exists>k. portal_chunk_at d (of_nat i) = Some k \<and>
       pk_first_block k = Return (dc_first_block (ps_id (specs ! i))) \<and>
       pk_last_block k = Return (dc_last_block (ps_id (specs ! i))) \<and>
       pk_last_block_timestamp k = Return (ps_timestamp (specs ! i)) \<and>
       pk_version k = Return (ps_version (specs ! i)) \<and>
       pk_top k = Return (dc_top (ps_id (specs ! i))) \<and>
       pk_id k = outcome_map Some (data_chunk_display (ps_id (specs ! i))) \<and>
       pk_worker_indexes k = Return (ps_workers (specs ! i)))"
proof -
  obtain d where d: "pb_all_datasets b2 = pb_all_datasets b1 @ [d]" "pd_id d = pdb_id db"
    "pd_last_block_hash d = h" "pd_read_schema_id d = pdb_read_schema_id db"
    and em: "portal_emitted d specs"
    by (rule portal_staged_emitted [OF assms])
  show ?thesis
    using d portal_emitted_check [OF em] prow_count [OF em] prow_chunk_at [OF em] prow_fields [OF em]
      prow_last_block [OF em] prow_version [OF em] prow_id [OF em] prow_worker_indexes [OF em]
    by (intro exI [of _ d]) auto
qed

definition sample_portal_specs :: "portal_spec list" where
  "sample_portal_specs =
    [\<lparr>ps_id = sample_chunk_1, ps_version = 0, ps_timestamp = 1000, ps_workers = [0, 1]\<rparr>,
     \<lparr>ps_id = sample_chunk_2, ps_version = 2, ps_timestamp = 2000, ps_workers = []\<rparr>,
     \<lparr>ps_id = sample_chunk_3, ps_version = 0, ps_timestamp = 2000, ps_workers = [1]\<rparr>]"

definition sample_portal_staged :: "u8 portal_builder" where
  "sample_portal_staged = the (stage_all portal_stage sample_portal_specs portal_builder_new)"

definition sample_portal_dataset :: portal_dataset_builder where
  "sample_portal_dataset = portal_new_dataset ''s3://a'' 4"

definition sample_portal_emitted :: "u8 portal_builder" where
  "sample_portal_emitted =
    (case portal_dataset_finish (Some ''0xff'') sample_portal_dataset sample_portal_staged of
       Return (b, r) \<Rightarrow> b)"

lemma sample_portal_run:
  "pb_columns (portal_builder_new :: u8 portal_builder) = portal_columns_default"
  "pb_last_block (portal_builder_new :: u8 portal_builder) = None"
  "\<forall>s \<in> set sample_portal_specs. dc_wf (ps_id s)"
  "stage_all portal_stage sample_portal_specs portal_builder_new = Some sample_portal_staged"
  "portal_dataset_finish (Some ''0xff'') sample_portal_dataset sample_portal_staged =
    Return (sample_portal_emitted, Ok ())"
proof -
  have "stage_all portal_stage sample_portal_specs (portal_builder_new :: u8 portal_builder) \<noteq> None"
    by code_simp
  then show "stage_all portal_stage sample_portal_specs portal_builder_new = Some sample_portal_staged"
    by (auto simp: sample_portal_staged_def)
  have "case portal_dataset_finish (Some ''0xff'') sample_portal_dataset sample_portal_staged of
      Return (b, Ok _) \<Rightarrow> True | _ \<Rightarrow> False"
    by code_simp
  then show "portal_dataset_finish (Some ''0xff'') sample_portal_dataset sample_portal_staged =
      Return (sample_portal_emitted, Ok ())"
    by (auto simp: sample_portal_emitted_def split: outcome.splits prod.splits result.splits)
qed (simp_all add: portal_builder_new_def sample_portal_specs_def)

lemma sample_portal_emitted_code [code]:
  "sample_portal_emitted =
    \<lparr>pb_last_block = None,
     pb_all_datasets =
       [\<lparr>pd_id = ''s3://a'', pd_last_block = 299, pd_last_block_hash = Some ''0xff'',
         pd_read_schema_id = 4, pd_first_blocks = [0, 100, 200], pd_block_deltas = [99, 99, 99],
         pd_hashes = [[97, 97, 97, 97, 97, 0, 0, 0], [98, 98, 98, 98, 98, 98, 0, 0], [99, 95, 99, 95, 99, 0, 0, 0]],
         pd_tops = [\<lparr>tr_first_chunk_index = 0, tr_top = 0\<rparr>, \<lparr>tr_first_chunk_index = 2, tr_top = 200\<rparr>],
         pd_timestamps = [1000, 2000, 2000], pd_versions = Some [0, 2, 0],
         pd_worker_offsets = [0, 2, 2, 3], pd_worker_indexes = [0, 1, 1]\<rparr>],
     pb_worker_entries = [], pb_last_peer_id = None, pb_check_continuity = True,
     pb_columns = portal_columns_default, pb_staged_worker_indexes = [1]\<rparr>"
  by code_simp

theorem portal_roundtrip_witness:
  "\<exists>d. pb_all_datasets sample_portal_emitted = pb_all_datasets sample_portal_staged @ [d] \<and>
    portal_check_dataset d = Ok () \<and> portal_chunk_count d = length sample_portal_specs"
  using portal_roundtrip [OF sample_portal_run] by blast

section \<open>Chunks with gaps\<close>

text \<open>
  With the continuity check off, a chunk that leaves a gap is appended and the gap only reported. Staging
  of this kind goes on after such a report; with the check on it is \<open>portal_stage\<close>.
\<close>

definition portal_stage_gaps ::
  "portal_spec \<Rightarrow> 'p portal_builder \<Rightarrow> ('p portal_builder \<times> (string, unit) result) outcome" where
  "portal_stage_gaps s b =
    outcome_map (\<lambda>(b', r).
      (b', if \<not> pb_check_continuity b \<and> r = continuity (pb_last_block b) (dc_first_block (ps_id s))
           then Ok () else r))
      (portal_stage s b)"

lemma portal_stage_gaps_checked: "pb_check_continuity b \<Longrightarrow> portal_stage_gaps s b = portal_stage s b"
  by (cases "portal_stage s b") (auto simp: portal_stage_gaps_def)

lemma portal_stage_gaps_accepts:
  assumes "portal_stage s b = Return (b', r)" "r = Ok ()"
  shows "portal_stage_gaps s b = Return (b', Ok ())"
  using assms by (simp add: portal_stage_gaps_def)

text \<open>A report of a gap is told apart from the other errors by its text.\<close>

lemma continuity_text:
  assumes "Err e = continuity last_block start"
  shows "hd e = CHR ''C''"
  using assms by (auto simp: continuity_def split: option.splits if_splits)

lemma portal_push_gap:
  assumes "portal_push_chunk (dc_top (ps_id s)) (dc_first_block (ps_id s), dc_last_block (ps_id s))
      (dc_last_hash (ps_id s)) (ps_version s) (ps_timestamp s) b = (b', r)"
    and "\<not> pb_check_continuity b" "r = continuity (pb_last_block b) (dc_first_block (ps_id s))"
  shows "length (pc_first_blocks (pb_columns b')) = Suc (length (pc_first_blocks (pb_columns b)))"
  using assms by (auto simp: portal_push_chunk_def Let_def split: if_splits dest!: continuity_text)

interpretation portal_gap_stager: chunk_stager portal_holds "\<lambda>s. dc_wf (ps_id s)" portal_stage_gaps
proof
  fix b b' :: "'p portal_builder" and specs s
  assume holds: "portal_holds b specs" and wf: "dc_wf (ps_id s)"
    and stage: "portal_stage_gaps s b = Return (b', Ok ())"
  obtain r where r: "portal_stage s b = Return (b', r)"
    and gap: "r = Ok () \<or> \<not> pb_check_continuity b \<and> r = continuity (pb_last_block b) (dc_first_block (ps_id s))"
    using stage by (auto simp: portal_stage_gaps_def split: if_splits)
  have "r \<noteq> Err ''a dataset may hold at most u32::MAX worker references''"
    using gap by (auto dest!: continuity_text)
  note cases = portal_holds_stage [OF holds wf r this]
  have "\<not> portal_holds b' specs" if "r \<noteq> Ok ()"
  proof -
    have "length (pc_first_blocks (pb_columns b')) = Suc (length (pc_first_blocks (pb_columns b)))"
      using portal_push_gap [of s "b\<lparr>pb_staged_worker_indexes := ps_workers s\<rparr>" b' r] r gap that
      by (simp add: portal_stage_push [OF wf])
    with holds show ?thesis
      by (auto simp: portal_holds_def pc_rel_def)
  qed
  with cases show "portal_holds b' (specs @ [s])"
    by (cases r) auto
qed

section \<open>Routing by block\<close>

definition block_in :: "portal_spec \<Rightarrow> u64 \<Rightarrow> bool" where
  "block_in s block = (dc_first_block (ps_id s) \<le> block \<and> block \<le> dc_last_block (ps_id s))"

text \<open>The chunks ascend without overlap; gaps are allowed.\<close>

definition ascending_chunks :: "portal_spec list \<Rightarrow> bool" where
  "ascending_chunks specs =
    sorted_wrt (\<lambda>s t. dc_last_block (ps_id s) < dc_first_block (ps_id t)) specs"

text \<open>What is reported for a block that no chunk covers.\<close>

definition missing_block :: "portal_spec list \<Rightarrow> u64 \<Rightarrow> chunk_not_found" where
  "missing_block specs block =
    (if dc_last_block (ps_id (last specs)) < block then AfterLast
     else if block < dc_first_block (ps_id (hd specs)) then BeforeFirst
     else InGap)"

lemma ascending_firsts:
  assumes "ascending_chunks specs" "\<forall>s \<in> set specs. dc_wf (ps_id s)" "i \<le> j" "j < length specs"
  shows "dc_first_block (ps_id (specs ! i)) \<le> dc_first_block (ps_id (specs ! j))"
proof (cases "i = j")
  case False
  then have "dc_last_block (ps_id (specs ! i)) < dc_first_block (ps_id (specs ! j))"
    using sorted_wrt_nth_less [OF assms(1) [unfolded ascending_chunks_def], of i j] assms(3,4) by simp
  moreover have "dc_first_block (ps_id (specs ! i)) \<le> dc_last_block (ps_id (specs ! i))"
    using assms by (simp add: dc_wf_def)
  ultimately show ?thesis
    by simp
qed simp

lemma portal_get_dataset_finish:
  assumes "key_search lk" "sorted_wrt (<) (map pd_id (pb_all_datasets b))" "d \<in> set (pb_all_datasets b)"
  shows "portal_get_dataset lk (portal_builder_finish b) (pd_id d) = Some d"
  using lookup_by_key_eq [OF assms] by (simp add: portal_get_dataset_def portal_builder_finish_def)

lemma ascending_none_after:
  assumes "ascending_chunks specs" "\<forall>s \<in> set specs. dc_wf (ps_id s)" "dc_last_block (ps_id (last specs)) < block"
    and "s \<in> set specs"
  shows "\<not> block_in s block"
proof -
  obtain j where j: "j < length specs" "s = specs ! j"
    using assms(4) by (auto simp: in_set_conv_nth)
  then have last: "last specs = specs ! (length specs - 1)" "length specs - 1 < length specs"
    using last_conv_nth [of specs] by fastforce+
  show ?thesis
  proof (cases "j < length specs - 1")
    case True
    then have "dc_last_block (ps_id s) < dc_first_block (ps_id (last specs))"
      using sorted_wrt_nth_less [OF assms(1) [unfolded ascending_chunks_def] True last(2)] j last by simp
    also have "\<dots> \<le> dc_last_block (ps_id (last specs))"
      using assms(2) last by (simp add: dc_wf_def)
    finally show ?thesis
      using assms(3) by (auto simp: block_in_def)
  next
    case False
    with j have "j = length specs - 1"
      by simp
    with j last assms(3) show ?thesis
      by (auto simp: block_in_def)
  qed
qed

text \<open>A block behind chunk \<open>i\<close> and before the chunks that follow is in no chunk.\<close>

lemma ascending_gap:
  assumes "ascending_chunks specs" "i < length specs" "j < length specs"
    and "i < j \<Longrightarrow> block < dc_first_block (ps_id (specs ! j))" "dc_last_block (ps_id (specs ! i)) < block"
    and "dc_first_block (ps_id (specs ! i)) \<le> block"
  shows "\<not> block_in (specs ! j) block"
proof -
  consider "j < i" | "j = i" | "i < j"
    by linarith
  then show ?thesis
  proof cases
    case 1
    then have "dc_last_block (ps_id (specs ! j)) < dc_first_block (ps_id (specs ! i))"
      using sorted_wrt_nth_less [OF assms(1) [unfolded ascending_chunks_def]] assms(2) by blast
    with assms(6) show ?thesis
      by (auto simp: block_in_def)
  qed (use assms(4,5) in \<open>auto simp: block_in_def\<close>)
qed

lemma portal_find_in_emitted:
  assumes em: "portal_emitted d specs" and asc: "ascending_chunks specs"
    and get: "portal_get_dataset lk a name = Some d"
  shows "\<exists>r. portal_find_chunk lk a name block = Return r \<and>
    (case r of
       Ok k \<Rightarrow> \<exists>i < length specs. k = prow d i \<and> block_in (specs ! i) block
     | Err e \<Rightarrow> (\<forall>s \<in> set specs. \<not> block_in s block) \<and> e = missing_block specs block)"
proof -
  have wf: "\<forall>s \<in> set specs. dc_wf (ps_id s)" and ne: "specs \<noteq> []"
    using em by (auto simp: portal_emitted_def portal_spec_ok_def)
  let ?first = "\<lambda>i. dc_first_block (ps_id (specs ! i))" and ?last = "\<lambda>i. dc_last_block (ps_id (specs ! i))"
  let ?n = "length specs"
  define above where "above = partition_point ?n (\<lambda>i. pd_first_blocks d ! i \<le> block)"
  have cols: "length (pd_first_blocks d) = ?n" "pd_last_block d = dc_last_block (ps_id (last specs))"
    "\<And>i. i < ?n \<Longrightarrow> pd_first_blocks d ! i = ?first i"
    using em by (auto simp: portal_emitted_def)
  have pre: "prefix_pred ?n (\<lambda>i. pd_first_blocks d ! i \<le> block)"
    unfolding prefix_pred_def using ascending_firsts [OF asc wf] cols(3)
    by (metis order.strict_trans1 order.trans)
  have iff: "?first i \<le> block \<longleftrightarrow> i < above" if "i < ?n" for i
    using partition_point_prefix [OF pre that] cols(3) [OF that] by (simp add: above_def)
  have le: "above \<le> ?n"
    by (simp add: above_def partition_point_boundary)
  show ?thesis
  proof (cases "dc_last_block (ps_id (last specs)) < block")
    case True
    then have "\<forall>s \<in> set specs. \<not> block_in s block"
      using ascending_none_after [OF asc wf] by blast
    with True show ?thesis
      by (simp add: portal_find_chunk_def get cols missing_block_def)
  next
    case notafter: False
    show ?thesis
    proof (cases "above = 0")
      case True
      then have "\<forall>s \<in> set specs. \<not> block_in s block" "block < dc_first_block (ps_id (hd specs))"
        using iff ne by (auto simp: in_set_conv_nth block_in_def hd_conv_nth not_le)
      with True notafter show ?thesis
        by (simp add: portal_find_chunk_def get cols above_def Let_def missing_block_def)
    next
      case False
      define i where "i = above - 1"
      have i: "i < ?n" "i < above" and above: "above = Suc i"
        using False le by (auto simp: i_def)
      have none: "\<not> block_in (specs ! j) block" if "j < ?n" "?last i < block" for j
        using that iff [OF that(1)] iff [OF i(1)] i above
        by (intro ascending_gap [OF asc i(1) that(1)]) (auto simp: not_le [symmetric])
      have "portal_find_chunk lk a name block =
          Return (if block > ?last i then Err InGap else Ok (prow d i))"
        using notafter False prow_chunk_at [OF em i(1)] prow_last_block [OF em i(1)]
        by (simp add: portal_find_chunk_def get cols above_def [symmetric] Let_def above)
      moreover have "missing_block specs block = InGap"
        using False notafter ne iff [of 0] by (simp add: missing_block_def hd_conv_nth not_less)
      moreover have "block_in (specs ! i) block" if "\<not> ?last i < block"
        using that i iff [OF i(1)] by (simp add: block_in_def)
      moreover have "\<forall>s \<in> set specs. \<not> block_in s block" if "?last i < block"
        using none that by (auto simp: in_set_conv_nth)
      ultimately show ?thesis
        using i(1) by (cases "?last i < block") auto
    qed
  qed
qed

text \<open>
  C3: A portal routes a block to the chunk holding it, gaps or not. In the finished assignment, for a
  dataset whose chunks ascend without overlap (with the continuity check off there may be gaps between
  them), \<^verbatim>\<open>find_chunk\<close> never panics. It returns a chunk exactly when some staged chunk covers the block, and
  then that chunk's row. Otherwise it reports exactly where the block lies: after the dataset's last
  block, before its first, or else in a gap; no block is attributed to a chunk that does not cover it.
\<close>
theorem portal_find_chunk_correct:
  assumes "pb_columns b = portal_columns_default" "pb_last_block b = None"
    and "\<forall>s \<in> set specs. dc_wf (ps_id s)" "stage_all portal_stage_gaps specs b = Some b1"
    and "portal_dataset_finish h db b1 = Return (b2, Ok ())"
    and "key_search lk" "sorted_wrt (<) (map pd_id (pb_all_datasets b2))" "ascending_chunks specs"
  shows "\<exists>r. portal_find_chunk lk (portal_builder_finish b2) (pdb_id db) block = Return r \<and>
    (case r of
       Ok k \<Rightarrow> \<exists>i < length specs. block_in (specs ! i) block \<and>
         k = \<lparr>pk_dataset = last (pb_all_datasets b2), pk_index = of_nat i\<rparr>
     | Err e \<Rightarrow> (\<forall>s \<in> set specs. \<not> block_in s block) \<and>
         e = (if dc_last_block (ps_id (last specs)) < block then AfterLast
              else if block < dc_first_block (ps_id (hd specs)) then BeforeFirst
              else InGap))"
proof -
  have "portal_holds b1 ([] @ specs)"
    by (rule portal_gap_stager.holds_stage_all [OF portal_holds_Nil [OF assms(1,2)] assms(3,4)])
  then have "portal_holds b1 specs"
    by simp
  from portal_holds_emitted [OF this assms(5)]
  obtain d where d: "pb_all_datasets b2 = pb_all_datasets b1 @ [d]" "pd_id d = pdb_id db"
    and em: "portal_emitted d specs"
    by blast
  have "portal_get_dataset lk (portal_builder_finish b2) (pdb_id db) = Some d"
    using portal_get_dataset_finish [OF assms(6,7), of d] d by simp
  from portal_find_in_emitted [OF em assms(8) this, of block] obtain r where
    "portal_find_chunk lk (portal_builder_finish b2) (pdb_id db) block = Return r"
    "case r of
       Ok k \<Rightarrow> \<exists>i < length specs. k = prow d i \<and> block_in (specs ! i) block
     | Err e \<Rightarrow> (\<forall>s \<in> set specs. \<not> block_in s block) \<and> e = missing_block specs block"
    by blast
  then show ?thesis
    by (intro exI [of _ r]) (cases r; auto simp: d missing_block_def)
qed

text \<open>Two chunks with a gap between them, and blocks before, in the gap, in a chunk and after.\<close>

definition gap_specs :: "portal_spec list" where
  "gap_specs =
    [\<lparr>ps_id = sample_chunk_2, ps_version = 0, ps_timestamp = 1000, ps_workers = [0]\<rparr>,
     \<lparr>ps_id = sample_chunk_2\<lparr>dc_first_block := 300, dc_last_block := 399\<rparr>, ps_version = 0, ps_timestamp = 2000,
      ps_workers = [1]\<rparr>]"

definition gap_builder :: "u8 portal_builder" where
  "gap_builder = portal_check_continuity False portal_builder_new"

definition gap_staged :: "u8 portal_builder" where
  "gap_staged = the (stage_all portal_stage_gaps gap_specs gap_builder)"

definition gap_emitted :: "u8 portal_builder" where
  "gap_emitted =
    (case portal_dataset_finish None sample_portal_dataset gap_staged of Return (b, r) \<Rightarrow> b)"

lemma gap_run:
  "pb_columns gap_builder = portal_columns_default" "pb_last_block gap_builder = None"
  "\<forall>s \<in> set gap_specs. dc_wf (ps_id s)"
  "stage_all portal_stage_gaps gap_specs gap_builder = Some gap_staged"
  "portal_dataset_finish None sample_portal_dataset gap_staged = Return (gap_emitted, Ok ())"
proof -
  have "stage_all portal_stage_gaps gap_specs gap_builder \<noteq> None"
    by code_simp
  then show "stage_all portal_stage_gaps gap_specs gap_builder = Some gap_staged"
    by (auto simp: gap_staged_def)
  have "case portal_dataset_finish None sample_portal_dataset gap_staged of Return (b, Ok _) \<Rightarrow> True | _ \<Rightarrow> False"
    by code_simp
  then show "portal_dataset_finish None sample_portal_dataset gap_staged = Return (gap_emitted, Ok ())"
    by (auto simp: gap_emitted_def split: outcome.splits prod.splits result.splits)
qed code_simp+

lemma gap_emitted_code [code]:
  "gap_emitted = gap_builder
    \<lparr>pb_all_datasets :=
       [\<lparr>pd_id = ''s3://a'', pd_last_block = 399, pd_last_block_hash = None,
         pd_read_schema_id = 4, pd_first_blocks = [100, 300], pd_block_deltas = [99, 99],
         pd_hashes = [[98, 98, 98, 98, 98, 98, 0, 0], [98, 98, 98, 98, 98, 98, 0, 0]],
         pd_tops = [\<lparr>tr_first_chunk_index = 0, tr_top = 0\<rparr>],
         pd_timestamps = [1000, 2000], pd_versions = None,
         pd_worker_offsets = [0, 1, 2], pd_worker_indexes = [0, 1]\<rparr>],
     pb_staged_worker_indexes := [1]\<rparr>"
  by code_simp

theorem portal_find_chunk_correct_witness:
  "stage_all portal_stage gap_specs gap_builder = None \<and>
   map (portal_find_chunk lookup_index_pure (portal_builder_finish gap_emitted) ''s3://a'') [50, 250, 400] =
     [Return (Err BeforeFirst), Return (Err InGap), Return (Err AfterLast)] \<and>
   (\<exists>k. portal_find_chunk lookup_index_pure (portal_builder_finish gap_emitted) ''s3://a'' 350 =
      Return (Ok k) \<and> pk_index k = 1)"
proof -
  have asc: "sorted_wrt (<) (map pd_id (pb_all_datasets gap_emitted))" "ascending_chunks gap_specs"
    by code_simp+
  have here: "pdb_id sample_portal_dataset = ''s3://a''" "length gap_specs = 2"
    "dc_first_block (ps_id (hd gap_specs)) = 100" "dc_last_block (ps_id (last gap_specs)) = 399"
    "\<not> block_in (gap_specs ! 0) 50" "\<not> block_in (gap_specs ! 1) 50"
    "\<not> block_in (gap_specs ! 0) 250" "\<not> block_in (gap_specs ! 1) 250"
    "\<not> block_in (gap_specs ! 0) 400" "\<not> block_in (gap_specs ! 1) 400"
    "\<not> block_in (gap_specs ! 0) 350" "\<exists>s \<in> set gap_specs. block_in s 350"
    "stage_all portal_stage gap_specs gap_builder = None"
    by code_simp+
  note find = portal_find_chunk_correct [OF gap_run index_search.key_search_axioms asc, unfolded here]
  have index: "i = 0 \<or> i = 1" if "i < 2" for i :: nat
    using that by linarith
  have "portal_find_chunk lookup_index_pure (portal_builder_finish gap_emitted) ''s3://a'' 50 = Return (Err BeforeFirst)"
    using find [of 50] here(5,6) index by (fastforce split: result.splits)
  moreover have "portal_find_chunk lookup_index_pure (portal_builder_finish gap_emitted) ''s3://a'' 250 = Return (Err InGap)"
    using find [of 250] here(7,8) index by (fastforce split: result.splits)
  moreover have "portal_find_chunk lookup_index_pure (portal_builder_finish gap_emitted) ''s3://a'' 400 = Return (Err AfterLast)"
    using find [of 400] here(9,10) index by (fastforce split: result.splits)
  moreover have "\<exists>k. portal_find_chunk lookup_index_pure (portal_builder_finish gap_emitted) ''s3://a'' 350 =
      Return (Ok k) \<and> pk_index k = 1"
    using find [of 350] here(11,12) index by (fastforce split: result.splits)
  ultimately show ?thesis
    using here(13) by simp
qed

end
