(* ===== verification/Portal_Guarantees.thy ===== *)
theory Portal_Guarantees
  imports Portal_Properties Worker_Guarantees
begin

text \<open>
  Further guarantees of the portal-facing assignment: routing by timestamp, gap-free routing of
  contiguous datasets, worker ids by index, and accessors that cannot panic on a loaded assignment.
\<close>

section \<open>Routing by timestamp\<close>

lemma portal_timestamp_boundary:
  assumes em: "portal_emitted d specs" and "sorted (map ps_timestamp specs)" and "i < length specs"
  shows "ps_timestamp (specs ! i) < ts \<longleftrightarrow> i < partition_point (length specs) (\<lambda>i. pd_timestamps d ! i < ts)"
proof -
  have col: "pd_timestamps d ! i = ps_timestamp (specs ! i)" if "i < length specs" for i
    using em that by (simp add: portal_emitted_def)
  have "ps_timestamp (specs ! i) \<le> ps_timestamp (specs ! j)" if "i \<le> j" "j < length specs" for i j
    using sorted_nth_mono [OF assms(2) that(1)] that by simp
  then have "prefix_pred (length specs) (\<lambda>i. pd_timestamps d ! i < ts)"
    unfolding prefix_pred_def using col by (metis order.strict_trans1)
  from partition_point_prefix [OF this assms(3)] show ?thesis
    by (simp add: col [OF assms(3)])
qed

text \<open>
  C26: When the recorded timestamps ascend, \<^verbatim>\<open>find_chunk_by_timestamp\<close> returns the first chunk whose
  timestamp is at or after the one asked for, the first of a run of equal ones, and reports
  \<open>AfterLast\<close> exactly when every chunk is earlier.
\<close>
theorem portal_find_by_timestamp_correct:
  assumes "pb_columns b = portal_columns_default" "pb_last_block b = None"
    and "\<forall>s \<in> set specs. dc_wf (ps_id s)" "stage_all portal_stage specs b = Some b1"
    and "portal_dataset_finish h db b1 = Return (b2, Ok ())"
    and "key_search lk" "sorted_wrt (<) (map pd_id (pb_all_datasets b2))"
    and "sorted (map ps_timestamp specs)"
  shows "(\<forall>s \<in> set specs. ps_timestamp s < ts) \<and>
      portal_find_chunk_by_timestamp lk (portal_builder_finish b2) (pdb_id db) ts = Return (Err AfterLast) \<or>
    (\<exists>i < length specs. (\<forall>j < i. ps_timestamp (specs ! j) < ts) \<and> ts \<le> ps_timestamp (specs ! i) \<and>
      portal_find_chunk_by_timestamp lk (portal_builder_finish b2) (pdb_id db) ts =
        Return (Ok \<lparr>pk_dataset = last (pb_all_datasets b2), pk_index = of_nat i\<rparr>))"
proof -
  obtain d where d: "pb_all_datasets b2 = pb_all_datasets b1 @ [d]" "pd_id d = pdb_id db"
    "pd_last_block_hash d = h" "pd_read_schema_id d = pdb_read_schema_id db"
    and em: "portal_emitted d specs"
    by (rule portal_staged_emitted [OF assms(1-5)])
  have get: "portal_get_dataset lk (portal_builder_finish b2) (pdb_id db) = Some d"
    using portal_get_dataset_finish [OF assms(6,7), of d] d by simp
  let ?n = "length specs"
  define p where "p = partition_point ?n (\<lambda>i. pd_timestamps d ! i < ts)"
  note iff = portal_timestamp_boundary [OF em assms(8), of _ ts, folded p_def]
  have le: "p \<le> ?n"
    by (simp add: p_def partition_point_boundary)
  show ?thesis
  proof (cases "p = ?n")
    case True
    then have "portal_find_chunk_by_timestamp lk (portal_builder_finish b2) (pdb_id db) ts =
        Return (Err AfterLast)"
      by (simp add: portal_find_chunk_by_timestamp_def get prow_count [OF em] p_def [symmetric] Let_def)
    moreover have "\<forall>s \<in> set specs. ps_timestamp s < ts"
      using True iff by (auto simp: in_set_conv_nth)
    ultimately show ?thesis
      by blast
  next
    case False
    with le have "p < ?n"
      by simp
    then have "portal_find_chunk_by_timestamp lk (portal_builder_finish b2) (pdb_id db) ts =
        Return (Ok (prow d p))"
      using False prow_chunk_at [OF em \<open>p < ?n\<close>]
      by (simp add: portal_find_chunk_by_timestamp_def get prow_count [OF em] p_def [symmetric] Let_def)
    moreover have "\<forall>j < p. ps_timestamp (specs ! j) < ts" "ts \<le> ps_timestamp (specs ! p)"
      using iff \<open>p < ?n\<close> by (auto simp: not_less [symmetric])
    ultimately show ?thesis
      using \<open>p < ?n\<close> by (auto simp: d)
  qed
qed

theorem portal_find_by_timestamp_correct_witness:
  "portal_find_chunk_by_timestamp lookup_index_pure (portal_builder_finish sample_portal_emitted)
      ''s3://a'' 1500 =
    Return (Ok \<lparr>pk_dataset = last (pb_all_datasets sample_portal_emitted), pk_index = 1\<rparr>)"
proof -
  have hyps: "sorted_wrt (<) (map pd_id (pb_all_datasets sample_portal_emitted))"
    "sorted (map ps_timestamp sample_portal_specs)"
    by code_simp+
  have name: "pdb_id sample_portal_dataset = ''s3://a''"
    by code_simp
  have ts: "map ps_timestamp sample_portal_specs = [1000, 2000, 2000]"
    by (simp add: sample_portal_specs_def)
  then have at: "ps_timestamp (sample_portal_specs ! 0) = 1000" "ps_timestamp (sample_portal_specs ! 1) = 2000"
    "length sample_portal_specs = 3"
    by (simp_all add: sample_portal_specs_def)
  have notall: "\<not> (\<forall>s \<in> set sample_portal_specs. ps_timestamp s < 1500)"
    by (simp add: sample_portal_specs_def)
  from portal_find_by_timestamp_correct [OF sample_portal_run index_search.key_search_axioms hyps, of 1500] notall
  obtain i where i: "i < 3" "\<forall>j < i. ps_timestamp (sample_portal_specs ! j) < 1500"
    "1500 \<le> ps_timestamp (sample_portal_specs ! i)"
    "portal_find_chunk_by_timestamp lookup_index_pure (portal_builder_finish sample_portal_emitted)
      (pdb_id sample_portal_dataset) 1500 =
      Return (Ok \<lparr>pk_dataset = last (pb_all_datasets sample_portal_emitted), pk_index = of_nat i\<rparr>)"
    unfolding at(3) by blast
  have "i \<noteq> 0"
    using i(3) at(1) by (cases "i = 0") simp_all
  moreover have "\<not> 1 < i"
    using i(2) at(2) by auto
  ultimately have "i = 1"
    by simp
  with i(4) name show ?thesis
    by simp
qed

section \<open>Contiguous datasets\<close>

lemma portal_stage_continues:
  assumes "portal_stage s b = Return (b', Ok ())" "dc_wf (ps_id s)"
  shows "continues (pb_last_block b) (dc_first_block (ps_id s)) \<and>
    pb_last_block b' = Some (dc_last_block (ps_id s))"
proof -
  let ?b = "b\<lparr>pb_staged_worker_indexes := ps_workers s\<rparr>"
  have "portal_push_chunk (dc_top (ps_id s)) (dc_first_block (ps_id s), dc_last_block (ps_id s))
      (dc_last_hash (ps_id s)) (ps_version s) (ps_timestamp s) ?b = (b', Ok ())"
    using assms(1) by (simp add: portal_stage_push [OF assms(2)])
  from portal_push_cases [OF this] is_err_continuity [of "pb_last_block b"] show ?thesis
    by auto (metis is_err_simps(1))
qed

definition consecutive :: "portal_spec list \<Rightarrow> bool" where
  "consecutive specs =
    (\<forall>i. Suc i < length specs \<longrightarrow>
       dc_last_block (ps_id (specs ! i)) + 1 = dc_first_block (ps_id (specs ! Suc i)))"

lemma portal_stage_all_consecutive:
  assumes "stage_all portal_stage specs b = Some b'" "\<forall>s \<in> set specs. dc_wf (ps_id s)"
  shows "consecutive specs \<and> (specs \<noteq> [] \<longrightarrow> continues (pb_last_block b) (dc_first_block (ps_id (hd specs))))"
  using assms
proof (induction specs arbitrary: b)
  case (Cons s specs)
  then obtain b1 where s: "portal_stage s b = Return (b1, Ok ())"
    and rest: "stage_all portal_stage specs b1 = Some b'"
    by (auto split: outcome.splits prod.splits result.splits)
  note cont = portal_stage_continues [OF s]
  have "consecutive specs" "specs \<noteq> [] \<longrightarrow> continues (pb_last_block b1) (dc_first_block (ps_id (hd specs)))"
    using Cons.IH [OF rest] Cons.prems(2) by simp_all
  then show ?case
    using cont Cons.prems(2)
    by (auto simp: consecutive_def continues_def nth_Cons hd_conv_nth split: nat.splits)
qed (simp add: consecutive_def)

lemma consecutive_less:
  assumes "consecutive specs" "\<forall>s \<in> set specs. dc_wf (ps_id s)" "Suc i < length specs"
    and "dc_last_block (ps_id (specs ! i)) \<noteq> - 1"
  shows "dc_last_block (ps_id (specs ! i)) < dc_first_block (ps_id (specs ! Suc i))"
proof -
  have "dc_first_block (ps_id (specs ! Suc i)) = dc_last_block (ps_id (specs ! i)) + 1"
    using assms(1,3) by (simp add: consecutive_def)
  then show ?thesis
    using u64_less_Suc [OF assms(4)] by simp
qed

lemma consecutive_ascending:
  assumes "consecutive specs" "\<forall>s \<in> set specs. dc_wf (ps_id s)"
    and "\<forall>s \<in> set specs. dc_last_block (ps_id s) \<noteq> - 1"
  shows "ascending_chunks specs"
proof -
  let ?R = "\<lambda>s t. dc_last_block (ps_id s) < dc_first_block (ps_id t) \<and> dc_wf (ps_id t)"
  have trans: "transp ?R"
    by (rule transpI) (auto simp: dc_wf_def)
  have "?R (specs ! i) (specs ! Suc i)" if "Suc i < length specs" for i
    using consecutive_less [OF assms(1,2) that] assms(2,3) that by simp
  then have "sorted_wrt ?R specs"
    unfolding sorted_wrt_iff_nth_Suc_transp [OF trans] by blast
  then show ?thesis
    unfolding ascending_chunks_def by (rule sorted_wrt_mono_rel [rotated]) simp
qed

text \<open>Consecutive chunks leave no gap.\<close>

lemma consecutive_covers:
  assumes "consecutive specs" "\<forall>s \<in> set specs. dc_wf (ps_id s)"
    and "\<forall>s \<in> set specs. dc_last_block (ps_id s) \<noteq> - 1" "i < length specs"
    and "dc_first_block (ps_id (hd specs)) \<le> block" "block \<le> dc_last_block (ps_id (specs ! i))"
  shows "\<exists>s \<in> set specs. block_in s block"
  using assms(4,6)
proof (induction i)
  case 0
  then show ?case
    using assms(5) by (intro bexI [of _ "specs ! 0"]) (simp_all add: block_in_def hd_conv_nth)
next
  case (Suc i)
  show ?case
  proof (cases "block \<le> dc_last_block (ps_id (specs ! i))")
    case True
    with Suc show ?thesis by simp
  next
    case False
    then have "dc_last_block (ps_id (specs ! i)) + 1 \<le> block"
      using assms(3) Suc.prems(1) by (intro u64_Suc_le) simp_all
    moreover have "dc_last_block (ps_id (specs ! i)) + 1 = dc_first_block (ps_id (specs ! Suc i))"
      using assms(1) Suc.prems(1) by (simp add: consecutive_def)
    ultimately show ?thesis
      using Suc.prems by (intro bexI [of _ "specs ! Suc i"]) (simp_all add: block_in_def)
  qed
qed

text \<open>
  C9: A dataset whose chunks were all accepted has no gaps: every block from the first chunk's first
  to the dataset's last is routed to a chunk that covers it. Block numbers stay below
  \<^verbatim>\<open>u64::MAX\<close>, where the successor of the last block would wrap.
\<close>
theorem portal_contiguous_routing:
  assumes "pb_columns b = portal_columns_default" "pb_last_block b = None"
    and "\<forall>s \<in> set specs. dc_wf (ps_id s)" "stage_all portal_stage specs b = Some b1"
    and "portal_dataset_finish h db b1 = Return (b2, Ok ())"
    and "key_search lk" "sorted_wrt (<) (map pd_id (pb_all_datasets b2))"
    and "\<forall>s \<in> set specs. dc_last_block (ps_id s) \<noteq> - 1"
    and "dc_first_block (ps_id (hd specs)) \<le> block" "block \<le> dc_last_block (ps_id (last specs))"
  shows "\<exists>k f l. portal_find_chunk lk (portal_builder_finish b2) (pdb_id db) block = Return (Ok k) \<and>
    pk_first_block k = Return f \<and> pk_last_block k = Return l \<and> f \<le> block \<and> block \<le> l"
proof -
  obtain d where d: "pb_all_datasets b2 = pb_all_datasets b1 @ [d]" "pd_id d = pdb_id db"
    "pd_last_block_hash d = h" "pd_read_schema_id d = pdb_read_schema_id db"
    and em: "portal_emitted d specs"
    by (rule portal_staged_emitted [OF assms(1-5)])
  have get: "portal_get_dataset lk (portal_builder_finish b2) (pdb_id db) = Some d"
    using portal_get_dataset_finish [OF assms(6,7), of d] d by simp
  have cons: "consecutive specs" and ne: "specs \<noteq> []"
    using portal_stage_all_consecutive [OF assms(4,3)] em by (simp_all add: portal_emitted_def)
  have "\<exists>s \<in> set specs. block_in s block"
    using consecutive_covers [OF cons assms(3,8), of "length specs - 1" block] assms(9,10) ne
    by (simp add: last_conv_nth)
  moreover obtain r where "portal_find_chunk lk (portal_builder_finish b2) (pdb_id db) block = Return r"
    "case r of Ok k \<Rightarrow> \<exists>i < length specs. k = prow d i \<and> block_in (specs ! i) block
     | Err e \<Rightarrow> (\<forall>s \<in> set specs. \<not> block_in s block) \<and> e = missing_block specs block"
    using portal_find_in_emitted [OF em consecutive_ascending [OF cons assms(3,8)] get, of block] by blast
  ultimately obtain i where i: "i < length specs" "block_in (specs ! i) block"
    "portal_find_chunk lk (portal_builder_finish b2) (pdb_id db) block = Return (Ok (prow d i))"
    by (cases r) auto
  then show ?thesis
    using prow_fields(1) [OF em i(1)] prow_last_block [OF em i(1)] by (auto simp: block_in_def)
qed

theorem portal_contiguous_routing_witness:
  "\<exists>k f l. portal_find_chunk lookup_index_pure (portal_builder_finish sample_portal_emitted)
      (pdb_id sample_portal_dataset) 250 = Return (Ok k) \<and>
    pk_first_block k = Return f \<and> pk_last_block k = Return l \<and> f \<le> 250 \<and> 250 \<le> l"
proof -
  have hyps: "sorted_wrt (<) (map pd_id (pb_all_datasets sample_portal_emitted))"
    "\<forall>s \<in> set sample_portal_specs. dc_last_block (ps_id s) \<noteq> - 1"
    "dc_first_block (ps_id (hd sample_portal_specs)) \<le> 250"
    "250 \<le> dc_last_block (ps_id (last sample_portal_specs))"
    by code_simp+
  show ?thesis
    by (rule portal_contiguous_routing [OF sample_portal_run index_search.key_search_axioms hyps])
qed

section \<open>Loaded portal assignments\<close>

lemma portal_check_dataset_Ok:
  "portal_check_dataset d = Ok () \<longleftrightarrow>
    (let n = length (pd_first_blocks d) in
     length (pd_block_deltas d) = n \<and> length (pd_hashes d) = n \<and> length (pd_timestamps d) = n \<and>
     length (pd_worker_offsets d) - 1 = n \<and> (\<forall>c. pd_versions d = Some c \<longrightarrow> length c = n) \<and>
     pd_tops d \<noteq> [] \<and> tr_first_chunk_index (hd (pd_tops d)) = 0)"
  unfolding portal_check_dataset_def check_columns_Ok
  by (auto simp: portal_dense_def first_run_def Let_def hd_conv_nth split: option.splits if_splits)

lemma portal_last_total:
  assumes "portal_check_dataset d = Ok ()" "unat j < length (pd_first_blocks d)"
  shows "no_panic (pk_last_block \<lparr>pk_dataset = d, pk_index = j\<rparr>)"
  using assms(1) [unfolded portal_check_dataset_Ok Let_def] assms(2) by (simp add: pk_last_block_def pk_first_block_def)

text \<open>The two searches do not panic on a dataset that passed the checks.\<close>

lemma portal_finds_total:
  assumes ok: "portal_check_dataset d = Ok ()" and count: "portal_chunk_count d \<le> U32_MAX + 1"
    and get: "portal_get_dataset lk a name = Some d"
  shows "no_panic (portal_find_chunk lk a name block) \<and> no_panic (portal_find_chunk_by_timestamp lk a name ts)"
proof -
  have fits: "unat (of_nat j :: u32) = j" if "j < length (pd_first_blocks d)" for j
    using count that by (simp add: portal_chunk_count_def)
  define above where
    "above = partition_point (length (pd_first_blocks d)) (\<lambda>i. pd_first_blocks d ! i \<le> block)"
  have le: "above \<le> length (pd_first_blocks d)"
    by (simp add: above_def partition_point_boundary)
  have "no_panic (portal_find_chunk lk a name block)"
  proof (cases above)
    case 0
    then show ?thesis
      by (simp add: portal_find_chunk_def get Let_def above_def [symmetric])
  next
    case (Suc j)
    with le have "j < length (pd_first_blocks d)"
      by simp
    with fits [OF this] portal_last_total [OF ok, of "of_nat j"] Suc show ?thesis
      by (simp add: portal_find_chunk_def get Let_def above_def [symmetric] portal_chunk_at_def
          portal_chunk_count_def)
  qed
  moreover have "no_panic (portal_find_chunk_by_timestamp lk a name ts)"
    using partition_point_boundary(1) [of "length (pd_first_blocks d)" "\<lambda>i. pd_timestamps d ! i < ts"] fits
    by (simp add: portal_find_chunk_by_timestamp_def get Let_def portal_chunk_at_def portal_chunk_count_def)
  ultimately show ?thesis
    by simp
qed

text \<open>
  C39: On any portal assignment that loads, no accessor of a chunk below the chunk count panics, and
  neither search does, whatever the columns contain: an unsorted column can only give a wrong answer.
  The number of chunks is assumed to fit the 32-bit chunk index.
\<close>
theorem portal_accessors_total:
  assumes "portal_from_owned verify buf = Ok a" "d \<in> set (pa_datasets a)"
    and "portal_chunk_at d index = Some k" "portal_chunk_count d \<le> U32_MAX + 1"
    and "portal_get_dataset lk a name = Some d"
  shows "no_panic (pk_first_block k) \<and> no_panic (pk_last_block k) \<and>
    no_panic (pk_last_block_timestamp k) \<and> no_panic (pk_version k) \<and> no_panic (pk_top k) \<and>
    no_panic (pk_hash k) \<and> no_panic (pk_id k) \<and> no_panic (pk_worker_indexes k) \<and>
    no_panic (portal_find_chunk lk a name block) \<and>
    no_panic (portal_find_chunk_by_timestamp lk a name ts)"
proof -
  have "check_datasets portal_check_dataset (pa_datasets a) = Ok ()"
    using assms(1) by (auto simp: portal_from_owned_def split: result.splits)
  then have ok: "portal_check_dataset d = Ok ()"
    using assms(2) by (simp add: check_datasets_Ok)
  note cols = ok [unfolded portal_check_dataset_Ok Let_def]
  have k: "k = \<lparr>pk_dataset = d, pk_index = index\<rparr>" "unat index < length (pd_first_blocks d)"
    using assms(3) by (auto simp: portal_chunk_at_def portal_chunk_count_def split: if_splits)
  have base: "no_panic (pk_first_block k)" "no_panic (pk_last_block k)"
      "no_panic (pk_last_block_timestamp k)" "no_panic (pk_hash k)"
    using cols k portal_last_total [OF ok] by (simp_all add: pk_first_block_def pk_last_block_timestamp_def pk_hash_def)
  have more: "no_panic (pk_version k)" "no_panic (pk_worker_indexes k)"
    using cols k by (auto simp: pk_version_def pk_worker_indexes_def csr_slice_def vec_get_def
        split: option.splits)
  have tp: "no_panic (pk_top k)"
    using cols k top_at_defined [of "pd_tops d" index] by (simp add: pk_top_def)
  obtain t f l h where vals: "pk_top k = Return t" "pk_first_block k = Return f"
    "pk_last_block k = Return l" "pk_hash k = Return h"
    using tp base unfolding no_panic_def by metis
  have ident: "no_panic (pk_id k)"
    by (auto simp: pk_id_def vals split: option.splits)
  show ?thesis
    using base more tp ident portal_finds_total [OF ok assms(4,5)] by simp
qed

theorem portal_accessors_total_witness:
  "\<exists>d k. d \<in> set (pa_datasets (portal_builder_finish sample_portal_emitted)) \<and>
    portal_chunk_at d 1 = Some k \<and> no_panic (pk_id k) \<and>
    no_panic (portal_find_chunk lookup_index_pure (portal_builder_finish sample_portal_emitted) ''s3://a'' 5)"
proof -
  let ?a = "portal_builder_finish sample_portal_emitted"
  let ?d = "hd (pa_datasets ?a)"
  have load: "portal_from_owned Ok ?a = Ok ?a"
    by code_simp
  have d: "?d \<in> set (pa_datasets ?a)" "portal_chunk_at ?d 1 = Some \<lparr>pk_dataset = ?d, pk_index = 1\<rparr>"
    "portal_chunk_count ?d \<le> U32_MAX + 1"
    by code_simp+
  have get: "portal_get_dataset lookup_index_pure ?a ''s3://a'' = Some ?d"
    by code_simp
  from portal_accessors_total [OF load d get, of 5 0] d show ?thesis
    by blast
qed

lemma portal_add_all_entries:
  assumes "\<forall>w \<in> set ws. length (to_bytes (fst w)) = WORKER_ID_LEN"
    and "add_all (\<lambda>(p, st). portal_add_worker to_bytes p st) ws b = Return b'"
  shows "map snd (pb_worker_entries b') = map snd (pb_worker_entries b) @
    map (\<lambda>w. \<lparr>pe_worker_id = to_bytes (fst w), pe_status = status_to_fb (snd w)\<rparr>) ws"
  using assms
proof (induction ws arbitrary: b)
  case (Cons w ws)
  then obtain b1 where b1: "portal_add_worker to_bytes (fst w) (snd w) b = Return b1"
    "add_all (\<lambda>(p, st). portal_add_worker to_bytes p st) ws b1 = Return b'"
    by (auto simp: case_prod_unfold)
  moreover have "map snd (pb_worker_entries b1) = map snd (pb_worker_entries b) @
      [\<lparr>pe_worker_id = to_bytes (fst w), pe_status = status_to_fb (snd w)\<rparr>]"
    using b1(1) Cons.prems(1)
    by (auto simp: portal_add_worker_def worker_id_from_def Let_def split: if_splits)
  ultimately show ?case
    using Cons.IH [OF _ b1(2)] Cons.prems(1) by simp
qed simp

text \<open>
  Worker indexes resolve to the workers added. After adding workers in ascending order to an empty
  portal builder and finishing it, \<^verbatim>\<open>get_worker_id\<close> at index \<open>i\<close> gives the \<open>i\<close>-th peer id added, and
  the entry carries its status; adding a worker out of order panics instead.
\<close>
theorem portal_worker_ids:
  assumes "pb_worker_entries b = []" "pb_last_peer_id b = None"
    and "\<forall>(p, st) \<in> set ws. codec_ok to_bytes from_bytes p"
    and "add_all (\<lambda>(p, st). portal_add_worker to_bytes p st) ws b = Return b'"
  shows "(\<forall>i < length ws. i < 65536 \<longrightarrow>
      portal_get_worker_id from_bytes (portal_builder_finish b') (of_nat i) = Return (Some (fst (ws ! i))) \<and>
      portal_worker_status (pa_workers (portal_builder_finish b') ! i) = snd (ws ! i)) \<and>
    sorted_wrt (<) (map fst ws) \<and>
    (\<forall>p st. ws \<noteq> [] \<and> p \<le> fst (last ws) \<longrightarrow> (\<exists>m. portal_add_worker to_bytes p st b' = Panic m))"
proof (intro conjI allI impI)
  have len: "\<forall>w \<in> set ws. length (to_bytes (fst w)) = WORKER_ID_LEN"
    using assms(3) by (auto simp: codec_ok_def)
  have reg: "registered to_bytes (map fst (pb_worker_entries b')) (pb_last_peer_id b') (map fst ws)"
    using portal_reg.registered_add_all [of to_bytes b "[]", OF _ len assms(4)] assms(1,2) by simp
  then show "sorted_wrt (<) (map fst ws)"
    by (simp add: registered_def)
  have entries: "map snd (pb_worker_entries b') =
      map (\<lambda>w. \<lparr>pe_worker_id = to_bytes (fst w), pe_status = status_to_fb (snd w)\<rparr>) ws"
    using len assms(4) portal_add_all_entries [of ws to_bytes b b'] assms(1) by simp
  show "portal_get_worker_id from_bytes (portal_builder_finish b') (of_nat i) = Return (Some (fst (ws ! i)))"
    if "i < length ws" "i < 65536" for i
  proof -
    have "from_bytes (to_bytes (fst (ws ! i))) = Some (fst (ws ! i))"
      using assms(3) nth_mem [OF that(1)] by (auto simp: codec_ok_def)
    then show ?thesis
      using that by (simp add: portal_get_worker_id_def portal_builder_finish_def entries
          worker_id_try_into_def unat_of_nat take_bit_nat_eq_self_iff)
  qed
  show "portal_worker_status (pa_workers (portal_builder_finish b') ! i) = snd (ws ! i)"
    if "i < length ws" "i < 65536" for i
    using that by (simp add: portal_builder_finish_def entries portal_worker_status_def)
  show "\<exists>m. portal_add_worker to_bytes p st b' = Panic m" if "ws \<noteq> [] \<and> p \<le> fst (last ws)" for p st
    using portal_reg.add_panics [of b' "(p, st)" to_bytes] reg that
    by (auto simp: registered_def out_of_order_def last_map)
qed

theorem portal_worker_ids_witness:
  "\<exists>b'. add_all (\<lambda>(p, st). portal_add_worker sample_to_bytes p st) [(3, StatusOk), (5, Unreliable)]
      portal_builder_new = Return b' \<and>
    portal_get_worker_id sample_from_bytes (portal_builder_finish b') 1 = Return (Some 5)"
proof -
  let ?ws = "[(3, StatusOk), (5, Unreliable)] :: (u8 \<times> worker_status) list"
  have clean: "pb_worker_entries (portal_builder_new :: u8 portal_builder) = []"
    "pb_last_peer_id (portal_builder_new :: u8 portal_builder) = None"
    by (simp_all add: portal_builder_new_def)
  have codec: "\<forall>(p, st) \<in> set ?ws. codec_ok sample_to_bytes sample_from_bytes p"
    by (simp add: sample_codec)
  obtain b' where b': "add_all (\<lambda>(p, st). portal_add_worker sample_to_bytes p st) ?ws portal_builder_new = Return b'"
    using portal_reg.add_all_defined [of sample_to_bytes portal_builder_new "[]" ?ws] clean by auto
  from portal_worker_ids [OF clean codec b'] b' show ?thesis
    by (intro exI [of _ b']) (auto dest!: spec [of _ 1])
qed

end
