(* ===== verification/Legacy_Builder.thy ===== *)
theory Legacy_Builder
  imports Worker_Builder Registry Staging
begin

text \<open>
  The combined assignment served to workers and portals alike: \<^verbatim>\<open>AssignmentBuilder\<close> and
  \<^verbatim>\<open>ChunkBuilder\<close> of \<^verbatim>\<open>crates/assignments/src/builder.rs\<close>. One chunk is one table here, built by
  setters whose required fields are checked when the table is written.
\<close>

record ('p, 'sk, 'rng) assignment_builder =
  lb_rng :: 'rng
  lb_files_list_offsets :: "(string list \<times> file_url list) list"
  lb_all_chunks :: "fb_chunk list"
  lb_last_block :: "u64 option"
  lb_current_chunks :: "fb_chunk list"
  lb_current_dataset_id :: "string option"
  lb_all_datasets :: "fb_dataset list"
  lb_worker_assignments :: "(u8 list \<times> worker_entry) list"
  lb_last_peer_id :: "'p option"
  lb_cloudflare_storage_secret :: string
  lb_common_identity :: "u8 list"
  lb_common_secret_key :: 'sk
  lb_check_continuity :: bool

definition assignment_builder_new ::
  "('p, 'sk, 'rng) crypto \<Rightarrow> string \<Rightarrow> 'rng \<Rightarrow> ('p, 'sk, 'rng) assignment_builder" where
  "assignment_builder_new cr secret rng =
    (let (common_secret_key, rng') = cr_generate_key cr rng
     in \<lparr>lb_rng = rng', lb_files_list_offsets = [], lb_all_chunks = [], lb_last_block = None,
         lb_current_chunks = [], lb_current_dataset_id = None, lb_all_datasets = [],
         lb_worker_assignments = [], lb_last_peer_id = None, lb_cloudflare_storage_secret = secret,
         lb_common_identity = cr_public_key cr common_secret_key,
         lb_common_secret_key = common_secret_key, lb_check_continuity = True\<rparr>)"

definition legacy_check_continuity ::
  "bool \<Rightarrow> ('p, 'sk, 'rng) assignment_builder \<Rightarrow> ('p, 'sk, 'rng) assignment_builder" where
  "legacy_check_continuity check b = b\<lparr>lb_check_continuity := check\<rparr>"

section \<open>Chunks\<close>

record legacy_chunk_builder =
  lc_block_range :: "block_range option"
  lc_id :: "string option"
  lc_dataset_id :: "string option"
  lc_size :: "u32 option"
  lc_last_block_hash :: "string option"
  lc_last_block_timestamp :: "u64 option"
  lc_dataset_base_url :: "string option"
  lc_files :: "file_url list option"
  lc_worker_indexes :: "u16 list option"

definition legacy_new_chunk :: legacy_chunk_builder where
  "legacy_new_chunk =
    \<lparr>lc_block_range = None, lc_id = None, lc_dataset_id = None, lc_size = None,
     lc_last_block_hash = None, lc_last_block_timestamp = None, lc_dataset_base_url = None,
     lc_files = None, lc_worker_indexes = None\<rparr>"

definition legacy_chunk_id :: "data_chunk \<Rightarrow> legacy_chunk_builder \<Rightarrow> legacy_chunk_builder outcome" where
  "legacy_chunk_id id' cb = outcome_map (\<lambda>s. cb\<lparr>lc_id := Some s\<rparr>) (data_chunk_display id')"

definition legacy_chunk_dataset_id :: "string \<Rightarrow> legacy_chunk_builder \<Rightarrow> legacy_chunk_builder" where
  "legacy_chunk_dataset_id dataset_id cb = cb\<lparr>lc_dataset_id := Some dataset_id\<rparr>"

definition legacy_chunk_block_range :: "block_range \<Rightarrow> legacy_chunk_builder \<Rightarrow> legacy_chunk_builder" where
  "legacy_chunk_block_range rng cb = cb\<lparr>lc_block_range := Some rng\<rparr>"

definition legacy_chunk_size :: "u32 \<Rightarrow> legacy_chunk_builder \<Rightarrow> legacy_chunk_builder" where
  "legacy_chunk_size sz cb = cb\<lparr>lc_size := Some sz\<rparr>"

definition legacy_chunk_last_block_hash :: "string \<Rightarrow> legacy_chunk_builder \<Rightarrow> legacy_chunk_builder" where
  "legacy_chunk_last_block_hash hash cb = cb\<lparr>lc_last_block_hash := Some hash\<rparr>"

definition legacy_chunk_last_block_timestamp :: "u64 \<Rightarrow> legacy_chunk_builder \<Rightarrow> legacy_chunk_builder" where
  "legacy_chunk_last_block_timestamp timestamp cb = cb\<lparr>lc_last_block_timestamp := Some timestamp\<rparr>"

definition legacy_chunk_dataset_base_url :: "string \<Rightarrow> legacy_chunk_builder \<Rightarrow> legacy_chunk_builder" where
  "legacy_chunk_dataset_base_url url cb = cb\<lparr>lc_dataset_base_url := Some url\<rparr>"

definition legacy_chunk_worker_indexes :: "u16 list \<Rightarrow> legacy_chunk_builder \<Rightarrow> legacy_chunk_builder" where
  "legacy_chunk_worker_indexes indexes cb = cb\<lparr>lc_worker_indexes := Some indexes\<rparr>"

text \<open>Equal file lists share one vector, remembered by the list of names.\<close>

definition cache_files_list ::
  "string list \<Rightarrow> ('p, 'sk, 'rng) assignment_builder \<Rightarrow> ('p, 'sk, 'rng) assignment_builder \<times> file_url list"
where
  "cache_files_list files b =
    (case map_of (lb_files_list_offsets b) files of
       Some offset \<Rightarrow> (b, offset)
     | None \<Rightarrow>
         let offset = map (\<lambda>f. \<lparr>fu_filename = f, fu_url = f\<rparr>) files
         in (b\<lparr>lb_files_list_offsets := (files, offset) # lb_files_list_offsets b\<rparr>, offset))"

definition legacy_chunk_files ::
  "string list \<Rightarrow> ('p, 'sk, 'rng) assignment_builder \<Rightarrow> legacy_chunk_builder \<Rightarrow>
    ('p, 'sk, 'rng) assignment_builder \<times> legacy_chunk_builder"
where
  "legacy_chunk_files files b cb =
    (let (b, offset) = cache_files_list files b in (b, cb\<lparr>lc_files := Some offset\<rparr>))"

definition add_chunk ::
  "fb_chunk \<Rightarrow> string \<Rightarrow> block_range \<Rightarrow> ('p, 'sk, 'rng) assignment_builder \<Rightarrow>
    ('p, 'sk, 'rng) assignment_builder \<times> (string, unit) result"
where
  "add_chunk offset dataset block_range b =
    (let result = continuity (lb_last_block b) (fst block_range)
     in (if result = Ok () \<or> \<not> lb_check_continuity b then
           b\<lparr>lb_all_chunks := lb_all_chunks b @ [offset],
             lb_last_block := Some (snd block_range),
             lb_current_chunks := lb_current_chunks b @ [offset],
             lb_current_dataset_id := Some dataset\<rparr>
         else b, result))"

text \<open>
  Writing the table panics when a field the schema requires is missing (\<^verbatim>\<open>fbb_.required\<close>, in field
  order), so the final \<^verbatim>\<open>expect\<close> on the dataset id cannot fail.
\<close>

definition legacy_chunk_finish ::
  "('p, 'sk, 'rng) assignment_builder \<Rightarrow> legacy_chunk_builder \<Rightarrow>
    (('p, 'sk, 'rng) assignment_builder \<times> (string, unit) result) outcome"
where
  "legacy_chunk_finish b cb =
    outcome_bind (expect ''Block range must be set'' (lc_block_range cb)) (\<lambda>block_range.
    outcome_bind (expect ''Size must be set'' (lc_size cb)) (\<lambda>size'.
    outcome_bind (expect ''id'' (lc_id cb)) (\<lambda>id'.
    outcome_bind (expect ''dataset_id'' (lc_dataset_id cb)) (\<lambda>dataset_id.
    outcome_bind (expect ''dataset_base_url'' (lc_dataset_base_url cb)) (\<lambda>dataset_base_url.
    outcome_bind (expect ''files'' (lc_files cb)) (\<lambda>files.
    outcome_bind (expect ''worker_indexes'' (lc_worker_indexes cb)) (\<lambda>worker_indexes.
    Return (add_chunk
      \<lparr>ck_first_block = fst block_range, ck_id = id', ck_dataset_id = dataset_id, ck_size = size',
       ck_last_block_hash = lc_last_block_hash cb,
       ck_last_block_timestamp = lc_last_block_timestamp cb,
       ck_dataset_base_url = dataset_base_url, ck_base_url = id', ck_files = files,
       ck_worker_indexes = worker_indexes\<rparr>
      dataset_id block_range b))))))))"

section \<open>Datasets and workers\<close>

definition finish_dataset ::
  "('p, 'sk, 'rng) assignment_builder \<Rightarrow> ('p, 'sk, 'rng) assignment_builder outcome" where
  "finish_dataset b =
    outcome_bind (expect ''At least one chunk should be present in the dataset'' (lb_last_block b))
      (\<lambda>last_block.
    outcome_map (\<lambda>id'.
      b\<lparr>lb_current_dataset_id := None, lb_last_block := None,
        lb_all_datasets := lb_all_datasets b @
          [\<lparr>ds_id = id', ds_chunks = lb_current_chunks b, ds_last_block = last_block\<rparr>],
        lb_current_chunks := []\<rparr>)
      (expect ''id'' (lb_current_dataset_id b)))"

definition legacy_generate_encrypted_headers ::
  "('p, 'sk, 'rng) crypto \<Rightarrow> 'p \<Rightarrow> nat \<Rightarrow> ('p, 'sk, 'rng) assignment_builder \<Rightarrow>
    ('p, 'sk, 'rng) assignment_builder \<times> (string, encrypted_headers) result"
where
  "legacy_generate_encrypted_headers cr peer_id timestamp b =
    (let id' = cr_to_string cr peer_id;
         worker_signature = timed_hmac cr id' (lb_cloudflare_storage_secret b) timestamp;
         plaintext = header_plaintext id' worker_signature
     in case encrypt_with_rng cr peer_id (lb_common_secret_key b) (as_bytes plaintext) (lb_rng b) of
          (rng, Err e) \<Rightarrow> (b\<lparr>lb_rng := rng\<rparr>, Err e)
        | (rng, Ok (ciphertext, nonce)) \<Rightarrow>
            (b\<lparr>lb_rng := rng\<rparr>,
             Ok \<lparr>eh_identity = lb_common_identity b, eh_nonce = nonce, eh_ciphertext = ciphertext\<rparr>))"

definition legacy_add_worker_with_timestamp ::
  "('p::linorder, 'sk, 'rng) crypto \<Rightarrow> 'p \<Rightarrow> worker_status \<Rightarrow> u32 list \<Rightarrow> nat \<Rightarrow>
    ('p, 'sk, 'rng) assignment_builder \<Rightarrow> ('p, 'sk, 'rng) assignment_builder outcome"
where
  "legacy_add_worker_with_timestamp cr id' status chunk_indexes timestamp b =
    (if out_of_order (lb_last_peer_id b) id' then
       Panic ''Workers must be added in ascending order of their PeerIDs''
     else
       let b = b\<lparr>lb_last_peer_id := Some id'\<rparr>
       in outcome_bind (worker_id_from (cr_to_bytes cr) id') (\<lambda>worker_id.
            let (b, headers) = legacy_generate_encrypted_headers cr id' timestamp b
            in Return (b\<lparr>lb_worker_assignments := lb_worker_assignments b @
                 [(worker_id, \<lparr>we_worker_id = worker_id, we_status = status_to_fb status,
                               we_encrypted_headers = result_ok headers\<rparr>)]\<rparr>)))"

definition assignment_builder_finish :: "('p, 'sk, 'rng) assignment_builder \<Rightarrow> fb_assignment" where
  "assignment_builder_finish b =
    \<lparr>as_datasets = lb_all_datasets b, as_workers = map snd (lb_worker_assignments b)\<rparr>"

section \<open>Adding workers\<close>

lemma legacy_headers_fields [simp]:
  "lb_worker_assignments (fst (legacy_generate_encrypted_headers cr p ts b)) = lb_worker_assignments b"
  "lb_last_peer_id (fst (legacy_generate_encrypted_headers cr p ts b)) = lb_last_peer_id b"
  by (auto simp: legacy_generate_encrypted_headers_def Let_def split: prod.splits result.splits)

lemma legacy_add_entries:
  assumes "legacy_add_worker_with_timestamp cr p st cs ts b = Return b'"
    "length (cr_to_bytes cr p) = WORKER_ID_LEN"
  shows "\<exists>h. lb_worker_assignments b' = lb_worker_assignments b @
      [(cr_to_bytes cr p, \<lparr>we_worker_id = cr_to_bytes cr p, we_status = status_to_fb st,
         we_encrypted_headers = h\<rparr>)]"
    and "lb_last_peer_id b' = Some p" "\<not> out_of_order (lb_last_peer_id b) p"
  using assms
  by (auto simp: legacy_add_worker_with_timestamp_def worker_id_from_def Let_def case_prod_unfold
      split: if_splits)

interpretation legacy_reg: worker_registry
  "\<lambda>(p, st, cs, ts). legacy_add_worker_with_timestamp cr p st cs ts" fst "cr_to_bytes cr"
  "\<lambda>b. map fst (lb_worker_assignments b)" lb_last_peer_id
  for cr :: "('p::linorder, 'sk, 'rng) crypto"
proof
  fix w :: "'p \<times> worker_status \<times> u32 list \<times> nat" and b b' :: "('p, 'sk, 'rng) assignment_builder"
  assume len: "length (cr_to_bytes cr (fst w)) = WORKER_ID_LEN"
  show "map fst (lb_worker_assignments b') = map fst (lb_worker_assignments b) @ [cr_to_bytes cr (fst w)] \<and>
      lb_last_peer_id b' = Some (fst w) \<and> \<not> out_of_order (lb_last_peer_id b) (fst w)"
    if "(case w of (p, st, cs, ts) \<Rightarrow> legacy_add_worker_with_timestamp cr p st cs ts) b = Return b'"
    using legacy_add_entries [of cr "fst w" _ _ _ b b'] that len
    by (fastforce simp: case_prod_unfold)
  show "\<exists>b'. (case w of (p, st, cs, ts) \<Rightarrow> legacy_add_worker_with_timestamp cr p st cs ts) b = Return b'"
    if "\<not> out_of_order (lb_last_peer_id b) (fst w)"
    using that len
    by (auto simp: legacy_add_worker_with_timestamp_def worker_id_from_def Let_def case_prod_unfold)
next
  fix w :: "'p \<times> worker_status \<times> u32 list \<times> nat" and b :: "('p, 'sk, 'rng) assignment_builder"
  show "\<exists>m. (case w of (p, st, cs, ts) \<Rightarrow> legacy_add_worker_with_timestamp cr p st cs ts) b = Panic m"
    if "out_of_order (lb_last_peer_id b) (fst w)"
    using that by (auto simp: legacy_add_worker_with_timestamp_def case_prod_unfold)
qed

lemma legacy_add_all_entries:
  assumes "\<forall>w \<in> set ws. length (cr_to_bytes cr (fst w)) = WORKER_ID_LEN"
    and "add_all (\<lambda>(p, st, cs, ts). legacy_add_worker_with_timestamp cr p st cs ts) ws b = Return b'"
  shows "map (\<lambda>e. (we_worker_id (snd e), we_status (snd e))) (lb_worker_assignments b') =
    map (\<lambda>e. (we_worker_id (snd e), we_status (snd e))) (lb_worker_assignments b) @
    map (\<lambda>w. (cr_to_bytes cr (fst w), status_to_fb (fst (snd w)))) ws"
  using assms
proof (induction ws arbitrary: b)
  case (Cons w ws)
  obtain p st cs ts where w: "w = (p, st, cs, ts)"
    by (cases w)
  with Cons.prems(2) obtain b1 where b1: "legacy_add_worker_with_timestamp cr p st cs ts b = Return b1"
    "add_all (\<lambda>(p, st, cs, ts). legacy_add_worker_with_timestamp cr p st cs ts) ws b1 = Return b'"
    by auto
  obtain h where "lb_worker_assignments b1 = lb_worker_assignments b @
      [(cr_to_bytes cr p, \<lparr>we_worker_id = cr_to_bytes cr p, we_status = status_to_fb st,
         we_encrypted_headers = h\<rparr>)]"
    using legacy_add_entries(1) [OF b1(1)] Cons.prems(1) w by auto
  with Cons.IH [OF _ b1(2)] Cons.prems(1) w show ?case
    by simp
qed simp

end
