(* ===== verification/Legacy_Reader.thy ===== *)
theory Legacy_Reader
  imports Legacy_Builder Worker_Reader Portal_Reader
begin

text \<open>
  Reading the combined assignment: \<^verbatim>\<open>Assignment\<close> and \<^verbatim>\<open>Worker\<close> of
  \<^verbatim>\<open>crates/assignments/src/reader.rs\<close>. As in the split formats, \<open>lk\<close> stands for the key lookup of
  flatbuffers and \<open>verify\<close> for its verifier.
\<close>

definition legacy_from_owned :: "('buf \<Rightarrow> (string, fb_assignment) result) \<Rightarrow> 'buf \<Rightarrow> (string, fb_assignment) result" where
  "legacy_from_owned verify buf = verify buf"

definition legacy_get_worker_id :: "(u8 list \<Rightarrow> 'p option) \<Rightarrow> fb_assignment \<Rightarrow> u16 \<Rightarrow> 'p option outcome" where
  "legacy_get_worker_id from_bytes a index =
    outcome_map (\<lambda>w. worker_id_try_into from_bytes (we_worker_id w)) (vec_get (as_workers a) (unat index))"

record legacy_worker =
  lw_assignment :: fb_assignment
  lw_reader :: worker_entry
  lw_index :: u16

definition legacy_get_worker_by_index :: "fb_assignment \<Rightarrow> u16 \<Rightarrow> legacy_worker outcome" where
  "legacy_get_worker_by_index a index =
    outcome_map (\<lambda>w. \<lparr>lw_assignment = a, lw_reader = w, lw_index = index\<rparr>)
      (vec_get (as_workers a) (unat index))"

definition legacy_get_worker ::
  "(u8 list \<Rightarrow> 'p::linorder option) \<Rightarrow> fb_assignment \<Rightarrow> 'p \<Rightarrow> legacy_worker option outcome" where
  "legacy_get_worker from_bytes a id' =
    outcome_bind (lookup_index_by_key (length (as_workers a)) (compare_worker from_bytes (as_workers a) id'))
      (\<lambda>r. case r of
         None \<Rightarrow> Return None
       | Some i \<Rightarrow>
           outcome_map (\<lambda>w. Some \<lparr>lw_assignment = a, lw_reader = w, lw_index = of_nat i\<rparr>)
             (vec_get (as_workers a) i))"

definition legacy_get_dataset :: "key_lookup \<Rightarrow> fb_assignment \<Rightarrow> string \<Rightarrow> fb_dataset option" where
  "legacy_get_dataset lk a dataset = lookup_by_key lk ds_id (as_datasets a) dataset"

definition legacy_get_chunk :: "fb_assignment \<Rightarrow> chunk_ref \<Rightarrow> fb_chunk option" where
  "legacy_get_chunk a r =
    (let datasets = as_datasets a
     in if length datasets \<le> unat (cr_dataset_index r) then None
        else
          let chunks = ds_chunks (datasets ! unat (cr_dataset_index r))
          in if length chunks \<le> unat (cr_chunk_index r) then None
             else Some (chunks ! unat (cr_chunk_index r)))"

section \<open>Routing\<close>

definition legacy_find_chunk ::
  "key_lookup \<Rightarrow> fb_assignment \<Rightarrow> string \<Rightarrow> u64 \<Rightarrow> (chunk_not_found, fb_chunk) result outcome"
where
  "legacy_find_chunk lk a dataset block =
    (case legacy_get_dataset lk a dataset of
       None \<Rightarrow> Return (Err UnknownDataset)
     | Some d \<Rightarrow>
         if block > ds_last_block d then Return (Err AfterLast)
         else
           let chunks = ds_chunks d
           in (case binary_search_by (length chunks) (\<lambda>i. cmp (ck_first_block (chunks ! i)) block) of
                 Ok idx \<Rightarrow> outcome_map Ok (vec_get chunks idx)
               | Err (Some idx) \<Rightarrow> outcome_map Ok (vec_get chunks idx)
               | Err None \<Rightarrow> Return (Err BeforeFirst)))"

text \<open>The walk back to the first chunk of a run with the same timestamp.\<close>

fun walk_back :: "fb_chunk list \<Rightarrow> u64 \<Rightarrow> nat \<Rightarrow> fb_chunk outcome" where
  "walk_back chunks ts 0 =
    outcome_bind (vec_get chunks 0) (\<lambda>c.
      if ck_last_block_timestamp c \<noteq> Some ts then vec_get chunks 1 else vec_get chunks 0)"
| "walk_back chunks ts (Suc i) =
    outcome_bind (vec_get chunks (Suc i)) (\<lambda>c.
      if ck_last_block_timestamp c \<noteq> Some ts then vec_get chunks (Suc i + 1) else walk_back chunks ts i)"

definition ts_or_0 :: "fb_chunk \<Rightarrow> u64" where
  "ts_or_0 c = (case ck_last_block_timestamp c of None \<Rightarrow> 0 | Some t \<Rightarrow> t)"

definition legacy_find_chunk_by_timestamp ::
  "key_lookup \<Rightarrow> fb_assignment \<Rightarrow> string \<Rightarrow> u64 \<Rightarrow> (chunk_not_found, fb_chunk) result outcome"
where
  "legacy_find_chunk_by_timestamp lk a dataset ts =
    (case legacy_get_dataset lk a dataset of
       None \<Rightarrow> Return (Err UnknownDataset)
     | Some d \<Rightarrow>
         let chunks = ds_chunks d;
             idx =
               (case binary_search_by (length chunks) (\<lambda>i. cmp (ts_or_0 (chunks ! i)) ts) of
                  Ok i \<Rightarrow> Ok i
                | Err (Some i) \<Rightarrow> if i + 1 < length chunks then Ok (i + 1) else Err AfterLast
                | Err None \<Rightarrow> if chunks \<noteq> [] then Ok 0 else Err AfterLast)
         in (case idx of
               Err e \<Rightarrow> Return (Err e)
             | Ok i \<Rightarrow>
                 outcome_map Ok (outcome_bind (vec_get chunks i) (\<lambda>c.
                   if ck_last_block_timestamp c = Some ts then walk_back chunks ts i
                   else vec_get chunks i))))"

section \<open>One worker\<close>

definition legacy_iter_chunks :: "legacy_worker \<Rightarrow> fb_chunk list" where
  "legacy_iter_chunks w =
    concat (map (\<lambda>d. filter (\<lambda>c. \<exists>i \<in> set (ck_worker_indexes c). lw_index w = i) (ds_chunks d))
      (as_datasets (lw_assignment w)))"

definition legacy_iter_chunks_with_ref :: "legacy_worker \<Rightarrow> (chunk_ref \<times> fb_chunk) list" where
  "legacy_iter_chunks_with_ref w =
    concat (map (\<lambda>(d, ds).
        map (\<lambda>(c, chunk). (\<lparr>cr_dataset_index = of_nat d, cr_chunk_index = of_nat c\<rparr>, chunk))
          (filter (\<lambda>(_, chunk). \<exists>i \<in> set (ck_worker_indexes chunk). lw_index w = i)
            (enumerate 0 (ds_chunks ds))))
      (enumerate 0 (as_datasets (lw_assignment w))))"

definition lw_peer_id :: "(u8 list \<Rightarrow> 'p option) \<Rightarrow> legacy_worker \<Rightarrow> 'p option" where
  "lw_peer_id from_bytes w = worker_id_try_into from_bytes (we_worker_id (lw_reader w))"

definition lw_status :: "legacy_worker \<Rightarrow> worker_status" where
  "lw_status w = status_from_fb (we_status (lw_reader w))"

definition lw_decrypt_headers ::
  "('p, 'sk, 'rng) crypto \<Rightarrow> legacy_worker \<Rightarrow> 'sk option \<Rightarrow>
    (string, (string, string) btree) result outcome" where
  "lw_decrypt_headers cr w key = decrypt_headers cr (we_encrypted_headers (lw_reader w)) key"

section \<open>Search lemmas\<close>

lemma walk_back_run:
  assumes "i < length chunks" "\<forall>j \<le> i. k \<le> j \<longrightarrow> ck_last_block_timestamp (chunks ! j) = Some ts" "k \<le> i"
    and "k = 0 \<or> ck_last_block_timestamp (chunks ! (k - 1)) \<noteq> Some ts"
  shows "walk_back chunks ts i = Return (chunks ! k)"
  using assms
proof (induction i)
  case (Suc i)
  show ?case
  proof (cases "k = Suc i")
    case True
    then have "walk_back chunks ts i = Return (chunks ! Suc i)"
      using Suc.prems(1,4) by (cases i) (auto simp: vec_get_def)
    with True Suc.prems(1,2) show ?thesis
      by simp
  next
    case False
    then show ?thesis
      using Suc.IH Suc.prems by simp
  qed
qed simp

text \<open>A dataset of contiguous chunks is routed by its first blocks alone.\<close>

lemma binary_search_floor:
  assumes "sorted_wrt (<) (map k xs)" "xs \<noteq> []" "k (hd xs) \<le> b"
  shows "\<exists>i < length xs. (binary_search_by (length xs) (\<lambda>j. cmp (k (xs ! j)) b) = Ok i \<or>
      binary_search_by (length xs) (\<lambda>j. cmp (k (xs ! j)) b) = Err (Some i)) \<and>
    k (xs ! i) \<le> b \<and> (\<forall>j < length xs. i < j \<longrightarrow> b < k (xs ! j))"
proof -
  let ?f = "\<lambda>j. cmp (k (xs ! j)) b"
  have lt: "k (xs ! i) < k (xs ! j)" if "i < j" "j < length xs" for i j
    using sorted_wrt_nth_less [OF assms(1), of i j] that by simp
  have "bs_post (length xs) ?f (binary_search_by (length xs) ?f)"
    using ascending_cmp_sorted [of k xs b] sorted_wrt_less_sorted [OF assms(1)]
    by (intro binary_search_by_post) simp
  then show ?thesis
  proof (cases "binary_search_by (length xs) ?f")
    case (Ok i)
    assume "bs_post (length xs) ?f (binary_search_by (length xs) ?f)"
    with Ok lt show ?thesis
      by (intro exI [of _ i]) (auto simp: bs_post_def)
  next
    case (Err e)
    assume post: "bs_post (length xs) ?f (binary_search_by (length xs) ?f)"
    have "e \<noteq> None"
    proof
      assume "e = None"
      then have "\<forall>j < length xs. ?f j = Greater"
        using post Err by (simp add: bs_post_def)
      then show False
        using assms(2,3) by (auto simp: hd_conv_nth)
    qed
    then obtain i where i: "e = Some i"
      by auto
    have len: "i < length xs" and at: "\<And>j. j < length xs \<Longrightarrow> ?f j = (if j \<le> i then Less else Greater)"
      using post Err i by (simp_all add: bs_post_def)
    have "k (xs ! i) < b"
      using at [OF len] by simp
    moreover have "b < k (xs ! j)" if "j < length xs" "i < j" for j
      using at [OF that(1)] that(2) by simp
    ultimately show ?thesis
      using Err i len by (intro exI [of _ i]) auto
  qed
qed

lemma binary_search_below:
  assumes "sorted_wrt (<) (map k xs)" "xs \<noteq> []" "b < k (hd xs)"
  shows "binary_search_by (length xs) (\<lambda>j. cmp (k (xs ! j)) b) = Err None"
proof -
  let ?f = "\<lambda>j. cmp (k (xs ! j)) b"
  have gt: "?f j = Greater" if "j < length xs" for j
  proof -
    have "k (xs ! 0) \<le> k (xs ! j)"
      using sorted_nth_mono [OF sorted_wrt_less_sorted [OF assms(1)], of 0 j] that assms(2)
      by simp
    with assms(2,3) show ?thesis
      by (simp add: hd_conv_nth)
  qed
  have "bs_post (length xs) ?f (binary_search_by (length xs) ?f)"
    using ascending_cmp_sorted [of k xs b] sorted_wrt_less_sorted [OF assms(1)]
    by (intro binary_search_by_post) simp
  then show ?thesis
    using gt by (fastforce simp: bs_post_def split: result.splits option.splits)
qed

text \<open>On ascending timestamps the search and the walk back give the first chunk not before \<open>ts\<close>.\<close>

lemma first_not_less:
  assumes "\<not> (\<forall>t \<in> set tms. t < (ts :: 'a::linorder))"
  shows "length (takeWhile (\<lambda>t. t < ts) tms) < length tms"
    "ts \<le> tms ! length (takeWhile (\<lambda>t. t < ts) tms)"
    "\<forall>j < length (takeWhile (\<lambda>t. t < ts) tms). tms ! j < ts"
proof -
  show lt: "length (takeWhile (\<lambda>t. t < ts) tms) < length tms"
    using assms by (metis length_takeWhile_le nat_less_le takeWhile_eq_all_conv takeWhile_eq_take take_all_iff)
  show "ts \<le> tms ! length (takeWhile (\<lambda>t. t < ts) tms)"
    using nth_length_takeWhile [OF lt] by simp
  show "\<forall>j < length (takeWhile (\<lambda>t. t < ts) tms). tms ! j < ts"
    by (metis nth_mem set_takeWhileD takeWhile_nth)
qed

text \<open>What the binary search over ascending timestamps finds.\<close>

lemma timestamp_search:
  assumes stamps: "map ck_last_block_timestamp c = map Some tms" and asc: "sorted tms"
  obtains (eq) i where "binary_search_by (length c) (\<lambda>i. cmp (ts_or_0 (c ! i)) ts) = Ok i" "i < length c" "tms ! i = ts"
    | (none) "binary_search_by (length c) (\<lambda>i. cmp (ts_or_0 (c ! i)) ts) = Err None" "\<forall>j < length c. ts < tms ! j"
    | (between) i where "binary_search_by (length c) (\<lambda>i. cmp (ts_or_0 (c ! i)) ts) = Err (Some i)" "i < length c"
        "\<forall>j \<le> i. tms ! j < ts" "\<forall>j < length c. i < j \<longrightarrow> ts < tms ! j"
proof -
  let ?f = "\<lambda>i. cmp (ts_or_0 (c ! i)) ts"
  have len: "length tms = length c"
    using arg_cong [OF stamps, of length] by simp
  have f: "ts_or_0 (c ! i) = tms ! i" if "i < length c" for i
    using arg_cong [OF stamps, of "\<lambda>xs. xs ! i"] that len by (simp add: ts_or_0_def)
  have "ascending_cmp (length c) (\<lambda>i. cmp (tms ! i) ts)"
    using ascending_cmp_sorted [of "\<lambda>x. x" tms ts] asc len by simp
  then have post: "bs_post (length c) ?f (binary_search_by (length c) ?f)"
    using f by (intro binary_search_by_post) (simp add: ascending_cmp_def)
  show thesis
  proof (cases "binary_search_by (length c) ?f")
    case (Ok i)
    then show thesis
      using post f [of i] by (intro eq) (simp_all add: bs_post_def)
  next
    case (Err e)
    show thesis
    proof (cases e)
      case None
      then have "?f j = Greater" if "j < length c" for j
        using post Err that by (simp add: bs_post_def)
      then show thesis
        using Err None f by (intro none) auto
    next
      case (Some i)
      then have i: "i < length c" "\<And>j. j < length c \<Longrightarrow> ?f j = (if j \<le> i then Less else Greater)"
        using post Err by (simp_all add: bs_post_def)
      have "tms ! j < ts" if "j \<le> i" for j
        using i(2) [of j] f [of j] i(1) that by simp
      moreover have "ts < tms ! j" if "j < length c" "i < j" for j
        using i(2) [OF that(1)] f [OF that(1)] that(2) by simp
      ultimately show thesis
        using Err Some i(1) by (intro between) auto
    qed
  qed
qed

lemma walk_back_first:
  assumes stamps: "map ck_last_block_timestamp c = map Some tms" and asc: "sorted tms"
    and i: "i < length c" "tms ! i = ts"
  shows "\<not> (\<forall>t \<in> set tms. t < ts) \<and> walk_back c ts i = Return (c ! length (takeWhile (\<lambda>t. t < ts) tms))"
proof -
  let ?p = "length (takeWhile (\<lambda>t. t < ts) tms)"
  have len: "length tms = length c"
    using arg_cong [OF stamps, of length] by simp
  have stamp: "ck_last_block_timestamp (c ! i) = Some (tms ! i)" if "i < length c" for i
    using arg_cong [OF stamps, of "\<lambda>xs. xs ! i"] that len by simp
  have mono: "tms ! i \<le> tms ! j" if "i \<le> j" "j < length c" for i j
    using sorted_nth_mono [OF asc that(1)] that(2) len by simp
  have some: "\<not> (\<forall>t \<in> set tms. t < ts)"
    using i len by (metis nth_mem order.irrefl)
  note p = first_not_less [OF this]
  have "?p \<le> i"
    using p(3) i(2) by (metis not_le order.irrefl)
  have "tms ! j = ts" if "j \<le> i" "?p \<le> j" for j
    using mono [OF that(1) i(1)] mono [OF that(2)] p(2) i that(1) by fastforce
  then have "walk_back c ts i = Return (c ! ?p)"
    using p(3) \<open>?p \<le> i\<close> i(1) stamp by (intro walk_back_run) (auto simp: less_imp_neq)
  with some show ?thesis
    by blast
qed

lemma find_by_timestamp_eq:
  assumes get: "legacy_get_dataset lk a name = Some d"
    and stamps: "map ck_last_block_timestamp (ds_chunks d) = map Some tms" and asc: "sorted tms"
  shows "legacy_find_chunk_by_timestamp lk a name ts =
    (if \<forall>t \<in> set tms. t < ts then Return (Err AfterLast)
     else Return (Ok (ds_chunks d ! length (takeWhile (\<lambda>t. t < ts) tms))))"
proof -
  let ?c = "ds_chunks d" and ?p = "length (takeWhile (\<lambda>t. t < ts) tms)"
  have len: "length tms = length ?c"
    using arg_cong [OF stamps, of length] by simp
  have stamp: "ck_last_block_timestamp (?c ! i) = Some (tms ! i)" if "i < length ?c" for i
    using arg_cong [OF stamps, of "\<lambda>xs. xs ! i"] that len by simp
  note find = legacy_find_chunk_by_timestamp_def get Let_def
  from stamps asc show ?thesis
  proof (cases rule: timestamp_search [where ts = ts])
    case (eq i)
    then show ?thesis
      using walk_back_first [OF stamps asc eq(2,3)] stamp [of i] by (simp add: find)
  next
    case none
    show ?thesis
    proof (cases "?c = []")
      case False
      then have "\<not> (\<forall>t \<in> set tms. t < ts)" "?p = 0"
        using none(2) len by (cases tms; fastforce)+
      then show ?thesis
        using none False stamp [of 0] by (simp add: find)
    qed (use none len in \<open>simp add: find\<close>)
  next
    case (between i)
    show ?thesis
    proof (cases "i + 1 < length ?c")
      case True
      have "takeWhile (\<lambda>t. t < ts) tms = take (i + 1) tms"
        using between(3,4) True len by (intro takeWhile_eq_take_P_nth) auto
      then have "?p = i + 1"
        using True len by simp
      moreover have next': "tms ! (i + 1) \<in> set tms" "ts < tms ! (i + 1)"
        using True len between(4) by simp_all
      then have "\<not> (\<forall>t \<in> set tms. t < ts)" "tms ! (i + 1) \<noteq> ts"
        using order.asym by blast+
      ultimately show ?thesis
        using between True stamp [of "i + 1"] by (simp add: find)
    next
      case False
      then have "\<forall>t \<in> set tms. t < ts"
        using between(2,3) len by (auto simp: in_set_conv_nth)
      then show ?thesis
        using between False by (simp add: find)
    qed
  qed
qed

end
