(* ===== verification/Legacy_Properties.thy ===== *)
theory Legacy_Properties
  imports Legacy_Reader Worker_Lookup Samples
begin

text \<open>
  What the combined assignment guarantees: staged chunks are written as given, blocks and timestamps
  route to the right chunk, and a worker finds itself and its chunks.
\<close>

section \<open>Staging\<close>

record legacy_spec =
  ls_id :: data_chunk
  ls_dataset :: string
  ls_range :: block_range
  ls_size :: u32
  ls_hash :: "string option"
  ls_timestamp :: "u64 option"
  ls_base_url :: string
  ls_files :: "string list"
  ls_workers :: "u16 list"

text \<open>The calls a client makes for one chunk; the optional setters only where there is a value.\<close>

definition legacy_stage ::
  "legacy_spec \<Rightarrow> ('p, 'sk, 'rng) assignment_builder \<Rightarrow>
    (('p, 'sk, 'rng) assignment_builder \<times> (string, unit) result) outcome"
where
  "legacy_stage s b =
    outcome_bind (legacy_chunk_id (ls_id s) legacy_new_chunk) (\<lambda>cb.
      let cb = legacy_chunk_dataset_id (ls_dataset s) cb;
          cb = legacy_chunk_block_range (ls_range s) cb;
          cb = legacy_chunk_size (ls_size s) cb;
          cb = (case ls_hash s of None \<Rightarrow> cb | Some h \<Rightarrow> legacy_chunk_last_block_hash h cb);
          cb = (case ls_timestamp s of None \<Rightarrow> cb | Some t \<Rightarrow> legacy_chunk_last_block_timestamp t cb);
          cb = legacy_chunk_dataset_base_url (ls_base_url s) cb;
          cb = legacy_chunk_worker_indexes (ls_workers s) cb;
          (b, cb) = legacy_chunk_files (ls_files s) b cb
      in legacy_chunk_finish b cb)"

definition chunk_text :: "data_chunk \<Rightarrow> string" where
  "chunk_text c = (case data_chunk_display c of Return t \<Rightarrow> t | Panic m \<Rightarrow> [])"

definition legacy_table :: "legacy_spec \<Rightarrow> fb_chunk" where
  "legacy_table s =
    \<lparr>ck_first_block = fst (ls_range s), ck_id = chunk_text (ls_id s), ck_dataset_id = ls_dataset s,
     ck_size = ls_size s, ck_last_block_hash = ls_hash s, ck_last_block_timestamp = ls_timestamp s,
     ck_dataset_base_url = ls_base_url s, ck_base_url = chunk_text (ls_id s),
     ck_files = map (\<lambda>f. \<lparr>fu_filename = f, fu_url = f\<rparr>) (ls_files s),
     ck_worker_indexes = ls_workers s\<rparr>"

definition files_ok :: "(string list \<times> file_url list) list \<Rightarrow> bool" where
  "files_ok cache = (\<forall>(fs, offset) \<in> set cache. offset = map (\<lambda>f. \<lparr>fu_filename = f, fu_url = f\<rparr>) fs)"

definition legacy_holds :: "('p, 'sk, 'rng) assignment_builder \<Rightarrow> legacy_spec list \<Rightarrow> bool" where
  "legacy_holds b specs =
    (files_ok (lb_files_list_offsets b) \<and> lb_current_chunks b = map legacy_table specs \<and>
     lb_last_block b = (if specs = [] then None else Some (snd (ls_range (last specs)))) \<and>
     lb_current_dataset_id b = (if specs = [] then None else Some (ls_dataset (last specs))) \<and>
     successively (\<lambda>s t. snd (ls_range s) + 1 = fst (ls_range t)) specs)"

lemma cache_files_list_ok:
  assumes "files_ok (lb_files_list_offsets b)" "cache_files_list files b = (b', offset)"
  shows "offset = map (\<lambda>f. \<lparr>fu_filename = f, fu_url = f\<rparr>) files"
    and "files_ok (lb_files_list_offsets b')"
    and "b' = b\<lparr>lb_files_list_offsets := lb_files_list_offsets b'\<rparr>"
  using assms
  by (auto simp: cache_files_list_def Let_def files_ok_def dest: map_of_SomeD split: option.splits)

lemma legacy_stage_add_chunk:
  assumes "files_ok (lb_files_list_offsets b)"
  shows "legacy_stage s b = outcome_bind (data_chunk_display (ls_id s)) (\<lambda>_.
    Return (add_chunk (legacy_table s) (ls_dataset s) (ls_range s)
      (fst (cache_files_list (ls_files s) b))))"
proof (cases "data_chunk_display (ls_id s)")
  case (Return t)
  obtain b' offset where c: "cache_files_list (ls_files s) b = (b', offset)"
    by fastforce
  note defs = legacy_stage_def legacy_chunk_id_def legacy_new_chunk_def legacy_chunk_dataset_id_def
    legacy_chunk_block_range_def legacy_chunk_size_def legacy_chunk_last_block_hash_def
    legacy_chunk_last_block_timestamp_def legacy_chunk_dataset_base_url_def
    legacy_chunk_worker_indexes_def legacy_chunk_files_def legacy_chunk_finish_def Let_def
  show ?thesis
    using Return cache_files_list_ok(1) [OF assms c]
    by (cases "ls_range s") (simp add: defs c legacy_table_def chunk_text_def split: option.split)
qed (simp add: legacy_stage_def legacy_chunk_id_def)

lemma legacy_holds_stage:
  assumes "legacy_holds b specs" "legacy_stage s b = Return (b', Ok ())"
  shows "legacy_holds b' (specs @ [s])"
proof -
  obtain b1 offset where c: "cache_files_list (ls_files s) b = (b1, offset)"
    by fastforce
  have files: "files_ok (lb_files_list_offsets b)"
    using assms(1) by (simp add: legacy_holds_def)
  note b1 = cache_files_list_ok(2,3) [OF files c]
  have same: "lb_last_block b1 = lb_last_block b" "lb_current_chunks b1 = lb_current_chunks b"
    by (subst b1(2), simp)+
  have "add_chunk (legacy_table s) (ls_dataset s) (ls_range s) b1 = (b', Ok ())"
    using assms(2) by (auto simp: legacy_stage_add_chunk [OF files] c)
  then have cont: "continuity (lb_last_block b) (fst (ls_range s)) = Ok ()"
    and b': "lb_files_list_offsets b' = lb_files_list_offsets b1"
    "lb_current_chunks b' = lb_current_chunks b @ [legacy_table s]"
    "lb_last_block b' = Some (snd (ls_range s))" "lb_current_dataset_id b' = Some (ls_dataset s)"
    by (auto simp: add_chunk_def Let_def same split: if_splits)
  have "successively (\<lambda>s t. snd (ls_range s) + 1 = fst (ls_range t)) (specs @ [s])"
    using cont assms(1)
    by (auto simp: continuity_def legacy_holds_def successively_append_iff split: if_splits)
  then show ?thesis
    using assms(1) b1(1) b' by (simp add: legacy_holds_def)
qed

interpretation legacy_stager: chunk_stager legacy_holds "\<lambda>_. True" legacy_stage
  by unfold_locales (rule legacy_holds_stage)

definition legacy_clean :: "('p, 'sk, 'rng) assignment_builder \<Rightarrow> bool" where
  "legacy_clean b =
    (files_ok (lb_files_list_offsets b) \<and> lb_current_chunks b = [] \<and> lb_last_block b = None \<and>
     lb_current_dataset_id b = None)"

lemma legacy_staged:
  assumes "legacy_clean b" "stage_all legacy_stage specs b = Some b1"
  shows "legacy_holds b1 specs"
proof -
  have "legacy_holds b []"
    using assms(1) by (simp add: legacy_holds_def legacy_clean_def)
  from legacy_stager.holds_stage_all [OF this _ assms(2)] show ?thesis
    by simp
qed

lemma legacy_finish_emits:
  assumes "legacy_holds b specs" "finish_dataset b = Return b'"
  shows "specs \<noteq> []" "lb_all_datasets b' = lb_all_datasets b @ [\<lparr>ds_id = ls_dataset (last specs),
      ds_chunks = map legacy_table specs, ds_last_block = snd (ls_range (last specs))\<rparr>]"
    "legacy_clean b'"
  using assms
  by (auto simp: legacy_holds_def finish_dataset_def legacy_clean_def expect_def split: if_splits)

text \<open>
  C36: Chunks staged through the combined builder are written as given. When every call for the chunks
  succeeded, finishing the dataset panics exactly if there were none; otherwise it appends one dataset
  with the id and last block of the last chunk and one chunk table per staged chunk, in order, holding
  the printed identifier (also as base url), range start, size, hash, timestamp, files and worker
  indexes, and leaves the builder clean for the next dataset. Consecutive chunks are contiguous.
\<close>
theorem legacy_roundtrip:
  assumes "legacy_clean b" "stage_all legacy_stage specs b = Some b1"
  shows "(if specs = [] then \<exists>m. finish_dataset b1 = Panic m
    else \<exists>b2. finish_dataset b1 = Return b2 \<and> legacy_clean b2 \<and>
      lb_all_datasets b2 = lb_all_datasets b1 @ [\<lparr>ds_id = ls_dataset (last specs),
        ds_chunks = map legacy_table specs, ds_last_block = snd (ls_range (last specs))\<rparr>]) \<and>
    (\<forall>i. Suc i < length specs \<longrightarrow> snd (ls_range (specs ! i)) + 1 = fst (ls_range (specs ! Suc i)))"
proof -
  have holds: "legacy_holds b1 specs"
    by (rule legacy_staged [OF assms])
  then have "\<forall>i. Suc i < length specs \<longrightarrow> snd (ls_range (specs ! i)) + 1 = fst (ls_range (specs ! Suc i))"
    by (auto simp: legacy_holds_def successively_conv_nth)
  moreover have "specs = [] \<Longrightarrow> \<exists>m. finish_dataset b1 = Panic m"
    "specs \<noteq> [] \<Longrightarrow> \<exists>b2. finish_dataset b1 = Return b2"
    using holds by (auto simp: legacy_holds_def finish_dataset_def)
  ultimately show ?thesis
    using legacy_finish_emits [OF holds] by auto
qed

definition sample_legacy_specs :: "legacy_spec list" where
  "sample_legacy_specs =
    [\<lparr>ls_id = sample_chunk_1, ls_dataset = ''s3://a'', ls_range = (0, 99), ls_size = 10, ls_hash = None,
      ls_timestamp = Some 1000, ls_base_url = ''https://a.io'', ls_files = [''blocks.parquet''],
      ls_workers = [0, 1]\<rparr>,
     \<lparr>ls_id = sample_chunk_2, ls_dataset = ''s3://a'', ls_range = (100, 199), ls_size = 20,
      ls_hash = Some ''0xbb'', ls_timestamp = Some 2000, ls_base_url = ''https://a.io'',
      ls_files = [''blocks.parquet''], ls_workers = [1]\<rparr>,
     \<lparr>ls_id = sample_chunk_3, ls_dataset = ''s3://a'', ls_range = (200, 299), ls_size = 30,
      ls_hash = None, ls_timestamp = Some 2000, ls_base_url = ''https://a.io'',
      ls_files = [], ls_workers = []\<rparr>]"

definition sample_legacy_new :: "(u8, u8, nat) assignment_builder" where
  "sample_legacy_new = assignment_builder_new sample_crypto ''secret'' 0"

definition sample_legacy_staged :: "(u8, u8, nat) assignment_builder" where
  "sample_legacy_staged = the (stage_all legacy_stage sample_legacy_specs sample_legacy_new)"

lemma sample_legacy_run:
  "legacy_clean sample_legacy_new"
  "stage_all legacy_stage sample_legacy_specs sample_legacy_new = Some sample_legacy_staged"
proof -
  show "legacy_clean sample_legacy_new"
    by code_simp
  have "stage_all legacy_stage sample_legacy_specs sample_legacy_new \<noteq> None"
    by code_simp
  then show "stage_all legacy_stage sample_legacy_specs sample_legacy_new = Some sample_legacy_staged"
    by (auto simp: sample_legacy_staged_def)
qed

theorem legacy_roundtrip_witness:
  "\<exists>b2. finish_dataset sample_legacy_staged = Return b2 \<and>
    map ck_size (ds_chunks (last (lb_all_datasets b2))) = [10, 20, 30]"
proof -
  have sizes: "map ck_size (map legacy_table sample_legacy_specs) = [10, 20, 30]"
    and ne: "sample_legacy_specs \<noteq> []"
    by (simp_all add: sample_legacy_specs_def legacy_table_def)
  from legacy_roundtrip [OF sample_legacy_run] ne obtain b2 where
    "finish_dataset sample_legacy_staged = Return b2"
    "ds_chunks (last (lb_all_datasets b2)) = map legacy_table sample_legacy_specs"
    by auto
  with sizes show ?thesis
    by metis
qed

section \<open>Routing\<close>

definition legacy_covers :: "legacy_spec \<Rightarrow> u64 \<Rightarrow> bool" where
  "legacy_covers s block = (fst (ls_range s) \<le> block \<and> block \<le> snd (ls_range s))"

lemma legacy_ascending:
  assumes "successively (\<lambda>s t. snd (ls_range s) + 1 = fst (ls_range t)) specs"
    and "\<forall>s \<in> set specs. fst (ls_range s) \<le> snd (ls_range s) \<and> snd (ls_range s) \<noteq> - 1"
  shows "sorted_wrt (\<lambda>s t. snd (ls_range s) < fst (ls_range t)) specs"
  using assms
proof (induction specs)
  case (Cons s specs)
  show ?case
  proof (cases specs)
    case (Cons t ts)
    have lt: "snd (ls_range s) < fst (ls_range t)"
      using Cons.prems Cons u64_less_Suc [of "snd (ls_range s)"] by auto
    have asc: "sorted_wrt (\<lambda>s t. snd (ls_range s) < fst (ls_range t)) specs"
      using Cons.IH Cons.prems Cons by simp
    have "snd (ls_range s) < fst (ls_range u)" if "u \<in> set ts" for u
    proof -
      have "snd (ls_range t) < fst (ls_range u)" "fst (ls_range t) \<le> snd (ls_range t)"
        using asc Cons that Cons.prems(2) by auto
      with lt show ?thesis
        by (meson order.strict_trans order.strict_trans1)
    qed
    with lt asc Cons show ?thesis
      by simp
  qed simp
qed simp

lemma legacy_firsts:
  assumes "sorted_wrt (\<lambda>s t. snd (ls_range s) < fst (ls_range t)) specs"
    and "\<forall>s \<in> set specs. fst (ls_range s) \<le> snd (ls_range s)"
  shows "sorted_wrt (<) (map ck_first_block (map legacy_table specs))"
  unfolding sorted_wrt_map legacy_table_def
  using assms by (auto intro: sorted_wrt_mono_rel [rotated] order.strict_trans1)

text \<open>
  In adjacent chunks, the last one that starts at or before a block covers it, and no other one does.
\<close>

lemma legacy_floor_covers:
  assumes asc: "sorted_wrt (\<lambda>s t. snd (ls_range s) < fst (ls_range t)) specs"
    and cont: "\<And>i. Suc i < length specs \<Longrightarrow> snd (ls_range (specs ! i)) + 1 = fst (ls_range (specs ! Suc i))"
    and max: "\<forall>s \<in> set specs. snd (ls_range s) \<noteq> - 1"
    and i: "i < length specs" "fst (ls_range (specs ! i)) \<le> block"
      "\<forall>j < length specs. i < j \<longrightarrow> block < fst (ls_range (specs ! j))"
    and last: "block \<le> snd (ls_range (last specs))"
  shows "legacy_covers (specs ! i) block \<and> (\<forall>j < length specs. legacy_covers (specs ! j) block \<longrightarrow> j = i)"
proof -
  have sep: "snd (ls_range (specs ! i)) < fst (ls_range (specs ! j))" if "i < j" "j < length specs" for i j
    using sorted_wrt_nth_less [OF asc that] .
  have "block \<le> snd (ls_range (specs ! i))"
  proof (cases "Suc i < length specs")
    case True
    then show ?thesis
      using i(3) cont [OF True] u64_Suc_le [of "snd (ls_range (specs ! i))" block] max nth_mem [OF i(1)]
      by (metis lessI linorder_not_le)
  next
    case False
    then have "length specs - 1 = i" "specs \<noteq> []"
      using i(1) by auto
    with last show ?thesis
      by (simp add: last_conv_nth)
  qed
  moreover have "j = i" if "j < length specs" "legacy_covers (specs ! j) block" for j
    using i(1-3) sep [of j i] that by (fastforce simp: legacy_covers_def neq_iff)
  ultimately show ?thesis
    using i(2) by (auto simp: legacy_covers_def)
qed

text \<open>
  C35: A dataset staged without a rejected chunk routes every block to its chunk. For a block between
  the first chunk's first and the last chunk's last, \<^verbatim>\<open>find_chunk\<close> on the finished assignment
  returns the table of the one staged chunk covering it; a block after the last is reported as
  \<open>AfterLast\<close> and one before the first as \<open>BeforeFirst\<close>. Ranges are not reversed and stay below
  \<^verbatim>\<open>u64::MAX\<close>.
\<close>
theorem legacy_find_chunk_correct:
  assumes "legacy_clean b" "stage_all legacy_stage specs b = Some b1" "finish_dataset b1 = Return b2"
    and "key_search lk" "sorted_wrt (<) (map ds_id (lb_all_datasets b2))"
    and "\<forall>s \<in> set specs. fst (ls_range s) \<le> snd (ls_range s) \<and> snd (ls_range s) \<noteq> - 1"
  shows "if snd (ls_range (last specs)) < block then
      legacy_find_chunk lk (assignment_builder_finish b2) (ls_dataset (last specs)) block = Return (Err AfterLast)
    else if block < fst (ls_range (hd specs)) then
      legacy_find_chunk lk (assignment_builder_finish b2) (ls_dataset (last specs)) block = Return (Err BeforeFirst)
    else \<exists>i < length specs. legacy_covers (specs ! i) block \<and>
      (\<forall>j < length specs. legacy_covers (specs ! j) block \<longrightarrow> j = i) \<and>
      legacy_find_chunk lk (assignment_builder_finish b2) (ls_dataset (last specs)) block =
        Return (Ok (legacy_table (specs ! i)))"
proof -
  have holds: "legacy_holds b1 specs"
    by (rule legacy_staged [OF assms(1,2)])
  note emits = legacy_finish_emits [OF holds assms(3)]
  define d where "d = \<lparr>ds_id = ls_dataset (last specs), ds_chunks = map legacy_table specs,
    ds_last_block = snd (ls_range (last specs))\<rparr>"
  have "d \<in> set (lb_all_datasets b2)"
    by (simp add: emits(2) d_def)
  from lookup_by_key_eq [OF assms(4,5) this]
  have get: "legacy_get_dataset lk (assignment_builder_finish b2) (ls_dataset (last specs)) = Some d"
    by (simp add: legacy_get_dataset_def assignment_builder_finish_def d_def)
  have asc: "sorted_wrt (\<lambda>s t. snd (ls_range s) < fst (ls_range t)) specs"
    using legacy_ascending [OF _ assms(6)] holds by (simp add: legacy_holds_def)
  have firsts: "sorted_wrt (<) (map ck_first_block (map legacy_table specs))"
    using legacy_firsts [OF asc] assms(6) by blast
  have cont: "snd (ls_range (specs ! i)) + 1 = fst (ls_range (specs ! Suc i))" if "Suc i < length specs" for i
    using holds that by (simp add: legacy_holds_def successively_conv_nth)
  have key: "ck_first_block (legacy_table s) = fst (ls_range s)" for s
    by (simp add: legacy_table_def)
  consider (after) "snd (ls_range (last specs)) < block"
    | (before) "block \<le> snd (ls_range (last specs))" "block < fst (ls_range (hd specs))"
    | (inside) "block \<le> snd (ls_range (last specs))" "fst (ls_range (hd specs)) \<le> block"
    by fastforce
  then show ?thesis
  proof cases
    case after
    then show ?thesis
      by (simp add: legacy_find_chunk_def get d_def)
  next
    case before
    then show ?thesis
      using binary_search_below [OF firsts, of block] emits(1)
      by (simp add: legacy_find_chunk_def get d_def key hd_map)
  next
    case inside
    from binary_search_floor [OF firsts, of block] inside(2) emits(1)
    obtain i where i: "i < length specs" "fst (ls_range (specs ! i)) \<le> block"
      "\<forall>j < length specs. i < j \<longrightarrow> block < fst (ls_range (specs ! j))"
      "legacy_find_chunk lk (assignment_builder_finish b2) (ls_dataset (last specs)) block =
        Return (Ok (legacy_table (specs ! i)))"
      using inside(1) by (auto simp: legacy_find_chunk_def get d_def key hd_map)
    have "legacy_covers (specs ! i) block" and only: "\<forall>j < length specs. legacy_covers (specs ! j) block \<longrightarrow> j = i"
      using legacy_floor_covers [OF asc cont _ i(1-3) inside(1)] assms(6) by blast+
    with i(1,4) only have "\<exists>i < length specs. legacy_covers (specs ! i) block \<and>
      (\<forall>j < length specs. legacy_covers (specs ! j) block \<longrightarrow> j = i) \<and>
      legacy_find_chunk lk (assignment_builder_finish b2) (ls_dataset (last specs)) block =
        Return (Ok (legacy_table (specs ! i)))"
      by blast
    with inside show ?thesis
      by (simp only: linorder_not_less [symmetric] if_False)
  qed
qed

definition sample_legacy_done :: "(u8, u8, nat) assignment_builder" where
  "sample_legacy_done = (case finish_dataset sample_legacy_staged of Return b \<Rightarrow> b)"

lemma sample_legacy_finish: "finish_dataset sample_legacy_staged = Return sample_legacy_done"
proof -
  have "case finish_dataset sample_legacy_staged of Return _ \<Rightarrow> True | Panic _ \<Rightarrow> False"
    by code_simp
  then show ?thesis
    by (auto simp: sample_legacy_done_def split: outcome.splits)
qed

lemma sample_legacy_sorted: "sorted_wrt (<) (map ds_id (lb_all_datasets sample_legacy_done))"
  by code_simp

theorem legacy_find_chunk_correct_witness:
  "\<exists>i < 3. legacy_find_chunk lookup_index_pure (assignment_builder_finish sample_legacy_done) ''s3://a'' 150 =
    Return (Ok (legacy_table (sample_legacy_specs ! i))) \<and> legacy_covers (sample_legacy_specs ! i) 150"
proof -
  have ranges: "\<forall>s \<in> set sample_legacy_specs. fst (ls_range s) \<le> snd (ls_range s) \<and> snd (ls_range s) \<noteq> - 1"
    by (simp add: sample_legacy_specs_def)
  have ends: "\<not> snd (ls_range (last sample_legacy_specs)) < 150"
    "\<not> 150 < fst (ls_range (hd sample_legacy_specs))"
    and here: "ls_dataset (last sample_legacy_specs) = ''s3://a''" "length sample_legacy_specs = 3"
    by (simp_all add: sample_legacy_specs_def)
  from legacy_find_chunk_correct [OF sample_legacy_run sample_legacy_finish
      index_search.key_search_axioms sample_legacy_sorted ranges, of 150]
  show ?thesis
    unfolding if_not_P [OF ends(1)] if_not_P [OF ends(2)] here by blast
qed

text \<open>
  When every staged chunk has a timestamp and they ascend, \<^verbatim>\<open>find_chunk_by_timestamp\<close> on the
  finished assignment returns the table of the first chunk whose timestamp is at or after the one
  asked for, walking back over equal ones, and \<open>AfterLast\<close> exactly when every chunk is earlier. It
  never panics.
\<close>
theorem legacy_find_by_timestamp_correct:
  assumes "legacy_clean b" "stage_all legacy_stage specs b = Some b1" "finish_dataset b1 = Return b2"
    and "key_search lk" "sorted_wrt (<) (map ds_id (lb_all_datasets b2))"
    and "map ls_timestamp specs = map Some tms" "sorted tms"
  shows "if \<forall>t \<in> set tms. t < ts then
      legacy_find_chunk_by_timestamp lk (assignment_builder_finish b2) (ls_dataset (last specs)) ts =
        Return (Err AfterLast)
    else \<exists>i < length specs. ts \<le> tms ! i \<and> (\<forall>j < i. tms ! j < ts) \<and>
      legacy_find_chunk_by_timestamp lk (assignment_builder_finish b2) (ls_dataset (last specs)) ts =
        Return (Ok (legacy_table (specs ! i)))"
proof -
  have holds: "legacy_holds b1 specs"
    by (rule legacy_staged [OF assms(1,2)])
  note emits = legacy_finish_emits [OF holds assms(3)]
  define d where "d = \<lparr>ds_id = ls_dataset (last specs), ds_chunks = map legacy_table specs,
    ds_last_block = snd (ls_range (last specs))\<rparr>"
  have "d \<in> set (lb_all_datasets b2)"
    by (simp add: emits(2) d_def)
  from lookup_by_key_eq [OF assms(4,5) this]
  have get: "legacy_get_dataset lk (assignment_builder_finish b2) (ls_dataset (last specs)) = Some d"
    by (simp add: legacy_get_dataset_def assignment_builder_finish_def d_def)
  have len: "length tms = length specs"
    using arg_cong [OF assms(6), of length] by simp
  have "ls_timestamp (specs ! i) = Some (tms ! i)" if "i < length specs" for i
    using arg_cong [OF assms(6), of "\<lambda>xs. xs ! i"] that len by simp
  then have stamps: "map ck_last_block_timestamp (map legacy_table specs) = map Some tms"
    using assms(6) by (simp add: legacy_table_def comp_def)
  have "legacy_find_chunk_by_timestamp lk (assignment_builder_finish b2) (ls_dataset (last specs)) ts =
      (if \<forall>t \<in> set tms. t < ts then Return (Err AfterLast)
       else Return (Ok (map legacy_table specs ! length (takeWhile (\<lambda>t. t < ts) tms))))"
    using find_by_timestamp_eq [OF get _ assms(7)] stamps by (simp add: d_def)
  then show ?thesis
    using first_not_less [of tms ts] len by (auto simp: not_less)
qed

theorem legacy_find_by_timestamp_correct_witness:
  "legacy_find_chunk_by_timestamp lookup_index_pure (assignment_builder_finish sample_legacy_done) ''s3://a'' 2000 =
    Return (Ok (legacy_table (sample_legacy_specs ! 1)))"
proof -
  let ?tms = "[1000, 2000, 2000] :: u64 list"
  have tms: "map ls_timestamp sample_legacy_specs = map Some ?tms" "sorted ?tms"
    by (simp_all add: sample_legacy_specs_def)
  have some: "\<not> (\<forall>t \<in> set ?tms. t < 2000)"
    and here: "ls_dataset (last sample_legacy_specs) = ''s3://a''" "length sample_legacy_specs = 3"
    by (simp_all add: sample_legacy_specs_def)
  from legacy_find_by_timestamp_correct [OF sample_legacy_run sample_legacy_finish
      index_search.key_search_axioms sample_legacy_sorted tms, of 2000]
  obtain i where i: "i < 3" "2000 \<le> ?tms ! i" "\<forall>j < i. ?tms ! j < 2000"
    "legacy_find_chunk_by_timestamp lookup_index_pure (assignment_builder_finish sample_legacy_done) ''s3://a'' 2000 =
      Return (Ok (legacy_table (sample_legacy_specs ! i)))"
    unfolding if_not_P [OF some] here by blast
  have "i \<noteq> 0"
    using i(2) by (cases i) simp_all
  moreover have "i \<noteq> 2"
    using spec [OF i(3), of 1] by (cases "i = 2") simp_all
  ultimately have "i = 1"
    using i(1) by linarith
  with i(4) show ?thesis
    by simp
qed

section \<open>One worker's view\<close>

text \<open>
  Chunk references resolve. For a worker of an assignment whose vectors fit 32-bit indices, the
  chunks listed with references are, in the same order, the chunks listed without; exactly the chunks
  naming the worker's index are listed; and looking a listed reference up gives back its chunk.
\<close>
theorem legacy_chunk_refs:
  assumes "length (as_datasets (lw_assignment w)) \<le> U32_MAX + 1"
    and "\<forall>d \<in> set (as_datasets (lw_assignment w)). length (ds_chunks d) \<le> U32_MAX + 1"
  shows "map snd (legacy_iter_chunks_with_ref w) = legacy_iter_chunks w \<and>
    set (legacy_iter_chunks w) =
      {c. \<exists>d \<in> set (as_datasets (lw_assignment w)). c \<in> set (ds_chunks d) \<and> lw_index w \<in> set (ck_worker_indexes c)} \<and>
    (\<forall>(r, c) \<in> set (legacy_iter_chunks_with_ref w). legacy_get_chunk (lw_assignment w) r = Some c)"
proof (intro conjI)
  let ?keep = "\<lambda>c. \<exists>i \<in> set (ck_worker_indexes c). lw_index w = i"
  let ?refs = "\<lambda>(d, ds). map (\<lambda>(c, chunk). (\<lparr>cr_dataset_index = of_nat d, cr_chunk_index = of_nat c\<rparr>, chunk))
    (filter (\<lambda>(_, chunk). ?keep chunk) (enumerate 0 (ds_chunks ds)))"
  have keep: "map snd (map (\<lambda>(c, chunk). (f c, chunk)) (filter (\<lambda>(_, c). ?keep c) (enumerate n xs))) =
      filter ?keep xs" for n xs and f :: "nat \<Rightarrow> chunk_ref"
    by (induction xs arbitrary: n) auto
  have all: "map (\<lambda>p. map snd (?refs p)) (enumerate n dss) = map (\<lambda>d. filter ?keep (ds_chunks d)) dss" for n dss
    by (induction dss arbitrary: n) (simp_all only: enumerate_simps list.map split_conv keep)
  show "map snd (legacy_iter_chunks_with_ref w) = legacy_iter_chunks w"
    unfolding legacy_iter_chunks_with_ref_def legacy_iter_chunks_def map_concat map_map comp_def
    by (rule arg_cong [of _ _ concat], rule all)
  show "set (legacy_iter_chunks w) =
      {c. \<exists>d \<in> set (as_datasets (lw_assignment w)). c \<in> set (ds_chunks d) \<and> lw_index w \<in> set (ck_worker_indexes c)}"
    by (auto simp: legacy_iter_chunks_def)
  show "\<forall>(r, c) \<in> set (legacy_iter_chunks_with_ref w). legacy_get_chunk (lw_assignment w) r = Some c"
  proof (clarify)
    fix r c
    assume "(r, c) \<in> set (legacy_iter_chunks_with_ref w)"
    then obtain i j where ij: "i < length (as_datasets (lw_assignment w))"
      "j < length (ds_chunks (as_datasets (lw_assignment w) ! i))"
      "r = \<lparr>cr_dataset_index = of_nat i, cr_chunk_index = of_nat j\<rparr>"
      "c = ds_chunks (as_datasets (lw_assignment w) ! i) ! j"
      by (auto simp: legacy_iter_chunks_with_ref_def in_set_enumerate_eq)
    have "unat (of_nat i :: u32) = i" "unat (of_nat j :: u32) = j"
      using ij(1,2) assms nth_mem [OF ij(1)] by (fastforce intro!: unat_of_nat_u32)+
    with ij show "legacy_get_chunk (lw_assignment w) r = Some c"
      by (simp add: legacy_get_chunk_def)
  qed
qed

theorem legacy_chunk_refs_witness:
  "map (\<lambda>(r, c). (cr_dataset_index r, cr_chunk_index r, ck_size c))
      (legacy_iter_chunks_with_ref \<lparr>lw_assignment = assignment_builder_finish sample_legacy_done,
        lw_reader = \<lparr>we_worker_id = [], we_status = 0, we_encrypted_headers = None\<rparr>, lw_index = 1\<rparr>) =
      [(0, 0, 10), (0, 1, 20)] \<and>
    list_all (\<lambda>(r, c). legacy_get_chunk (assignment_builder_finish sample_legacy_done) r = Some c)
      (legacy_iter_chunks_with_ref \<lparr>lw_assignment = assignment_builder_finish sample_legacy_done,
        lw_reader = \<lparr>we_worker_id = [], we_status = 0, we_encrypted_headers = None\<rparr>, lw_index = 1\<rparr>)"
proof -
  let ?w = "\<lparr>lw_assignment = assignment_builder_finish sample_legacy_done,
    lw_reader = \<lparr>we_worker_id = [], we_status = 0, we_encrypted_headers = None\<rparr>, lw_index = 1\<rparr>"
  have "length (as_datasets (lw_assignment ?w)) \<le> U32_MAX + 1"
    "\<forall>d \<in> set (as_datasets (lw_assignment ?w)). length (ds_chunks d) \<le> U32_MAX + 1"
    by code_simp+
  from legacy_chunk_refs [OF this]
  have "list_all (\<lambda>(r, c). legacy_get_chunk (assignment_builder_finish sample_legacy_done) r = Some c)
      (legacy_iter_chunks_with_ref ?w)"
    by (simp add: list_all_iff)
  moreover have "map (\<lambda>(r, c). (cr_dataset_index r, cr_chunk_index r, ck_size c))
      (legacy_iter_chunks_with_ref ?w) = [(0, 0, 10), (0, 1, 20)]"
    by code_simp
  ultimately show ?thesis
    by blast
qed

text \<open>
  Every worker added to the combined assignment in ascending order is found again by its peer id,
  at its index and with its status, and a peer id that was not added is not found; adding a worker out
  of order panics. Peer ids are 38 bytes that parse back.
\<close>
theorem legacy_worker_lookup:
  assumes "lb_worker_assignments b = []" "lb_last_peer_id b = None"
    and "\<forall>(p, st, cs, ts) \<in> set ws. codec_ok (cr_to_bytes cr) from_bytes p"
    and "add_all (\<lambda>(p, st, cs, ts). legacy_add_worker_with_timestamp cr p st cs ts) ws b = Return b'"
  shows "(\<forall>i < length ws. length ws \<le> 65536 \<longrightarrow>
      (\<exists>w. legacy_get_worker from_bytes (assignment_builder_finish b') (fst (ws ! i)) = Return (Some w) \<and>
        unat (lw_index w) = i \<and> lw_peer_id from_bytes w = Some (fst (ws ! i)) \<and>
        lw_status w = fst (snd (ws ! i)))) \<and>
    (\<forall>p. p \<notin> fst ` set ws \<longrightarrow>
      legacy_get_worker from_bytes (assignment_builder_finish b') p = Return None) \<and>
    (\<forall>p st cs ts. ws \<noteq> [] \<and> p \<le> fst (last ws) \<longrightarrow>
      (\<exists>m. legacy_add_worker_with_timestamp cr p st cs ts b' = Panic m))"
proof (intro conjI allI impI)
  let ?a = "assignment_builder_finish b'"
  have len: "\<forall>w \<in> set ws. length (cr_to_bytes cr (fst w)) = WORKER_ID_LEN"
    using assms(3) by (auto simp: codec_ok_def)
  have reg: "registered (cr_to_bytes cr) (map fst (lb_worker_assignments b')) (lb_last_peer_id b') (map fst ws)"
    using legacy_reg.registered_add_all [of cr b "[]", OF _ len assms(4)] assms(1,2) by simp
  then have sorted: "sorted_wrt (<) (map fst ws)"
    by (simp add: registered_def)
  have entries: "map (\<lambda>e. (we_worker_id e, we_status e)) (as_workers ?a) =
      map (\<lambda>w. (cr_to_bytes cr (fst w), status_to_fb (fst (snd w)))) ws"
    using legacy_add_all_entries [OF len assms(4)] assms(1)
    by (simp add: assignment_builder_finish_def comp_def)
  have codec: "\<forall>w \<in> set ws. codec_ok (cr_to_bytes cr) from_bytes (fst w)"
    using assms(3) by auto
  note found = find_worker [OF entries sorted codec]
  show "\<exists>w. legacy_get_worker from_bytes ?a (fst (ws ! i)) = Return (Some w) \<and>
      unat (lw_index w) = i \<and> lw_peer_id from_bytes w = Some (fst (ws ! i)) \<and>
      lw_status w = fst (snd (ws ! i))" if "i < length ws" "length ws \<le> 65536" for i
    using found(1) found(2-4) [OF that(1)] that
    by (simp add: legacy_get_worker_def lw_peer_id_def lw_status_def unat_of_nat take_bit_nat_eq_self_iff)
  show "legacy_get_worker from_bytes ?a p = Return None" if "p \<notin> fst ` set ws" for p
    using found(5) [OF that] by (simp add: legacy_get_worker_def)
  show "\<exists>m. legacy_add_worker_with_timestamp cr p st cs ts b' = Panic m"
    if "ws \<noteq> [] \<and> p \<le> fst (last ws)" for p st cs ts
    using legacy_reg.add_panics [of b' "(p, st, cs, ts)" cr] reg that
    by (simp add: registered_def out_of_order_def last_map not_less)
qed

theorem legacy_worker_lookup_witness:
  "\<exists>b' w. add_all (\<lambda>(p, st, cs, ts). legacy_add_worker_with_timestamp sample_crypto p st cs ts)
      [(3, StatusOk, [], 100), (5, Unreliable, [], 100)] sample_legacy_new = Return b' \<and>
    legacy_get_worker sample_from_bytes (assignment_builder_finish b') 5 = Return (Some w) \<and>
    unat (lw_index w) = 1 \<and> lw_status w = Unreliable \<and>
    legacy_get_worker sample_from_bytes (assignment_builder_finish b') 4 = Return None"
proof -
  let ?ws = "[(3, StatusOk, [], 100), (5, Unreliable, [], 100)] :: (u8 \<times> worker_status \<times> u32 list \<times> nat) list"
  have clean: "lb_worker_assignments sample_legacy_new = []" "lb_last_peer_id sample_legacy_new = None"
    by code_simp+
  have codec: "\<forall>(p, st, cs, ts) \<in> set ?ws. codec_ok (cr_to_bytes sample_crypto) sample_from_bytes p"
    by (simp add: sample_codec)
  have "\<exists>b'. add_all (\<lambda>(p, st, cs, ts). legacy_add_worker_with_timestamp sample_crypto p st cs ts)
      ?ws sample_legacy_new = Return b'"
    by (rule legacy_reg.add_all_defined [of sample_crypto _ "[]"]) (simp_all add: clean)
  then obtain b' where b': "add_all (\<lambda>(p, st, cs, ts). legacy_add_worker_with_timestamp sample_crypto p st cs ts)
      ?ws sample_legacy_new = Return b'"
    by blast
  have "1 < length ?ws" "length ?ws \<le> 65536" "?ws ! 1 = (5, Unreliable, [], 100)" "4 \<notin> fst ` set ?ws"
    by simp_all
  with legacy_worker_lookup [OF clean codec b'] b' show ?thesis
    by fastforce
qed

end
