(* ===== verification/Range_Set.thy ===== *)
theory Range_Set
  imports Rust_Std Data_Chunk
begin

text \<open>
  Block ranges and range sets: \<^verbatim>\<open>crates/messages/src/range.rs\<close> and the conversion of
  \<^verbatim>\<open>data_chunk.rs\<close>. A range is inclusive at both ends and ordered by its beginning, then its end,
  as the derived \<^verbatim>\<open>Ord\<close> does. A range set is refined to the set of its points.
\<close>

datatype range_msg = Range (rg_begin: u64) (rg_end: u64)

instantiation range_msg :: linorder
begin

definition less_eq_range_msg :: "range_msg \<Rightarrow> range_msg \<Rightarrow> bool" where
  "less_eq_range_msg a b \<longleftrightarrow> rg_begin a < rg_begin b \<or> rg_begin a = rg_begin b \<and> rg_end a \<le> rg_end b"

definition less_range_msg :: "range_msg \<Rightarrow> range_msg \<Rightarrow> bool" where
  "less_range_msg a b \<longleftrightarrow> rg_begin a < rg_begin b \<or> rg_begin a = rg_begin b \<and> rg_end a < rg_end b"

instance
  by standard (auto simp: less_eq_range_msg_def less_range_msg_def range_msg.expand)

end

definition range_new :: "u64 \<Rightarrow> u64 \<Rightarrow> range_msg outcome" where
  "range_new begin end' =
    (if begin \<le> end' then Return (Range begin end') else Panic ''assertion failed: begin <= end'')"

definition range_of_chunk :: "data_chunk \<Rightarrow> range_msg outcome" where
  "range_of_chunk chunk = range_new (dc_first_block chunk) (dc_last_block chunk)"

type_synonym range_set = "range_msg list"

definition range_set_empty :: range_set where
  "range_set_empty = []"

section \<open>Queries\<close>

definition compare_point :: "u64 \<Rightarrow> range_msg \<Rightarrow> ordering" where
  "compare_point point i =
    (if point < rg_begin i then Greater else if rg_end i < point then Less else Equal)"

definition containing_range :: "range_set \<Rightarrow> u64 \<Rightarrow> nat option" where
  "containing_range rs point =
    (case slice_binary_search_by (length rs) (\<lambda>i. compare_point point (rs ! i)) of
       Ok i \<Rightarrow> Some i | Err _ \<Rightarrow> None)"

definition range_set_has :: "range_set \<Rightarrow> u64 \<Rightarrow> bool" where
  "range_set_has rs point = (containing_range rs point \<noteq> None)"

definition find_containing_range :: "range_set \<Rightarrow> u64 \<Rightarrow> range_msg option" where
  "find_containing_range rs point = map_option (\<lambda>i. rs ! i) (containing_range rs point)"

definition range_set_includes :: "range_set \<Rightarrow> range_msg \<Rightarrow> bool" where
  "range_set_includes rs r =
    (case find_containing_range rs (rg_begin r) of
       Some c \<Rightarrow> rg_end r \<le> rg_end c
     | None \<Rightarrow> False)"

section \<open>Merging in place\<close>

function merge_loop :: "range_msg list \<Rightarrow> nat \<Rightarrow> nat \<Rightarrow> range_msg list outcome" where
  "merge_loop rs pi i =
    (if i < length rs then
       let c = rs ! i; p = rs ! pi
       in if rg_begin c > rg_end p + 1 then merge_loop (rs[pi + 1 := c]) (pi + 1) (i + 1)
          else
            outcome_bind (range_new (rg_begin p) (max (rg_end c) (rg_end p))) (\<lambda>r.
              merge_loop (rs[pi := r]) pi (i + 1))
     else Return (take (pi + 1) rs))"
  by pat_completeness auto
termination
  by (relation "measure (\<lambda>(rs, pi, i). length rs - i)") auto

declare merge_loop.simps [simp del]

definition range_set_extend :: "range_msg list \<Rightarrow> range_set \<Rightarrow> range_set outcome" where
  "range_set_extend iter rs = merge_loop (sort (rs @ iter)) 0 1"

definition range_set_from :: "range_msg list \<Rightarrow> range_set outcome" where
  "range_set_from iter = range_set_extend iter range_set_empty"

section \<open>The loop as a recursion over the sorted list\<close>

fun coalesce :: "range_msg \<Rightarrow> range_msg list \<Rightarrow> range_msg list" where
  "coalesce p [] = [p]"
| "coalesce p (c # cs) =
    (if rg_begin c > rg_end p + 1 then p # coalesce c cs
     else coalesce (Range (rg_begin p) (max (rg_end c) (rg_end p))) cs)"

definition range_ok :: "range_msg \<Rightarrow> bool" where
  "range_ok r = (rg_begin r \<le> rg_end r)"

lemma merge_loop_coalesce:
  assumes "pi < i" "i \<le> length rs" "range_ok (rs ! pi)" "\<forall>r \<in> set (drop i rs). range_ok r"
  shows "merge_loop rs pi i = Return (take pi rs @ coalesce (rs ! pi) (drop i rs))"
  using assms
proof (induction rs pi i rule: merge_loop.induct)
  case (1 rs pi i)
  show ?case
  proof (cases "i < length rs")
    case False
    then show ?thesis
      using "1.prems" by (subst merge_loop.simps) (simp add: take_Suc_conv_app_nth)
  next
    case True
    let ?c = "rs ! i" and ?p = "rs ! pi"
    have drop: "drop i rs = ?c # drop (Suc i) rs"
      using True by (simp add: Cons_nth_drop_Suc)
    have ok: "range_ok ?c" "\<forall>r \<in> set (drop (Suc i) rs). range_ok r"
      using "1.prems"(4) drop by simp_all
    show ?thesis
    proof (cases "rg_begin ?c > rg_end ?p + 1")
      case far: True
      have "merge_loop rs pi i = merge_loop (rs[pi + 1 := ?c]) (pi + 1) (i + 1)"
        using True far by (subst merge_loop.simps) (simp add: Let_def)
      also have "\<dots> = Return (take (pi + 1) (rs[pi + 1 := ?c]) @
          coalesce (rs[pi + 1 := ?c] ! (pi + 1)) (drop (i + 1) (rs[pi + 1 := ?c])))"
        using True far "1.prems"(1) ok by (intro "1.IH"(1)) simp_all
      finally show ?thesis
        using True far "1.prems"(1) drop by (simp add: take_Suc_conv_app_nth)
    next
      case near: False
      let ?r = "Range (rg_begin ?p) (max (rg_end ?c) (rg_end ?p))"
      have new: "range_new (rg_begin ?p) (max (rg_end ?c) (rg_end ?p)) = Return ?r"
        using "1.prems"(3) by (simp add: range_new_def range_ok_def le_max_iff_disj)
      have "merge_loop rs pi i = merge_loop (rs[pi := ?r]) pi (i + 1)"
        using True near new by (subst merge_loop.simps) (simp add: Let_def)
      also have "\<dots> = Return (take pi (rs[pi := ?r]) @ coalesce (rs[pi := ?r] ! pi) (drop (i + 1) (rs[pi := ?r])))"
        using True near new "1.prems"(1,3) ok
        by (intro "1.IH"(2)) (simp_all add: range_ok_def le_max_iff_disj)
      finally show ?thesis
        using True near "1.prems"(1) drop by simp
    qed
  qed
qed

section \<open>The set of points\<close>

definition points :: "range_msg \<Rightarrow> u64 set" where
  "points r = {x. rg_begin r \<le> x \<and> x \<le> rg_end r}"

definition set_points :: "range_set \<Rightarrow> u64 set" where
  "set_points rs = (\<Union>r \<in> set rs. points r)"

definition rs_inv :: "range_set \<Rightarrow> bool" where
  "rs_inv rs =
    ((\<forall>r \<in> set rs. rg_begin r \<le> rg_end r \<and> rg_end r \<noteq> - 1) \<and>
     sorted_wrt (\<lambda>a b. rg_end a + 1 < rg_begin b) rs)"

lemma points_merge:
  assumes "rg_begin p \<le> rg_begin c" "rg_begin c \<le> rg_end p + 1" "rg_end p \<noteq> - 1"
    and "rg_begin p \<le> rg_end p" "rg_begin c \<le> rg_end c"
  shows "points (Range (rg_begin p) (max (rg_end c) (rg_end p))) = points p \<union> points c"
proof -
  have "rg_begin c \<le> x" if "\<not> x \<le> rg_end p" for x
    using u64_Suc_le [OF assms(3), of x] that assms(2) by (meson not_le order.trans)
  then show ?thesis
    using assms(1,4) by (auto simp: points_def le_max_iff_disj intro: order.trans)
qed

lemma coalesce_begin:
  "sorted (map rg_begin (p # cs)) \<Longrightarrow> r \<in> set (coalesce p cs) \<Longrightarrow> rg_begin p \<le> rg_begin r"
  by (induction p cs rule: coalesce.induct) (fastforce split: if_splits)+

lemma coalesce_correct:
  assumes "sorted (map rg_begin (p # cs))" "\<forall>r \<in> set (p # cs). rg_begin r \<le> rg_end r \<and> rg_end r \<noteq> - 1"
  shows "set_points (coalesce p cs) = set_points (p # cs) \<and> rs_inv (coalesce p cs)"
  using assms
proof (induction p cs rule: coalesce.induct)
  case (1 p)
  then show ?case
    by (simp add: rs_inv_def)
next
  case (2 p c cs)
  show ?case
  proof (cases "rg_begin c > rg_end p + 1")
    case True
    have IH: "set_points (coalesce c cs) = set_points (c # cs)" "rs_inv (coalesce c cs)"
      using "2.IH"(1) [OF True] "2.prems" by simp_all
    have "rg_end p + 1 < rg_begin r" if "r \<in> set (coalesce c cs)" for r
      using coalesce_begin [OF _ that] "2.prems"(1) True by (auto intro: order.strict_trans2)
    then show ?thesis
      using IH True "2.prems"(2) by (simp add: set_points_def rs_inv_def)
  next
    case False
    let ?r = "Range (rg_begin p) (max (rg_end c) (rg_end p))"
    have "set_points (coalesce ?r cs) = set_points (?r # cs) \<and> rs_inv (coalesce ?r cs)"
      using "2.IH"(2) [OF False] "2.prems"
      by (auto simp: le_max_iff_disj max_def intro: order.trans)
    moreover have "points ?r = points p \<union> points c"
      using False "2.prems" by (intro points_merge) simp_all
    ultimately show ?thesis
      using False by (simp add: set_points_def Un_assoc)
  qed
qed

lemma sorted_begins: "sorted rs \<Longrightarrow> sorted (map rg_begin rs)"
  by (induction rs) (auto simp: less_eq_range_msg_def)

text \<open>
  C6: Extending a range set unions its points. For ranges that are not reversed and end below
  \<^verbatim>\<open>u64::MAX\<close>, the in-place merge after sorting returns, and what it leaves is sorted, with at least
  one point missing between neighbours, and covers exactly the points of the old set and of the added
  ranges. Building a set from an iterator is extending the empty one.
\<close>
theorem range_set_extend_union:
  assumes "\<forall>r \<in> set (rs @ iter). rg_begin r \<le> rg_end r \<and> rg_end r \<noteq> - 1"
  shows "\<exists>rs'. range_set_extend iter rs = Return rs' \<and> rs_inv rs' \<and>
    set_points rs' = set_points rs \<union> set_points iter \<and>
    (rs = range_set_empty \<longrightarrow> range_set_from iter = Return rs')"
proof (cases "sort (rs @ iter)")
  case Nil
  then have "rs = []" "iter = []"
    by (metis append_is_Nil_conv length_0_conv length_sort)+
  then show ?thesis
    by (simp add: range_set_extend_def merge_loop.simps rs_inv_def set_points_def range_set_from_def
        range_set_empty_def)
next
  case (Cons p cs)
  have set': "set (p # cs) = set (rs @ iter)"
    by (metis Cons set_sort)
  have "merge_loop (p # cs) 0 1 = Return (coalesce p cs)"
    using merge_loop_coalesce [of 0 1 "p # cs"] assms set' by (auto simp: range_ok_def)
  moreover have "sorted (map rg_begin (p # cs))"
    using sorted_begins [OF sorted_sort, of "rs @ iter"] unfolding Cons .
  then have "set_points (coalesce p cs) = set_points (p # cs)" "rs_inv (coalesce p cs)"
    using coalesce_correct [of p cs] assms set' by blast+
  moreover have "set_points (p # cs) = set_points rs \<union> set_points iter"
    unfolding set_points_def set' by auto
  ultimately show ?thesis
    using Cons by (auto simp: range_set_extend_def range_set_from_def)
qed

theorem range_set_extend_union_witness:
  "\<exists>rs'. range_set_extend [Range 21 30, Range 5 10] [Range 10 20, Range 35 40] = Return rs' \<and>
    rs_inv rs' \<and> 25 \<in> set_points rs'"
proof -
  have "\<forall>r \<in> set ([Range 10 20, Range 35 40] @ [Range 21 30, Range 5 10]). rg_begin r \<le> rg_end r \<and> rg_end r \<noteq> - 1"
    by simp
  from range_set_extend_union [OF this] obtain rs' where
    "range_set_extend [Range 21 30, Range 5 10] [Range 10 20, Range 35 40] = Return rs'" "rs_inv rs'"
    "set_points rs' = set_points [Range 10 20, Range 35 40] \<union> set_points [Range 21 30, Range 5 10]"
    by blast
  moreover have "25 \<in> set_points [Range 21 30, Range 5 10]"
    by (simp add: set_points_def points_def)
  ultimately show ?thesis
    by blast
qed

section \<open>Queries on a merged set\<close>

lemma rs_inv_gap:
  assumes "rs_inv rs" "i < j" "j < length rs"
  shows "rg_end (rs ! i) + 1 < rg_begin (rs ! j)" "rg_end (rs ! i) < rg_begin (rs ! j)"
proof -
  show gap: "rg_end (rs ! i) + 1 < rg_begin (rs ! j)"
    using assms sorted_wrt_nth_less [of "\<lambda>a b. rg_end a + 1 < rg_begin b" rs i j]
    by (simp add: rs_inv_def)
  have "rg_end (rs ! i) \<noteq> - 1"
    using assms by (simp add: rs_inv_def)
  from u64_less_Suc [OF this] gap show "rg_end (rs ! i) < rg_begin (rs ! j)"
    by (rule order.strict_trans)
qed

lemma rs_inv_ascending: "rs_inv rs \<Longrightarrow> ascending_cmp (length rs) (\<lambda>i. compare_point x (rs ! i))"
  unfolding ascending_cmp_def
proof (intro allI impI)
  fix i j
  assume inv: "rs_inv rs" and ij: "j < length rs" "i \<le> j"
  show "rank (compare_point x (rs ! i)) \<le> rank (compare_point x (rs ! j))"
  proof (cases "i = j")
    case False
    then have gap: "rg_end (rs ! i) < rg_begin (rs ! j)"
      using rs_inv_gap(2) [OF inv] ij by simp
    have "rg_begin (rs ! i) \<le> rg_end (rs ! i)" "rg_begin (rs ! j) \<le> rg_end (rs ! j)"
      using inv ij by (simp_all add: rs_inv_def)
    with gap show ?thesis
      by (auto simp: compare_point_def)
  qed simp
qed

lemma containing_range_Some:
  "containing_range rs x = Some i \<Longrightarrow> i < length rs \<and> x \<in> points (rs ! i)"
  using slice_binary_search_by_Ok [of "length rs" "\<lambda>i. compare_point x (rs ! i)" i]
  by (auto simp: containing_range_def compare_point_def points_def not_less
      split: result.splits if_splits)

lemma containing_range_None:
  assumes "rs_inv rs" "containing_range rs x = None"
  shows "x \<notin> set_points rs"
proof -
  obtain p where "slice_binary_search_by (length rs) (\<lambda>i. compare_point x (rs ! i)) = Err p"
    using assms(2) by (auto simp: containing_range_def split: result.splits)
  from slice_binary_search_by_Err [OF rs_inv_ascending [OF assms(1)] this]
  have "compare_point x (rs ! i) \<noteq> Equal" if "i < length rs" for i
    using that by (metis linorder_not_le ordering.distinct(1,5))
  then show ?thesis
    by (fastforce simp: set_points_def points_def compare_point_def in_set_conv_nth split: if_splits)
qed

lemma containing_range_mem:
  assumes "rs_inv rs" "y \<in> set_points rs"
  obtains i where "containing_range rs y = Some i" "i < length rs" "y \<in> points (rs ! i)"
  using containing_range_None [OF assms(1), of y] containing_range_Some [of rs y] assms(2) by blast

lemma containing_range_iff: "rs_inv rs \<Longrightarrow> containing_range rs y \<noteq> None \<longleftrightarrow> y \<in> set_points rs"
  using containing_range_mem [of rs y] containing_range_Some [of rs y] by (auto simp: set_points_def)

text \<open>The point after a range of the set is in no range: the ranges do not touch.\<close>

lemma after_range_free:
  assumes "rs_inv rs" "i < length rs"
  shows "rg_end (rs ! i) + 1 \<notin> set_points rs"
proof
  have max: "rg_end (rs ! i) \<noteq> - 1" and le: "rg_begin (rs ! i) \<le> rg_end (rs ! i)"
    using assms by (simp_all add: rs_inv_def)
  assume "rg_end (rs ! i) + 1 \<in> set_points rs"
  then obtain j where j: "j < length rs" "rg_end (rs ! i) + 1 \<in> points (rs ! j)"
    using containing_range_mem [OF assms(1)] by metis
  consider "i < j" | "j = i" | "j < i"
    by linarith
  then show False
  proof cases
    case 1
    then show ?thesis
      using rs_inv_gap(1) [OF assms(1) 1 j(1)] j(2) by (auto simp: points_def)
  next
    case 2
    then show ?thesis
      using j(2) u64_less_Suc [OF max] by (auto simp: points_def)
  next
    case 3
    then have "rg_end (rs ! j) < rg_begin (rs ! i)"
      using rs_inv_gap(2) [OF assms(1), of j i] assms(2) by simp
    with le j(2) u64_less_Suc [OF max] show ?thesis
      by (auto simp: points_def)
  qed
qed

lemma range_set_includes_iff:
  assumes "rs_inv rs" "rg_begin r \<le> rg_end r"
  shows "range_set_includes rs r \<longleftrightarrow> points r \<subseteq> set_points rs"
proof
  assume "range_set_includes rs r"
  then obtain i where i: "containing_range rs (rg_begin r) = Some i" "rg_end r \<le> rg_end (rs ! i)"
    by (auto simp: range_set_includes_def find_containing_range_def split: option.splits)
  from containing_range_Some [OF i(1)] have "points r \<subseteq> points (rs ! i)" "rs ! i \<in> set rs"
    using i(2) by (auto simp: points_def)
  then show "points r \<subseteq> set_points rs"
    by (auto simp: set_points_def)
next
  assume sub: "points r \<subseteq> set_points rs"
  then have "rg_begin r \<in> set_points rs"
    using assms(2) by (auto simp: points_def)
  from containing_range_mem [OF assms(1) this] obtain i where
    i: "containing_range rs (rg_begin r) = Some i" "i < length rs" "rg_begin r \<in> points (rs ! i)" .
  have "rg_end r \<le> rg_end (rs ! i)"
  proof (rule ccontr)
    assume "\<not> rg_end r \<le> rg_end (rs ! i)"
    moreover have max: "rg_end (rs ! i) \<noteq> - 1"
      using assms(1) i(2) by (simp add: rs_inv_def)
    ultimately have "rg_end (rs ! i) + 1 \<in> points r"
      using u64_Suc_le [OF max] u64_less_Suc [OF max] i(3) by (auto simp: points_def not_le)
    with sub after_range_free [OF assms(1) i(2)] show False
      by blast
  qed
  with i(1) show "range_set_includes rs r"
    by (simp add: range_set_includes_def find_containing_range_def)
qed

text \<open>
  C40: On a merged range set the queries mean what the point set says: \<^verbatim>\<open>has\<close> is membership, the
  containing range of a member is a range of the set that holds it, and \<^verbatim>\<open>includes\<close> of a range that
  is not reversed is inclusion of all its points.
\<close>
theorem range_set_queries_correct:
  assumes "rs_inv rs" "rg_begin r \<le> rg_end r"
  shows "(range_set_has rs x \<longleftrightarrow> x \<in> set_points rs) \<and>
    (case find_containing_range rs x of
       Some c \<Rightarrow> c \<in> set rs \<and> x \<in> points c
     | None \<Rightarrow> x \<notin> set_points rs) \<and>
    (range_set_includes rs r \<longleftrightarrow> points r \<subseteq> set_points rs)"
proof -
  have "case find_containing_range rs x of Some c \<Rightarrow> c \<in> set rs \<and> x \<in> points c | None \<Rightarrow> x \<notin> set_points rs"
    using containing_range_Some [of rs x] containing_range_iff [OF assms(1), of x]
    by (auto simp: find_containing_range_def split: option.splits)
  then show ?thesis
    using containing_range_iff [OF assms(1), of x] range_set_includes_iff [OF assms] by (auto simp: range_set_has_def)
qed

theorem range_set_queries_correct_witness:
  "range_set_has [Range 5 30, Range 35 40] 21 \<and> \<not> range_set_has [Range 5 30, Range 35 40] 32 \<and>
    range_set_includes [Range 5 30, Range 35 40] (Range 10 25)"
proof -
  have inv: "rs_inv [Range 5 30, Range 35 40]" "rg_begin (Range 10 25) \<le> rg_end (Range 10 25)"
    by (simp_all add: rs_inv_def)
  have "21 \<in> set_points [Range 5 30, Range 35 40]" "32 \<notin> set_points [Range 5 30, Range 35 40]"
    "points (Range 10 25) \<subseteq> set_points [Range 5 30, Range 35 40]"
    by (auto simp: set_points_def points_def word_le_nat_alt)
  with range_set_queries_correct [OF inv, of 21] range_set_queries_correct [OF inv, of 32] show ?thesis
    by blast
qed

text \<open>
  At the top of the range the successor wraps: a range ending at \<^verbatim>\<open>u64::MAX\<close> is not merged with a
  range it contains, and the set is left with overlapping ranges.
\<close>

lemma range_set_extend_wraps:
  "range_set_extend [Range 0 (- 1), Range 5 6] range_set_empty = Return [Range 0 (- 1), Range 5 6]"
  by code_simp

end
