(* ===== verification/Byte_Encoding.thy ===== *)
theory Byte_Encoding
  imports Rust_Std
begin

text \<open>
  \<^verbatim>\<open>to_le_bytes\<close> of the machine integers: the least significant byte first, as many bytes as the
  type has. The encoding is injective, which is what signed payloads rely on.
\<close>

definition le_bytes :: "nat \<Rightarrow> nat \<Rightarrow> u8 list" where
  "le_bytes k n = map (\<lambda>i. of_nat (n div 256 ^ i)) [0 ..< k]"

definition u32_le_bytes :: "u32 \<Rightarrow> u8 list" where
  "u32_le_bytes x = le_bytes 4 (unat x)"

definition u64_le_bytes :: "u64 \<Rightarrow> u8 list" where
  "u64_le_bytes x = le_bytes 8 (unat x)"

fun from_le_bytes :: "u8 list \<Rightarrow> nat" where
  "from_le_bytes [] = 0"
| "from_le_bytes (b # bs) = unat b + 256 * from_le_bytes bs"

lemma length_le_bytes [simp]: "length (le_bytes k n) = k"
  by (simp add: le_bytes_def)

lemma length_u32_le_bytes [simp]: "length (u32_le_bytes x) = 4"
  by (simp add: u32_le_bytes_def)

lemma length_u64_le_bytes [simp]: "length (u64_le_bytes x) = 8"
  by (simp add: u64_le_bytes_def)

lemma le_bytes_Suc: "le_bytes (Suc k) n = of_nat n # le_bytes k (n div 256)"
proof -
  have "le_bytes (Suc k) n = map (\<lambda>i. of_nat (n div 256 ^ i)) (0 # map Suc [0 ..< k])"
    by (simp only: le_bytes_def upt_conv_Cons [OF zero_less_Suc] map_Suc_upt)
  then show ?thesis
    by (simp add: le_bytes_def comp_def div_mult2_eq)
qed

lemma from_le_bytes: "n < 256 ^ k \<Longrightarrow> from_le_bytes (le_bytes k n) = n"
proof (induction k arbitrary: n)
  case (Suc k)
  then have "from_le_bytes (le_bytes k (n div 256)) = n div 256"
    by (simp add: less_mult_imp_div_less mult.commute)
  then show ?case
    by (simp add: le_bytes_Suc unat_of_nat take_bit_eq_mod)
qed (simp add: le_bytes_def)

lemma u32_le_bytes_inj [simp]: "u32_le_bytes x = u32_le_bytes y \<longleftrightarrow> x = y"
proof -
  have "from_le_bytes (u32_le_bytes z) = unat z" for z
    using unsigned_less [where 'a = nat, of z] by (simp add: u32_le_bytes_def from_le_bytes)
  then show ?thesis
    by (metis word_unat_eq_iff)
qed

lemma u64_le_bytes_inj [simp]: "u64_le_bytes x = u64_le_bytes y \<longleftrightarrow> x = y"
proof -
  have "from_le_bytes (u64_le_bytes z) = unat z" for z
    using unsigned_less [where 'a = nat, of z] by (simp add: u64_le_bytes_def from_le_bytes)
  then show ?thesis
    by (metis word_unat_eq_iff)
qed

end
