(* ===== verification/Message_Signing.thy ===== *)
theory Message_Signing
  imports Byte_Encoding Range_Set
begin

text \<open>
  Signed messages: \<^verbatim>\<open>crates/messages/src/signatures.rs\<close> over the messages of
  \<^verbatim>\<open>messages.proto\<close>. Hashing, Ed25519 and the parsing of peer ids belong to other crates and are the
  fields of the record \<open>sig_crypto\<close>, a parameter of the definitions that use them.
\<close>

type_synonym i32 = "32 word"

record query =
  qy_query_id :: string
  qy_dataset :: string
  qy_request_id :: string
  qy_query :: string
  qy_block_range :: "range_msg option"
  qy_chunk_id :: string
  qy_timestamp_ms :: u64
  qy_signature :: "u8 list"
  qy_compression :: i32
  qy_query_engine :: i32
  qy_output_format :: i32
  qy_chunk_version :: u32

datatype query_err = BadRequest string | NotFound string | ServerError string | TooManyRequests | ServerOverloaded

record query_ok =
  qo_data :: "u8 list"
  qo_last_block :: u64
  qo_uncompressed_data_size :: "u64 option"

datatype query_result_body = ResultOk query_ok | ResultErr "query_err option"

record query_result =
  qr_query_id :: string
  qr_result :: "query_result_body option"
  qr_retry_after_ms :: "u32 option"
  qr_signature :: "u8 list"

record query_ok_summary =
  os_uncompressed_data_size :: u64
  os_data_hash :: "u8 list"
  os_last_block :: u64

datatype query_finished_body = FinishedOk query_ok_summary | FinishedErr "query_err option"

record query_finished =
  qf_worker_id :: string
  qf_query_id :: string
  qf_total_time_micros :: u32
  qf_result :: "query_finished_body option"
  qf_worker_signature :: "u8 list"

record time_report =
  tr_parsing_time_micros :: u32
  tr_execution_time_micros :: u32
  tr_serialization_time_micros :: u32
  tr_compression_time_micros :: u32
  tr_signing_time_micros :: u32


record ('p, 'kp, 'pk) sig_crypto =
  sc_sha3_256 :: "u8 list \<Rightarrow> u8 list"
  sc_sign :: "'kp \<Rightarrow> u8 list \<Rightarrow> u8 list"
  sc_decode_pubkey :: "u8 list \<Rightarrow> 'pk option"
  sc_verify :: "'pk \<Rightarrow> u8 list \<Rightarrow> u8 list \<Rightarrow> bool"
  sc_to_bytes :: "'p \<Rightarrow> u8 list"
  sc_parse_peer :: "string \<Rightarrow> 'p option"

definition SHA3_256_SIZE :: nat where "SHA3_256_SIZE = 32"
definition UUID_V4_SIZE :: nat where "UUID_V4_SIZE = 36"

definition verify_signature :: "('p, 'kp, 'pk) sig_crypto \<Rightarrow> 'p \<Rightarrow> u8 list \<Rightarrow> u8 list \<Rightarrow> bool" where
  "verify_signature sc peer_id msg signature =
    (case sc_decode_pubkey sc (drop 2 (sc_to_bytes sc peer_id)) of
       Some pubkey \<Rightarrow> sc_verify sc pubkey msg signature
     | None \<Rightarrow> False)"

section \<open>Queries\<close>

definition u32_try_from_len :: "nat \<Rightarrow> u32 option" where
  "u32_try_from_len n = (if n \<le> U32_MAX then Some (of_nat n) else None)"

definition u8_try_from_i32 :: "i32 \<Rightarrow> u8 option" where
  "u8_try_from_i32 x = (if 0 \<le> sint x \<and> sint x \<le> 255 then Some (word_of_int (sint x)) else None)"

definition query_msg_to_sign :: "('p \<Rightarrow> u8 list) \<Rightarrow> 'p \<Rightarrow> query \<Rightarrow> u8 list option outcome" where
  "query_msg_to_sign to_bytes worker_id q =
    (if length (qy_query_id q) \<noteq> UUID_V4_SIZE then Return None
     else
       outcome_bind (expect ''dataset length fits in u32'' (u32_try_from_len (length (qy_dataset q)))) (\<lambda>dataset_len.
       outcome_bind (expect ''query length fits in u32'' (u32_try_from_len (length (qy_query q)))) (\<lambda>query_len.
       outcome_bind (expect ''chunk_id length fits in u32'' (u32_try_from_len (length (qy_chunk_id q)))) (\<lambda>chunk_id_len.
       let msg = as_bytes (qy_query_id q) @ to_bytes worker_id @ u64_le_bytes (qy_timestamp_ms q) @
             u32_le_bytes dataset_len @ as_bytes (qy_dataset q) @
             u32_le_bytes query_len @ as_bytes (qy_query q) @
             u32_le_bytes chunk_id_len @ as_bytes (qy_chunk_id q);
           msg = (case qy_block_range q of
               Some r \<Rightarrow> msg @ u64_le_bytes (rg_begin r) @ u64_le_bytes (rg_end r)
             | None \<Rightarrow> msg)
       in if qy_query_engine q \<noteq> 0 \<or> qy_output_format q \<noteq> 0 then
            let msg = (if qy_block_range q = None then msg @ [0] else msg)
            in (case u8_try_from_i32 (qy_query_engine q) of
                  None \<Rightarrow> Return None
                | Some engine \<Rightarrow>
                    (case u8_try_from_i32 (qy_output_format q) of
                       None \<Rightarrow> Return None
                     | Some format \<Rightarrow> Return (Some ((msg @ [engine]) @ [format]))))
          else Return (Some msg)))))"


definition query_verify_signature ::
  "('p, 'kp, 'pk) sig_crypto \<Rightarrow> 'p \<Rightarrow> 'p \<Rightarrow> query \<Rightarrow> bool outcome" where
  "query_verify_signature sc signer_id worker_id q =
    outcome_map
      (\<lambda>m. case m of
         Some msg \<Rightarrow> verify_signature sc signer_id msg (qy_signature q)
       | None \<Rightarrow> False)
      (query_msg_to_sign (sc_to_bytes sc) worker_id q)"

section \<open>Results\<close>

definition msg_to_sign_query_ok :: "string \<Rightarrow> u8 list \<Rightarrow> u64 \<Rightarrow> u8 list option" where
  "msg_to_sign_query_ok query_id data_hash last_block =
    (if length data_hash \<noteq> SHA3_256_SIZE then None
     else if length query_id \<noteq> UUID_V4_SIZE then None
     else Some (as_bytes query_id @ data_hash @ u64_le_bytes last_block))"

fun err_code :: "query_err \<Rightarrow> u8" where
  "err_code (BadRequest _) = 1"
| "err_code (NotFound _) = 2"
| "err_code (ServerError _) = 3"
| "err_code TooManyRequests = 4"
| "err_code ServerOverloaded = 5"

definition msg_to_sign_query_err :: "string \<Rightarrow> query_err \<Rightarrow> u8 list option" where
  "msg_to_sign_query_err query_id err =
    (if length query_id \<noteq> UUID_V4_SIZE then None
     else let code = err_code err in Some (as_bytes query_id @ [code]))"

definition result_msg_to_sign :: "('p, 'kp, 'pk) sig_crypto \<Rightarrow> query_result \<Rightarrow> u8 list option" where
  "result_msg_to_sign sc r =
    (case qr_result r of
       Some (ResultOk ok) \<Rightarrow>
         msg_to_sign_query_ok (qr_query_id r) (sc_sha3_256 sc (qo_data ok)) (qo_last_block ok)
     | Some (ResultErr (Some err)) \<Rightarrow> msg_to_sign_query_err (qr_query_id r) err
     | _ \<Rightarrow> None)"

definition result_sign ::
  "('p, 'kp, 'pk) sig_crypto \<Rightarrow> 'kp \<Rightarrow> query_result \<Rightarrow> query_result \<times> (string, unit) result" where
  "result_sign sc keypair r =
    (case result_msg_to_sign sc r of
       None \<Rightarrow> (r, Err (''couldn'' @ CHR 0x27 # ''t sign invalid QueryResult''))
     | Some msg \<Rightarrow> (r\<lparr>qr_signature := sc_sign sc keypair msg\<rparr>, Ok ()))"

definition result_verify_signature :: "('p, 'kp, 'pk) sig_crypto \<Rightarrow> 'p \<Rightarrow> query_result \<Rightarrow> bool" where
  "result_verify_signature sc signer_id r =
    (case result_msg_to_sign sc r of
       Some msg \<Rightarrow> verify_signature sc signer_id msg (qr_signature r)
     | None \<Rightarrow> False)"

section \<open>Log records\<close>

definition finished_verify_signature :: "('p, 'kp, 'pk) sig_crypto \<Rightarrow> query_finished \<Rightarrow> bool" where
  "finished_verify_signature sc f =
    (let verify = (\<lambda>m. case m of
           None \<Rightarrow> False
         | Some msg \<Rightarrow>
             (case sc_parse_peer sc (qf_worker_id f) of
                None \<Rightarrow> False
              | Some worker_id \<Rightarrow> verify_signature sc worker_id msg (qf_worker_signature f)))
     in case qf_result f of
          Some (FinishedOk res) \<Rightarrow>
            verify (msg_to_sign_query_ok (qf_query_id f) (os_data_hash res) (os_last_block res))
        | Some (FinishedErr (Some err)) \<Rightarrow> verify (msg_to_sign_query_err (qf_query_id f) err)
        | _ \<Rightarrow> False)"

definition finished_new ::
  "('p, 'kp, 'pk) sig_crypto \<Rightarrow> query_result \<Rightarrow> string \<Rightarrow> u32 \<Rightarrow> query_finished" where
  "finished_new sc r worker_id total_time_micros =
    \<lparr>qf_worker_id = worker_id, qf_query_id = qr_query_id r, qf_total_time_micros = total_time_micros,
     qf_result =
       (case qr_result r of
          Some (ResultOk ok) \<Rightarrow>
            Some (FinishedOk \<lparr>os_uncompressed_data_size = of_nat (length (qo_data ok)),
              os_data_hash = sc_sha3_256 sc (qo_data ok), os_last_block = qo_last_block ok\<rparr>)
        | Some (ResultErr err) \<Rightarrow> Some (FinishedErr err)
        | None \<Rightarrow> None),
     qf_worker_signature = qr_signature r\<rparr>"


section \<open>What a query signature covers\<close>

lemma u32_try_from_len_unat: "u32_try_from_len n = Some m \<Longrightarrow> n = unat m"
  by (auto simp: u32_try_from_len_def split: if_splits)

lemma u8_try_from_i32_inj:
  assumes "u8_try_from_i32 x = Some a" "u8_try_from_i32 y = Some a"
  shows "x = y"
proof -
  have "uint a = sint z" if "u8_try_from_i32 z = Some a" for z
  proof -
    have "uint (word_of_int n :: u8) = n" if "0 \<le> n" "n \<le> 255" for n
      using that by (simp add: unsigned_of_int take_bit_int_eq_self)
    with that show ?thesis
      unfolding u8_try_from_i32_def by (metis option.distinct(1) option.inject)
  qed
  then have "sint x = sint y"
    using assms by metis
  then show ?thesis
    by (metis scast_eq scast_id)
qed

text \<open>The optional tail: nothing, a range, a marked absence of a range with the two enums, or all.\<close>

fun query_tail :: "range_msg option \<Rightarrow> (u8 \<times> u8) option \<Rightarrow> u8 list" where
  "query_tail None None = []"
| "query_tail (Some r) None = u64_le_bytes (rg_begin r) @ u64_le_bytes (rg_end r)"
| "query_tail None (Some (e, f)) = [0, e, f]"
| "query_tail (Some r) (Some (e, f)) = u64_le_bytes (rg_begin r) @ u64_le_bytes (rg_end r) @ [e, f]"

lemma length_query_tail:
  "length (query_tail r m) =
    (case r of None \<Rightarrow> (case m of None \<Rightarrow> 0 | Some _ \<Rightarrow> 3) | Some _ \<Rightarrow> (case m of None \<Rightarrow> 16 | Some _ \<Rightarrow> 18))"
  by (cases r; cases m) auto

lemma query_tail_inj:
  assumes "query_tail r m = query_tail r' m'"
  shows "r = r' \<and> m = m'"
proof -
  have "length (query_tail r m) = length (query_tail r' m')"
    using assms by simp
  then have "(r = None) = (r' = None)" "(m = None) = (m' = None)"
    by (auto simp: length_query_tail split: option.splits)
  then show ?thesis
    using assms by (cases r; cases m; cases r'; cases m') (auto simp: range_msg.expand)
qed

definition query_modes :: "query \<Rightarrow> (u8 \<times> u8) option option" where
  "query_modes q =
    (if qy_query_engine q \<noteq> 0 \<or> qy_output_format q \<noteq> 0 then
       (case (u8_try_from_i32 (qy_query_engine q), u8_try_from_i32 (qy_output_format q)) of
          (Some e, Some f) \<Rightarrow> Some (Some (e, f)) | _ \<Rightarrow> None)
     else Some None)"

lemma query_modes_inj:
  assumes "query_modes q = Some m" "query_modes q' = Some m"
  shows "qy_query_engine q = qy_query_engine q'" "qy_output_format q = qy_output_format q'"
  using assms by (auto simp: query_modes_def split: if_splits option.splits dest: u8_try_from_i32_inj)

lemma query_msg_to_sign_Some:
  assumes "query_msg_to_sign to_bytes w q = Return (Some msg)"
  obtains d k c m where "length (qy_query_id q) = UUID_V4_SIZE"
    "u32_try_from_len (length (qy_dataset q)) = Some d" "u32_try_from_len (length (qy_query q)) = Some k"
    "u32_try_from_len (length (qy_chunk_id q)) = Some c" "query_modes q = Some m"
    "msg = as_bytes (qy_query_id q) @ to_bytes w @ u64_le_bytes (qy_timestamp_ms q) @
       u32_le_bytes d @ as_bytes (qy_dataset q) @ u32_le_bytes k @ as_bytes (qy_query q) @
       u32_le_bytes c @ as_bytes (qy_chunk_id q) @ query_tail (qy_block_range q) m"
proof -
  from assms obtain d k c where lens: "length (qy_query_id q) = UUID_V4_SIZE"
    "u32_try_from_len (length (qy_dataset q)) = Some d" "u32_try_from_len (length (qy_query q)) = Some k"
    "u32_try_from_len (length (qy_chunk_id q)) = Some c"
    by (auto simp: query_msg_to_sign_def split: if_splits)
  show ?thesis
  proof (cases "qy_query_engine q \<noteq> 0 \<or> qy_output_format q \<noteq> 0")
    case True
    with assms lens obtain e f where
      "u8_try_from_i32 (qy_query_engine q) = Some e" "u8_try_from_i32 (qy_output_format q) = Some f"
      by (auto simp: query_msg_to_sign_def Let_def split: option.splits)
    with True lens assms show ?thesis
      by (intro that [of d k c "Some (e, f)"])
        (auto simp: query_msg_to_sign_def query_modes_def Let_def split: option.splits)
  next
    case False
    with lens assms show ?thesis
      by (intro that [of d k c None])
        (auto simp: query_msg_to_sign_def query_modes_def Let_def split: option.splits)
  qed
qed

text \<open>The fields of a query that its signature is made over, beside the worker it is addressed to.\<close>

definition signed_fields ::
  "query \<Rightarrow> (string \<times> u64 \<times> string \<times> string) \<times> string \<times> range_msg option \<times> i32 \<times> i32" where
  "signed_fields q =
    ((qy_query_id q, qy_timestamp_ms q, qy_dataset q, qy_query q),
     qy_chunk_id q, qy_block_range q, qy_query_engine q, qy_output_format q)"

lemma signed_fields_inj:
  assumes "query_msg_to_sign to_bytes w q = Return (Some msg)"
    and "query_msg_to_sign to_bytes w' q' = Return (Some msg)"
    and "length (to_bytes w) = length (to_bytes w')"
  shows "to_bytes w = to_bytes w' \<and> signed_fields q = signed_fields q'"
proof -
  obtain d k c m where q: "length (qy_query_id q) = UUID_V4_SIZE"
    "u32_try_from_len (length (qy_dataset q)) = Some d" "u32_try_from_len (length (qy_query q)) = Some k"
    "u32_try_from_len (length (qy_chunk_id q)) = Some c" "query_modes q = Some m"
    "msg = as_bytes (qy_query_id q) @ to_bytes w @ u64_le_bytes (qy_timestamp_ms q) @
       u32_le_bytes d @ as_bytes (qy_dataset q) @ u32_le_bytes k @ as_bytes (qy_query q) @
       u32_le_bytes c @ as_bytes (qy_chunk_id q) @ query_tail (qy_block_range q) m"
    by (rule query_msg_to_sign_Some [OF assms(1)])
  obtain d' k' c' m' where q': "length (qy_query_id q') = UUID_V4_SIZE"
    "u32_try_from_len (length (qy_dataset q')) = Some d'" "u32_try_from_len (length (qy_query q')) = Some k'"
    "u32_try_from_len (length (qy_chunk_id q')) = Some c'" "query_modes q' = Some m'"
    "msg = as_bytes (qy_query_id q') @ to_bytes w' @ u64_le_bytes (qy_timestamp_ms q') @
       u32_le_bytes d' @ as_bytes (qy_dataset q') @ u32_le_bytes k' @ as_bytes (qy_query q') @
       u32_le_bytes c' @ as_bytes (qy_chunk_id q') @ query_tail (qy_block_range q') m'"
    by (rule query_msg_to_sign_Some [OF assms(2)])
  have "qy_query_id q = qy_query_id q' \<and> to_bytes w = to_bytes w' \<and> qy_timestamp_ms q = qy_timestamp_ms q' \<and>
      qy_dataset q = qy_dataset q' \<and> qy_query q = qy_query q' \<and> qy_chunk_id q = qy_chunk_id q' \<and>
      query_tail (qy_block_range q) m = query_tail (qy_block_range q') m'"
    using q(6) q'(6) q(1) q'(1) assms(3)
      u32_try_from_len_unat [OF q(2)] u32_try_from_len_unat [OF q(3)] u32_try_from_len_unat [OF q(4)]
      u32_try_from_len_unat [OF q'(2)] u32_try_from_len_unat [OF q'(3)] u32_try_from_len_unat [OF q'(4)]
    by simp
  then show ?thesis
    using query_tail_inj [of "qy_block_range q" m "qy_block_range q'" m'] query_modes_inj [OF q(5)] q'(5)
    by (simp add: signed_fields_def)
qed

text \<open>
  C18: The payload a client signs determines what it covers. If two queries, addressed to workers whose
  ids have encodings of equal length, are signed over the same bytes, they agree on the query id, the
  worker, the timestamp, the dataset, the query text, the chunk id, the optional block range, the query
  engine and the output format.
\<close>
theorem query_payload_injective:
  assumes "query_msg_to_sign to_bytes w q = Return (Some msg)"
    and "query_msg_to_sign to_bytes w' q' = Return (Some msg)"
    and "length (to_bytes w) = length (to_bytes w')"
  shows "qy_query_id q = qy_query_id q' \<and> to_bytes w = to_bytes w' \<and>
    qy_timestamp_ms q = qy_timestamp_ms q' \<and> qy_dataset q = qy_dataset q' \<and> qy_query q = qy_query q' \<and>
    qy_chunk_id q = qy_chunk_id q' \<and> qy_block_range q = qy_block_range q' \<and>
    qy_query_engine q = qy_query_engine q' \<and> qy_output_format q = qy_output_format q'"
  using signed_fields_inj [OF assms] by (simp add: signed_fields_def)

definition sample_query :: query where
  "sample_query =
    \<lparr>qy_query_id = ''6c9bb0e3-4a3f-4b7a-9b6a-2f2f6e1a0d51'', qy_dataset = ''s3://a'', qy_request_id = ''r'',
     qy_query = ''{}'', qy_block_range = None, qy_chunk_id = ''c'', qy_timestamp_ms = 1700000000000,
     qy_signature = [], qy_compression = 0, qy_query_engine = 1, qy_output_format = 0,
     qy_chunk_version = 0\<rparr>"

theorem query_payload_injective_witness:
  "query_msg_to_sign (\<lambda>w. [w]) (3 :: u8) sample_query \<noteq>
    query_msg_to_sign (\<lambda>w. [w]) 3 (sample_query\<lparr>qy_query_engine := 0, qy_output_format := 1\<rparr>)"
proof
  assume eq: "query_msg_to_sign (\<lambda>w. [w]) (3 :: u8) sample_query =
    query_msg_to_sign (\<lambda>w. [w]) 3 (sample_query\<lparr>qy_query_engine := 0, qy_output_format := 1\<rparr>)"
  have "case query_msg_to_sign (\<lambda>w. [w]) (3 :: u8) sample_query of Return (Some _) \<Rightarrow> True | _ \<Rightarrow> False"
    by code_simp
  then obtain msg where msg: "query_msg_to_sign (\<lambda>w. [w]) (3 :: u8) sample_query = Return (Some msg)"
    by (auto split: outcome.splits option.splits)
  from query_payload_injective [OF msg _ refl, of "sample_query\<lparr>qy_query_engine := 0, qy_output_format := 1\<rparr>"]
    eq msg show False
    by (simp add: sample_query_def)
qed

text \<open>
  The fields the payload leaves out: the signature stays valid when the request id, the compression or
  the chunk version of a signed query is changed.
\<close>

lemma query_payload_omits:
  "query_msg_to_sign to_bytes w (q\<lparr>qy_request_id := r, qy_compression := z, qy_chunk_version := v\<rparr>) =
    query_msg_to_sign to_bytes w q"
  by (cases q) (simp only: query_msg_to_sign_def query.simps)

lemma query_signature_omits:
  "query_verify_signature sc p w
      (q\<lparr>qy_request_id := r, qy_compression := z, qy_chunk_version := v\<rparr>) =
    query_verify_signature sc p w q"
  unfolding query_verify_signature_def query_payload_omits by (cases q) (simp only: query.simps)

section \<open>What a result signature covers\<close>

lemma result_payload_cases:
  assumes "result_msg_to_sign sc r = Some msg"
  obtains (ok) a where "qr_result r = Some (ResultOk a)" "length (qr_query_id r) = 36"
      "msg = as_bytes (qr_query_id r) @ sc_sha3_256 sc (qo_data a) @ u64_le_bytes (qo_last_block a)"
      "length (sc_sha3_256 sc (qo_data a)) = 32"
  | (err) e where "qr_result r = Some (ResultErr (Some e))" "length (qr_query_id r) = 36"
      "msg = as_bytes (qr_query_id r) @ [err_code e]"
  using assms
  by (auto simp: result_msg_to_sign_def msg_to_sign_query_ok_def msg_to_sign_query_err_def UUID_V4_SIZE_def
      SHA3_256_SIZE_def Let_def split: option.splits query_result_body.splits if_splits)

lemma result_payload_inj:
  assumes "result_msg_to_sign sc r = Some msg" "result_msg_to_sign sc r' = Some msg"
  shows "qr_query_id r = qr_query_id r' \<and>
    ((\<exists>a b. qr_result r = Some (ResultOk a) \<and> qr_result r' = Some (ResultOk b) \<and>
        sc_sha3_256 sc (qo_data a) = sc_sha3_256 sc (qo_data b) \<and> qo_last_block a = qo_last_block b) \<or>
     (\<exists>a b. qr_result r = Some (ResultErr (Some a)) \<and> qr_result r' = Some (ResultErr (Some b)) \<and>
        err_code a = err_code b))"
  using assms(1)
proof (cases rule: result_payload_cases)
  case (ok a)
  note r = ok
  from assms(2) show ?thesis
  proof (cases rule: result_payload_cases)
    case (err e)
    have "length msg = 76"
      using r by simp
    moreover have "length msg = 37"
      using err by simp
    ultimately show ?thesis
      by simp
  qed (use r in auto)
next
  case (err e)
  note r = err
  from assms(2) show ?thesis
  proof (cases rule: result_payload_cases)
    case (ok a)
    have "length msg = 37"
      using r by simp
    moreover have "length msg = 76"
      using ok by simp
    ultimately show ?thesis
      by simp
  qed (use r in auto)
qed

section \<open>Signing and verifying\<close>

text \<open>
  What is relied on of Ed25519 and of the encoding of peer ids: the public key decoded from the peer
  id of a key pair accepts every signature that key pair makes.
\<close>

definition keys_match :: "('p, 'kp, 'pk) sig_crypto \<Rightarrow> 'kp \<Rightarrow> 'p \<Rightarrow> bool" where
  "keys_match sc keypair peer =
    (\<exists>pk. sc_decode_pubkey sc (drop 2 (sc_to_bytes sc peer)) = Some pk \<and>
       (\<forall>msg. sc_verify sc pk msg (sc_sign sc keypair msg)))"

lemma verify_signed: "keys_match sc keypair peer \<Longrightarrow> verify_signature sc peer msg (sc_sign sc keypair msg)"
  by (auto simp: keys_match_def verify_signature_def)







definition sample_sig :: "(u8, u8, u8) sig_crypto" where
  "sample_sig =
    \<lparr>sc_sha3_256 = (\<lambda>d. replicate 31 0 @ [of_nat (length d)]), sc_sign = (\<lambda>kp msg. kp # msg),
     sc_decode_pubkey = (\<lambda>bs. case bs of [] \<Rightarrow> None | b # _ \<Rightarrow> Some b),
     sc_verify = (\<lambda>pk msg sig. sig = pk # msg), sc_to_bytes = (\<lambda>p. [0, 1, p]),
     sc_parse_peer = (\<lambda>s. case s of [] \<Rightarrow> None | c # _ \<Rightarrow> Some (byte_of c))\<rparr>"

lemma sample_keys_match: "keys_match sample_sig p p"
  by (simp add: keys_match_def sample_sig_def)




text \<open>
  C34: A portal's log record carries the worker's signature faithfully: the record made from a result
  verifies, for the worker named in it, exactly when the result itself does, whether the result is data
  or an error; a signed result verifies; and results signed over equal payloads have the same query id
  and either both carry data with equal hashes and the same last block, or both an error of the same
  kind.
\<close>
theorem finished_verifies_like_result:
  assumes "sc_parse_peer sc worker_id = Some worker" "keys_match sc keypair worker"
  shows "finished_verify_signature sc (finished_new sc r worker_id micros) = result_verify_signature sc worker r \<and>
    (\<forall>r'. result_sign sc keypair r = (r', Ok ()) \<longrightarrow> result_verify_signature sc worker r') \<and>
    (\<forall>r' msg. result_msg_to_sign sc r = Some msg \<and> result_msg_to_sign sc r' = Some msg \<longrightarrow>
       qr_query_id r = qr_query_id r' \<and>
       ((\<exists>a b. qr_result r = Some (ResultOk a) \<and> qr_result r' = Some (ResultOk b) \<and>
           sc_sha3_256 sc (qo_data a) = sc_sha3_256 sc (qo_data b) \<and> qo_last_block a = qo_last_block b) \<or>
        (\<exists>a b. qr_result r = Some (ResultErr (Some a)) \<and> qr_result r' = Some (ResultErr (Some b)) \<and>
           err_code a = err_code b)))"
proof (intro conjI)
  show "finished_verify_signature sc (finished_new sc r worker_id micros) = result_verify_signature sc worker r"
    using assms(1)
    by (auto simp: finished_verify_signature_def finished_new_def result_verify_signature_def
        result_msg_to_sign_def Let_def split: option.splits query_result_body.splits)
  show "\<forall>r'. result_sign sc keypair r = (r', Ok ()) \<longrightarrow> result_verify_signature sc worker r'"
  proof (intro allI impI)
    fix r'
    assume "result_sign sc keypair r = (r', Ok ())"
    then obtain msg where "result_msg_to_sign sc r = Some msg" "r' = r\<lparr>qr_signature := sc_sign sc keypair msg\<rparr>"
      by (auto simp: result_sign_def split: option.splits)
    moreover from this have "result_msg_to_sign sc r' = Some msg"
      by (simp add: result_msg_to_sign_def split: option.splits query_result_body.splits)
    ultimately show "result_verify_signature sc worker r'"
      using verify_signed [OF assms(2)] by (simp add: result_verify_signature_def)
  qed
  show "\<forall>r' msg. result_msg_to_sign sc r = Some msg \<and> result_msg_to_sign sc r' = Some msg \<longrightarrow>
       qr_query_id r = qr_query_id r' \<and>
       ((\<exists>a b. qr_result r = Some (ResultOk a) \<and> qr_result r' = Some (ResultOk b) \<and>
           sc_sha3_256 sc (qo_data a) = sc_sha3_256 sc (qo_data b) \<and> qo_last_block a = qo_last_block b) \<or>
        (\<exists>a b. qr_result r = Some (ResultErr (Some a)) \<and> qr_result r' = Some (ResultErr (Some b)) \<and>
           err_code a = err_code b))"
    using result_payload_inj [of sc r _] by blast
qed

definition sample_result :: query_result where
  "sample_result =
    \<lparr>qr_query_id = qy_query_id sample_query,
     qr_result = Some (ResultOk \<lparr>qo_data = [1, 2, 3], qo_last_block = 816499, qo_uncompressed_data_size = None\<rparr>),
     qr_retry_after_ms = None, qr_signature = []\<rparr>"

theorem finished_verifies_like_result_witness:
  "\<exists>r'. result_sign sample_sig 97 sample_result = (r', Ok ()) \<and>
    finished_verify_signature sample_sig (finished_new sample_sig r' ''a'' 7)"
proof -
  have peer: "sc_parse_peer sample_sig ''a'' = Some 97"
    by code_simp
  have "snd (result_sign sample_sig 97 sample_result) = Ok ()"
    by code_simp
  then obtain r' where r': "result_sign sample_sig 97 sample_result = (r', Ok ())"
    by (metis prod.collapse)
  from finished_verifies_like_result [OF peer sample_keys_match, of sample_result] r'
  have "result_verify_signature sample_sig 97 r'"
    by blast
  with finished_verifies_like_result [OF peer sample_keys_match, of r' 7] r' show ?thesis
    by blast
qed

end
