(* ===== verification/Network_State.thy ===== *)
theory Network_State
  imports Prelude
begin

text \<open>
  The published network state and which assignments a consumer reads from it:
  \<^verbatim>\<open>crates/assignments/src/common.rs\<close>.
\<close>

record network_assignment =
  na_url :: "string option"
  na_fb_url :: "string option"
  na_fb_url_v1 :: "string option"
  na_id :: string
  na_effective_from :: u64

record network_assignment_v2 =
  nv_id :: string
  nv_fb_url :: string
  nv_version :: string
  nv_effective_from :: "u64 option"

record schema_bundle =
  sb_hash :: string
  sb_url :: string

datatype assignment_type = Legacy | Split

definition assignment_type_default :: assignment_type where
  "assignment_type_default = Legacy"

fun assignment_type_display :: "assignment_type \<Rightarrow> string" where
  "assignment_type_display Legacy = ''legacy''"
| "assignment_type_display Split = ''split''"

record network_state =
  ns_network :: string
  ns_assignment_type :: assignment_type
  ns_assignment :: "network_assignment option"
  ns_worker_assignment :: "network_assignment_v2 option"
  ns_portal_assignment :: "network_assignment_v2 option"
  ns_schema_bundle :: "schema_bundle option"

datatype resolved_assignments =
    ResolvedLegacy network_assignment
  | ResolvedSplit network_assignment_v2 network_assignment_v2 schema_bundle

record invalid_network_state =
  in_assignment_type :: assignment_type
  in_missing :: string

definition invalid_network_state_display :: "invalid_network_state \<Rightarrow> string" where
  "invalid_network_state_display e =
    ''assignment_type is '' @ CHR 0x22 # assignment_type_display (in_assignment_type e) @ CHR 0x22 #
    '' but '' @ in_missing e @ '' is not published''"

definition resolve ::
  "network_state \<Rightarrow> assignment_type option \<Rightarrow> (invalid_network_state, resolved_assignments) result" where
  "resolve s requested =
    (let assignment_type = (case requested of Some t \<Rightarrow> t | None \<Rightarrow> ns_assignment_type s);
         missing = (\<lambda>what. \<lparr>in_assignment_type = assignment_type, in_missing = what\<rparr>)
     in case assignment_type of
          Legacy \<Rightarrow>
            (case ns_assignment s of
               Some a \<Rightarrow> Ok (ResolvedLegacy a)
             | None \<Rightarrow> Err (missing ''assignment''))
        | Split \<Rightarrow>
            (case (ns_worker_assignment s, ns_portal_assignment s, ns_schema_bundle s) of
               (Some worker, Some portal, Some bundle) \<Rightarrow> Ok (ResolvedSplit worker portal bundle)
             | (None, _, _) \<Rightarrow> Err (missing ''worker_assignment'')
             | (_, None, _) \<Rightarrow> Err (missing ''portal_assignment'')
             | _ \<Rightarrow> Err (missing ''schema_bundle'')))"

definition field_published :: "network_state \<Rightarrow> string \<Rightarrow> bool" where
  "field_published s field =
    (field = ''assignment'' \<and> ns_assignment s \<noteq> None \<or>
     field = ''worker_assignment'' \<and> ns_worker_assignment s \<noteq> None \<or>
     field = ''portal_assignment'' \<and> ns_portal_assignment s \<noteq> None \<or>
     field = ''schema_bundle'' \<and> ns_schema_bundle s \<noteq> None)"

definition required_fields :: "assignment_type \<Rightarrow> string list" where
  "required_fields t =
    (case t of
       Legacy \<Rightarrow> [''assignment'']
     | Split \<Rightarrow> [''worker_assignment'', ''portal_assignment'', ''schema_bundle''])"

text \<open>
  Resolving a network state. The shape asked for, or else the one the state names, alone decides
  what is read. It resolves exactly when every field that shape needs is published, to those very
  fields whatever else is published beside them; otherwise the error names the shape and the first
  field, in order, that is missing.
\<close>
theorem resolve_exact:
  "let t = (case requested of Some t \<Rightarrow> t | None \<Rightarrow> ns_assignment_type s)
   in case resolve s requested of
        Ok (ResolvedLegacy a) \<Rightarrow> t = Legacy \<and> ns_assignment s = Some a
      | Ok (ResolvedSplit w p b) \<Rightarrow>
          t = Split \<and> ns_worker_assignment s = Some w \<and> ns_portal_assignment s = Some p \<and>
          ns_schema_bundle s = Some b
      | Err e \<Rightarrow> in_assignment_type e = t \<and>
          dropWhile (field_published s) (required_fields t) \<noteq> [] \<and>
          hd (dropWhile (field_published s) (required_fields t)) = in_missing e"
proof (cases "case requested of Some t \<Rightarrow> t | None \<Rightarrow> ns_assignment_type s")
  case Legacy
  then show ?thesis
    by (cases "ns_assignment s") (auto simp: resolve_def required_fields_def field_published_def)
next
  case Split
  then show ?thesis
    by (cases "ns_worker_assignment s"; cases "ns_portal_assignment s"; cases "ns_schema_bundle s")
      (auto simp: resolve_def required_fields_def field_published_def)
qed

end
