(* ===== verification/Bit_String.thy ===== *)
theory Bit_String
  imports Prelude
begin

text \<open>
  The compressed bit strings of heartbeats: \<^verbatim>\<open>crates/messages/src/bitstring.rs\<close>. The deflate coder
  is the parameter pair \<open>deflate\<close>, \<open>inflate\<close>; \<open>inflate\<close> gives \<^const>\<open>None\<close> on data that is not a deflate
  stream, where reading to the end fails.
\<close>

record bit_string =
  bs_data :: "u8 list"
  bs_size :: u64
  bs_ones :: u64

definition bit_byte :: "bool \<Rightarrow> u8" where
  "bit_byte b = (if b then 1 else 0)"

definition bit_string_new :: "(u8 list \<Rightarrow> u8 list) \<Rightarrow> bool list \<Rightarrow> bit_string" where
  "bit_string_new deflate bits =
    (let num_ones = sum_list (map (\<lambda>b. if b then 1 else 0) bits);
         byte_slice = map bit_byte bits
     in \<lparr>bs_data = deflate byte_slice, bs_size = of_nat (length bits), bs_ones = num_ones\<rparr>)"

definition bit_string_to_bytes :: "(u8 list \<Rightarrow> u8 list option) \<Rightarrow> bit_string \<Rightarrow> u8 list outcome" where
  "bit_string_to_bytes inflate b = expect (''Couldn'' @ CHR 0x27 # ''t decompress data'') (inflate (bs_data b))"

fun collect_bits :: "u8 list \<Rightarrow> (string, bool list) result" where
  "collect_bits [] = Ok []"
| "collect_bits (b # bs) =
    (if b = 0 then result_map (\<lambda>r. False # r) (collect_bits bs)
     else if b = 1 then result_map (\<lambda>r. True # r) (collect_bits bs)
     else Err ''invalid boolean value in parsed BitString'')"

definition bit_string_to_vec :: "(u8 list \<Rightarrow> u8 list option) \<Rightarrow> bit_string \<Rightarrow> (string, bool list) result outcome" where
  "bit_string_to_vec inflate b = outcome_map collect_bits (bit_string_to_bytes inflate b)"

definition bit_string_ones :: "bit_string \<Rightarrow> u64" where
  "bit_string_ones b = bs_ones b"

definition bit_string_zeros :: "bit_string \<Rightarrow> u64" where
  "bit_string_zeros b = bs_size b - bs_ones b"

lemma collect_bits_bytes: "collect_bits (map bit_byte bits) = Ok bits"
  by (induction bits) (auto simp: bit_byte_def)

lemma sum_ones: "sum_list (map (\<lambda>b. if b then 1 else 0) bits) = (of_nat (count_list bits True) :: u64)"
  by (induction bits) auto

lemma count_bits: "count_list bits True + count_list bits False = length bits"
  by (induction bits) auto

text \<open>
  A bit string decodes to the bits it was made from, and the counts of ones and zeros recorded in
  it are those of the bits, the two adding up to the length. Inflating is assumed to invert deflating,
  and the length to fit 64 bits.
\<close>
theorem bit_string_roundtrip:
  assumes "\<forall>bytes. inflate (deflate bytes) = Some bytes" "length bits \<le> U64_MAX"
  shows "bit_string_to_vec inflate (bit_string_new deflate bits) = Return (Ok bits) \<and>
    unat (bit_string_ones (bit_string_new deflate bits)) = count_list bits True \<and>
    unat (bit_string_zeros (bit_string_new deflate bits)) = count_list bits False"
proof -
  let ?b = "bit_string_new deflate bits"
  have ones: "bs_ones ?b = of_nat (count_list bits True)"
    by (simp add: bit_string_new_def sum_ones)
  have "bs_size ?b = of_nat (count_list bits True + count_list bits False)"
    by (simp add: bit_string_new_def count_bits)
  then have "bit_string_zeros ?b = of_nat (count_list bits False)"
    using ones by (simp add: bit_string_zeros_def)
  moreover have "count_list bits True < 2 ^ 64" "count_list bits False < 2 ^ 64"
    using count_bits [of bits] assms(2) by simp_all
  ultimately show ?thesis
    using assms(1) ones
    by (simp add: bit_string_to_vec_def bit_string_to_bytes_def bit_string_new_def Let_def
        collect_bits_bytes bit_string_ones_def unat_of_nat take_bit_nat_eq_self)
qed

theorem bit_string_roundtrip_witness:
  "bit_string_to_vec Some (bit_string_new (\<lambda>bs. bs) [True, False, True]) = Return (Ok [True, False, True]) \<and>
    unat (bit_string_ones (bit_string_new (\<lambda>bs. bs) [True, False, True])) = 2"
  using bit_string_roundtrip [of Some "\<lambda>bs. bs" "[True, False, True]"] by simp

end
