(* ===== verification/Version_Match.thy ===== *)
theory Version_Match
  imports Prelude
begin

text \<open>
  Version requirements on heartbeats: \<^verbatim>\<open>crates/messages/src/versions.rs\<close>. Parsing and the two
  \<^verbatim>\<open>matches\<close> functions of the semver crate are parameters; the model keeps the fields the code reads.
\<close>

record version =
  vr_major :: u64
  vr_minor :: u64
  vr_patch :: u64
  vr_pre :: string

record 'op comparator =
  cp_op :: 'op
  cp_major :: u64
  cp_minor :: "u64 option"
  cp_patch :: "u64 option"
  cp_pre :: string

fun check_comparators :: "('op comparator \<Rightarrow> version \<Rightarrow> bool) \<Rightarrow> version \<Rightarrow> 'op comparator list \<Rightarrow> bool" where
  "check_comparators comp_matches v [] = True"
| "check_comparators comp_matches v (cmpr # cmprs) =
    (if comp_matches cmpr v then check_comparators comp_matches v cmprs
     else if cp_major cmpr = vr_major v \<and> cp_minor cmpr = Some (vr_minor v) \<and> cp_patch cmpr = Some (vr_patch v)
       then False
     else if \<not> comp_matches (cmpr\<lparr>cp_pre := []\<rparr>) (v\<lparr>vr_pre := []\<rparr>) then False
     else check_comparators comp_matches v cmprs)"

definition version_matches ::
  "('op comparator list \<Rightarrow> version \<Rightarrow> bool) \<Rightarrow> ('op comparator \<Rightarrow> version \<Rightarrow> bool) \<Rightarrow>
    version \<Rightarrow> 'op comparator list \<Rightarrow> bool" where
  "version_matches req_matches comp_matches v req =
    (if req_matches req v then True else check_comparators comp_matches v req)"

definition heartbeat_version_matches ::
  "(string \<Rightarrow> version option) \<Rightarrow> ('op comparator list \<Rightarrow> version \<Rightarrow> bool) \<Rightarrow>
    ('op comparator \<Rightarrow> version \<Rightarrow> bool) \<Rightarrow> string \<Rightarrow> 'op comparator list \<Rightarrow> bool" where
  "heartbeat_version_matches parse req_matches comp_matches s req =
    (case parse s of
       None \<Rightarrow> False
     | Some v \<Rightarrow> version_matches req_matches comp_matches v req)"

text \<open>
  The comparators are judged one by one. A comparator that does not accept the version as it is may
  still accept it without the pre-release tags, unless it names the same major, minor and patch.
\<close>

definition accepts :: "('op comparator \<Rightarrow> version \<Rightarrow> bool) \<Rightarrow> version \<Rightarrow> 'op comparator \<Rightarrow> bool" where
  "accepts comp_matches v cmpr =
    (comp_matches cmpr v \<or>
     (cp_major cmpr, cp_minor cmpr, cp_patch cmpr) \<noteq> (vr_major v, Some (vr_minor v), Some (vr_patch v)) \<and>
     comp_matches (cmpr\<lparr>cp_pre := []\<rparr>) (v\<lparr>vr_pre := []\<rparr>))"

lemma check_comparators_iff:
  "check_comparators comp_matches v req \<longleftrightarrow> (\<forall>cmpr \<in> set req. accepts comp_matches v cmpr)"
  by (induction req) (auto simp: accepts_def)

text \<open>
  A heartbeat's version meets a requirement exactly when it parses and every comparator accepts it,
  as it is or with the pre-release tags stripped from both, where a comparator naming the very same
  major, minor and patch is never stripped. Of the semver crate it is assumed that a requirement only
  matches a version all its comparators match.
\<close>
theorem version_matches_iff:
  assumes "\<forall>req v. req_matches req v \<longrightarrow> (\<forall>cmpr \<in> set req. comp_matches cmpr v)"
  shows "heartbeat_version_matches parse req_matches comp_matches s req \<longleftrightarrow>
    (\<exists>v. parse s = Some v \<and> (\<forall>cmpr \<in> set req. accepts comp_matches v cmpr))"
  using assms
  by (auto simp: heartbeat_version_matches_def version_matches_def check_comparators_iff accepts_def
      split: option.splits)

text \<open>A semver with one operator, \<open>at least\<close>, that compares tags only at equal numbers.\<close>

definition at_least :: "unit comparator \<Rightarrow> version \<Rightarrow> bool" where
  "at_least c v =
    ((cp_major c, cp_minor c, cp_patch c) = (vr_major v, Some (vr_minor v), Some (vr_patch v)) \<and>
       (vr_pre v = [] \<or> cp_pre c \<noteq> [] \<and> cp_pre c \<le> vr_pre v) \<or>
     vr_pre v = [] \<and> cp_major c < vr_major v)"

theorem version_matches_iff_witness:
  "heartbeat_version_matches
      (\<lambda>s. Some \<lparr>vr_major = 2, vr_minor = 0, vr_patch = 0, vr_pre = s\<rparr>)
      (\<lambda>req v. list_all (\<lambda>c. at_least c v) req) at_least ''rc1''
      [\<lparr>cp_op = (), cp_major = 1, cp_minor = Some 0, cp_patch = Some 1, cp_pre = ''rc3''\<rparr>]"
proof -
  have sem: "\<forall>req v. list_all (\<lambda>c. at_least c v) req \<longrightarrow> (\<forall>cmpr \<in> set req. at_least cmpr v)"
    by (simp add: list_all_iff)
  show ?thesis
    unfolding version_matches_iff [OF sem] by (simp add: accepts_def at_least_def)
qed

end
