(* ===== verification/Contract_Merge.thy ===== *)
theory Contract_Merge
  imports Ordered_Map
begin

text \<open>
  Combining the reads of the new PortalRegistry with those of the legacy registries:
  \<^verbatim>\<open>crates/contract-client/src/merge.rs\<close>. An address is its 160-bit value, whose order is the byte
  order of \<^verbatim>\<open>H160\<close>; the parser of peer ids is the parameter \<open>from_bytes\<close>.
\<close>

type_synonym address = "160 word"

abbreviation U256_MAX :: nat where "U256_MAX \<equiv> 2 ^ 256 - 1"

record 'p portal_cluster =
  cl_operator_addr :: address
  cl_portal_ids :: "'p list"
  cl_allocated_computation_units :: u256

record contract_allocation =
  al_gateway_id :: "u8 list"
  al_allocated :: u256
  al_operator :: address

definition saturating_add :: "u256 \<Rightarrow> u256 \<Rightarrow> u256" where
  "saturating_add a b = (if unat a + unat b \<le> U256_MAX then a + b else - 1)"

section \<open>Active portals\<close>

fun filter_seen :: "'p set \<Rightarrow> 'p list \<Rightarrow> 'p list" where
  "filter_seen seen [] = []"
| "filter_seen seen (p # ps) =
    (if p \<in> seen then filter_seen seen ps else p # filter_seen (insert p seen) ps)"

definition merge_active_portals :: "'p list \<Rightarrow> 'p list \<Rightarrow> 'p list" where
  "merge_active_portals new_portals legacy_portals = filter_seen {} (new_portals @ legacy_portals)"

section \<open>Portal clusters\<close>

fun push_missing :: "'p list \<Rightarrow> 'p list \<Rightarrow> 'p list" where
  "push_missing existing [] = existing"
| "push_missing existing (pid # pids) =
    push_missing (if pid \<in> set existing then existing else existing @ [pid]) pids"

definition upsert_cluster ::
  "address \<Rightarrow> 'p list \<Rightarrow> u256 \<Rightarrow> (address, 'p portal_cluster) btree \<Rightarrow> (address, 'p portal_cluster) btree"
where
  "upsert_cluster operator portal_ids cus m =
    (case map_of m operator of
       Some existing \<Rightarrow>
         btree_insert operator
           (existing\<lparr>cl_portal_ids := push_missing (cl_portal_ids existing) portal_ids,
              cl_allocated_computation_units := saturating_add (cl_allocated_computation_units existing) cus\<rparr>) m
     | None \<Rightarrow>
         btree_insert operator
           \<lparr>cl_operator_addr = operator, cl_portal_ids = portal_ids, cl_allocated_computation_units = cus\<rparr> m)"

definition upsert_legacy_allocation ::
  "address \<Rightarrow> 'p \<Rightarrow> u256 \<Rightarrow> (address, 'p portal_cluster) btree \<times> address set \<Rightarrow>
    (address, 'p portal_cluster) btree \<times> address set"
where
  "upsert_legacy_allocation operator peer_id cus s =
    (case s of (m, legacy_cu_seen) \<Rightarrow>
       let contribution = (if operator \<in> legacy_cu_seen then 0 else cus)
       in (upsert_cluster operator [peer_id] contribution m, insert operator legacy_cu_seen))"

definition legacy_step ::
  "(u8 list \<Rightarrow> 'p option) \<Rightarrow> 'p set \<Rightarrow> contract_allocation \<Rightarrow>
    (address, 'p portal_cluster) btree \<times> address set \<Rightarrow> (address, 'p portal_cluster) btree \<times> address set"
where
  "legacy_step from_bytes migrated_peers a s =
    (case from_bytes (al_gateway_id a) of
       None \<Rightarrow> s
     | Some peer_id \<Rightarrow>
         if peer_id \<in> migrated_peers then s
         else upsert_legacy_allocation (al_operator a) peer_id (al_allocated a) s)"

definition merge_portal_clusters ::
  "(u8 list \<Rightarrow> 'p option) \<Rightarrow> 'p portal_cluster list \<Rightarrow> contract_allocation list \<Rightarrow> 'p portal_cluster list"
where
  "merge_portal_clusters from_bytes new_clusters legacy_allocations =
    (let migrated_peers = (\<Union>c \<in> set new_clusters. set (cl_portal_ids c));
         m = fold (\<lambda>c. upsert_cluster (cl_operator_addr c) (cl_portal_ids c)
               (cl_allocated_computation_units c)) new_clusters [];
         (m, legacy_cu_seen) = fold (legacy_step from_bytes migrated_peers) legacy_allocations (m, {})
     in map snd m)"

section \<open>De-duplication\<close>

lemma set_filter_seen: "set (filter_seen seen ps) = set ps - seen"
  by (induction seen ps rule: filter_seen.induct) auto

lemma distinct_filter_seen: "distinct (filter_seen seen ps)"
  by (induction seen ps rule: filter_seen.induct) (auto simp: set_filter_seen)

lemma filter_seen_append: "filter_seen seen (ps @ qs) = filter_seen seen ps @ filter_seen (seen \<union> set ps) qs"
  by (induction seen ps rule: filter_seen.induct) (auto simp: insert_absorb)

lemma filter_seen_drops: "filter_seen seen ps = filter_seen {} (filter (\<lambda>p. p \<notin> seen) ps)"
proof -
  have "filter_seen (seen \<union> extra) ps = filter_seen extra (filter (\<lambda>p. p \<notin> seen) ps)" for extra
  proof (induction ps arbitrary: extra)
    case (Cons a ps)
    from Cons.IH [of extra] Cons.IH [of "insert a extra"] show ?case
      by auto
  qed simp
  from this [of "{}"] show ?thesis
    by simp
qed

lemma filter_seen_distinct: "distinct ps \<Longrightarrow> set ps \<inter> seen = {} \<Longrightarrow> filter_seen seen ps = ps"
  by (induction seen ps rule: filter_seen.induct) auto

text \<open>
  The merged list of active portals names every portal of either registry once. The portals of the
  new registry come first, in its order; after them come the legacy ones it does not have, in theirs,
  so that a migrated portal keeps its new position.
\<close>
theorem merge_active_portals_correct:
  "distinct (merge_active_portals new_portals legacy_portals) \<and>
    set (merge_active_portals new_portals legacy_portals) = set new_portals \<union> set legacy_portals \<and>
    merge_active_portals new_portals legacy_portals =
      merge_active_portals new_portals [] @
      merge_active_portals [] (filter (\<lambda>p. p \<notin> set new_portals) legacy_portals) \<and>
    (distinct new_portals \<longrightarrow> merge_active_portals new_portals [] = new_portals)"
  by (auto simp: merge_active_portals_def distinct_filter_seen set_filter_seen filter_seen_append
      filter_seen_drops [of "set new_portals" legacy_portals] filter_seen_distinct)

theorem merge_active_portals_correct_witness:
  "merge_active_portals [3, 1 :: nat] [1, 2] = [3, 1, 2]"
proof -
  have "merge_active_portals [3, 1 :: nat] [] = [3, 1]"
    using merge_active_portals_correct [of "[3, 1 :: nat]" "[1, 2]"] by simp
  then show ?thesis
    using merge_active_portals_correct [of "[3, 1 :: nat]" "[1, 2]"] by (simp add: merge_active_portals_def)
qed

section \<open>One cluster per operator\<close>

lemma set_push_missing [simp]: "set (push_missing xs ys) = set xs \<union> set ys"
  by (induction xs ys rule: push_missing.induct) auto

lemma unat_saturating_add: "unat (saturating_add a b) = min U256_MAX (unat a + unat b)"
proof (cases "unat a + unat b \<le> U256_MAX")
  case True
  then have "unat (a + b) = unat a + unat b"
    by (subst unat_add_lem [symmetric]) (simp add: less_eq_Suc_le)
  with True show ?thesis
    by (simp add: saturating_add_def)
next
  case False
  have "unat (- 1 :: u256) = U256_MAX"
    by (simp add: unsigned_minus_1_eq_mask mask_eq_exp_minus_1)
  with False show ?thesis
    unfolding saturating_add_def by (simp only: if_False min_def) simp
qed

text \<open>What each row contributes: an operator, the portals it names and the units it adds.\<close>

type_synonym 'p contribution = "address \<times> 'p list \<times> u256"

definition portals_of :: "address \<Rightarrow> 'p contribution list \<Rightarrow> 'p set" where
  "portals_of o' cs = (\<Union>(op, ps, cus) \<in> set cs. if op = o' then set ps else {})"

definition units_of :: "address \<Rightarrow> 'p contribution list \<Rightarrow> nat" where
  "units_of o' cs = sum_list (map (\<lambda>(op, ps, cus). if op = o' then unat cus else 0) cs)"

definition collects :: "(address, 'p portal_cluster) btree \<Rightarrow> 'p contribution list \<Rightarrow> bool" where
  "collects m cs =
    (btree_inv m \<and> fst ` set m = fst ` set cs \<and>
     (\<forall>o' c. map_of m o' = Some c \<longrightarrow> cl_operator_addr c = o' \<and> set (cl_portal_ids c) = portals_of o' cs \<and>
        unat (cl_allocated_computation_units c) = min U256_MAX (units_of o' cs)))"

lemma contributions_absent:
  "o' \<notin> fst ` set cs \<Longrightarrow> portals_of o' cs = {}"
  "o' \<notin> fst ` set cs \<Longrightarrow> units_of o' cs = 0"
  by (induction cs) (auto simp: units_of_def portals_of_def)

lemma unat_u256_le: "unat (x :: u256) \<le> U256_MAX"
  using unsigned_less [where 'a = nat, of x] by simp

lemma collects_upsert:
  assumes "collects m cs"
  shows "collects (upsert_cluster op ps cus m) (cs @ [(op, ps, cus)])"
proof -
  have inv: "btree_inv m" and dom: "fst ` set m = fst ` set cs"
    using assms by (simp_all add: collects_def)
  have step: "portals_of o' (cs @ [(op, ps, cus)]) = portals_of o' cs \<union> (if op = o' then set ps else {})"
    "units_of o' (cs @ [(op, ps, cus)]) = units_of o' cs + (if op = o' then unat cus else 0)" for o'
    by (auto simp: portals_of_def units_of_def)
  show ?thesis
  proof (cases "map_of m op")
    case None
    then have "op \<notin> fst ` set cs"
      using dom by (simp add: map_of_eq_None_iff)
    then show ?thesis
      using assms None inv contributions_absent [of op cs] unat_u256_le [of cus]
      by (auto simp: collects_def upsert_cluster_def fst_btree_insert step)
  next
    case (Some c)
    then have c: "cl_operator_addr c = op" "set (cl_portal_ids c) = portals_of op cs"
      "unat (cl_allocated_computation_units c) = min U256_MAX (units_of op cs)"
      using assms by (simp_all add: collects_def)
    have "fst ` set (upsert_cluster op ps cus m) = fst ` set (cs @ [(op, ps, cus)])"
      using Some dom by (simp add: upsert_cluster_def fst_btree_insert)
    moreover have "min U256_MAX (min U256_MAX (units_of op cs) + unat cus) = min U256_MAX (units_of op cs + unat cus)"
      by (simp add: min_def)
    ultimately show ?thesis
      using assms Some inv c
      by (auto simp: collects_def upsert_cluster_def step unat_saturating_add)
  qed
qed

lemma collects_fold:
  "collects m cs \<Longrightarrow> collects (fold (\<lambda>(op, ps, cus). upsert_cluster op ps cus) ds m) (cs @ ds)"
proof (induction ds arbitrary: m cs)
  case (Cons d ds)
  obtain op ps cus where d: "d = (op, ps, cus)"
    by (cases d)
  from Cons.IH [OF collects_upsert [OF Cons.prems, of op ps cus]] d show ?case
    by simp
qed simp

text \<open>The legacy rows that count, and what they contribute.\<close>

fun surviving :: "(u8 list \<Rightarrow> 'p option) \<Rightarrow> 'p set \<Rightarrow> contract_allocation list \<Rightarrow> (address \<times> 'p \<times> u256) list" where
  "surviving from_bytes migrated [] = []"
| "surviving from_bytes migrated (a # as) =
    (case from_bytes (al_gateway_id a) of
       None \<Rightarrow> surviving from_bytes migrated as
     | Some p \<Rightarrow>
         if p \<in> migrated then surviving from_bytes migrated as
         else (al_operator a, p, al_allocated a) # surviving from_bytes migrated as)"

fun first_units :: "address set \<Rightarrow> (address \<times> 'p \<times> u256) list \<Rightarrow> 'p contribution list" where
  "first_units seen [] = []"
| "first_units seen ((op, p, cus) # rows) =
    (op, [p], if op \<in> seen then 0 else cus) # first_units (insert op seen) rows"

lemma legacy_fold:
  "fst (fold (legacy_step from_bytes migrated) as (m, seen)) =
    fold (\<lambda>(op, ps, cus). upsert_cluster op ps cus) (first_units seen (surviving from_bytes migrated as)) m"
  by (induction as arbitrary: m seen)
    (auto simp: legacy_step_def upsert_legacy_allocation_def Let_def split: option.split)

lemma first_units_seen: "o' \<in> seen \<Longrightarrow> units_of o' (first_units seen rows) = 0"
  by (induction seen rows rule: first_units.induct) (auto simp: units_of_def)

lemma first_units_units:
  "o' \<notin> seen \<Longrightarrow> units_of o' (first_units seen rows) =
    (case map_of rows o' of None \<Rightarrow> 0 | Some (p, cus) \<Rightarrow> unat cus)"
proof (induction seen rows rule: first_units.induct)
  case (2 seen op p cus rows)
  then show ?case
    using first_units_seen [of op "insert op seen" rows] by (cases "op = o'") (auto simp: units_of_def)
qed (simp add: units_of_def)

lemma first_units_portals:
  "portals_of o' (first_units seen rows) = {p. \<exists>cus. (o', p, cus) \<in> set rows}"
  "fst ` set (first_units seen rows) = fst ` set rows"
  by (induction seen rows rule: first_units.induct) (auto simp: portals_of_def split: if_splits)

lemma merge_collects:
  "\<exists>m. merge_portal_clusters from_bytes new legacy = map snd m \<and>
    collects m (map (\<lambda>c. (cl_operator_addr c, cl_portal_ids c, cl_allocated_computation_units c)) new @
      first_units {} (surviving from_bytes (\<Union>c \<in> set new. set (cl_portal_ids c)) legacy))"
proof -
  let ?rows = "surviving from_bytes (\<Union>c \<in> set new. set (cl_portal_ids c)) legacy"
  let ?news = "map (\<lambda>c. (cl_operator_addr c, cl_portal_ids c, cl_allocated_computation_units c)) new"
  define m1 where "m1 = fold (\<lambda>(op, ps, cus). upsert_cluster op ps cus) ?news []"
  have m1: "fold (\<lambda>c. upsert_cluster (cl_operator_addr c) (cl_portal_ids c) (cl_allocated_computation_units c)) new [] = m1"
    by (simp add: m1_def fold_map comp_def)
  have "collects [] []"
    by (simp add: collects_def)
  from collects_fold [OF this, of ?news] have "collects m1 ?news"
    by (simp add: m1_def)
  from collects_fold [OF this, of "first_units {} ?rows"] show ?thesis
    unfolding legacy_fold [symmetric] merge_portal_clusters_def m1 Let_def
    by (auto simp: case_prod_unfold)
qed

text \<open>
  C30: Merging portal clusters gives one cluster per operator, in ascending order of address, for exactly
  the operators of the new clusters and of the legacy rows that count, which are those with a readable
  gateway id that no new cluster lists. The portals of an operator are those its new clusters and its
  counting legacy rows name. Its compute units are the sum of its new clusters' units and of the units
  of its first counting legacy row, capped at the largest 256-bit value.
\<close>
theorem merge_portal_clusters_correct:
  "let rows = surviving from_bytes (\<Union>c \<in> set new. set (cl_portal_ids c)) legacy;
       out = merge_portal_clusters from_bytes new legacy
   in sorted_wrt (<) (map cl_operator_addr out) \<and>
    set (map cl_operator_addr out) = set (map cl_operator_addr new) \<union> set (map fst rows) \<and>
    (\<forall>c \<in> set out.
       set (cl_portal_ids c) =
         (\<Union>n \<in> {n \<in> set new. cl_operator_addr n = cl_operator_addr c}. set (cl_portal_ids n)) \<union>
         {p. \<exists>cus. (cl_operator_addr c, p, cus) \<in> set rows} \<and>
       unat (cl_allocated_computation_units c) = min U256_MAX
         (sum_list (map (\<lambda>n. unat (cl_allocated_computation_units n))
            (filter (\<lambda>n. cl_operator_addr n = cl_operator_addr c) new)) +
          (case map_of rows (cl_operator_addr c) of None \<Rightarrow> 0 | Some (p, cus) \<Rightarrow> unat cus)))"
proof -
  define rows where "rows = surviving from_bytes (\<Union>c \<in> set new. set (cl_portal_ids c)) legacy"
  define out where "out = merge_portal_clusters from_bytes new legacy"
  let ?news = "map (\<lambda>c. (cl_operator_addr c, cl_portal_ids c, cl_allocated_computation_units c)) new"
  obtain m where m: "out = map snd m" "collects m (?news @ first_units {} rows)"
    using merge_collects [of from_bytes new legacy] by (auto simp: rows_def out_def)
  have inv: "btree_inv m" and dom: "fst ` set m = fst ` set (?news @ first_units {} rows)"
    using m(2) by (simp_all add: collects_def)
  have entry: "cl_operator_addr c = o' \<and> set (cl_portal_ids c) = portals_of o' (?news @ first_units {} rows) \<and>
      unat (cl_allocated_computation_units c) = min U256_MAX (units_of o' (?news @ first_units {} rows))"
    if "(o', c) \<in> set m" for o' c
    using m(2) that btree_lookup_iff [OF inv, of o' c] by (simp add: collects_def)
  have keys: "map cl_operator_addr out = map fst m"
    using entry by (auto simp: m(1))
  have units: "units_of o' (?news @ first_units {} rows) =
      sum_list (map (\<lambda>n. unat (cl_allocated_computation_units n)) (filter (\<lambda>n. cl_operator_addr n = o') new)) +
      (case map_of rows o' of None \<Rightarrow> 0 | Some (p, cus) \<Rightarrow> unat cus)" for o'
  proof -
    have "units_of o' (?news @ first_units {} rows) = units_of o' ?news + units_of o' (first_units {} rows)"
      by (simp add: units_of_def)
    moreover have "units_of o' ?news =
        sum_list (map (\<lambda>n. unat (cl_allocated_computation_units n)) (filter (\<lambda>n. cl_operator_addr n = o') new))"
      by (induction new) (auto simp: units_of_def)
    ultimately show ?thesis
      by (simp add: first_units_units)
  qed
  have portals: "portals_of o' (?news @ first_units {} rows) =
      (\<Union>n \<in> {n \<in> set new. cl_operator_addr n = o'}. set (cl_portal_ids n)) \<union> {p. \<exists>cus. (o', p, cus) \<in> set rows}" for o'
    using first_units_portals(1) [of o' "{}" rows] by (auto simp: portals_of_def split: if_splits)
  have "sorted_wrt (<) (map cl_operator_addr out)"
    using inv by (simp add: keys btree_inv_def)
  moreover have "set (map cl_operator_addr out) = set (map cl_operator_addr new) \<union> set (map fst rows)"
    using dom first_units_portals(2) [of "{}" rows] by (simp add: keys image_Un image_image)
  moreover have "set (cl_portal_ids c) = portals_of (cl_operator_addr c) (?news @ first_units {} rows) \<and>
      unat (cl_allocated_computation_units c) = min U256_MAX (units_of (cl_operator_addr c) (?news @ first_units {} rows))"
    if "c \<in> set out" for c
    using that entry by (auto simp: m(1))
  ultimately show ?thesis
    unfolding Let_def rows_def [symmetric] out_def [symmetric] units portals by blast
qed

theorem merge_portal_clusters_correct_witness:
  "set (map cl_operator_addr (merge_portal_clusters Some
      [\<lparr>cl_operator_addr = 7, cl_portal_ids = [[1]], cl_allocated_computation_units = 10\<rparr>]
      [\<lparr>al_gateway_id = [1], al_allocated = 5, al_operator = 8\<rparr>,
       \<lparr>al_gateway_id = [2], al_allocated = 5, al_operator = 7\<rparr>])) = {7}"
  using merge_portal_clusters_correct [of Some
      "[\<lparr>cl_operator_addr = 7, cl_portal_ids = [[1]], cl_allocated_computation_units = 10\<rparr>]"
      "[\<lparr>al_gateway_id = [1], al_allocated = 5, al_operator = 8\<rparr>,
       \<lparr>al_gateway_id = [2], al_allocated = 5, al_operator = 7\<rparr>]"]
  by (simp add: Let_def)

end
