(* ===== verification/Contract_Client.thy ===== *)
theory Contract_Client
  imports Contract_Merge Rust_Std
begin

text \<open>
  The on-chain client: \<^verbatim>\<open>crates/contract-client/src/client.rs\<close> with its error type. What the contracts
  and the RPC nodes answer is the record \<open>chain\<close>, a parameter: each field is one read call at the block
  the client looks at. A call fails with an error value; a \<^verbatim>\<open>expect\<close> and a checked big-integer
  operation panic; native subtraction wraps, as in a release build. Concurrent calls joined by
  \<^verbatim>\<open>try_join!\<close> are read in the order they are written, so when both fail the error of the first is
  reported. A batch sent through the multicall contract is one call on the list of its arguments. The
  payloads of foreign errors are their messages.
\<close>

datatype client_error =
    InvalidRpcUrl string
  | WsClient string
  | InvalidPeerId string
  | Contract string
  | Provider string
  | InvalidProtocol
  | HttpClient string
  | TxReceiptMissing
  | BlockNotFound

type_synonym 'a call = "(client_error, 'a) result"
type_synonym 'a eff = "'a call outcome"

definition and_then :: "'a call \<Rightarrow> ('a \<Rightarrow> 'b eff) \<Rightarrow> 'b eff" where
  "and_then r f = (case r of Err e \<Rightarrow> Return (Err e) | Ok a \<Rightarrow> f a)"

lemma and_then_simps [simp]: "and_then (Ok a) f = f a" "and_then (Err e) f = Return (Err e)"
  by (simp_all add: and_then_def)

section \<open>What the chain answers\<close>

record block =
  bk_number :: "u64 option"
  bk_timestamp :: u256

record contract_worker =
  cw_creator :: address
  cw_peer_id :: "u8 list"
  cw_bond :: u256
  cw_registered_at :: u128
  cw_deregistered_at :: u128

record contract_cluster =
  cc_operator :: address
  cc_total_staked :: u256
  cc_portals :: "u8 list list"

type_synonym cluster_id = "u8 list"

record portal_registry =
  pr_get_active_clusters :: "nat \<Rightarrow> nat \<Rightarrow> (cluster_id list \<times> contract_cluster list \<times> nat) call"
  pr_get_cluster_id_by_peer_id :: "u8 list \<Rightarrow> cluster_id call"
  pr_get_computation_units :: "cluster_id \<Rightarrow> u256 call"
  pr_get_cluster :: "cluster_id \<Rightarrow> contract_cluster call"
  pr_multicall_units :: "cluster_id list \<Rightarrow> u256 list call"

record chain =
  ch_epoch_number :: "u128 call"
  ch_next_epoch :: "u128 call"
  ch_worker_epoch_length :: "u128 call"
  ch_latest_block :: "block option call"
  ch_get_block :: "u64 \<Rightarrow> block option call"
  ch_worker_ids :: "u8 list \<Rightarrow> u256 call"
  ch_get_active_worker_ids :: "u256 list call"
  ch_get_worker :: "u256 \<Rightarrow> contract_worker call"
  ch_multicall_workers :: "u256 list \<Rightarrow> contract_worker list call"
  ch_get_gateway_operator :: "u8 list \<Rightarrow> address call"
  ch_get_active_gateways :: "nat \<Rightarrow> nat \<Rightarrow> u8 list list call"
  ch_get_used_strategy :: "u8 list \<Rightarrow> address call"
  ch_computation_units_available :: "u8 list \<Rightarrow> u256 call"
  ch_get_stake_amount :: "address \<Rightarrow> u256 call"
  ch_units_per_epoch :: "address \<Rightarrow> u8 list \<Rightarrow> u256 \<Rightarrow> u256 call"
  ch_multicall_units_per_epoch :: "address \<Rightarrow> u8 list \<Rightarrow> u256 list \<Rightarrow> u256 list call"
  ch_get_allocations :: "u256 \<Rightarrow> nat \<Rightarrow> nat \<Rightarrow> contract_allocation list call"

text \<open>The client: the handles of the contracts it was built with, and its page sizes.\<close>

record 'p ethers_client =
  ec_to_bytes :: "'p \<Rightarrow> u8 list"
  ec_parse :: "u8 list \<Rightarrow> (string, 'p) result"
  ec_chain :: chain
  ec_portal_registry :: "portal_registry option"
  ec_default_strategy_addr :: address
  ec_active_workers_per_page :: nat
  ec_portals_per_page :: nat

definition result_ok :: "('e, 'a) result \<Rightarrow> 'a option" where
  "result_ok r = (case r of Ok a \<Rightarrow> Some a | Err e \<Rightarrow> None)"

definition ec_from_bytes :: "'p ethers_client \<Rightarrow> u8 list \<Rightarrow> 'p option" where
  "ec_from_bytes ec bytes = result_ok (ec_parse ec bytes)"

definition ZERO_CLUSTER_ID :: cluster_id where
  "ZERO_CLUSTER_ID = replicate 32 0"

definition SQD_DECIMALS_DENOM :: nat where
  "SQD_DECIMALS_DENOM = 1000000000000000000"

section \<open>Time and numbers\<close>

text \<open>\<^verbatim>\<open>SystemTime\<close> in seconds since the epoch; adding a duration past the range of \<^verbatim>\<open>i64\<close> panics.\<close>

definition unix_epoch_plus :: "nat \<Rightarrow> nat outcome" where
  "unix_epoch_plus secs =
    (if secs < 2 ^ 63 then Return secs else Panic ''overflow when adding duration to instant'')"

definition as_u64 :: "u256 \<Rightarrow> nat outcome" where
  "as_u64 x = (if unat x \<le> U64_MAX then Return (unat x) else Panic ''Integer overflow when casting to u64'')"

definition as_u128 :: "u256 \<Rightarrow> nat outcome" where
  "as_u128 x = (if unat x < 2 ^ 128 then Return (unat x) else Panic ''Integer overflow when casting to u128'')"

definition expect_le :: "string \<Rightarrow> nat \<Rightarrow> nat \<Rightarrow> nat outcome" where
  "expect_le msg bound n = (if n \<le> bound then Return n else Panic msg)"

definition checked_sub :: "nat \<Rightarrow> nat \<Rightarrow> nat outcome" where
  "checked_sub a b = (if b \<le> a then Return (a - b) else Panic ''arithmetic operation overflow'')"

definition ratio_new :: "nat \<Rightarrow> nat \<Rightarrow> nat \<times> nat" where
  "ratio_new n d = (let g = gcd n d in (n div g, d div g))"

section \<open>Workers and nodes\<close>

record 'p chain_worker =
  wr_peer_id :: 'p
  wr_onchain_id :: u256
  wr_address :: address
  wr_bond :: u256
  wr_registered_at :: u128
  wr_deregistered_at :: "u128 option"

definition worker_new :: "(u8 list \<Rightarrow> (string, 'p) result) \<Rightarrow> contract_worker \<Rightarrow> u256 \<Rightarrow> 'p chain_worker call" where
  "worker_new from_bytes w onchain_id =
    (case from_bytes (cw_peer_id w) of
       Err e \<Rightarrow> Err (InvalidPeerId e)
     | Ok peer_id \<Rightarrow>
         let deregistered_at = (if cw_deregistered_at w > 0 then Some (cw_deregistered_at w) else None)
         in Ok \<lparr>wr_peer_id = peer_id, wr_onchain_id = onchain_id, wr_address = cw_creator w,
                wr_bond = cw_bond w, wr_registered_at = cw_registered_at w,
                wr_deregistered_at = deregistered_at\<rparr>)"

record 'p network_nodes =
  nn_portals :: "'p set"
  nn_workers :: "'p set"

definition nodes_all :: "'p network_nodes \<Rightarrow> 'p set" where
  "nodes_all nodes = nn_portals nodes \<union> nn_workers nodes"

definition network_nodes_item ::
  "'p list call \<Rightarrow> 'p chain_worker list call \<Rightarrow> 'p network_nodes call" where
  "network_nodes_item portals workers =
    (case portals of
       Err e \<Rightarrow> Err e
     | Ok ps \<Rightarrow> result_map (\<lambda>ws. \<lparr>nn_portals = set ps, nn_workers = set (map wr_peer_id ws)\<rparr>) workers)"

section \<open>Epochs\<close>

definition current_epoch :: "'p ethers_client \<Rightarrow> nat eff" where
  "current_epoch ec =
    and_then (ch_epoch_number (ec_chain ec)) (\<lambda>epoch.
      outcome_map Ok (expect_le ''Epoch number should not exceed u32 range'' U32_MAX (unat epoch)))"

definition current_epoch_start :: "'p ethers_client \<Rightarrow> nat eff" where
  "current_epoch_start ec =
    and_then (ch_next_epoch (ec_chain ec)) (\<lambda>next_epoch_start_block.
    and_then (ch_worker_epoch_length (ec_chain ec)) (\<lambda>epoch_length_blocks.
    outcome_bind (expect_le ''Epoch number should not exceed u64 range'' U64_MAX
        (unat (next_epoch_start_block - epoch_length_blocks))) (\<lambda>block_num.
    and_then (ch_get_block (ec_chain ec) (of_nat block_num)) (\<lambda>block.
      case block of
        None \<Rightarrow> Return (Err BlockNotFound)
      | Some b \<Rightarrow> outcome_map Ok (outcome_bind (as_u64 (bk_timestamp b)) unix_epoch_plus)))))"

definition epoch_length :: "'p ethers_client \<Rightarrow> nat eff" where
  "epoch_length ec =
    and_then (ch_worker_epoch_length (ec_chain ec)) (\<lambda>epoch_length_blocks.
    and_then (ch_latest_block (ec_chain ec)) (\<lambda>latest.
      case latest of
        None \<Rightarrow> Return (Err BlockNotFound)
      | Some latest_block \<Rightarrow>
          outcome_bind (expect_le ''epoch length in blocks fits in u64'' U64_MAX (unat epoch_length_blocks))
            (\<lambda>blocks.
          outcome_bind (expect ''called Option::unwrap() on a None value'' (bk_number latest_block))
            (\<lambda>number.
          outcome_bind (checked_sub (unat number) blocks) (\<lambda>hist.
          and_then (ch_get_block (ec_chain ec) (of_nat hist)) (\<lambda>hist_block.
            case hist_block of
              None \<Rightarrow> Return (Err BlockNotFound)
            | Some hb \<Rightarrow>
                outcome_map Ok
                  (outcome_bind (checked_sub (unat (bk_timestamp latest_block)) (unat (bk_timestamp hb)))
                    (expect_le ''Epoch length should not exceed u64 range'' U64_MAX))))))))"

section \<open>Active workers\<close>

definition worker_id :: "'p ethers_client \<Rightarrow> 'p \<Rightarrow> u256 call" where
  "worker_id ec peer_id = ch_worker_ids (ec_chain ec) (ec_to_bytes ec peer_id)"

text \<open>\<^verbatim>\<open>slice::chunks\<close>, which panics on a chunk size of zero.\<close>

function chunks_of :: "nat \<Rightarrow> 'a list \<Rightarrow> 'a list list" where
  "chunks_of n xs = (if n = 0 \<or> xs = [] then [] else take n xs # chunks_of n (drop n xs))"
  by pat_completeness auto
termination
  by (relation "measure (\<lambda>(n, xs). length xs)") (auto simp: diff_less)

declare chunks_of.simps [simp del]

fun try_concat :: "('a \<Rightarrow> 'b list call) \<Rightarrow> 'a list \<Rightarrow> 'b list call" where
  "try_concat f [] = Ok []"
| "try_concat f (x # xs) =
    (case f x of
       Err e \<Rightarrow> Err e
     | Ok ys \<Rightarrow> result_map (\<lambda>zs. ys @ zs) (try_concat f xs))"

definition active_workers :: "'p ethers_client \<Rightarrow> 'p chain_worker list eff" where
  "active_workers ec =
    and_then (ch_get_active_worker_ids (ec_chain ec)) (\<lambda>onchain_ids.
      if ec_active_workers_per_page ec = 0 then Panic ''chunk size must be non-zero''
      else
        and_then (try_concat (ch_multicall_workers (ec_chain ec))
            (chunks_of (ec_active_workers_per_page ec) onchain_ids)) (\<lambda>workers.
          Return (Ok (List.map_filter
            (\<lambda>(w, onchain_id). result_ok (worker_new (ec_parse ec) w onchain_id))
            (zip workers onchain_ids)))))"

definition worker_registration_time :: "'p ethers_client \<Rightarrow> 'p \<Rightarrow> nat option eff" where
  "worker_registration_time ec peer_id =
    and_then (ch_worker_ids (ec_chain ec) (ec_to_bytes ec peer_id)) (\<lambda>worker_id.
      if worker_id = 0 then Return (Ok None)
      else
        and_then (ch_get_worker (ec_chain ec) worker_id) (\<lambda>worker.
        outcome_bind (expect_le ''Block number should not exceed u64 range'' U64_MAX
            (unat (cw_registered_at worker))) (\<lambda>block_num.
        and_then (ch_get_block (ec_chain ec) (of_nat block_num)) (\<lambda>block.
          case block of
            None \<Rightarrow> Return (Ok None)
          | Some b \<Rightarrow>
              outcome_map (\<lambda>t. Ok (Some t)) (outcome_bind (as_u64 (bk_timestamp b)) unix_epoch_plus)))))"

section \<open>Which registry knows a portal\<close>

text \<open>The lookup every portal method starts with: the new registry if it is there and knows the peer.\<close>

definition registry_cluster :: "'p ethers_client \<Rightarrow> 'p \<Rightarrow> (portal_registry \<times> cluster_id) option call" where
  "registry_cluster ec portal_id =
    (case ec_portal_registry ec of
       None \<Rightarrow> Ok None
     | Some pr \<Rightarrow>
         result_map (\<lambda>cluster_id. if cluster_id \<noteq> ZERO_CLUSTER_ID then Some (pr, cluster_id) else None)
           (pr_get_cluster_id_by_peer_id pr (ec_to_bytes ec portal_id)))"

definition is_portal_registered :: "'p ethers_client \<Rightarrow> 'p \<Rightarrow> bool call" where
  "is_portal_registered ec portal_id =
    (case registry_cluster ec portal_id of
       Err e \<Rightarrow> Err e
     | Ok (Some _) \<Rightarrow> Ok True
     | Ok None \<Rightarrow>
         result_map (\<lambda>operator. operator \<noteq> 0)
           (ch_get_gateway_operator (ec_chain ec) (ec_to_bytes ec portal_id)))"

definition portal_uses_default_strategy :: "'p ethers_client \<Rightarrow> 'p \<Rightarrow> bool call" where
  "portal_uses_default_strategy ec portal_id =
    (case registry_cluster ec portal_id of
       Err e \<Rightarrow> Err e
     | Ok (Some _) \<Rightarrow> Ok True
     | Ok None \<Rightarrow>
         result_map (\<lambda>strategy_addr. strategy_addr = ec_default_strategy_addr ec)
           (ch_get_used_strategy (ec_chain ec) (ec_to_bytes ec portal_id)))"

definition portal_compute_units_per_epoch :: "'p ethers_client \<Rightarrow> 'p \<Rightarrow> nat eff" where
  "portal_compute_units_per_epoch ec portal_id =
    and_then (registry_cluster ec portal_id) (\<lambda>r.
    and_then
      (case r of
         Some (pr, cluster_id) \<Rightarrow> pr_get_computation_units pr cluster_id
       | None \<Rightarrow> ch_computation_units_available (ec_chain ec) (ec_to_bytes ec portal_id)) (\<lambda>cus.
      outcome_map Ok (expect_le ''Computation units should not exceed u64 range'' U64_MAX (unat cus))))"

record 'p worker_allocation =
  wl_worker_peer_id :: 'p
  wl_worker_onchain_id :: u256
  wl_computation_units :: u256

definition allocation_for :: "'p chain_worker \<Rightarrow> u256 \<Rightarrow> 'p worker_allocation" where
  "allocation_for w cus =
    \<lparr>wl_worker_peer_id = wr_peer_id w, wl_worker_onchain_id = wr_onchain_id w, wl_computation_units = cus\<rparr>"

definition current_allocations ::
  "'p ethers_client \<Rightarrow> 'p \<Rightarrow> 'p chain_worker list option \<Rightarrow> 'p worker_allocation list eff" where
  "current_allocations ec portal_id given =
    outcome_bind (case given of Some ws \<Rightarrow> Return (Ok ws) | None \<Rightarrow> active_workers ec) (\<lambda>found.
    and_then found (\<lambda>workers.
      if workers = [] then Return (Ok [])
      else
        let id_bytes = ec_to_bytes ec portal_id in
        and_then (registry_cluster ec portal_id) (\<lambda>r.
          case r of
            Some (pr, cluster_id) \<Rightarrow>
              and_then (pr_get_computation_units pr cluster_id) (\<lambda>computation_units.
                Return (Ok (map (\<lambda>w. allocation_for w computation_units) workers)))
          | None \<Rightarrow>
              and_then (ch_get_used_strategy (ec_chain ec) id_bytes) (\<lambda>strategy_addr.
                if strategy_addr = ec_default_strategy_addr ec then
                  and_then (ch_units_per_epoch (ec_chain ec) strategy_addr id_bytes (wr_onchain_id (hd workers)))
                    (\<lambda>cus_per_epoch. Return (Ok (map (\<lambda>w. allocation_for w cus_per_epoch) workers)))
                else
                  and_then (ch_multicall_units_per_epoch (ec_chain ec) strategy_addr id_bytes
                      (map wr_onchain_id workers)) (\<lambda>compute_units.
                    Return (Ok (map (\<lambda>(w, cus). allocation_for w cus) (zip workers compute_units))))))))"

definition portal_sqd_locked ::
  "(address \<Rightarrow> string) \<Rightarrow> 'p ethers_client \<Rightarrow> 'p \<Rightarrow> (string \<times> nat \<times> nat) option eff" where
  "portal_sqd_locked to_string ec portal_id =
    (let legacy =
       and_then (ch_get_gateway_operator (ec_chain ec) (ec_to_bytes ec portal_id)) (\<lambda>operator.
         if operator = 0 then Return (Ok None)
         else
           and_then (ch_get_stake_amount (ec_chain ec) operator) (\<lambda>amount.
             outcome_map (\<lambda>n. Ok (Some (to_string operator, ratio_new n SQD_DECIMALS_DENOM))) (as_u128 amount)))
     in and_then (registry_cluster ec portal_id) (\<lambda>r.
          case r of
            None \<Rightarrow> legacy
          | Some (pr, cluster_id) \<Rightarrow>
              and_then (pr_get_cluster pr cluster_id) (\<lambda>cluster.
                if cc_operator cluster \<noteq> 0 then
                  outcome_map (\<lambda>n. Ok (Some (to_string (cc_operator cluster), ratio_new n SQD_DECIMALS_DENOM)))
                    (as_u128 (cc_total_staked cluster))
                else legacy)))"

section \<open>Pagination\<close>

abbreviation I32_PAGES :: nat where "I32_PAGES \<equiv> 2147483648"

definition eff_bind :: "'a eff \<Rightarrow> ('a \<Rightarrow> 'b eff) \<Rightarrow> 'b eff" where
  "eff_bind x f = outcome_bind x (\<lambda>r. and_then r f)"

lemma eff_bind_simps [simp]:
  "eff_bind (Return (Ok a)) f = f a" "eff_bind (Return (Err e)) f = Return (Err e)"
  "eff_bind (Panic m) f = Panic m"
  by (simp_all add: eff_bind_def)

text \<open>
  The loop over the active clusters. Every round advances the offset by the length of the page, so it
  ends after a page that is empty or reaches the total; a sum past 256 bits would panic.
\<close>

function cluster_loop ::
  "(nat \<Rightarrow> (cluster_id list \<times> contract_cluster list \<times> nat) call) \<Rightarrow>
    (cluster_id list \<Rightarrow> contract_cluster list \<Rightarrow> 'a list call) \<Rightarrow> nat \<Rightarrow> 'a list \<Rightarrow> 'a list eff"
where
  "cluster_loop fetch items offset acc =
    (case fetch offset of
       Err e \<Rightarrow> Return (Err e)
     | Ok (cluster_ids, clusters, total_active) \<Rightarrow>
         (case items cluster_ids clusters of
            Err e \<Rightarrow> Return (Err e)
          | Ok new \<Rightarrow>
              (let page_len = length clusters
               in if U256_MAX < offset + page_len then Panic ''arithmetic operation overflow''
                  else if page_len = 0 \<or> total_active \<le> offset + page_len then Return (Ok (acc @ new))
                  else cluster_loop fetch items (offset + page_len) (acc @ new))))"
  by pat_completeness auto
termination
  by (relation "measure (\<lambda>(fetch, items, offset, acc). 2 ^ 256 - offset)")
    (auto simp: neq_Nil_conv intro!: diff_less_mono2)

declare cluster_loop.simps [simp del]

text \<open>
  The loop over the pages of a legacy registry. The page counter is an \<^verbatim>\<open>i32\<close>: past its range it is
  negative, which the conversion to \<^verbatim>\<open>U256\<close> refuses by a panic.
\<close>

function page_loop ::
  "(nat \<Rightarrow> 'a list call) \<Rightarrow> ('a \<Rightarrow> 'b option) \<Rightarrow> nat \<Rightarrow> nat \<Rightarrow> 'b list \<Rightarrow> 'b list eff"
where
  "page_loop fetch keep per_page page acc =
    (if I32_PAGES \<le> page then Panic ''Unsigned integer created from a negative value''
     else
       case fetch page of
         Err e \<Rightarrow> Return (Err e)
       | Ok items \<Rightarrow>
           (let acc' = acc @ List.map_filter keep items
            in if length items < per_page then Return (Ok acc')
               else page_loop fetch keep per_page (page + 1) acc'))"
  by pat_completeness auto
termination
  by (relation "measure (\<lambda>(fetch, keep, per_page, page, acc). I32_PAGES - page)") auto

declare page_loop.simps [simp del]

definition portal_peers :: "(u8 list \<Rightarrow> 'p option) \<Rightarrow> contract_cluster \<Rightarrow> 'p list" where
  "portal_peers from_bytes c = List.map_filter from_bytes (cc_portals c)"

definition active_portals :: "'p ethers_client \<Rightarrow> 'p list eff" where
  "active_portals ec =
    eff_bind
      (case ec_portal_registry ec of
         None \<Rightarrow> Return (Ok [])
       | Some pr \<Rightarrow>
           cluster_loop (\<lambda>offset. pr_get_active_clusters pr offset (ec_portals_per_page ec))
             (\<lambda>_ clusters. Ok (concat (map (portal_peers (ec_from_bytes ec)) clusters))) 0 [])
    (\<lambda>new_portals.
    eff_bind
      (page_loop (\<lambda>page. ch_get_active_gateways (ec_chain ec) page (ec_portals_per_page ec))
        (ec_from_bytes ec) (ec_portals_per_page ec) 0 [])
    (\<lambda>legacy_portals. Return (Ok (merge_active_portals new_portals legacy_portals))))"

definition cluster_row ::
  "(u8 list \<Rightarrow> 'p option) \<Rightarrow> contract_cluster \<times> u256 \<Rightarrow> 'p portal_cluster option" where
  "cluster_row from_bytes cc =
    (case cc of (cluster, cus_total) \<Rightarrow>
       if cus_total = 0 then None
       else
         let portal_ids = portal_peers from_bytes cluster
         in if portal_ids = [] then None
            else Some \<lparr>cl_operator_addr = cc_operator cluster, cl_portal_ids = portal_ids,
                       cl_allocated_computation_units = cus_total\<rparr>)"

definition cluster_rows ::
  "'p ethers_client \<Rightarrow> portal_registry \<Rightarrow> cluster_id list \<Rightarrow> contract_cluster list \<Rightarrow> 'p portal_cluster list call"
where
  "cluster_rows ec pr cluster_ids clusters =
    result_map (\<lambda>cluster_cus. List.map_filter (cluster_row (ec_from_bytes ec)) (zip clusters cluster_cus))
      (if cluster_ids = [] then Ok [] else pr_multicall_units pr cluster_ids)"

definition portal_clusters :: "'p ethers_client \<Rightarrow> u256 \<Rightarrow> 'p portal_cluster list eff" where
  "portal_clusters ec onchain_id =
    eff_bind
      (case ec_portal_registry ec of
         None \<Rightarrow> Return (Ok [])
       | Some pr \<Rightarrow>
           cluster_loop (\<lambda>offset. pr_get_active_clusters pr offset (ec_portals_per_page ec))
             (cluster_rows ec pr) 0 [])
    (\<lambda>new_clusters.
    eff_bind
      (page_loop (\<lambda>page. ch_get_allocations (ec_chain ec) onchain_id page (ec_portals_per_page ec))
        Some (ec_portals_per_page ec) 0 [])
    (\<lambda>legacy_allocations.
      Return (Ok (merge_portal_clusters (ec_from_bytes ec) new_clusters legacy_allocations))))"

section \<open>Revert messages\<close>

definition be_value :: "u8 list \<Rightarrow> nat" where
  "be_value bs = foldl (\<lambda>n b. n * 256 + unat b) 0 bs"

definition decode_error :: "(u8 list \<Rightarrow> string) \<Rightarrow> u8 list \<Rightarrow> string option" where
  "decode_error from_utf8_lossy msg =
    (if length msg < 64 then None
     else if be_value (take 4 msg) \<noteq> 0x08c379a0 then None
     else if be_value (take 8 (drop 28 msg)) \<noteq> 32 then None
     else Some (from_utf8_lossy (drop 36 msg)))"

text \<open>A contract error is its revert payload, when it has one, and its message.\<close>

definition from_contract_error :: "(u8 list \<Rightarrow> string) \<Rightarrow> u8 list option \<Rightarrow> string \<Rightarrow> client_error" where
  "from_contract_error from_utf8_lossy revert message =
    Contract (case revert of
      Some bs \<Rightarrow> (case decode_error from_utf8_lossy bs of Some decoded \<Rightarrow> decoded | None \<Rightarrow> message)
    | None \<Rightarrow> message)"

end
