(* ===== verification/Contract_Config.thy ===== *)
theory Contract_Config
  imports Contract_Client
begin

text \<open>
  Choosing a client: the command-line arguments with their per-network default addresses
  (\<^verbatim>\<open>crates/contract-client/src/cli.rs\<close>), the RPC transport (\<^verbatim>\<open>transport.rs\<close>), the constructor of the
  on-chain client and the in-memory client that replaces it (\<^verbatim>\<open>client.rs\<close>).
\<close>

section \<open>Addresses\<close>

datatype chain_network = Tethys | Mainnet

definition gateway_registry_default_addr :: "chain_network \<Rightarrow> address" where
  "gateway_registry_default_addr net =
    (case net of
       Tethys \<Rightarrow> 0xAB46F688AbA4FcD1920F21E9BD16B229316D8b0a
     | Mainnet \<Rightarrow> 0x8A90A1cE5fa8Cf71De9e6f76B7d3c0B72feB8c4b)"

definition worker_registration_default_addr :: "chain_network \<Rightarrow> address" where
  "worker_registration_default_addr net =
    (case net of
       Tethys \<Rightarrow> 0xCD8e983F8c4202B0085825Cf21833927D1e2b6Dc
     | Mainnet \<Rightarrow> 0x36E2B147Db67E76aB67a4d07C293670EbeFcAE4E)"

definition network_controller_default_addr :: "chain_network \<Rightarrow> address" where
  "network_controller_default_addr net =
    (case net of
       Tethys \<Rightarrow> 0x018a4EC4B1f5D03F93d34Fd7F0bAfc69B66B97A1
     | Mainnet \<Rightarrow> 0x159550d2589CfF1Ff604AF715130642256B88847)"

definition allocations_viewer_default_addr :: "chain_network \<Rightarrow> address" where
  "allocations_viewer_default_addr net =
    (case net of
       Tethys \<Rightarrow> 0xC0Af6432947db51e0C179050dAF801F19d40D2B7
     | Mainnet \<Rightarrow> 0x88CE6D8D70df9Fe049315fd9D6c3d59108C15c4C)"

definition multicall_default_addr :: "chain_network \<Rightarrow> address" where
  "multicall_default_addr net = 0xcA11bde05977b3631167028862bE2a173976CA11"

definition portal_registry_default_addr :: "chain_network \<Rightarrow> address option" where
  "portal_registry_default_addr net =
    (case net of Tethys \<Rightarrow> None | Mainnet \<Rightarrow> Some 0x29edE9EB0ad3C02B6A98B0E41bF99Cd709812850)"

definition network_display :: "chain_network \<Rightarrow> string" where
  "network_display net = (case net of Tethys \<Rightarrow> ''tethys'' | Mainnet \<Rightarrow> ''mainnet'')"

record contract_addrs =
  ca_gateway_registry :: "address option"
  ca_worker_registration :: "address option"
  ca_network_controller :: "address option"
  ca_allocations_viewer :: "address option"
  ca_multicall :: "address option"
  ca_portal_registry :: "address option"

record rpc_args =
  ra_rpc_url :: string
  ra_l1_rpc_url :: string
  ra_contract_addrs :: contract_addrs
  ra_network :: chain_network
  ra_contract_workers_per_page :: nat
  ra_contract_portals_per_page :: nat
  ra_dummy_client_file_path :: "string option"
  ra_disable_portal_registry :: bool
  ra_rpc_timeout_sec :: nat

definition unwrap_or :: "'a \<Rightarrow> 'a option \<Rightarrow> 'a" where
  "unwrap_or d x = (case x of Some a \<Rightarrow> a | None \<Rightarrow> d)"

definition gateway_registry_addr :: "rpc_args \<Rightarrow> address" where
  "gateway_registry_addr args =
    unwrap_or (gateway_registry_default_addr (ra_network args)) (ca_gateway_registry (ra_contract_addrs args))"

definition worker_registration_addr :: "rpc_args \<Rightarrow> address" where
  "worker_registration_addr args =
    unwrap_or (worker_registration_default_addr (ra_network args))
      (ca_worker_registration (ra_contract_addrs args))"

definition network_controller_addr :: "rpc_args \<Rightarrow> address" where
  "network_controller_addr args =
    unwrap_or (network_controller_default_addr (ra_network args))
      (ca_network_controller (ra_contract_addrs args))"

definition allocations_viewer_addr :: "rpc_args \<Rightarrow> address" where
  "allocations_viewer_addr args =
    unwrap_or (allocations_viewer_default_addr (ra_network args))
      (ca_allocations_viewer (ra_contract_addrs args))"

definition multicall_addr :: "rpc_args \<Rightarrow> address" where
  "multicall_addr args =
    unwrap_or (multicall_default_addr (ra_network args)) (ca_multicall (ra_contract_addrs args))"

definition portal_registry_addr :: "rpc_args \<Rightarrow> address option" where
  "portal_registry_addr args =
    (case ca_portal_registry (ra_contract_addrs args) of
       Some addr \<Rightarrow> Some addr
     | None \<Rightarrow> portal_registry_default_addr (ra_network args))"

section \<open>The RPC transport\<close>

datatype ('h, 'w) transport = Http 'h | Ws 'w

text \<open>
  \<open>http_client\<close> builds the HTTP client with a timeout, \<open>url_parse\<close> parses a URL and \<open>ws_connect\<close> opens a
  web socket; each fails with the message of its error.
\<close>

record ('h, 'w) rpc_lib =
  rl_http_client :: "nat \<Rightarrow> (string, unit) result"
  rl_url_parse :: "string \<Rightarrow> nat \<Rightarrow> (string, 'h) result"
  rl_ws_connect :: "string \<Rightarrow> (string, 'w) result"

definition starts_with :: "string \<Rightarrow> string \<Rightarrow> bool" where
  "starts_with s prefix = (take (length prefix) s = prefix)"

definition transport_connect :: "('h, 'w) rpc_lib \<Rightarrow> string \<Rightarrow> nat \<Rightarrow> ('h, 'w) transport call" where
  "transport_connect lib rpc_url timeout =
    (if starts_with rpc_url ''http'' then
       (case rl_http_client lib timeout of
          Err e \<Rightarrow> Err (HttpClient e)
        | Ok _ \<Rightarrow>
            (case rl_url_parse lib rpc_url timeout of
               Err e \<Rightarrow> Err (InvalidRpcUrl e)
             | Ok h \<Rightarrow> Ok (Http h)))
     else if starts_with rpc_url ''ws'' then
       (case rl_ws_connect lib rpc_url of Err e \<Rightarrow> Err (WsClient e) | Ok w \<Rightarrow> Ok (Ws w))
     else Err InvalidProtocol)"

section \<open>The on-chain client\<close>

text \<open>
  What the nodes behind the two transports serve: the contracts at the given addresses, in the order
  gateway registry, network controller, worker registration, allocations viewer and multicall.
\<close>

record 't contracts_lib =
  cb_default_strategy :: "'t \<Rightarrow> address \<Rightarrow> address call"
  cb_chain :: "'t \<Rightarrow> 't \<Rightarrow> address \<Rightarrow> address \<Rightarrow> address \<Rightarrow> address \<Rightarrow> address \<Rightarrow> chain"
  cb_portal_registry :: "'t \<Rightarrow> address \<Rightarrow> portal_registry"

record 'p peer_codec =
  pc_to_bytes :: "'p \<Rightarrow> u8 list"
  pc_parse :: "u8 list \<Rightarrow> (string, 'p) result"

definition ethers_client_new ::
  "'t contracts_lib \<Rightarrow> 'p peer_codec \<Rightarrow> 't \<Rightarrow> 't \<Rightarrow> rpc_args \<Rightarrow> 'p ethers_client call" where
  "ethers_client_new lib codec l1_client l2_client args =
    result_map (\<lambda>default_strategy_addr.
      let portal_registry =
        (case (ra_disable_portal_registry args, portal_registry_addr args) of
           (True, _) \<Rightarrow> None
         | (False, Some addr) \<Rightarrow> Some (cb_portal_registry lib l2_client addr)
         | (False, None) \<Rightarrow> None)
      in \<lparr>ec_to_bytes = pc_to_bytes codec, ec_parse = pc_parse codec,
          ec_chain = cb_chain lib l1_client l2_client (gateway_registry_addr args)
            (network_controller_addr args) (worker_registration_addr args) (allocations_viewer_addr args)
            (multicall_addr args),
          ec_portal_registry = portal_registry, ec_default_strategy_addr = default_strategy_addr,
          ec_active_workers_per_page = ra_contract_workers_per_page args,
          ec_portals_per_page = ra_contract_portals_per_page args\<rparr>)
      (cb_default_strategy lib l2_client (gateway_registry_addr args))"

section \<open>The in-memory client\<close>

record dummy_worker =
  dw_peer_id :: string
  dw_onchain_id :: string
  dw_address :: string
  dw_bond :: string
  dw_registered_at :: u128
  dw_deregistered_at :: "u128 option"

record dummy_portal_cluster =
  dp_operator_addr :: string
  dp_portal_ids :: "string list"
  dp_allocated_computation_units :: string

text \<open>\<^verbatim>\<open>f64\<close> values are the type parameter \<open>'f\<close>.\<close>

record 'f dummy_data =
  dd_current_epoch :: nat
  dd_current_epoch_start :: nat
  dd_epoch_length_secs :: nat
  dd_workers :: "dummy_worker list"
  dd_portals :: "string list"
  dd_portal_clusters :: "dummy_portal_cluster list"
  dd_worker_ids :: "string \<rightharpoonup> string"
  dd_portal_compute_units :: "string \<rightharpoonup> u64"
  dd_portal_uses_default_strategy :: "string \<rightharpoonup> bool"
  dd_portal_sqd_locked :: "string \<rightharpoonup> (string \<times> 'f) option"

record ('p, 'f) text_lib =
  tl_peer_parse :: "string \<Rightarrow> (string, 'p) result"
  tl_peer_to_string :: "'p \<Rightarrow> string"
  tl_u256_parse :: "string \<Rightarrow> u256 option"
  tl_address_parse :: "string \<Rightarrow> address option"
  tl_f64_as_u128 :: "'f \<Rightarrow> nat"

definition parse_peer_id :: "('p, 'f) text_lib \<Rightarrow> string \<Rightarrow> 'p call" where
  "parse_peer_id lib s = (case tl_peer_parse lib s of Ok p \<Rightarrow> Ok p | Err e \<Rightarrow> Err (InvalidPeerId e))"

definition parse_u256 :: "('p, 'f) text_lib \<Rightarrow> string \<Rightarrow> u256 call" where
  "parse_u256 lib s =
    (case tl_u256_parse lib s of Some n \<Rightarrow> Ok n | None \<Rightarrow> Err (Contract (''Invalid U256: '' @ s)))"

definition parse_address :: "('p, 'f) text_lib \<Rightarrow> string \<Rightarrow> address call" where
  "parse_address lib s =
    (case tl_address_parse lib s of Some a \<Rightarrow> Ok a | None \<Rightarrow> Err (Contract (''Invalid Address: '' @ s)))"

definition call_bind :: "'a call \<Rightarrow> ('a \<Rightarrow> 'b call) \<Rightarrow> 'b call" where
  "call_bind r f = (case r of Ok a \<Rightarrow> f a | Err e \<Rightarrow> Err e)"

fun try_map :: "('a \<Rightarrow> 'b call) \<Rightarrow> 'a list \<Rightarrow> 'b list call" where
  "try_map f [] = Ok []"
| "try_map f (x # xs) = call_bind (f x) (\<lambda>y. result_map (\<lambda>ys. y # ys) (try_map f xs))"

definition dummy_current_epoch :: "'f dummy_data \<Rightarrow> nat eff" where
  "dummy_current_epoch d = Return (Ok (dd_current_epoch d))"

definition dummy_current_epoch_start :: "'f dummy_data \<Rightarrow> nat eff" where
  "dummy_current_epoch_start d = outcome_map Ok (unix_epoch_plus (dd_current_epoch_start d))"

definition dummy_epoch_length :: "'f dummy_data \<Rightarrow> nat eff" where
  "dummy_epoch_length d = Return (Ok (dd_epoch_length_secs d))"

definition dummy_worker_id :: "('p, 'f) text_lib \<Rightarrow> 'f dummy_data \<Rightarrow> 'p \<Rightarrow> u256 call" where
  "dummy_worker_id lib d peer_id =
    (case dd_worker_ids d (tl_peer_to_string lib peer_id) of
       Some id_str \<Rightarrow> parse_u256 lib id_str
     | None \<Rightarrow> Ok 0)"

definition dummy_worker_parse :: "('p, 'f) text_lib \<Rightarrow> dummy_worker \<Rightarrow> 'p chain_worker call" where
  "dummy_worker_parse lib w =
    call_bind (parse_peer_id lib (dw_peer_id w)) (\<lambda>peer_id.
    call_bind (parse_u256 lib (dw_onchain_id w)) (\<lambda>onchain_id.
    call_bind (parse_address lib (dw_address w)) (\<lambda>addr.
    call_bind (parse_u256 lib (dw_bond w)) (\<lambda>bond.
      Ok \<lparr>wr_peer_id = peer_id, wr_onchain_id = onchain_id, wr_address = addr, wr_bond = bond,
          wr_registered_at = dw_registered_at w, wr_deregistered_at = dw_deregistered_at w\<rparr>))))"

definition dummy_active_workers :: "('p, 'f) text_lib \<Rightarrow> 'f dummy_data \<Rightarrow> 'p chain_worker list call" where
  "dummy_active_workers lib d = try_map (dummy_worker_parse lib) (dd_workers d)"

definition dummy_is_portal_registered :: "('p, 'f) text_lib \<Rightarrow> 'f dummy_data \<Rightarrow> 'p \<Rightarrow> bool call" where
  "dummy_is_portal_registered lib d portal_id =
    Ok (tl_peer_to_string lib portal_id \<in> set (dd_portals d))"

definition dummy_worker_registration_time ::
  "('p, 'f) text_lib \<Rightarrow> 'f dummy_data \<Rightarrow> 'p \<Rightarrow> nat option eff" where
  "dummy_worker_registration_time lib d peer_id =
    (case find (\<lambda>w. dw_peer_id w = tl_peer_to_string lib peer_id) (dd_workers d) of
       None \<Rightarrow> Return (Ok None)
     | Some w \<Rightarrow>
         if dw_registered_at w > 0 then
           outcome_bind (expect_le ''registered_at unix timestamp fits in u64'' U64_MAX
               (unat (dw_registered_at w))) (\<lambda>registered_at.
             outcome_map (\<lambda>t. Ok (Some t)) (unix_epoch_plus registered_at))
         else Return (Ok None))"

definition dummy_active_portals :: "('p, 'f) text_lib \<Rightarrow> 'f dummy_data \<Rightarrow> 'p list call" where
  "dummy_active_portals lib d = try_map (parse_peer_id lib) (dd_portals d)"

definition dummy_portal_compute_units_per_epoch ::
  "('p, 'f) text_lib \<Rightarrow> 'f dummy_data \<Rightarrow> 'p \<Rightarrow> u64 call" where
  "dummy_portal_compute_units_per_epoch lib d portal_id =
    Ok (unwrap_or 0 (dd_portal_compute_units d (tl_peer_to_string lib portal_id)))"

definition dummy_current_allocations ::
  "('p, 'f) text_lib \<Rightarrow> 'f dummy_data \<Rightarrow> 'p \<Rightarrow> 'p chain_worker list option \<Rightarrow> 'p worker_allocation list call"
where
  "dummy_current_allocations lib d portal_id given =
    call_bind (case given of Some ws \<Rightarrow> Ok ws | None \<Rightarrow> dummy_active_workers lib d) (\<lambda>workers.
      if workers = [] then Ok []
      else
        let cus_per_epoch = unwrap_or 0 (dd_portal_compute_units d (tl_peer_to_string lib portal_id))
        in Ok (map (\<lambda>w. allocation_for w (ucast cus_per_epoch)) workers))"

definition dummy_portal_uses_default_strategy ::
  "('p, 'f) text_lib \<Rightarrow> 'f dummy_data \<Rightarrow> 'p \<Rightarrow> bool call" where
  "dummy_portal_uses_default_strategy lib d portal_id =
    Ok (unwrap_or True (dd_portal_uses_default_strategy d (tl_peer_to_string lib portal_id)))"

definition dummy_cluster_parse ::
  "('p, 'f) text_lib \<Rightarrow> dummy_portal_cluster \<Rightarrow> 'p portal_cluster call" where
  "dummy_cluster_parse lib c =
    call_bind (parse_address lib (dp_operator_addr c)) (\<lambda>operator_addr.
    call_bind (try_map (parse_peer_id lib) (dp_portal_ids c)) (\<lambda>portal_ids.
    call_bind (parse_u256 lib (dp_allocated_computation_units c)) (\<lambda>cus.
      Ok \<lparr>cl_operator_addr = operator_addr, cl_portal_ids = portal_ids,
          cl_allocated_computation_units = cus\<rparr>)))"

definition dummy_portal_clusters ::
  "('p, 'f) text_lib \<Rightarrow> 'f dummy_data \<Rightarrow> u256 \<Rightarrow> 'p portal_cluster list call" where
  "dummy_portal_clusters lib d onchain_id = try_map (dummy_cluster_parse lib) (dd_portal_clusters d)"

definition dummy_portal_sqd_locked ::
  "('p, 'f) text_lib \<Rightarrow> 'f dummy_data \<Rightarrow> 'p \<Rightarrow> (string \<times> nat \<times> nat) option call" where
  "dummy_portal_sqd_locked lib d portal_id =
    (case dd_portal_sqd_locked d (tl_peer_to_string lib portal_id) of
       Some (Some (addr, ratio)) \<Rightarrow> Ok (Some (addr, tl_f64_as_u128 lib ratio, 1))
     | Some None \<Rightarrow> Ok None
     | None \<Rightarrow> Ok None)"

section \<open>Choosing between them\<close>

datatype ('p, 'f) any_client = DummyClient "'f dummy_data" | EthersClient "'p ethers_client"

definition get_client ::
  "(string \<Rightarrow> (string, u8 list) result) \<Rightarrow> (u8 list \<Rightarrow> (string, 'f dummy_data) result) \<Rightarrow>
    ('h, 'w) rpc_lib \<Rightarrow> ('h, 'w) transport contracts_lib \<Rightarrow> 'p peer_codec \<Rightarrow> rpc_args \<Rightarrow> ('p, 'f) any_client call"
where
  "get_client fs_read from_slice rpc contracts codec args =
    (case ra_dummy_client_file_path args of
       Some path \<Rightarrow>
         (case fs_read path of
            Err e \<Rightarrow> Err (Contract e)
          | Ok data \<Rightarrow>
              (case from_slice data of
                 Err e \<Rightarrow> Err (Contract e)
               | Ok dummy_data \<Rightarrow> Ok (DummyClient dummy_data)))
     | None \<Rightarrow>
         call_bind (transport_connect rpc (ra_rpc_url args) (ra_rpc_timeout_sec args)) (\<lambda>l2_client.
         call_bind (transport_connect rpc (ra_l1_rpc_url args) (ra_rpc_timeout_sec args)) (\<lambda>l1_client.
           result_map EthersClient (ethers_client_new contracts codec l1_client l2_client args))))"

section \<open>Which registries a built client reads\<close>

text \<open>
  The rollback switch wins over every address; without it a configured address is used, and only Mainnet
  has a default.
\<close>

lemma ethers_client_registry:
  assumes "ethers_client_new lib codec l1 l2 args = Ok ec"
  shows "ec_portal_registry ec =
    (if ra_disable_portal_registry args then None
     else map_option (cb_portal_registry lib l2) (portal_registry_addr args))"
  using assms unfolding ethers_client_new_def
  by (cases "cb_default_strategy lib l2 (gateway_registry_addr args)")
    (auto split: bool.splits option.splits)

lemma tethys_opt_in:
  "ra_network args = Tethys \<Longrightarrow> portal_registry_addr args = ca_portal_registry (ra_contract_addrs args)"
  by (simp add: portal_registry_addr_def portal_registry_default_addr_def split: option.splits)

end
