(* ===== verification/Contract_Properties.thy ===== *)
theory Contract_Properties
  imports Contract_Config
begin

text \<open>
  What the on-chain client returns when the contracts page their lists as documented: complete lists,
  whatever the page size, and the same allocations a query per worker would give.
\<close>

section \<open>Lists read page by page\<close>

declare map_filter_append [simp]

lemma map_filter_concat: "List.map_filter f xs = concat (map (\<lambda>x. case f x of None \<Rightarrow> [] | Some y \<Rightarrow> [y]) xs)"
  by (induction xs) (auto simp: List.map_filter_simps split: option.splits)

lemma take_drop_length: "xs = take n xs @ drop (length (take n xs)) xs"
  by (simp add: min_def)

definition serves_pages :: "(nat \<Rightarrow> 'a list call) \<Rightarrow> nat \<Rightarrow> 'a list \<Rightarrow> bool" where
  "serves_pages fetch per_page rows \<longleftrightarrow>
    (\<forall>page. fetch page = Ok (take per_page (drop (page * per_page) rows)))"

definition serves_clusters ::
  "(nat \<Rightarrow> (cluster_id list \<times> contract_cluster list \<times> nat) call) \<Rightarrow> nat \<Rightarrow> (cluster_id \<times> contract_cluster) list \<Rightarrow> bool"
where
  "serves_clusters fetch limit rows \<longleftrightarrow>
    (\<forall>offset. fetch offset =
      Ok (take limit (drop offset (map fst rows)), take limit (drop offset (map snd rows)), length rows))"

lemma page_loop_complete:
  assumes "serves_pages fetch per_page rows" "0 < per_page" "length rows < I32_PAGES * per_page"
    and "page * per_page \<le> length rows"
  shows "page_loop fetch keep per_page page acc =
    Return (Ok (acc @ List.map_filter keep (drop (page * per_page) rows)))"
  using assms
proof (induction fetch keep per_page page acc rule: page_loop.induct)
  case (1 fetch keep per_page page acc)
  let ?items = "take per_page (drop (page * per_page) rows)"
  have fetch: "fetch page = Ok ?items"
    using "1.prems"(1) by (simp add: serves_pages_def)
  have "page * per_page < I32_PAGES * per_page"
    using "1.prems"(3,4) by linarith
  then have page: "\<not> I32_PAGES \<le> page"
    by simp
  have split: "List.map_filter keep (drop (page * per_page) rows) =
      List.map_filter keep ?items @ List.map_filter keep (drop ((page + 1) * per_page) rows)"
    by (metis add.commute append_take_drop_id drop_drop map_filter_append mult.commute mult_Suc_right Suc_eq_plus1)
  show ?case
  proof (cases "length ?items < per_page")
    case True
    then have "length rows \<le> (page + 1) * per_page"
      by auto
    then show ?thesis
      using True page fetch split by (simp add: page_loop.simps [of fetch] List.map_filter_simps)
  next
    case False
    then have "(page + 1) * per_page \<le> length rows"
      using "1.prems"(4) by (auto simp: not_less)
    then have "page_loop fetch keep per_page (page + 1) (acc @ List.map_filter keep ?items) =
        Return (Ok ((acc @ List.map_filter keep ?items) @ List.map_filter keep (drop ((page + 1) * per_page) rows)))"
      using "1.IH" [OF page fetch refl False] "1.prems" by simp
    then show ?thesis
      using False page fetch split by (simp add: page_loop.simps [of fetch _ _ page] Let_def)
  qed
qed

lemma cluster_loop_step:
  assumes "fetch offset = Ok (cluster_ids, clusters, active)" "items cluster_ids clusters = Ok new"
    and "\<not> U256_MAX < offset + length clusters"
  shows "cluster_loop fetch items offset acc =
    (if length clusters = 0 \<or> active \<le> offset + length clusters then Return (Ok (acc @ new))
     else cluster_loop fetch items (offset + length clusters) (acc @ new))"
  using assms(3) by (subst cluster_loop.simps) (simp add: assms(1,2) Let_def)

lemma cluster_loop_complete:
  assumes "serves_clusters fetch limit rows" "0 < limit" "length rows \<le> U256_MAX" "offset \<le> length rows"
    and "\<And>part. items (map fst part) (map snd part) = Ok (concat (map g part))"
  shows "cluster_loop fetch items offset acc = Return (Ok (acc @ concat (map g (drop offset rows))))"
  using assms
proof (induction fetch items offset acc rule: cluster_loop.induct)
  case (1 fetch items offset acc)
  let ?part = "take limit (drop offset rows)"
  have fetch: "fetch offset = Ok (map fst ?part, map snd ?part, length rows)"
    using "1.prems"(1) by (simp add: serves_clusters_def take_map drop_map)
  have items: "items (map fst ?part) (map snd ?part) = Ok (concat (map g ?part))"
    by (rule "1.prems"(5))
  have small: "\<not> U256_MAX < offset + length (map snd ?part)"
    using "1.prems"(3,4) by simp
  have split: "concat (map g (drop offset rows)) =
      concat (map g ?part) @ concat (map g (drop (offset + length ?part) rows))"
  proof -
    have "concat (map g (?part @ drop (length ?part) (drop offset rows))) = concat (map g (drop offset rows))"
      unfolding take_drop_length [symmetric] ..
    then show ?thesis
      by (simp add: add.commute del: length_take)
  qed
  show ?case
  proof (cases "length (map snd ?part) = 0 \<or> length rows \<le> offset + length (map snd ?part)")
    case True
    then have "drop (offset + length ?part) rows = []"
      using "1.prems"(2) by auto
    then show ?thesis
      unfolding cluster_loop_step [of fetch offset _ _ _ items, OF fetch items small] if_P [OF True] using split by simp
  next
    case False
    then have "cluster_loop fetch items (offset + length (map snd ?part)) (acc @ concat (map g ?part)) =
        Return (Ok ((acc @ concat (map g ?part)) @ concat (map g (drop (offset + length (map snd ?part)) rows))))"
      using "1.IH" [OF fetch refl refl items refl small False] "1.prems" by simp
    then show ?thesis
      unfolding cluster_loop_step [of fetch offset _ _ _ items, OF fetch items small] if_not_P [OF False] using split by simp
  qed
qed

section \<open>Portals and clusters\<close>

lemma cluster_rows_concat:
  assumes "\<And>cluster_ids. cluster_ids \<noteq> [] \<Longrightarrow> pr_multicall_units pr cluster_ids = Ok (map units cluster_ids)"
  shows "cluster_rows ec pr (map fst part) (map snd part) =
    Ok (List.map_filter (\<lambda>(cluster_id, c). cluster_row (ec_from_bytes ec) (c, units cluster_id)) part)"
proof -
  have "List.map_filter (cluster_row (ec_from_bytes ec)) (zip (map snd part) (map (units \<circ> fst) part)) =
      List.map_filter (\<lambda>(cluster_id, c). cluster_row (ec_from_bytes ec) (c, units cluster_id)) part"
    by (induction part) (auto simp: List.map_filter_simps split: option.splits)
  then show ?thesis
    using assms [of "map fst part"] by (simp add: cluster_rows_def)
qed

text \<open>
  C16: If the contracts serve their lists page by page, every page size above zero gives the complete
  reads: both loops end, and the active portals and the portal clusters of a worker are the merge of all
  clusters of the new registry with all rows of the legacy one.
\<close>

theorem registry_reads_complete:
  assumes "ec_portal_registry ec = Some pr" and "0 < ec_portals_per_page ec"
    and "serves_clusters (\<lambda>offset. pr_get_active_clusters pr offset (ec_portals_per_page ec))
      (ec_portals_per_page ec) rows" "length rows \<le> U256_MAX"
    and "\<And>cluster_ids. cluster_ids \<noteq> [] \<Longrightarrow> pr_multicall_units pr cluster_ids = Ok (map units cluster_ids)"
    and "serves_pages (\<lambda>page. ch_get_active_gateways (ec_chain ec) page (ec_portals_per_page ec))
      (ec_portals_per_page ec) gateways" "length gateways < I32_PAGES * ec_portals_per_page ec"
    and "serves_pages (\<lambda>page. ch_get_allocations (ec_chain ec) w page (ec_portals_per_page ec))
      (ec_portals_per_page ec) allocations" "length allocations < I32_PAGES * ec_portals_per_page ec"
  shows "active_portals ec = Return (Ok (merge_active_portals
      (concat (map (portal_peers (ec_from_bytes ec) \<circ> snd) rows))
      (List.map_filter (ec_from_bytes ec) gateways)))
    \<and> portal_clusters ec w = Return (Ok (merge_portal_clusters (ec_from_bytes ec)
      (List.map_filter (\<lambda>(cluster_id, c). cluster_row (ec_from_bytes ec) (c, units cluster_id)) rows)
      allocations))"
proof -
  have portals: "cluster_loop (\<lambda>offset. pr_get_active_clusters pr offset (ec_portals_per_page ec))
      (\<lambda>_ clusters. Ok (concat (map (portal_peers (ec_from_bytes ec)) clusters))) 0 [] =
      Return (Ok ([] @ concat (map (portal_peers (ec_from_bytes ec) \<circ> snd) (drop 0 rows))))"
    by (rule cluster_loop_complete [OF assms(3,2,4)]) simp_all
  have "cluster_rows ec pr (map fst part) (map snd part) = Ok (concat (map (\<lambda>(cluster_id, c).
      case cluster_row (ec_from_bytes ec) (c, units cluster_id) of None \<Rightarrow> [] | Some y \<Rightarrow> [y]) part))" for part
    by (simp add: cluster_rows_concat [OF assms(5)] map_filter_concat case_prod_unfold)
  then have clusters: "cluster_loop (\<lambda>offset. pr_get_active_clusters pr offset (ec_portals_per_page ec))
      (cluster_rows ec pr) 0 [] = Return (Ok ([] @ concat (map (\<lambda>(cluster_id, c).
      case cluster_row (ec_from_bytes ec) (c, units cluster_id) of None \<Rightarrow> [] | Some y \<Rightarrow> [y]) (drop 0 rows))))"
    by (intro cluster_loop_complete [OF assms(3,2,4)]) simp_all
  have "active_portals ec = Return (Ok (merge_active_portals
      (concat (map (portal_peers (ec_from_bytes ec) \<circ> snd) rows)) (List.map_filter (ec_from_bytes ec) gateways)))"
    using portals page_loop_complete [OF assms(6,2,7), of 0 "ec_from_bytes ec" "[]"] assms(1)
    by (simp add: active_portals_def)
  moreover have "portal_clusters ec w = Return (Ok (merge_portal_clusters (ec_from_bytes ec)
      (List.map_filter (\<lambda>(cluster_id, c). cluster_row (ec_from_bytes ec) (c, units cluster_id)) rows) allocations))"
    using clusters page_loop_complete [OF assms(8,2,9), of 0 Some "[]"] assms(1)
    by (simp add: portal_clusters_def map_filter_concat case_prod_unfold List.map_filter_def)
  ultimately show ?thesis
    by blast
qed

section \<open>Workers\<close>

lemma try_concat_chunks:
  assumes "\<And>part. fetch part = Ok (map g part)" "0 < n"
  shows "try_concat fetch (chunks_of n xs) = Ok (map g xs)"
  using assms(2)
proof (induction n xs rule: chunks_of.induct)
  case (1 n xs)
  show ?case
  proof (cases "xs = []")
    case False
    then have "try_concat fetch (chunks_of n (drop n xs)) = Ok (map g (drop n xs))"
      using 1 by simp
    then have "try_concat fetch (take n xs # chunks_of n (drop n xs)) = Ok (map g (take n xs) @ map g (drop n xs))"
      using assms(1) by simp
    then show ?thesis
      using False 1(2) by (simp add: chunks_of.simps [of n xs] flip: map_append)
  qed (simp add: chunks_of.simps)
qed

text \<open>
  C32: The active workers are the parsed records of all active on-chain ids, in the order of the ids and
  each with its own id, whatever the size of the batches they are fetched in; records that do not parse
  are left out. A batch size of zero panics.
\<close>

theorem active_workers_complete:
  assumes "ch_get_active_worker_ids (ec_chain ec) = Ok onchain_ids"
    and "\<And>part. ch_multicall_workers (ec_chain ec) part = Ok (map record_of part)"
  shows "active_workers ec =
    (if ec_active_workers_per_page ec = 0 then Panic ''chunk size must be non-zero''
     else Return (Ok (List.map_filter
       (\<lambda>onchain_id. result_ok (worker_new (ec_parse ec) (record_of onchain_id) onchain_id)) onchain_ids)))"
proof -
  have "List.map_filter (\<lambda>(w, onchain_id). result_ok (worker_new (ec_parse ec) w onchain_id))
      (zip (map record_of ids) ids) =
    List.map_filter (\<lambda>onchain_id. result_ok (worker_new (ec_parse ec) (record_of onchain_id) onchain_id)) ids" for ids
    by (induction ids) (auto simp: List.map_filter_simps split: option.splits)
  then show ?thesis
    using try_concat_chunks [OF assms(2), of "ec_active_workers_per_page ec" onchain_ids] assms(1)
    by (simp add: active_workers_def)
qed

section \<open>Allocations\<close>

text \<open>
  C31: A portal of the new registry gets the units of its cluster on every worker. For any other portal
  the allocations are those a query per worker would give, although the client asks for one worker only
  when the strategy is the default one, which distributes evenly. Every worker gets one allocation, in order.
\<close>

theorem current_allocations_per_worker:
  assumes "registry_cluster ec portal = Ok found"
    and "\<And>pr cluster_id. found = Some (pr, cluster_id) \<Longrightarrow> pr_get_computation_units pr cluster_id = Ok cluster_units"
    and "ch_get_used_strategy (ec_chain ec) (ec_to_bytes ec portal) = Ok strategy"
    and "\<And>s worker. ch_units_per_epoch (ec_chain ec) s (ec_to_bytes ec portal) worker = Ok (units s worker)"
    and "\<And>s part. ch_multicall_units_per_epoch (ec_chain ec) s (ec_to_bytes ec portal) part = Ok (map (units s) part)"
    and even: "\<And>w w'. units (ec_default_strategy_addr ec) w = units (ec_default_strategy_addr ec) w'"
  shows "current_allocations ec portal (Some workers) = Return (Ok (map (\<lambda>w. allocation_for w
    (if found = None then units strategy (wr_onchain_id w) else cluster_units)) workers))"
proof (cases "workers = []")
  case True
  then show ?thesis
    by (simp add: current_allocations_def)
next
  case workers: False
  have zip: "map (\<lambda>(w, cus). allocation_for w cus) (zip ws (map (f \<circ> wr_onchain_id) ws)) =
      map (\<lambda>w. allocation_for w (f (wr_onchain_id w))) ws" for ws :: "'a chain_worker list" and f
    by (induction ws) simp_all
  show ?thesis
  proof (cases found)
    case None
    show ?thesis
    proof (cases "strategy = ec_default_strategy_addr ec")
      case True
      obtain u where "\<And>w. units (ec_default_strategy_addr ec) w = u"
        using even by blast
      then show ?thesis
        using assms(1,3,4) None True workers by (simp add: current_allocations_def)
    next
      case False
      then show ?thesis
        using assms(1,3,5) None workers zip by (simp add: current_allocations_def)
    qed
  next
    case (Some pc)
    then show ?thesis
      using assms(1) assms(2) [of "fst pc" "snd pc"] workers by (simp add: current_allocations_def case_prod_unfold)
  qed
qed

section \<open>A chain to run on\<close>

definition page_of :: "'a list \<Rightarrow> nat \<Rightarrow> nat \<Rightarrow> 'a list call" where
  "page_of rows page per_page = Ok (take per_page (drop (page * per_page) rows))"

definition sample_clusters :: "(cluster_id \<times> contract_cluster) list" where
  "sample_clusters =
    [(replicate 32 1, \<lparr>cc_operator = 7, cc_total_staked = 5, cc_portals = [[1], [2], []]\<rparr>),
     (replicate 32 2, \<lparr>cc_operator = 8, cc_total_staked = 6, cc_portals = [[3]]\<rparr>)]"

definition sample_registry :: portal_registry where
  "sample_registry = \<lparr>
    pr_get_active_clusters = (\<lambda>offset limit.
      Ok (take limit (drop offset (map fst sample_clusters)), take limit (drop offset (map snd sample_clusters)),
          length sample_clusters)),
    pr_get_cluster_id_by_peer_id = (\<lambda>_. Ok (replicate 32 0)),
    pr_get_computation_units = (\<lambda>_. Ok 4),
    pr_get_cluster = (\<lambda>_. Ok (snd (hd sample_clusters))),
    pr_multicall_units = (\<lambda>ids. Ok (map (\<lambda>_. 4) ids))\<rparr>"

definition sample_worker_record :: "u256 \<Rightarrow> contract_worker" where
  "sample_worker_record onchain_id = \<lparr>cw_creator = 3, cw_peer_id = (if onchain_id = 2 then [] else [9]),
    cw_bond = 1, cw_registered_at = 10, cw_deregistered_at = 0\<rparr>"

definition sample_chain :: chain where
  "sample_chain = \<lparr>
    ch_epoch_number = Ok 3, ch_next_epoch = Ok 100, ch_worker_epoch_length = Ok 10,
    ch_latest_block = Ok None, ch_get_block = (\<lambda>_. Ok None), ch_worker_ids = (\<lambda>_. Ok 1),
    ch_get_active_worker_ids = Ok [1, 2, 3],
    ch_get_worker = (\<lambda>onchain_id. Ok (sample_worker_record onchain_id)),
    ch_multicall_workers = (\<lambda>ids. Ok (map sample_worker_record ids)),
    ch_get_gateway_operator = (\<lambda>_. Ok 0),
    ch_get_active_gateways = page_of [[3], [4]],
    ch_get_used_strategy = (\<lambda>_. Ok 6), ch_computation_units_available = (\<lambda>_. Ok 2),
    ch_get_stake_amount = (\<lambda>_. Ok 0), ch_units_per_epoch = (\<lambda>s id w. Ok (if s = 5 then 11 else w)),
    ch_multicall_units_per_epoch = (\<lambda>s id ws. Ok (map (\<lambda>w. if s = 5 then 11 else w) ws)),
    ch_get_allocations = (\<lambda>w. page_of [\<lparr>al_gateway_id = [4], al_allocated = 2, al_operator = 7\<rparr>])\<rparr>"

definition sample_client :: "u8 ethers_client" where
  "sample_client = \<lparr>ec_to_bytes = (\<lambda>p. [p]), ec_parse = (\<lambda>bs. case bs of [p] \<Rightarrow> Ok p | _ \<Rightarrow> Err ''length''),
    ec_chain = sample_chain, ec_portal_registry = Some sample_registry, ec_default_strategy_addr = 5,
    ec_active_workers_per_page = 2, ec_portals_per_page = 1\<rparr>"

lemma sample_client_from_bytes [simp]:
  "ec_from_bytes sample_client = (\<lambda>bs. case bs of [p] \<Rightarrow> Some p | _ \<Rightarrow> None)"
  by (auto simp: ec_from_bytes_def sample_client_def result_ok_def fun_eq_iff split: list.splits)

lemmas sample_world = sample_client_def sample_chain_def sample_registry_def page_of_def

lemma registry_reads_complete_witness:
  "active_portals sample_client = Return (Ok [1, 2, 3, 4]) \<and>
   portal_clusters sample_client 1 = Return (Ok
     [\<lparr>cl_operator_addr = 7, cl_portal_ids = [1, 2, 4], cl_allocated_computation_units = 6\<rparr>,
      \<lparr>cl_operator_addr = 8, cl_portal_ids = [3], cl_allocated_computation_units = 4\<rparr>])"
proof -
  have "active_portals sample_client = Return (Ok (merge_active_portals
      (concat (map (portal_peers (ec_from_bytes sample_client) \<circ> snd) sample_clusters))
      (List.map_filter (ec_from_bytes sample_client) [[3], [4]])))
    \<and> portal_clusters sample_client 1 = Return (Ok (merge_portal_clusters (ec_from_bytes sample_client)
      (List.map_filter (\<lambda>(cluster_id, c). cluster_row (ec_from_bytes sample_client) (c, (\<lambda>_. 4) cluster_id))
        sample_clusters)
      [\<lparr>al_gateway_id = [4], al_allocated = 2, al_operator = 7\<rparr>]))"
    by (rule registry_reads_complete [where pr = sample_registry])
      (simp_all add: sample_world serves_clusters_def serves_pages_def sample_clusters_def)
  moreover have "merge_active_portals
      (concat (map (portal_peers (ec_from_bytes sample_client) \<circ> snd) sample_clusters))
      (List.map_filter (ec_from_bytes sample_client) [[3], [4]]) = [1, 2, 3, 4]"
    by (simp add: sample_clusters_def portal_peers_def List.map_filter_simps merge_active_portals_def)
  moreover have "merge_portal_clusters (ec_from_bytes sample_client)
      (List.map_filter (\<lambda>(cluster_id, c). cluster_row (ec_from_bytes sample_client) (c, 4)) sample_clusters)
      [\<lparr>al_gateway_id = [4], al_allocated = 2, al_operator = 7\<rparr>] =
     [\<lparr>cl_operator_addr = 7, cl_portal_ids = [1, 2, 4], cl_allocated_computation_units = 6\<rparr>,
      \<lparr>cl_operator_addr = 8, cl_portal_ids = [3], cl_allocated_computation_units = 4\<rparr>]"
    unfolding sample_client_from_bytes by code_simp
  ultimately show ?thesis
    by simp
qed

lemma active_workers_complete_witness:
  "active_workers sample_client = Return (Ok
    [\<lparr>wr_peer_id = 9, wr_onchain_id = 1, wr_address = 3, wr_bond = 1, wr_registered_at = 10, wr_deregistered_at = None\<rparr>,
     \<lparr>wr_peer_id = 9, wr_onchain_id = 3, wr_address = 3, wr_bond = 1, wr_registered_at = 10, wr_deregistered_at = None\<rparr>])"
  using active_workers_complete [of sample_client "[1, 2, 3]" sample_worker_record]
  by (simp add: sample_world sample_worker_record_def worker_new_def result_ok_def List.map_filter_simps)

definition sample_worker :: "u256 \<Rightarrow> u8 chain_worker" where
  "sample_worker n = \<lparr>wr_peer_id = 9, wr_onchain_id = n, wr_address = 3, wr_bond = 1, wr_registered_at = 10,
    wr_deregistered_at = None\<rparr>"

lemma current_allocations_per_worker_witness:
  "current_allocations sample_client 1 (Some [sample_worker 20, sample_worker 30]) =
    Return (Ok [allocation_for (sample_worker 20) 20, allocation_for (sample_worker 30) 30])"
proof -
  have "current_allocations sample_client 1 (Some [sample_worker 20, sample_worker 30]) =
    Return (Ok (map (\<lambda>w. allocation_for w (if (None :: (portal_registry \<times> cluster_id) option) = None
      then (\<lambda>s w. if s = 5 then 11 else w) (6 :: address) (wr_onchain_id w) else 0))
      [sample_worker 20, sample_worker 30]))"
    by (rule current_allocations_per_worker)
      (simp_all add: sample_world registry_cluster_def ZERO_CLUSTER_ID_def)
  then show ?thesis
    by (simp add: sample_worker_def)
qed

section \<open>Findings\<close>

text \<open>With a page size of zero no page is ever short: the legacy loop runs to the end of its counter and panics.\<close>

lemma page_loop_zero:
  assumes "serves_pages fetch 0 rows"
  shows "page_loop fetch keep 0 page acc = Panic ''Unsigned integer created from a negative value''"
  using assms
proof (induction fetch keep "0 :: nat" page acc rule: page_loop.induct)
  case (1 fetch keep page acc)
  then have "fetch page = Ok []"
    by (simp add: serves_pages_def)
  with 1 show ?case
    by (subst page_loop.simps) simp
qed

text \<open>The decoded revert message of an encoded string starts with the 32 bytes of its length.\<close>

lemma decode_error_keeps_length:
  assumes "length len_word = 32"
  shows "decode_error lossy
    ([0x08, 0xc3, 0x79, 0xa0] @ (replicate 31 0 @ [32]) @ len_word @ body) = Some (lossy (len_word @ body))"
proof -
  have "be_value [0x08, 0xc3, 0x79, 0xa0] = 0x08c379a0" "be_value (replicate 7 0 @ [32]) = 32"
    by code_simp+
  then show ?thesis
    using assms by (simp add: decode_error_def)
qed

end
