(* ===== verification/Pubsub.thy ===== *)
theory Pubsub
  imports Prelude
begin

text \<open>
  Gossip messages and their validation: \<^verbatim>\<open>crates/transport/src/behaviour/pubsub.rs\<close>. Instants are
  nanoseconds of a monotonic clock, the wall clock is the \<^verbatim>\<open>u64\<close> that \<^verbatim>\<open>timestamp_now\<close> returns; both are
  arguments of the operations that read them. The gossip engine and the message validator of a topic are
  parameters with a state of their own. Additions wrap at their width.
\<close>

section \<open>Validation\<close>

datatype validation_error = Invalid string | Ignored string

datatype message_acceptance = Accept | Reject | Ignore

fun acceptance_of_error :: "validation_error \<Rightarrow> message_acceptance" where
  "acceptance_of_error (Invalid e) = Reject"
| "acceptance_of_error (Ignored e) = Ignore"

type_synonym ('p, 'v) msg_validator = "'v \<Rightarrow> 'p \<Rightarrow> u64 \<Rightarrow> u8 list \<Rightarrow> (validation_error, unit) result \<times> 'v"

record ('p, 'v) msg_validation_config =
  mc_min_interval :: nat
  mc_max_burst :: u32
  mc_keep_last :: u64
  mc_msg_validator :: "('p, 'v) msg_validator"

definition unit_validator :: "('p, 'v) msg_validator" where
  "unit_validator v peer_id seq_no msg = (Ok (), v)"

definition config_new :: "nat \<Rightarrow> ('p, 'v) msg_validation_config" where
  "config_new min_interval =
    \<lparr>mc_min_interval = min_interval, mc_max_burst = 1, mc_keep_last = 0, mc_msg_validator = unit_validator\<rparr>"

definition config_max_burst :: "u32 \<Rightarrow> ('p, 'v) msg_validation_config \<Rightarrow> ('p, 'v) msg_validation_config" where
  "config_max_burst n cfg = cfg\<lparr>mc_max_burst := n\<rparr>"

definition config_keep_last :: "u64 \<Rightarrow> ('p, 'v) msg_validation_config \<Rightarrow> ('p, 'v) msg_validation_config" where
  "config_keep_last n cfg = cfg\<lparr>mc_keep_last := n\<rparr>"

definition config_msg_validator ::
  "('p, 'v) msg_validator \<Rightarrow> ('p, 'v) msg_validation_config \<Rightarrow> ('p, 'v) msg_validation_config" where
  "config_msg_validator f cfg = cfg\<lparr>mc_msg_validator := f\<rparr>"

record peer_state =
  ps_last_seq_no :: u64
  ps_last_time :: nat
  ps_burst :: u32

definition peer_state_new :: "nat \<Rightarrow> u64 \<Rightarrow> peer_state" where
  "peer_state_new now seq_no = \<lparr>ps_last_seq_no = seq_no, ps_last_time = now, ps_burst = 1\<rparr>"

definition peer_validate_msg ::
  "nat \<Rightarrow> u64 \<Rightarrow> u64 \<Rightarrow> ('p, 'v) msg_validation_config \<Rightarrow> peer_state \<Rightarrow>
    (validation_error, unit) result \<times> peer_state"
where
  "peer_validate_msg now timestamp seq_no cfg ps =
    (if seq_no = 0 \<or> seq_no > timestamp then (Err (Invalid ''invalid sequence number''), ps)
     else if seq_no + mc_keep_last cfg \<le> ps_last_seq_no ps then (Err (Ignored ''old message''), ps)
     else
       let ps' = (if now - ps_last_time ps < mc_min_interval cfg
                  then ps\<lparr>ps_burst := ps_burst ps + 1\<rparr>
                  else ps\<lparr>ps_last_time := now, ps_burst := 1\<rparr>)
       in if ps_burst ps' > mc_max_burst cfg
          then (Err (Ignored ''too many messages within min_interval''), ps')
          else (Ok (), ps'\<lparr>ps_last_seq_no := max (ps_last_seq_no ps') seq_no\<rparr>))"

record ('p, 'v) topic_state =
  ts_name :: string
  ts_peer_states :: "'p \<rightharpoonup> peer_state"
  ts_validation_config :: "('p, 'v) msg_validation_config"
  ts_validator :: 'v
  ts_subscribed_at :: nat

definition topic_state_new :: "nat \<Rightarrow> 'v \<Rightarrow> string \<Rightarrow> ('p, 'v) msg_validation_config \<Rightarrow> ('p, 'v) topic_state" where
  "topic_state_new now v name cfg =
    \<lparr>ts_name = name, ts_peer_states = Map.empty, ts_validation_config = cfg, ts_validator = v,
     ts_subscribed_at = now\<rparr>"

definition topic_validate_msg ::
  "nat \<Rightarrow> u64 \<Rightarrow> 'p \<Rightarrow> u64 \<Rightarrow> u8 list \<Rightarrow> ('p, 'v) topic_state \<Rightarrow>
    (validation_error, unit) result \<times> ('p, 'v) topic_state"
where
  "topic_validate_msg now timestamp peer_id seq_no msg ts =
    (case mc_msg_validator (ts_validation_config ts) (ts_validator ts) peer_id seq_no msg of
       (Err e, v) \<Rightarrow> (Err e, ts\<lparr>ts_validator := v\<rparr>)
     | (Ok _, v) \<Rightarrow>
         (case ts_peer_states ts peer_id of
            None \<Rightarrow>
              (Ok (), ts\<lparr>ts_validator := v,
                 ts_peer_states := (ts_peer_states ts)(peer_id \<mapsto> peer_state_new now seq_no)\<rparr>)
          | Some state \<Rightarrow>
              (case peer_validate_msg now timestamp seq_no (ts_validation_config ts) state of
                 (r, state') \<Rightarrow>
                   (r, ts\<lparr>ts_validator := v, ts_peer_states := (ts_peer_states ts)(peer_id \<mapsto> state')\<rparr>))))"

section \<open>The behaviour\<close>

record 'p gossip_message =
  gm_source :: "'p option"
  gm_data :: "u8 list"
  gm_sequence_number :: "u64 option"
  gm_topic :: string

record 'p pubsub_msg =
  pm_peer_id :: 'p
  pm_topic :: string
  pm_data :: "u8 list"

datatype publish_error = NoPeersSubscribedToTopic | OtherPublishError string

text \<open>
  The gossip engine: its calls on the hash of a topic and the state it keeps. \<open>go_hash\<close> is the SHA-256
  topic hash.
\<close>

record ('g, 'm, 'p) gossip_ops =
  go_hash :: "string \<Rightarrow> string"
  go_subscribe :: "string \<Rightarrow> 'g \<Rightarrow> (string, bool) result \<times> 'g"
  go_publish :: "string \<Rightarrow> u8 list \<Rightarrow> 'g \<Rightarrow> (publish_error, 'm) result \<times> 'g"
  go_report :: "'m \<Rightarrow> 'p \<Rightarrow> message_acceptance \<Rightarrow> 'g \<Rightarrow> 'g"

record ('p, 'v, 'g) pubsub =
  pb_inner :: 'g
  pb_topics :: "string \<rightharpoonup> ('p, 'v) topic_state"

definition SUBSCRIPTION_TIMEOUT :: nat where
  "SUBSCRIPTION_TIMEOUT = 60 * 1000000000"

definition subscribe ::
  "('g, 'm, 'p) gossip_ops \<Rightarrow> nat \<Rightarrow> 'v \<Rightarrow> string \<Rightarrow> ('p, 'v) msg_validation_config \<Rightarrow>
    ('p, 'v, 'g) pubsub \<Rightarrow> ('p, 'v, 'g) pubsub"
where
  "subscribe ops now v topic_name cfg pb =
    (let topic_hash = go_hash ops topic_name
     in case pb_topics pb topic_hash of
          Some _ \<Rightarrow> pb
        | None \<Rightarrow>
            (case go_subscribe ops topic_hash (pb_inner pb) of
               (Err e, g) \<Rightarrow> pb\<lparr>pb_inner := g\<rparr>
             | (Ok _, g) \<Rightarrow>
                 pb\<lparr>pb_inner := g,
                   pb_topics := (pb_topics pb)(topic_hash \<mapsto> topic_state_new now v topic_name cfg)\<rparr>))"

text \<open>What \<^verbatim>\<open>publish\<close> reports in the log.\<close>

datatype publish_log = Unsubscribed | WaitingForPeers | PublishFailed publish_error | Published

definition publish ::
  "('g, 'm, 'p) gossip_ops \<Rightarrow> nat \<Rightarrow> string \<Rightarrow> u8 list \<Rightarrow> ('p, 'v, 'g) pubsub \<Rightarrow>
    publish_log \<times> ('p, 'v, 'g) pubsub"
where
  "publish ops now topic_name msg pb =
    (let topic_hash = go_hash ops topic_name
     in case pb_topics pb topic_hash of
          None \<Rightarrow> (Unsubscribed, pb)
        | Some topic \<Rightarrow>
            (case go_publish ops topic_hash msg (pb_inner pb) of
               (r, g) \<Rightarrow>
                 ((case r of
                     Err e \<Rightarrow>
                       if e = NoPeersSubscribedToTopic \<and> now - ts_subscribed_at topic \<le> SUBSCRIPTION_TIMEOUT
                       then WaitingForPeers else PublishFailed e
                   | Ok _ \<Rightarrow> Published),
                  pb\<lparr>pb_inner := g\<rparr>)))"

definition validate_gossipsub_msg ::
  "nat \<Rightarrow> u64 \<Rightarrow> 'p gossip_message \<Rightarrow> ('p, 'v, 'g) pubsub \<Rightarrow>
    (validation_error, 'p pubsub_msg) result \<times> ('p, 'v, 'g) pubsub"
where
  "validate_gossipsub_msg now timestamp msg pb =
    (case gm_source msg of
       None \<Rightarrow> (Err (Invalid ''anonymous message''), pb)
     | Some peer_id \<Rightarrow>
         (case gm_sequence_number msg of
            None \<Rightarrow> (Err (Invalid ''message without sequence number''), pb)
          | Some seq_no \<Rightarrow>
              (case pb_topics pb (gm_topic msg) of
                 None \<Rightarrow> (Err (Invalid ''message with unknown topic''), pb)
               | Some ts \<Rightarrow>
                   (case topic_validate_msg now timestamp peer_id seq_no (gm_data msg) ts of
                      (r, ts') \<Rightarrow>
                        (result_map (\<lambda>_. \<lparr>pm_peer_id = peer_id, pm_topic = ts_name ts', pm_data = gm_data msg\<rparr>) r,
                         pb\<lparr>pb_topics := (pb_topics pb)(gm_topic msg \<mapsto> ts')\<rparr>)))))"

text \<open>The message event of the engine; every other event is only logged.\<close>

definition on_message_event ::
  "('g, 'm, 'p) gossip_ops \<Rightarrow> nat \<Rightarrow> u64 \<Rightarrow> 'p gossip_message \<Rightarrow> 'p \<Rightarrow> 'm \<Rightarrow> ('p, 'v, 'g) pubsub \<Rightarrow>
    'p pubsub_msg option \<times> ('p, 'v, 'g) pubsub"
where
  "on_message_event ops now timestamp msg propagation_source message_id pb =
    (case validate_gossipsub_msg now timestamp msg pb of
       (Ok m, pb') \<Rightarrow>
         (Some m, pb'\<lparr>pb_inner := go_report ops message_id propagation_source Accept (pb_inner pb')\<rparr>)
     | (Err e, pb') \<Rightarrow>
         (None, pb'\<lparr>pb_inner := go_report ops message_id propagation_source (acceptance_of_error e) (pb_inner pb')\<rparr>))"

text \<open>The identifier of a message: its source in base 58, followed by its number.\<close>

definition msg_id :: "('p \<Rightarrow> string) \<Rightarrow> string \<Rightarrow> (u64 \<Rightarrow> string) \<Rightarrow> 'p gossip_message \<Rightarrow> string" where
  "msg_id to_base58 anonymous_base58 to_string msg =
    (case gm_source msg of Some p \<Rightarrow> to_base58 p | None \<Rightarrow> anonymous_base58) @
    to_string (case gm_sequence_number msg of Some n \<Rightarrow> n | None \<Rightarrow> 0)"

section \<open>What a topic lets through\<close>

text \<open>A message as it reaches a topic: the two clocks, the peer, the sequence number and the data.\<close>

record 'p arrival =
  ar_now :: nat
  ar_timestamp :: u64
  ar_peer :: 'p
  ar_seq_no :: u64
  ar_data :: "u8 list"

primrec topic_run :: "'p arrival list \<Rightarrow> ('p, 'v) topic_state \<Rightarrow> 'p arrival list" where
  "topic_run [] ts = []"
| "topic_run (a # as) ts =
    (case topic_validate_msg (ar_now a) (ar_timestamp a) (ar_peer a) (ar_seq_no a) (ar_data a) ts of
       (r, ts') \<Rightarrow> (case r of Ok _ \<Rightarrow> a # topic_run as ts' | Err e \<Rightarrow> topic_run as ts'))"

definition in_span :: "'p \<Rightarrow> nat \<Rightarrow> nat \<Rightarrow> 'p arrival \<Rightarrow> bool" where
  "in_span p t len a \<longleftrightarrow> ar_peer a = p \<and> t \<le> ar_now a \<and> ar_now a < t + len"

text \<open>How many messages of a span a peer in a given state can still get through.\<close>

definition span_budget :: "nat \<Rightarrow> nat \<Rightarrow> nat \<Rightarrow> peer_state option \<Rightarrow> nat" where
  "span_budget t len burst st =
    (case st of
       None \<Rightarrow> 2 * burst
     | Some ps \<Rightarrow>
         if ps_last_time ps + len \<le> t then 2 * burst
         else if ps_last_time ps < t then 2 * burst - min (unat (ps_burst ps)) burst
         else if ps_last_time ps < t + len then burst - min (unat (ps_burst ps)) burst
         else 0)"

text \<open>One message of the peer uses at most the budget it takes away.\<close>

lemma unat_burst_Suc: "unat (b :: u32) + 1 < 2 ^ 32 \<Longrightarrow> unat (b + 1) = unat b + 1"
  by (simp add: unat_word_ariths)

text \<open>The state after a message that is not refused outright: still in the window, or a new window.\<close>

definition budget_advance :: "nat \<Rightarrow> nat \<Rightarrow> peer_state \<Rightarrow> peer_state" where
  "budget_advance now len ps =
    (if now - ps_last_time ps < len then ps\<lparr>ps_burst := ps_burst ps + 1\<rparr>
     else ps\<lparr>ps_last_time := now, ps_burst := 1\<rparr>)"

lemma peer_validate_cases:
  assumes "peer_validate_msg now timestamp seq_no cfg ps = (r, ps')"
  obtains (refused) e where "r = Err e" "ps' = ps"
  | (burst) e where "r = Err e" "ps' = budget_advance now (mc_min_interval cfg) ps"
  | (accepted) "r = Ok ()" "ps' = (budget_advance now (mc_min_interval cfg) ps)\<lparr>ps_last_seq_no := max (ps_last_seq_no ps) seq_no\<rparr>"
      "unat (ps_burst ps') \<le> unat (mc_max_burst cfg)"
      "seq_no \<le> timestamp" "ps_last_seq_no ps < seq_no + mc_keep_last cfg"
  using assms unfolding peer_validate_msg_def budget_advance_def Let_def
  by (cases "now - ps_last_time ps < mc_min_interval cfg")
    (auto simp: word_less_nat_alt word_le_nat_alt not_le not_less split: if_splits)

lemma advance_budget:
  assumes "ps_last_time ps \<le> now" "unat (ps_burst ps) + 1 < 2 ^ 32" "1 \<le> burst"
  shows "span_budget t len burst (Some (budget_advance now len ps)) +
      (if unat (ps_burst (budget_advance now len ps)) \<le> burst \<and> t \<le> now \<and> now < t + len then 1 else 0)
    \<le> span_budget t len burst (Some ps)"
proof (cases "now - ps_last_time ps < len")
  case True
  then have "ps_last_time ps \<le> now" "now < ps_last_time ps + len"
    using assms(1) by auto
  then show ?thesis
    using assms(3) True unat_burst_Suc [OF assms(2)]
    by (simp add: budget_advance_def span_budget_def min_def) linarith
next
  case False
  then have "ps_last_time ps + len \<le> now"
    using assms(1) by auto
  then show ?thesis
    using assms(3) False by (simp add: budget_advance_def span_budget_def min_def) linarith
qed

lemma advance_time: "ps_last_time ps \<le> now \<Longrightarrow> ps_last_time (budget_advance now len ps) \<le> now"
  by (simp add: budget_advance_def)

lemma advance_burst:
  "unat (ps_burst ps) + 1 < 2 ^ 32 \<Longrightarrow> unat (ps_burst (budget_advance now len ps)) \<le> unat (ps_burst ps) + 1"
  by (simp add: budget_advance_def unat_burst_Suc)

lemma span_budget_seq_no [simp]:
  "span_budget t len burst (Some (ps\<lparr>ps_last_seq_no := n\<rparr>)) = span_budget t len burst (Some ps)"
  by (simp add: span_budget_def)

definition counts :: "'p \<Rightarrow> nat \<Rightarrow> nat \<Rightarrow> (validation_error, unit) result \<Rightarrow> 'p \<Rightarrow> nat \<Rightarrow> nat" where
  "counts p t len r q now = (if r = Ok () \<and> q = p \<and> t \<le> now \<and> now < t + len then 1 else 0)"

lemma peer_budget_step:
  assumes "peer_validate_msg now timestamp seq_no cfg ps = (r, ps')"
    and "ps_last_time ps \<le> now" "unat (ps_burst ps) + 1 < 2 ^ 32" "1 \<le> unat (mc_max_burst cfg)"
  shows "span_budget t (mc_min_interval cfg) (unat (mc_max_burst cfg)) (Some ps') +
      counts p t (mc_min_interval cfg) r p now
    \<le> span_budget t (mc_min_interval cfg) (unat (mc_max_burst cfg)) (Some ps)"
    and "ps_last_time ps' \<le> now" "unat (ps_burst ps') \<le> unat (ps_burst ps) + 1"
  using assms(1)
  by (cases rule: peer_validate_cases,
      use advance_budget [OF assms(2-4), of t "mc_min_interval cfg"] advance_time [OF assms(2)]
        advance_burst [OF assms(3)] assms(2) in \<open>auto simp: counts_def split: if_splits\<close>)+

text \<open>Ready for a peer: its window is in the past and its counter is far from wrapping.\<close>

definition peer_ready :: "nat \<Rightarrow> nat \<Rightarrow> peer_state option \<Rightarrow> bool" where
  "peer_ready now left st \<longleftrightarrow>
    (case st of None \<Rightarrow> True | Some ps \<Rightarrow> ps_last_time ps \<le> now \<and> unat (ps_burst ps) + left < 2 ^ 32)"

lemma peer_new_budget:
  "1 \<le> burst \<Longrightarrow> span_budget t len burst (Some (peer_state_new now seq_no)) +
    (if t \<le> now \<and> now < t + len then 1 else 0) \<le> span_budget t len burst None"
  by (auto simp: span_budget_def peer_state_new_def)

lemma topic_budget_step:
  assumes "topic_validate_msg now timestamp q seq_no msg ts = (r, ts')"
    and "ts_validation_config ts = cfg" "1 \<le> unat (mc_max_burst cfg)"
    and "peer_ready now (Suc left) (ts_peer_states ts p)" "Suc left < 2 ^ 32 - 1"
  shows "span_budget t (mc_min_interval cfg) (unat (mc_max_burst cfg)) (ts_peer_states ts' p) +
      counts p t (mc_min_interval cfg) r q now
    \<le> span_budget t (mc_min_interval cfg) (unat (mc_max_burst cfg)) (ts_peer_states ts p)
    \<and> ts_validation_config ts' = cfg \<and> peer_ready now left (ts_peer_states ts' p)"
proof -
  obtain r0 v where validator: "mc_msg_validator cfg (ts_validator ts) q seq_no msg = (r0, v)"
    by fastforce
  show ?thesis
  proof (cases r0)
    case (Err e)
    then show ?thesis
      using assms validator
      by (auto simp: topic_validate_msg_def counts_def peer_ready_def split: option.splits)
  next
    case ok: (Ok u)
    show ?thesis
    proof (cases "ts_peer_states ts q")
      case None
      then have state: "ts' = ts\<lparr>ts_validator := v,
          ts_peer_states := (ts_peer_states ts)(q \<mapsto> peer_state_new now seq_no)\<rparr>" "r = Ok ()"
        using assms(1,2) validator ok by (auto simp: topic_validate_msg_def)
      then show ?thesis
        using assms(2-) None peer_new_budget [OF assms(3), of t "mc_min_interval cfg" now seq_no]
        by (auto simp: counts_def peer_ready_def peer_state_new_def split: option.splits)
    next
      case (Some ps)
      obtain ps' where step: "peer_validate_msg now timestamp seq_no cfg ps = (r, ps')"
        and state: "ts' = ts\<lparr>ts_validator := v, ts_peer_states := (ts_peer_states ts)(q \<mapsto> ps')\<rparr>"
        using assms(1,2) validator ok Some by (auto simp: topic_validate_msg_def split: prod.splits)
      show ?thesis
      proof (cases "q = p")
        case True
        then have ready: "ps_last_time ps \<le> now" "unat (ps_burst ps) + Suc left < 2 ^ 32"
          using assms(4) Some by (simp_all add: peer_ready_def)
        then have "unat (ps_burst ps) + 1 < 2 ^ 32"
          by simp
        note peer = peer_budget_step(1) [OF step ready(1) this assms(3), of t p]
          peer_budget_step(2,3) [OF step ready(1) this assms(3)]
        show ?thesis
          using peer ready True Some state assms(2) by (simp add: peer_ready_def)
      next
        case False
        then show ?thesis
          using state assms(2,4) by (auto simp: counts_def peer_ready_def split: option.splits)
      qed
    qed
  qed
qed

lemma peer_ready_later: "peer_ready now left st \<Longrightarrow> now \<le> later \<Longrightarrow> peer_ready later left st"
  by (auto simp: peer_ready_def split: option.splits)

lemma topic_run_span:
  assumes "sorted (map ar_now as)" "length as < 2 ^ 32 - 1"
    and "ts_validation_config ts = cfg" "1 \<le> unat (mc_max_burst cfg)"
    and "\<And>a. a \<in> set as \<Longrightarrow> peer_ready (ar_now a) (length as) (ts_peer_states ts p)"
  shows "length (filter (in_span p t (mc_min_interval cfg)) (topic_run as ts))
    \<le> span_budget t (mc_min_interval cfg) (unat (mc_max_burst cfg)) (ts_peer_states ts p)"
  using assms
proof (induction as arbitrary: ts)
  case (Cons a as)
  obtain r ts' where step: "topic_validate_msg (ar_now a) (ar_timestamp a) (ar_peer a) (ar_seq_no a) (ar_data a) ts = (r, ts')"
    by fastforce
  have ready: "peer_ready (ar_now a) (Suc (length as)) (ts_peer_states ts p)" and small: "Suc (length as) < 2 ^ 32 - 1"
    using Cons.prems(2,5) by simp_all
  note next_state = topic_budget_step [OF step Cons.prems(3,4) ready small, where t = t]
  have "length (filter (in_span p t (mc_min_interval cfg)) (topic_run as ts'))
      \<le> span_budget t (mc_min_interval cfg) (unat (mc_max_burst cfg)) (ts_peer_states ts' p)"
  proof (rule Cons.IH)
    show "peer_ready (ar_now b) (length as) (ts_peer_states ts' p)" if "b \<in> set as" for b
      using next_state that Cons.prems(1) by (auto intro: peer_ready_later)
  qed (use Cons.prems next_state in simp_all)
  then show ?case
    using conjunct1 [OF next_state] step by (cases r) (auto simp: in_span_def [of p t _ a] counts_def split: if_splits)
qed simp

section \<open>Order of sequence numbers\<close>

definition not_behind :: "u64 \<Rightarrow> u64 \<Rightarrow> u64 \<Rightarrow> bool" where
  "not_behind keep_last earlier later \<longleftrightarrow> unat earlier < unat later + unat keep_last"

lemma not_behind_max:
  "not_behind k (max a b) c \<Longrightarrow> not_behind k a c \<and> not_behind k b c"
  by (auto simp: not_behind_def max_def word_le_nat_alt split: if_splits)

lemma peer_validate_order:
  assumes "peer_validate_msg now timestamp seq_no cfg ps = (r, ps')"
    and "unat timestamp + unat (mc_keep_last cfg) \<le> U64_MAX"
  shows "r = Ok () \<Longrightarrow> not_behind (mc_keep_last cfg) (ps_last_seq_no ps) seq_no
      \<and> ps_last_seq_no ps' = max (ps_last_seq_no ps) seq_no"
    and "r \<noteq> Ok () \<Longrightarrow> ps_last_seq_no ps' = ps_last_seq_no ps"
proof -
  have kept: "ps_last_seq_no (budget_advance now len ps) = ps_last_seq_no ps" for len
    by (simp add: budget_advance_def)
  have small: "unat seq_no + unat (mc_keep_last cfg) < 2 ^ LENGTH(64)" if "seq_no \<le> timestamp"
    using that assms(2) by (simp add: word_le_nat_alt)
  show "r = Ok () \<Longrightarrow> not_behind (mc_keep_last cfg) (ps_last_seq_no ps) seq_no
      \<and> ps_last_seq_no ps' = max (ps_last_seq_no ps) seq_no"
    using assms(1)
  proof (cases rule: peer_validate_cases)
    case accepted
    then show ?thesis
      using small by (simp add: not_behind_def word_less_nat_alt unat_add_lem [THEN iffD1])
  qed simp_all
  show "r \<noteq> Ok () \<Longrightarrow> ps_last_seq_no ps' = ps_last_seq_no ps"
    using assms(1) by (cases rule: peer_validate_cases) (simp_all add: kept)
qed

definition accepted_from :: "'p \<Rightarrow> 'p arrival list \<Rightarrow> ('p, 'v) topic_state \<Rightarrow> 'p arrival list" where
  "accepted_from p as ts = filter (\<lambda>a. ar_peer a = p) (topic_run as ts)"

definition after_last :: "u64 \<Rightarrow> peer_state option \<Rightarrow> 'p arrival \<Rightarrow> bool" where
  "after_last k st a \<longleftrightarrow> (case st of None \<Rightarrow> True | Some ps \<Rightarrow> not_behind k (ps_last_seq_no ps) (ar_seq_no a))"

text \<open>What one message does to the last number of a peer.\<close>

lemma topic_order_step:
  assumes "topic_validate_msg now timestamp q seq_no msg ts = (r, ts')"
    and "ts_validation_config ts = cfg" "unat timestamp + unat (mc_keep_last cfg) \<le> U64_MAX"
  shows "ts_validation_config ts' = cfg"
    and "r = Ok () \<and> q = p \<Longrightarrow> (\<exists>ps'. ts_peer_states ts' p = Some ps' \<and>
      (case ts_peer_states ts p of None \<Rightarrow> ps_last_seq_no ps' = seq_no
       | Some ps \<Rightarrow> not_behind (mc_keep_last cfg) (ps_last_seq_no ps) seq_no
           \<and> ps_last_seq_no ps' = max (ps_last_seq_no ps) seq_no))"
    and "\<not> (r = Ok () \<and> q = p) \<Longrightarrow>
      map_option ps_last_seq_no (ts_peer_states ts' p) = map_option ps_last_seq_no (ts_peer_states ts p)"
proof -
  obtain r0 v where validator: "mc_msg_validator cfg (ts_validator ts) q seq_no msg = (r0, v)"
    by fastforce
  consider (rejected) e where "r = Err e" "ts' = ts\<lparr>ts_validator := v\<rparr>"
    | (first) "ts_peer_states ts q = None" "r = Ok ()"
        "ts' = ts\<lparr>ts_validator := v, ts_peer_states := (ts_peer_states ts)(q \<mapsto> peer_state_new now seq_no)\<rparr>"
    | (later) ps ps' where "ts_peer_states ts q = Some ps" "peer_validate_msg now timestamp seq_no cfg ps = (r, ps')"
        "ts' = ts\<lparr>ts_validator := v, ts_peer_states := (ts_peer_states ts)(q \<mapsto> ps')\<rparr>"
    using assms(1,2) validator
    by (auto simp: topic_validate_msg_def split: result.splits option.splits prod.splits)
  note cases = this
  show "ts_validation_config ts' = cfg"
    using assms(2) by (cases rule: cases) simp_all
  show "r = Ok () \<and> q = p \<Longrightarrow> (\<exists>ps'. ts_peer_states ts' p = Some ps' \<and>
      (case ts_peer_states ts p of None \<Rightarrow> ps_last_seq_no ps' = seq_no
       | Some ps \<Rightarrow> not_behind (mc_keep_last cfg) (ps_last_seq_no ps) seq_no
           \<and> ps_last_seq_no ps' = max (ps_last_seq_no ps) seq_no))"
    using peer_validate_order(1) [OF _ assms(3)]
    by (cases rule: cases) (auto simp: peer_state_new_def)
  show "\<not> (r = Ok () \<and> q = p) \<Longrightarrow>
      map_option ps_last_seq_no (ts_peer_states ts' p) = map_option ps_last_seq_no (ts_peer_states ts p)"
    using peer_validate_order(2) [OF _ assms(3)] by (cases rule: cases) auto
qed

lemma topic_run_order:
  assumes "ts_validation_config ts = cfg"
    and "\<And>a. a \<in> set as \<Longrightarrow> unat (ar_timestamp a) + unat (mc_keep_last cfg) \<le> U64_MAX"
  shows "sorted_wrt (\<lambda>a b. not_behind (mc_keep_last cfg) (ar_seq_no a) (ar_seq_no b)) (accepted_from p as ts)
    \<and> list_all (after_last (mc_keep_last cfg) (ts_peer_states ts p)) (accepted_from p as ts)"
  using assms
proof (induction as arbitrary: ts)
  case Nil
  then show ?case
    by (simp add: accepted_from_def)
next
  case (Cons a as)
  obtain r ts' where step: "topic_validate_msg (ar_now a) (ar_timestamp a) (ar_peer a) (ar_seq_no a) (ar_data a) ts = (r, ts')"
    by fastforce
  have bound: "unat (ar_timestamp a) + unat (mc_keep_last cfg) \<le> U64_MAX"
    using Cons.prems(2) by simp
  note order = topic_order_step(1) [OF step Cons.prems(1) bound]
    topic_order_step(2,3) [OF step Cons.prems(1) bound, of p]
  have rest: "sorted_wrt (\<lambda>a b. not_behind (mc_keep_last cfg) (ar_seq_no a) (ar_seq_no b)) (accepted_from p as ts')
    \<and> list_all (after_last (mc_keep_last cfg) (ts_peer_states ts' p)) (accepted_from p as ts')"
    using Cons.IH [OF order(1)] Cons.prems(2) by simp
  show ?case
  proof (cases "r = Ok () \<and> ar_peer a = p")
    case True
    then obtain ps' where ps': "ts_peer_states ts' p = Some ps'"
      and last: "case ts_peer_states ts p of None \<Rightarrow> ps_last_seq_no ps' = ar_seq_no a
        | Some ps \<Rightarrow> not_behind (mc_keep_last cfg) (ps_last_seq_no ps) (ar_seq_no a)
            \<and> ps_last_seq_no ps' = max (ps_last_seq_no ps) (ar_seq_no a)"
      using order(2) by blast
    have "accepted_from p (a # as) ts = a # accepted_from p as ts'"
      using step True by (simp add: accepted_from_def)
    moreover have "not_behind (mc_keep_last cfg) (ar_seq_no a) (ar_seq_no b)
        \<and> after_last (mc_keep_last cfg) (ts_peer_states ts p) b" if "b \<in> set (accepted_from p as ts')" for b
      using that rest ps' last
      by (auto simp: list_all_iff after_last_def split: option.splits dest: not_behind_max)
    ultimately show ?thesis
      using rest last by (auto simp: list_all_iff after_last_def split: option.splits)
  next
    case False
    then have "accepted_from p (a # as) ts = accepted_from p as ts'"
      using step by (cases r) (auto simp: accepted_from_def)
    moreover have "after_last (mc_keep_last cfg) (ts_peer_states ts' p) b
        = after_last (mc_keep_last cfg) (ts_peer_states ts p) b" for b :: "'a arrival"
      using order(3) [OF False] by (auto simp: after_last_def split: option.splits)
    ultimately show ?thesis
      using rest by (simp add: list_all_iff)
  qed
qed

text \<open>
  C19: What a fresh topic lets through from one peer, whatever the other peers send: in any span of the
  minimal interval at most twice the burst, and numbers that never fall behind an earlier accepted one by
  \<^verbatim>\<open>keep_last\<close> or more (so with the default of zero they increase and nothing is accepted twice). Arrivals come
  in the order of the clock, fewer than 32 bits count, and the numbers do not reach the end of 64 bits.
\<close>

theorem topic_admission:
  assumes "sorted (map ar_now as)" "length as < 2 ^ 32 - 1" "1 \<le> unat (mc_max_burst cfg)"
    and "\<And>a. a \<in> set as \<Longrightarrow> unat (ar_timestamp a) + unat (mc_keep_last cfg) \<le> U64_MAX"
  shows "length (filter (in_span p t (mc_min_interval cfg)) (topic_run as (topic_state_new now v name cfg)))
      \<le> 2 * unat (mc_max_burst cfg)
    \<and> sorted_wrt (\<lambda>a b. unat (ar_seq_no a) < unat (ar_seq_no b) + unat (mc_keep_last cfg))
        (filter (\<lambda>a. ar_peer a = p) (topic_run as (topic_state_new now v name cfg)))"
proof -
  let ?ts = "topic_state_new now v name cfg"
  have fresh: "ts_validation_config ?ts = cfg" "ts_peer_states ?ts p = None"
    by (simp_all add: topic_state_new_def)
  then show ?thesis
    using topic_run_span [OF assms(1,2) fresh(1) assms(3), of p t]
      topic_run_order [OF fresh(1) assms(4), of as p]
    by (simp add: peer_ready_def span_budget_def not_behind_def accepted_from_def)
qed

definition sample_arrival :: "nat \<Rightarrow> u64 \<Rightarrow> nat arrival" where
  "sample_arrival now seq_no = \<lparr>ar_now = now, ar_timestamp = 100, ar_peer = 7, ar_seq_no = seq_no, ar_data = []\<rparr>"

definition sample_arrivals :: "nat arrival list" where
  "sample_arrivals = [sample_arrival 0 1, sample_arrival 5 2, sample_arrival 10 2, sample_arrival 20 3]"

lemma sample_run:
  "topic_run sample_arrivals (topic_state_new 0 () ''t'' (config_new 10)) =
    [sample_arrival 0 1, sample_arrival 10 2, sample_arrival 20 3]"
  by code_simp

lemma topic_admission_witness:
  "length (filter (in_span 7 5 10) (topic_run sample_arrivals (topic_state_new 0 () ''t'' (config_new 10)))) \<le> 2
   \<and> map ar_seq_no (topic_run sample_arrivals (topic_state_new 0 () ''t'' (config_new 10))) = [1, 2, 3]"
proof -
  have "length (filter (in_span 7 5 (mc_min_interval (config_new 10 :: (nat, unit) msg_validation_config)))
      (topic_run sample_arrivals (topic_state_new 0 () ''t'' (config_new 10))))
    \<le> 2 * unat (mc_max_burst (config_new 10 :: (nat, unit) msg_validation_config))"
    by (rule conjunct1 [OF topic_admission])
      (auto simp: sample_arrivals_def sample_arrival_def config_new_def)
  then show ?thesis
    by (simp add: config_new_def sample_run [unfolded config_new_def]) (simp add: sample_arrival_def)
qed

section \<open>Findings\<close>

text \<open>
  The first message of a peer is accepted with any sequence number, also one from the future, although
  numbers from the future are otherwise invalid; after it every later message of the peer is old.
\<close>

lemma first_message_unchecked:
  assumes "mc_msg_validator (ts_validation_config ts) (ts_validator ts) p seq_no msg = (Ok (), v)"
    and "ts_peer_states ts p = None"
  shows "fst (topic_validate_msg now timestamp p seq_no msg ts) = Ok ()"
  using assms by (simp add: topic_validate_msg_def)

end
