(* ===== verification/Stream_Exchange.thy ===== *)
theory Stream_Exchange
  imports Prelude
begin

text \<open>
  Requests and responses over a stream: \<^verbatim>\<open>crates/transport/src/behaviour/stream_server.rs\<close> and
  \<^verbatim>\<open>stream_client.rs\<close>, the size-limited protobuf codec (\<^verbatim>\<open>codec.rs\<close>) and the bounded queues of
  \<^verbatim>\<open>util/queue.rs\<close>. A stream that is read is the bytes the remote writes before it closes or the stream
  fails, and the time that takes; times are in milliseconds. Opening a stream is a parameter, the outcome
  of the request to the swarm.
\<close>

section \<open>Bounded queues\<close>

record 'a channel =
  ch_items :: "'a list"
  ch_capacity :: nat
  ch_closed :: bool

datatype send_error = ChannelFull | ChannelClosed

definition channel_try_send :: "'a \<Rightarrow> 'a channel \<Rightarrow> (send_error, unit) result \<times> 'a channel" where
  "channel_try_send msg ch =
    (if ch_closed ch then (Err ChannelClosed, ch)
     else if length (ch_items ch) < ch_capacity ch then (Ok (), ch\<lparr>ch_items := ch_items ch @ [msg]\<rparr>)
     else (Err ChannelFull, ch))"

datatype queue_full = QueueFull

definition new_queue :: "nat \<Rightarrow> 'a channel" where
  "new_queue capacity = \<lparr>ch_items = [], ch_capacity = capacity, ch_closed = False\<rparr>"

definition queue_try_send :: "'a \<Rightarrow> 'a channel \<Rightarrow> (queue_full, unit) result \<times> 'a channel" where
  "queue_try_send msg q =
    (case channel_try_send msg q of (Ok _, q') \<Rightarrow> (Ok (), q') | (Err e, q') \<Rightarrow> (Err QueueFull, q'))"

definition queue_send_lossy :: "'a \<Rightarrow> 'a channel \<Rightarrow> 'a channel" where
  "queue_send_lossy msg q = snd (queue_try_send msg q)"

definition queue_recv :: "'a channel \<Rightarrow> 'a option \<times> 'a channel" where
  "queue_recv q = (case ch_items q of [] \<Rightarrow> (None, q) | x # xs \<Rightarrow> (Some x, q\<lparr>ch_items := xs\<rparr>))"

section \<open>Streams\<close>

record in_stream =
  is_data :: "u8 list"
  is_fault :: "string option"
  is_time :: nat

text \<open>\<^verbatim>\<open>take(limit).read_to_end\<close>: it stops at the limit, before anything that follows.\<close>

definition read_limited :: "u64 \<Rightarrow> in_stream \<Rightarrow> (string, u8 list) result" where
  "read_limited limit s =
    (if unat limit \<le> length (is_data s) then Ok (take (unat limit) (is_data s))
     else case is_fault s of Some e \<Rightarrow> Err e | None \<Rightarrow> Ok (is_data s))"

text \<open>\<^verbatim>\<open>tokio::time::timeout\<close>: \<^const>\<open>None\<close> when the time is over.\<close>

definition timeout :: "nat \<Rightarrow> nat \<Rightarrow> 'a \<Rightarrow> 'a option" where
  "timeout limit time v = (if time \<le> limit then Some v else None)"

text \<open>Writing all bytes and closing: it may fail, and takes time.\<close>

record out_stream =
  os_fault :: "string option"
  os_time :: nat

section \<open>The server\<close>

record server_config =
  sv_max_request_size :: u64
  sv_max_response_size :: u64
  sv_read_timeout :: nat
  sv_write_timeout :: nat
  sv_incoming_capacity :: nat
  sv_requests_queue_size :: nat

definition server_config_default :: server_config where
  "server_config_default = \<lparr>sv_max_request_size = 1024, sv_max_response_size = 1024, sv_read_timeout = 10000,
    sv_write_timeout = 60000, sv_incoming_capacity = 128, sv_requests_queue_size = 128\<rparr>"

datatype response_error = ResponseTimeout | ResponseTooLarge | ResponseIo string

record response_sender =
  rs_max_response_size :: u64
  rs_write_timeout :: nat

definition response_send :: "response_sender \<Rightarrow> u8 list \<Rightarrow> out_stream \<Rightarrow> (response_error, unit) result" where
  "response_send rs data out =
    (if length data > unat (rs_max_response_size rs) then Err ResponseTooLarge
     else
       case timeout (rs_write_timeout rs) (os_time out)
           (case os_fault out of Some e \<Rightarrow> Err (ResponseIo e) | None \<Rightarrow> Ok ()) of
         Some r \<Rightarrow> r
       | None \<Rightarrow> Err ResponseTimeout)"

record 'p request =
  rq_peer_id :: 'p
  rq_request :: "u8 list"
  rq_response_sender :: response_sender

definition read_request ::
  "server_config \<Rightarrow> 'p \<Rightarrow> in_stream \<Rightarrow> 'p request channel \<Rightarrow> 'p request channel" where
  "read_request cfg peer s requests =
    (case timeout (sv_read_timeout cfg) (is_time s) (read_limited (sv_max_request_size cfg + 1) s) of
       None \<Rightarrow> requests
     | Some (Err e) \<Rightarrow> requests
     | Some (Ok buf) \<Rightarrow>
         if length buf > unat (sv_max_request_size cfg) then requests
         else
           snd (channel_try_send
             \<lparr>rq_peer_id = peer, rq_request = buf,
              rq_response_sender = \<lparr>rs_max_response_size = sv_max_response_size cfg,
                rs_write_timeout = sv_write_timeout cfg\<rparr>\<rparr> requests))"

text \<open>
  One poll of the server: all waiting streams are handed to their reading tasks, then one parsed request is
  taken. The tasks run concurrently; here each is complete when its stream is handed over.
\<close>

definition server_poll ::
  "server_config \<Rightarrow> ('p \<times> in_stream) list \<Rightarrow> 'p request channel \<Rightarrow> 'p request option \<times> 'p request channel" where
  "server_poll cfg incoming requests =
    queue_recv (fold (\<lambda>(peer, s). read_request cfg peer s) incoming requests)"

section \<open>The client\<close>

record client_config =
  cf_max_concurrent_streams :: "nat option"
  cf_max_response_size :: u64
  cf_connect_timeout :: nat
  cf_request_timeout :: nat

definition client_config_default :: client_config where
  "client_config_default = \<lparr>cf_max_concurrent_streams = Some 3, cf_max_response_size = 1024,
    cf_connect_timeout = 10000, cf_request_timeout = 60000\<rparr>"

datatype timeout_kind = Connect | Request

datatype request_error = Timeout timeout_kind | UnsupportedProtocol | ClientResponseTooLarge | Io string

datatype open_stream_error = OpenUnsupportedProtocol string | OpenIo string

definition request_error_of_open :: "open_stream_error \<Rightarrow> request_error" where
  "request_error_of_open e =
    (case e of OpenUnsupportedProtocol p \<Rightarrow> UnsupportedProtocol | OpenIo io \<Rightarrow> Io io)"

fun request_error_display :: "request_error \<Rightarrow> string" where
  "request_error_display (Timeout Connect) = ''connect timeout''"
| "request_error_display (Timeout Request) = ''request timeout''"
| "request_error_display UnsupportedProtocol = ''the remote supports none of the requested protocols''"
| "request_error_display ClientResponseTooLarge = ''response too large''"
| "request_error_display (Io e) = e"

text \<open>A handle: its configuration and, per peer, the permits its semaphore has left.\<close>

record 'p stream_client =
  sc_config :: client_config
  sc_semaphores :: "'p \<rightharpoonup> nat"

definition client_new :: "client_config \<Rightarrow> 'p stream_client" where
  "client_new cfg = \<lparr>sc_config = cfg, sc_semaphores = Map.empty\<rparr>"

definition client_clone :: "'p stream_client \<Rightarrow> 'p stream_client" where
  "client_clone h = client_new (sc_config h)"

text \<open>
  Opening a stream: the permit is waited for within the timeout, so without a free one the attempt times
  out. A stream that was opened holds its permit until it is dropped.
\<close>

definition get_raw_stream ::
  "'p \<Rightarrow> (open_stream_error, unit) result \<Rightarrow> nat \<Rightarrow> 'p stream_client \<Rightarrow>
    (request_error, unit) result \<times> 'p stream_client"
where
  "get_raw_stream peer opened time h =
    (let sem = (case cf_max_concurrent_streams (sc_config h) of
                  Some limit \<Rightarrow> Some (case sc_semaphores h peer of Some n \<Rightarrow> n | None \<Rightarrow> limit)
                | None \<Rightarrow> None);
         with_permits = (\<lambda>n. h\<lparr>sc_semaphores := (sc_semaphores h)(peer \<mapsto> n)\<rparr>);
         kept = (case sem of Some n \<Rightarrow> with_permits n | None \<Rightarrow> h)
     in if sem = Some 0 then (Err (Timeout Connect), kept)
        else
          case timeout (cf_connect_timeout (sc_config h)) time opened of
            None \<Rightarrow> (Err (Timeout Connect), kept)
          | Some (Err e) \<Rightarrow> (Err (request_error_of_open e), kept)
          | Some (Ok _) \<Rightarrow> (Ok (), (case sem of Some n \<Rightarrow> with_permits (n - 1) | None \<Rightarrow> h)))"

definition drop_stream :: "'p \<Rightarrow> 'p stream_client \<Rightarrow> 'p stream_client" where
  "drop_stream peer h =
    (case sc_semaphores h peer of
       Some n \<Rightarrow> h\<lparr>sc_semaphores := (sc_semaphores h)(peer \<mapsto> n + 1)\<rparr>
     | None \<Rightarrow> h)"

text \<open>What happens on the wire in one exchange, given the bytes that are sent.\<close>

record exchange =
  ex_open :: "(open_stream_error, unit) result"
  ex_connect_time :: nat
  ex_write_fault :: "string option"
  ex_response :: in_stream
  ex_time :: nat

definition request_response ::
  "('p \<Rightarrow> u8 list \<Rightarrow> exchange) \<Rightarrow> 'p \<Rightarrow> u8 list \<Rightarrow> 'p stream_client \<Rightarrow>
    (request_error, u8 list) result \<times> 'p stream_client"
where
  "request_response net peer req h =
    (let ex = net peer req in
     case get_raw_stream peer (ex_open ex) (ex_connect_time ex) h of
       (Err e, h') \<Rightarrow>
         ((case timeout (cf_request_timeout (sc_config h)) (ex_time ex) (Err e) of
             Some r \<Rightarrow> r | None \<Rightarrow> Err (Timeout Request)), h')
     | (Ok _, h') \<Rightarrow>
         ((case timeout (cf_request_timeout (sc_config h)) (ex_time ex)
               (case ex_write_fault ex of
                  Some e \<Rightarrow> Err (Io e)
                | None \<Rightarrow>
                    (case read_limited (cf_max_response_size (sc_config h) + 1) (ex_response ex) of
                       Err e \<Rightarrow> Err (Io e)
                     | Ok buf \<Rightarrow>
                         if length buf > unat (cf_max_response_size (sc_config h))
                         then Err ClientResponseTooLarge else Ok buf)) of
             Some r \<Rightarrow> r
           | None \<Rightarrow> Err (Timeout Request)),
          drop_stream peer h'))"

section \<open>The protobuf codec\<close>

record ('req, 'res) proto_codec =
  pq_max_req_size :: u64
  pq_max_res_size :: u64
  pq_encode_req :: "'req \<Rightarrow> u8 list"
  pq_decode_req :: "u8 list \<Rightarrow> (string, 'req) result"
  pq_encode_res :: "'res \<Rightarrow> u8 list"
  pq_decode_res :: "u8 list \<Rightarrow> (string, 'res) result"

definition codec_read_request :: "('req, 'res) proto_codec \<Rightarrow> in_stream \<Rightarrow> (string, 'req) result" where
  "codec_read_request c io =
    (case read_limited (pq_max_req_size c + 1) io of
       Err e \<Rightarrow> Err e
     | Ok buf \<Rightarrow>
         if length buf > unat (pq_max_req_size c) then Err ''Request too large to read''
         else pq_decode_req c buf)"

definition codec_read_response :: "('req, 'res) proto_codec \<Rightarrow> in_stream \<Rightarrow> (string, 'res) result" where
  "codec_read_response c io =
    (case read_limited (pq_max_res_size c + 1) io of
       Err e \<Rightarrow> Err e
     | Ok buf \<Rightarrow>
         if length buf > unat (pq_max_res_size c) then Err ''Response too large to read''
         else pq_decode_res c buf)"

definition codec_write_request :: "('req, 'res) proto_codec \<Rightarrow> 'req \<Rightarrow> (string, u8 list) result" where
  "codec_write_request c req =
    (if length (pq_encode_req c req) > unat (pq_max_req_size c) then Err ''Request too large to write''
     else Ok (pq_encode_req c req))"

definition codec_write_response :: "('req, 'res) proto_codec \<Rightarrow> 'res \<Rightarrow> (string, u8 list) result" where
  "codec_write_response c res =
    (if length (pq_encode_res c res) > unat (pq_max_res_size c) then Err ''Response too large to write''
     else Ok (pq_encode_res c res))"

section \<open>Nothing is truncated\<close>

lemma unat_limit_Suc: "unat (m :: u64) < U64_MAX \<Longrightarrow> unat (m + 1) = unat m + 1"
  by (simp add: unat_word_ariths)

text \<open>Reading one byte past the limit tells a message that fits from one that does not.\<close>

lemma read_limited_exact:
  assumes "unat m < U64_MAX" "length (is_data s) \<le> unat m" "is_fault s = None"
  shows "read_limited (m + 1) s = Ok (is_data s)"
  using assms by (simp add: read_limited_def unat_limit_Suc)

lemma read_limited_too_large:
  assumes "unat m < U64_MAX" "unat m < length (is_data s)"
  shows "\<exists>buf. read_limited (m + 1) s = Ok buf \<and> length buf = unat m + 1"
  using assms by (simp add: read_limited_def unat_limit_Suc)

lemma codec_request_roundtrip:
  assumes "codec_write_request c req = Ok bytes" "unat (pq_max_req_size c) < U64_MAX"
    and "pq_decode_req c (pq_encode_req c req) = Ok req"
  shows "codec_read_request c \<lparr>is_data = bytes, is_fault = None, is_time = t\<rparr> = Ok req"
proof -
  have "bytes = pq_encode_req c req" "length bytes \<le> unat (pq_max_req_size c)"
    using assms(1) by (auto simp: codec_write_request_def split: if_splits)
  then show ?thesis
    using assms(2,3) read_limited_exact [of "pq_max_req_size c" "\<lparr>is_data = bytes, is_fault = None, is_time = t\<rparr>"]
    by (simp add: codec_read_request_def)
qed

section \<open>Permits\<close>

text \<open>Through one handle no peer has more streams open than configured.\<close>

definition permits_left :: "nat \<Rightarrow> 'p stream_client \<Rightarrow> 'p \<Rightarrow> nat" where
  "permits_left limit h peer = (case sc_semaphores h peer of Some n \<Rightarrow> n | None \<Rightarrow> limit)"

definition permits_ok :: "('p \<Rightarrow> nat) \<Rightarrow> 'p stream_client \<Rightarrow> bool" where
  "permits_ok opened h \<longleftrightarrow>
    (\<forall>limit peer. cf_max_concurrent_streams (sc_config h) = Some limit \<longrightarrow>
      permits_left limit h peer + opened peer = limit)"

lemma permits_new: "permits_ok (\<lambda>_. 0) (client_new cfg)"
  by (simp add: permits_ok_def permits_left_def client_new_def)

lemma get_raw_stream_permits:
  assumes "get_raw_stream peer result time h = (r, h')"
  shows "sc_config h' = sc_config h"
    and "cf_max_concurrent_streams (sc_config h) = Some limit \<Longrightarrow>
      permits_left limit h' p = (if is_ok r \<and> p = peer then permits_left limit h p - 1 else permits_left limit h p)
      \<and> (is_ok r \<longrightarrow> 0 < permits_left limit h peer)"
  using assms
  by (auto simp: get_raw_stream_def permits_left_def Let_def split: option.splits result.splits if_splits)

lemma permits_open:
  assumes "permits_ok opened h" "get_raw_stream peer result time h = (r, h')"
  shows "permits_ok (if is_ok r then opened(peer := opened peer + 1) else opened) h'"
  unfolding permits_ok_def
proof (intro allI impI)
  fix limit p
  assume "cf_max_concurrent_streams (sc_config h') = Some limit"
  then have limit: "cf_max_concurrent_streams (sc_config h) = Some limit"
    using get_raw_stream_permits(1) [OF assms(2)] by simp
  note step = get_raw_stream_permits(2) [OF assms(2) limit, of p]
  have "permits_left limit h p + opened p = limit"
    using assms(1) limit by (simp add: permits_ok_def)
  then show "permits_left limit h' p + (if is_ok r then opened(peer := opened peer + 1) else opened) p = limit"
    using step by auto
qed

lemma permits_drop:
  assumes "permits_ok opened h" "0 < opened peer"
  shows "permits_ok (opened(peer := opened peer - 1)) (drop_stream peer h)"
  unfolding permits_ok_def
proof (intro allI impI)
  fix limit p
  have config: "sc_config (drop_stream peer h) = sc_config h"
    by (simp add: drop_stream_def split: option.splits)
  assume "cf_max_concurrent_streams (sc_config (drop_stream peer h)) = Some limit"
  then have "permits_left limit h q + opened q = limit" for q
    using assms(1) config by (simp add: permits_ok_def)
  from this [of p] this [of peer] assms(2)
  show "permits_left limit (drop_stream peer h) p + (opened(peer := opened peer - 1)) p = limit"
    by (auto simp: permits_left_def drop_stream_def split: option.splits)
qed

lemma permits_bound:
  assumes "permits_ok opened h" "cf_max_concurrent_streams (sc_config h) = Some limit"
  shows "opened peer \<le> limit"
  using assms by (metis le_add2 permits_ok_def)

end
