(* ===== verification/Address_Cache.thy ===== *)
theory Address_Cache
  imports Prelude
begin

text \<open>
  Reachable addresses and the address cache: \<^verbatim>\<open>crates/transport/src/util.rs\<close> (\<^verbatim>\<open>addr_is_reachable\<close>,
  \<^verbatim>\<open>parse_env_var\<close>) and \<^verbatim>\<open>behaviour/addr_cache.rs\<close>. A multiaddress is opaque but for its first protocol.
  The LRU cache of the \<^verbatim>\<open>lru\<close> crate and the \<^verbatim>\<open>with_p2p\<close> of the address library are parameters.
\<close>

section \<open>Reachable addresses\<close>

datatype protocol =
    Ip4 u8 u8 u8 u8
  | Ip6 u128
  | Dns string
  | Dns4 string
  | Dns6 string
  | Dnsaddr string
  | OtherProtocol string

fun ipv4_is_loopback :: "u8 \<Rightarrow> u8 \<Rightarrow> u8 \<Rightarrow> u8 \<Rightarrow> bool" where
  "ipv4_is_loopback a b c d \<longleftrightarrow> a = 127"

fun ipv4_is_link_local :: "u8 \<Rightarrow> u8 \<Rightarrow> u8 \<Rightarrow> u8 \<Rightarrow> bool" where
  "ipv4_is_link_local a b c d \<longleftrightarrow> a = 169 \<and> b = 254"

fun ipv4_is_private :: "u8 \<Rightarrow> u8 \<Rightarrow> u8 \<Rightarrow> u8 \<Rightarrow> bool" where
  "ipv4_is_private a b c d \<longleftrightarrow>
    a = 10 \<or> a = 172 \<and> 16 \<le> b \<and> b \<le> 31 \<or> a = 192 \<and> b = 168"

definition addr_is_reachable :: "bool \<Rightarrow> protocol option \<Rightarrow> bool" where
  "addr_is_reachable private_network first =
    (case first of
       Some (Ip4 a b c d) \<Rightarrow>
         if ipv4_is_loopback a b c d then private_network
         else \<not> ipv4_is_link_local a b c d \<and> (\<not> ipv4_is_private a b c d \<or> private_network)
     | Some (Ip6 addr) \<Rightarrow> addr \<noteq> 1
     | Some (Dns _) \<Rightarrow> True
     | Some (Dns4 _) \<Rightarrow> True
     | Some (Dns6 _) \<Rightarrow> True
     | Some (Dnsaddr _) \<Rightarrow> True
     | _ \<Rightarrow> False)"

definition parse_env_var :: "(string \<Rightarrow> string option) \<Rightarrow> (string \<Rightarrow> 'a option) \<Rightarrow> string \<Rightarrow> 'a \<Rightarrow> 'a" where
  "parse_env_var env parse var dflt =
    (case Option.bind (env var) parse of Some v \<Rightarrow> v | None \<Rightarrow> dflt)"

section \<open>The cache\<close>

text \<open>
  What the cache relies on. \<open>lo_update\<close> is \<^verbatim>\<open>get_or_insert_mut\<close> with an empty default followed by a change
  of the entry. \<open>ad_first\<close> is the first protocol of an address, \<open>ad_with_p2p\<close> appends the peer unless the
  address ends in another one.
\<close>

record ('c, 'p, 'a) cache_ops =
  lo_new :: "nat \<Rightarrow> 'c"
  lo_update :: "'p \<Rightarrow> ('a set \<Rightarrow> 'a set) \<Rightarrow> 'c \<Rightarrow> 'c"
  lo_pop :: "'p \<Rightarrow> 'c \<Rightarrow> 'c"
  lo_contains :: "'p \<Rightarrow> 'c \<Rightarrow> bool"
  lo_get :: "'p \<Rightarrow> 'c \<Rightarrow> 'a set option \<times> 'c"
  ad_first :: "'a \<Rightarrow> protocol option"
  ad_with_p2p :: "'p \<Rightarrow> 'a \<Rightarrow> ('a, 'a) result"
  ad_private_network :: bool

definition reachable :: "('c, 'p, 'a) cache_ops \<Rightarrow> 'a \<Rightarrow> bool" where
  "reachable ops addr = addr_is_reachable (ad_private_network ops) (ad_first ops addr)"

definition cache_put :: "('c, 'p, 'a) cache_ops \<Rightarrow> 'p \<Rightarrow> 'a list \<Rightarrow> 'c \<Rightarrow> 'c" where
  "cache_put ops peer_id addrs c =
    (let addrs' = map (\<lambda>e. case ad_with_p2p ops peer_id e of Ok a \<Rightarrow> a | Err a \<Rightarrow> a)
           (filter (reachable ops) addrs)
     in if addrs' = [] then c else lo_update ops peer_id (\<lambda>s. s \<union> set addrs') c)"

definition cache_evict :: "('c, 'p, 'a) cache_ops \<Rightarrow> 'p \<Rightarrow> 'c \<Rightarrow> 'c" where
  "cache_evict ops peer_id c = lo_pop ops peer_id c"

definition cache_contains :: "('c, 'p, 'a) cache_ops \<Rightarrow> 'p \<Rightarrow> 'c \<Rightarrow> bool" where
  "cache_contains ops peer_id c = lo_contains ops peer_id c"

datatype dial_error =
    WrongPeerId
  | TransportError
  | NoAddresses
  | DialPeerConditionFalse
  | OtherDialError string

definition cache_on_dial_failure :: "('c, 'p, 'a) cache_ops \<Rightarrow> 'p option \<Rightarrow> dial_error \<Rightarrow> 'c \<Rightarrow> 'c" where
  "cache_on_dial_failure ops peer err c =
    (if err = WrongPeerId \<or> err = TransportError \<or> err = NoAddresses
     then (case peer of Some peer_id \<Rightarrow> cache_evict ops peer_id c | None \<Rightarrow> c)
     else c)"

definition cache_pending_outbound ::
  "('c, 'p, 'a) cache_ops \<Rightarrow> 'p option \<Rightarrow> 'c \<Rightarrow> 'a set \<times> 'c" where
  "cache_pending_outbound ops maybe_peer c =
    (case maybe_peer of
       None \<Rightarrow> ({}, c)
     | Some peer_id \<Rightarrow>
         (case lo_get ops peer_id c of (addrs, c') \<Rightarrow> ((case addrs of Some s \<Rightarrow> s | None \<Rightarrow> {}), c')))"

definition cache_established_outbound :: "('c, 'p, 'a) cache_ops \<Rightarrow> 'p \<Rightarrow> 'a \<Rightarrow> 'c \<Rightarrow> 'c" where
  "cache_established_outbound ops peer addr c = cache_put ops peer [addr] c"

datatype ('p, 'a) cache_event =
    NewExternalAddrOfPeer 'p 'a
  | CacheDialFailure "'p option" dial_error
  | OtherSwarmEvent

definition cache_on_swarm_event :: "('c, 'p, 'a) cache_ops \<Rightarrow> ('p, 'a) cache_event \<Rightarrow> 'c \<Rightarrow> 'c" where
  "cache_on_swarm_event ops ev c =
    (case ev of
       NewExternalAddrOfPeer p addr \<Rightarrow> cache_put ops p [addr] c
     | CacheDialFailure p err \<Rightarrow> cache_on_dial_failure ops p err c
     | OtherSwarmEvent \<Rightarrow> c)"

section \<open>A cached peer can be dialled\<close>

text \<open>
  The documented behaviour of the LRU cache, seen through the map \<open>view\<close> of its entries: an update
  reaches its own key and may evict others, a removal reaches its own key only.
\<close>

definition lru_laws :: "('c, 'p, 'a) cache_ops \<Rightarrow> ('c \<Rightarrow> 'p \<rightharpoonup> 'a set) \<Rightarrow> bool" where
  "lru_laws ops view \<longleftrightarrow>
    (\<forall>n. view (lo_new ops n) = Map.empty) \<and>
    (\<forall>p f c. view (lo_update ops p f c) p = Some (f (case view c p of Some s \<Rightarrow> s | None \<Rightarrow> {}))) \<and>
    (\<forall>p f c q. q \<noteq> p \<longrightarrow> view (lo_update ops p f c) q = view c q \<or> view (lo_update ops p f c) q = None) \<and>
    (\<forall>p c. view (lo_pop ops p c) = (view c)(p := None)) \<and>
    (\<forall>p c. lo_contains ops p c \<longleftrightarrow> view c p \<noteq> None) \<and>
    (\<forall>p c. fst (lo_get ops p c) = view c p \<and> view (snd (lo_get ops p c)) = view c)"

definition no_empty_entry :: "('c \<Rightarrow> 'p \<rightharpoonup> 'a set) \<Rightarrow> 'c \<Rightarrow> bool" where
  "no_empty_entry view c \<longleftrightarrow> (\<forall>p. view c p \<noteq> Some {})"

lemma lru_update:
  assumes "lru_laws ops view"
  shows "view (lo_update ops p f c) p = Some (f (case view c p of Some s \<Rightarrow> s | None \<Rightarrow> {}))"
    and "q \<noteq> p \<Longrightarrow> view (lo_update ops p f c) q = view c q \<or> view (lo_update ops p f c) q = None"
  using assms unfolding lru_laws_def by blast+

lemma lru_queries:
  assumes "lru_laws ops view"
  shows "view (lo_pop ops p c) = (view c)(p := None)" "lo_contains ops p c \<longleftrightarrow> view c p \<noteq> None"
    "fst (lo_get ops p c) = view c p" "view (snd (lo_get ops p c)) = view c"
  using assms unfolding lru_laws_def by blast+

lemma no_empty_entry_put:
  assumes "lru_laws ops view" "no_empty_entry view c"
  shows "no_empty_entry view (cache_put ops p addrs c)"
proof (cases "filter (reachable ops) addrs")
  case Nil
  then show ?thesis
    using assms(2) by (simp add: cache_put_def)
next
  case (Cons a as)
  define S where "S = set (map (\<lambda>e. case ad_with_p2p ops p e of Ok a \<Rightarrow> a | Err a \<Rightarrow> a) (a # as))"
  have put: "cache_put ops p addrs c = lo_update ops p (\<lambda>s. s \<union> S) c"
    by (simp add: cache_put_def Cons S_def)
  have "view (lo_update ops p (\<lambda>s. s \<union> S) c) q \<noteq> Some {}" for q
  proof (cases "q = p")
    case True
    then show ?thesis
      by (simp add: lru_update(1) [OF assms(1)] S_def)
  next
    case False
    then show ?thesis
      using lru_update(2) [OF assms(1) False, of "\<lambda>s. s \<union> S" c] assms(2)
      by (auto simp: no_empty_entry_def)
  qed
  then show ?thesis
    by (simp add: put no_empty_entry_def)
qed

lemma no_empty_entry_pop:
  "lru_laws ops view \<Longrightarrow> no_empty_entry view c \<Longrightarrow> no_empty_entry view (lo_pop ops p c)"
  by (simp add: lru_queries no_empty_entry_def)

lemma no_empty_entry_event:
  "lru_laws ops view \<Longrightarrow> no_empty_entry view c \<Longrightarrow> no_empty_entry view (cache_on_swarm_event ops ev c)"
  by (auto simp: cache_on_swarm_event_def cache_on_dial_failure_def cache_evict_def
      no_empty_entry_put no_empty_entry_pop split: cache_event.splits option.splits)

text \<open>A peer the cache contains always has an address to dial.\<close>

lemma contains_dialable:
  assumes "lru_laws ops view" "no_empty_entry view c" "cache_contains ops p c"
  shows "fst (cache_pending_outbound ops (Some p) c) \<noteq> {}"
proof -
  obtain s where "view c p = Some s" "s \<noteq> {}"
    using assms lru_queries(2) [OF assms(1), of p c] by (auto simp: cache_contains_def no_empty_entry_def)
  then show ?thesis
    using lru_queries(3) [OF assms(1), of p c] by (simp add: cache_pending_outbound_def case_prod_unfold)
qed

end
