(* ===== verification/Node_Whitelist.thy ===== *)
theory Node_Whitelist
  imports Contract_Client
begin

text \<open>
  The whitelist of registered nodes: \<^verbatim>\<open>crates/transport/src/behaviour/node_whitelist.rs\<close>. The allow list of
  the networking library is a parameter with its two calls; \<open>iter\<close> is the order in which a hash set is
  iterated.
\<close>

record ('p, 'l) allow_ops =
  al_allow_peer :: "'p \<Rightarrow> 'l \<Rightarrow> 'l"
  al_disallow_peer :: "'p \<Rightarrow> 'l \<Rightarrow> 'l"

definition NODES_UPDATE_INTERVAL_DEFAULT :: nat where
  "NODES_UPDATE_INTERVAL_DEFAULT = 60"

record ('p, 'l) whitelist =
  wh_allow :: 'l
  wh_registered_nodes :: "'p set"

definition whitelist_new :: "'l \<Rightarrow> ('p, 'l) whitelist" where
  "whitelist_new allow = \<lparr>wh_allow = allow, wh_registered_nodes = {}\<rparr>"

definition whitelist_size :: "('p, 'l) whitelist \<Rightarrow> nat" where
  "whitelist_size wh = card (wh_registered_nodes wh)"

definition whitelist_allow_peer :: "('p, 'l) allow_ops \<Rightarrow> 'p \<Rightarrow> ('p, 'l) whitelist \<Rightarrow> ('p, 'l) whitelist" where
  "whitelist_allow_peer ops peer_id wh = wh\<lparr>wh_allow := al_allow_peer ops peer_id (wh_allow wh)\<rparr>"

definition whitelist_disallow_peer :: "('p, 'l) allow_ops \<Rightarrow> 'p \<Rightarrow> ('p, 'l) whitelist \<Rightarrow> ('p, 'l) whitelist" where
  "whitelist_disallow_peer ops peer_id wh = wh\<lparr>wh_allow := al_disallow_peer ops peer_id (wh_allow wh)\<rparr>"

definition whitelist_on_nodes_update ::
  "('p, 'l) allow_ops \<Rightarrow> ('p set \<Rightarrow> 'p list) \<Rightarrow> 'p network_nodes call \<Rightarrow> ('p, 'l) whitelist \<Rightarrow>
    'p network_nodes option \<times> ('p, 'l) whitelist"
where
  "whitelist_on_nodes_update ops iter result wh =
    (case result of
       Err e \<Rightarrow> (None, wh)
     | Ok nodes \<Rightarrow>
         let all_nodes = nodes_all nodes
         in if all_nodes = wh_registered_nodes wh then (None, wh)
            else
              let allow = fold (al_disallow_peer ops) (iter (wh_registered_nodes wh - all_nodes)) (wh_allow wh);
                  allow = fold (al_allow_peer ops) (iter (all_nodes - wh_registered_nodes wh)) allow
              in (Some nodes, \<lparr>wh_allow = allow, wh_registered_nodes = all_nodes\<rparr>))"

text \<open>One poll: the next item of the node stream, if it is there; the stream does not end.\<close>

datatype 'a poll = Ready 'a | Pending

definition whitelist_poll ::
  "('p, 'l) allow_ops \<Rightarrow> ('p set \<Rightarrow> 'p list) \<Rightarrow> 'p network_nodes call option poll \<Rightarrow> ('p, 'l) whitelist \<Rightarrow>
    ('p network_nodes option poll \<times> ('p, 'l) whitelist) outcome"
where
  "whitelist_poll ops iter next_item wh =
    (case next_item of
       Ready (Some res) \<Rightarrow>
         Return (case whitelist_on_nodes_update ops iter res wh of (ev, wh') \<Rightarrow> (Ready ev, wh'))
     | Pending \<Rightarrow> Return (Pending, wh)
     | Ready None \<Rightarrow> Panic ''internal error: entered unreachable code'')"

section \<open>Who is allowed\<close>

definition allow_laws :: "('p, 'l) allow_ops \<Rightarrow> ('l \<Rightarrow> 'p set) \<Rightarrow> bool" where
  "allow_laws ops allowed \<longleftrightarrow>
    (\<forall>p l. allowed (al_allow_peer ops p l) = insert p (allowed l)) \<and>
    (\<forall>p l. allowed (al_disallow_peer ops p l) = allowed l - {p})"

lemma fold_allow:
  "allow_laws ops allowed \<Longrightarrow> allowed (fold (al_allow_peer ops) ps l) = allowed l \<union> set ps"
  by (induction ps arbitrary: l) (auto simp: allow_laws_def)

lemma fold_disallow:
  "allow_laws ops allowed \<Longrightarrow> allowed (fold (al_disallow_peer ops) ps l) = allowed l - set ps"
  by (induction ps arbitrary: l) (auto simp: allow_laws_def)

primrec whitelist_run ::
  "('p, 'l) allow_ops \<Rightarrow> ('p set \<Rightarrow> 'p list) \<Rightarrow> 'p network_nodes call list \<Rightarrow> ('p, 'l) whitelist \<Rightarrow> ('p, 'l) whitelist"
where
  "whitelist_run ops iter [] wh = wh"
| "whitelist_run ops iter (r # rs) wh = whitelist_run ops iter rs (snd (whitelist_on_nodes_update ops iter r wh))"

definition node_sets :: "'p network_nodes call list \<Rightarrow> 'p set list" where
  "node_sets rs = List.map_filter (\<lambda>r. case r of Ok nodes \<Rightarrow> Some (nodes_all nodes) | Err e \<Rightarrow> None) rs"

lemma node_sets_simps [simp]:
  "node_sets [] = []" "node_sets (Ok nodes # rs) = nodes_all nodes # node_sets rs"
  "node_sets (Err e # rs) = node_sets rs"
  by (simp_all add: node_sets_def List.map_filter_simps)

lemma whitelist_update_allowed:
  assumes "allow_laws ops allowed" "\<And>s. finite s \<Longrightarrow> set (iter s) = s"
    and "finite (wh_registered_nodes wh)" "finite (nodes_all nodes)" "wh_registered_nodes wh \<subseteq> allowed (wh_allow wh)"
  defines "wh' \<equiv> snd (whitelist_on_nodes_update ops iter (Ok nodes) wh)"
  shows "wh_registered_nodes wh' = nodes_all nodes"
    and "allowed (wh_allow wh') = (allowed (wh_allow wh) - wh_registered_nodes wh) \<union> nodes_all nodes"
proof -
  have set_iter: "set (iter (A - B)) = A - B" if "finite A" for A B
    using assms(2) that by simp
  show "wh_registered_nodes wh' = nodes_all nodes"
    by (simp add: wh'_def whitelist_on_nodes_update_def Let_def)
  show "allowed (wh_allow wh') = (allowed (wh_allow wh) - wh_registered_nodes wh) \<union> nodes_all nodes"
    using assms(3-5) set_iter
    by (auto simp: wh'_def whitelist_on_nodes_update_def Let_def fold_allow [OF assms(1)] fold_disallow [OF assms(1)])
qed

text \<open>
  C29: After any sequence of on-chain updates, failed reads included, the registered nodes are those of the
  last successful read, and the peers the node accepts connections from are exactly these nodes and the
  peers allowed by hand that no read has ever listed.
\<close>

theorem whitelist_exact:
  assumes "allow_laws ops allowed" "\<And>s. finite s \<Longrightarrow> set (iter s) = s"
    and "\<And>s. s \<in> set (node_sets rs) \<Longrightarrow> finite s"
  shows "wh_registered_nodes (whitelist_run ops iter rs (whitelist_new l)) =
      (if node_sets rs = [] then {} else last (node_sets rs))
    \<and> allowed (wh_allow (whitelist_run ops iter rs (whitelist_new l))) =
      (allowed l - \<Union> (set (node_sets rs))) \<union> (if node_sets rs = [] then {} else last (node_sets rs))"
proof -
  have "wh_registered_nodes (whitelist_run ops iter rs wh) =
      (if node_sets rs = [] then wh_registered_nodes wh else last (node_sets rs))
    \<and> allowed (wh_allow (whitelist_run ops iter rs wh)) =
      (allowed (wh_allow wh) - wh_registered_nodes wh - \<Union> (set (node_sets rs)))
        \<union> (if node_sets rs = [] then wh_registered_nodes wh else last (node_sets rs))"
    if "finite (wh_registered_nodes wh)" "wh_registered_nodes wh \<subseteq> allowed (wh_allow wh)"
      "\<And>s. s \<in> set (node_sets rs) \<Longrightarrow> finite s" for wh rs
    using that
  proof (induction rs arbitrary: wh)
    case (Cons r rs)
    show ?case
    proof (cases r)
      case (Ok nodes)
      let ?wh = "snd (whitelist_on_nodes_update ops iter (Ok nodes) wh)"
      have fin: "finite (nodes_all nodes)"
        using Cons.prems(3) Ok by simp
      note update = whitelist_update_allowed [OF assms(1,2) Cons.prems(1) fin Cons.prems(2)]
      show ?thesis
        using Cons.IH [of ?wh] Cons.prems(2,3) fin update Ok by auto
    next
      case (Err e)
      then show ?thesis
        using Cons by (simp add: whitelist_on_nodes_update_def)
    qed
  qed auto
  from this [of "whitelist_new l" rs] assms(3) show ?thesis
    by (simp add: whitelist_new_def)
qed

definition set_allow_ops :: "(nat, nat set) allow_ops" where
  "set_allow_ops = \<lparr>al_allow_peer = insert, al_disallow_peer = (\<lambda>p s. s - {p})\<rparr>"

definition sample_reads :: "nat network_nodes call list" where
  "sample_reads = [Ok \<lparr>nn_portals = {1}, nn_workers = {2, 3}\<rparr>, Err BlockNotFound, Ok \<lparr>nn_portals = {1}, nn_workers = {3, 4}\<rparr>]"

lemma whitelist_exact_witness:
  "wh_registered_nodes (whitelist_run set_allow_ops sorted_list_of_set sample_reads (whitelist_new {2, 9})) = {1, 3, 4}
   \<and> wh_allow (whitelist_run set_allow_ops sorted_list_of_set sample_reads (whitelist_new {2, 9})) = {1, 3, 4, 9}"
proof -
  have "wh_registered_nodes (whitelist_run set_allow_ops sorted_list_of_set sample_reads (whitelist_new {2, 9})) =
      (if node_sets sample_reads = [] then {} else last (node_sets sample_reads))
    \<and> (\<lambda>s. s) (wh_allow (whitelist_run set_allow_ops sorted_list_of_set sample_reads (whitelist_new {2, 9}))) =
      ((\<lambda>s. s) {2, 9} - \<Union> (set (node_sets sample_reads))) \<union>
      (if node_sets sample_reads = [] then {} else last (node_sets sample_reads))"
    by (rule whitelist_exact)
      (auto simp: allow_laws_def set_allow_ops_def sample_reads_def nodes_all_def)
  then show ?thesis
    by (auto simp: sample_reads_def nodes_all_def)
qed

text \<open>A peer allowed by hand, such as a boot node, is refused once it was registered and is no more.\<close>

lemma manual_allow_lost:
  assumes "allow_laws ops allowed" "\<And>s. finite s \<Longrightarrow> set (iter s) = s" "finite (nodes_all nodes)"
    and "p \<in> allowed l" "p \<in> nodes_all nodes"
  shows "p \<notin> allowed (wh_allow (whitelist_run ops iter
    [Ok nodes, Ok \<lparr>nn_portals = {}, nn_workers = nodes_all nodes - {p}\<rparr>] (whitelist_new l)))"
proof -
  let ?wh = "snd (whitelist_on_nodes_update ops iter (Ok nodes) (whitelist_new l))"
  let ?rest = "\<lparr>nn_portals = {}, nn_workers = nodes_all nodes - {p}\<rparr>"
  have first: "wh_registered_nodes ?wh = nodes_all nodes" "allowed (wh_allow ?wh) = allowed l \<union> nodes_all nodes"
    using whitelist_update_allowed [OF assms(1,2) _ assms(3), of "whitelist_new l"] by (auto simp: whitelist_new_def)
  have "allowed (wh_allow (snd (whitelist_on_nodes_update ops iter (Ok ?rest) ?wh))) =
      (allowed (wh_allow ?wh) - wh_registered_nodes ?wh) \<union> nodes_all ?rest"
    by (rule whitelist_update_allowed(2) [OF assms(1,2)]) (use assms(3) first in \<open>auto simp: nodes_all_def\<close>)
  then show ?thesis
    using first assms(5) by (simp add: nodes_all_def)
qed

end
