(* ===== verification/Float32.thy ===== *)
theory Float32
  imports Prelude "HOL-Library.Log_Nat"
begin

text \<open>
  Single-precision arithmetic on non-negative numbers: a value is the rational it stands for, and every
  operation rounds its exact result to 24 significant bits, ties to even. The range is that of counters, so
  neither the infinities nor the subnormal numbers occur.
\<close>

definition round_half_even :: "rat \<Rightarrow> int" where
  "round_half_even y =
    (let n = \<lfloor>y\<rfloor>; r = y - of_int n
     in if r < 1 / 2 then n else if 1 / 2 < r then n + 1 else if even n then n else n + 1)"

definition f32_exponent :: "rat \<Rightarrow> int" where
  "f32_exponent x = (if 1 \<le> x then bitlen \<lfloor>x\<rfloor> - 1 else - bitlen (\<lceil>1 / x\<rceil> - 1))"

definition f32_round :: "rat \<Rightarrow> rat" where
  "f32_round x =
    (if x \<le> 0 then 0
     else let k = 23 - f32_exponent x in of_int (round_half_even (x * 2 powi k)) / 2 powi k)"

lemma round_half_even_le: "y \<le> of_int n \<Longrightarrow> round_half_even y \<le> n"
proof -
  assume le: "y \<le> of_int n"
  have "\<lfloor>y\<rfloor> \<le> n"
    using le by (simp add: floor_le_iff)
  moreover have "\<lfloor>y\<rfloor> + 1 \<le> n" if "y - of_int \<lfloor>y\<rfloor> \<ge> 1 / 2"
  proof (rule ccontr)
    assume "\<not> \<lfloor>y\<rfloor> + 1 \<le> n"
    then have "\<lfloor>y\<rfloor> = n"
      using \<open>\<lfloor>y\<rfloor> \<le> n\<close> by simp
    then show False
      using that le by simp
  qed
  ultimately show ?thesis
    by (auto simp: round_half_even_def Let_def not_less)
qed

lemma f32_exponent_le:
  assumes "0 < x" "x \<le> of_int n" "n < 2 ^ 24"
  shows "f32_exponent x \<le> 23"
proof (cases "1 \<le> x")
  case True
  have "\<lfloor>x\<rfloor> < 2 ^ 24"
    using assms(2,3) by (simp add: floor_less_iff)
  moreover have "0 \<le> \<lfloor>x\<rfloor>"
    using assms(1) by simp
  ultimately have "bitlen \<lfloor>x\<rfloor> \<le> 24"
    using bitlen_le_iff_power [of "\<lfloor>x\<rfloor>" 24] by simp
  then show ?thesis
    using True by (simp add: f32_exponent_def)
next
  case False
  have "0 \<le> bitlen (\<lceil>1 / x\<rceil> - 1)"
    by (rule bitlen_nonneg)
  then show ?thesis
    using False by (simp add: f32_exponent_def)
qed

text \<open>Rounding does not step over an integer of at most 24 bits.\<close>

lemma f32_round_le_int:
  assumes "x \<le> of_int n" "0 \<le> n" "n < 2 ^ 24"
  shows "f32_round x \<le> of_int n"
proof (cases "x \<le> 0")
  case True
  then show ?thesis
    using assms(2) by (simp add: f32_round_def)
next
  case False
  define k where "k = 23 - f32_exponent x"
  have "0 \<le> k"
    using f32_exponent_le [of x n] False assms by (simp add: k_def)
  then obtain j where k: "k = int j"
    by (metis nonneg_eq_int)
  have "x * 2 powi k \<le> of_int (n * 2 ^ j)"
    using assms(1) k by (simp add: mult_right_mono)
  then have "round_half_even (x * 2 powi k) \<le> n * 2 ^ j"
    by (rule round_half_even_le)
  then have "(of_int (round_half_even (x * 2 powi k)) :: rat) \<le> of_int (n * 2 ^ j)"
    by (simp only: of_int_le_iff)
  then have "of_int (round_half_even (x * 2 powi k)) / 2 powi k \<le> (of_int n :: rat)"
    using k by (simp add: divide_le_eq)
  then show ?thesis
    using False by (simp add: f32_round_def k_def Let_def)
qed

end
