(* ===== verification/Base_Behaviour.thy ===== *)
theory Base_Behaviour
  imports Address_Cache Node_Whitelist Float32 "HOL-Library.Multiset"
begin

text \<open>
  The base network behaviour: \<^verbatim>\<open>crates/transport/src/behaviour/base.rs\<close>. It keeps connections to all
  registered workers, looks up peers whose address is not known, and reports how much of the network it has
  met. The engines of the networking library (Kademlia, AutoNAT, identify) are one parameter state with the
  calls the behaviour makes on it; the address cache and the whitelist are those of their own theories. The
  one-to-one map of ongoing lookups is the list of its pairs, the delay queue the list of its entries with
  their deadlines, and \<open>iter\<close> the order in which a hash set is iterated.
\<close>

section \<open>Configuration\<close>

record base_config =
  bc_onchain_update_interval :: nat
  bc_autonat_timeout :: nat
  bc_identify_interval :: nat
  bc_kad_query_timeout :: nat
  bc_max_pubsub_msg_size :: nat
  bc_addr_cache_size :: nat
  bc_max_concurrent_lookups :: nat
  bc_reconnect_cooldown :: nat

text \<open>\<open>max_pubsub_msg_size\<close> is the constant of \<^verbatim>\<open>protocol.rs\<close>; \<open>parse\<close> parses an unsigned number.\<close>

definition base_config_from_env ::
  "(string \<Rightarrow> string option) \<Rightarrow> (string \<Rightarrow> nat option) \<Rightarrow> nat \<Rightarrow> base_config outcome" where
  "base_config_from_env env parse max_pubsub_msg_size =
    (let var = parse_env_var env parse;
         addr_cache_size = var ''ADDR_CACHE_SIZE'' 1024
     in if addr_cache_size = 0 then Panic ''addr_cache_size should be > 0''
        else Return \<lparr>
          bc_onchain_update_interval = var ''ONCHAIN_UPDATE_INTERVAL_SEC'' 60,
          bc_autonat_timeout = var ''AUTONAT_TIMEOUT_SEC'' 60,
          bc_identify_interval = var ''IDENTIFY_INTERVAL_SEC'' 600,
          bc_kad_query_timeout = var ''KAD_QUERY_TIMEOUT_SEC'' 5,
          bc_max_pubsub_msg_size = var ''MAX_PUBSUB_MSG_SIZE'' max_pubsub_msg_size,
          bc_addr_cache_size = addr_cache_size,
          bc_max_concurrent_lookups = var ''MAX_CONCURRENT_LOOKUPS'' 20,
          bc_reconnect_cooldown = var ''RECONNECT_COOLDOWN_SEC'' 30\<rparr>)"

section \<open>State\<close>

text \<open>The one-to-one map of lookups: inserting a pair drops every pair that shares a side with it.\<close>

definition bimap_insert :: "'p \<Rightarrow> 'q \<Rightarrow> ('p \<times> 'q) list \<Rightarrow> ('p \<times> 'q) list" where
  "bimap_insert p q m = (p, q) # filter (\<lambda>(p', q'). p' \<noteq> p \<and> q' \<noteq> q) m"

definition bimap_contains_left :: "'p \<Rightarrow> ('p \<times> 'q) list \<Rightarrow> bool" where
  "bimap_contains_left p m \<longleftrightarrow> p \<in> fst ` set m"

definition bimap_get_by_right :: "'q \<Rightarrow> ('p \<times> 'q) list \<Rightarrow> 'p option" where
  "bimap_get_by_right q m = map_option fst (find (\<lambda>(p, q'). q' = q) m)"

definition bimap_remove_by_right :: "'q \<Rightarrow> ('p \<times> 'q) list \<Rightarrow> ('p \<times> 'q) list" where
  "bimap_remove_by_right q m = filter (\<lambda>(p, q'). q' \<noteq> q) m"

datatype peer_condition = DisconnectedAndNotDialing | NotDialing

datatype 'r base_event = ProviderRecord 'r | NetworkConnected rat

datatype ('p, 'r) to_swarm = Dial 'p peer_condition | GenerateEvent "'r base_event"

text \<open>The calls on the engines.\<close>

record ('k, 'p, 'a, 'q) engine_ops =
  en_get_closest_peers :: "'p \<Rightarrow> 'k \<Rightarrow> 'q \<times> 'k"
  en_add_address :: "'p \<Rightarrow> 'a \<Rightarrow> 'k \<Rightarrow> 'k"
  en_add_autonat_server :: "'p \<Rightarrow> 'a \<Rightarrow> 'k \<Rightarrow> 'k"
  en_bootstrap_ongoing :: "'k \<Rightarrow> bool"
  en_bootstrap :: "'k \<Rightarrow> bool \<times> 'k"
  en_set_server_mode :: "'k \<Rightarrow> 'k"

record ('c, 'k, 'p, 'a, 'q, 'l) base_env =
  be_cache :: "('c, 'p, 'a) cache_ops"
  be_engine :: "('k, 'p, 'a, 'q) engine_ops"
  be_allow :: "('p, 'l) allow_ops"
  be_iter :: "'p set \<Rightarrow> 'p list"

record ('c, 'k, 'p, 'q, 'l, 'r) base =
  bb_engine :: 'k
  bb_cache :: 'c
  bb_whitelist :: "('p, 'l) whitelist"
  bb_keep_alive_active :: bool
  bb_pending_events :: "('p, 'r) to_swarm list"
  bb_ongoing_lookups :: "('p \<times> 'q) list"
  bb_outbound_conns :: "'p \<rightharpoonup> u32"
  bb_registered_workers :: "'p set"
  bb_whitelist_initialized :: bool
  bb_identified_peers :: "'p set"
  bb_last_sent_confidence_step :: "nat option"
  bb_maintain_worker_connections :: bool
  bb_pending_lookups :: "'p list"
  bb_max_concurrent_lookups :: nat
  bb_reconnect_cooldown :: nat
  bb_reconnect_queue :: "('p \<times> nat) list"
  bb_reconnect_scheduled :: "'p set"

definition base_new ::
  "('c, 'k, 'p, 'a, 'q, 'l) base_env \<Rightarrow> base_config \<Rightarrow> 'k \<Rightarrow> 'l \<Rightarrow> ('p \<times> 'a) list \<Rightarrow> ('c, 'k, 'p, 'q, 'l, 'r) base"
where
  "base_new env cfg engine allow boot_nodes =
    \<lparr>bb_engine = fold (\<lambda>(p, a) k. en_add_autonat_server (be_engine env) p a (en_add_address (be_engine env) p a k))
       boot_nodes engine,
     bb_cache = lo_new (be_cache env) (bc_addr_cache_size cfg),
     bb_whitelist = fold (\<lambda>(p, a). whitelist_allow_peer (be_allow env) p) boot_nodes (whitelist_new allow),
     bb_keep_alive_active = False,
     bb_pending_events = [],
     bb_ongoing_lookups = [],
     bb_outbound_conns = Map.empty,
     bb_registered_workers = {},
     bb_whitelist_initialized = False,
     bb_identified_peers = {},
     bb_last_sent_confidence_step = None,
     bb_maintain_worker_connections = False,
     bb_pending_lookups = [],
     bb_max_concurrent_lookups = bc_max_concurrent_lookups cfg,
     bb_reconnect_cooldown = bc_reconnect_cooldown cfg,
     bb_reconnect_queue = [],
     bb_reconnect_scheduled = {}\<rparr>"

section \<open>Operations\<close>

definition set_server_mode ::
  "('c, 'k, 'p, 'a, 'q, 'l) base_env \<Rightarrow> ('c, 'k, 'p, 'q, 'l, 'r) base \<Rightarrow> ('c, 'k, 'p, 'q, 'l, 'r) base" where
  "set_server_mode env b = b\<lparr>bb_engine := en_set_server_mode (be_engine env) (bb_engine b)\<rparr>"

definition maintain_worker_connections ::
  "('c, 'k, 'p, 'q, 'l, 'r) base \<Rightarrow> ('c, 'k, 'p, 'q, 'l, 'r) base" where
  "maintain_worker_connections b =
    b\<lparr>bb_keep_alive_active := True, bb_maintain_worker_connections := True\<rparr>"

definition find_and_dial ::
  "('c, 'k, 'p, 'a, 'q, 'l) base_env \<Rightarrow> 'p \<Rightarrow> ('c, 'k, 'p, 'q, 'l, 'r) base \<Rightarrow> ('c, 'k, 'p, 'q, 'l, 'r) base" where
  "find_and_dial env peer_id b =
    (if cache_contains (be_cache env) peer_id (bb_cache b) then
       b\<lparr>bb_pending_events := bb_pending_events b @ [Dial peer_id DisconnectedAndNotDialing]\<rparr>
     else if bimap_contains_left peer_id (bb_ongoing_lookups b) then b
     else
       (case en_get_closest_peers (be_engine env) peer_id (bb_engine b) of (query_id, k) \<Rightarrow>
          b\<lparr>bb_engine := k, bb_ongoing_lookups := bimap_insert peer_id query_id (bb_ongoing_lookups b)\<rparr>))"

definition outbound_conn_exists :: "('c, 'k, 'p, 'q, 'l, 'r) base \<Rightarrow> 'p \<Rightarrow> bool" where
  "outbound_conn_exists b peer_id =
    (case bb_outbound_conns b peer_id of Some x \<Rightarrow> x > 0 | None \<Rightarrow> False)"

definition base_allow_peer ::
  "('c, 'k, 'p, 'a, 'q, 'l) base_env \<Rightarrow> 'p \<Rightarrow> ('c, 'k, 'p, 'q, 'l, 'r) base \<Rightarrow> ('c, 'k, 'p, 'q, 'l, 'r) base" where
  "base_allow_peer env peer_id b =
    b\<lparr>bb_whitelist := whitelist_allow_peer (be_allow env) peer_id (bb_whitelist b)\<rparr>"

text \<open>Connections. Only those this node dialled are counted; the counter is a \<^verbatim>\<open>u32\<close>.\<close>

definition on_connection_established ::
  "bool \<Rightarrow> 'p \<Rightarrow> ('c, 'k, 'p, 'q, 'l, 'r) base \<Rightarrow> ('c, 'k, 'p, 'q, 'l, 'r) base" where
  "on_connection_established dialer peer_id b =
    (if dialer then
       b\<lparr>bb_outbound_conns := (bb_outbound_conns b)(peer_id \<mapsto>
         (case bb_outbound_conns b peer_id of Some x \<Rightarrow> x | None \<Rightarrow> 0) + 1)\<rparr>
     else b)"

definition schedule_reconnect ::
  "nat \<Rightarrow> 'p \<Rightarrow> ('c, 'k, 'p, 'q, 'l, 'r) base \<Rightarrow> ('c, 'k, 'p, 'q, 'l, 'r) base" where
  "schedule_reconnect now peer_id b =
    (let needed = bb_maintain_worker_connections b \<and> peer_id \<in> bb_registered_workers b
           \<and> \<not> outbound_conn_exists b peer_id
     in if \<not> needed \<or> peer_id \<in> bb_reconnect_scheduled b then b
        else b\<lparr>bb_reconnect_scheduled := insert peer_id (bb_reconnect_scheduled b),
               bb_reconnect_queue := bb_reconnect_queue b @ [(peer_id, now + bb_reconnect_cooldown b)]\<rparr>)"

definition on_connection_closed ::
  "nat \<Rightarrow> bool \<Rightarrow> 'p \<Rightarrow> ('c, 'k, 'p, 'q, 'l, 'r) base \<Rightarrow> ('c, 'k, 'p, 'q, 'l, 'r) base" where
  "on_connection_closed now dialer peer_id b =
    (if dialer then
       schedule_reconnect now peer_id
         (case bb_outbound_conns b peer_id of
            Some x \<Rightarrow> b\<lparr>bb_outbound_conns := (bb_outbound_conns b)(peer_id \<mapsto> x - 1)\<rparr>
          | None \<Rightarrow> b)
     else b)"

definition on_dial_failure ::
  "nat \<Rightarrow> 'p option \<Rightarrow> dial_error \<Rightarrow> ('c, 'k, 'p, 'q, 'l, 'r) base \<Rightarrow> ('c, 'k, 'p, 'q, 'l, 'r) base" where
  "on_dial_failure now peer err b =
    (case peer of
       None \<Rightarrow> b
     | Some peer_id \<Rightarrow>
         if err = TransportError \<or> err = WrongPeerId \<or> err = NoAddresses
         then schedule_reconnect now peer_id b else b)"

text \<open>The confidence, computed in single precision.\<close>

definition confidence_step :: "nat \<Rightarrow> nat \<Rightarrow> nat" where
  "confidence_step identified nodes =
    (let threshold = f32_round (3 / 4 * f32_round (of_nat nodes));
         raw = min (f32_round (f32_round (of_nat identified) / threshold)) 1
     in nat \<lfloor>f32_round (raw * 10)\<rfloor>)"

definition try_emit_confidence ::
  "('c, 'k, 'p, 'q, 'l, 'r) base \<Rightarrow> ('p, 'r) to_swarm option \<times> ('c, 'k, 'p, 'q, 'l, 'r) base" where
  "try_emit_confidence b =
    (let nodes = whitelist_size (bb_whitelist b);
         step = confidence_step (card (bb_identified_peers b)) nodes
     in if \<not> bb_whitelist_initialized b then (None, b)
        else if nodes = 0 then (None, b)
        else if step = 0 then (None, b)
        else if (case bb_last_sent_confidence_step b of Some sent \<Rightarrow> step \<le> sent | None \<Rightarrow> False) then (None, b)
        else (Some (GenerateEvent (NetworkConnected (f32_round (of_nat step / 10)))),
              b\<lparr>bb_last_sent_confidence_step := Some step\<rparr>))"

text \<open>Only the event that identify information was received has an effect.\<close>

definition on_identify_received ::
  "('c, 'k, 'p, 'a, 'q, 'l) base_env \<Rightarrow> 'p \<Rightarrow> 'a list \<Rightarrow> ('c, 'k, 'p, 'q, 'l, 'r) base \<Rightarrow>
    ('p, 'r) to_swarm option \<times> ('c, 'k, 'p, 'q, 'l, 'r) base"
where
  "on_identify_received env peer_id listen_addrs b =
    (let addrs = filter (reachable (be_cache env)) listen_addrs
     in try_emit_confidence
          (b\<lparr>bb_cache := cache_put (be_cache env) peer_id addrs (bb_cache b),
             bb_engine := fold (en_add_address (be_engine env) peer_id) addrs (bb_engine b),
             bb_identified_peers := insert peer_id (bb_identified_peers b)\<rparr>))"

datatype ('p, 'a, 'q, 'r) kad_event =
    ClosestPeers 'q "('p \<times> 'a list) list" bool
  | RoutablePeer 'p 'a
  | PendingRoutablePeer 'p 'a
  | RoutingUpdated 'p "'a list"
  | Providers 'r
  | OtherKadEvent

definition on_kademlia_event ::
  "('c, 'k, 'p, 'a, 'q, 'l) base_env \<Rightarrow> ('p, 'a, 'q, 'r) kad_event \<Rightarrow> ('c, 'k, 'p, 'q, 'l, 'r) base \<Rightarrow>
    ('p, 'r) to_swarm option \<times> ('c, 'k, 'p, 'q, 'l, 'r) base"
where
  "on_kademlia_event env ev b =
    (case ev of
       RoutablePeer peer addr \<Rightarrow> (None, b\<lparr>bb_cache := cache_put (be_cache env) peer [addr] (bb_cache b)\<rparr>)
     | PendingRoutablePeer peer addr \<Rightarrow> (None, b\<lparr>bb_cache := cache_put (be_cache env) peer [addr] (bb_cache b)\<rparr>)
     | RoutingUpdated peer addrs \<Rightarrow>
         (None, b\<lparr>bb_cache := fold (\<lambda>a. cache_put (be_cache env) peer [a]) addrs (bb_cache b)\<rparr>)
     | Providers r \<Rightarrow> (Some (GenerateEvent (ProviderRecord r)), b)
     | OtherKadEvent \<Rightarrow> (None, b)
     | ClosestPeers query_id peers is_last \<Rightarrow>
         (case bimap_get_by_right query_id (bb_ongoing_lookups b) of
            None \<Rightarrow> (None, b)
          | Some peer_id \<Rightarrow>
              let peer_info = find (\<lambda>(p, addrs). p = peer_id) peers;
                  query_finished = is_last \<or> peer_info \<noteq> None;
                  b = (if query_finished
                       then b\<lparr>bb_ongoing_lookups := bimap_remove_by_right query_id (bb_ongoing_lookups b)\<rparr> else b);
                  b = (case peer_info of
                         Some (p, addrs) \<Rightarrow> b\<lparr>bb_cache := cache_put (be_cache env) peer_id addrs (bb_cache b)\<rparr>
                       | None \<Rightarrow> b)
              in (if query_finished then Some (Dial peer_id NotDialing) else None, b)))"

definition queue_worker ::
  "'p \<Rightarrow> ('c, 'k, 'p, 'q, 'l, 'r) base \<Rightarrow> ('c, 'k, 'p, 'q, 'l, 'r) base" where
  "queue_worker peer_id b =
    (if \<not> outbound_conn_exists b peer_id \<and> peer_id \<notin> bb_reconnect_scheduled b
     then b\<lparr>bb_reconnect_scheduled := insert peer_id (bb_reconnect_scheduled b),
            bb_pending_lookups := bb_pending_lookups b @ [peer_id]\<rparr>
     else b)"

definition base_on_nodes_update ::
  "('c, 'k, 'p, 'a, 'q, 'l) base_env \<Rightarrow> 'p network_nodes \<Rightarrow> ('c, 'k, 'p, 'q, 'l, 'r) base \<Rightarrow>
    ('c, 'k, 'p, 'q, 'l, 'r) base"
where
  "base_on_nodes_update env nodes b =
    (let b = b\<lparr>bb_registered_workers := nn_workers nodes\<rparr>;
         b = (if bb_whitelist_initialized b then b
              else
                let b = b\<lparr>bb_whitelist_initialized := True\<rparr>
                in if en_bootstrap_ongoing (be_engine env) (bb_engine b) then b
                   else b\<lparr>bb_engine := snd (en_bootstrap (be_engine env) (bb_engine b))\<rparr>)
     in if bb_maintain_worker_connections b
        then fold queue_worker (be_iter env (bb_registered_workers b)) b else b)"

section \<open>Polling\<close>

text \<open>
  \<open>expired\<close> are the peers the delay queue hands out in this poll. Each leaves the queue, and is queued for a
  lookup if it still needs a connection.
\<close>

fun queue_take :: "'p \<Rightarrow> ('p \<times> nat) list \<Rightarrow> ('p \<times> nat) list" where
  "queue_take peer_id [] = []"
| "queue_take peer_id ((p, deadline) # q) = (if p = peer_id then q else (p, deadline) # queue_take peer_id q)"

definition on_expired ::
  "'p \<Rightarrow> ('c, 'k, 'p, 'q, 'l, 'r) base \<Rightarrow> ('c, 'k, 'p, 'q, 'l, 'r) base" where
  "on_expired peer_id b =
    (let b = b\<lparr>bb_reconnect_queue := queue_take peer_id (bb_reconnect_queue b)\<rparr>;
         still_needed = \<not> outbound_conn_exists b peer_id \<and> peer_id \<in> bb_registered_workers b
     in if still_needed then b\<lparr>bb_pending_lookups := bb_pending_lookups b @ [peer_id]\<rparr>
        else b\<lparr>bb_reconnect_scheduled := bb_reconnect_scheduled b - {peer_id}\<rparr>)"

lemma find_and_dial_pending [simp]:
  "bb_pending_lookups (find_and_dial env p b) = bb_pending_lookups b"
  by (simp add: find_and_dial_def split: prod.splits)

function start_lookups ::
  "('c, 'k, 'p, 'a, 'q, 'l) base_env \<Rightarrow> ('c, 'k, 'p, 'q, 'l, 'r) base \<Rightarrow> ('c, 'k, 'p, 'q, 'l, 'r) base"
where
  "start_lookups env b =
    (if length (bb_ongoing_lookups b) < bb_max_concurrent_lookups b then
       (case bb_pending_lookups b of
          [] \<Rightarrow> b
        | peer_id # rest \<Rightarrow>
            let b' = b\<lparr>bb_pending_lookups := rest,
                       bb_reconnect_scheduled := bb_reconnect_scheduled b - {peer_id}\<rparr>
            in start_lookups env
                 (if \<not> outbound_conn_exists b' peer_id then find_and_dial env peer_id b' else b'))
     else b)"
  by pat_completeness auto
termination
  by (relation "measure (\<lambda>(env, b). length (bb_pending_lookups b))") auto

declare start_lookups.simps [simp del]

definition base_poll ::
  "('c, 'k, 'p, 'a, 'q, 'l) base_env \<Rightarrow> 'p list \<Rightarrow> ('c, 'k, 'p, 'q, 'l, 'r) base \<Rightarrow>
    ('p, 'r) to_swarm poll \<times> ('c, 'k, 'p, 'q, 'l, 'r) base"
where
  "base_poll env expired b =
    (let b = start_lookups env (fold on_expired expired b)
     in case bb_pending_events b of
          [] \<Rightarrow> (Pending, b)
        | ev # evs \<Rightarrow> (Ready ev, b\<lparr>bb_pending_events := evs\<rparr>))"

end
