(* ===== verification/Base_Invariants.thy ===== *)
theory Base_Invariants
  imports Base_Behaviour
begin

text \<open>
  The base behaviour as a transition system: every event of the swarm, of the engines and of the whitelist,
  and every poll, in any order. Two invariants hold in all reachable states: a peer waits for a reconnection
  in one place at most, and no registered worker is forgotten.
\<close>

section \<open>Steps\<close>

fun dialled :: "('p, 'r) to_swarm option \<Rightarrow> 'p set" where
  "dialled (Some (Dial p c)) = {p}"
| "dialled _ = {}"

fun polled :: "('p, 'r) to_swarm poll \<Rightarrow> ('p, 'r) to_swarm option" where
  "polled (Ready ev) = Some ev"
| "polled Pending = None"

definition dial_unreachable :: "dial_error \<Rightarrow> bool" where
  "dial_unreachable err \<longleftrightarrow> err = TransportError \<or> err = WrongPeerId \<or> err = NoAddresses"

text \<open>A dial failure reaches the address cache first; a node update passes through the whitelist.\<close>

definition dial_failure_event ::
  "('c, 'k, 'p, 'a, 'q, 'l) base_env \<Rightarrow> nat \<Rightarrow> 'p option \<Rightarrow> dial_error \<Rightarrow> ('c, 'k, 'p, 'q, 'l, 'r) base \<Rightarrow>
    ('c, 'k, 'p, 'q, 'l, 'r) base"
where
  "dial_failure_event env now peer err b =
    on_dial_failure now peer err (b\<lparr>bb_cache := cache_on_dial_failure (be_cache env) peer err (bb_cache b)\<rparr>)"

definition nodes_event ::
  "('c, 'k, 'p, 'a, 'q, 'l) base_env \<Rightarrow> 'p network_nodes call \<Rightarrow> ('c, 'k, 'p, 'q, 'l, 'r) base \<Rightarrow>
    ('c, 'k, 'p, 'q, 'l, 'r) base"
where
  "nodes_event env res b =
    (case whitelist_on_nodes_update (be_allow env) (be_iter env) res (bb_whitelist b) of
       (None, wh) \<Rightarrow> b\<lparr>bb_whitelist := wh\<rparr>
     | (Some nodes, wh) \<Rightarrow> base_on_nodes_update env nodes (b\<lparr>bb_whitelist := wh\<rparr>))"

definition due :: "nat \<Rightarrow> ('p \<times> nat) list \<Rightarrow> 'p list" where
  "due now q = map fst (filter (\<lambda>(p, deadline). deadline \<le> now) q)"

text \<open>
  The second component is the set of peers handed to the swarm for dialling since it last reported them
  connected or unreachable. A closed connection was open before, and fewer than \<open>2 ^ 32\<close> connections to one
  peer are open at a time.
\<close>

inductive base_step ::
  "('c, 'k, 'p, 'a, 'q, 'l) base_env \<Rightarrow> ('c, 'k, 'p, 'q, 'l, 'r) base \<times> 'p set \<Rightarrow>
    ('c, 'k, 'p, 'q, 'l, 'r) base \<times> 'p set \<Rightarrow> bool"
  for env
where
  established: "(dialer \<Longrightarrow> bb_outbound_conns b p \<noteq> Some (- 1)) \<Longrightarrow>
    base_step env (b, h) (on_connection_established dialer p b, if dialer then h - {p} else h)"
| closed: "(dialer \<Longrightarrow> outbound_conn_exists b p) \<Longrightarrow>
    base_step env (b, h) (on_connection_closed now dialer p b, h)"
| dial_failure: "base_step env (b, h) (dial_failure_event env now peer err b,
    if dial_unreachable err then h - set_option peer else h)"
| cache: "base_step env (b, h) (b\<lparr>bb_cache := cache_on_swarm_event (be_cache env) cev (bb_cache b)\<rparr>, h)"
| identify: "on_identify_received env p addrs b = (out, b') \<Longrightarrow> base_step env (b, h) (b', h)"
| kademlia: "on_kademlia_event env kev b = (out, b') \<Longrightarrow> base_step env (b, h) (b', h \<union> dialled out)"
| nodes: "(\<And>ns. res = Ok ns \<Longrightarrow> finite (nn_workers ns)) \<Longrightarrow> base_step env (b, h) (nodes_event env res b, h)"
| find: "base_step env (b, h) (find_and_dial env p b, h)"
| allow: "base_step env (b, h) (base_allow_peer env p b, h)"
| server: "base_step env (b, h) (set_server_mode env b, h)"
| poll: "mset expired = mset (due now (bb_reconnect_queue b)) \<Longrightarrow> base_poll env expired b = (out, b') \<Longrightarrow>
    base_step env (b, h) (b', h \<union> dialled (polled out))"

inductive base_reachable ::
  "('c, 'k, 'p, 'a, 'q, 'l) base_env \<Rightarrow> ('c, 'k, 'p, 'q, 'l, 'r) base \<times> 'p set \<Rightarrow> bool"
  for env
where
  start: "base_reachable env (maintain_worker_connections (base_new env cfg k l boot_nodes), {})"
| step: "base_reachable env s \<Longrightarrow> base_step env s s' \<Longrightarrow> base_reachable env s'"

section \<open>A peer waits in one place\<close>

definition waiting_ok :: "('c, 'k, 'p, 'q, 'l, 'r) base \<Rightarrow> bool" where
  "waiting_ok b \<longleftrightarrow>
    distinct (map fst (bb_reconnect_queue b) @ bb_pending_lookups b) \<and>
    set (map fst (bb_reconnect_queue b) @ bb_pending_lookups b) = bb_reconnect_scheduled b"

lemma waiting_ok_cong:
  "bb_reconnect_queue b' = bb_reconnect_queue b \<Longrightarrow> bb_pending_lookups b' = bb_pending_lookups b \<Longrightarrow>
    bb_reconnect_scheduled b' = bb_reconnect_scheduled b \<Longrightarrow> waiting_ok b' = waiting_ok b"
  by (simp add: waiting_ok_def)

lemma waiting_schedule: "waiting_ok b \<Longrightarrow> waiting_ok (schedule_reconnect now p b)"
  by (auto simp: waiting_ok_def schedule_reconnect_def Let_def)

lemma waiting_queue_worker: "waiting_ok b \<Longrightarrow> waiting_ok (queue_worker p b)"
  by (auto simp: waiting_ok_def queue_worker_def)

lemma waiting_queue_workers: "waiting_ok b \<Longrightarrow> waiting_ok (fold queue_worker ps b)"
  by (induction ps arbitrary: b) (auto simp: waiting_queue_worker)

lemma queue_take_fst: "distinct (map fst q) \<Longrightarrow> set (map fst (queue_take p q)) = set (map fst q) - {p}"
  by (induction p q rule: queue_take.induct) auto

lemma queue_take_distinct: "distinct (map fst q) \<Longrightarrow> distinct (map fst (queue_take p q))"
  by (induction p q rule: queue_take.induct) (auto simp: queue_take_fst simp del: set_map)

lemma waiting_expired:
  assumes "waiting_ok b" "p \<in> fst ` set (bb_reconnect_queue b)"
  shows "waiting_ok (on_expired p b)"
    and "fst ` set (bb_reconnect_queue (on_expired p b)) = fst ` set (bb_reconnect_queue b) - {p}"
proof -
  have d: "distinct (map fst (bb_reconnect_queue b))"
    using assms(1) by (simp add: waiting_ok_def)
  note take = queue_take_fst [OF d, of p] queue_take_distinct [OF d, of p]
  show "fst ` set (bb_reconnect_queue (on_expired p b)) = fst ` set (bb_reconnect_queue b) - {p}"
    using take by (simp add: on_expired_def Let_def)
  show "waiting_ok (on_expired p b)"
    using assms take by (auto simp: waiting_ok_def on_expired_def Let_def)
qed

lemma waiting_expired_all:
  assumes "waiting_ok b" "distinct ps" "set ps \<subseteq> fst ` set (bb_reconnect_queue b)"
  shows "waiting_ok (fold on_expired ps b) \<and>
    fst ` set (bb_reconnect_queue (fold on_expired ps b)) = fst ` set (bb_reconnect_queue b) - set ps"
  using assms
proof (induction ps arbitrary: b)
  case (Cons p ps)
  then have "p \<in> fst ` set (bb_reconnect_queue b)"
    by simp
  note first = waiting_expired [OF Cons.prems(1) this]
  have "set ps \<subseteq> fst ` set (bb_reconnect_queue (on_expired p b))"
    unfolding first(2) using Cons.prems(2,3) by auto
  then have "waiting_ok (fold on_expired ps (on_expired p b)) \<and>
      fst ` set (bb_reconnect_queue (fold on_expired ps (on_expired p b))) =
      fst ` set (bb_reconnect_queue (on_expired p b)) - set ps"
    using Cons.IH [OF first(1)] Cons.prems(2) by simp
  moreover have "A - {p} - set ps = A - insert p (set ps)" for A
    by blast
  ultimately show ?case
    unfolding first(2) by simp
qed simp

lemma find_and_dial_fields [simp]:
  "bb_reconnect_queue (find_and_dial env p b) = bb_reconnect_queue b"
  "bb_reconnect_scheduled (find_and_dial env p b) = bb_reconnect_scheduled b"
  "bb_registered_workers (find_and_dial env p b) = bb_registered_workers b"
  "bb_outbound_conns (find_and_dial env p b) = bb_outbound_conns b"
  "bb_maintain_worker_connections (find_and_dial env p b) = bb_maintain_worker_connections b"
  "bb_max_concurrent_lookups (find_and_dial env p b) = bb_max_concurrent_lookups b"
  by (simp_all add: find_and_dial_def split: prod.splits)

text \<open>One round of the lookup loop, as a step of its own.\<close>

definition lookup_round ::
  "('c, 'k, 'p, 'a, 'q, 'l) base_env \<Rightarrow> 'p \<Rightarrow> 'p list \<Rightarrow> ('c, 'k, 'p, 'q, 'l, 'r) base \<Rightarrow> ('c, 'k, 'p, 'q, 'l, 'r) base"
where
  "lookup_round env p rest b =
    (let b' = b\<lparr>bb_pending_lookups := rest, bb_reconnect_scheduled := bb_reconnect_scheduled b - {p}\<rparr>
     in if \<not> outbound_conn_exists b' p then find_and_dial env p b' else b')"

lemma start_lookups_induct [case_names stop round]:
  assumes stop: "\<And>b. bb_max_concurrent_lookups b \<le> length (bb_ongoing_lookups b) \<or> bb_pending_lookups b = [] \<Longrightarrow> P b b"
    and round: "\<And>b p rest. length (bb_ongoing_lookups b) < bb_max_concurrent_lookups b \<Longrightarrow>
      bb_pending_lookups b = p # rest \<Longrightarrow>
      P (lookup_round env p rest b) (start_lookups env (lookup_round env p rest b)) \<Longrightarrow>
      P b (start_lookups env (lookup_round env p rest b))"
  shows "P b (start_lookups env b)"
proof (induction "length (bb_pending_lookups b)" arbitrary: b)
  case 0
  then have "bb_pending_lookups b = []" "start_lookups env b = b"
    by (simp_all add: start_lookups.simps)
  then show ?case
    using stop [of b] by simp
next
  case (Suc n)
  then obtain p rest where pending: "bb_pending_lookups b = p # rest" "length rest = n"
    by (metis length_Suc_conv)
  show ?case
  proof (cases "length (bb_ongoing_lookups b) < bb_max_concurrent_lookups b")
    case True
    have "start_lookups env b = start_lookups env (lookup_round env p rest b)"
      using True pending by (subst start_lookups.simps) (simp add: lookup_round_def Let_def)
    moreover have "length (bb_pending_lookups (lookup_round env p rest b)) = n"
      using pending by (simp add: lookup_round_def Let_def)
    ultimately show ?thesis
      using round [OF True pending(1)] Suc.hyps(1) by simp
  next
    case False
    then have "start_lookups env b = b"
      by (simp add: start_lookups.simps)
    then show ?thesis
      using stop [of b] False by simp
  qed
qed

section \<open>Lookups\<close>

text \<open>
  What is relied on of the engines: a query gets an identifier that was never issued before. \<open>issued\<close> are
  the identifiers issued so far.
\<close>

definition engine_laws :: "('k, 'p, 'a, 'q) engine_ops \<Rightarrow> ('k \<Rightarrow> 'q set) \<Rightarrow> bool" where
  "engine_laws ops issued \<longleftrightarrow>
    (\<forall>p k. fst (en_get_closest_peers ops p k) \<notin> issued k \<and>
      insert (fst (en_get_closest_peers ops p k)) (issued k) \<subseteq> issued (snd (en_get_closest_peers ops p k))) \<and>
    (\<forall>p a k. issued k \<subseteq> issued (en_add_address ops p a k)) \<and>
    (\<forall>k. issued k \<subseteq> issued (snd (en_bootstrap ops k))) \<and>
    (\<forall>k. issued k \<subseteq> issued (en_set_server_mode ops k))"

lemma issued_add_addresses:
  assumes "engine_laws ops issued"
  shows "issued k \<subseteq> issued (fold (en_add_address ops p) addrs k)"
proof (induction addrs arbitrary: k)
  case (Cons a addrs)
  have "issued k \<subseteq> issued (en_add_address ops p a k)"
    using assms by (simp add: engine_laws_def)
  then show ?case
    using Cons [of "en_add_address ops p a k"] by auto
qed simp

definition lookups_ok :: "('k \<Rightarrow> 'q set) \<Rightarrow> ('c, 'k, 'p, 'q, 'l, 'r) base \<Rightarrow> bool" where
  "lookups_ok issued b \<longleftrightarrow>
    distinct (map fst (bb_ongoing_lookups b)) \<and> distinct (map snd (bb_ongoing_lookups b)) \<and>
    snd ` set (bb_ongoing_lookups b) \<subseteq> issued (bb_engine b)"

lemma find_and_dial_lookups:
  assumes "engine_laws (be_engine env) issued" "lookups_ok issued b"
  shows "bb_ongoing_lookups (find_and_dial env p b) =
    (if cache_contains (be_cache env) p (bb_cache b) \<or> p \<in> fst ` set (bb_ongoing_lookups b) then bb_ongoing_lookups b
     else (p, fst (en_get_closest_peers (be_engine env) p (bb_engine b))) # bb_ongoing_lookups b)"
    and "lookups_ok issued (find_and_dial env p b)"
proof -
  obtain q k where query: "en_get_closest_peers (be_engine env) p (bb_engine b) = (q, k)"
    by fastforce
  have fresh: "q \<notin> issued (bb_engine b)" "insert q (issued (bb_engine b)) \<subseteq> issued k"
    using assms(1) query unfolding engine_laws_def by (metis fst_conv snd_conv)+
  have keep: "filter (\<lambda>(p', q'). p' \<noteq> p \<and> q' \<noteq> q) (bb_ongoing_lookups b) = bb_ongoing_lookups b"
    if "p \<notin> fst ` set (bb_ongoing_lookups b)"
    using that fresh(1) assms(2) by (force simp: filter_id_conv lookups_ok_def)
  show "bb_ongoing_lookups (find_and_dial env p b) =
    (if cache_contains (be_cache env) p (bb_cache b) \<or> p \<in> fst ` set (bb_ongoing_lookups b) then bb_ongoing_lookups b
     else (p, fst (en_get_closest_peers (be_engine env) p (bb_engine b))) # bb_ongoing_lookups b)"
    using keep by (simp add: find_and_dial_def bimap_contains_left_def bimap_insert_def query)
  then show "lookups_ok issued (find_and_dial env p b)"
    using assms(2) fresh
    by (auto simp: lookups_ok_def query find_and_dial_def bimap_contains_left_def)
qed

section \<open>No worker is forgotten\<close>

definition dial_peers :: "('p, 'r) to_swarm list \<Rightarrow> 'p set" where
  "dial_peers evs = (\<Union>ev \<in> set evs. dialled (Some ev))"

text \<open>The peer is connected, waits for its turn, is looked up, or is in the hands of the swarm.\<close>

definition attended :: "('c, 'k, 'p, 'q, 'l, 'r) base \<Rightarrow> 'p set \<Rightarrow> 'p \<Rightarrow> bool" where
  "attended b h p \<longleftrightarrow>
    outbound_conn_exists b p \<or> p \<in> bb_reconnect_scheduled b \<or> p \<in> fst ` set (bb_ongoing_lookups b) \<or>
    p \<in> dial_peers (bb_pending_events b) \<or> p \<in> h"

lemma outbound_conn_cong:
  "bb_outbound_conns b' p = bb_outbound_conns b p \<Longrightarrow> outbound_conn_exists b' p = outbound_conn_exists b p"
  by (simp add: outbound_conn_exists_def)

lemma outbound_conn_find_and_dial [simp]:
  "outbound_conn_exists (find_and_dial env p b) = outbound_conn_exists b"
  by (rule ext) (simp add: outbound_conn_exists_def)

lemma find_and_dial_events:
  "bb_pending_events (find_and_dial env p b) =
    (if cache_contains (be_cache env) p (bb_cache b)
     then bb_pending_events b @ [Dial p DisconnectedAndNotDialing] else bb_pending_events b)"
  by (simp add: find_and_dial_def split: prod.splits)

lemma find_and_dial_attended:
  assumes "engine_laws (be_engine env) issued" "lookups_ok issued b"
  shows "attended (find_and_dial env p b) h p"
    and "attended b h x \<Longrightarrow> attended (find_and_dial env p b) h x"
  by (auto simp: attended_def find_and_dial_lookups(1) [OF assms] find_and_dial_events dial_peers_def)

lemma lookup_round_ok:
  assumes "engine_laws (be_engine env) issued" "lookups_ok issued b" "waiting_ok b"
    and "bb_pending_lookups b = p # rest"
  shows "waiting_ok (lookup_round env p rest b)" "lookups_ok issued (lookup_round env p rest b)"
    "attended b h x \<Longrightarrow> attended (lookup_round env p rest b) h x"
    "length (bb_ongoing_lookups (lookup_round env p rest b)) \<le> Suc (length (bb_ongoing_lookups b))"
proof -
  define b' where "b' = b\<lparr>bb_pending_lookups := rest, bb_reconnect_scheduled := bb_reconnect_scheduled b - {p}\<rparr>"
  have round: "lookup_round env p rest b = (if \<not> outbound_conn_exists b' p then find_and_dial env p b' else b')"
    by (simp add: lookup_round_def b'_def)
  have ok: "lookups_ok issued b'" and waiting: "waiting_ok b'"
    using assms(2-4) by (auto simp: b'_def lookups_ok_def waiting_ok_def)
  note find = find_and_dial_lookups [OF assms(1) ok, of p] find_and_dial_attended [OF assms(1) ok]
  show "waiting_ok (lookup_round env p rest b)"
    using waiting by (simp add: round waiting_ok_cong [of "find_and_dial env p b'" b'])
  show "lookups_ok issued (lookup_round env p rest b)"
    using ok find by (simp add: round)
  show "length (bb_ongoing_lookups (lookup_round env p rest b)) \<le> Suc (length (bb_ongoing_lookups b))"
    using find(1) by (simp add: round b'_def)
  show "attended (lookup_round env p rest b) h x" if "attended b h x"
  proof (cases "x = p")
    case True
    then show ?thesis
      using find(3) by (auto simp: round attended_def)
  next
    case False
    then have "attended b' h x"
      using that by (simp add: attended_def b'_def outbound_conn_exists_def)
    then show ?thesis
      using find(4) by (auto simp: round)
  qed
qed

lemma lookup_round_fields [simp]:
  "bb_registered_workers (lookup_round env p rest b) = bb_registered_workers b"
  "bb_maintain_worker_connections (lookup_round env p rest b) = bb_maintain_worker_connections b"
  "bb_max_concurrent_lookups (lookup_round env p rest b) = bb_max_concurrent_lookups b"
  "bb_last_sent_confidence_step (lookup_round env p rest b) = bb_last_sent_confidence_step b"
  by (simp_all add: lookup_round_def find_and_dial_def Let_def split: prod.splits)

lemma start_lookups_ok:
  assumes laws: "engine_laws (be_engine env) issued" and "lookups_ok issued b" "waiting_ok b"
  shows "waiting_ok (start_lookups env b) \<and> lookups_ok issued (start_lookups env b)
    \<and> (\<forall>x. attended b h x \<longrightarrow> attended (start_lookups env b) h x)
    \<and> length (bb_ongoing_lookups (start_lookups env b))
        \<le> max (length (bb_ongoing_lookups b)) (bb_max_concurrent_lookups b)
    \<and> (bb_max_concurrent_lookups b \<le> length (bb_ongoing_lookups (start_lookups env b))
        \<or> bb_pending_lookups (start_lookups env b) = [])"
  using assms(2,3)
proof (induction b rule: start_lookups_induct [where env = env])
  case (stop b)
  then show ?case
    by auto
next
  case (round b p rest)
  note one = lookup_round_ok [OF laws round.prems round.hyps(2)]
  show ?case
    using round.IH [OF one(2,1)] one(3,4) round.hyps(1) by (auto simp: max_def split: if_splits)
qed

lemma start_lookups_fields:
  "bb_registered_workers (start_lookups env b) = bb_registered_workers b
    \<and> bb_maintain_worker_connections (start_lookups env b) = bb_maintain_worker_connections b
    \<and> bb_last_sent_confidence_step (start_lookups env b) = bb_last_sent_confidence_step b
    \<and> bb_reconnect_queue (start_lookups env b) = bb_reconnect_queue b"
proof (induction b rule: start_lookups_induct [where env = env])
  case (round b p rest)
  moreover have "bb_reconnect_queue (lookup_round env p rest b) = bb_reconnect_queue b"
    by (simp add: lookup_round_def Let_def)
  ultimately show ?case
    by simp
qed simp

lemma expired_fields:
  "bb_registered_workers (fold on_expired ps b) = bb_registered_workers b
    \<and> bb_maintain_worker_connections (fold on_expired ps b) = bb_maintain_worker_connections b
    \<and> bb_last_sent_confidence_step (fold on_expired ps b) = bb_last_sent_confidence_step b
    \<and> bb_ongoing_lookups (fold on_expired ps b) = bb_ongoing_lookups b
    \<and> bb_max_concurrent_lookups (fold on_expired ps b) = bb_max_concurrent_lookups b
    \<and> bb_engine (fold on_expired ps b) = bb_engine b"
proof (induction ps arbitrary: b)
  case (Cons p ps)
  then show ?case
    by (simp add: on_expired_def Let_def)
qed simp

lemma expired_attended:
  assumes "x \<in> bb_registered_workers b" "attended b h x"
  shows "attended (on_expired p b) h x"
  using assms by (auto simp: attended_def on_expired_def Let_def outbound_conn_exists_def split: option.splits)

lemma expired_all_attended:
  "x \<in> bb_registered_workers b \<Longrightarrow> attended b h x \<Longrightarrow> attended (fold on_expired ps b) h x"
proof (induction ps arbitrary: b)
  case (Cons p ps)
  have "bb_registered_workers (on_expired p b) = bb_registered_workers b"
    by (simp add: on_expired_def Let_def)
  then show ?case
    using Cons.IH [of "on_expired p b"] Cons.prems expired_attended by fastforce
qed simp

section \<open>The invariant\<close>

definition confidence_ok :: "nat option \<Rightarrow> bool" where
  "confidence_ok sent \<longleftrightarrow> (case sent of None \<Rightarrow> True | Some step \<Rightarrow> 1 \<le> step \<and> step \<le> 10)"

definition base_inv :: "('k \<Rightarrow> 'q set) \<Rightarrow> ('c, 'k, 'p, 'q, 'l, 'r) base \<times> 'p set \<Rightarrow> bool" where
  "base_inv issued s \<longleftrightarrow>
    (case s of (b, h) \<Rightarrow>
       waiting_ok b \<and> lookups_ok issued b \<and> confidence_ok (bb_last_sent_confidence_step b) \<and>
       bb_maintain_worker_connections b \<and> (\<forall>x \<in> bb_registered_workers b. attended b h x))"

text \<open>A change of the other components keeps the invariant.\<close>

lemma base_inv_cong:
  assumes "base_inv issued (b, h)"
    and "bb_reconnect_queue b' = bb_reconnect_queue b" "bb_pending_lookups b' = bb_pending_lookups b"
      "bb_reconnect_scheduled b' = bb_reconnect_scheduled b" "bb_ongoing_lookups b' = bb_ongoing_lookups b"
      "issued (bb_engine b) \<subseteq> issued (bb_engine b')" "bb_outbound_conns b' = bb_outbound_conns b"
      "bb_pending_events b' = bb_pending_events b" "bb_registered_workers b' = bb_registered_workers b"
      "bb_maintain_worker_connections b' = bb_maintain_worker_connections b"
      "confidence_ok (bb_last_sent_confidence_step b')"
  shows "base_inv issued (b', h)"
  using assms by (auto simp: base_inv_def waiting_ok_def lookups_ok_def attended_def outbound_conn_exists_def)

lemma base_inv_confidence: "base_inv issued (b, h) \<Longrightarrow> confidence_ok (bb_last_sent_confidence_step b)"
  by (simp add: base_inv_def)

lemma confidence_step_le: "confidence_step identified nodes \<le> 10"
proof -
  have "f32_round (min x 1 * 10) \<le> of_int 10" for x
    by (rule f32_round_le_int) auto
  then have "\<lfloor>f32_round (min x 1 * 10)\<rfloor> \<le> 10" for x
    using floor_mono floor_of_int by metis
  then show ?thesis
    unfolding confidence_step_def Let_def nat_le_iff by simp
qed

lemma confidence_emit:
  "confidence_ok (bb_last_sent_confidence_step b) \<Longrightarrow>
    confidence_ok (bb_last_sent_confidence_step (snd (try_emit_confidence b)))"
  using confidence_step_le [of "card (bb_identified_peers b)" "whitelist_size (bb_whitelist b)"]
  by (simp add: try_emit_confidence_def confidence_ok_def Let_def)

lemma emit_fields:
  "snd (try_emit_confidence b) = b\<lparr>bb_last_sent_confidence_step := bb_last_sent_confidence_step (snd (try_emit_confidence b))\<rparr>"
  by (simp add: try_emit_confidence_def Let_def)

lemma inv_identify:
  assumes "base_inv issued (b, h)" "engine_laws (be_engine env) issued"
  shows "base_inv issued (snd (on_identify_received env p addrs b), h)"
proof -
  let ?b = "b\<lparr>bb_cache := cache_put (be_cache env) p (filter (reachable (be_cache env)) addrs) (bb_cache b),
    bb_engine := fold (en_add_address (be_engine env) p) (filter (reachable (be_cache env)) addrs) (bb_engine b),
    bb_identified_peers := insert p (bb_identified_peers b)\<rparr>"
  have same: "snd (on_identify_received env p addrs b) = snd (try_emit_confidence ?b)"
    by (simp add: on_identify_received_def Let_def)
  have "confidence_ok (bb_last_sent_confidence_step (snd (try_emit_confidence ?b)))"
    using assms(1) by (intro confidence_emit) (simp add: base_inv_def)
  then show ?thesis
    unfolding same
    using assms(1) issued_add_addresses [OF assms(2), of "bb_engine b" p "filter (reachable (be_cache env)) addrs"]
    by (subst emit_fields) (auto intro!: base_inv_cong [of issued b h])
qed

lemma schedule_attended:
  assumes "bb_maintain_worker_connections b"
  shows "p \<in> bb_registered_workers b \<Longrightarrow> attended (schedule_reconnect now p b) h p"
    and "attended b h x \<Longrightarrow> attended (schedule_reconnect now p b) h x"
  using assms by (auto simp: schedule_reconnect_def attended_def Let_def outbound_conn_exists_def split: option.splits)

lemma schedule_fields [simp]:
  "bb_registered_workers (schedule_reconnect now p b) = bb_registered_workers b"
  "bb_maintain_worker_connections (schedule_reconnect now p b) = bb_maintain_worker_connections b"
  "bb_last_sent_confidence_step (schedule_reconnect now p b) = bb_last_sent_confidence_step b"
  "bb_ongoing_lookups (schedule_reconnect now p b) = bb_ongoing_lookups b"
  "bb_engine (schedule_reconnect now p b) = bb_engine b"
  by (simp_all add: schedule_reconnect_def Let_def)

text \<open>Scheduling repairs the invariant for the one peer that has just lost its claim.\<close>

lemma inv_schedule:
  assumes "waiting_ok b" "lookups_ok issued b" "confidence_ok (bb_last_sent_confidence_step b)"
    and "bb_maintain_worker_connections b"
    and "\<And>x. x \<in> bb_registered_workers b \<Longrightarrow> x \<noteq> p \<Longrightarrow> attended b h x"
  shows "base_inv issued (schedule_reconnect now p b, h)"
proof -
  have "attended (schedule_reconnect now p b) h x" if "x \<in> bb_registered_workers b" for x
    using schedule_attended [OF assms(4)] assms(5) that by (cases "x = p") auto
  then show ?thesis
    using assms(1-4) waiting_schedule by (simp add: base_inv_def lookups_ok_def)
qed

lemma inv_established:
  assumes "base_inv issued (b, h)" "dialer \<Longrightarrow> bb_outbound_conns b p \<noteq> Some (- 1)"
  shows "base_inv issued (on_connection_established dialer p b, if dialer then h - {p} else h)"
proof (cases dialer)
  case True
  let ?b = "on_connection_established True p b"
  have "x + 1 \<noteq> 0" if "bb_outbound_conns b p = Some x" for x
    using assms(2) [OF True] that by (metis add.commute add.right_inverse add_left_cancel)
  then have "outbound_conn_exists ?b p"
    by (auto simp: on_connection_established_def outbound_conn_exists_def word_gt_0 split: option.splits)
  moreover have "attended ?b (h - {p}) x" if "attended b h x" "x \<noteq> p" for x
    using that by (simp add: attended_def on_connection_established_def outbound_conn_exists_def)
  ultimately have "attended ?b (h - {p}) x" if "attended b h x" for x
    using that by (cases "x = p") (auto simp: attended_def)
  then show ?thesis
    using assms(1) True
    by (auto simp: base_inv_def waiting_ok_def lookups_ok_def on_connection_established_def)
next
  case False
  then show ?thesis
    using assms(1) by (simp add: on_connection_established_def)
qed

lemma inv_closed:
  assumes "base_inv issued (b, h)" "dialer \<Longrightarrow> outbound_conn_exists b p"
  shows "base_inv issued (on_connection_closed now dialer p b, h)"
proof (cases dialer)
  case True
  then obtain x where x: "bb_outbound_conns b p = Some x"
    using assms(2) by (auto simp: outbound_conn_exists_def split: option.splits)
  let ?b = "b\<lparr>bb_outbound_conns := (bb_outbound_conns b)(p \<mapsto> x - 1)\<rparr>"
  have "base_inv issued (schedule_reconnect now p ?b, h)"
    by (rule inv_schedule)
      (use assms(1) in \<open>auto simp: base_inv_def waiting_ok_def lookups_ok_def attended_def outbound_conn_exists_def\<close>)
  then show ?thesis
    using True x by (simp add: on_connection_closed_def)
next
  case False
  then show ?thesis
    using assms(1) by (simp add: on_connection_closed_def)
qed

lemma inv_dial_failure:
  assumes "base_inv issued (b, h)"
  shows "base_inv issued (dial_failure_event env now peer err b, if dial_unreachable err then h - set_option peer else h)"
proof -
  let ?b = "b\<lparr>bb_cache := cache_on_dial_failure (be_cache env) peer err (bb_cache b)\<rparr>"
  have b: "base_inv issued (?b, h)"
    using assms by (rule base_inv_cong) (use assms in \<open>simp_all add: base_inv_def\<close>)
  show ?thesis
  proof (cases peer)
    case None
    then show ?thesis
      using b by (simp add: dial_failure_event_def on_dial_failure_def)
  next
    case (Some p)
    have "base_inv issued (schedule_reconnect now p ?b, h - {p})"
      by (rule inv_schedule) (use b in \<open>auto simp: base_inv_def attended_def\<close>)
    then show ?thesis
      using b Some by (auto simp: dial_failure_event_def on_dial_failure_def dial_unreachable_def)
  qed
qed

lemma bimap_get_by_right_SomeD: "bimap_get_by_right q m = Some p \<Longrightarrow> (p, q) \<in> set m"
  by (auto simp: bimap_get_by_right_def find_Some_iff) (metis nth_mem)

lemma finished_lookup:
  assumes "lookups_ok issued b" "bimap_get_by_right q (bb_ongoing_lookups b) = Some p"
  shows "lookups_ok issued (b\<lparr>bb_ongoing_lookups := bimap_remove_by_right q (bb_ongoing_lookups b)\<rparr>)"
    and "fst ` set (bimap_remove_by_right q (bb_ongoing_lookups b)) = fst ` set (bb_ongoing_lookups b) - {p}"
proof -
  let ?m = "bb_ongoing_lookups b"
  have inj: "inj_on fst (set ?m)" "inj_on snd (set ?m)"
    using assms(1) by (simp_all add: lookups_ok_def distinct_map)
  have p: "(p, q) \<in> set ?m"
    by (rule bimap_get_by_right_SomeD [OF assms(2)])
  have rest: "set (bimap_remove_by_right q ?m) = set ?m - {(p, q)}"
  proof -
    have "a = p" if "(a, q) \<in> set ?m" for a
      using inj_onD [OF inj(2), of "(a, q)" "(p, q)"] that p by simp
    then show ?thesis
      by (auto simp: bimap_remove_by_right_def)
  qed
  show "fst ` set (bimap_remove_by_right q ?m) = fst ` set ?m - {p}"
    unfolding rest using inj(1) p by (simp add: inj_on_image_set_diff)
  show "lookups_ok issued (b\<lparr>bb_ongoing_lookups := bimap_remove_by_right q ?m\<rparr>)"
    using assms(1) by (auto simp: lookups_ok_def bimap_remove_by_right_def distinct_map_filter)
qed

lemma inv_kademlia:
  assumes "base_inv issued (b, h)" "on_kademlia_event env kev b = (out, b')"
  shows "base_inv issued (b', h \<union> dialled out)"
proof -
  have cached: "base_inv issued (b\<lparr>bb_cache := c\<rparr>, h)" for c
    using assms(1) by (rule base_inv_cong) (use assms(1) in \<open>simp_all add: base_inv_def\<close>)
  show ?thesis
  proof (cases kev)
    case (ClosestPeers q peers is_last)
    show ?thesis
    proof (cases "bimap_get_by_right q (bb_ongoing_lookups b)")
      case None
      then show ?thesis
        using assms ClosestPeers by (simp add: on_kademlia_event_def)
    next
      case (Some p)
      define finished where "finished \<longleftrightarrow> is_last \<or> find (\<lambda>(p', addrs). p' = p) peers \<noteq> None"
      obtain c where b': "b' = (if finished
          then b\<lparr>bb_ongoing_lookups := bimap_remove_by_right q (bb_ongoing_lookups b)\<rparr> else b)\<lparr>bb_cache := c\<rparr>"
        and out: "out = (if finished then Some (Dial p NotDialing) else None)"
      proof (cases "find (\<lambda>(p', addrs). p' = p) peers")
        case None
        then show ?thesis
          using that [of "bb_cache b"] assms(2) ClosestPeers Some
          by (auto simp: on_kademlia_event_def finished_def Let_def)
      next
        case (Some info)
        then show ?thesis
          using that [of "cache_put (be_cache env) p (snd info) (bb_cache b)"] assms(2) ClosestPeers
            \<open>bimap_get_by_right q (bb_ongoing_lookups b) = Some p\<close>
          by (auto simp: on_kademlia_event_def finished_def Let_def case_prod_unfold)
      qed
      note lookup = finished_lookup [OF _ Some, of issued]
      show ?thesis
        using assms(1) lookup cached [of c] unfolding b' out
        by (auto simp: base_inv_def lookups_ok_def waiting_ok_def attended_def outbound_conn_exists_def)
    qed
  qed (use assms cached in \<open>auto simp: on_kademlia_event_def\<close>)
qed

lemma queue_worker_attended:
  "attended (queue_worker p b) h p" "attended b h x \<Longrightarrow> attended (queue_worker p b) h x"
  by (auto simp: queue_worker_def attended_def outbound_conn_exists_def)

lemma queue_workers_attended:
  "x \<in> set ps \<or> attended b h x \<Longrightarrow> attended (fold queue_worker ps b) h x"
proof (induction ps arbitrary: b)
  case (Cons p ps)
  then have "x \<in> set ps \<or> attended (queue_worker p b) h x"
    using queue_worker_attended by (metis set_ConsD)
  then show ?case
    using Cons.IH [of "queue_worker p b"] by simp
qed simp

lemma queue_workers_fields:
  "bb_registered_workers (fold queue_worker ps b) = bb_registered_workers b
    \<and> bb_maintain_worker_connections (fold queue_worker ps b) = bb_maintain_worker_connections b
    \<and> bb_last_sent_confidence_step (fold queue_worker ps b) = bb_last_sent_confidence_step b
    \<and> bb_ongoing_lookups (fold queue_worker ps b) = bb_ongoing_lookups b
    \<and> bb_engine (fold queue_worker ps b) = bb_engine b"
  by (induction ps arbitrary: b) (simp_all add: queue_worker_def)

definition iter_ok :: "('p set \<Rightarrow> 'p list) \<Rightarrow> bool" where
  "iter_ok iter \<longleftrightarrow> (\<forall>s. finite s \<longrightarrow> set (iter s) = s)"

lemma inv_nodes_update:
  assumes "base_inv issued (b, h)" "engine_laws (be_engine env) issued" "iter_ok (be_iter env)"
    and "finite (nn_workers nodes)"
  shows "base_inv issued (base_on_nodes_update env nodes b, h)"
proof -
  define k where "k = (if bb_whitelist_initialized b \<or> en_bootstrap_ongoing (be_engine env) (bb_engine b)
    then bb_engine b else snd (en_bootstrap (be_engine env) (bb_engine b)))"
  define b1 where "b1 = b\<lparr>bb_registered_workers := nn_workers nodes, bb_whitelist_initialized := True, bb_engine := k\<rparr>"
  let ?ps = "be_iter env (nn_workers nodes)"
  have start: "base_on_nodes_update env nodes b = fold queue_worker ?ps b1"
    using assms(1) unfolding base_on_nodes_update_def base_inv_def b1_def k_def Let_def by (cases b) simp
  have "issued (bb_engine b) \<subseteq> issued k"
    using assms(2) by (simp add: k_def engine_laws_def)
  moreover have "attended (fold queue_worker ?ps b1) h x" if "x \<in> nn_workers nodes" for x
    using that assms(3,4) by (intro queue_workers_attended) (simp add: iter_ok_def)
  moreover have "waiting_ok (fold queue_worker ?ps b1)"
    using assms(1) by (intro waiting_queue_workers) (simp add: base_inv_def waiting_ok_def b1_def)
  ultimately show ?thesis
    unfolding start using assms(1) by (auto simp: base_inv_def lookups_ok_def queue_workers_fields b1_def)
qed

lemma inv_nodes:
  assumes "base_inv issued (b, h)" "engine_laws (be_engine env) issued" "iter_ok (be_iter env)"
    and "\<And>ns. res = Ok ns \<Longrightarrow> finite (nn_workers ns)"
  shows "base_inv issued (nodes_event env res b, h)"
proof -
  obtain ev wh where update: "whitelist_on_nodes_update (be_allow env) (be_iter env) res (bb_whitelist b) = (ev, wh)"
    by fastforce
  have b: "base_inv issued (b\<lparr>bb_whitelist := wh\<rparr>, h)"
    using assms(1) by (rule base_inv_cong) (use assms(1) in \<open>simp_all add: base_inv_def\<close>)
  show ?thesis
  proof (cases ev)
    case (Some nodes)
    then have "res = Ok nodes"
      using update by (auto simp: whitelist_on_nodes_update_def Let_def split: result.splits if_splits)
    then show ?thesis
      using inv_nodes_update [OF b assms(2,3)] assms(4) update Some by (simp add: nodes_event_def)
  qed (use b update in \<open>simp add: nodes_event_def\<close>)
qed

lemma due_queued:
  assumes "waiting_ok b" "mset expired = mset (due now (bb_reconnect_queue b))"
  shows "distinct expired" "set expired \<subseteq> fst ` set (bb_reconnect_queue b)"
proof -
  have "distinct (due now (bb_reconnect_queue b))"
    using assms(1) by (simp add: waiting_ok_def due_def distinct_map_filter)
  then show "distinct expired"
    using assms(2) mset_eq_imp_distinct_iff by blast
  show "set expired \<subseteq> fst ` set (bb_reconnect_queue b)"
    using mset_eq_setD [OF assms(2)] by (auto simp: due_def)
qed

lemma inv_poll:
  assumes "base_inv issued (b, h)" "engine_laws (be_engine env) issued"
    and "mset expired = mset (due now (bb_reconnect_queue b))" "base_poll env expired b = (out, b')"
  shows "base_inv issued (b', h \<union> dialled (polled out))"
proof -
  let ?e = "fold on_expired expired b"
  let ?l = "start_lookups env ?e"
  have waiting: "waiting_ok b"
    using assms(1) by (simp add: base_inv_def)
  have e: "waiting_ok ?e" "lookups_ok issued ?e"
    using waiting_expired_all [OF waiting due_queued [OF waiting assms(3)]] assms(1)
    by (simp_all add: base_inv_def lookups_ok_def expired_fields)
  note l = start_lookups_ok [OF assms(2) e(2,1), of h]
  have inv: "base_inv issued (?l, h)"
    using assms(1) l expired_all_attended [of _ b h expired]
    by (auto simp: base_inv_def start_lookups_fields expired_fields)
  show ?thesis
  proof (cases "bb_pending_events ?l")
    case Nil
    then show ?thesis
      using assms(4) inv by (auto simp: base_poll_def)
  next
    case (Cons ev evs)
    then have "out = Ready ev" "b' = ?l\<lparr>bb_pending_events := evs\<rparr>"
      using assms(4) by (auto simp: base_poll_def)
    then show ?thesis
      using inv Cons
      by (auto simp: base_inv_def waiting_ok_def lookups_ok_def attended_def dial_peers_def outbound_conn_exists_def)
  qed
qed

lemma inv_find:
  assumes "base_inv issued (b, h)" "engine_laws (be_engine env) issued"
  shows "base_inv issued (find_and_dial env p b, h)"
proof -
  have ok: "lookups_ok issued b"
    using assms(1) by (simp add: base_inv_def)
  have "bb_last_sent_confidence_step (find_and_dial env p b) = bb_last_sent_confidence_step b"
    by (simp add: find_and_dial_def split: prod.splits)
  then show ?thesis
    using assms(1) find_and_dial_lookups(2) [OF assms(2) ok] find_and_dial_attended(2) [OF assms(2) ok]
      waiting_ok_cong [of "find_and_dial env p b" b]
    by (simp add: base_inv_def)
qed

theorem base_inv_reachable:
  assumes "base_reachable env s" "engine_laws (be_engine env) issued" "iter_ok (be_iter env)"
  shows "base_inv issued s"
  using assms(1)
proof induction
  case (start cfg k l boot_nodes)
  then show ?case
    by (simp add: base_inv_def base_new_def maintain_worker_connections_def waiting_ok_def lookups_ok_def
        confidence_ok_def)
next
  case (step s s')
  from step.hyps(2) step.IH show ?case
  proof cases
    case (established dialer b p h)
    then show ?thesis
      using inv_established [of issued b h dialer p] step.IH by simp
  next
    case (dial_failure b h now peer err)
    then show ?thesis
      using inv_dial_failure [of issued b h env now peer err] step.IH by simp
  next
    case (cache b h cev)
    then show ?thesis
      using step.IH by (auto intro!: base_inv_cong [of issued b h] dest: base_inv_confidence)
  next
    case (allow b h p)
    then show ?thesis
      using step.IH by (auto intro!: base_inv_cong [of issued b h] dest: base_inv_confidence simp: base_allow_peer_def)
  next
    case (server b h)
    moreover have "issued (bb_engine b) \<subseteq> issued (en_set_server_mode (be_engine env) (bb_engine b))"
      using assms(2) by (simp add: engine_laws_def)
    ultimately show ?thesis
      using step.IH by (auto intro!: base_inv_cong [of issued b h] dest: base_inv_confidence simp: set_server_mode_def)
  next
    case (identify p addrs b out b' h)
    then show ?thesis
      using step.IH inv_identify [OF _ assms(2)] by (metis snd_conv)
  qed (use assms(2,3) in \<open>auto intro: inv_closed inv_kademlia inv_nodes inv_find inv_poll\<close>)
qed

end
