(* ===== verification/Base_Properties.thy ===== *)
theory Base_Properties
  imports Base_Invariants
begin

text \<open>
  What the base behaviour guarantees in every reachable state, with a small network to run it on.
\<close>

section \<open>Guarantees\<close>

text \<open>
  C27: In every reachable state a peer waits for a reconnection in at most one place: the delay queue and
  the list of pending lookups hold no peer twice, and together they hold exactly the scheduled peers. No
  peer is looked up twice at a time, and the confidence sent last is between one and ten tenths.
\<close>

theorem base_waits_once:
  assumes "base_reachable env (b, h)" "engine_laws (be_engine env) issued" "iter_ok (be_iter env)"
  shows "distinct (map fst (bb_reconnect_queue b) @ bb_pending_lookups b)
    \<and> set (map fst (bb_reconnect_queue b) @ bb_pending_lookups b) = bb_reconnect_scheduled b
    \<and> distinct (map fst (bb_ongoing_lookups b)) \<and> distinct (map snd (bb_ongoing_lookups b))
    \<and> (case bb_last_sent_confidence_step b of None \<Rightarrow> True | Some step \<Rightarrow> 1 \<le> step \<and> step \<le> 10)"
  using base_inv_reachable [OF assms] by (simp add: base_inv_def waiting_ok_def lookups_ok_def confidence_ok_def)

text \<open>
  C8: A node that maintains its worker connections never forgets a worker: in every reachable state each
  registered worker has an outbound connection, or waits for a reconnection, or is being looked up, or is
  queued for dialling, or was handed to the swarm, which has not reported it connected or unreachable since.
\<close>

theorem base_no_worker_forgotten:
  assumes "base_reachable env (b, h)" "engine_laws (be_engine env) issued" "iter_ok (be_iter env)"
    and "p \<in> bb_registered_workers b"
  shows "outbound_conn_exists b p \<or> p \<in> bb_reconnect_scheduled b \<or> p \<in> fst ` set (bb_ongoing_lookups b)
    \<or> p \<in> dial_peers (bb_pending_events b) \<or> p \<in> h"
  using base_inv_reachable [OF assms(1-3)] assms(4) by (auto simp: base_inv_def attended_def)

text \<open>Every due entry leaves the queue in a poll.\<close>

lemma poll_queue:
  assumes "waiting_ok b" "mset expired = mset (due now (bb_reconnect_queue b))"
    and "base_poll env expired b = (out, b')"
  shows "fst ` set (bb_reconnect_queue b') = fst ` set (bb_reconnect_queue b) - set (due now (bb_reconnect_queue b))"
proof -
  have "bb_reconnect_queue b' = bb_reconnect_queue (fold on_expired expired b)"
    using assms(3) by (auto simp: base_poll_def Let_def start_lookups_fields split: list.splits)
  then show ?thesis
    using waiting_expired_all [OF assms(1) due_queued [OF assms(1,2)]] mset_eq_setD [OF assms(2)] by simp
qed

text \<open>
  C28: A poll makes progress within its bounds. Every peer whose cooldown is over leaves the delay queue; the
  ongoing lookups do not grow past the configured maximum; when the poll stops below it, no lookup is left
  pending; and a poll that returns nothing has no event left to deliver.
\<close>

theorem base_poll_progress:
  assumes "base_reachable env (b, h)" "engine_laws (be_engine env) issued" "iter_ok (be_iter env)"
    and "mset expired = mset (due now (bb_reconnect_queue b))" "base_poll env expired b = (out, b')"
  shows "fst ` set (bb_reconnect_queue b') = fst ` set (bb_reconnect_queue b) - set (due now (bb_reconnect_queue b))
    \<and> length (bb_ongoing_lookups b') \<le> max (length (bb_ongoing_lookups b)) (bb_max_concurrent_lookups b)
    \<and> (bb_max_concurrent_lookups b \<le> length (bb_ongoing_lookups b') \<or> bb_pending_lookups b' = [])
    \<and> (out = Pending \<longrightarrow> bb_pending_events b' = [])"
proof -
  have inv: "waiting_ok b" "lookups_ok issued b"
    using base_inv_reachable [OF assms(1-3)] by (simp_all add: base_inv_def)
  let ?e = "fold on_expired expired b"
  have e: "lookups_ok issued ?e" "waiting_ok ?e"
    using waiting_expired_all [OF inv(1) due_queued [OF inv(1) assms(4)]] inv(2)
    by (simp_all add: lookups_ok_def expired_fields)
  have "bb_ongoing_lookups b' = bb_ongoing_lookups (start_lookups env ?e)"
    "bb_pending_lookups b' = bb_pending_lookups (start_lookups env ?e)"
    "out = Pending \<longrightarrow> bb_pending_events b' = []"
    using assms(5) by (auto simp: base_poll_def Let_def split: list.splits)
  then show ?thesis
    using start_lookups_ok [OF assms(2) e, of h] poll_queue [OF inv(1) assms(4,5)] by (simp add: expired_fields)
qed

section \<open>A small network\<close>

definition sample_cache_ops :: "(unit, nat, unit) cache_ops" where
  "sample_cache_ops = \<lparr>lo_new = (\<lambda>_. ()), lo_update = (\<lambda>_ _ c. c), lo_pop = (\<lambda>_ c. c), lo_contains = (\<lambda>_ _. False),
    lo_get = (\<lambda>_ c. (None, c)), ad_first = (\<lambda>_. None), ad_with_p2p = (\<lambda>_ a. Ok a), ad_private_network = False\<rparr>"

definition sample_engine_ops :: "(nat, nat, unit, nat) engine_ops" where
  "sample_engine_ops = \<lparr>en_get_closest_peers = (\<lambda>_ k. (k, Suc k)), en_add_address = (\<lambda>_ _ k. k),
    en_add_autonat_server = (\<lambda>_ _ k. k), en_bootstrap_ongoing = (\<lambda>_. False), en_bootstrap = (\<lambda>k. (True, Suc k)),
    en_set_server_mode = (\<lambda>k. k)\<rparr>"

definition sample_env :: "(unit, nat, nat, unit, nat, nat set) base_env" where
  "sample_env = \<lparr>be_cache = sample_cache_ops, be_engine = sample_engine_ops, be_allow = set_allow_ops,
    be_iter = sorted_list_of_set\<rparr>"

lemma sample_laws: "engine_laws (be_engine sample_env) (\<lambda>k. {..<k})" "iter_ok (be_iter sample_env)"
  by (auto simp: sample_env_def sample_engine_ops_def engine_laws_def iter_ok_def)

definition sample_base_config :: base_config where
  "sample_base_config = \<lparr>bc_onchain_update_interval = 60, bc_autonat_timeout = 60, bc_identify_interval = 600,
    bc_kad_query_timeout = 5, bc_max_pubsub_msg_size = 65536, bc_addr_cache_size = 1024,
    bc_max_concurrent_lookups = 1, bc_reconnect_cooldown = 30\<rparr>"

type_synonym sample_base = "(unit, nat, nat, nat, nat set, unit) base"

definition sample_base0 :: sample_base where
  "sample_base0 = maintain_worker_connections (base_new sample_env sample_base_config 0 {} [])"

definition sample_base1 :: sample_base where
  "sample_base1 = nodes_event sample_env (Ok \<lparr>nn_portals = {}, nn_workers = {4, 5}\<rparr>) sample_base0"

definition sample_base2 :: sample_base where
  "sample_base2 = snd (base_poll sample_env [] sample_base1)"

lemma sample_base1_eq:
  "sample_base1 = sample_base0\<lparr>bb_whitelist := \<lparr>wh_allow = {4, 5}, wh_registered_nodes = {4, 5}\<rparr>,
    bb_registered_workers := {4, 5}, bb_whitelist_initialized := True, bb_engine := 1,
    bb_reconnect_scheduled := {4, 5}, bb_pending_lookups := [4, 5]\<rparr>"
proof -
  have iter: "sorted_list_of_set {4, 5 :: nat} = [4, 5]" "sorted_list_of_set ({} :: nat set) = []"
    by code_simp+
  let ?nodes = "\<lparr>nn_portals = {}, nn_workers = {4, 5}\<rparr> :: nat network_nodes"
  have update: "whitelist_on_nodes_update set_allow_ops sorted_list_of_set (Ok ?nodes) (whitelist_new {}) =
      (Some ?nodes, \<lparr>wh_allow = {4, 5}, wh_registered_nodes = {4, 5}\<rparr>)"
    by (auto simp: whitelist_on_nodes_update_def nodes_all_def whitelist_new_def set_allow_ops_def iter Let_def)
  show ?thesis
    unfolding sample_base1_def sample_base0_def
    by (simp add: nodes_event_def base_on_nodes_update_def base_new_def maintain_worker_connections_def
        sample_env_def sample_engine_ops_def update)
      (auto simp: queue_worker_def outbound_conn_exists_def iter)
qed

lemma sample_base2_poll:
  "base_poll sample_env [] sample_base1 = (Pending, sample_base2)"
  "sample_base2 = sample_base1\<lparr>bb_engine := 2, bb_ongoing_lookups := [(4, 1)], bb_pending_lookups := [5],
    bb_reconnect_scheduled := {5}\<rparr>"
proof -
  have "base_poll sample_env [] sample_base1 = (Pending, sample_base1\<lparr>bb_engine := 2,
      bb_ongoing_lookups := [(4, 1)], bb_pending_lookups := [5], bb_reconnect_scheduled := {5}\<rparr>)"
    unfolding sample_base1_eq sample_base0_def
    by (auto simp: base_poll_def base_new_def maintain_worker_connections_def start_lookups.simps find_and_dial_def
        outbound_conn_exists_def sample_env_def sample_engine_ops_def sample_cache_ops_def sample_base_config_def
        cache_contains_def bimap_contains_left_def bimap_insert_def Let_def)
  then show "base_poll sample_env [] sample_base1 = (Pending, sample_base2)"
    "sample_base2 = sample_base1\<lparr>bb_engine := 2, bb_ongoing_lookups := [(4, 1)], bb_pending_lookups := [5],
      bb_reconnect_scheduled := {5}\<rparr>"
    by (simp_all add: sample_base2_def)
qed

lemma sample_base_reachable:
  "base_reachable sample_env (sample_base1, {})" "base_reachable sample_env (sample_base2, {})"
proof -
  have "base_reachable sample_env (sample_base0, {})"
    unfolding sample_base0_def by (rule base_reachable.start)
  moreover have "base_step sample_env (sample_base0, {}) (sample_base1, {})"
    unfolding sample_base1_def by (rule base_step.nodes) auto
  ultimately show one: "base_reachable sample_env (sample_base1, {})"
    by (rule base_reachable.step)
  have "base_step sample_env (sample_base1, {}) (sample_base2, {} \<union> dialled (polled (Pending :: (nat, unit) to_swarm poll)))"
    by (rule base_step.poll [where now = 0, OF _ sample_base2_poll(1)])
      (simp add: due_def sample_base1_eq sample_base0_def base_new_def maintain_worker_connections_def)
  then show "base_reachable sample_env (sample_base2, {})"
    using base_reachable.step [OF one] by simp
qed

lemma base_waits_once_witness:
  "bb_pending_lookups sample_base1 = [4, 5] \<and> bb_reconnect_scheduled sample_base1 = {4, 5}
    \<and> distinct (bb_pending_lookups sample_base1)"
  using base_waits_once [OF sample_base_reachable(1) sample_laws] by (simp add: sample_base1_eq)

lemma base_no_worker_forgotten_witness:
  "4 \<in> bb_registered_workers sample_base2 \<and> 4 \<notin> bb_reconnect_scheduled sample_base2
    \<and> \<not> outbound_conn_exists sample_base2 4 \<and> 4 \<in> fst ` set (bb_ongoing_lookups sample_base2)"
proof -
  have registered: "4 \<in> bb_registered_workers sample_base2"
    by (simp add: sample_base2_poll(2) sample_base1_eq)
  have "outbound_conn_exists sample_base2 4 \<or> 4 \<in> bb_reconnect_scheduled sample_base2
    \<or> 4 \<in> fst ` set (bb_ongoing_lookups sample_base2) \<or> 4 \<in> dial_peers (bb_pending_events sample_base2) \<or> 4 \<in> ({} :: nat set)"
    by (rule base_no_worker_forgotten [OF sample_base_reachable(2) sample_laws registered])
  moreover have "\<not> outbound_conn_exists sample_base2 4" "dial_peers (bb_pending_events sample_base2) = {}"
    "4 \<notin> bb_reconnect_scheduled sample_base2"
    by (simp_all add: sample_base2_poll(2) sample_base1_eq sample_base0_def base_new_def
        maintain_worker_connections_def outbound_conn_exists_def dial_peers_def)
  ultimately show ?thesis
    using registered by simp
qed

lemma base_poll_progress_witness:
  "length (bb_ongoing_lookups sample_base2) \<le> 1 \<and> bb_pending_lookups sample_base2 = [5]
    \<and> bb_pending_events sample_base2 = []"
proof -
  have empty: "bb_reconnect_queue sample_base1 = []" "bb_ongoing_lookups sample_base1 = []"
    "bb_max_concurrent_lookups sample_base1 = 1"
    by (simp_all add: sample_base1_eq sample_base0_def base_new_def maintain_worker_connections_def
        sample_base_config_def)
  then have "mset [] = mset (due 0 (bb_reconnect_queue sample_base1))"
    by (simp add: due_def)
  from base_poll_progress [OF sample_base_reachable(1) sample_laws this sample_base2_poll(1)] show ?thesis
    using empty by (simp add: sample_base2_poll(2))
qed

end
