(* ===== verification/Query_Exchange.thy ===== *)
theory Query_Exchange
  imports Stream_Exchange Base_Properties Rust_Std Contract_Config
begin

text \<open>
  Queries between the actors: the portal and its log listeners (\<^verbatim>\<open>crates/transport/src/actors/portal.rs\<close>),
  the worker (\<^verbatim>\<open>actors/worker.rs\<close>), the SQL client (\<^verbatim>\<open>actors/sql_client.rs\<close>), the collectors
  (\<^verbatim>\<open>actors/logs_collector.rs\<close>, \<^verbatim>\<open>pings_collector.rs\<close>, \<^verbatim>\<open>portal_logs_collector.rs\<close>) and the limits they share
  (\<^verbatim>\<open>protocol.rs\<close>). The protobuf encodings are parameters. The tasks that drive the swarm and call the
  handlers are in \<^verbatim>\<open>Actor_Tasks\<close>.
\<close>

section \<open>Limits\<close>

definition MAX_RAW_QUERY_SIZE :: u64 where "MAX_RAW_QUERY_SIZE = 256 * 1024"
definition MAX_QUERY_MSG_SIZE :: u64 where "MAX_QUERY_MSG_SIZE = 4 * 1024 * 1024 + 1024"
definition MAX_SQL_QUERY_MSG_SIZE :: u64 where "MAX_SQL_QUERY_MSG_SIZE = 257 * 1024"
definition MAX_QUERY_RESULT_SIZE :: u64 where "MAX_QUERY_RESULT_SIZE = 250 * 1024 * 1024"
definition MAX_LOGS_REQUEST_SIZE :: u64 where "MAX_LOGS_REQUEST_SIZE = 100"
definition MAX_LOGS_RESPONSE_SIZE :: u64 where "MAX_LOGS_RESPONSE_SIZE = 10 * 1024 * 1024"
definition MAX_PUBSUB_MSG_SIZE :: nat where "MAX_PUBSUB_MSG_SIZE = 65536"
definition MAX_HEARTBEAT_SIZE :: u64 where "MAX_HEARTBEAT_SIZE = 10 * 1024 * 1024"
definition MAX_LOG_MSG_SIZE :: u64 where "MAX_LOG_MSG_SIZE = 257 * 1024"
definition MAX_LOG_RESULT_SIZE :: u64 where "MAX_LOG_RESULT_SIZE = 0"
definition MAX_LOGS_MSG_SIZE :: u64 where "MAX_LOGS_MSG_SIZE = 25 * 1024 * 1024"
definition MAX_LOGS_RESULT_SIZE :: u64 where "MAX_LOGS_RESULT_SIZE = 0"

definition dht_protocol :: "chain_network \<Rightarrow> string" where
  "dht_protocol net =
    (case net of Tethys \<Rightarrow> ''/subsquid/dht/tethys/1.0.0'' | Mainnet \<Rightarrow> ''/subsquid/dht/mainnet/1.0.0'')"

section \<open>The portal\<close>

datatype query_failure =
    InvalidRequest string
  | QueryTimeout timeout_kind
  | TransportError string
  | InvalidResponse string

definition query_failure_of :: "request_error \<Rightarrow> query_failure" where
  "query_failure_of e =
    (case e of Timeout t \<Rightarrow> QueryTimeout t | _ \<Rightarrow> TransportError (request_error_display e))"

record portal_config =
  pc_query_config :: client_config
  pc_listeners_queue_size :: nat
  pc_lookup_interval :: nat
  pc_log_sending_timeout :: nat

definition portal_config_default :: portal_config where
  "portal_config_default =
    \<lparr>pc_query_config = client_config_default\<lparr>cf_max_response_size := MAX_QUERY_RESULT_SIZE\<rparr>,
     pc_listeners_queue_size = 20, pc_lookup_interval = 60000, pc_log_sending_timeout = 10000\<rparr>"

definition send_query ::
  "('q \<Rightarrow> u8 list) \<Rightarrow> (u8 list \<Rightarrow> (string, 'r) result) \<Rightarrow> ('p \<Rightarrow> u8 list \<Rightarrow> exchange) \<Rightarrow> 'p \<Rightarrow> 'q \<Rightarrow>
    'p stream_client \<Rightarrow> (query_failure, 'r) result \<times> 'p stream_client"
where
  "send_query enc dec net peer_id query h =
    (let query_size = length (enc query) in
     if query_size > unat MAX_QUERY_MSG_SIZE
     then (Err (InvalidRequest (''Query size too large: '' @ show_nat query_size)), h)
     else
       case request_response net peer_id (enc query) h of
         (Err e, h') \<Rightarrow> (Err (query_failure_of e), h')
       | (Ok resp_buf, h') \<Rightarrow>
           if resp_buf = [] then (Err (InvalidResponse ''Empty response''), h')
           else ((case dec resp_buf of Ok r \<Rightarrow> Ok r | Err e \<Rightarrow> Err (InvalidResponse e)), h'))"

text \<open>Sending a query and leaving the response to the caller: the stream stays open.\<close>

definition send_query_request ::
  "('q \<Rightarrow> u8 list) \<Rightarrow> ('p \<Rightarrow> u8 list \<Rightarrow> exchange) \<Rightarrow> 'p \<Rightarrow> 'q \<Rightarrow> 'p stream_client \<Rightarrow>
    (query_failure, in_stream) result \<times> 'p stream_client"
where
  "send_query_request enc net peer_id query h =
    (let query_size = length (enc query); ex = net peer_id (enc query) in
     if query_size > unat MAX_QUERY_MSG_SIZE
     then (Err (InvalidRequest (''Query size too large: '' @ show_nat query_size)), h)
     else
       case get_raw_stream peer_id (ex_open ex) (ex_connect_time ex) h of
         (Err e, h') \<Rightarrow> (Err (query_failure_of e), h')
       | (Ok _, h') \<Rightarrow>
           (case ex_write_fault ex of
              Some e \<Rightarrow> (Err (query_failure_of (Io e)), drop_stream peer_id h')
            | None \<Rightarrow> (Ok (ex_response ex), h')))"

text \<open>Sending logs: nothing is read back. The stream, if it was opened, is dropped at the end.\<close>

definition send_logs_to_listener ::
  "nat \<Rightarrow> ('p \<Rightarrow> u8 list \<Rightarrow> exchange) \<Rightarrow> 'p \<Rightarrow> u8 list \<Rightarrow> 'p stream_client \<Rightarrow>
    (request_error, unit) result \<times> 'p stream_client"
where
  "send_logs_to_listener log_sending_timeout net listener buf h =
    (let ex = net listener buf in
     case get_raw_stream listener (ex_open ex) (ex_connect_time ex) h of
       (r, h') \<Rightarrow>
         ((case timeout log_sending_timeout (ex_time ex)
               (case r of
                  Err e \<Rightarrow> Err e
                | Ok _ \<Rightarrow> (case ex_write_fault ex of Some e \<Rightarrow> Err (Io e) | None \<Rightarrow> Ok ())) of
             Some res \<Rightarrow> res
           | None \<Rightarrow> Err (Timeout Connect)),
          if is_ok r then drop_stream listener h' else h'))"

text \<open>
  Logs go to every listener. The sends are concurrent, to distinct peers, and share only the table of
  semaphores, which has one entry per peer; they are folded here in the order of the listeners.
\<close>

fun publish_portal_logs ::
  "nat \<Rightarrow> ('p \<Rightarrow> u8 list \<Rightarrow> exchange) \<Rightarrow> u8 list \<Rightarrow> 'p list \<Rightarrow> 'p stream_client \<Rightarrow>
    (request_error, unit) result list \<times> 'p stream_client"
where
  "publish_portal_logs t net buffer [] h = ([], h)"
| "publish_portal_logs t net buffer (listener # listeners) h =
    (case send_logs_to_listener t net listener buffer h of (r, h1) \<Rightarrow>
     case publish_portal_logs t net buffer listeners h1 of (rs, h2) \<Rightarrow> (r # rs, h2))"

section \<open>Log listeners\<close>

text \<open>
  The payload of a provider record event: the query, the providers it found in this step, if any, and
  whether this is its last step.
\<close>

record ('p, 'q) provider_record =
  pv_id :: 'q
  pv_found :: "'p list option"
  pv_last :: bool

record ('c, 'k, 'p, 'q, 'l) portal_behaviour =
  pt_base :: "('c, 'k, 'p, 'q, 'l, ('p, 'q) provider_record) base"
  pt_provider_query :: "'q option"
  pt_providers_list :: "'p set"

definition portal_behaviour_new ::
  "('c, 'k, 'p, 'q, 'l, ('p, 'q) provider_record) base \<Rightarrow> ('c, 'k, 'p, 'q, 'l) portal_behaviour" where
  "portal_behaviour_new b =
    \<lparr>pt_base = maintain_worker_connections b, pt_provider_query = None, pt_providers_list = {}\<rparr>"

text \<open>The listeners reported are the elements of a drained hash set; they are given here as that set.\<close>

definition on_provider_record ::
  "('p, 'q) provider_record \<Rightarrow> ('c, 'k, 'p, 'q, 'l) portal_behaviour \<Rightarrow>
    'p set option \<times> ('c, 'k, 'p, 'q, 'l) portal_behaviour" where
  "on_provider_record rec pt =
    (if pt_provider_query pt \<noteq> Some (pv_id rec) then (None, pt)
     else
       let providers = (case pv_found rec of
                          Some ps \<Rightarrow> pt_providers_list pt \<union> set ps
                        | None \<Rightarrow> pt_providers_list pt)
       in if pv_last rec
          then (Some providers, pt\<lparr>pt_provider_query := None, pt_providers_list := {}\<rparr>)
          else (None, pt\<lparr>pt_providers_list := providers\<rparr>))"

definition portal_on_base_event ::
  "('p, 'q) provider_record base_event \<Rightarrow> ('c, 'k, 'p, 'q, 'l) portal_behaviour \<Rightarrow>
    'p set option \<times> ('c, 'k, 'p, 'q, 'l) portal_behaviour" where
  "portal_on_base_event ev pt =
    (case ev of ProviderRecord rec \<Rightarrow> on_provider_record rec pt | _ \<Rightarrow> (None, pt))"

definition update_portal_logs_listeners ::
  "('k \<Rightarrow> 'q \<times> 'k) \<Rightarrow> ('c, 'k, 'p, 'q, 'l) portal_behaviour \<Rightarrow> ('c, 'k, 'p, 'q, 'l) portal_behaviour" where
  "update_portal_logs_listeners get_providers pt =
    (case pt_provider_query pt of
       Some _ \<Rightarrow> pt
     | None \<Rightarrow>
         (case get_providers (bb_engine (pt_base pt)) of (query_id, k) \<Rightarrow>
            pt\<lparr>pt_base := (pt_base pt)\<lparr>bb_engine := k\<rparr>, pt_provider_query := Some query_id\<rparr>))"

section \<open>The SQL client and the collectors\<close>

datatype sql_query_failure =
    SqlInvalidRequest string
  | SqlTimeout timeout_kind
  | SqlTransportError string
  | SqlInvalidResponse string

definition sql_query_failure_of :: "request_error \<Rightarrow> sql_query_failure" where
  "sql_query_failure_of e =
    (case e of Timeout t \<Rightarrow> SqlTimeout t | _ \<Rightarrow> SqlTransportError (request_error_display e))"

definition send_sql_query ::
  "('q \<Rightarrow> u8 list) \<Rightarrow> (u8 list \<Rightarrow> (string, 'r) result) \<Rightarrow> ('p \<Rightarrow> u8 list \<Rightarrow> exchange) \<Rightarrow> 'p \<Rightarrow> 'q \<Rightarrow>
    'p stream_client \<Rightarrow> (sql_query_failure, 'r) result \<times> 'p stream_client"
where
  "send_sql_query enc dec net peer_id query h =
    (let query_len = length (enc query) in
     if query_len > unat MAX_SQL_QUERY_MSG_SIZE
     then (Err (SqlInvalidRequest (''SQLQuery message too large ('' @ show_nat query_len @ '' bytes)'')), h)
     else
       case request_response net peer_id (enc query) h of
         (Err e, h') \<Rightarrow> (Err (sql_query_failure_of e), h')
       | (Ok resp_buf, h') \<Rightarrow>
           if resp_buf = [] then (Err (SqlInvalidResponse ''Empty response''), h')
           else ((case dec resp_buf of Ok r \<Rightarrow> Ok r | Err e \<Rightarrow> Err (SqlInvalidResponse e)), h'))"

datatype fetch_logs_error =
    FetchInvalidRequest string
  | FetchTimeout timeout_kind
  | FetchFailure string
  | FetchInvalidResponse string

definition fetch_logs_error_of :: "request_error \<Rightarrow> fetch_logs_error" where
  "fetch_logs_error_of e =
    (case e of Timeout t \<Rightarrow> FetchTimeout t | _ \<Rightarrow> FetchFailure (request_error_display e))"

definition logs_collector_config :: client_config where
  "logs_collector_config = client_config_default\<lparr>cf_max_response_size := MAX_LOGS_RESPONSE_SIZE\<rparr>"

definition request_logs ::
  "('q \<Rightarrow> u8 list) \<Rightarrow> (u8 list \<Rightarrow> (string, 'r) result) \<Rightarrow> ('p \<Rightarrow> u8 list \<Rightarrow> exchange) \<Rightarrow> 'p \<Rightarrow> 'q \<Rightarrow>
    'p stream_client \<Rightarrow> (fetch_logs_error, 'r) result \<times> 'p stream_client"
where
  "request_logs enc dec net peer_id req h =
    (let request_len = length (enc req) in
     if request_len > unat MAX_LOGS_REQUEST_SIZE
     then (Err (FetchInvalidRequest (''LogsRequest message too large ('' @ show_nat request_len @ '' bytes)'')), h)
     else
       case request_response net peer_id (enc req) h of
         (Err e, h') \<Rightarrow> (Err (fetch_logs_error_of e), h')
       | (Ok resp_buf, h') \<Rightarrow>
           ((case dec resp_buf of Ok r \<Rightarrow> Ok r | Err e \<Rightarrow> Err (FetchInvalidResponse e)), h'))"

definition pings_collector_config :: "nat \<Rightarrow> nat \<Rightarrow> client_config" where
  "pings_collector_config request_timeout connect_timeout =
    \<lparr>cf_max_concurrent_streams = None, cf_max_response_size = MAX_HEARTBEAT_SIZE,
     cf_connect_timeout = connect_timeout, cf_request_timeout = request_timeout\<rparr>"

definition request_heartbeat ::
  "(u8 list \<Rightarrow> (string, 'r) result) \<Rightarrow> ('p \<Rightarrow> u8 list \<Rightarrow> exchange) \<Rightarrow> 'p \<Rightarrow>
    'p stream_client \<Rightarrow> (request_error, 'r) result \<times> 'p stream_client"
where
  "request_heartbeat dec net peer_id h =
    (case request_response net peer_id [] h of
       (Err e, h') \<Rightarrow> (Err e, h')
     | (Ok resp, h') \<Rightarrow>
         ((case dec resp of Ok r \<Rightarrow> Ok r | Err e \<Rightarrow> Err (Io (''Error decoding heartbeat: '' @ e))), h'))"

text \<open>
  The collector of portal logs advertises itself once, when enough of the network is known. The bound 0.3
  is a single-precision literal.
\<close>

record ('c, 'k, 'p, 'q, 'l, 'r) logs_collector =
  lg_base :: "('c, 'k, 'p, 'q, 'l, 'r) base"
  lg_advertisement_started :: bool

definition logs_collector_new ::
  "('c, 'k, 'p, 'a, 'q, 'l) base_env \<Rightarrow> ('c, 'k, 'p, 'q, 'l, 'r) base \<Rightarrow> ('c, 'k, 'p, 'q, 'l, 'r) logs_collector" where
  "logs_collector_new env b = \<lparr>lg_base = set_server_mode env b, lg_advertisement_started = False\<rparr>"

definition collector_on_base_event ::
  "('k \<Rightarrow> bool \<times> 'k) \<Rightarrow> 'r base_event \<Rightarrow> ('c, 'k, 'p, 'q, 'l, 'r) logs_collector \<Rightarrow>
    ('c, 'k, 'p, 'q, 'l, 'r) logs_collector" where
  "collector_on_base_event start_providing ev lg =
    (case ev of
       NetworkConnected confidence \<Rightarrow>
         if confidence \<ge> f32_round (3 / 10) \<and> \<not> lg_advertisement_started lg then
           (case start_providing (bb_engine (lg_base lg)) of (ok, k) \<Rightarrow>
              lg\<lparr>lg_base := (lg_base lg)\<lparr>bb_engine := k\<rparr>, lg_advertisement_started := ok\<rparr>)
         else lg
     | _ \<Rightarrow> lg)"

text \<open>A single log and a batch of logs become the same event.\<close>

datatype ('p, 'f) collector_event = LogQuery 'p "'f list"

definition on_collector_v1_request :: "'p \<Rightarrow> 'f \<Rightarrow> ('p, 'f) collector_event option" where
  "on_collector_v1_request peer_id req = Some (LogQuery peer_id [req])"

definition on_collector_v2_request :: "'p \<Rightarrow> 'f list \<Rightarrow> ('p, 'f) collector_event option" where
  "on_collector_v2_request peer_id portal_logs = Some (LogQuery peer_id portal_logs)"

section \<open>The worker\<close>

datatype 'p worker_event =
    Query 'p "u8 list" response_sender
  | SqlQuery 'p "u8 list" response_sender
  | LogsRequest 'p "u8 list" response_sender
  | StatusRequest 'p response_sender

record worker_config =
  wc_events_queue_size :: nat
  wc_query_execution_timeout :: nat

definition worker_config_default :: worker_config where
  "worker_config_default = \<lparr>wc_events_queue_size = 100, wc_query_execution_timeout = 20000\<rparr>"

definition worker_server_config :: "worker_config \<Rightarrow> u64 \<Rightarrow> u64 \<Rightarrow> server_config" where
  "worker_server_config config max_request_size max_response_size =
    server_config_default\<lparr>sv_max_request_size := max_request_size, sv_max_response_size := max_response_size,
      sv_read_timeout := wc_query_execution_timeout config, sv_write_timeout := wc_query_execution_timeout config\<rparr>"

record ('c, 'k, 'p, 'q, 'l, 'r) worker_behaviour =
  wb_base :: "('c, 'k, 'p, 'q, 'l, 'r) base"
  wb_query :: server_config
  wb_sql_query :: server_config
  wb_logs :: server_config
  wb_status :: server_config

definition worker_behaviour_new ::
  "('c, 'k, 'p, 'a, 'q, 'l) base_env \<Rightarrow> ('c, 'k, 'p, 'q, 'l, 'r) base \<Rightarrow> worker_config \<Rightarrow>
    ('c, 'k, 'p, 'q, 'l, 'r) worker_behaviour" where
  "worker_behaviour_new env b config =
    \<lparr>wb_base = set_server_mode env b,
     wb_query = worker_server_config config MAX_QUERY_MSG_SIZE MAX_QUERY_RESULT_SIZE,
     wb_sql_query = worker_server_config config MAX_SQL_QUERY_MSG_SIZE MAX_QUERY_RESULT_SIZE,
     wb_logs = worker_server_config config MAX_LOGS_REQUEST_SIZE MAX_LOGS_RESPONSE_SIZE,
     wb_status = worker_server_config config 0 MAX_HEARTBEAT_SIZE\<rparr>"

definition on_query :: "'p request \<Rightarrow> 'p worker_event option" where
  "on_query req =
    (if rq_request req = [] then None
     else Some (Query (rq_peer_id req) (rq_request req) (rq_response_sender req)))"

definition on_sql_query :: "'p request \<Rightarrow> 'p worker_event option" where
  "on_sql_query req =
    (if rq_request req = [] then None
     else Some (SqlQuery (rq_peer_id req) (rq_request req) (rq_response_sender req)))"

definition on_logs_request :: "'p request \<Rightarrow> 'p worker_event option" where
  "on_logs_request req = Some (LogsRequest (rq_peer_id req) (rq_request req) (rq_response_sender req))"

definition on_status_request :: "'p request \<Rightarrow> 'p worker_event option" where
  "on_status_request req = Some (StatusRequest (rq_peer_id req) (rq_response_sender req))"

datatype ('p, 'r) worker_inner_event =
    InnerBase "'r base_event"
  | InnerQuery "'p request"
  | InnerSqlQuery "'p request"
  | InnerLogs "'p request"
  | InnerStatus "'p request"

fun on_inner_event :: "('p, 'r) worker_inner_event \<Rightarrow> 'p worker_event option" where
  "on_inner_event (InnerBase ev) = None"
| "on_inner_event (InnerQuery req) = on_query req"
| "on_inner_event (InnerSqlQuery req) = on_sql_query req"
| "on_inner_event (InnerLogs req) = on_logs_request req"
| "on_inner_event (InnerStatus req) = on_status_request req"

definition worker_on_swarm_event :: "'p worker_event \<Rightarrow> 'p worker_event channel \<Rightarrow> 'p worker_event channel" where
  "worker_on_swarm_event ev events_tx = queue_send_lossy ev events_tx"

section \<open>A worker at the other end\<close>

text \<open>
  What a client reads when an idle worker answers. The request passes the server's reading task and its
  queue, the handler and the queue of events; the application computes the response, which is written back.
  When a request is dropped or a response refused, the stream ends without a response. What the client then
  sees depends on the transport, as the comment on \<^verbatim>\<open>ResponseSender\<close> says: a reset, which is an I/O error, or
  an empty response. Both are covered: the argument \<open>rst\<close> is the error of a reset, or \<^const>\<open>None\<close> for a
  stream that just ends.
\<close>

definition dropped_stream :: "string option \<Rightarrow> in_stream" where
  "dropped_stream rst = \<lparr>is_data = [], is_fault = rst, is_time = 0\<rparr>"

definition dropped_response :: "string option \<Rightarrow> (request_error, u8 list) result" where
  "dropped_response rst = (case rst of Some e \<Rightarrow> Err (Io e) | None \<Rightarrow> Ok [])"

definition dropped_failure :: "string option \<Rightarrow> query_failure" where
  "dropped_failure rst =
    (case rst of Some e \<Rightarrow> TransportError e | None \<Rightarrow> InvalidResponse ''Empty response'')"

definition worker_answer ::
  "string option \<Rightarrow> worker_config \<Rightarrow> server_config \<Rightarrow> ('p request \<Rightarrow> ('p, unit) worker_inner_event) \<Rightarrow>
    ('p worker_event \<Rightarrow> u8 list) \<Rightarrow> 'p \<Rightarrow> u8 list \<Rightarrow> in_stream"
where
  "worker_answer rst config cfg inner app client bytes =
    (case fst (server_poll cfg [(client, \<lparr>is_data = bytes, is_fault = None, is_time = 0\<rparr>)]
         (new_queue (sv_requests_queue_size cfg))) of
       None \<Rightarrow> dropped_stream rst
     | Some req \<Rightarrow>
         (case on_inner_event (inner req) of
            None \<Rightarrow> dropped_stream rst
          | Some ev \<Rightarrow>
              (case fst (queue_recv (worker_on_swarm_event ev (new_queue (wc_events_queue_size config)))) of
                 None \<Rightarrow> dropped_stream rst
               | Some ev \<Rightarrow>
                   (case response_send (rq_response_sender req) (app ev) \<lparr>os_fault = None, os_time = 0\<rparr> of
                      Ok _ \<Rightarrow> \<lparr>is_data = app ev, is_fault = None, is_time = 0\<rparr>
                    | Err e \<Rightarrow> dropped_stream rst))))"

definition direct_net :: "('p \<Rightarrow> u8 list \<Rightarrow> in_stream) \<Rightarrow> 'p \<Rightarrow> u8 list \<Rightarrow> exchange" where
  "direct_net answer peer bytes =
    \<lparr>ex_open = Ok (), ex_connect_time = 0, ex_write_fault = None, ex_response = answer peer bytes, ex_time = 0\<rparr>"

lemma max_sizes [simp]:
  "unat MAX_QUERY_MSG_SIZE = 4195328" "unat MAX_QUERY_RESULT_SIZE = 262144000"
  "unat MAX_SQL_QUERY_MSG_SIZE = 263168"
  by (simp_all add: MAX_QUERY_MSG_SIZE_def MAX_QUERY_RESULT_SIZE_def MAX_SQL_QUERY_MSG_SIZE_def)

lemma server_poll_fresh:
  assumes "unat (sv_max_request_size cfg) < U64_MAX" "0 < sv_requests_queue_size cfg"
  shows "fst (server_poll cfg [(client, \<lparr>is_data = bytes, is_fault = None, is_time = 0\<rparr>)]
      (new_queue (sv_requests_queue_size cfg))) =
    (if length bytes \<le> unat (sv_max_request_size cfg)
     then Some \<lparr>rq_peer_id = client, rq_request = bytes, rq_response_sender =
       \<lparr>rs_max_response_size = sv_max_response_size cfg, rs_write_timeout = sv_write_timeout cfg\<rparr>\<rparr>
     else None)"
proof (cases "length bytes \<le> unat (sv_max_request_size cfg)")
  case True
  then show ?thesis
    using assms read_limited_exact [of "sv_max_request_size cfg" "\<lparr>is_data = bytes, is_fault = None, is_time = 0\<rparr>"]
    by (simp add: server_poll_def read_request_def timeout_def new_queue_def channel_try_send_def queue_recv_def)
next
  case False
  then obtain buf where "read_limited (sv_max_request_size cfg + 1) \<lparr>is_data = bytes, is_fault = None, is_time = 0\<rparr> = Ok buf"
      "length buf = unat (sv_max_request_size cfg) + 1"
    using read_limited_too_large [OF assms(1), of "\<lparr>is_data = bytes, is_fault = None, is_time = 0\<rparr>"] by auto
  then show ?thesis
    using False by (simp add: server_poll_def read_request_def timeout_def new_queue_def queue_recv_def)
qed

lemma recv_event:
  "0 < n \<Longrightarrow> fst (queue_recv (worker_on_swarm_event ev (new_queue n))) = Some ev"
  by (simp add: queue_recv_def worker_on_swarm_event_def queue_send_lossy_def queue_try_send_def
      channel_try_send_def new_queue_def)

lemma worker_answer_eq:
  assumes "unat m < U64_MAX" "0 < wc_events_queue_size config"
  shows "worker_answer rst config (worker_server_config config m n) inner app client bytes =
    (if unat m < length bytes then dropped_stream rst
     else
       case on_inner_event (inner \<lparr>rq_peer_id = client, rq_request = bytes, rq_response_sender =
           \<lparr>rs_max_response_size = n, rs_write_timeout = wc_query_execution_timeout config\<rparr>\<rparr>) of
         None \<Rightarrow> dropped_stream rst
       | Some ev \<Rightarrow>
           if unat n < length (app ev) then dropped_stream rst
           else \<lparr>is_data = app ev, is_fault = None, is_time = 0\<rparr>)"
proof -
  define cfg where "cfg = worker_server_config config m n"
  have cfg: "sv_max_request_size cfg = m" "sv_max_response_size cfg = n"
    "sv_write_timeout cfg = wc_query_execution_timeout config" "sv_requests_queue_size cfg = 128"
    by (simp_all add: cfg_def worker_server_config_def server_config_default_def)
  show ?thesis
    unfolding cfg_def [symmetric] worker_answer_def
    using assms server_poll_fresh [of cfg client bytes]
    by (simp add: cfg recv_event response_send_def timeout_def not_less split: option.splits)
qed

lemma read_dropped: "unat m < U64_MAX \<Longrightarrow> read_limited (m + 1) (dropped_stream rst) =
  (case rst of Some e \<Rightarrow> Err e | None \<Rightarrow> Ok [])"
  by (simp add: read_limited_def dropped_stream_def unat_limit_Suc split: option.splits)

text \<open>A client with a free permit reads whatever the other end answers, up to its own limit.\<close>

lemma request_response_direct:
  assumes "\<forall>limit. cf_max_concurrent_streams (sc_config h) = Some limit \<longrightarrow> 0 < permits_left limit h peer"
  shows "fst (request_response (direct_net answer) peer bytes h) =
    (case read_limited (cf_max_response_size (sc_config h) + 1) (answer peer bytes) of
       Err e \<Rightarrow> Err (Io e)
     | Ok buf \<Rightarrow>
         if unat (cf_max_response_size (sc_config h)) < length buf then Err ClientResponseTooLarge else Ok buf)"
  using assms
  by (auto simp: request_response_def direct_net_def get_raw_stream_def timeout_def permits_left_def Let_def
      split: option.splits)

text \<open>The answer of a worker whose response limit is the client's arrives whole, or not at all.\<close>

lemma answer_arrives:
  assumes "\<forall>limit. cf_max_concurrent_streams (sc_config h) = Some limit \<longrightarrow> 0 < permits_left limit h peer"
    and "unat m < U64_MAX" "unat n < U64_MAX" "0 < wc_events_queue_size config"
    and "cf_max_response_size (sc_config h) = n"
  shows "fst (request_response
        (direct_net (\<lambda>_. worker_answer rst config (worker_server_config config m n) inner app client)) peer bytes h) =
    (if unat m < length bytes then dropped_response rst
     else
       case on_inner_event (inner \<lparr>rq_peer_id = client, rq_request = bytes, rq_response_sender =
           \<lparr>rs_max_response_size = n, rs_write_timeout = wc_query_execution_timeout config\<rparr>\<rparr>) of
         None \<Rightarrow> dropped_response rst
       | Some ev \<Rightarrow> if unat n < length (app ev) then dropped_response rst else Ok (app ev))"
  unfolding request_response_direct [OF assms(1)] assms(5) worker_answer_eq [OF assms(2,4)]
  using read_dropped [OF assms(3)] read_limited_exact [OF assms(3), of "\<lparr>is_data = _, is_fault = None, is_time = 0\<rparr>"]
  by (auto simp: dropped_response_def split: option.splits)

text \<open>
  C4: A query from the portal to an idle worker, end to end. A query above the size limit is refused before
  anything is sent. Any other query that is not empty reaches the worker's application byte for byte, and
  the portal gets the decoded response, whatever its size up to the result limit; an empty, undecodable or
  oversized response is an error, and an empty query gets no answer. Where the worker gives no answer the
  portal reports a transport error when the transport resets the dropped stream and an invalid response when
  it just ends it, never a success. Neither side ever works on a truncated message.
\<close>

theorem query_delivery:
  fixes worker portal :: 'p
  assumes "0 < permits_left 3 h worker" "sc_config h = pc_query_config portal_config_default"
    and "0 < wc_events_queue_size config"
  shows "fst (send_query enc dec
        (direct_net (\<lambda>_. worker_answer rst config (wb_query (worker_behaviour_new env b config)) InnerQuery app portal))
        worker query h) =
    (if unat MAX_QUERY_MSG_SIZE < length (enc query)
     then Err (InvalidRequest (''Query size too large: '' @ show_nat (length (enc query))))
     else if enc query = [] then Err (dropped_failure rst)
     else
       let resp = app (Query portal (enc query)
             \<lparr>rs_max_response_size = MAX_QUERY_RESULT_SIZE, rs_write_timeout = wc_query_execution_timeout config\<rparr>)
       in if unat MAX_QUERY_RESULT_SIZE < length resp then Err (dropped_failure rst)
          else if resp = [] then Err (InvalidResponse ''Empty response'')
          else case dec resp of Ok r \<Rightarrow> Ok r | Err e \<Rightarrow> Err (InvalidResponse e))"
proof -
  define net where "net = direct_net
    (\<lambda>_ :: 'p. worker_answer rst config (wb_query (worker_behaviour_new env b config)) InnerQuery app portal)"
  define resp where "resp = app (Query portal (enc query)
    \<lparr>rs_max_response_size = MAX_QUERY_RESULT_SIZE, rs_write_timeout = wc_query_execution_timeout config\<rparr>)"
  have "\<forall>limit. cf_max_concurrent_streams (sc_config h) = Some limit \<longrightarrow> 0 < permits_left limit h worker"
    "cf_max_response_size (sc_config h) = MAX_QUERY_RESULT_SIZE"
    using assms(1,2) by (simp_all add: portal_config_default_def client_config_default_def)
  from answer_arrives [OF this(1) _ _ assms(3) this(2), of MAX_QUERY_MSG_SIZE rst InnerQuery app portal "enc query"]
  have "fst (request_response net worker (enc query) h) =
    (if unat MAX_QUERY_MSG_SIZE < length (enc query) \<or> enc query = [] \<or> unat MAX_QUERY_RESULT_SIZE < length resp
     then dropped_response rst else Ok resp)"
    by (simp add: net_def worker_behaviour_new_def on_query_def resp_def)
  then show ?thesis
    unfolding net_def [symmetric] resp_def [symmetric] Let_def
    by (cases "request_response net worker (enc query) h")
      (auto simp: send_query_def query_failure_of_def dropped_response_def dropped_failure_def Let_def
        split: result.splits if_splits option.splits)
qed

definition sample_exchange :: "string option \<Rightarrow> u8 \<Rightarrow> (query_failure, u8) result" where
  "sample_exchange rst q =
    fst (send_query (\<lambda>q. if q = 0 then [] else [q, 7]) (\<lambda>bs. if length bs = 2 then Ok (hd bs) else Err ''bad'')
      (direct_net (\<lambda>_. worker_answer rst worker_config_default
        (wb_query (worker_behaviour_new sample_env sample_base0 worker_config_default)) InnerQuery
        (\<lambda>ev. case ev of Query p bytes rs \<Rightarrow> rev bytes | _ \<Rightarrow> []) (1 :: nat)))
      (2 :: nat) q (client_new (pc_query_config portal_config_default)))"

lemma query_delivery_witness:
  "sample_exchange (Some ''reset'') 5 = Ok 7 \<and> sample_exchange None 5 = Ok 7 \<and>
    sample_exchange (Some ''reset'') 0 = Err (TransportError ''reset'') \<and>
    sample_exchange None 0 = Err (InvalidResponse ''Empty response'')"
proof -
  have "0 < permits_left 3 (client_new (pc_query_config portal_config_default)) (2 :: nat)"
    "sc_config (client_new (pc_query_config portal_config_default) :: nat stream_client) =
      pc_query_config portal_config_default"
    "0 < wc_events_queue_size worker_config_default"
    by (simp_all add: permits_left_def client_new_def worker_config_default_def)
  then show ?thesis
    unfolding sample_exchange_def by (simp add: query_delivery dropped_failure_def)
qed

section \<open>What a provider lookup reports\<close>

text \<open>
  The records of the lookup that was started accumulate, records of any other query change nothing, and the
  last step reports exactly what was found and leaves the state ready for the next lookup.
\<close>

lemma provider_record_other:
  "pt_provider_query pt \<noteq> Some (pv_id rec) \<Longrightarrow> portal_on_base_event (ProviderRecord rec) pt = (None, pt)"
  by (simp add: portal_on_base_event_def on_provider_record_def)

lemma provider_records_collected:
  assumes "pt_provider_query pt = Some q"
  shows "fst (on_provider_record \<lparr>pv_id = q, pv_found = found, pv_last = True\<rparr>
      (fold (\<lambda>r pt. snd (on_provider_record (r\<lparr>pv_last := pv_last r \<and> pv_id r \<noteq> q\<rparr>) pt)) recs pt)) =
    Some (pt_providers_list pt \<union>
      (\<Union>r\<in>{r \<in> set recs. pv_id r = q}. case pv_found r of Some ps \<Rightarrow> set ps | None \<Rightarrow> {}) \<union>
      (case found of Some ps \<Rightarrow> set ps | None \<Rightarrow> {}))"
  using assms
proof (induction recs arbitrary: pt)
  case Nil
  then show ?case
    by (simp add: on_provider_record_def split: option.splits)
next
  case (Cons r recs)
  define pt' where "pt' = snd (on_provider_record (r\<lparr>pv_last := pv_last r \<and> pv_id r \<noteq> q\<rparr>) pt)"
  have "pt_provider_query pt' = Some q"
    "pt_providers_list pt' = pt_providers_list pt \<union>
      (if pv_id r = q then case pv_found r of Some ps \<Rightarrow> set ps | None \<Rightarrow> {} else {})"
    using Cons.prems by (auto simp: pt'_def on_provider_record_def Let_def split: option.splits)
  moreover have "{x \<in> set (r # recs). pv_id x = q} =
      (if pv_id r = q then insert r {x \<in> set recs. pv_id x = q} else {x \<in> set recs. pv_id x = q})"
    by auto
  ultimately show ?case
    using Cons.IH [of pt'] by (simp add: pt'_def [symmetric] Un_assoc)
qed

lemma provider_query_restarts:
  assumes "pt_provider_query pt = Some (pv_id rec)" "pv_last rec"
  shows "pt_provider_query (snd (on_provider_record rec pt)) = None"
    and "pt_providers_list (snd (on_provider_record rec pt)) = {}"
  using assms by (simp_all add: on_provider_record_def Let_def)

text \<open>
  The confidences the base behaviour reports are tenths rounded to single precision; the collector starts to
  advertise itself at the third tenth and never before.
\<close>

lemma collector_advertises_from_third:
  assumes "n \<le> 10" "\<not> lg_advertisement_started lg"
  shows "lg_advertisement_started (collector_on_base_event (\<lambda>k. (True, k))
      (NetworkConnected (f32_round (of_nat n / 10))) lg) \<longleftrightarrow> 3 \<le> n"
proof -
  have "list_all (\<lambda>n. f32_round (of_nat n / 10) \<ge> f32_round (3 / 10) \<longleftrightarrow> 3 \<le> n) [0..<11]"
    by code_simp
  then have "f32_round (of_nat n / 10) \<ge> f32_round (3 / 10) \<longleftrightarrow> 3 \<le> n"
    using assms(1) by (simp add: list_all_iff)
  then show ?thesis
    using assms(2) by (simp add: collector_on_base_event_def)
qed

end
