(* ===== verification/Stream_Shared.thy ===== *)
theory Stream_Shared
  imports Stream_Exchange
begin

text \<open>
  Opening streams: \<^verbatim>\<open>crates/transport/src/libp2p_stream/\<close> (\<^verbatim>\<open>shared.rs\<close>, \<^verbatim>\<open>handler.rs\<close>, \<^verbatim>\<open>control.rs\<close>,
  \<^verbatim>\<open>behaviour.rs\<close>). Requests for streams travel over channels from the controls to the handlers of the
  connections, and wait in a pending channel while a peer is dialled. A channel is a number; the store maps
  it to its messages as long as its receiver exists. Every clone of a sender has a slot of its own in such a
  channel, so sending fails only when the receiver is gone. The steps of the swarm are an inductive relation
  that interleaves them with the calls of the controls.
\<close>

section \<open>State\<close>

text \<open>A message: the protocol, and the request whose caller waits on the other end of the one-shot channel.\<close>

record 'r new_stream =
  ns_protocol :: string
  ns_sender :: 'r

datatype reply = Opened | Failed open_stream_error | Cancelled

record ('p, 'c, 'r, 's) shared =
  sh_inbound :: "string \<rightharpoonup> ('p \<times> 's) channel"
  sh_connections :: "('c \<times> 'p) list"
  sh_senders :: "'c \<rightharpoonup> nat"
  sh_pending :: "'p \<rightharpoonup> nat"
  sh_dials :: "'p list"
  sh_running :: bool
  sh_queues :: "nat \<rightharpoonup> 'r new_stream list"
  sh_next :: nat

definition shared_new :: "('p, 'c, 'r, 's) shared" where
  "shared_new = \<lparr>sh_inbound = Map.empty, sh_connections = [], sh_senders = Map.empty, sh_pending = Map.empty,
    sh_dials = [], sh_running = True, sh_queues = Map.empty, sh_next = 0\<rparr>"

text \<open>Channels of the library: a fresh one, sending, and dropping the receiver with what it holds.\<close>

definition new_channel :: "('p, 'c, 'r, 's) shared \<Rightarrow> nat \<times> ('p, 'c, 'r, 's) shared" where
  "new_channel sh =
    (sh_next sh, sh\<lparr>sh_next := sh_next sh + 1, sh_queues := (sh_queues sh)(sh_next sh \<mapsto> [])\<rparr>)"

definition chan_send :: "nat \<Rightarrow> 'r new_stream \<Rightarrow> ('p, 'c, 'r, 's) shared \<Rightarrow> bool \<times> ('p, 'c, 'r, 's) shared" where
  "chan_send ch msg sh =
    (case sh_queues sh ch of
       Some q \<Rightarrow> (True, sh\<lparr>sh_queues := (sh_queues sh)(ch \<mapsto> q @ [msg])\<rparr>)
     | None \<Rightarrow> (False, sh))"

definition chan_messages :: "nat \<Rightarrow> ('p, 'c, 'r, 's) shared \<Rightarrow> 'r new_stream list" where
  "chan_messages ch sh = (case sh_queues sh ch of Some q \<Rightarrow> q | None \<Rightarrow> [])"

definition drop_receiver ::
  "nat \<Rightarrow> ('p, 'c, 'r, 's) shared \<Rightarrow> ('r \<times> reply) list \<times> ('p, 'c, 'r, 's) shared" where
  "drop_receiver ch sh =
    (map (\<lambda>m. (ns_sender m, Cancelled)) (chan_messages ch sh), sh\<lparr>sh_queues := (sh_queues sh)(ch := None)\<rparr>)"

section \<open>Inbound streams\<close>

datatype already_registered = AlreadyRegistered

definition retain_open :: "(string \<rightharpoonup> 'a channel) \<Rightarrow> (string \<rightharpoonup> 'a channel)" where
  "retain_open m = (\<lambda>p. case m p of Some ch \<Rightarrow> if ch_closed ch then None else Some ch | None \<Rightarrow> None)"

text \<open>The channel holds the buffer and one more message for its single sender.\<close>

definition accept ::
  "string \<Rightarrow> nat \<Rightarrow> ('p, 'c, 'r, 's) shared \<Rightarrow> (already_registered, unit) result \<times> ('p, 'c, 'r, 's) shared" where
  "accept protocol capacity sh =
    (let sh = sh\<lparr>sh_inbound := retain_open (sh_inbound sh)\<rparr> in
     if sh_inbound sh protocol \<noteq> None then (Err AlreadyRegistered, sh)
     else (Ok (), sh\<lparr>sh_inbound := (sh_inbound sh)(protocol \<mapsto> new_queue (capacity + 1))\<rparr>))"

definition supported_inbound_protocols ::
  "('p, 'c, 'r, 's) shared \<Rightarrow> string set \<times> ('p, 'c, 'r, 's) shared" where
  "supported_inbound_protocols sh =
    (let m = retain_open (sh_inbound sh) in (dom m, sh\<lparr>sh_inbound := m\<rparr>))"

definition on_inbound_stream ::
  "'p \<Rightarrow> 's \<Rightarrow> string \<Rightarrow> ('p, 'c, 'r, 's) shared \<Rightarrow> ('p, 'c, 'r, 's) shared" where
  "on_inbound_stream remote stream protocol sh =
    (case sh_inbound sh protocol of
       Some ch \<Rightarrow>
         (case channel_try_send (remote, stream) ch of
            (Ok _, ch') \<Rightarrow> sh\<lparr>sh_inbound := (sh_inbound sh)(protocol \<mapsto> ch')\<rparr>
          | (Err ChannelFull, ch') \<Rightarrow> sh
          | (Err ChannelClosed, ch') \<Rightarrow> sh\<lparr>sh_inbound := (sh_inbound sh)(protocol := None)\<rparr>)
     | None \<Rightarrow> sh)"

section \<open>Connections and dials\<close>

definition shared_on_connection_established ::
  "'c \<Rightarrow> 'p \<Rightarrow> ('p, 'c, 'r, 's) shared \<Rightarrow> ('p, 'c, 'r, 's) shared" where
  "shared_on_connection_established conn peer sh =
    sh\<lparr>sh_connections := (conn, peer) # filter (\<lambda>(c, _). c \<noteq> conn) (sh_connections sh)\<rparr>"

definition shared_on_connection_closed :: "'c \<Rightarrow> ('p, 'c, 'r, 's) shared \<Rightarrow> ('p, 'c, 'r, 's) shared" where
  "shared_on_connection_closed conn sh =
    sh\<lparr>sh_connections := filter (\<lambda>(c, _). c \<noteq> conn) (sh_connections sh),
       sh_senders := (sh_senders sh)(conn := None)\<rparr>"

definition shared_on_dial_failure ::
  "'p \<Rightarrow> string \<Rightarrow> ('p, 'c, 'r, 's) shared \<Rightarrow> ('r \<times> reply) list \<times> ('p, 'c, 'r, 's) shared" where
  "shared_on_dial_failure peer reason sh =
    (case sh_pending sh peer of
       None \<Rightarrow> ([], sh)
     | Some ch \<Rightarrow>
         (map (\<lambda>m. (ns_sender m, Failed (OpenIo reason))) (chan_messages ch sh),
          sh\<lparr>sh_pending := (sh_pending sh)(peer := None), sh_queues := (sh_queues sh)(ch := None)\<rparr>))"

text \<open>\<open>pick\<close> is the random choice of one of the connections.\<close>

definition connected_sender :: "('c list \<Rightarrow> 'c) \<Rightarrow> 'p \<Rightarrow> ('p, 'c, 'r, 's) shared \<Rightarrow> nat option" where
  "connected_sender pick peer sh =
    (case map fst (filter (\<lambda>(_, p). p = peer) (sh_connections sh)) of
       [] \<Rightarrow> None
     | c # cs \<Rightarrow> sh_senders sh (pick (c # cs)))"

fun resend ::
  "nat \<Rightarrow> 'r new_stream list \<Rightarrow> ('p, 'c, 'r, 's) shared \<Rightarrow> ('r \<times> reply) list \<times> ('p, 'c, 'r, 's) shared" where
  "resend ch [] sh = ([], sh)"
| "resend ch (m # ms) sh =
    (case chan_send ch m sh of (ok, sh1) \<Rightarrow>
     case resend ch ms sh1 of (rs, sh2) \<Rightarrow>
       (if ok then rs else (ns_sender m, Failed (OpenIo ''connection reset'')) # rs, sh2))"

definition on_dial_skipped ::
  "('c list \<Rightarrow> 'c) \<Rightarrow> 'p \<Rightarrow> ('p, 'c, 'r, 's) shared \<Rightarrow> ('r \<times> reply) list \<times> ('p, 'c, 'r, 's) shared" where
  "on_dial_skipped pick peer sh =
    (case connected_sender pick peer sh of
       None \<Rightarrow> ([], sh)
     | Some ch \<Rightarrow>
         (case sh_pending sh peer of
            None \<Rightarrow> ([], sh)
          | Some pend \<Rightarrow>
              resend ch (chan_messages pend sh)
                (sh\<lparr>sh_pending := (sh_pending sh)(peer := None), sh_queues := (sh_queues sh)(pend := None)\<rparr>)))"

definition sender ::
  "('c list \<Rightarrow> 'c) \<Rightarrow> 'p \<Rightarrow> ('p, 'c, 'r, 's) shared \<Rightarrow> (string, nat) result \<times> ('p, 'c, 'r, 's) shared" where
  "sender pick peer sh =
    (case connected_sender pick peer sh of
       Some ch \<Rightarrow> (Ok ch, sh)
     | None \<Rightarrow>
         (case sh_pending sh peer of
            Some ch \<Rightarrow> (Ok ch, sh)
          | None \<Rightarrow>
              if sh_running sh then
                (case new_channel (sh\<lparr>sh_dials := sh_dials sh @ [peer]\<rparr>) of (ch, sh') \<Rightarrow>
                   (Ok ch, sh'\<lparr>sh_pending := (sh_pending sh')(peer \<mapsto> ch)\<rparr>))
              else (Err ''stream behaviour is no longer running'', sh)))"

definition receiver :: "'p \<Rightarrow> 'c \<Rightarrow> ('p, 'c, 'r, 's) shared \<Rightarrow> nat \<times> ('p, 'c, 'r, 's) shared" where
  "receiver peer connection sh =
    (case sh_pending sh peer of
       Some ch \<Rightarrow>
         (ch, sh\<lparr>sh_pending := (sh_pending sh)(peer := None), sh_senders := (sh_senders sh)(connection \<mapsto> ch)\<rparr>)
     | None \<Rightarrow>
         (case new_channel sh of (ch, sh') \<Rightarrow> (ch, sh'\<lparr>sh_senders := (sh_senders sh')(connection \<mapsto> ch)\<rparr>)))"

text \<open>
  Dropping the behaviour closes the channel of dials and then drops all pending channels; \<open>peers\<close> are their
  keys in the order of the table.
\<close>

definition behaviour_drop ::
  "'p list \<Rightarrow> ('p, 'c, 'r, 's) shared \<Rightarrow> ('r \<times> reply) list \<times> ('p, 'c, 'r, 's) shared" where
  "behaviour_drop peers sh =
    (let chs = List.map_filter (sh_pending sh) peers in
     (concat (map (\<lambda>ch. fst (drop_receiver ch sh)) chs),
      sh\<lparr>sh_running := False, sh_dials := [], sh_pending := Map.empty,
        sh_queues := (\<lambda>ch. if ch \<in> set chs then None else sh_queues sh ch)\<rparr>))"

definition behaviour_poll :: "('p, 'c, 'r, 's) shared \<Rightarrow> 'p option \<times> ('p, 'c, 'r, 's) shared" where
  "behaviour_poll sh =
    (case sh_dials sh of [] \<Rightarrow> (None, sh) | peer # ps \<Rightarrow> (Some peer, sh\<lparr>sh_dials := ps\<rparr>))"

section \<open>The handler of a connection\<close>

record 'r handler =
  hd_receiver :: nat
  hd_pending_upgrade :: "(string \<times> 'r) option"

definition handler_new :: "nat \<Rightarrow> 'r handler" where
  "handler_new ch = \<lparr>hd_receiver = ch, hd_pending_upgrade = None\<rparr>"

definition handler_poll ::
  "'r handler \<Rightarrow> ('p, 'c, 'r, 's) shared \<Rightarrow> string option \<times> 'r handler \<times> ('p, 'c, 'r, 's) shared" where
  "handler_poll h sh =
    (case hd_pending_upgrade h of
       Some _ \<Rightarrow> (None, h, sh)
     | None \<Rightarrow>
         (case chan_messages (hd_receiver h) sh of
            [] \<Rightarrow> (None, h, sh)
          | m # q \<Rightarrow>
              (Some (ns_protocol m), h\<lparr>hd_pending_upgrade := Some (ns_protocol m, ns_sender m)\<rparr>,
               sh\<lparr>sh_queues := (sh_queues sh)(hd_receiver h \<mapsto> q)\<rparr>)))"

datatype upgrade_error = UpgradeTimeout | NegotiationFailed | UpgradeIo string

definition upgrade_error_of :: "string \<Rightarrow> upgrade_error \<Rightarrow> open_stream_error" where
  "upgrade_error_of p e =
    (case e of
       UpgradeTimeout \<Rightarrow> OpenIo ''timed out''
     | NegotiationFailed \<Rightarrow> OpenUnsupportedProtocol p
     | UpgradeIo io \<Rightarrow> OpenIo io)"

definition on_negotiated :: "'r handler \<Rightarrow> ('r \<times> reply) list \<times> 'r handler" where
  "on_negotiated h =
    (case hd_pending_upgrade h of
       None \<Rightarrow> ([], h)
     | Some (p, r) \<Rightarrow> ([(r, Opened)], h\<lparr>hd_pending_upgrade := None\<rparr>))"

definition on_upgrade_error :: "upgrade_error \<Rightarrow> 'r handler \<Rightarrow> ('r \<times> reply) list \<times> 'r handler" where
  "on_upgrade_error e h =
    (case hd_pending_upgrade h of
       None \<Rightarrow> ([], h)
     | Some (p, r) \<Rightarrow> ([(r, Failed (upgrade_error_of p e))], h\<lparr>hd_pending_upgrade := None\<rparr>))"

text \<open>When a connection ends its handler is dropped, with its receiver and the request it negotiates.\<close>

definition handler_drop ::
  "'r handler \<Rightarrow> ('p, 'c, 'r, 's) shared \<Rightarrow> ('r \<times> reply) list \<times> ('p, 'c, 'r, 's) shared" where
  "handler_drop h sh =
    (case drop_receiver (hd_receiver h) sh of (rs, sh') \<Rightarrow>
       ((case hd_pending_upgrade h of None \<Rightarrow> rs | Some (p, r) \<Rightarrow> (r, Cancelled) # rs), sh'))"

end
