(* ===== verification/Stream_Requests.thy ===== *)
theory Stream_Requests
  imports Stream_Shared
begin

text \<open>
  No request for a stream is left behind: the steps of controls, swarm and handlers over the state of
  \<open>Stream_Shared\<close>, and an invariant of all reachable states. A control works under the lock only while it
  obtains a sender; it sends later, when the channel may be gone. The swarm creates the handler of a
  connection first and reports the connection afterwards, and a control may run in between. A dial that the
  swarm is asked for while it is connected to the peer or dials it already is skipped. Other behaviours may
  dial as well.
\<close>

section \<open>Steps\<close>

record ('p, 'c, 'r, 's) streams =
  st_shared :: "('p, 'c, 'r, 's) shared"
  st_handlers :: "'c \<rightharpoonup> 'r handler"
  st_opening :: "('c \<times> 'p) option"
  st_dialling :: "'p set"
  st_held :: "'r \<rightharpoonup> nat"
  st_issued :: "'r set"
  st_replies :: "('r \<times> reply) list"

definition streams_new :: "('p, 'c, 'r, 's) streams" where
  "streams_new = \<lparr>st_shared = shared_new, st_handlers = Map.empty, st_opening = None, st_dialling = {},
    st_held = Map.empty, st_issued = {}, st_replies = []\<rparr>"

definition answered ::
  "('r \<times> reply) list \<times> ('p, 'c, 'r, 's) shared \<Rightarrow> ('p, 'c, 'r, 's) streams \<Rightarrow> ('p, 'c, 'r, 's) streams" where
  "answered res s = s\<lparr>st_replies := st_replies s @ fst res, st_shared := snd res\<rparr>"

definition shared_connected :: "'p \<Rightarrow> ('p, 'c, 'r, 's) shared \<Rightarrow> bool" where
  "shared_connected peer sh \<longleftrightarrow> peer \<in> snd ` set (sh_connections sh)"

definition picks :: "('c list \<Rightarrow> 'c) \<Rightarrow> bool" where
  "picks pick \<longleftrightarrow> (\<forall>cs. cs \<noteq> [] \<longrightarrow> pick cs \<in> set cs)"

inductive stream_step :: "('p, 'c, 'r, 's) streams \<Rightarrow> ('p, 'c, 'r, 's) streams \<Rightarrow> bool" where
  acquire: "picks pick \<Longrightarrow> r \<notin> st_issued s \<Longrightarrow> sender pick peer (st_shared s) = (Ok ch, sh) \<Longrightarrow>
    stream_step s (s\<lparr>st_shared := sh, st_held := (st_held s)(r \<mapsto> ch), st_issued := insert r (st_issued s)\<rparr>)"
| refused: "picks pick \<Longrightarrow> r \<notin> st_issued s \<Longrightarrow> sender pick peer (st_shared s) = (Err e, sh) \<Longrightarrow>
    stream_step s (s\<lparr>st_shared := sh, st_issued := insert r (st_issued s),
      st_replies := st_replies s @ [(r, Failed (OpenIo e))]\<rparr>)"
| send: "st_held s r = Some ch \<Longrightarrow>
    chan_send ch \<lparr>ns_protocol = protocol, ns_sender = r\<rparr> (st_shared s) = (True, sh) \<Longrightarrow>
    stream_step s (s\<lparr>st_shared := sh, st_held := (st_held s)(r := None)\<rparr>)"
| send_failed: "st_held s r = Some ch \<Longrightarrow>
    chan_send ch \<lparr>ns_protocol = protocol, ns_sender = r\<rparr> (st_shared s) = (False, sh) \<Longrightarrow>
    stream_step s (s\<lparr>st_shared := sh, st_held := (st_held s)(r := None),
      st_replies := st_replies s @ [(r, Failed (OpenIo e))]\<rparr>)"
| dial: "st_opening s = None \<Longrightarrow> behaviour_poll (st_shared s) = (Some peer, sh) \<Longrightarrow>
    \<not> shared_connected peer sh \<Longrightarrow> peer \<notin> st_dialling s \<Longrightarrow>
    stream_step s (s\<lparr>st_shared := sh, st_dialling := insert peer (st_dialling s)\<rparr>)"
| dial_skipped: "picks pick \<Longrightarrow> st_opening s = None \<Longrightarrow> behaviour_poll (st_shared s) = (Some peer, sh) \<Longrightarrow>
    shared_connected peer sh \<or> peer \<in> st_dialling s \<Longrightarrow>
    stream_step s (answered (on_dial_skipped pick peer sh) s)"
| other_dial: "stream_step s (s\<lparr>st_dialling := insert peer (st_dialling s)\<rparr>)"
| dial_failed: "st_opening s = None \<Longrightarrow> dialling \<in> {st_dialling s, st_dialling s - {peer}} \<Longrightarrow>
    stream_step s (answered (shared_on_dial_failure peer reason (st_shared s)) (s\<lparr>st_dialling := dialling\<rparr>))"
| opening_conn: "st_opening s = None \<Longrightarrow> st_handlers s c = None \<Longrightarrow> c \<notin> fst ` set (sh_connections (st_shared s)) \<Longrightarrow>
    dialling \<in> {st_dialling s, st_dialling s - {peer}} \<Longrightarrow> receiver peer c (st_shared s) = (ch, sh) \<Longrightarrow>
    stream_step s (s\<lparr>st_shared := sh, st_dialling := dialling, st_opening := Some (c, peer),
      st_handlers := (st_handlers s)(c \<mapsto> handler_new ch)\<rparr>)"
| opened: "st_opening s = Some (c, peer) \<Longrightarrow>
    stream_step s (s\<lparr>st_shared := shared_on_connection_established c peer (st_shared s), st_opening := None\<rparr>)"
| denied: "st_opening s = Some (c, peer) \<Longrightarrow> st_handlers s c = Some h \<Longrightarrow>
    stream_step s (answered (handler_drop h (st_shared s))
      (s\<lparr>st_opening := None, st_handlers := (st_handlers s)(c := None)\<rparr>))"
| handler_gone: "c \<notin> fst ` set_option (st_opening s) \<Longrightarrow> st_handlers s c = Some h \<Longrightarrow>
    stream_step s (answered (handler_drop h (st_shared s)) (s\<lparr>st_handlers := (st_handlers s)(c := None)\<rparr>))"
| closed: "st_opening s = None \<Longrightarrow> st_handlers s c = None \<Longrightarrow>
    stream_step s (s\<lparr>st_shared := shared_on_connection_closed c (st_shared s)\<rparr>)"
| polled: "st_handlers s c = Some h \<Longrightarrow> handler_poll h (st_shared s) = (out, h', sh) \<Longrightarrow>
    stream_step s (s\<lparr>st_shared := sh, st_handlers := (st_handlers s)(c \<mapsto> h')\<rparr>)"
| negotiated: "st_handlers s c = Some h \<Longrightarrow> on_negotiated h = (rs, h') \<Longrightarrow>
    stream_step s (s\<lparr>st_handlers := (st_handlers s)(c \<mapsto> h'), st_replies := st_replies s @ rs\<rparr>)"
| upgrade_failed: "st_handlers s c = Some h \<Longrightarrow> on_upgrade_error e h = (rs, h') \<Longrightarrow>
    stream_step s (s\<lparr>st_handlers := (st_handlers s)(c \<mapsto> h'), st_replies := st_replies s @ rs\<rparr>)"
| dropped: "dom (sh_pending (st_shared s)) \<subseteq> set peers \<Longrightarrow>
    stream_step s (answered (behaviour_drop peers (st_shared s)) s)"

inductive stream_reachable :: "('p, 'c, 'r, 's) streams \<Rightarrow> bool" where
  start: "stream_reachable streams_new"
| step: "stream_reachable s \<Longrightarrow> stream_step s s' \<Longrightarrow> stream_reachable s'"

section \<open>The invariant\<close>

definition waiting :: "('p, 'c, 'r, 's) shared \<Rightarrow> nat \<Rightarrow> 'r set" where
  "waiting sh ch = ns_sender ` set (chan_messages ch sh)"

definition negotiating :: "('p, 'c, 'r, 's) streams \<Rightarrow> 'r set" where
  "negotiating s = {r. \<exists>c h p. st_handlers s c = Some h \<and> hd_pending_upgrade h = Some (p, r)}"

definition located :: "('p, 'c, 'r, 's) streams \<Rightarrow> 'r set" where
  "located s = dom (st_held s) \<union> fst ` set (st_replies s) \<union> (\<Union>ch. waiting (st_shared s) ch) \<union> negotiating s"

definition served :: "('p, 'c, 'r, 's) streams \<Rightarrow> nat set" where
  "served s = {ch. \<exists>c h. st_handlers s c = Some h \<and> hd_receiver h = ch}"

definition stream_inv :: "('p, 'c, 'r, 's) streams \<Rightarrow> bool" where
  "stream_inv s \<longleftrightarrow>
    fst ` set (sh_connections (st_shared s)) \<union> fst ` set_option (st_opening s) \<subseteq> dom (sh_senders (st_shared s))
    \<and> dom (sh_queues (st_shared s)) \<subseteq> {..<sh_next (st_shared s)}
    \<and> dom (sh_queues (st_shared s)) \<subseteq> served s \<union> ran (sh_pending (st_shared s))
    \<and> dom (sh_pending (st_shared s)) \<subseteq> set (sh_dials (st_shared s)) \<union> st_dialling s
    \<and> st_issued s \<subseteq> located s"

lemma chan_messages_simps:
  "chan_messages ch (sh\<lparr>sh_queues := qs\<rparr>) = (case qs ch of Some q \<Rightarrow> q | None \<Rightarrow> [])"
  "chan_messages ch (sh\<lparr>sh_pending := pd\<rparr>) = chan_messages ch sh"
  "chan_messages ch (sh\<lparr>sh_senders := sd\<rparr>) = chan_messages ch sh"
  "chan_messages ch (sh\<lparr>sh_connections := cn\<rparr>) = chan_messages ch sh"
  "chan_messages ch (sh\<lparr>sh_dials := ds\<rparr>) = chan_messages ch sh"
  "chan_messages ch (sh\<lparr>sh_running := b\<rparr>) = chan_messages ch sh"
  "chan_messages ch (sh\<lparr>sh_next := n\<rparr>) = chan_messages ch sh"
  by (simp_all add: chan_messages_def)

text \<open>
  The facts about one operation on the shared state that returns replies: no waiting request is lost, no
  channel gets a receiver, and connections, senders and dials stay as they are.
\<close>

definition keeps_requests ::
  "('p, 'c, 'r, 's) shared \<Rightarrow> ('r \<times> reply) list \<times> ('p, 'c, 'r, 's) shared \<Rightarrow> bool" where
  "keeps_requests sh res \<longleftrightarrow>
    (\<Union>ch. waiting sh ch) \<subseteq> fst ` set (fst res) \<union> (\<Union>ch. waiting (snd res) ch)
    \<and> dom (sh_queues (snd res)) \<subseteq> dom (sh_queues sh)
    \<and> sh_connections (snd res) = sh_connections sh \<and> sh_senders (snd res) = sh_senders sh
    \<and> sh_next (snd res) = sh_next sh"

lemma waiting_removed:
  "waiting (sh\<lparr>sh_queues := (sh_queues sh)(ch := None)\<rparr>) c = (if c = ch then {} else waiting sh c)"
  by (simp add: waiting_def chan_messages_def)

lemma waiting_cong: "sh_queues sh' = sh_queues sh \<Longrightarrow> waiting sh' = waiting sh"
  by (simp add: waiting_def chan_messages_def fun_eq_iff)

lemma waiting_split: "(\<Union>c. waiting sh c) \<subseteq> waiting sh ch \<union> (\<Union>c. if c = ch then {} else waiting sh c)"
  by auto

lemma keeps_drop: "keeps_requests sh (drop_receiver ch sh)"
  using waiting_split [of sh ch]
  by (simp add: keeps_requests_def drop_receiver_def waiting_removed image_image)
    (auto simp: waiting_def)

lemma keeps_failure: "keeps_requests sh (shared_on_dial_failure peer reason sh)"
proof (cases "sh_pending sh peer")
  case (Some ch)
  then show ?thesis
    using waiting_split [of sh ch]
      waiting_cong [of "sh\<lparr>sh_pending := (sh_pending sh)(peer := None), sh_queues := (sh_queues sh)(ch := None)\<rparr>"
        "sh\<lparr>sh_queues := (sh_queues sh)(ch := None)\<rparr>"]
    by (simp add: keeps_requests_def shared_on_dial_failure_def waiting_removed image_image)
      (auto simp: waiting_def)
qed (simp add: keeps_requests_def shared_on_dial_failure_def)

lemma UN_insert_at: "(\<Union>c. if c = ch then insert a (f c) else f c) = insert a (\<Union>c. f c)"
proof (rule set_eqI)
  fix x
  show "x \<in> (\<Union>c. if c = ch then insert a (f c) else f c) \<longleftrightarrow> x \<in> insert a (\<Union>c. f c)"
    by (cases "x = a") (auto split: if_splits)
qed

lemma chan_send_cases:
  assumes "chan_send ch m sh = (ok, sh')"
  shows "dom (sh_queues sh') = dom (sh_queues sh)" "sh_connections sh' = sh_connections sh"
    "sh_senders sh' = sh_senders sh" "sh_pending sh' = sh_pending sh" "sh_dials sh' = sh_dials sh"
    "sh_next sh' = sh_next sh"
    "(\<Union>c. waiting sh' c) = (if ok then {ns_sender m} else {}) \<union> (\<Union>c. waiting sh c)"
proof -
  show "dom (sh_queues sh') = dom (sh_queues sh)" "sh_connections sh' = sh_connections sh"
    "sh_senders sh' = sh_senders sh" "sh_pending sh' = sh_pending sh" "sh_dials sh' = sh_dials sh"
    "sh_next sh' = sh_next sh"
    using assms by (auto simp: chan_send_def split: option.splits if_splits)
  show "(\<Union>c. waiting sh' c) = (if ok then {ns_sender m} else {}) \<union> (\<Union>c. waiting sh c)"
  proof (cases "sh_queues sh ch")
    case (Some q)
    then have "sh_queues sh' = (sh_queues sh)(ch \<mapsto> q @ [m])"
      using assms by (auto simp: chan_send_def)
    then have "waiting sh' c = (if c = ch then insert (ns_sender m) (waiting sh c) else waiting sh c)" for c
      using Some by (simp add: waiting_def chan_messages_def) auto
    then show ?thesis
      using assms Some UN_insert_at [of ch "ns_sender m" "waiting sh"] by (simp add: chan_send_def)
  qed (use assms in \<open>auto simp: chan_send_def\<close>)
qed

lemma resend_keeps:
  "dom (sh_queues (snd (resend ch ms sh))) = dom (sh_queues sh)
    \<and> sh_connections (snd (resend ch ms sh)) = sh_connections sh
    \<and> sh_senders (snd (resend ch ms sh)) = sh_senders sh
    \<and> sh_pending (snd (resend ch ms sh)) = sh_pending sh
    \<and> sh_dials (snd (resend ch ms sh)) = sh_dials sh
    \<and> sh_next (snd (resend ch ms sh)) = sh_next sh
    \<and> fst ` set (fst (resend ch ms sh)) \<union> (\<Union>c. waiting (snd (resend ch ms sh)) c) =
      ns_sender ` set ms \<union> (\<Union>c. waiting sh c)"
proof (induction ms arbitrary: sh)
  case (Cons m ms)
  obtain ok sh1 where send: "chan_send ch m sh = (ok, sh1)"
    by fastforce
  obtain rs sh2 where rest: "resend ch ms sh1 = (rs, sh2)"
    by fastforce
  show ?case
    using Cons.IH [of sh1] chan_send_cases [OF send] by (auto simp: send rest)
qed simp

lemmas resend_facts [simp] =
  resend_keeps [THEN conjunct1]
  resend_keeps [THEN conjunct2, THEN conjunct1]
  resend_keeps [THEN conjunct2, THEN conjunct2, THEN conjunct1]
  resend_keeps [THEN conjunct2, THEN conjunct2, THEN conjunct2, THEN conjunct1]
  resend_keeps [THEN conjunct2, THEN conjunct2, THEN conjunct2, THEN conjunct2, THEN conjunct1]
  resend_keeps [THEN conjunct2, THEN conjunct2, THEN conjunct2, THEN conjunct2, THEN conjunct2, THEN conjunct1]

lemma keeps_skipped: "keeps_requests sh (on_dial_skipped pick peer sh)"
proof (cases "connected_sender pick peer sh"; cases "sh_pending sh peer")
  fix ch pend
  assume some: "connected_sender pick peer sh = Some ch" "sh_pending sh peer = Some pend"
  define sh' where "sh' = sh\<lparr>sh_pending := (sh_pending sh)(peer := None), sh_queues := (sh_queues sh)(pend := None)\<rparr>"
  have "waiting sh' = waiting (sh\<lparr>sh_queues := (sh_queues sh)(pend := None)\<rparr>)"
    by (rule waiting_cong) (simp add: sh'_def)
  then have "(\<Union>c. waiting sh c) \<subseteq> waiting sh pend \<union> (\<Union>c. waiting sh' c)"
    using waiting_split [of sh pend] by (simp add: waiting_removed)
  then show ?thesis
    using resend_keeps [of ch "chan_messages pend sh" sh'] some
    by (auto simp: keeps_requests_def on_dial_skipped_def sh'_def [symmetric] waiting_def [of _ pend])
      (auto simp: sh'_def split: if_splits)
qed (simp_all add: keeps_requests_def on_dial_skipped_def)

lemma skipped_fields:
  "sh_pending (snd (on_dial_skipped pick peer sh)) =
    (if connected_sender pick peer sh = None then sh_pending sh else (sh_pending sh)(peer := None))"
  "sh_dials (snd (on_dial_skipped pick peer sh)) = sh_dials sh"
  "dom (sh_queues (snd (on_dial_skipped pick peer sh))) = dom (sh_queues sh) -
    (if connected_sender pick peer sh = None then {} else set_option (sh_pending sh peer))"
  by (auto simp: on_dial_skipped_def fun_eq_iff simp del: domIff split: option.splits)

lemma connected_sender_Some:
  assumes "picks pick" "shared_connected peer sh" "fst ` set (sh_connections sh) \<subseteq> dom (sh_senders sh)"
  shows "connected_sender pick peer sh \<noteq> None"
proof -
  define cs where "cs = map fst (filter (\<lambda>(_, p). p = peer) (sh_connections sh))"
  have "cs \<noteq> []" "set cs \<subseteq> dom (sh_senders sh)"
    using assms(2,3) by (auto simp: cs_def shared_connected_def filter_empty_conv)
  then have "sh_senders sh (pick cs) \<noteq> None"
    using assms(1) by (auto simp: picks_def)
  then show ?thesis
    using \<open>cs \<noteq> []\<close> by (cases cs) (auto simp: connected_sender_def cs_def [symmetric])
qed

text \<open>The behaviour is dropped with all pending channels.\<close>

lemma keeps_behaviour_drop: "keeps_requests sh (behaviour_drop peers sh)"
proof -
  have "waiting (snd (behaviour_drop peers sh)) c =
      (if c \<in> set (List.map_filter (sh_pending sh) peers) then {} else waiting sh c)" for c
    by (simp add: behaviour_drop_def waiting_def chan_messages_def Let_def)
  moreover have "fst ` set (fst (behaviour_drop peers sh)) =
      (\<Union>c\<in>set (List.map_filter (sh_pending sh) peers). waiting sh c)"
    by (simp add: behaviour_drop_def drop_receiver_def waiting_def Let_def image_UN image_image)
  ultimately show ?thesis
    by (auto simp: keeps_requests_def behaviour_drop_def Let_def split: if_splits)
qed

lemma set_map_filter: "set (List.map_filter f xs) = {y. \<exists>x\<in>set xs. f x = Some y}"
  by (induction xs) (auto simp: map_filter_simps split: option.splits)

lemma behaviour_drop_fields:
  assumes "dom (sh_pending sh) \<subseteq> set peers"
  shows "sh_pending (snd (behaviour_drop peers sh)) = Map.empty"
    and "dom (sh_queues (snd (behaviour_drop peers sh))) = dom (sh_queues sh) - ran (sh_pending sh)"
proof -
  have "set (List.map_filter (sh_pending sh) peers) = ran (sh_pending sh)"
    using assms unfolding set_map_filter ran_def by blast
  then show "dom (sh_queues (snd (behaviour_drop peers sh))) = dom (sh_queues sh) - ran (sh_pending sh)"
    by (auto simp: behaviour_drop_def Let_def split: if_splits)
qed (simp add: behaviour_drop_def Let_def)

section \<open>Every step keeps it\<close>

lemma served_update:
  "st_handlers s c = None \<Longrightarrow> served (s\<lparr>st_handlers := (st_handlers s)(c \<mapsto> h)\<rparr>) = insert (hd_receiver h) (served s)"
  by (auto simp: served_def split: if_splits) (metis option.distinct(1))

lemma inv_answered:
  assumes "stream_inv s" "keeps_requests (st_shared s) res"
    and "st_handlers s' = st_handlers s" "st_opening s' = st_opening s" "st_held s' = st_held s"
    "st_issued s' = st_issued s" "st_replies s' = st_replies s"
    and "dom (sh_queues (snd res)) \<subseteq> served s \<union> ran (sh_pending (snd res))"
    and "dom (sh_pending (snd res)) \<subseteq> set (sh_dials (snd res)) \<union> st_dialling s'"
  shows "stream_inv (answered res s')"
proof -
  have "located s \<subseteq> located (answered res s')"
    using assms(2-7) by (auto simp: located_def keeps_requests_def answered_def negotiating_def)
  moreover have "served (answered res s') = served s"
    using assms(3) by (simp add: served_def answered_def)
  moreover have "dom (sh_queues (snd res)) \<subseteq> {..<sh_next (snd res)}"
    using assms(1,2) unfolding stream_inv_def keeps_requests_def by (metis subset_trans)
  ultimately show ?thesis
    using assms by (auto simp: stream_inv_def keeps_requests_def answered_def simp del: domIff)
qed

lemma inv_dial_skipped:
  assumes "stream_inv s" "picks pick" "behaviour_poll (st_shared s) = (Some peer, sh)"
    and "shared_connected peer sh \<or> peer \<in> st_dialling s"
  shows "stream_inv (answered (on_dial_skipped pick peer sh) s)"
proof -
  have sh: "sh_dials (st_shared s) = peer # sh_dials sh" "sh_pending sh = sh_pending (st_shared s)"
    "sh_queues sh = sh_queues (st_shared s)" "sh_connections sh = sh_connections (st_shared s)"
    "sh_senders sh = sh_senders (st_shared s)" "sh_next sh = sh_next (st_shared s)"
    using assms(3) by (auto simp: behaviour_poll_def split: list.splits)
  have keeps: "keeps_requests (st_shared s) (on_dial_skipped pick peer sh)"
    using keeps_skipped [of sh pick peer] waiting_cong [OF sh(3)] by (simp add: keeps_requests_def sh)
  show ?thesis
  proof (rule inv_answered [OF assms(1) keeps])
    show "dom (sh_queues (snd (on_dial_skipped pick peer sh)))
        \<subseteq> served s \<union> ran (sh_pending (snd (on_dial_skipped pick peer sh)))"
      using assms(1) unfolding skipped_fields
      by (auto simp: stream_inv_def sh ran_def dom_def)
    have "connected_sender pick peer sh = None \<Longrightarrow> peer \<in> st_dialling s"
      using connected_sender_Some [OF assms(2), of peer sh] assms(1,4) by (auto simp: stream_inv_def sh)
    then show "dom (sh_pending (snd (on_dial_skipped pick peer sh)))
        \<subseteq> set (sh_dials (snd (on_dial_skipped pick peer sh))) \<union> st_dialling s"
      using assms(1) unfolding skipped_fields by (auto simp: stream_inv_def sh split: if_splits)
  qed simp_all
qed

lemma ran_removed: "ran m \<subseteq> set_option (m p) \<union> ran (m(p := None))"
proof
  fix x
  assume "x \<in> ran m"
  then obtain a where "m a = Some x"
    by (auto simp: ran_def)
  then show "x \<in> set_option (m p) \<union> ran (m(p := None))"
    by (cases "a = p") (auto simp: ran_def)
qed

lemma inv_dial_failed:
  assumes "stream_inv s" "dialling \<in> {st_dialling s, st_dialling s - {peer}}"
  shows "stream_inv (answered (shared_on_dial_failure peer reason (st_shared s)) (s\<lparr>st_dialling := dialling\<rparr>))"
proof (rule inv_answered [OF assms(1) keeps_failure])
  let ?sh = "snd (shared_on_dial_failure peer reason (st_shared s))"
  have "dom (sh_queues ?sh) = dom (sh_queues (st_shared s)) - set_option (sh_pending (st_shared s) peer)"
    "sh_pending ?sh = (sh_pending (st_shared s))(peer := None)" "sh_dials ?sh = sh_dials (st_shared s)"
    by (auto simp: shared_on_dial_failure_def split: option.splits)
  moreover note ran_removed [of "sh_pending (st_shared s)" peer]
  ultimately show "dom (sh_queues ?sh) \<subseteq> served s \<union> ran (sh_pending ?sh)"
    "dom (sh_pending ?sh) \<subseteq> set (sh_dials ?sh) \<union> st_dialling (s\<lparr>st_dialling := dialling\<rparr>)"
    using assms unfolding stream_inv_def by auto
qed simp_all

lemma inv_dropped:
  assumes "stream_inv s" "dom (sh_pending (st_shared s)) \<subseteq> set peers"
  shows "stream_inv (answered (behaviour_drop peers (st_shared s)) s)"
  by (rule inv_answered [OF assms(1) keeps_behaviour_drop])
    (use assms(1) behaviour_drop_fields [OF assms(2)] in \<open>auto simp: stream_inv_def\<close>)

lemma handler_drop_eq:
  "handler_drop h sh =
    (map (\<lambda>p. (snd p, Cancelled)) (case hd_pending_upgrade h of None \<Rightarrow> [] | Some p \<Rightarrow> [p]) @
      fst (drop_receiver (hd_receiver h) sh), snd (drop_receiver (hd_receiver h) sh))"
  by (auto simp: handler_drop_def split: option.splits prod.splits)

lemma located_kept:
  assumes "dom (st_held s) \<subseteq> dom (st_held s') \<union> X" "fst ` set (st_replies s') = fst ` set (st_replies s) \<union> X"
    and "(\<Union>ch. waiting (st_shared s) ch) \<subseteq> X \<union> (\<Union>ch. waiting (st_shared s') ch) \<union> negotiating s'"
    and "negotiating s \<subseteq> X \<union> negotiating s'"
  shows "located s \<subseteq> located s'"
proof -
  have sets: "A \<union> R \<union> W \<union> N \<subseteq> A' \<union> R' \<union> W' \<union> N'"
    if "A \<subseteq> A' \<union> X" "R' = R \<union> X" "W \<subseteq> X \<union> W' \<union> N'" "N \<subseteq> X \<union> N'" for A A' R R' W W' N N' :: "'a set"
    using that by blast
  show ?thesis
    unfolding located_def by (rule sets [OF assms])
qed

lemma inv_handler_drop:
  assumes "stream_inv s" "st_handlers s c = Some h" "opening \<in> {st_opening s, None}"
  shows "stream_inv (answered (handler_drop h (st_shared s))
    (s\<lparr>st_opening := opening, st_handlers := (st_handlers s)(c := None)\<rparr>))"
proof -
  define s' where "s' = answered (handler_drop h (st_shared s))
    (s\<lparr>st_opening := opening, st_handlers := (st_handlers s)(c := None)\<rparr>)"
  have keeps: "keeps_requests (st_shared s) (drop_receiver (hd_receiver h) (st_shared s))"
    by (rule keeps_drop)
  have s': "st_shared s' = snd (drop_receiver (hd_receiver h) (st_shared s))"
    "fst ` set (st_replies s') = fst ` set (st_replies s) \<union> snd ` set_option (hd_pending_upgrade h)
      \<union> fst ` set (fst (drop_receiver (hd_receiver h) (st_shared s)))"
    by (cases "hd_pending_upgrade h"; simp add: s'_def answered_def handler_drop_eq image_Un Un_assoc)+
  have held: "st_held s' = st_held s"
    by (simp add: s'_def answered_def)
  have negotiating: "negotiating s \<subseteq> snd ` set_option (hd_pending_upgrade h) \<union> negotiating s'"
  proof
    fix r
    assume "r \<in> negotiating s"
    then obtain c' h' p where "st_handlers s c' = Some h'" "hd_pending_upgrade h' = Some (p, r)"
      by (auto simp: negotiating_def)
    then show "r \<in> snd ` set_option (hd_pending_upgrade h) \<union> negotiating s'"
      using assms(2) by (cases "c' = c") (auto simp: negotiating_def s'_def answered_def)
  qed
  have "located s \<subseteq> located s'"
  proof (rule located_kept [where X = "snd ` set_option (hd_pending_upgrade h)
        \<union> fst ` set (fst (drop_receiver (hd_receiver h) (st_shared s)))"])
    show "(\<Union>ch. waiting (st_shared s) ch) \<subseteq> (snd ` set_option (hd_pending_upgrade h)
        \<union> fst ` set (fst (drop_receiver (hd_receiver h) (st_shared s)))) \<union> (\<Union>ch. waiting (st_shared s') ch) \<union> negotiating s'"
      using keeps unfolding keeps_requests_def s'(1) by (simp add: subset_iff)
  qed (use negotiating s'(2) held in auto)
  moreover have "dom (sh_queues (st_shared s')) \<subseteq> served s' \<union> ran (sh_pending (st_shared s'))"
  proof -
    have "served s \<subseteq> insert (hd_receiver h) (served s')"
    proof
      fix ch
      assume "ch \<in> served s"
      then obtain c' h' where "st_handlers s c' = Some h'" "hd_receiver h' = ch"
        by (auto simp: served_def)
      then show "ch \<in> insert (hd_receiver h) (served s')"
        using assms(2) by (cases "c' = c") (auto simp: served_def s'_def answered_def)
    qed
    then show ?thesis
      using assms(1) unfolding s' by (auto simp: drop_receiver_def stream_inv_def split: if_splits)
  qed
  moreover have "sh_connections (st_shared s') = sh_connections (st_shared s)" "st_issued s' = st_issued s"
    "sh_next (st_shared s') = sh_next (st_shared s)" "dom (sh_queues (st_shared s')) \<subseteq> dom (sh_queues (st_shared s))"
    "sh_senders (st_shared s') = sh_senders (st_shared s)" "sh_pending (st_shared s') = sh_pending (st_shared s)"
    "sh_dials (st_shared s') = sh_dials (st_shared s)" "st_dialling s' = st_dialling s" "st_opening s' = opening"
    by (simp_all add: s' drop_receiver_def) (simp_all add: s'_def answered_def)
  moreover have "fst ` set_option opening \<subseteq> dom (sh_senders (st_shared s))"
    using assms(1,3) by (auto simp: stream_inv_def image_subset_iff)
  ultimately show ?thesis
    using assms(1) unfolding s'_def [symmetric] stream_inv_def by simp (meson subset_trans)
qed

text \<open>The other steps change few fields.\<close>

lemma sender_cases:
  assumes "sender pick peer sh = (res, sh')"
  obtains (known) "sh' = sh"
  | (dialled) "sh_queues sh' = (sh_queues sh)(sh_next sh \<mapsto> [])" "sh_pending sh' = (sh_pending sh)(peer \<mapsto> sh_next sh)"
      "sh_dials sh' = sh_dials sh @ [peer]" "sh_connections sh' = sh_connections sh" "sh_senders sh' = sh_senders sh"
      "sh_pending sh peer = None" "sh_next sh' = Suc (sh_next sh)"
proof (cases "sh' = sh")
  case False
  then have "connected_sender pick peer sh = None" "sh_pending sh peer = None" "sh_running sh"
    using assms by (auto simp: sender_def split: option.splits if_splits)
  then show thesis
    using assms by (intro dialled) (auto simp: sender_def new_channel_def)
qed (rule known)

lemma waiting_fresh:
  assumes "sh_queues sh' = (sh_queues sh)(sh_next sh \<mapsto> [])" "dom (sh_queues sh) \<subseteq> {..<sh_next sh}"
  shows "waiting sh' = waiting sh"
proof
  fix ch
  have "sh_queues sh (sh_next sh) = None"
    using assms(2) by auto
  then show "waiting sh' ch = waiting sh ch"
    using assms(1) by (simp add: waiting_def chan_messages_def)
qed

lemma located_held: "dom (st_held s) \<union> fst ` set (st_replies s) \<subseteq> located s"
  unfolding located_def by blast

lemma inv_sender:
  assumes "stream_inv s" "sender pick peer (st_shared s) = (res, sh)" "st_shared s' = sh"
    and "st_handlers s' = st_handlers s" "st_opening s' = st_opening s" "st_dialling s' = st_dialling s"
    and "dom (st_held s) \<subseteq> dom (st_held s')" "fst ` set (st_replies s) \<subseteq> fst ` set (st_replies s')"
    and "st_issued s' \<subseteq> st_issued s \<union> dom (st_held s') \<union> fst ` set (st_replies s')"
  shows "stream_inv s'"
proof -
  have same: "served s' = served s" "negotiating s' = negotiating s"
    using assms(4) by (simp_all add: served_def negotiating_def)
  have "waiting sh = waiting (st_shared s)"
    using assms(2)
    by (cases rule: sender_cases) (use assms(1) waiting_fresh [of sh "st_shared s"] in \<open>simp_all add: stream_inv_def\<close>)
  then have "located s \<subseteq> located s'"
    using assms(3,7,8) same unfolding located_def by auto
  then have issued: "st_issued s' \<subseteq> located s'"
    using assms(1,9) located_held [of s'] unfolding stream_inv_def by blast
  show ?thesis
    using assms(2)
  proof (cases rule: sender_cases)
    case known
    then show ?thesis
      using assms(1,3-6) same issued by (simp add: stream_inv_def)
  next
    case dialled
    have "ran (sh_pending sh) = insert (sh_next (st_shared s)) (ran (sh_pending (st_shared s)))"
      "dom (sh_queues sh) = insert (sh_next (st_shared s)) (dom (sh_queues (st_shared s)))"
      using dialled(6) by (simp_all add: dialled(1,2) ran_map_upd)
    then have "dom (sh_queues sh) \<subseteq> served s \<union> ran (sh_pending sh)" "dom (sh_queues sh) \<subseteq> {..<sh_next sh}"
      using assms(1) unfolding stream_inv_def dialled(7) by auto
    then show ?thesis
      using assms(1,3-6) same issued unfolding stream_inv_def by (auto simp: dialled(2-5))
  qed
qed

lemma inv_send:
  assumes "stream_inv s" "chan_send ch m (st_shared s) = (ok, sh)" "st_held s (ns_sender m) = Some ch"
    and "st_shared s' = sh" "st_handlers s' = st_handlers s" "st_opening s' = st_opening s"
    and "st_dialling s' = st_dialling s" "st_issued s' = st_issued s"
    and "st_held s' = (st_held s)(ns_sender m := None)"
    and "fst ` set (st_replies s') = fst ` set (st_replies s) \<union> (if ok then {} else {ns_sender m})"
  shows "stream_inv s'"
proof -
  note send = chan_send_cases [OF assms(2)]
  have same: "served s' = served s" "negotiating s' = negotiating s"
    using assms(5) by (simp_all add: served_def negotiating_def)
  have "dom (st_held s) = insert (ns_sender m) (dom (st_held s'))"
    using assms(3,9) by auto
  then have "located s \<subseteq> located s'"
    unfolding located_def assms(4,10) same send(7) by auto
  then show ?thesis
    using assms(1) unfolding stream_inv_def assms(4,6-8) same send(1-6) by (meson subset_trans)
qed

lemma receiver_queues:
  assumes "receiver peer c sh = (ch, sh')" "dom (sh_queues sh) \<subseteq> {..<sh_next sh}"
  shows "waiting sh' = waiting sh \<and> dom (sh_queues sh') \<subseteq> {..<sh_next sh'} \<and>
    dom (sh_queues sh') \<subseteq> insert ch (dom (sh_queues sh)) \<and> set_option (sh_pending sh peer) \<subseteq> {ch}"
proof (cases "sh_pending sh peer")
  case None
  then have new: "ch = sh_next sh" "sh_queues sh' = (sh_queues sh)(sh_next sh \<mapsto> [])" "sh_next sh' = Suc (sh_next sh)"
    using assms(1) by (auto simp: receiver_def new_channel_def)
  then have "dom (sh_queues sh') = insert ch (dom (sh_queues sh))"
    by simp
  moreover have "insert ch (dom (sh_queues sh)) \<subseteq> {..<sh_next sh'}"
    using assms(2) new(1,3) by (metis insert_mono lessThan_Suc)
  ultimately show ?thesis
    using waiting_fresh [OF new(2) assms(2)] None by simp
next
  case (Some pend)
  then have "sh_queues sh' = sh_queues sh" "ch = pend" "sh_next sh' = sh_next sh"
    using assms(1) by (auto simp: receiver_def)
  then show ?thesis
    using assms(2) waiting_cong [of sh' sh] Some by (simp add: subset_insertI)
qed

lemma inv_opening:
  assumes "stream_inv s" "st_opening s = None" "st_handlers s c = None"
    and "receiver peer c (st_shared s) = (ch, sh)" "dialling \<in> {st_dialling s, st_dialling s - {peer}}"
  shows "stream_inv (s\<lparr>st_shared := sh, st_dialling := dialling, st_opening := Some (c, peer),
    st_handlers := (st_handlers s)(c \<mapsto> handler_new ch)\<rparr>)"
proof -
  define s' where "s' = s\<lparr>st_shared := sh, st_dialling := dialling, st_opening := Some (c, peer),
    st_handlers := (st_handlers s)(c \<mapsto> handler_new ch)\<rparr>"
  have served: "served s' = insert ch (served s)"
    using served_update [OF assms(3), of "handler_new ch"] by (simp add: served_def s'_def handler_new_def)
  have negotiating: "negotiating s \<subseteq> negotiating s'"
    using assms(3) by (auto simp: negotiating_def s'_def) (metis option.distinct(1))
  have sh: "sh_pending sh = (sh_pending (st_shared s))(peer := None)" "sh_dials sh = sh_dials (st_shared s)"
    "sh_connections sh = sh_connections (st_shared s)" "sh_senders sh = (sh_senders (st_shared s))(c \<mapsto> ch)"
    using assms(4) by (auto simp: receiver_def new_channel_def split: option.splits)
  have "dom (sh_queues (st_shared s)) \<subseteq> {..<sh_next (st_shared s)}"
    and old: "dom (sh_queues (st_shared s)) \<subseteq> served s \<union> ran (sh_pending (st_shared s))"
    using assms(1) by (simp_all add: stream_inv_def)
  then have queues: "waiting sh = waiting (st_shared s)" "dom (sh_queues sh) \<subseteq> {..<sh_next sh}"
    "dom (sh_queues sh) \<subseteq> insert ch (dom (sh_queues (st_shared s)))" "set_option (sh_pending (st_shared s) peer) \<subseteq> {ch}"
    using receiver_queues [OF assms(4)] by simp_all
  have owned: "dom (sh_queues sh) \<subseteq> insert ch (served s) \<union> ran (sh_pending sh)"
    using queues(3,4) old ran_removed [of "sh_pending (st_shared s)" peer] unfolding sh(1) by blast
  have "located s \<subseteq> located s'"
    using negotiating queues(1) unfolding located_def by (auto simp: s'_def)
  then have "st_issued s' \<subseteq> located s'"
    using assms(1) by (auto simp: stream_inv_def s'_def)
  then show ?thesis
    using assms(1,5) queues(2) owned unfolding s'_def [symmetric] stream_inv_def served
    by (auto simp: s'_def sh simp del: domIff)
qed

lemma inv_handler:
  assumes "stream_inv s" "st_handlers s c = Some h" "hd_receiver h' = hd_receiver h"
    and "dom (sh_queues sh) = dom (sh_queues (st_shared s))" "sh_pending sh = sh_pending (st_shared s)"
    "sh_dials sh = sh_dials (st_shared s)" "sh_connections sh = sh_connections (st_shared s)"
    "sh_senders sh = sh_senders (st_shared s)" "sh_next sh = sh_next (st_shared s)"
    and "(\<Union>ch. waiting (st_shared s) ch) \<subseteq> snd ` set_option (hd_pending_upgrade h') \<union> (\<Union>ch. waiting sh ch)"
    and "snd ` set_option (hd_pending_upgrade h) \<subseteq> snd ` set_option (hd_pending_upgrade h') \<union> fst ` set rs"
  shows "stream_inv (s\<lparr>st_shared := sh, st_handlers := (st_handlers s)(c \<mapsto> h'), st_replies := st_replies s @ rs\<rparr>)"
proof -
  define s' where "s' = s\<lparr>st_shared := sh, st_handlers := (st_handlers s)(c \<mapsto> h'), st_replies := st_replies s @ rs\<rparr>"
  have mine: "snd ` set_option (hd_pending_upgrade h') \<subseteq> negotiating s'"
    by (auto simp: negotiating_def s'_def)
  have others: "negotiating s \<subseteq> snd ` set_option (hd_pending_upgrade h) \<union> negotiating s'"
  proof
    fix r
    assume "r \<in> negotiating s"
    then obtain c' h0 p where "st_handlers s c' = Some h0" "hd_pending_upgrade h0 = Some (p, r)"
      by (auto simp: negotiating_def)
    then show "r \<in> snd ` set_option (hd_pending_upgrade h) \<union> negotiating s'"
      using assms(2) by (cases "c' = c") (auto simp: negotiating_def s'_def)
  qed
  have served: "served s' = served s"
    using assms(2,3) by (auto simp: served_def s'_def split: if_splits) (metis option.inject)+
  have sets: "W \<subseteq> X \<union> W' \<union> N'" "N \<subseteq> X \<union> N'"
    if "P' \<subseteq> N'" "N \<subseteq> P \<union> N'" "W \<subseteq> P' \<union> W'" "P \<subseteq> P' \<union> X" for P P' N N' W W' X :: "'c set"
    using that by blast+
  have "located s \<subseteq> located s'"
    by (rule located_kept [where X = "fst ` set rs"])
      (use sets [OF mine others assms(10,11)] in \<open>simp_all add: s'_def image_Un\<close>)
  then have "st_issued s' \<subseteq> located s'"
    using assms(1) by (auto simp: stream_inv_def s'_def)
  then show ?thesis
    using assms(1) unfolding s'_def [symmetric] stream_inv_def served by (simp add: s'_def assms(4-9))
qed

lemma inv_polled:
  assumes "stream_inv s" "st_handlers s c = Some h" "handler_poll h (st_shared s) = (out, h', sh)"
  shows "stream_inv (s\<lparr>st_shared := sh, st_handlers := (st_handlers s)(c \<mapsto> h')\<rparr>)"
proof -
  have "(\<Union>ch. waiting (st_shared s) ch) \<subseteq> snd ` set_option (hd_pending_upgrade h') \<union> (\<Union>ch. waiting sh ch)
    \<and> dom (sh_queues sh) = dom (sh_queues (st_shared s))"
  proof (cases "sh = st_shared s")
    case False
    then obtain m q where upgrade: "hd_pending_upgrade h' = Some (ns_protocol m, ns_sender m)"
        and queue: "chan_messages (hd_receiver h) (st_shared s) = m # q"
        "sh = st_shared s\<lparr>sh_queues := (sh_queues (st_shared s))(hd_receiver h \<mapsto> q)\<rparr>"
      using assms(3) by (auto simp: handler_poll_def split: option.splits list.splits)
    have "sh_queues (st_shared s) (hd_receiver h) = Some (m # q)"
      using queue(1) by (auto simp: chan_messages_def split: option.splits)
    moreover have "waiting (st_shared s) ch \<subseteq> {ns_sender m} \<union> waiting sh ch" for ch
      using queue by (cases "ch = hd_receiver h") (auto simp: waiting_def chan_messages_simps chan_messages_def [of ch])
    ultimately show ?thesis
      using queue(2) upgrade by (auto simp: subset_iff)
  qed auto
  moreover have "hd_receiver h' = hd_receiver h" "sh_pending sh = sh_pending (st_shared s)"
    "sh_dials sh = sh_dials (st_shared s)" "sh_connections sh = sh_connections (st_shared s)"
    "sh_senders sh = sh_senders (st_shared s)" "sh_next sh = sh_next (st_shared s)"
    "snd ` set_option (hd_pending_upgrade h) \<subseteq> snd ` set_option (hd_pending_upgrade h')"
    using assms(3) by (auto simp: handler_poll_def split: option.splits list.splits)
  ultimately show ?thesis
    using inv_handler [OF assms(1,2), of h' sh "[]"] by simp
qed

lemma inv_replied:
  assumes "stream_inv s" "st_handlers s c = Some h" "hd_receiver h' = hd_receiver h"
    and "snd ` set_option (hd_pending_upgrade h) \<subseteq> fst ` set rs"
  shows "stream_inv (s\<lparr>st_handlers := (st_handlers s)(c \<mapsto> h'), st_replies := st_replies s @ rs\<rparr>)"
proof -
  have "stream_inv (s\<lparr>st_shared := st_shared s, st_handlers := (st_handlers s)(c \<mapsto> h'), st_replies := st_replies s @ rs\<rparr>)"
    by (rule inv_handler [OF assms(1-3)]) (use assms(4) in auto)
  then show ?thesis
    by simp
qed

lemma inv_swarm:
  assumes "stream_inv s" "st_handlers s' = st_handlers s" "st_held s' = st_held s" "st_replies s' = st_replies s"
    and "st_issued s' = st_issued s" "sh_queues (st_shared s') = sh_queues (st_shared s)"
    "sh_next (st_shared s') = sh_next (st_shared s)" "sh_pending (st_shared s') = sh_pending (st_shared s)"
    and "fst ` set (sh_connections (st_shared s')) \<union> fst ` set_option (st_opening s') \<subseteq> dom (sh_senders (st_shared s'))"
    and "dom (sh_pending (st_shared s)) \<subseteq> set (sh_dials (st_shared s')) \<union> st_dialling s'"
  shows "stream_inv s'"
proof -
  have "located s' = located s" "served s' = served s"
    using assms(2-4) waiting_cong [OF assms(6)] by (simp_all add: located_def negotiating_def served_def)
  then show ?thesis
    using assms unfolding stream_inv_def by simp
qed

lemma stream_step_inv:
  assumes "stream_step s s'" "stream_inv s"
  shows "stream_inv s'"
  using assms
proof (cases rule: stream_step.cases)
  case (dial peer sh)
  then have "sh = st_shared s\<lparr>sh_dials := tl (sh_dials (st_shared s))\<rparr>"
    "set (sh_dials (st_shared s)) = insert peer (set (tl (sh_dials (st_shared s))))"
    by (auto simp: behaviour_poll_def split: list.splits)
  then show ?thesis
    using assms(2) dial by (intro inv_swarm [OF assms(2)]) (simp_all add: stream_inv_def)
next
  case (other_dial peer)
  then show ?thesis
    using assms(2) by (intro inv_swarm [OF assms(2)]) (auto simp: stream_inv_def)
next
  case (opened c peer)
  then show ?thesis
    using assms(2) by (intro inv_swarm [OF assms(2)]) (auto simp: stream_inv_def shared_on_connection_established_def)
next
  case (closed c)
  then show ?thesis
    using assms(2) by (intro inv_swarm [OF assms(2)]) (auto simp: stream_inv_def shared_on_connection_closed_def)
next
  case (denied c peer h)
  then show ?thesis
    using inv_handler_drop [OF assms(2), of c h None] by simp
next
  case (handler_gone c h)
  then show ?thesis
    using inv_handler_drop [OF assms(2), of c h "st_opening s"] by simp
next
  case (acquire pick r peer ch sh)
  then show ?thesis
    by (intro inv_sender [OF assms(2) acquire(4)]) auto
next
  case (refused pick r peer e sh)
  then show ?thesis
    by (intro inv_sender [OF assms(2) refused(4)]) auto
next
  case (send r ch protocol sh)
  then show ?thesis
    by (intro inv_send [OF assms(2) send(3)]) auto
next
  case (send_failed r ch protocol sh e)
  then show ?thesis
    by (intro inv_send [OF assms(2) send_failed(3)]) auto
next
  case (negotiated c h rs h')
  then have "hd_receiver h' = hd_receiver h" "snd ` set_option (hd_pending_upgrade h) \<subseteq> fst ` set rs"
    by (auto simp: on_negotiated_def split: option.splits)
  then show ?thesis
    using inv_replied [OF assms(2)] negotiated by simp
next
  case (upgrade_failed c h e rs h')
  then have "hd_receiver h' = hd_receiver h" "snd ` set_option (hd_pending_upgrade h) \<subseteq> fst ` set rs"
    by (auto simp: on_upgrade_error_def split: option.splits)
  then show ?thesis
    using inv_replied [OF assms(2)] upgrade_failed by simp
next
  case (dial_skipped pick peer sh)
  then show ?thesis
    using inv_dial_skipped [OF assms(2) dial_skipped(2,4,5)] by simp
next
  case (dial_failed dialling peer reason)
  then show ?thesis
    using inv_dial_failed [OF assms(2) dial_failed(3)] by simp
next
  case (opening_conn c dialling peer ch sh)
  then show ?thesis
    using inv_opening [OF assms(2) opening_conn(2,3,6,5)] by simp
next
  case (polled c h out h' sh)
  then show ?thesis
    using inv_polled [OF assms(2) polled(2,3)] by simp
next
  case (dropped peers)
  then show ?thesis
    using inv_dropped [OF assms(2) dropped(2)] by simp
qed

lemma stream_inv_reachable: "stream_reachable s \<Longrightarrow> stream_inv s"
proof (induction rule: stream_reachable.induct)
  case start
  show ?case
    by (simp add: stream_inv_def streams_new_def shared_new_def)
next
  case (step s s')
  then show ?case
    using stream_step_inv by blast
qed

section \<open>No request is left behind\<close>

text \<open>
  C7: Every request for a stream is attended to. In every reachable state, however the calls of the controls
  interleave with the swarm, a request that was made is answered, or still holds the channel it is about to
  use, or waits in the channel of a live handler or is negotiated by one, or waits in the pending channel of
  a peer whose dial is queued or under way. None waits in a channel that nobody serves.
\<close>

theorem stream_requests_attended:
  assumes "stream_reachable s" "r \<in> st_issued s"
  shows "r \<in> fst ` set (st_replies s) \<or> r \<in> dom (st_held s)
    \<or> (\<exists>c h. st_handlers s c = Some h \<and> (r \<in> waiting (st_shared s) (hd_receiver h)
        \<or> r \<in> snd ` set_option (hd_pending_upgrade h)))
    \<or> (\<exists>p ch. sh_pending (st_shared s) p = Some ch \<and> r \<in> waiting (st_shared s) ch
        \<and> (p \<in> set (sh_dials (st_shared s)) \<or> p \<in> st_dialling s))"
proof -
  note inv = stream_inv_reachable [OF assms(1), unfolded stream_inv_def]
  have "r \<in> located s"
    using inv assms(2) by blast
  then consider "r \<in> dom (st_held s)" | "r \<in> fst ` set (st_replies s)" | "r \<in> negotiating s"
    | ch where "r \<in> waiting (st_shared s) ch"
    unfolding located_def by blast
  then show ?thesis
  proof cases
    case 3
    then show ?thesis
      by (force simp: negotiating_def)
  next
    case (4 ch)
    then have "ch \<in> dom (sh_queues (st_shared s))"
      by (cases "sh_queues (st_shared s) ch") (auto simp: waiting_def chan_messages_def)
    then have "ch \<in> served s \<or> ch \<in> ran (sh_pending (st_shared s))"
      using inv by blast
    then show ?thesis
    proof
      assume "ch \<in> served s"
      then show ?thesis
        using 4 by (auto simp: served_def)
    next
      assume "ch \<in> ran (sh_pending (st_shared s))"
      then obtain p where "sh_pending (st_shared s) p = Some ch"
        by (auto simp: ran_def)
      then show ?thesis
        using 4 inv by blast
    qed
  qed auto
qed

text \<open>A request to a peer that is not connected, after it was sent: it waits for the dial of the peer.\<close>

definition sample_streams1 :: "(nat, nat, nat, unit) streams" where
  "sample_streams1 = streams_new\<lparr>st_shared := snd (sender hd 5 shared_new), st_held := [1 \<mapsto> 0], st_issued := {1}\<rparr>"

definition sample_streams2 :: "(nat, nat, nat, unit) streams" where
  "sample_streams2 = sample_streams1\<lparr>
    st_shared := snd (chan_send 0 \<lparr>ns_protocol = ''/sqd/query/1.1.0'', ns_sender = 1\<rparr> (st_shared sample_streams1)),
    st_held := Map.empty\<rparr>"

lemmas sample_streams_defs = sample_streams1_def sample_streams2_def streams_new_def shared_new_def sender_def
  connected_sender_def new_channel_def chan_send_def

lemma sample_streams_reachable: "stream_reachable sample_streams2"
proof -
  have "picks (hd :: nat list \<Rightarrow> nat)"
    by (simp add: picks_def)
  then have "stream_step streams_new sample_streams1"
    using stream_step.acquire [of hd 1 "streams_new :: (nat, nat, nat, unit) streams" 5 0 "snd (sender hd 5 shared_new)"]
    by (simp add: sample_streams_defs)
  moreover have "stream_step sample_streams1 sample_streams2"
    using stream_step.send [of sample_streams1 1 0 "''/sqd/query/1.1.0''" "st_shared sample_streams2"]
    by (simp add: sample_streams_defs)
  ultimately show ?thesis
    using stream_reachable.intros by blast
qed

lemma stream_requests_attended_witness:
  "(1 :: nat) \<in> st_issued sample_streams2 \<and> dom (st_held sample_streams2) = {} \<and> st_replies sample_streams2 = []
    \<and> (\<exists>p ch. sh_pending (st_shared sample_streams2) p = Some ch \<and> 1 \<in> waiting (st_shared sample_streams2) ch
        \<and> (p \<in> set (sh_dials (st_shared sample_streams2)) \<or> p \<in> st_dialling sample_streams2))"
proof -
  have facts: "(1 :: nat) \<in> st_issued sample_streams2" "dom (st_held sample_streams2) = {}"
    "st_replies sample_streams2 = []" "st_handlers sample_streams2 = Map.empty"
    by (simp_all add: sample_streams_defs)
  then show ?thesis
    using stream_requests_attended [OF sample_streams_reachable facts(1)] by simp
qed

end
