(* ===== verification/Flat_Tables.thy ===== *)
theory Flat_Tables
  imports Byte_Encoding
begin

text \<open>
  The operations of the FlatBuffers runtime that the code generated from the schemas calls, and what is
  relied on of them. The runtime is a crate outside the sources, so its operations are a parameter, the
  record \<open>flatbuffers\<close>: those of \<^verbatim>\<open>FlatBufferBuilder\<close> on a builder \<open>'b\<close>, and those of \<^verbatim>\<open>Table\<close> and
  \<^verbatim>\<open>root\<close> on a finished buffer \<open>'f\<close>. An offset \<open>'o\<close> is the distance of an object from the end of the
  buffer, which is what a \<^verbatim>\<open>WIPOffset\<close> holds and what stays valid while the buffer grows to the front.

  \<open>flat_laws\<close> states the documented behaviour through three ghost functions: the slots of the table
  that is open in a builder, and the objects that a builder and a buffer hold. The rest of the theory
  is the shared part of the generated code (a table builder) and the lemmas the tables are proved with.
\<close>

section \<open>Objects of a buffer\<close>

text \<open>A scalar enum is a byte; a struct is stored inline as its bytes; all else is an offset.\<close>

datatype 'o slot = SlotU32 u32 | SlotU64 u64 | SlotI8 u8 | SlotStruct "u8 list" | SlotOffset 'o

datatype 'o vec =
    VecU8 "u8 list" | VecU16 "u16 list" | VecU32 "u32 list" | VecU64 "u64 list"
  | VecStruct "u8 list list" | VecOffset "'o list"

type_synonym 'o slots = "nat \<rightharpoonup> 'o slot"

datatype 'o stored = Table "'o slots" | Str string | Vec "'o vec"

section \<open>The runtime's operations\<close>

record ('b, 'o, 'f) flatbuffers =
  fb_start_table :: "'b \<Rightarrow> 'b"
  fb_push_slot_always :: "nat \<Rightarrow> 'o slot \<Rightarrow> 'b \<Rightarrow> 'b"
  fb_push_slot :: "nat \<Rightarrow> 'o slot \<Rightarrow> 'o slot \<Rightarrow> 'b \<Rightarrow> 'b"
  fb_end_table :: "'b \<Rightarrow> 'o \<times> 'b"
  fb_required :: "'o \<Rightarrow> nat \<Rightarrow> string \<Rightarrow> 'b \<Rightarrow> unit outcome"
  fb_create_string :: "string \<Rightarrow> 'b \<Rightarrow> 'o \<times> 'b"
  fb_create_shared_string :: "string \<Rightarrow> 'b \<Rightarrow> 'o \<times> 'b"
  fb_create_vector :: "'o vec \<Rightarrow> 'b \<Rightarrow> 'o \<times> 'b"
  fb_finish :: "'o \<Rightarrow> 'b \<Rightarrow> 'f"
  fb_root_unchecked :: "'f \<Rightarrow> 'o"
  fb_get_u32 :: "'f \<Rightarrow> 'o \<Rightarrow> nat \<Rightarrow> u32 option"
  fb_get_u64 :: "'f \<Rightarrow> 'o \<Rightarrow> nat \<Rightarrow> u64 option"
  fb_get_i8 :: "'f \<Rightarrow> 'o \<Rightarrow> nat \<Rightarrow> u8 option"
  fb_get_struct :: "'f \<Rightarrow> 'o \<Rightarrow> nat \<Rightarrow> u8 list option"
  fb_get_str :: "'f \<Rightarrow> 'o \<Rightarrow> nat \<Rightarrow> string option"
  fb_get_table :: "'f \<Rightarrow> 'o \<Rightarrow> nat \<Rightarrow> 'o option"
  fb_get_u8s :: "'f \<Rightarrow> 'o \<Rightarrow> nat \<Rightarrow> u8 list option"
  fb_get_u16s :: "'f \<Rightarrow> 'o \<Rightarrow> nat \<Rightarrow> u16 list option"
  fb_get_u32s :: "'f \<Rightarrow> 'o \<Rightarrow> nat \<Rightarrow> u32 list option"
  fb_get_u64s :: "'f \<Rightarrow> 'o \<Rightarrow> nat \<Rightarrow> u64 list option"
  fb_get_structs :: "'f \<Rightarrow> 'o \<Rightarrow> nat \<Rightarrow> u8 list list option"
  fb_get_tables :: "'f \<Rightarrow> 'o \<Rightarrow> nat \<Rightarrow> 'o list option"
  fb_get_strs :: "'f \<Rightarrow> 'o \<Rightarrow> nat \<Rightarrow> string list option"

section \<open>What is relied on\<close>

text \<open>
  While no table is open, an operation that adds an object keeps the older ones. A slot whose value is
  its default is not written, so the accessor's default stands for it.
\<close>

definition later :: "('b \<Rightarrow> 'o slots option) \<Rightarrow> ('b \<Rightarrow> 'o \<rightharpoonup> 'o stored) \<Rightarrow> 'b \<Rightarrow> 'b \<Rightarrow> bool" where
  "later opn objs b b' = (opn b' = None \<and> objs b \<subseteq>\<^sub>m objs b')"

definition adds_object ::
  "('b \<Rightarrow> 'o slots option) \<Rightarrow> ('b \<Rightarrow> 'o \<rightharpoonup> 'o stored) \<Rightarrow> 'o stored \<Rightarrow> 'b \<Rightarrow> 'o \<times> 'b \<Rightarrow> bool"
where
  "adds_object opn objs x b r = (later opn objs b (snd r) \<and> objs (snd r) (fst r) = Some x)"

definition building ::
  "('b \<Rightarrow> 'o slots option) \<Rightarrow> ('b \<Rightarrow> 'o \<rightharpoonup> 'o stored) \<Rightarrow> ('o \<rightharpoonup> 'o stored) \<Rightarrow> 'o slots \<Rightarrow> 'b \<Rightarrow> bool"
where
  "building opn objs F t b = (opn b = Some t \<and> objs b = F)"

definition write_laws ::
  "('b, 'o, 'f) flatbuffers \<Rightarrow> ('b \<Rightarrow> 'o slots option) \<Rightarrow> ('b \<Rightarrow> 'o \<rightharpoonup> 'o stored) \<Rightarrow> bool"
where
  "write_laws fb opn objs =
    ((\<forall>b. opn b = None \<longrightarrow> building opn objs (objs b) Map.empty (fb_start_table fb b)) \<and>
     (\<forall>b t F s v. building opn objs F t b \<and> t s = None \<longrightarrow>
        building opn objs F (t(s \<mapsto> v)) (fb_push_slot_always fb s v b)) \<and>
     (\<forall>b s v d. fb_push_slot fb s v d b = (if v = d then b else fb_push_slot_always fb s v b)) \<and>
     (\<forall>b t F. building opn objs F t b \<longrightarrow>
        opn (snd (fb_end_table fb b)) = None \<and> F \<subseteq>\<^sub>m objs (snd (fb_end_table fb b)) \<and>
        objs (snd (fb_end_table fb b)) (fst (fb_end_table fb b)) = Some (Table t)) \<and>
     (\<forall>b t off s name. objs b off = Some (Table t) \<longrightarrow>
        (fb_required fb off s name b = Return ()) = (t s \<noteq> None)) \<and>
     (\<forall>b x. opn b = None \<longrightarrow> adds_object opn objs (Str x) b (fb_create_string fb x b)) \<and>
     (\<forall>b x. opn b = None \<longrightarrow> adds_object opn objs (Str x) b (fb_create_shared_string fb x b)) \<and>
     (\<forall>b x. opn b = None \<longrightarrow> adds_object opn objs (Vec x) b (fb_create_vector fb x b)))"

text \<open>\<open>slot_reads g P\<close>: the getter \<open>g\<close> gives nothing for an absent slot and \<open>x\<close> for one that denotes \<open>x\<close>.\<close>

definition slot_reads ::
  "('f \<Rightarrow> 'o \<rightharpoonup> 'o stored) \<Rightarrow> ('f \<Rightarrow> 'o \<Rightarrow> nat \<Rightarrow> 'x option) \<Rightarrow>
    (('o \<rightharpoonup> 'o stored) \<Rightarrow> 'o slot \<Rightarrow> 'x \<Rightarrow> bool) \<Rightarrow> bool"
where
  "slot_reads fobjs g P =
    (\<forall>f off t s. fobjs f off = Some (Table t) \<longrightarrow>
      (t s = None \<longrightarrow> g f off s = None) \<and>
      (\<forall>v x. t s = Some v \<and> P (fobjs f) v x \<longrightarrow> g f off s = Some x))"

fun denotes_str :: "('o \<rightharpoonup> 'o stored) \<Rightarrow> 'o slot \<Rightarrow> string \<Rightarrow> bool" where
  "denotes_str F (SlotOffset r) x = (F r = Some (Str x))"
| "denotes_str F _ x = False"

fun denotes_vec :: "('x \<Rightarrow> 'o vec) \<Rightarrow> ('o \<rightharpoonup> 'o stored) \<Rightarrow> 'o slot \<Rightarrow> 'x \<Rightarrow> bool" where
  "denotes_vec con F (SlotOffset r) x = (F r = Some (Vec (con x)))"
| "denotes_vec con F _ x = False"

fun denotes_each ::
  "(('o \<rightharpoonup> 'o stored) \<Rightarrow> 'o \<Rightarrow> 'x \<Rightarrow> bool) \<Rightarrow> ('o \<rightharpoonup> 'o stored) \<Rightarrow> 'o slot \<Rightarrow> 'x list \<Rightarrow> bool"
where
  "denotes_each R F (SlotOffset r) xs =
    (\<exists>offs. F r = Some (Vec (VecOffset offs)) \<and> list_all2 (R F) offs xs)"
| "denotes_each R F _ xs = False"

definition read_laws :: "('b, 'o, 'f) flatbuffers \<Rightarrow> ('f \<Rightarrow> 'o \<rightharpoonup> 'o stored) \<Rightarrow> bool" where
  "read_laws fb fobjs =
    (slot_reads fobjs (fb_get_u32 fb) (\<lambda>F v x. v = SlotU32 x) \<and>
     slot_reads fobjs (fb_get_u64 fb) (\<lambda>F v x. v = SlotU64 x) \<and>
     slot_reads fobjs (fb_get_i8 fb) (\<lambda>F v x. v = SlotI8 x) \<and>
     slot_reads fobjs (fb_get_struct fb) (\<lambda>F v x. v = SlotStruct x) \<and>
     slot_reads fobjs (fb_get_table fb) (\<lambda>F v x. v = SlotOffset x) \<and>
     slot_reads fobjs (fb_get_str fb) denotes_str \<and>
     slot_reads fobjs (fb_get_u8s fb) (denotes_vec VecU8) \<and>
     slot_reads fobjs (fb_get_u16s fb) (denotes_vec VecU16) \<and>
     slot_reads fobjs (fb_get_u32s fb) (denotes_vec VecU32) \<and>
     slot_reads fobjs (fb_get_u64s fb) (denotes_vec VecU64) \<and>
     slot_reads fobjs (fb_get_structs fb) (denotes_vec VecStruct) \<and>
     slot_reads fobjs (fb_get_tables fb) (denotes_vec VecOffset) \<and>
     slot_reads fobjs (fb_get_strs fb) (denotes_each (\<lambda>F off x. F off = Some (Str x))))"

definition finish_laws ::
  "('b, 'o, 'f) flatbuffers \<Rightarrow> ('b \<Rightarrow> 'o slots option) \<Rightarrow> ('b \<Rightarrow> 'o \<rightharpoonup> 'o stored) \<Rightarrow>
    ('f \<Rightarrow> 'o \<rightharpoonup> 'o stored) \<Rightarrow> bool"
where
  "finish_laws fb opn objs fobjs =
    (\<forall>b root. opn b = None \<longrightarrow>
      objs b \<subseteq>\<^sub>m fobjs (fb_finish fb root b) \<and> fb_root_unchecked fb (fb_finish fb root b) = root)"

definition flat_laws ::
  "('b, 'o, 'f) flatbuffers \<Rightarrow> ('b \<Rightarrow> 'o slots option) \<Rightarrow> ('b \<Rightarrow> 'o \<rightharpoonup> 'o stored) \<Rightarrow>
    ('f \<Rightarrow> 'o \<rightharpoonup> 'o stored) \<Rightarrow> bool"
where
  "flat_laws fb opn objs fobjs =
    (write_laws fb opn objs \<and> read_laws fb fobjs \<and> finish_laws fb opn objs fobjs)"

section \<open>Table builders\<close>

text \<open>
  Every generated \<^verbatim>\<open>XBuilder\<close> has \<^verbatim>\<open>new\<close>, one \<^verbatim>\<open>add_*\<close> per field and \<^verbatim>\<open>finish\<close>. The \<open>add\<close> takes
  the field as a constructor of the table's own datatype. \<^verbatim>\<open>finish\<close> ends the table and asserts the
  required fields in turn.
\<close>

record ('a, 'b, 'o) table_builder =
  tb_new :: "'b \<Rightarrow> 'b"
  tb_add :: "'a \<Rightarrow> 'b \<Rightarrow> 'b"
  tb_finish :: "'b \<Rightarrow> ('o \<times> 'b) outcome"

fun check_required :: "('b, 'o, 'f) flatbuffers \<Rightarrow> 'o \<Rightarrow> 'b \<Rightarrow> (nat \<times> string) list \<Rightarrow> unit outcome" where
  "check_required fb off b [] = Return ()"
| "check_required fb off b ((s, name) # rest) =
    outcome_bind (fb_required fb off s name b) (\<lambda>_. check_required fb off b rest)"

definition finish_table ::
  "('b, 'o, 'f) flatbuffers \<Rightarrow> (nat \<times> string) list \<Rightarrow> 'b \<Rightarrow> ('o \<times> 'b) outcome"
where
  "finish_table fb reqs b =
    (let r = fb_end_table fb b
     in outcome_map (\<lambda>_. r) (check_required fb (fst r) (snd r) reqs))"

text \<open>\<^verbatim>\<open>if let Some(x) = args.field { builder.add_field(x); }\<close>\<close>

definition add_some :: "('a, 'b, 'o) table_builder \<Rightarrow> ('x \<Rightarrow> 'a) \<Rightarrow> 'x option \<Rightarrow> 'b \<Rightarrow> 'b" where
  "add_some bd field x b = (case x of None \<Rightarrow> b | Some v \<Rightarrow> tb_add bd (field v) b)"

text \<open>An accessor of a required field, or of one with a default, unwraps what the table gives.\<close>

definition unwrap :: "'a option \<Rightarrow> 'a outcome" where
  "unwrap x = expect ''called `Option::unwrap()` on a `None` value'' x"

definition or_default :: "'a \<Rightarrow> 'a option \<Rightarrow> 'a option" where
  "or_default d x = (case x of None \<Rightarrow> Some d | Some v \<Rightarrow> Some v)"

fun outcome_list :: "('a \<Rightarrow> 'b outcome) \<Rightarrow> 'a list \<Rightarrow> 'b list outcome" where
  "outcome_list f [] = Return []"
| "outcome_list f (x # xs) =
    outcome_bind (f x) (\<lambda>y. outcome_map (\<lambda>ys. y # ys) (outcome_list f xs))"

lemma unwrap_simps [simp]:
  "unwrap (Some a) = Return a"
  "(unwrap x = Return a) = (x = Some a)"
  by (simp_all add: unwrap_def)

lemma or_default_simps [simp]:
  "or_default d None = Some d"
  "or_default d (Some v) = Some v"
  by (simp_all add: or_default_def)

lemma or_default_some [simp]: "\<exists>v. or_default d x = Some v"
  by (cases x) simp_all

lemma outcome_list_all2:
  "list_all2 (\<lambda>x y. f x = Return y) xs ys \<Longrightarrow> outcome_list f xs = Return ys"
  by (induction rule: list_all2_induct) simp_all

lemma outcome_list_total:
  "(\<And>x. x \<in> set xs \<Longrightarrow> \<exists>y. f x = Return y) \<Longrightarrow> \<exists>ys. outcome_list f xs = Return ys"
  by (induction xs) auto

section \<open>Building a table\<close>

lemma later_refl [simp]: "opn b = None \<Longrightarrow> later opn objs b b"
  by (simp add: later_def)

lemma later_trans [trans]: "later opn objs a b \<Longrightarrow> later opn objs b c \<Longrightarrow> later opn objs a c"
  by (auto simp: later_def intro: map_le_trans)

lemma later_closed: "later opn objs a b \<Longrightarrow> opn b = None"
  by (simp add: later_def)

lemma later_objs: "later opn objs a b \<Longrightarrow> objs a off = Some x \<Longrightarrow> objs b off = Some x"
  by (metis domI later_def map_le_def)

lemma write_lawsD:
  assumes "write_laws fb opn objs"
  shows "opn b = None \<Longrightarrow> building opn objs (objs b) Map.empty (fb_start_table fb b)"
    and "building opn objs F t b \<Longrightarrow> t s = None \<Longrightarrow>
      building opn objs F (t(s \<mapsto> v)) (fb_push_slot_always fb s v b)"
    and "fb_push_slot fb s v d b = (if v = d then b else fb_push_slot_always fb s v b)"
    and "building opn objs F t b \<Longrightarrow>
      opn (snd (fb_end_table fb b)) = None \<and> F \<subseteq>\<^sub>m objs (snd (fb_end_table fb b)) \<and>
      objs (snd (fb_end_table fb b)) (fst (fb_end_table fb b)) = Some (Table t)"
    and "objs b off = Some (Table t) \<Longrightarrow> (fb_required fb off s name b = Return ()) = (t s \<noteq> None)"
    and "opn b = None \<Longrightarrow> adds_object opn objs (Str x) b (fb_create_string fb x b)"
    and "opn b = None \<Longrightarrow> adds_object opn objs (Str x) b (fb_create_shared_string fb x b)"
    and "opn b = None \<Longrightarrow> adds_object opn objs (Vec xs) b (fb_create_vector fb xs b)"
  using assms unfolding write_laws_def by (elim conjE, (simp only: simp_thms | metis))+

lemma building_start:
  "write_laws fb opn objs \<Longrightarrow> opn b = None \<Longrightarrow>
    building opn objs (objs b) Map.empty (fb_start_table fb b)"
  by (rule write_lawsD)

lemma building_push:
  "write_laws fb opn objs \<Longrightarrow> building opn objs F t b \<Longrightarrow> t s = None \<Longrightarrow>
    building opn objs F (t(s \<mapsto> v)) (fb_push_slot_always fb s v b)"
  by (rule write_lawsD)

lemma building_add:
  assumes "write_laws fb opn objs" "building opn objs F t b" "t s = None"
    and "(v = d) = is_default" "\<And>c. tb_add bd a c = fb_push_slot fb s v d c"
  shows "building opn objs F (t(s := if is_default then None else Some v)) (tb_add bd a b)"
proof -
  have "fb_push_slot fb s v d b = (if v = d then b else fb_push_slot_always fb s v b)"
    by (rule write_lawsD(3) [OF assms(1)])
  with assms building_push [OF assms(1-3), of v] show ?thesis
    by (simp add: fun_upd_idem)
qed

lemma building_add_some:
  assumes "write_laws fb opn objs" "building opn objs F t b" "t s = None"
    and "\<And>v c. tb_add bd (fld v) c = fb_push_slot_always fb s (con v) c"
  shows "building opn objs F (t(s := map_option con x)) (add_some bd fld x b)"
proof (cases x)
  case None
  then show ?thesis using assms(2,3) by (simp add: add_some_def fun_upd_idem)
next
  case (Some v)
  then show ?thesis using building_push [OF assms(1-3), of "con v"] assms(4) by (simp add: add_some_def)
qed

lemma check_required_iff:
  assumes "write_laws fb opn objs" "objs b off = Some (Table t)"
  shows "check_required fb off b reqs = Return () \<longleftrightarrow> (\<forall>(s, name) \<in> set reqs. t s \<noteq> None)"
proof (induction reqs)
  case (Cons r rest)
  have "(fb_required fb off s name b = Return ()) = (t s \<noteq> None)" for s name
    by (rule write_lawsD(5) [OF assms])
  then show ?case using Cons.IH by (cases r) auto
qed simp

lemma finish_table_iff:
  assumes "write_laws fb opn objs" "building opn objs F t b"
  shows "(\<exists>r. finish_table fb reqs b = Return r) \<longleftrightarrow> (\<forall>s \<in> set (map fst reqs). t s \<noteq> None)"
proof -
  have "objs (snd (fb_end_table fb b)) (fst (fb_end_table fb b)) = Some (Table t)"
    using write_lawsD(4) [OF assms] by simp
  from check_required_iff [OF assms(1) this] show ?thesis
    by (auto simp: finish_table_def Let_def case_prod_unfold)
qed

lemma finish_table_Return:
  assumes "write_laws fb opn objs" "building opn objs (objs b\<^sub>0) t b"
    and "finish_table fb reqs b = Return (off, b')"
  shows "later opn objs b\<^sub>0 b' \<and> objs b' off = Some (Table t)"
proof -
  from assms(3) have "fb_end_table fb b = (off, b')"
    by (auto simp: finish_table_def Let_def)
  moreover have "opn (snd (fb_end_table fb b)) = None \<and> objs b\<^sub>0 \<subseteq>\<^sub>m objs (snd (fb_end_table fb b)) \<and>
      objs (snd (fb_end_table fb b)) (fst (fb_end_table fb b)) = Some (Table t)"
    by (rule write_lawsD(4) [OF assms(1,2)])
  ultimately show ?thesis by (simp add: later_def)
qed

text \<open>What a generated \<^verbatim>\<open>create\<close> does: it stores the table, unless a required field is missing.\<close>

definition creates ::
  "('b \<Rightarrow> 'o slots option) \<Rightarrow> ('b \<Rightarrow> 'o \<rightharpoonup> 'o stored) \<Rightarrow> nat list \<Rightarrow> 'o slots \<Rightarrow> 'b \<Rightarrow>
    ('o \<times> 'b) outcome \<Rightarrow> bool"
where
  "creates opn objs reqs t b r =
    (if \<forall>s \<in> set reqs. t s \<noteq> None then
       \<exists>off b'. r = Return (off, b') \<and> later opn objs b b' \<and> objs b' off = Some (Table t)
     else \<exists>m. r = Panic m)"

lemma creates_finish:
  assumes "write_laws fb opn objs" "building opn objs (objs b\<^sub>0) t b"
  shows "creates opn objs (map fst reqs) t b\<^sub>0 (finish_table fb reqs b)"
proof (cases "finish_table fb reqs b")
  case (Return r)
  then show ?thesis
    using finish_table_iff [OF assms, of reqs] finish_table_Return [OF assms, of reqs "fst r" "snd r"]
    by (cases r) (auto simp: creates_def)
next
  case (Panic m)
  then show ?thesis
    using finish_table_iff [OF assms, of reqs] by (auto simp: creates_def)
qed

lemmas table_rules = building_add building_add_some

section \<open>Reading a table\<close>

definition holds_slot ::
  "(('o \<rightharpoonup> 'o stored) \<Rightarrow> 'o slot \<Rightarrow> 'x \<Rightarrow> bool) \<Rightarrow> ('o \<rightharpoonup> 'o stored) \<Rightarrow> 'o slots \<Rightarrow> nat \<Rightarrow> 'x \<Rightarrow> bool"
where
  "holds_slot P F t s x = (\<exists>v. t s = Some v \<and> P F v x)"

definition holds_option ::
  "(('o \<rightharpoonup> 'o stored) \<Rightarrow> 'o slot \<Rightarrow> 'x \<Rightarrow> bool) \<Rightarrow> ('o \<rightharpoonup> 'o stored) \<Rightarrow> 'o slots \<Rightarrow> nat \<Rightarrow> 'x option \<Rightarrow> bool"
where
  "holds_option P F t s x = (case x of None \<Rightarrow> t s = None | Some y \<Rightarrow> holds_slot P F t s y)"

definition holds_scalar :: "('x \<Rightarrow> 'o slot) \<Rightarrow> 'o slots \<Rightarrow> nat \<Rightarrow> 'x \<Rightarrow> 'x \<Rightarrow> bool" where
  "holds_scalar con t s d x = (t s = (if x = d then None else Some (con x)))"

definition denotes_table ::
  "(('o \<rightharpoonup> 'o stored) \<Rightarrow> 'o \<Rightarrow> 'x \<Rightarrow> bool) \<Rightarrow> ('o \<rightharpoonup> 'o stored) \<Rightarrow> 'o slot \<Rightarrow> 'x \<Rightarrow> bool"
where
  "denotes_table R F v x = (\<exists>r. v = SlotOffset r \<and> R F r x)"

lemma reads_slot:
  "slot_reads fobjs g P \<Longrightarrow> fobjs f off = Some (Table t) \<Longrightarrow> holds_slot P (fobjs f) t s x \<Longrightarrow>
    g f off s = Some x"
  by (auto simp: slot_reads_def holds_slot_def)

lemma reads_option:
  "slot_reads fobjs g P \<Longrightarrow> fobjs f off = Some (Table t) \<Longrightarrow> holds_option P (fobjs f) t s x \<Longrightarrow>
    g f off s = x"
  by (auto simp: holds_option_def reads_slot split: option.splits) (auto simp: slot_reads_def)

lemma reads_scalar:
  assumes "slot_reads fobjs g (\<lambda>F v x. v = con x)" "fobjs f off = Some (Table t)" "holds_scalar con t s d x"
  shows "or_default d (g f off s) = Some x"
proof (cases "x = d")
  case True
  with assms have "g f off s = None"
    by (simp add: slot_reads_def holds_scalar_def)
  with True show ?thesis by simp
next
  case False
  with assms have "g f off s = Some x"
    by (simp add: slot_reads_def holds_scalar_def)
  then show ?thesis by simp
qed

lemma holds_option_table:
  assumes "slot_reads fobjs g (\<lambda>F v x. v = SlotOffset x)" "fobjs f off = Some (Table t)"
    and "holds_option (denotes_table R) (fobjs f) t s x"
  shows "case x of None \<Rightarrow> g f off s = None | Some y \<Rightarrow> \<exists>r. g f off s = Some r \<and> R (fobjs f) r y"
  using assms
  by (auto simp: holds_option_def holds_slot_def denotes_table_def slot_reads_def split: option.splits)

lemma holds_each:
  assumes "slot_reads fobjs g (denotes_vec VecOffset)" "fobjs f off = Some (Table t)"
    and "holds_slot (denotes_each R) (fobjs f) t s xs"
  shows "\<exists>offs. g f off s = Some offs \<and> list_all2 (R (fobjs f)) offs xs"
proof -
  from assms(3) obtain r offs where "t s = Some (SlotOffset r)"
    and "fobjs f r = Some (Vec (VecOffset offs))" and "list_all2 (R (fobjs f)) offs xs"
    by (auto simp: holds_slot_def elim: denotes_each.elims)
  moreover from this have "g f off s = Some offs"
    by (intro reads_slot [OF assms(1,2)]) (simp add: holds_slot_def)
  ultimately show ?thesis by simp
qed

section \<open>Objects stay when the buffer grows\<close>

definition stays :: "(('o \<rightharpoonup> 'o stored) \<Rightarrow> 'v \<Rightarrow> 'x \<Rightarrow> bool) \<Rightarrow> bool" where
  "stays P = (\<forall>F G v x. F \<subseteq>\<^sub>m G \<longrightarrow> P F v x \<longrightarrow> P G v x)"

lemma staysD: "stays P \<Longrightarrow> F \<subseteq>\<^sub>m G \<Longrightarrow> P F v x \<Longrightarrow> P G v x"
  by (simp add: stays_def)

lemma map_leD: "F \<subseteq>\<^sub>m G \<Longrightarrow> F k = Some v \<Longrightarrow> G k = Some v"
  by (metis domI map_le_def)

lemma stays_str [simp]: "stays denotes_str"
  unfolding stays_def by (intro allI impI) (auto elim!: denotes_str.elims dest: map_leD)

lemma stays_vec [simp]: "stays (denotes_vec con)"
  unfolding stays_def by (intro allI impI) (auto elim!: denotes_vec.elims dest: map_leD)

lemma stays_const [simp]: "stays (\<lambda>F v x. Q v x)"
  by (simp add: stays_def)

lemma stays_object [simp]: "stays (\<lambda>F off x. F off = Some (c x))"
  by (auto simp: stays_def dest: map_leD)

lemma stays_each [simp]:
  assumes "stays R"
  shows "stays (denotes_each R)"
  unfolding stays_def
proof (intro allI impI)
  fix F G :: "'a \<rightharpoonup> 'a stored" and v xs
  assume le: "F \<subseteq>\<^sub>m G" and "denotes_each R F v xs"
  then obtain r offs where v: "v = SlotOffset r"
    and r: "F r = Some (Vec (VecOffset offs))" and offs: "list_all2 (R F) offs xs"
    by (auto elim!: denotes_each.elims)
  from offs have "list_all2 (R G) offs xs"
    by (rule list_all2_mono) (rule staysD [OF assms le])
  with v map_leD [OF le r] show "denotes_each R G v xs" by simp
qed

lemma stays_table [simp]: "stays R \<Longrightarrow> stays (denotes_table R)"
  by (auto simp: stays_def denotes_table_def)

lemma holds_slot_stays:
  "F \<subseteq>\<^sub>m G \<Longrightarrow> holds_slot P F t s x \<Longrightarrow> stays P \<Longrightarrow> holds_slot P G t s x"
  by (auto simp: holds_slot_def dest: staysD)

lemma holds_option_stays:
  "F \<subseteq>\<^sub>m G \<Longrightarrow> holds_option P F t s x \<Longrightarrow> stays P \<Longrightarrow> holds_option P G t s x"
  by (auto simp: holds_option_def holds_slot_stays split: option.splits)

section \<open>Stored tables\<close>

text \<open>
  \<open>rep flds F off c\<close>: the object at \<open>off\<close> is a table whose slots hold the fields of the record \<open>c\<close>.
  Each generated table has its own \<open>flds\<close>; storing a record then means that its \<^verbatim>\<open>create\<close> puts such a
  table into the buffer, where it stays.
\<close>

definition rep ::
  "(('o \<rightharpoonup> 'o stored) \<Rightarrow> 'o slots \<Rightarrow> 'x \<Rightarrow> bool) \<Rightarrow> ('o \<rightharpoonup> 'o stored) \<Rightarrow> 'o \<Rightarrow> 'x \<Rightarrow> bool"
where
  "rep flds F off c = (\<exists>t. F off = Some (Table t) \<and> flds F t c)"

lemma stays_rep [simp]: "stays flds \<Longrightarrow> stays (rep flds)"
  unfolding stays_def rep_def by (meson map_leD)

definition stores ::
  "('b \<Rightarrow> 'o slots option) \<Rightarrow> ('b \<Rightarrow> 'o \<rightharpoonup> 'o stored) \<Rightarrow>
    (('o \<rightharpoonup> 'o stored) \<Rightarrow> 'y \<Rightarrow> 'x \<Rightarrow> bool) \<Rightarrow> 'x \<Rightarrow> 'b \<Rightarrow> ('y \<times> 'b) outcome \<Rightarrow> bool"
where
  "stores opn objs R c b r =
    (\<exists>off b'. r = Return (off, b') \<and> later opn objs b b' \<and> R (objs b') off c)"

lemma creates_rep:
  assumes "creates opn objs reqs t b r" "stays flds" "flds (objs b) t c"
    and "\<forall>s \<in> set reqs. t s \<noteq> None"
  shows "stores opn objs (rep flds) c b r"
proof -
  from assms(1,4) obtain off b' where r: "r = Return (off, b')" "later opn objs b b'"
    and t: "objs b' off = Some (Table t)"
    by (auto simp: creates_def)
  have "flds (objs b') t c"
    by (rule staysD [where P = flds, OF assms(2) _ assms(3)]) (use r(2) in \<open>simp add: later_def\<close>)
  with t have "rep flds (objs b') off c" by (auto simp: rep_def)
  with r show ?thesis by (auto simp: stores_def)
qed

section \<open>The getters\<close>

lemma read_lawsD:
  assumes "read_laws fb fobjs"
  shows "slot_reads fobjs (fb_get_u32 fb) (\<lambda>F v x. v = SlotU32 x)"
    and "slot_reads fobjs (fb_get_u64 fb) (\<lambda>F v x. v = SlotU64 x)"
    and "slot_reads fobjs (fb_get_i8 fb) (\<lambda>F v x. v = SlotI8 x)"
    and "slot_reads fobjs (fb_get_struct fb) (\<lambda>F v x. v = SlotStruct x)"
    and "slot_reads fobjs (fb_get_table fb) (\<lambda>F v x. v = SlotOffset x)"
    and "slot_reads fobjs (fb_get_str fb) denotes_str"
    and "slot_reads fobjs (fb_get_u8s fb) (denotes_vec VecU8)"
    and "slot_reads fobjs (fb_get_u16s fb) (denotes_vec VecU16)"
    and "slot_reads fobjs (fb_get_u32s fb) (denotes_vec VecU32)"
    and "slot_reads fobjs (fb_get_u64s fb) (denotes_vec VecU64)"
    and "slot_reads fobjs (fb_get_structs fb) (denotes_vec VecStruct)"
    and "slot_reads fobjs (fb_get_tables fb) (denotes_vec VecOffset)"
    and "slot_reads fobjs (fb_get_strs fb) (denotes_each (\<lambda>F off x. F off = Some (Str x)))"
  using assms by (simp_all add: read_laws_def)

lemma getters:
  assumes "read_laws fb fobjs" "fobjs f off = Some (Table t)"
  shows "holds_scalar SlotU32 t s d1 x1 \<Longrightarrow> or_default d1 (fb_get_u32 fb f off s) = Some x1"
    and "holds_scalar SlotU64 t s d2 x2 \<Longrightarrow> or_default d2 (fb_get_u64 fb f off s) = Some x2"
    and "holds_scalar SlotI8 t s d3 x3 \<Longrightarrow> or_default d3 (fb_get_i8 fb f off s) = Some x3"
    and "holds_option (\<lambda>F v x. v = SlotU64 x) (fobjs f) t s y2 \<Longrightarrow> fb_get_u64 fb f off s = y2"
    and "holds_slot (\<lambda>F v x. v = SlotStruct x) (fobjs f) t s x4 \<Longrightarrow> fb_get_struct fb f off s = Some x4"
    and "holds_slot denotes_str (fobjs f) t s x5 \<Longrightarrow> fb_get_str fb f off s = Some x5"
    and "holds_option denotes_str (fobjs f) t s y5 \<Longrightarrow> fb_get_str fb f off s = y5"
    and "holds_slot (denotes_vec VecU8) (fobjs f) t s x6 \<Longrightarrow> fb_get_u8s fb f off s = Some x6"
    and "holds_option (denotes_vec VecU8) (fobjs f) t s y6 \<Longrightarrow> fb_get_u8s fb f off s = y6"
    and "holds_slot (denotes_vec VecU16) (fobjs f) t s x7 \<Longrightarrow> fb_get_u16s fb f off s = Some x7"
    and "holds_slot (denotes_vec VecU32) (fobjs f) t s x8 \<Longrightarrow> fb_get_u32s fb f off s = Some x8"
    and "holds_option (denotes_vec VecU32) (fobjs f) t s y8 \<Longrightarrow> fb_get_u32s fb f off s = y8"
    and "holds_slot (denotes_vec VecU64) (fobjs f) t s x9 \<Longrightarrow> fb_get_u64s fb f off s = Some x9"
    and "holds_slot (denotes_vec VecStruct) (fobjs f) t s x10 \<Longrightarrow> fb_get_structs fb f off s = Some x10"
    and "holds_slot (denotes_vec (\<lambda>rs. VecStruct (map h rs))) (fobjs f) t s rs \<Longrightarrow>
      fb_get_structs fb f off s = Some (map h rs)"
    and "holds_slot (denotes_each (\<lambda>F off x. F off = Some (Str x))) (fobjs f) t s x11 \<Longrightarrow>
      fb_get_strs fb f off s = Some x11"
proof -
  note rl = read_lawsD [OF assms(1)]
  note sc = reads_scalar [OF rl(1) assms(2)] reads_scalar [OF rl(2) assms(2)] reads_scalar [OF rl(3) assms(2)]
  show "holds_slot (denotes_vec (\<lambda>rs. VecStruct (map h rs))) (fobjs f) t s rs \<Longrightarrow>
      fb_get_structs fb f off s = Some (map h rs)"
    by (rule reads_slot [OF rl(11) assms(2)]) (auto simp: holds_slot_def elim!: denotes_vec.elims)
  show "holds_scalar SlotU32 t s d1 x1 \<Longrightarrow> or_default d1 (fb_get_u32 fb f off s) = Some x1"
    "holds_scalar SlotU64 t s d2 x2 \<Longrightarrow> or_default d2 (fb_get_u64 fb f off s) = Some x2"
    "holds_scalar SlotI8 t s d3 x3 \<Longrightarrow> or_default d3 (fb_get_i8 fb f off s) = Some x3"
    by (erule sc)+
qed (erule (0) reads_option [OF read_lawsD(2) [OF assms(1)] assms(2)]
    reads_option [OF read_lawsD(6) [OF assms(1)] assms(2)]
    reads_option [OF read_lawsD(7) [OF assms(1)] assms(2)]
    reads_option [OF read_lawsD(9) [OF assms(1)] assms(2)]
    reads_slot [OF read_lawsD(4) [OF assms(1)] assms(2)]
    reads_slot [OF read_lawsD(6) [OF assms(1)] assms(2)]
    reads_slot [OF read_lawsD(7) [OF assms(1)] assms(2)]
    reads_slot [OF read_lawsD(8) [OF assms(1)] assms(2)]
    reads_slot [OF read_lawsD(9) [OF assms(1)] assms(2)]
    reads_slot [OF read_lawsD(10) [OF assms(1)] assms(2)]
    reads_slot [OF read_lawsD(11) [OF assms(1)] assms(2)]
    reads_slot [OF read_lawsD(13) [OF assms(1)] assms(2)])+

fun outcome_option :: "('a \<Rightarrow> 'b outcome) \<Rightarrow> 'a option \<Rightarrow> 'b option outcome" where
  "outcome_option f None = Return None"
| "outcome_option f (Some x) = outcome_map Some (f x)"

lemma outcome_option_total:
  "(\<And>x. v = Some x \<Longrightarrow> \<exists>y. f x = Return y) \<Longrightarrow> \<exists>y. outcome_option f v = Return y"
  by (cases v) auto

text \<open>Reading the tables of a vector, or the one behind an optional slot, given how one is read.\<close>

lemma read_each:
  assumes "list_all2 (R F) offs xs" "\<And>off x. R F off x \<Longrightarrow> rd off = Return x"
  shows "outcome_list rd offs = Return xs"
  using assms(1) by (rule outcome_list_all2 [OF list_all2_mono]) (rule assms(2))

lemma read_tables:
  assumes "read_laws fb fobjs" "fobjs f off = Some (Table t)" "\<And>r y. R (fobjs f) r y \<Longrightarrow> rd r = Return y"
  shows "holds_slot (denotes_each R) (fobjs f) t s xs \<Longrightarrow>
      outcome_bind (unwrap (fb_get_tables fb f off s)) (\<lambda>offs. outcome_bind (outcome_list rd offs) k) = k xs"
    and "holds_option (denotes_each R) (fobjs f) t s ys \<Longrightarrow>
      outcome_option (outcome_list rd) (fb_get_tables fb f off s) = Return ys"
    and "holds_option (denotes_table R) (fobjs f) t s y \<Longrightarrow>
      outcome_option rd (fb_get_table fb f off s) = Return y"
proof -
  note rl = read_lawsD [OF assms(1)]
  have each: "\<exists>offs. fb_get_tables fb f off s = Some offs \<and> outcome_list rd offs = Return xs"
    if "holds_slot (denotes_each R) (fobjs f) t s xs" for xs
  proof -
    from holds_each [OF rl(12) assms(2) that] obtain offs
      where "fb_get_tables fb f off s = Some offs" and rs: "list_all2 (R (fobjs f)) offs xs"
      by (elim exE conjE)
    moreover have "outcome_list rd offs = Return xs"
      by (rule read_each [where R = R and F = "fobjs f", OF rs assms(3)])
    ultimately show ?thesis by simp
  qed
  show "outcome_bind (unwrap (fb_get_tables fb f off s)) (\<lambda>offs. outcome_bind (outcome_list rd offs) k) = k xs"
    if "holds_slot (denotes_each R) (fobjs f) t s xs"
    using each [OF that] by (elim exE conjE) simp
  show "outcome_option (outcome_list rd) (fb_get_tables fb f off s) = Return ys"
    if "holds_option (denotes_each R) (fobjs f) t s ys"
  proof (cases ys)
    case None
    with that rl(12) assms(2) show ?thesis by (auto simp: holds_option_def slot_reads_def)
  next
    case (Some xs)
    with that each [of xs] show ?thesis by (auto simp: holds_option_def)
  qed
  show "outcome_option rd (fb_get_table fb f off s) = Return y"
    if "holds_option (denotes_table R) (fobjs f) t s y"
    using holds_option_table [OF rl(5) assms(2) that] assms(3) by (cases y) auto
qed

end
