(* ===== verification/Gen_Structs.thy ===== *)
theory Gen_Structs
  imports Flat_Tables Assignment_FB
begin

text \<open>
  The enum and the structs at the head of \<^verbatim>\<open>assignment_generated.rs\<close>. A struct is a byte array of
  fixed length that is copied into the buffer as it is; its fields are little-endian integers or
  arrays at fixed positions. The main result is that a \<^verbatim>\<open>TopRun\<close> gives back the two integers it was
  made of, so that a column of runs survives its encoding.
\<close>

section \<open>WorkerStatus\<close>

definition ENUM_VALUES :: "u8 list" where
  "ENUM_VALUES = [0, 1, 2, 3]"

definition variant_name :: "u8 \<Rightarrow> string option" where
  "variant_name s =
    (if s = 0 then Some ''Ok''
     else if s = 1 then Some ''Unreliable''
     else if s = 2 then Some ''DeprecatedVersion''
     else if s = 3 then Some ''UnsupportedVersion''
     else None)"

lemma variant_name_known: "variant_name s \<noteq> None \<longleftrightarrow> s \<in> set ENUM_VALUES"
  by (auto simp: variant_name_def ENUM_VALUES_def)

lemma variant_name_inj:
  "variant_name s = Some n \<Longrightarrow> variant_name s' = Some n \<Longrightarrow> s = s'"
  by (auto simp: variant_name_def split: if_splits)

text \<open>Every status the builders write is a named one; the reader folds the rest into the last.\<close>

lemma status_to_fb_named: "variant_name (status_to_fb s) \<noteq> None"
  by (cases s) (simp_all add: variant_name_def)

lemma status_from_fb_unknown: "variant_name s = None \<Longrightarrow> status_from_fb s = UnsupportedVersion"
  by (simp add: variant_name_def status_from_fb_def split: if_splits)

section \<open>Byte arrays\<close>

text \<open>Copying \<open>src\<close> over the bytes of \<open>mem\<close> from position \<open>i\<close>.\<close>

definition copy_into :: "nat \<Rightarrow> u8 list \<Rightarrow> u8 list \<Rightarrow> u8 list" where
  "copy_into i src mem = take i mem @ src @ drop (i + length src) mem"

lemma length_copy_into [simp]:
  "i + length src \<le> length mem \<Longrightarrow> length (copy_into i src mem) = length mem"
  by (simp add: copy_into_def)

lemma copy_into_same [simp]:
  "i + length src \<le> length mem \<Longrightarrow> take (length src) (drop i (copy_into i src mem)) = src"
  by (simp add: copy_into_def)

lemma copy_into_before:
  "j + n \<le> i \<Longrightarrow> i \<le> length mem \<Longrightarrow> take n (drop j (copy_into i src mem)) = take n (drop j mem)"
  by (simp add: take_drop copy_into_def min.absorb1)

lemma from_u32_le_bytes [simp]: "of_nat (from_le_bytes (u32_le_bytes x)) = x"
  using unsigned_less [where 'a = nat, of x] by (simp add: u32_le_bytes_def from_le_bytes)

lemma from_u64_le_bytes [simp]: "of_nat (from_le_bytes (u64_le_bytes x)) = x"
  using unsigned_less [where 'a = nat, of x] by (simp add: u64_le_bytes_def from_le_bytes)

section \<open>ChunkHash and WorkerId\<close>

definition chunk_hash_new :: "u8 list \<Rightarrow> u8 list" where
  "chunk_hash_new bytes = copy_into 0 bytes (replicate 8 0)"

definition chunk_hash_bytes :: "u8 list \<Rightarrow> u8 list" where
  "chunk_hash_bytes s = take 8 s"

definition worker_id_new :: "u8 list \<Rightarrow> u8 list" where
  "worker_id_new peer_id = copy_into 0 peer_id (replicate WORKER_ID_LEN 0)"

definition worker_id_peer_id :: "u8 list \<Rightarrow> u8 list" where
  "worker_id_peer_id s = take WORKER_ID_LEN s"

lemma chunk_hash_new_bytes [simp]:
  "length bytes = 8 \<Longrightarrow> chunk_hash_bytes (chunk_hash_new bytes) = bytes"
  by (simp add: chunk_hash_bytes_def chunk_hash_new_def copy_into_def)

lemma worker_id_new_peer_id [simp]:
  "length bytes = WORKER_ID_LEN \<Longrightarrow> worker_id_peer_id (worker_id_new bytes) = bytes"
  by (simp add: worker_id_peer_id_def worker_id_new_def copy_into_def)

section \<open>TopRun\<close>

text \<open>Four bytes of \<^verbatim>\<open>first_chunk_index\<close>, four of padding that stay zero, eight of \<^verbatim>\<open>top\<close>.\<close>

definition set_first_chunk_index :: "u32 \<Rightarrow> u8 list \<Rightarrow> u8 list" where
  "set_first_chunk_index x s = copy_into 0 (u32_le_bytes x) s"

definition set_top :: "u64 \<Rightarrow> u8 list \<Rightarrow> u8 list" where
  "set_top x s = copy_into 8 (u64_le_bytes x) s"

definition top_run_new :: "u32 \<Rightarrow> u64 \<Rightarrow> u8 list" where
  "top_run_new i x = set_top x (set_first_chunk_index i (replicate 16 0))"

definition first_chunk_index :: "u8 list \<Rightarrow> u32" where
  "first_chunk_index s = of_nat (from_le_bytes (take 4 (drop 0 s)))"

definition run_top :: "u8 list \<Rightarrow> u64" where
  "run_top s = of_nat (from_le_bytes (take 8 (drop 8 s)))"

text \<open>The run of the columns as a struct, and the struct read back.\<close>

definition top_run_struct :: "top_run \<Rightarrow> u8 list" where
  "top_run_struct r = top_run_new (tr_first_chunk_index r) (tr_top r)"

definition top_run_of_struct :: "u8 list \<Rightarrow> top_run" where
  "top_run_of_struct s = \<lparr>tr_first_chunk_index = first_chunk_index s, tr_top = run_top s\<rparr>"

lemma length_top_run_new [simp]: "length (top_run_new i x) = 16"
  by (simp add: top_run_new_def set_top_def set_first_chunk_index_def)

lemma run_top_new [simp]: "run_top (top_run_new i x) = x"
proof -
  have "take (length (u64_le_bytes x)) (drop 8 (top_run_new i x)) = u64_le_bytes x"
    unfolding top_run_new_def set_top_def
    by (rule copy_into_same) (simp add: set_first_chunk_index_def)
  then show ?thesis by (simp add: run_top_def)
qed

lemma first_chunk_index_new [simp]: "first_chunk_index (top_run_new i x) = i"
proof -
  have "take 4 (drop 0 (top_run_new i x)) = take 4 (drop 0 (set_first_chunk_index i (replicate 16 0)))"
    unfolding top_run_new_def set_top_def
    by (rule copy_into_before) (simp_all add: set_first_chunk_index_def)
  also have "\<dots> = u32_le_bytes i"
    unfolding set_first_chunk_index_def
    using copy_into_same [of 0 "u32_le_bytes i" "replicate 16 0"] by simp
  finally show ?thesis by (simp add: first_chunk_index_def)
qed

lemma top_run_struct_roundtrip [simp]: "top_run_of_struct (top_run_struct r) = r"
  by (cases r) (simp add: top_run_of_struct_def top_run_struct_def)

lemma top_runs_roundtrip [simp]: "map (top_run_of_struct \<circ> top_run_struct) rs = rs"
  by (simp add: comp_def)

end
