(* ===== verification/Flat_Verify.thy ===== *)
theory Flat_Verify
  imports Flat_Tables
begin

text \<open>
  The verifier of the FlatBuffers runtime, as the generated \<^verbatim>\<open>run_verifier\<close> functions call it. Its
  operations are a parameter, like those of \<^theory_text>\<open>Flat_Tables\<close>; the verifier's own state \<open>'v\<close> holds the
  buffer with the depth and size counters. A check \<^verbatim>\<open>T::run_verifier\<close> takes a position and the state;
  the checks of \<^verbatim>\<open>ForwardsUOffset\<close> and \<^verbatim>\<open>Vector\<close> take the one of what they lead to.

  \<open>verify_laws\<close> states what a successful check means: a required slot is there, and whatever the slot
  leads to was checked. That the accessors of a verified table do not panic is proved from it for every
  generated table.
\<close>

type_synonym ('o, 'v, 'e) check = "'o \<Rightarrow> 'v \<Rightarrow> ('e, 'v) result"

record ('v, 'o, 'e, 'opts, 'f) flat_verifier =
  fv_visit_table :: "('o, 'v, 'e) check"
  fv_visit_field :: "('o, 'v, 'e) check \<Rightarrow> string \<Rightarrow> nat \<Rightarrow> bool \<Rightarrow> ('o, 'v, 'e) check"
  fv_end :: "'v \<Rightarrow> 'v"
  fv_in_buffer :: "nat \<Rightarrow> ('o, 'v, 'e) check"
  fv_slice :: "nat \<Rightarrow> ('o, 'v, 'e) check"
  fv_str :: "('o, 'v, 'e) check"
  fv_forward :: "('o, 'v, 'e) check \<Rightarrow> ('o, 'v, 'e) check"
  fv_vector :: "('o, 'v, 'e) check \<Rightarrow> ('o, 'v, 'e) check"
  fv_root_with_opts :: "('o, 'v, 'e) check \<Rightarrow> 'opts \<Rightarrow> 'f \<Rightarrow> ('e, 'o) result"

text \<open>The options that the readers of this repository set, and the rest.\<close>

record 'r verifier_options =
  vo_max_tables :: nat
  vo_max_apparent_size :: nat
  vo_rest :: 'r

section \<open>The shape of a generated verifier\<close>

fun visit_fields ::
  "('v, 'o, 'e, 'opts, 'f) flat_verifier \<Rightarrow> (('o, 'v, 'e) check \<times> string \<times> nat \<times> bool) list \<Rightarrow>
    ('o, 'v, 'e) check"
where
  "visit_fields fv [] off v = Ok v"
| "visit_fields fv ((chk, name, s, req) # rest) off v =
    (case fv_visit_field fv chk name s req off v of
       Err e \<Rightarrow> Err e
     | Ok v' \<Rightarrow> visit_fields fv rest off v')"

definition verify_table ::
  "('v, 'o, 'e, 'opts, 'f) flat_verifier \<Rightarrow> (('o, 'v, 'e) check \<times> string \<times> nat \<times> bool) list \<Rightarrow>
    ('o, 'v, 'e) check"
where
  "verify_table fv flds off v =
    (case fv_visit_table fv off v of
       Err e \<Rightarrow> Err e
     | Ok v' \<Rightarrow> result_map (fv_end fv) (visit_fields fv flds off v'))"

section \<open>What is relied on\<close>

text \<open>
  The ghosts: the buffer of a verifier state, the position of a table's slot, what an offset at a
  position leads to, and the positions of a vector's elements.
\<close>

record ('v, 'o, 'f) layout =
  ly_buf :: "'v \<Rightarrow> 'f"
  ly_field :: "'f \<Rightarrow> 'o \<Rightarrow> nat \<Rightarrow> 'o option"
  ly_target :: "'f \<Rightarrow> 'o \<Rightarrow> 'o"
  ly_elems :: "'f \<Rightarrow> 'o \<Rightarrow> 'o list"

definition keeps :: "('v, 'o, 'f) layout \<Rightarrow> ('o, 'v, 'e) check \<Rightarrow> bool" where
  "keeps ly chk = (\<forall>off v v'. chk off v = Ok v' \<longrightarrow> ly_buf ly v' = ly_buf ly v)"

definition verified :: "('v, 'o, 'f) layout \<Rightarrow> ('o, 'v, 'e) check \<Rightarrow> 'f \<Rightarrow> 'o \<Rightarrow> bool" where
  "verified ly chk f off = (\<exists>v v'. ly_buf ly v = f \<and> chk off v = Ok v')"

definition keep_laws :: "('v, 'o, 'e, 'opts, 'f) flat_verifier \<Rightarrow> ('v, 'o, 'f) layout \<Rightarrow> bool" where
  "keep_laws fv ly =
    (keeps ly (fv_visit_table fv) \<and> keeps ly (fv_str fv) \<and>
     (\<forall>n. keeps ly (fv_in_buffer fv n)) \<and> (\<forall>n. keeps ly (fv_slice fv n)) \<and>
     (\<forall>v. ly_buf ly (fv_end fv v) = ly_buf ly v) \<and>
     (\<forall>chk. keeps ly chk \<longrightarrow> keeps ly (fv_forward fv chk)) \<and>
     (\<forall>chk. keeps ly chk \<longrightarrow> keeps ly (fv_vector fv chk)) \<and>
     (\<forall>chk name s req. keeps ly chk \<longrightarrow> keeps ly (fv_visit_field fv chk name s req)))"

definition visit_laws :: "('v, 'o, 'e, 'opts, 'f) flat_verifier \<Rightarrow> ('v, 'o, 'f) layout \<Rightarrow> bool" where
  "visit_laws fv ly =
    ((\<forall>chk name s req f off. keeps ly chk \<and> verified ly (fv_visit_field fv chk name s req) f off \<longrightarrow>
        (case ly_field ly f off s of None \<Rightarrow> \<not> req | Some p \<Rightarrow> verified ly chk f p)) \<and>
     (\<forall>chk f p. keeps ly chk \<and> verified ly (fv_forward fv chk) f p \<longrightarrow>
        verified ly chk f (ly_target ly f p)) \<and>
     (\<forall>chk f p. keeps ly chk \<and> verified ly (fv_vector fv chk) f p \<longrightarrow>
        (\<forall>e \<in> set (ly_elems ly f p). verified ly chk f e)) \<and>
     (\<forall>chk opts f off. keeps ly chk \<and> fv_root_with_opts fv chk opts f = Ok off \<longrightarrow>
        verified ly chk f off))"

definition finds :: "('v, 'o, 'f) layout \<Rightarrow> ('f \<Rightarrow> 'o \<Rightarrow> nat \<Rightarrow> 'x option) \<Rightarrow> bool" where
  "finds ly g = (\<forall>f off s. g f off s = None \<longleftrightarrow> ly_field ly f off s = None)"

definition find_laws :: "('b, 'o, 'f) flatbuffers \<Rightarrow> ('v, 'o, 'f) layout \<Rightarrow> bool" where
  "find_laws fb ly =
    (finds ly (fb_get_struct fb) \<and> finds ly (fb_get_str fb) \<and> finds ly (fb_get_u8s fb) \<and>
     finds ly (fb_get_u16s fb) \<and> finds ly (fb_get_u32s fb) \<and> finds ly (fb_get_u64s fb) \<and>
     finds ly (fb_get_structs fb) \<and> finds ly (fb_get_strs fb) \<and>
     (\<forall>f off s. fb_get_table fb f off s = map_option (ly_target ly f) (ly_field ly f off s)) \<and>
     (\<forall>f off s. fb_get_tables fb f off s =
        map_option (\<lambda>p. map (ly_target ly f) (ly_elems ly f (ly_target ly f p))) (ly_field ly f off s)))"

text \<open>The root that is handed out after verification is the one the unverified access gives.\<close>

definition root_law ::
  "('b, 'o, 'f) flatbuffers \<Rightarrow> ('v, 'o, 'e, 'opts, 'f) flat_verifier \<Rightarrow> bool" where
  "root_law fb fv =
    (\<forall>chk opts f off. fv_root_with_opts fv chk opts f = Ok off \<longrightarrow> off = fb_root_unchecked fb f)"

definition verify_laws ::
  "('b, 'o, 'f) flatbuffers \<Rightarrow> ('v, 'o, 'e, 'opts, 'f) flat_verifier \<Rightarrow> ('v, 'o, 'f) layout \<Rightarrow> bool"
where
  "verify_laws fb fv ly = (keep_laws fv ly \<and> visit_laws fv ly \<and> find_laws fb ly \<and> root_law fb fv)"

section \<open>What a verified table has\<close>

lemma verify_lawsD:
  "verify_laws fb fv ly \<Longrightarrow> keep_laws fv ly"
  "verify_laws fb fv ly \<Longrightarrow> visit_laws fv ly"
  "verify_laws fb fv ly \<Longrightarrow> find_laws fb ly"
  "verify_laws fb fv ly \<Longrightarrow> root_law fb fv"
  by (simp_all add: verify_laws_def)

lemma keep_rules:
  assumes "keep_laws fv ly"
  shows "keeps ly (fv_str fv)" "keeps ly (fv_in_buffer fv n)" "keeps ly (fv_slice fv n)"
    and "keeps ly chk \<Longrightarrow> keeps ly (fv_forward fv chk)"
    and "keeps ly chk \<Longrightarrow> keeps ly (fv_vector fv chk)"
    and "keeps ly chk \<Longrightarrow> keeps ly (fv_visit_field fv chk name s req)"
    and "keeps ly (fv_visit_table fv)" "ly_buf ly (fv_end fv v) = ly_buf ly v"
  using assms by (simp_all add: keep_laws_def)

lemma result_map_Ok_iff [simp]: "result_map g r = Ok y \<longleftrightarrow> (\<exists>x. r = Ok x \<and> y = g x)"
  by (cases r) auto

lemma visit_lawsD:
  assumes "visit_laws fv ly" "keeps ly chk"
  shows "verified ly (fv_visit_field fv chk name s req) f off \<Longrightarrow>
      case ly_field ly f off s of None \<Rightarrow> \<not> req | Some p \<Rightarrow> verified ly chk f p"
    and "verified ly (fv_forward fv chk) f p \<Longrightarrow> verified ly chk f (ly_target ly f p)"
    and "verified ly (fv_vector fv chk) f p \<Longrightarrow> e \<in> set (ly_elems ly f p) \<Longrightarrow> verified ly chk f e"
    and "fv_root_with_opts fv chk opts f = Ok off \<Longrightarrow> verified ly chk f off"
  using assms by (simp_all add: visit_laws_def)

lemma find_lawsD:
  assumes "find_laws fb ly"
  shows "finds ly (fb_get_struct fb)" "finds ly (fb_get_str fb)" "finds ly (fb_get_u8s fb)"
    and "finds ly (fb_get_u16s fb)" "finds ly (fb_get_u32s fb)" "finds ly (fb_get_u64s fb)"
    and "finds ly (fb_get_structs fb)" "finds ly (fb_get_strs fb)"
  using assms by (simp_all add: find_laws_def)

lemma keepsD: "keeps ly chk \<Longrightarrow> chk off v = Ok v' \<Longrightarrow> ly_buf ly v' = ly_buf ly v"
  unfolding keeps_def by blast

lemma visit_fields_verified:
  assumes "keep_laws fv ly" "list_all (\<lambda>fld. keeps ly (fst fld)) flds"
    and "visit_fields fv flds off v = Ok v'"
  shows "ly_buf ly v' = ly_buf ly v \<and>
    list_all (\<lambda>(chk, name, s, req). verified ly (fv_visit_field fv chk name s req) (ly_buf ly v) off) flds"
  using assms(2,3)
proof (induction flds arbitrary: v)
  case (Cons fld rest)
  obtain chk name s req where fld: "fld = (chk, name, s, req)" by (cases fld) auto
  with Cons.prems obtain w where w: "fv_visit_field fv chk name s req off v = Ok w"
    and rest: "visit_fields fv rest off w = Ok v'"
    by (auto split: result.splits)
  have "ly_buf ly w = ly_buf ly v"
    using keepsD [OF keep_rules(6) [OF assms(1)] w] Cons.prems(1) fld by simp
  moreover have "verified ly (fv_visit_field fv chk name s req) (ly_buf ly v) off"
    using w by (auto simp: verified_def)
  ultimately show ?case
    using Cons.IH [OF _ rest] Cons.prems(1) fld by simp
qed simp

lemma verify_table_Ok_iff:
  "verify_table fv flds off v = Ok v' \<longleftrightarrow>
    (\<exists>w u. fv_visit_table fv off v = Ok w \<and> visit_fields fv flds off w = Ok u \<and> v' = fv_end fv u)"
  by (cases "fv_visit_table fv off v") (auto simp: verify_table_def)

lemma keeps_verify_table:
  assumes "keep_laws fv ly" "list_all (\<lambda>fld. keeps ly (fst fld)) flds"
  shows "keeps ly (verify_table fv flds)"
  unfolding keeps_def
proof (intro allI impI)
  fix off v v' assume "verify_table fv flds off v = Ok v'"
  then obtain w u where w: "fv_visit_table fv off v = Ok w" and u: "visit_fields fv flds off w = Ok u"
    and v': "v' = fv_end fv u"
    unfolding verify_table_Ok_iff by blast
  show "ly_buf ly v' = ly_buf ly v"
    using keepsD [OF keep_rules(7) [OF assms(1)] w] visit_fields_verified [OF assms u] v'
    by (simp add: keep_rules(8) [OF assms(1)])
qed

text \<open>What the check of one field shows of a slot.\<close>

definition field_ok ::
  "('v, 'o, 'f) layout \<Rightarrow> 'f \<Rightarrow> 'o \<Rightarrow> ('o, 'v, 'e) check \<Rightarrow> nat \<Rightarrow> bool \<Rightarrow> bool"
where
  "field_ok ly f off chk s req =
    (case ly_field ly f off s of None \<Rightarrow> \<not> req | Some p \<Rightarrow> verified ly chk f p)"

lemma verified_fields:
  assumes "verify_laws fb fv ly" "list_all (\<lambda>fld. keeps ly (fst fld)) flds"
    and "verified ly (verify_table fv flds) f off"
  shows "list_all (\<lambda>(chk, name, s, req). field_ok ly f off chk s req) flds"
proof -
  note kl = verify_lawsD(1) [OF assms(1)]
  from assms(3) obtain v w u where v: "ly_buf ly v = f" and w: "fv_visit_table fv off v = Ok w"
    and u: "visit_fields fv flds off w = Ok u"
    unfolding verified_def verify_table_Ok_iff by blast
  have "ly_buf ly w = f"
    using keepsD [OF keep_rules(7) [OF kl] w] v by simp
  with visit_fields_verified [OF kl assms(2) u]
  have "list_all (\<lambda>(chk, name, s, req). verified ly (fv_visit_field fv chk name s req) f off) flds"
    by simp
  then show ?thesis
    using assms(2) visit_lawsD(1) [OF verify_lawsD(2) [OF assms(1)]]
    by (fastforce simp: list_all_iff field_ok_def)
qed

lemma required_found:
  assumes "finds ly g" "field_ok ly f off chk s True"
  shows "\<exists>x. unwrap (g f off s) = Return x"
proof -
  have "g f off s = None \<longleftrightarrow> ly_field ly f off s = None"
    using assms(1) by (simp add: finds_def)
  with assms(2) show ?thesis
    by (cases "ly_field ly f off s"; cases "g f off s") (auto simp: field_ok_def)
qed

lemma tables_verified:
  assumes "verify_laws fb fv ly" "keeps ly chk" "fb_get_tables fb f off s = Some offs"
    and "field_ok ly f off (fv_forward fv (fv_vector fv (fv_forward fv chk))) s req" "r \<in> set offs"
  shows "verified ly chk f r"
proof -
  note vl = verify_lawsD(2) [OF assms(1)] and kr = keep_rules [OF verify_lawsD(1) [OF assms(1)]]
  have "fb_get_tables fb f off s =
      map_option (\<lambda>p. map (ly_target ly f) (ly_elems ly f (ly_target ly f p))) (ly_field ly f off s)"
    using assms(1) by (simp add: verify_laws_def find_laws_def)
  with assms(3,5) obtain p e where p: "ly_field ly f off s = Some p"
    and e: "e \<in> set (ly_elems ly f (ly_target ly f p))" and r: "r = ly_target ly f e"
    by (cases "ly_field ly f off s") auto
  have vec: "verified ly (fv_vector fv (fv_forward fv chk)) f (ly_target ly f p)"
    by (rule visit_lawsD(2) [OF vl]) (use assms(2,4) p kr in \<open>simp_all add: field_ok_def\<close>)
  have "verified ly (fv_forward fv chk) f e"
    by (rule visit_lawsD(3) [OF vl _ vec e]) (use assms(2) kr in simp)
  then show "verified ly chk f r"
    unfolding r by (rule visit_lawsD(2) [OF vl assms(2)])
qed

lemma table_verified:
  assumes "verify_laws fb fv ly" "keeps ly chk" "fb_get_table fb f off s = Some r"
    and "field_ok ly f off (fv_forward fv chk) s req"
  shows "verified ly chk f r"
proof -
  from assms(1,3) obtain p where p: "ly_field ly f off s = Some p" and r: "r = ly_target ly f p"
    by (auto simp: verify_laws_def find_laws_def)
  have "verified ly chk f (ly_target ly f p)"
    by (rule visit_lawsD(2) [OF verify_lawsD(2) [OF assms(1)] assms(2)])
      (use assms(4) p in \<open>simp add: field_ok_def\<close>)
  with r show ?thesis by simp
qed

section \<open>Reading a verified table\<close>

text \<open>The accessors in turn: each returns, the nested ones because the tables they lead to are verified.\<close>

lemma bind_total:
  "\<exists>a. x = Return a \<Longrightarrow> (\<And>a. x = Return a \<Longrightarrow> \<exists>c. k a = Return c) \<Longrightarrow> \<exists>c. outcome_bind x k = Return c"
  by auto

lemma found:
  assumes "verify_laws fb fv ly"
  shows "\<exists>x. unwrap (or_default d y) = Return x"
    and "field_ok ly f off chk s True \<Longrightarrow> \<exists>x. unwrap (fb_get_struct fb f off s) = Return x"
    and "field_ok ly f off chk s True \<Longrightarrow> \<exists>x. unwrap (fb_get_str fb f off s) = Return x"
    and "field_ok ly f off chk s True \<Longrightarrow> \<exists>x. unwrap (fb_get_u8s fb f off s) = Return x"
    and "field_ok ly f off chk s True \<Longrightarrow> \<exists>x. unwrap (fb_get_u16s fb f off s) = Return x"
    and "field_ok ly f off chk s True \<Longrightarrow> \<exists>x. unwrap (fb_get_u32s fb f off s) = Return x"
    and "field_ok ly f off chk s True \<Longrightarrow> \<exists>x. unwrap (fb_get_u64s fb f off s) = Return x"
    and "field_ok ly f off chk s True \<Longrightarrow> \<exists>x. unwrap (fb_get_structs fb f off s) = Return x"
    and "field_ok ly f off chk s True \<Longrightarrow> \<exists>x. unwrap (fb_get_strs fb f off s) = Return x"
    and "field_ok ly f off chk s True \<Longrightarrow> \<exists>x. unwrap (fb_get_tables fb f off s) = Return x"
proof -
  have "finds ly (fb_get_tables fb)"
    using assms by (simp add: finds_def verify_laws_def find_laws_def)
  then show "field_ok ly f off chk s True \<Longrightarrow> \<exists>x. unwrap (fb_get_tables fb f off s) = Return x"
    by (rule required_found)
  show "\<exists>x. unwrap (or_default d y) = Return x" by simp
qed (rule required_found, rule find_lawsD [OF verify_lawsD(3) [OF assms]], assumption)+

lemma found_nested:
  assumes "verify_laws fb fv ly" "keeps ly chk" "\<And>r. verified ly chk f r \<Longrightarrow> \<exists>y. rd r = Return y"
  shows "field_ok ly f off (fv_forward fv (fv_vector fv (fv_forward fv chk))) s req \<Longrightarrow>
      unwrap (fb_get_tables fb f off s) = Return offs \<Longrightarrow> \<exists>ys. outcome_list rd offs = Return ys"
    and "field_ok ly f off (fv_forward fv (fv_vector fv (fv_forward fv chk))) s req \<Longrightarrow>
      \<exists>ys. outcome_option (outcome_list rd) (fb_get_tables fb f off s) = Return ys"
    and "field_ok ly f off (fv_forward fv chk) s req \<Longrightarrow>
      \<exists>y. outcome_option rd (fb_get_table fb f off s) = Return y"
proof -
  have each: "\<exists>ys. outcome_list rd offs = Return ys"
    if "field_ok ly f off (fv_forward fv (fv_vector fv (fv_forward fv chk))) s req"
      and "fb_get_tables fb f off s = Some offs" for offs
    using outcome_list_total tables_verified [OF assms(1,2) that(2,1)] assms(3) by metis
  then show "field_ok ly f off (fv_forward fv (fv_vector fv (fv_forward fv chk))) s req \<Longrightarrow>
      unwrap (fb_get_tables fb f off s) = Return offs \<Longrightarrow> \<exists>ys. outcome_list rd offs = Return ys"
    by simp
  show "\<exists>ys. outcome_option (outcome_list rd) (fb_get_tables fb f off s) = Return ys"
    if "field_ok ly f off (fv_forward fv (fv_vector fv (fv_forward fv chk))) s req"
    by (rule outcome_option_total) (rule each [OF that])
  show "\<exists>y. outcome_option rd (fb_get_table fb f off s) = Return y"
    if "field_ok ly f off (fv_forward fv chk) s req"
    by (rule outcome_option_total) (rule assms(3) [OF table_verified [OF assms(1,2) _ that]])
qed

end
