(* ===== verification/Gen_Assignment.thy ===== *)
theory Gen_Assignment
  imports Gen_Structs Flat_Verify
begin

text \<open>
  The tables of \<^verbatim>\<open>assignment_generated.rs\<close>, leaves first. For each table:
      its \<^verbatim>\<open>Args\<close> with their
  defaults, its \<^verbatim>\<open>Builder\<close> (the fields of \<^verbatim>\<open>add_*\<close>
      as a datatype), \<^verbatim>\<open>create\<close>, the accessors, and
  \<^verbatim>\<open>run_verifier\<close>. The accessors are given together, as the function that
      calls all of them and collects
  their values in the record of \<^theory_text>\<open>Assignment_FB\<close>; it panics when one of
      them does.

  Three lemmas follow for each table. \<open>_stored\<close>: when the arguments denote a record's
      fields, \<^verbatim>\<open>create\<close>
  returns and the buffer holds that record. \<open>_read_rep\<close>: where the buffer holds a
      record, the accessors
  give it back, whatever was added later. \<open>_verified_reads\<close>: no accessor of a verified
      table panics.
\<close>

section \<open>EncryptedHeaders\<close>

record 'o encrypted_headers_args =
  eha_identity :: "'o option"
  eha_nonce :: "'o option"
  eha_ciphertext :: "'o option"

definition encrypted_headers_args_default :: "'o encrypted_headers_args" where
  "encrypted_headers_args_default =
    \<lparr>eha_identity = None, eha_nonce = None, eha_ciphertext = None\<rparr>"

datatype 'o encrypted_headers_field =
    AddEncryptedHeadersIdentity 'o
  | AddEncryptedHeadersNonce 'o
  | AddEncryptedHeadersCiphertext 'o

definition encrypted_headers_writer :: "('b, 'o, 'f) flatbuffers \<Rightarrow> ('o
    encrypted_headers_field, 'b, 'o) table_builder" where
  "encrypted_headers_writer fb =
    \<lparr>tb_new = fb_start_table fb,
     tb_add = (\<lambda>a. case a of
         AddEncryptedHeadersIdentity x \<Rightarrow> fb_push_slot_always fb 4 (SlotOffset x)
       | AddEncryptedHeadersNonce x \<Rightarrow> fb_push_slot_always fb 6 (SlotOffset x)
       | AddEncryptedHeadersCiphertext x \<Rightarrow> fb_push_slot_always fb 8 (SlotOffset x)),
     tb_finish = finish_table fb
       [(4, ''identity''), (6, ''nonce''), (8, ''ciphertext'')]\<rparr>"

definition encrypted_headers_create ::
  "('b, 'o, 'f) flatbuffers \<Rightarrow> 'o encrypted_headers_args \<Rightarrow> 'b \<Rightarrow>
      ('o \<times> 'b) outcome"
where
  "encrypted_headers_create fb args b =
    (let builder = encrypted_headers_writer fb;
         b = tb_new builder b;
         b = add_some builder AddEncryptedHeadersCiphertext (eha_ciphertext args) b;
         b = add_some builder AddEncryptedHeadersNonce (eha_nonce args) b;
         b = add_some builder AddEncryptedHeadersIdentity (eha_identity args) b
     in tb_finish builder b)"

definition encrypted_headers_read :: "('b, 'o, 'f) flatbuffers \<Rightarrow> 'f \<Rightarrow> 'o
    \<Rightarrow> encrypted_headers outcome" where
  "encrypted_headers_read fb f off =
    outcome_bind (unwrap (fb_get_u8s fb f off 4)) (\<lambda>identity.
    outcome_bind (unwrap (fb_get_u8s fb f off 6)) (\<lambda>nonce.
    outcome_bind (unwrap (fb_get_u8s fb f off 8)) (\<lambda>ciphertext.
    Return \<lparr>eh_identity = identity, eh_nonce = nonce, eh_ciphertext = ciphertext\<rparr>)))"

definition encrypted_headers_verify :: "('v, 'o, 'e, 'opts, 'f) flat_verifier \<Rightarrow> ('o,
    'v, 'e) check" where
  "encrypted_headers_verify fv = verify_table fv
    [(fv_forward fv (fv_slice fv 1), ''identity'', 4, True),
     (fv_forward fv (fv_slice fv 1), ''nonce'', 6, True),
     (fv_forward fv (fv_slice fv 1), ''ciphertext'', 8, True)]"

text \<open>The slots that hold the record, and those that \<^verbatim>\<open>create\<close> fills
    from its arguments.\<close>

definition encrypted_headers_fields :: "('o \<rightharpoonup> 'o stored) \<Rightarrow> 'o slots
    \<Rightarrow> encrypted_headers \<Rightarrow> bool" where
  "encrypted_headers_fields F t c =
    (holds_slot (denotes_vec VecU8) F t 4 (eh_identity c) \<and>
     holds_slot (denotes_vec VecU8) F t 6 (eh_nonce c) \<and>
     holds_slot (denotes_vec VecU8) F t 8 (eh_ciphertext c))"

definition encrypted_headers_slots :: "'o encrypted_headers_args \<Rightarrow> 'o slots" where
  "encrypted_headers_slots args = Map.empty(
     8 := map_option SlotOffset (eha_ciphertext args),
     6 := map_option SlotOffset (eha_nonce args),
     4 := map_option SlotOffset (eha_identity args))"

lemma encrypted_headers_writer_simps:
  "tb_new (encrypted_headers_writer fb) = fb_start_table fb"
  "tb_add (encrypted_headers_writer fb) (AddEncryptedHeadersIdentity x1) = fb_push_slot_always fb 4
      (SlotOffset x1)"
  "tb_add (encrypted_headers_writer fb) (AddEncryptedHeadersNonce x2) = fb_push_slot_always fb 6
      (SlotOffset x2)"
  "tb_add (encrypted_headers_writer fb) (AddEncryptedHeadersCiphertext x3) = fb_push_slot_always fb
      8 (SlotOffset x3)"
  by (simp_all add: encrypted_headers_writer_def)

lemma encrypted_headers_creates:
  assumes "write_laws fb opn objs" "opn b = None"
  shows "creates opn objs [4, 6, 8] (encrypted_headers_slots args) b (encrypted_headers_create fb
      args b)"
proof -
  let ?req = "[(4, ''identity''), (6, ''nonce''), (8, ''ciphertext'')]"
  have fin: "tb_finish (encrypted_headers_writer fb) = finish_table fb ?req"
    by (simp add: encrypted_headers_writer_def)
  have "creates opn objs (map fst ?req) (encrypted_headers_slots args) b (encrypted_headers_create
      fb args b)"
    unfolding encrypted_headers_create_def Let_def fin encrypted_headers_slots_def
    by (rule creates_finish [OF assms(1)], (rule table_rules [OF assms(1)])+)
      (simp_all add: building_start [OF assms] encrypted_headers_writer_simps)
  then show ?thesis by simp
qed

lemma encrypted_headers_stays [simp]: "stays encrypted_headers_fields"
  unfolding stays_def encrypted_headers_fields_def
  by (intro allI impI, elim conjE, intro conjI)
    (assumption | (erule (1) holds_slot_stays holds_option_stays, simp))+

lemma encrypted_headers_stored:
  assumes "write_laws fb opn objs" "opn b = None" "encrypted_headers_fields (objs b)
      (encrypted_headers_slots args) c"
  shows "stores opn objs (rep encrypted_headers_fields) c b (encrypted_headers_create fb args b)"
  by (rule creates_rep [OF encrypted_headers_creates [OF assms(1,2)] encrypted_headers_stays
      assms(3)])
    (use assms(3) in \<open>auto simp: encrypted_headers_fields_def holds_slot_def\<close>)

lemma encrypted_headers_read_rep:
  assumes "read_laws fb fobjs" "rep encrypted_headers_fields (fobjs f) off c"
  shows "encrypted_headers_read fb f off = Return c"
proof -
  from assms(2) obtain t where t: "fobjs f off = Some (Table t)" and h: "encrypted_headers_fields
      (fobjs f) t c"
    by (auto simp: rep_def)
  from h have get: "fb_get_u8s fb f off 4 = Some (eh_identity c) \<and>
      fb_get_u8s fb f off 6 = Some (eh_nonce c) \<and>
      fb_get_u8s fb f off 8 = Some (eh_ciphertext c)"
    unfolding encrypted_headers_fields_def by (elim conjE, intro conjI) (rule getters [OF assms(1)
        t], assumption)+
  show ?thesis using get
    by (simp add: encrypted_headers_read_def )
qed

lemma keeps_encrypted_headers_verify [simp]: "keep_laws fv ly \<Longrightarrow> keeps ly
    (encrypted_headers_verify fv)"
  unfolding encrypted_headers_verify_def by (rule keeps_verify_table) (simp_all add: keep_rules)

lemma encrypted_headers_verified_reads:
  assumes "verify_laws fb fv ly" "verified ly (encrypted_headers_verify fv) f off"
  shows "\<exists>c. encrypted_headers_read fb f off = Return c"
proof -
  note kl = verify_lawsD(1) [OF assms(1)]
  have ok: "field_ok ly f off (fv_forward fv (fv_slice fv 1)) 4 True"
    "field_ok ly f off (fv_forward fv (fv_slice fv 1)) 6 True"
    "field_ok ly f off (fv_forward fv (fv_slice fv 1)) 8 True"
    using verified_fields [OF assms(1) _ assms(2) [unfolded encrypted_headers_verify_def]]
    by (simp_all add: keep_rules [OF kl] kl)
  show ?thesis unfolding encrypted_headers_read_def
    by (rule bind_total found [OF assms(1)] ok | assumption | (rule exI, rule refl))+
qed

section \<open>WorkerEntry\<close>

record 'o worker_entry_args =
  wea_worker_id :: "u8 list option"
  wea_status :: u8
  wea_encrypted_headers :: "'o option"

definition worker_entry_args_default :: "'o worker_entry_args" where
  "worker_entry_args_default =
    \<lparr>wea_worker_id = None, wea_status = 0, wea_encrypted_headers = None\<rparr>"

datatype 'o worker_entry_field =
    AddWorkerEntryWorkerId "u8 list"
  | AddWorkerEntryStatus u8
  | AddWorkerEntryEncryptedHeaders 'o

definition worker_entry_writer :: "('b, 'o, 'f) flatbuffers \<Rightarrow> ('o worker_entry_field,
    'b, 'o) table_builder" where
  "worker_entry_writer fb =
    \<lparr>tb_new = fb_start_table fb,
     tb_add = (\<lambda>a. case a of
         AddWorkerEntryWorkerId x \<Rightarrow> fb_push_slot_always fb 4 (SlotStruct x)
       | AddWorkerEntryStatus x \<Rightarrow> fb_push_slot fb 8 (SlotI8 x) (SlotI8 0)
       | AddWorkerEntryEncryptedHeaders x \<Rightarrow> fb_push_slot_always fb 10 (SlotOffset x)),
     tb_finish = finish_table fb
       [(4, ''worker_id'')]\<rparr>"

definition worker_entry_create ::
  "('b, 'o, 'f) flatbuffers \<Rightarrow> 'o worker_entry_args \<Rightarrow> 'b \<Rightarrow> ('o
      \<times> 'b) outcome"
where
  "worker_entry_create fb args b =
    (let builder = worker_entry_writer fb;
         b = tb_new builder b;
         b = add_some builder AddWorkerEntryEncryptedHeaders (wea_encrypted_headers args) b;
         b = add_some builder AddWorkerEntryWorkerId (wea_worker_id args) b;
         b = tb_add builder (AddWorkerEntryStatus (wea_status args)) b
     in tb_finish builder b)"

definition worker_entry_read :: "('b, 'o, 'f) flatbuffers \<Rightarrow> 'f \<Rightarrow> 'o
    \<Rightarrow> worker_entry outcome" where
  "worker_entry_read fb f off =
    outcome_bind (unwrap (fb_get_struct fb f off 4)) (\<lambda>worker_id.
    outcome_bind (unwrap (or_default 0 (fb_get_i8 fb f off 8))) (\<lambda>status.
    outcome_bind (outcome_option (encrypted_headers_read fb f) (fb_get_table fb f off 10))
        (\<lambda>encrypted_headers.
    Return \<lparr>we_worker_id = worker_id, we_status = status,
            we_encrypted_headers = encrypted_headers\<rparr>)))"

definition worker_entry_verify :: "('v, 'o, 'e, 'opts, 'f) flat_verifier \<Rightarrow> ('o, 'v, 'e)
    check" where
  "worker_entry_verify fv = verify_table fv
    [(fv_in_buffer fv 38, ''worker_id'', 4, True),
     (fv_in_buffer fv 1, ''status'', 8, False),
     (fv_forward fv (encrypted_headers_verify fv), ''encrypted_headers'', 10, False)]"

text \<open>The slots that hold the record, and those that \<^verbatim>\<open>create\<close> fills
    from its arguments.\<close>

definition worker_entry_fields :: "('o \<rightharpoonup> 'o stored) \<Rightarrow> 'o slots
    \<Rightarrow> worker_entry \<Rightarrow> bool" where
  "worker_entry_fields F t c =
    (holds_slot (\<lambda>F v x. v = SlotStruct x) F t 4 (we_worker_id c) \<and>
     holds_scalar SlotI8 t 8 0 (we_status c) \<and>
     holds_option (denotes_table (rep encrypted_headers_fields)) F t 10 (we_encrypted_headers c))"

definition worker_entry_slots :: "'o worker_entry_args \<Rightarrow> 'o slots" where
  "worker_entry_slots args = Map.empty(
     10 := map_option SlotOffset (wea_encrypted_headers args),
     4 := map_option SlotStruct (wea_worker_id args),
     8 := if wea_status args = 0 then None else Some (SlotI8 (wea_status args)))"

lemma worker_entry_writer_simps:
  "tb_new (worker_entry_writer fb) = fb_start_table fb"
  "tb_add (worker_entry_writer fb) (AddWorkerEntryWorkerId x1) = fb_push_slot_always fb 4
      (SlotStruct x1)"
  "tb_add (worker_entry_writer fb) (AddWorkerEntryStatus x2) = fb_push_slot fb 8 (SlotI8 x2)
      (SlotI8 0)"
  "tb_add (worker_entry_writer fb) (AddWorkerEntryEncryptedHeaders x3) = fb_push_slot_always fb 10
      (SlotOffset x3)"
  by (simp_all add: worker_entry_writer_def)

lemma worker_entry_creates:
  assumes "write_laws fb opn objs" "opn b = None"
  shows "creates opn objs [4] (worker_entry_slots args) b (worker_entry_create fb args b)"
proof -
  let ?req = "[(4, ''worker_id'')]"
  have fin: "tb_finish (worker_entry_writer fb) = finish_table fb ?req"
    by (simp add: worker_entry_writer_def)
  have "creates opn objs (map fst ?req) (worker_entry_slots args) b (worker_entry_create fb args b)"
    unfolding worker_entry_create_def Let_def fin worker_entry_slots_def
    by (rule creates_finish [OF assms(1)], (rule table_rules [OF assms(1)])+)
      (simp_all add: building_start [OF assms] worker_entry_writer_simps)
  then show ?thesis by simp
qed

lemma worker_entry_stays [simp]: "stays worker_entry_fields"
  unfolding stays_def worker_entry_fields_def
  by (intro allI impI, elim conjE, intro conjI)
    (assumption | (erule (1) holds_slot_stays holds_option_stays, simp))+

lemma worker_entry_stored:
  assumes "write_laws fb opn objs" "opn b = None" "worker_entry_fields (objs b) (worker_entry_slots
      args) c"
  shows "stores opn objs (rep worker_entry_fields) c b (worker_entry_create fb args b)"
  by (rule creates_rep [OF worker_entry_creates [OF assms(1,2)] worker_entry_stays assms(3)])
    (use assms(3) in \<open>auto simp: worker_entry_fields_def holds_slot_def\<close>)

lemma worker_entry_read_rep:
  assumes "read_laws fb fobjs" "rep worker_entry_fields (fobjs f) off c"
  shows "worker_entry_read fb f off = Return c"
proof -
  from assms(2) obtain t where t: "fobjs f off = Some (Table t)" and h: "worker_entry_fields (fobjs
      f) t c"
    by (auto simp: rep_def)
  from h have get: "fb_get_struct fb f off 4 = Some (we_worker_id c) \<and>
      or_default 0 (fb_get_i8 fb f off 8) = Some (we_status c)"
    unfolding worker_entry_fields_def by (elim conjE, intro conjI) (rule getters [OF assms(1) t],
        assumption)+
  from h have encrypted_headers: "holds_option (denotes_table (rep encrypted_headers_fields))
      (fobjs f) t 10 (we_encrypted_headers c)"
    by (simp add: worker_entry_fields_def)
  note tabs = read_tables [OF assms(1) t]
  show ?thesis using get
    by (simp add: worker_entry_read_def tabs(3) [OF encrypted_headers_read_rep [OF assms(1)]
        encrypted_headers])
qed

lemma keeps_worker_entry_verify [simp]: "keep_laws fv ly \<Longrightarrow> keeps ly
    (worker_entry_verify fv)"
  unfolding worker_entry_verify_def by (rule keeps_verify_table) (simp_all add: keep_rules)

lemma worker_entry_verified_reads:
  assumes "verify_laws fb fv ly" "verified ly (worker_entry_verify fv) f off"
  shows "\<exists>c. worker_entry_read fb f off = Return c"
proof -
  note kl = verify_lawsD(1) [OF assms(1)]
  have ok: "field_ok ly f off (fv_in_buffer fv 38) 4 True"
    "field_ok ly f off (fv_forward fv (encrypted_headers_verify fv)) 10 False"
    using verified_fields [OF assms(1) _ assms(2) [unfolded worker_entry_verify_def]]
    by (simp_all add: keep_rules [OF kl] kl)
  show ?thesis unfolding worker_entry_read_def
    by (rule bind_total found [OF assms(1)] ok | assumption | rule found_nested [OF assms(1)
        keeps_encrypted_headers_verify [OF kl] encrypted_headers_verified_reads [OF assms(1)]] |
      (rule exI, rule refl))+
qed

section \<open>FileUrl\<close>

record 'o file_url_args =
  fua_filename :: "'o option"
  fua_url :: "'o option"

definition file_url_args_default :: "'o file_url_args" where
  "file_url_args_default =
    \<lparr>fua_filename = None, fua_url = None\<rparr>"

datatype 'o file_url_field =
    AddFileUrlFilename 'o
  | AddFileUrlUrl 'o

definition file_url_writer :: "('b, 'o, 'f) flatbuffers \<Rightarrow> ('o file_url_field, 'b, 'o)
    table_builder" where
  "file_url_writer fb =
    \<lparr>tb_new = fb_start_table fb,
     tb_add = (\<lambda>a. case a of
         AddFileUrlFilename x \<Rightarrow> fb_push_slot_always fb 4 (SlotOffset x)
       | AddFileUrlUrl x \<Rightarrow> fb_push_slot_always fb 6 (SlotOffset x)),
     tb_finish = finish_table fb
       [(4, ''filename''), (6, ''url'')]\<rparr>"

definition file_url_create ::
  "('b, 'o, 'f) flatbuffers \<Rightarrow> 'o file_url_args \<Rightarrow> 'b \<Rightarrow> ('o
      \<times> 'b) outcome"
where
  "file_url_create fb args b =
    (let builder = file_url_writer fb;
         b = tb_new builder b;
         b = add_some builder AddFileUrlUrl (fua_url args) b;
         b = add_some builder AddFileUrlFilename (fua_filename args) b
     in tb_finish builder b)"

definition file_url_read :: "('b, 'o, 'f) flatbuffers \<Rightarrow> 'f \<Rightarrow> 'o
    \<Rightarrow> file_url outcome" where
  "file_url_read fb f off =
    outcome_bind (unwrap (fb_get_str fb f off 4)) (\<lambda>filename.
    outcome_bind (unwrap (fb_get_str fb f off 6)) (\<lambda>url.
    Return \<lparr>fu_filename = filename, fu_url = url\<rparr>))"

definition file_url_verify :: "('v, 'o, 'e, 'opts, 'f) flat_verifier \<Rightarrow> ('o, 'v, 'e)
    check" where
  "file_url_verify fv = verify_table fv
    [(fv_forward fv (fv_str fv), ''filename'', 4, True),
     (fv_forward fv (fv_str fv), ''url'', 6, True)]"

text \<open>The slots that hold the record, and those that \<^verbatim>\<open>create\<close> fills
    from its arguments.\<close>

definition file_url_fields :: "('o \<rightharpoonup> 'o stored) \<Rightarrow> 'o slots
    \<Rightarrow> file_url \<Rightarrow> bool" where
  "file_url_fields F t c =
    (holds_slot denotes_str F t 4 (fu_filename c) \<and>
     holds_slot denotes_str F t 6 (fu_url c))"

definition file_url_slots :: "'o file_url_args \<Rightarrow> 'o slots" where
  "file_url_slots args = Map.empty(
     6 := map_option SlotOffset (fua_url args),
     4 := map_option SlotOffset (fua_filename args))"

lemma file_url_writer_simps:
  "tb_new (file_url_writer fb) = fb_start_table fb"
  "tb_add (file_url_writer fb) (AddFileUrlFilename x1) = fb_push_slot_always fb 4 (SlotOffset x1)"
  "tb_add (file_url_writer fb) (AddFileUrlUrl x2) = fb_push_slot_always fb 6 (SlotOffset x2)"
  by (simp_all add: file_url_writer_def)

lemma file_url_creates:
  assumes "write_laws fb opn objs" "opn b = None"
  shows "creates opn objs [4, 6] (file_url_slots args) b (file_url_create fb args b)"
proof -
  let ?req = "[(4, ''filename''), (6, ''url'')]"
  have fin: "tb_finish (file_url_writer fb) = finish_table fb ?req"
    by (simp add: file_url_writer_def)
  have "creates opn objs (map fst ?req) (file_url_slots args) b (file_url_create fb args b)"
    unfolding file_url_create_def Let_def fin file_url_slots_def
    by (rule creates_finish [OF assms(1)], (rule table_rules [OF assms(1)])+)
      (simp_all add: building_start [OF assms] file_url_writer_simps)
  then show ?thesis by simp
qed

lemma file_url_stays [simp]: "stays file_url_fields"
  unfolding stays_def file_url_fields_def
  by (intro allI impI, elim conjE, intro conjI)
    (assumption | (erule (1) holds_slot_stays holds_option_stays, simp))+

lemma file_url_stored:
  assumes "write_laws fb opn objs" "opn b = None" "file_url_fields (objs b) (file_url_slots args) c"
  shows "stores opn objs (rep file_url_fields) c b (file_url_create fb args b)"
  by (rule creates_rep [OF file_url_creates [OF assms(1,2)] file_url_stays assms(3)])
    (use assms(3) in \<open>auto simp: file_url_fields_def holds_slot_def\<close>)

lemma file_url_read_rep:
  assumes "read_laws fb fobjs" "rep file_url_fields (fobjs f) off c"
  shows "file_url_read fb f off = Return c"
proof -
  from assms(2) obtain t where t: "fobjs f off = Some (Table t)" and h: "file_url_fields (fobjs f)
      t c"
    by (auto simp: rep_def)
  from h have get: "fb_get_str fb f off 4 = Some (fu_filename c) \<and>
      fb_get_str fb f off 6 = Some (fu_url c)"
    unfolding file_url_fields_def by (elim conjE, intro conjI) (rule getters [OF assms(1) t],
        assumption)+
  show ?thesis using get
    by (simp add: file_url_read_def )
qed

lemma keeps_file_url_verify [simp]: "keep_laws fv ly \<Longrightarrow> keeps ly (file_url_verify
    fv)"
  unfolding file_url_verify_def by (rule keeps_verify_table) (simp_all add: keep_rules)

lemma file_url_verified_reads:
  assumes "verify_laws fb fv ly" "verified ly (file_url_verify fv) f off"
  shows "\<exists>c. file_url_read fb f off = Return c"
proof -
  note kl = verify_lawsD(1) [OF assms(1)]
  have ok: "field_ok ly f off (fv_forward fv (fv_str fv)) 4 True"
    "field_ok ly f off (fv_forward fv (fv_str fv)) 6 True"
    using verified_fields [OF assms(1) _ assms(2) [unfolded file_url_verify_def]]
    by (simp_all add: keep_rules [OF kl] kl)
  show ?thesis unfolding file_url_read_def
    by (rule bind_total found [OF assms(1)] ok | assumption | (rule exI, rule refl))+
qed

section \<open>Chunk\<close>

record 'o chunk_args =
  cka_first_block :: u64
  cka_id :: "'o option"
  cka_dataset_id :: "'o option"
  cka_size :: u32
  cka_last_block_hash :: "'o option"
  cka_last_block_timestamp :: "u64 option"
  cka_dataset_base_url :: "'o option"
  cka_base_url :: "'o option"
  cka_files :: "'o option"
  cka_worker_indexes :: "'o option"

definition chunk_args_default :: "'o chunk_args" where
  "chunk_args_default =
    \<lparr>cka_first_block = 0, cka_id = None, cka_dataset_id = None, cka_size = 0,
     cka_last_block_hash = None, cka_last_block_timestamp = None, cka_dataset_base_url = None,
     cka_base_url = None, cka_files = None, cka_worker_indexes = None\<rparr>"

datatype 'o chunk_field =
    AddChunkFirstBlock u64
  | AddChunkId 'o
  | AddChunkDatasetId 'o
  | AddChunkSize u32
  | AddChunkLastBlockHash 'o
  | AddChunkLastBlockTimestamp u64
  | AddChunkDatasetBaseUrl 'o
  | AddChunkBaseUrl 'o
  | AddChunkFiles 'o
  | AddChunkWorkerIndexes 'o

definition chunk_writer :: "('b, 'o, 'f) flatbuffers \<Rightarrow> ('o chunk_field, 'b, 'o)
    table_builder" where
  "chunk_writer fb =
    \<lparr>tb_new = fb_start_table fb,
     tb_add = (\<lambda>a. case a of
         AddChunkFirstBlock x \<Rightarrow> fb_push_slot fb 4 (SlotU64 x) (SlotU64 0)
       | AddChunkId x \<Rightarrow> fb_push_slot_always fb 6 (SlotOffset x)
       | AddChunkDatasetId x \<Rightarrow> fb_push_slot_always fb 8 (SlotOffset x)
       | AddChunkSize x \<Rightarrow> fb_push_slot fb 10 (SlotU32 x) (SlotU32 0)
       | AddChunkLastBlockHash x \<Rightarrow> fb_push_slot_always fb 12 (SlotOffset x)
       | AddChunkLastBlockTimestamp x \<Rightarrow> fb_push_slot_always fb 14 (SlotU64 x)
       | AddChunkDatasetBaseUrl x \<Rightarrow> fb_push_slot_always fb 16 (SlotOffset x)
       | AddChunkBaseUrl x \<Rightarrow> fb_push_slot_always fb 18 (SlotOffset x)
       | AddChunkFiles x \<Rightarrow> fb_push_slot_always fb 20 (SlotOffset x)
       | AddChunkWorkerIndexes x \<Rightarrow> fb_push_slot_always fb 22 (SlotOffset x)),
     tb_finish = finish_table fb
       [(6, ''id''), (8, ''dataset_id''), (16, ''dataset_base_url''), (18, ''base_url''),
        (20, ''files''), (22, ''worker_indexes'')]\<rparr>"

definition chunk_create ::
  "('b, 'o, 'f) flatbuffers \<Rightarrow> 'o chunk_args \<Rightarrow> 'b \<Rightarrow> ('o \<times>
      'b) outcome"
where
  "chunk_create fb args b =
    (let builder = chunk_writer fb;
         b = tb_new builder b;
         b = add_some builder AddChunkLastBlockTimestamp (cka_last_block_timestamp args) b;
         b = tb_add builder (AddChunkFirstBlock (cka_first_block args)) b;
         b = add_some builder AddChunkWorkerIndexes (cka_worker_indexes args) b;
         b = add_some builder AddChunkFiles (cka_files args) b;
         b = add_some builder AddChunkBaseUrl (cka_base_url args) b;
         b = add_some builder AddChunkDatasetBaseUrl (cka_dataset_base_url args) b;
         b = add_some builder AddChunkLastBlockHash (cka_last_block_hash args) b;
         b = tb_add builder (AddChunkSize (cka_size args)) b;
         b = add_some builder AddChunkDatasetId (cka_dataset_id args) b;
         b = add_some builder AddChunkId (cka_id args) b
     in tb_finish builder b)"

definition chunk_read :: "('b, 'o, 'f) flatbuffers \<Rightarrow> 'f \<Rightarrow> 'o \<Rightarrow>
    fb_chunk outcome" where
  "chunk_read fb f off =
    outcome_bind (unwrap (or_default 0 (fb_get_u64 fb f off 4))) (\<lambda>first_block.
    outcome_bind (unwrap (fb_get_str fb f off 6)) (\<lambda>id.
    outcome_bind (unwrap (fb_get_str fb f off 8)) (\<lambda>dataset_id.
    outcome_bind (unwrap (or_default 0 (fb_get_u32 fb f off 10))) (\<lambda>size.
    outcome_bind (unwrap (fb_get_str fb f off 16)) (\<lambda>dataset_base_url.
    outcome_bind (unwrap (fb_get_str fb f off 18)) (\<lambda>base_url.
    outcome_bind (unwrap (fb_get_tables fb f off 20)) (\<lambda>files.
    outcome_bind (outcome_list (file_url_read fb f) files) (\<lambda>files.
    outcome_bind (unwrap (fb_get_u16s fb f off 22)) (\<lambda>worker_indexes.
    Return \<lparr>ck_first_block = first_block, ck_id = id, ck_dataset_id = dataset_id,
            ck_size = size, ck_last_block_hash = fb_get_str fb f off 12,
            ck_last_block_timestamp = fb_get_u64 fb f off 14,
            ck_dataset_base_url = dataset_base_url, ck_base_url = base_url, ck_files = files,
            ck_worker_indexes = worker_indexes\<rparr>)))))))))"

definition chunk_key_compare_less_than ::
  "('b, 'o, 'f) flatbuffers \<Rightarrow> 'f \<Rightarrow> 'o \<Rightarrow> 'o \<Rightarrow> bool
      outcome"
where
  "chunk_key_compare_less_than fb f off off' =
    outcome_bind (unwrap (or_default 0 (fb_get_u64 fb f off 4))) (\<lambda>a.
    outcome_map (\<lambda>b. a < b) (unwrap (or_default 0 (fb_get_u64 fb f off' 4))))"

definition chunk_key_compare_with_value ::
  "('b, 'o, 'f) flatbuffers \<Rightarrow> 'f \<Rightarrow> 'o \<Rightarrow> u64 \<Rightarrow>
      ordering outcome"
where
  "chunk_key_compare_with_value fb f off val =
    outcome_map (\<lambda>key. cmp key val) (unwrap (or_default 0 (fb_get_u64 fb f off 4)))"

definition chunk_verify :: "('v, 'o, 'e, 'opts, 'f) flat_verifier \<Rightarrow> ('o, 'v, 'e) check"
    where
  "chunk_verify fv = verify_table fv
    [(fv_in_buffer fv 8, ''first_block'', 4, False),
     (fv_forward fv (fv_str fv), ''id'', 6, True),
     (fv_forward fv (fv_str fv), ''dataset_id'', 8, True),
     (fv_in_buffer fv 4, ''size'', 10, False),
     (fv_forward fv (fv_str fv), ''last_block_hash'', 12, False),
     (fv_in_buffer fv 8, ''last_block_timestamp'', 14, False),
     (fv_forward fv (fv_str fv), ''dataset_base_url'', 16, True),
     (fv_forward fv (fv_str fv), ''base_url'', 18, True),
     (fv_forward fv (fv_vector fv (fv_forward fv (file_url_verify fv))), ''files'', 20, True),
     (fv_forward fv (fv_slice fv 2), ''worker_indexes'', 22, True)]"

text \<open>The slots that hold the record, and those that \<^verbatim>\<open>create\<close> fills
    from its arguments.\<close>

definition chunk_fields :: "('o \<rightharpoonup> 'o stored) \<Rightarrow> 'o slots \<Rightarrow>
    fb_chunk \<Rightarrow> bool" where
  "chunk_fields F t c =
    (holds_scalar SlotU64 t 4 0 (ck_first_block c) \<and>
     holds_slot denotes_str F t 6 (ck_id c) \<and>
     holds_slot denotes_str F t 8 (ck_dataset_id c) \<and>
     holds_scalar SlotU32 t 10 0 (ck_size c) \<and>
     holds_option denotes_str F t 12 (ck_last_block_hash c) \<and>
     holds_option (\<lambda>F v x. v = SlotU64 x) F t 14 (ck_last_block_timestamp c) \<and>
     holds_slot denotes_str F t 16 (ck_dataset_base_url c) \<and>
     holds_slot denotes_str F t 18 (ck_base_url c) \<and>
     holds_slot (denotes_each (rep file_url_fields)) F t 20 (ck_files c) \<and>
     holds_slot (denotes_vec VecU16) F t 22 (ck_worker_indexes c))"

definition chunk_slots :: "'o chunk_args \<Rightarrow> 'o slots" where
  "chunk_slots args = Map.empty(
     14 := map_option SlotU64 (cka_last_block_timestamp args),
     4 := if cka_first_block args = 0 then None else Some (SlotU64 (cka_first_block args)),
     22 := map_option SlotOffset (cka_worker_indexes args),
     20 := map_option SlotOffset (cka_files args),
     18 := map_option SlotOffset (cka_base_url args),
     16 := map_option SlotOffset (cka_dataset_base_url args),
     12 := map_option SlotOffset (cka_last_block_hash args),
     10 := if cka_size args = 0 then None else Some (SlotU32 (cka_size args)),
     8 := map_option SlotOffset (cka_dataset_id args),
     6 := map_option SlotOffset (cka_id args))"

lemma chunk_writer_simps:
  "tb_new (chunk_writer fb) = fb_start_table fb"
  "tb_add (chunk_writer fb) (AddChunkFirstBlock x1) = fb_push_slot fb 4 (SlotU64 x1) (SlotU64 0)"
  "tb_add (chunk_writer fb) (AddChunkId x2) = fb_push_slot_always fb 6 (SlotOffset x2)"
  "tb_add (chunk_writer fb) (AddChunkDatasetId x3) = fb_push_slot_always fb 8 (SlotOffset x3)"
  "tb_add (chunk_writer fb) (AddChunkSize x4) = fb_push_slot fb 10 (SlotU32 x4) (SlotU32 0)"
  "tb_add (chunk_writer fb) (AddChunkLastBlockHash x5) = fb_push_slot_always fb 12 (SlotOffset x5)"
  "tb_add (chunk_writer fb) (AddChunkLastBlockTimestamp x6) = fb_push_slot_always fb 14 (SlotU64
      x6)"
  "tb_add (chunk_writer fb) (AddChunkDatasetBaseUrl x7) = fb_push_slot_always fb 16 (SlotOffset x7)"
  "tb_add (chunk_writer fb) (AddChunkBaseUrl x8) = fb_push_slot_always fb 18 (SlotOffset x8)"
  "tb_add (chunk_writer fb) (AddChunkFiles x9) = fb_push_slot_always fb 20 (SlotOffset x9)"
  "tb_add (chunk_writer fb) (AddChunkWorkerIndexes x10) = fb_push_slot_always fb 22 (SlotOffset
      x10)"
  by (simp_all add: chunk_writer_def)

lemma chunk_creates:
  assumes "write_laws fb opn objs" "opn b = None"
  shows "creates opn objs [6, 8, 16, 18, 20, 22] (chunk_slots args) b (chunk_create fb args b)"
proof -
  let ?req = "[(6, ''id''), (8, ''dataset_id''), (16, ''dataset_base_url''), (18, ''base_url''),
             (20, ''files''), (22, ''worker_indexes'')]"
  have fin: "tb_finish (chunk_writer fb) = finish_table fb ?req"
    by (simp add: chunk_writer_def)
  have "creates opn objs (map fst ?req) (chunk_slots args) b (chunk_create fb args b)"
    unfolding chunk_create_def Let_def fin chunk_slots_def
    by (rule creates_finish [OF assms(1)], (rule table_rules [OF assms(1)])+)
      (simp_all add: building_start [OF assms] chunk_writer_simps)
  then show ?thesis by simp
qed

lemma chunk_stays [simp]: "stays chunk_fields"
  unfolding stays_def chunk_fields_def
  by (intro allI impI, elim conjE, intro conjI)
    (assumption | (erule (1) holds_slot_stays holds_option_stays, simp))+

lemma chunk_stored:
  assumes "write_laws fb opn objs" "opn b = None" "chunk_fields (objs b) (chunk_slots args) c"
  shows "stores opn objs (rep chunk_fields) c b (chunk_create fb args b)"
  by (rule creates_rep [OF chunk_creates [OF assms(1,2)] chunk_stays assms(3)])
    (use assms(3) in \<open>auto simp: chunk_fields_def holds_slot_def\<close>)

lemma chunk_read_rep:
  assumes "read_laws fb fobjs" "rep chunk_fields (fobjs f) off c"
  shows "chunk_read fb f off = Return c"
proof -
  from assms(2) obtain t where t: "fobjs f off = Some (Table t)" and h: "chunk_fields (fobjs f) t c"
    by (auto simp: rep_def)
  from h have get: "or_default 0 (fb_get_u64 fb f off 4) = Some (ck_first_block c) \<and>
      fb_get_str fb f off 6 = Some (ck_id c) \<and>
      fb_get_str fb f off 8 = Some (ck_dataset_id c) \<and>
      or_default 0 (fb_get_u32 fb f off 10) = Some (ck_size c) \<and>
      fb_get_str fb f off 12 = ck_last_block_hash c \<and>
      fb_get_u64 fb f off 14 = ck_last_block_timestamp c \<and>
      fb_get_str fb f off 16 = Some (ck_dataset_base_url c) \<and>
      fb_get_str fb f off 18 = Some (ck_base_url c) \<and>
      fb_get_u16s fb f off 22 = Some (ck_worker_indexes c)"
    unfolding chunk_fields_def by (elim conjE, intro conjI) (rule getters [OF assms(1) t],
        assumption)+
  from h have files: "holds_slot (denotes_each (rep file_url_fields)) (fobjs f) t 20 (ck_files c)"
    by (simp add: chunk_fields_def)
  note tabs = read_tables [OF assms(1) t]
  show ?thesis using get
    by (simp add: chunk_read_def tabs(1) [OF file_url_read_rep [OF assms(1)] files])
qed

text \<open>The key of a stored table compares like the record's.\<close>

lemma chunk_key_compare:
  assumes "read_laws fb fobjs" "rep chunk_fields (fobjs f) off c"
  shows "chunk_key_compare_with_value fb f off val = Return (cmp (ck_first_block c) val)"
    and "rep chunk_fields (fobjs f) off' d \<Longrightarrow>
      chunk_key_compare_less_than fb f off off' = Return (ck_first_block c < ck_first_block d)"
proof -
  have get: "unwrap (or_default 0 (fb_get_u64 fb f off 4)) = Return (ck_first_block c)" if "rep
      chunk_fields (fobjs f) off c" for off c
    using chunk_read_rep [OF assms(1) that] by (auto simp: chunk_read_def)
  from get [OF assms(2)] show "chunk_key_compare_with_value fb f off val = Return (cmp
      (ck_first_block c) val)"
    by (simp add: chunk_key_compare_with_value_def)
  from get [OF assms(2)] get show "rep chunk_fields (fobjs f) off' d \<Longrightarrow>
      chunk_key_compare_less_than fb f off off' = Return (ck_first_block c < ck_first_block d)"
    by (simp add: chunk_key_compare_less_than_def)
qed

lemma keeps_chunk_verify [simp]: "keep_laws fv ly \<Longrightarrow> keeps ly (chunk_verify fv)"
  unfolding chunk_verify_def by (rule keeps_verify_table) (simp_all add: keep_rules)

lemma chunk_verified_reads:
  assumes "verify_laws fb fv ly" "verified ly (chunk_verify fv) f off"
  shows "\<exists>c. chunk_read fb f off = Return c"
proof -
  note kl = verify_lawsD(1) [OF assms(1)]
  have ok: "field_ok ly f off (fv_forward fv (fv_str fv)) 6 True"
    "field_ok ly f off (fv_forward fv (fv_str fv)) 8 True"
    "field_ok ly f off (fv_forward fv (fv_str fv)) 16 True"
    "field_ok ly f off (fv_forward fv (fv_str fv)) 18 True"
    "field_ok ly f off (fv_forward fv (fv_vector fv (fv_forward fv (file_url_verify fv)))) 20 True"
    "field_ok ly f off (fv_forward fv (fv_slice fv 2)) 22 True"
    using verified_fields [OF assms(1) _ assms(2) [unfolded chunk_verify_def]]
    by (simp_all add: keep_rules [OF kl] kl)
  show ?thesis unfolding chunk_read_def
    by (rule bind_total found [OF assms(1)] ok | assumption | rule found_nested [OF assms(1)
        keeps_file_url_verify [OF kl] file_url_verified_reads [OF assms(1)]] |
      (rule exI, rule refl))+
qed

section \<open>Dataset\<close>

record 'o dataset_args =
  dsa_id :: "'o option"
  dsa_chunks :: "'o option"
  dsa_last_block :: u64

definition dataset_args_default :: "'o dataset_args" where
  "dataset_args_default =
    \<lparr>dsa_id = None, dsa_chunks = None, dsa_last_block = 0\<rparr>"

datatype 'o dataset_field =
    AddDatasetId 'o
  | AddDatasetChunks 'o
  | AddDatasetLastBlock u64

definition dataset_writer :: "('b, 'o, 'f) flatbuffers \<Rightarrow> ('o dataset_field, 'b, 'o)
    table_builder" where
  "dataset_writer fb =
    \<lparr>tb_new = fb_start_table fb,
     tb_add = (\<lambda>a. case a of
         AddDatasetId x \<Rightarrow> fb_push_slot_always fb 4 (SlotOffset x)
       | AddDatasetChunks x \<Rightarrow> fb_push_slot_always fb 6 (SlotOffset x)
       | AddDatasetLastBlock x \<Rightarrow> fb_push_slot fb 8 (SlotU64 x) (SlotU64 0)),
     tb_finish = finish_table fb
       [(4, ''id''), (6, ''chunks'')]\<rparr>"

definition dataset_create ::
  "('b, 'o, 'f) flatbuffers \<Rightarrow> 'o dataset_args \<Rightarrow> 'b \<Rightarrow> ('o
      \<times> 'b) outcome"
where
  "dataset_create fb args b =
    (let builder = dataset_writer fb;
         b = tb_new builder b;
         b = tb_add builder (AddDatasetLastBlock (dsa_last_block args)) b;
         b = add_some builder AddDatasetChunks (dsa_chunks args) b;
         b = add_some builder AddDatasetId (dsa_id args) b
     in tb_finish builder b)"

definition dataset_read :: "('b, 'o, 'f) flatbuffers \<Rightarrow> 'f \<Rightarrow> 'o
    \<Rightarrow> fb_dataset outcome" where
  "dataset_read fb f off =
    outcome_bind (unwrap (fb_get_str fb f off 4)) (\<lambda>id.
    outcome_bind (unwrap (fb_get_tables fb f off 6)) (\<lambda>chunks.
    outcome_bind (outcome_list (chunk_read fb f) chunks) (\<lambda>chunks.
    outcome_bind (unwrap (or_default 0 (fb_get_u64 fb f off 8))) (\<lambda>last_block.
    Return \<lparr>ds_id = id, ds_chunks = chunks, ds_last_block = last_block\<rparr>))))"

definition dataset_key_compare_less_than ::
  "('b, 'o, 'f) flatbuffers \<Rightarrow> 'f \<Rightarrow> 'o \<Rightarrow> 'o \<Rightarrow> bool
      outcome"
where
  "dataset_key_compare_less_than fb f off off' =
    outcome_bind (unwrap (fb_get_str fb f off 4)) (\<lambda>a.
    outcome_map (\<lambda>b. a < b) (unwrap (fb_get_str fb f off' 4)))"

definition dataset_key_compare_with_value ::
  "('b, 'o, 'f) flatbuffers \<Rightarrow> 'f \<Rightarrow> 'o \<Rightarrow> string \<Rightarrow>
      ordering outcome"
where
  "dataset_key_compare_with_value fb f off val =
    outcome_map (\<lambda>key. cmp key val) (unwrap (fb_get_str fb f off 4))"

definition dataset_verify :: "('v, 'o, 'e, 'opts, 'f) flat_verifier \<Rightarrow> ('o, 'v, 'e)
    check" where
  "dataset_verify fv = verify_table fv
    [(fv_forward fv (fv_str fv), ''id'', 4, True),
     (fv_forward fv (fv_vector fv (fv_forward fv (chunk_verify fv))), ''chunks'', 6, True),
     (fv_in_buffer fv 8, ''last_block'', 8, False)]"

text \<open>The slots that hold the record, and those that \<^verbatim>\<open>create\<close> fills
    from its arguments.\<close>

definition dataset_fields :: "('o \<rightharpoonup> 'o stored) \<Rightarrow> 'o slots \<Rightarrow>
    fb_dataset \<Rightarrow> bool" where
  "dataset_fields F t c =
    (holds_slot denotes_str F t 4 (ds_id c) \<and>
     holds_slot (denotes_each (rep chunk_fields)) F t 6 (ds_chunks c) \<and>
     holds_scalar SlotU64 t 8 0 (ds_last_block c))"

definition dataset_slots :: "'o dataset_args \<Rightarrow> 'o slots" where
  "dataset_slots args = Map.empty(
     8 := if dsa_last_block args = 0 then None else Some (SlotU64 (dsa_last_block args)),
     6 := map_option SlotOffset (dsa_chunks args),
     4 := map_option SlotOffset (dsa_id args))"

lemma dataset_writer_simps:
  "tb_new (dataset_writer fb) = fb_start_table fb"
  "tb_add (dataset_writer fb) (AddDatasetId x1) = fb_push_slot_always fb 4 (SlotOffset x1)"
  "tb_add (dataset_writer fb) (AddDatasetChunks x2) = fb_push_slot_always fb 6 (SlotOffset x2)"
  "tb_add (dataset_writer fb) (AddDatasetLastBlock x3) = fb_push_slot fb 8 (SlotU64 x3) (SlotU64 0)"
  by (simp_all add: dataset_writer_def)

lemma dataset_creates:
  assumes "write_laws fb opn objs" "opn b = None"
  shows "creates opn objs [4, 6] (dataset_slots args) b (dataset_create fb args b)"
proof -
  let ?req = "[(4, ''id''), (6, ''chunks'')]"
  have fin: "tb_finish (dataset_writer fb) = finish_table fb ?req"
    by (simp add: dataset_writer_def)
  have "creates opn objs (map fst ?req) (dataset_slots args) b (dataset_create fb args b)"
    unfolding dataset_create_def Let_def fin dataset_slots_def
    by (rule creates_finish [OF assms(1)], (rule table_rules [OF assms(1)])+)
      (simp_all add: building_start [OF assms] dataset_writer_simps)
  then show ?thesis by simp
qed

lemma dataset_stays [simp]: "stays dataset_fields"
  unfolding stays_def dataset_fields_def
  by (intro allI impI, elim conjE, intro conjI)
    (assumption | (erule (1) holds_slot_stays holds_option_stays, simp))+

lemma dataset_stored:
  assumes "write_laws fb opn objs" "opn b = None" "dataset_fields (objs b) (dataset_slots args) c"
  shows "stores opn objs (rep dataset_fields) c b (dataset_create fb args b)"
  by (rule creates_rep [OF dataset_creates [OF assms(1,2)] dataset_stays assms(3)])
    (use assms(3) in \<open>auto simp: dataset_fields_def holds_slot_def\<close>)

lemma dataset_read_rep:
  assumes "read_laws fb fobjs" "rep dataset_fields (fobjs f) off c"
  shows "dataset_read fb f off = Return c"
proof -
  from assms(2) obtain t where t: "fobjs f off = Some (Table t)" and h: "dataset_fields (fobjs f) t
      c"
    by (auto simp: rep_def)
  from h have get: "fb_get_str fb f off 4 = Some (ds_id c) \<and>
      or_default 0 (fb_get_u64 fb f off 8) = Some (ds_last_block c)"
    unfolding dataset_fields_def by (elim conjE, intro conjI) (rule getters [OF assms(1) t],
        assumption)+
  from h have chunks: "holds_slot (denotes_each (rep chunk_fields)) (fobjs f) t 6 (ds_chunks c)"
    by (simp add: dataset_fields_def)
  note tabs = read_tables [OF assms(1) t]
  show ?thesis using get
    by (simp add: dataset_read_def tabs(1) [OF chunk_read_rep [OF assms(1)] chunks])
qed

text \<open>The key of a stored table compares like the record's.\<close>

lemma dataset_key_compare:
  assumes "read_laws fb fobjs" "rep dataset_fields (fobjs f) off c"
  shows "dataset_key_compare_with_value fb f off val = Return (cmp (ds_id c) val)"
    and "rep dataset_fields (fobjs f) off' d \<Longrightarrow>
      dataset_key_compare_less_than fb f off off' = Return (ds_id c < ds_id d)"
proof -
  have get: "unwrap (fb_get_str fb f off 4) = Return (ds_id c)" if "rep dataset_fields (fobjs f)
      off c" for off c
    using dataset_read_rep [OF assms(1) that] by (auto simp: dataset_read_def)
  from get [OF assms(2)] show "dataset_key_compare_with_value fb f off val = Return (cmp (ds_id c)
      val)"
    by (simp add: dataset_key_compare_with_value_def)
  from get [OF assms(2)] get show "rep dataset_fields (fobjs f) off' d \<Longrightarrow>
      dataset_key_compare_less_than fb f off off' = Return (ds_id c < ds_id d)"
    by (simp add: dataset_key_compare_less_than_def)
qed

lemma keeps_dataset_verify [simp]: "keep_laws fv ly \<Longrightarrow> keeps ly (dataset_verify fv)"
  unfolding dataset_verify_def by (rule keeps_verify_table) (simp_all add: keep_rules)

lemma dataset_verified_reads:
  assumes "verify_laws fb fv ly" "verified ly (dataset_verify fv) f off"
  shows "\<exists>c. dataset_read fb f off = Return c"
proof -
  note kl = verify_lawsD(1) [OF assms(1)]
  have ok: "field_ok ly f off (fv_forward fv (fv_str fv)) 4 True"
    "field_ok ly f off (fv_forward fv (fv_vector fv (fv_forward fv (chunk_verify fv)))) 6 True"
    using verified_fields [OF assms(1) _ assms(2) [unfolded dataset_verify_def]]
    by (simp_all add: keep_rules [OF kl] kl)
  show ?thesis unfolding dataset_read_def
    by (rule bind_total found [OF assms(1)] ok | assumption | rule found_nested [OF assms(1)
        keeps_chunk_verify [OF kl] chunk_verified_reads [OF assms(1)]] |
      (rule exI, rule refl))+
qed

section \<open>Assignment\<close>

record 'o assignment_args =
  asa_datasets :: "'o option"
  asa_workers :: "'o option"

definition assignment_args_default :: "'o assignment_args" where
  "assignment_args_default =
    \<lparr>asa_datasets = None, asa_workers = None\<rparr>"

datatype 'o assignment_field =
    AddAssignmentDatasets 'o
  | AddAssignmentWorkers 'o

definition assignment_writer :: "('b, 'o, 'f) flatbuffers \<Rightarrow> ('o assignment_field, 'b,
    'o) table_builder" where
  "assignment_writer fb =
    \<lparr>tb_new = fb_start_table fb,
     tb_add = (\<lambda>a. case a of
         AddAssignmentDatasets x \<Rightarrow> fb_push_slot_always fb 4 (SlotOffset x)
       | AddAssignmentWorkers x \<Rightarrow> fb_push_slot_always fb 6 (SlotOffset x)),
     tb_finish = finish_table fb
       [(4, ''datasets''), (6, ''workers'')]\<rparr>"

definition assignment_create ::
  "('b, 'o, 'f) flatbuffers \<Rightarrow> 'o assignment_args \<Rightarrow> 'b \<Rightarrow> ('o
      \<times> 'b) outcome"
where
  "assignment_create fb args b =
    (let builder = assignment_writer fb;
         b = tb_new builder b;
         b = add_some builder AddAssignmentWorkers (asa_workers args) b;
         b = add_some builder AddAssignmentDatasets (asa_datasets args) b
     in tb_finish builder b)"

definition assignment_read :: "('b, 'o, 'f) flatbuffers \<Rightarrow> 'f \<Rightarrow> 'o
    \<Rightarrow> fb_assignment outcome" where
  "assignment_read fb f off =
    outcome_bind (unwrap (fb_get_tables fb f off 4)) (\<lambda>datasets.
    outcome_bind (outcome_list (dataset_read fb f) datasets) (\<lambda>datasets.
    outcome_bind (unwrap (fb_get_tables fb f off 6)) (\<lambda>workers.
    outcome_bind (outcome_list (worker_entry_read fb f) workers) (\<lambda>workers.
    Return \<lparr>as_datasets = datasets, as_workers = workers\<rparr>))))"

definition assignment_verify :: "('v, 'o, 'e, 'opts, 'f) flat_verifier \<Rightarrow> ('o, 'v, 'e)
    check" where
  "assignment_verify fv = verify_table fv
    [(fv_forward fv (fv_vector fv (fv_forward fv (dataset_verify fv))), ''datasets'', 4, True),
     (fv_forward fv (fv_vector fv (fv_forward fv (worker_entry_verify fv))), ''workers'', 6, True)]"

text \<open>The slots that hold the record, and those that \<^verbatim>\<open>create\<close> fills
    from its arguments.\<close>

definition assignment_fields :: "('o \<rightharpoonup> 'o stored) \<Rightarrow> 'o slots
    \<Rightarrow> fb_assignment \<Rightarrow> bool" where
  "assignment_fields F t c =
    (holds_slot (denotes_each (rep dataset_fields)) F t 4 (as_datasets c) \<and>
     holds_slot (denotes_each (rep worker_entry_fields)) F t 6 (as_workers c))"

definition assignment_slots :: "'o assignment_args \<Rightarrow> 'o slots" where
  "assignment_slots args = Map.empty(
     6 := map_option SlotOffset (asa_workers args),
     4 := map_option SlotOffset (asa_datasets args))"

lemma assignment_writer_simps:
  "tb_new (assignment_writer fb) = fb_start_table fb"
  "tb_add (assignment_writer fb) (AddAssignmentDatasets x1) = fb_push_slot_always fb 4 (SlotOffset
      x1)"
  "tb_add (assignment_writer fb) (AddAssignmentWorkers x2) = fb_push_slot_always fb 6 (SlotOffset
      x2)"
  by (simp_all add: assignment_writer_def)

lemma assignment_creates:
  assumes "write_laws fb opn objs" "opn b = None"
  shows "creates opn objs [4, 6] (assignment_slots args) b (assignment_create fb args b)"
proof -
  let ?req = "[(4, ''datasets''), (6, ''workers'')]"
  have fin: "tb_finish (assignment_writer fb) = finish_table fb ?req"
    by (simp add: assignment_writer_def)
  have "creates opn objs (map fst ?req) (assignment_slots args) b (assignment_create fb args b)"
    unfolding assignment_create_def Let_def fin assignment_slots_def
    by (rule creates_finish [OF assms(1)], (rule table_rules [OF assms(1)])+)
      (simp_all add: building_start [OF assms] assignment_writer_simps)
  then show ?thesis by simp
qed

lemma assignment_stays [simp]: "stays assignment_fields"
  unfolding stays_def assignment_fields_def
  by (intro allI impI, elim conjE, intro conjI)
    (assumption | (erule (1) holds_slot_stays holds_option_stays, simp))+

lemma assignment_stored:
  assumes "write_laws fb opn objs" "opn b = None" "assignment_fields (objs b) (assignment_slots
      args) c"
  shows "stores opn objs (rep assignment_fields) c b (assignment_create fb args b)"
  by (rule creates_rep [OF assignment_creates [OF assms(1,2)] assignment_stays assms(3)])
    (use assms(3) in \<open>auto simp: assignment_fields_def holds_slot_def\<close>)

lemma assignment_read_rep:
  assumes "read_laws fb fobjs" "rep assignment_fields (fobjs f) off c"
  shows "assignment_read fb f off = Return c"
proof -
  from assms(2) obtain t where t: "fobjs f off = Some (Table t)" and h: "assignment_fields (fobjs
      f) t c"
    by (auto simp: rep_def)
  from h have datasets: "holds_slot (denotes_each (rep dataset_fields)) (fobjs f) t 4 (as_datasets
      c)"
    by (simp add: assignment_fields_def)
  from h have workers: "holds_slot (denotes_each (rep worker_entry_fields)) (fobjs f) t 6
      (as_workers c)"
    by (simp add: assignment_fields_def)
  note tabs = read_tables [OF assms(1) t]
  show ?thesis
    by (simp add: assignment_read_def tabs(1) [OF dataset_read_rep [OF assms(1)] datasets] tabs(1)
        [OF worker_entry_read_rep [OF assms(1)] workers])
qed

lemma keeps_assignment_verify [simp]: "keep_laws fv ly \<Longrightarrow> keeps ly
    (assignment_verify fv)"
  unfolding assignment_verify_def by (rule keeps_verify_table) (simp_all add: keep_rules)

lemma assignment_verified_reads:
  assumes "verify_laws fb fv ly" "verified ly (assignment_verify fv) f off"
  shows "\<exists>c. assignment_read fb f off = Return c"
proof -
  note kl = verify_lawsD(1) [OF assms(1)]
  have ok: "field_ok ly f off (fv_forward fv (fv_vector fv (fv_forward fv (dataset_verify fv)))) 4
      True"
    "field_ok ly f off (fv_forward fv (fv_vector fv (fv_forward fv (worker_entry_verify fv)))) 6
        True"
    using verified_fields [OF assms(1) _ assms(2) [unfolded assignment_verify_def]]
    by (simp_all add: keep_rules [OF kl] kl)
  show ?thesis unfolding assignment_read_def
    by (rule bind_total found [OF assms(1)] ok | assumption | rule found_nested [OF assms(1)
        keeps_dataset_verify [OF kl] dataset_verified_reads [OF assms(1)]] |
      rule found_nested [OF assms(1) keeps_worker_entry_verify [OF kl] worker_entry_verified_reads
          [OF assms(1)]] |
      (rule exI, rule refl))+
qed

end
