(* ===== verification/Gen_Worker.thy ===== *)
theory Gen_Worker
  imports Gen_Assignment
begin

text \<open>
  The tables of \<^verbatim>\<open>worker_assignment_generated.rs\<close>, in the way of
      \<^theory_text>\<open>Gen_Assignment\<close>, whose \<^verbatim>\<open>WorkerEntry\<close>
  the root table shares.
\<close>

section \<open>TableRoster\<close>

record 'o table_roster_args =
  roa_write_schema_id :: u32
  roa_tables :: "'o option"

definition table_roster_args_default :: "'o table_roster_args" where
  "table_roster_args_default =
    \<lparr>roa_write_schema_id = 0, roa_tables = None\<rparr>"

datatype 'o table_roster_field =
    AddTableRosterWriteSchemaId u32
  | AddTableRosterTables 'o

definition table_roster_writer :: "('b, 'o, 'f) flatbuffers \<Rightarrow> ('o table_roster_field,
    'b, 'o) table_builder" where
  "table_roster_writer fb =
    \<lparr>tb_new = fb_start_table fb,
     tb_add = (\<lambda>a. case a of
         AddTableRosterWriteSchemaId x \<Rightarrow> fb_push_slot fb 4 (SlotU32 x) (SlotU32 0)
       | AddTableRosterTables x \<Rightarrow> fb_push_slot_always fb 6 (SlotOffset x)),
     tb_finish = finish_table fb
       [(6, ''tables'')]\<rparr>"

definition table_roster_create ::
  "('b, 'o, 'f) flatbuffers \<Rightarrow> 'o table_roster_args \<Rightarrow> 'b \<Rightarrow> ('o
      \<times> 'b) outcome"
where
  "table_roster_create fb args b =
    (let builder = table_roster_writer fb;
         b = tb_new builder b;
         b = add_some builder AddTableRosterTables (roa_tables args) b;
         b = tb_add builder (AddTableRosterWriteSchemaId (roa_write_schema_id args)) b
     in tb_finish builder b)"

definition table_roster_read :: "('b, 'o, 'f) flatbuffers \<Rightarrow> 'f \<Rightarrow> 'o
    \<Rightarrow> table_roster outcome" where
  "table_roster_read fb f off =
    outcome_bind (unwrap (or_default 0 (fb_get_u32 fb f off 4))) (\<lambda>write_schema_id.
    outcome_bind (unwrap (fb_get_strs fb f off 6)) (\<lambda>tables.
    Return \<lparr>ro_write_schema_id = write_schema_id, ro_tables = tables\<rparr>))"

definition table_roster_key_compare_less_than ::
  "('b, 'o, 'f) flatbuffers \<Rightarrow> 'f \<Rightarrow> 'o \<Rightarrow> 'o \<Rightarrow> bool
      outcome"
where
  "table_roster_key_compare_less_than fb f off off' =
    outcome_bind (unwrap (or_default 0 (fb_get_u32 fb f off 4))) (\<lambda>a.
    outcome_map (\<lambda>b. a < b) (unwrap (or_default 0 (fb_get_u32 fb f off' 4))))"

definition table_roster_key_compare_with_value ::
  "('b, 'o, 'f) flatbuffers \<Rightarrow> 'f \<Rightarrow> 'o \<Rightarrow> u32 \<Rightarrow>
      ordering outcome"
where
  "table_roster_key_compare_with_value fb f off val =
    outcome_map (\<lambda>key. cmp key val) (unwrap (or_default 0 (fb_get_u32 fb f off 4)))"

definition table_roster_verify :: "('v, 'o, 'e, 'opts, 'f) flat_verifier \<Rightarrow> ('o, 'v, 'e)
    check" where
  "table_roster_verify fv = verify_table fv
    [(fv_in_buffer fv 4, ''write_schema_id'', 4, False),
     (fv_forward fv (fv_vector fv (fv_forward fv (fv_str fv))), ''tables'', 6, True)]"

text \<open>The slots that hold the record, and those that \<^verbatim>\<open>create\<close> fills
    from its arguments.\<close>

definition table_roster_fields :: "('o \<rightharpoonup> 'o stored) \<Rightarrow> 'o slots
    \<Rightarrow> table_roster \<Rightarrow> bool" where
  "table_roster_fields F t c =
    (holds_scalar SlotU32 t 4 0 (ro_write_schema_id c) \<and>
     holds_slot (denotes_each (\<lambda>F off x. F off = Some (Str x))) F t 6 (ro_tables c))"

definition table_roster_slots :: "'o table_roster_args \<Rightarrow> 'o slots" where
  "table_roster_slots args = Map.empty(
     6 := map_option SlotOffset (roa_tables args),
     4 := if roa_write_schema_id args = 0 then None else Some (SlotU32 (roa_write_schema_id args)))"

lemma table_roster_writer_simps:
  "tb_new (table_roster_writer fb) = fb_start_table fb"
  "tb_add (table_roster_writer fb) (AddTableRosterWriteSchemaId x1) = fb_push_slot fb 4 (SlotU32
      x1) (SlotU32 0)"
  "tb_add (table_roster_writer fb) (AddTableRosterTables x2) = fb_push_slot_always fb 6 (SlotOffset
      x2)"
  by (simp_all add: table_roster_writer_def)

lemma table_roster_creates:
  assumes "write_laws fb opn objs" "opn b = None"
  shows "creates opn objs [6] (table_roster_slots args) b (table_roster_create fb args b)"
proof -
  let ?req = "[(6, ''tables'')]"
  have fin: "tb_finish (table_roster_writer fb) = finish_table fb ?req"
    by (simp add: table_roster_writer_def)
  have "creates opn objs (map fst ?req) (table_roster_slots args) b (table_roster_create fb args b)"
    unfolding table_roster_create_def Let_def fin table_roster_slots_def
    by (rule creates_finish [OF assms(1)], (rule table_rules [OF assms(1)])+)
      (simp_all add: building_start [OF assms] table_roster_writer_simps)
  then show ?thesis by simp
qed

lemma table_roster_stays [simp]: "stays table_roster_fields"
  unfolding stays_def table_roster_fields_def
  by (intro allI impI, elim conjE, intro conjI)
    (assumption | (erule (1) holds_slot_stays holds_option_stays, simp))+

lemma table_roster_stored:
  assumes "write_laws fb opn objs" "opn b = None" "table_roster_fields (objs b) (table_roster_slots
      args) c"
  shows "stores opn objs (rep table_roster_fields) c b (table_roster_create fb args b)"
  by (rule creates_rep [OF table_roster_creates [OF assms(1,2)] table_roster_stays assms(3)])
    (use assms(3) in \<open>auto simp: table_roster_fields_def holds_slot_def\<close>)

lemma table_roster_read_rep:
  assumes "read_laws fb fobjs" "rep table_roster_fields (fobjs f) off c"
  shows "table_roster_read fb f off = Return c"
proof -
  from assms(2) obtain t where t: "fobjs f off = Some (Table t)" and h: "table_roster_fields (fobjs
      f) t c"
    by (auto simp: rep_def)
  from h have get: "or_default 0 (fb_get_u32 fb f off 4) = Some (ro_write_schema_id c) \<and>
      fb_get_strs fb f off 6 = Some (ro_tables c)"
    unfolding table_roster_fields_def by (elim conjE, intro conjI) (rule getters [OF assms(1) t],
        assumption)+
  show ?thesis using get
    by (simp add: table_roster_read_def )
qed

text \<open>The key of a stored table compares like the record's.\<close>

lemma table_roster_key_compare:
  assumes "read_laws fb fobjs" "rep table_roster_fields (fobjs f) off c"
  shows "table_roster_key_compare_with_value fb f off val = Return (cmp (ro_write_schema_id c) val)"
    and "rep table_roster_fields (fobjs f) off' d \<Longrightarrow>
      table_roster_key_compare_less_than fb f off off' = Return (ro_write_schema_id c <
          ro_write_schema_id d)"
proof -
  have get: "unwrap (or_default 0 (fb_get_u32 fb f off 4)) = Return (ro_write_schema_id c)" if "rep
      table_roster_fields (fobjs f) off c" for off c
    using table_roster_read_rep [OF assms(1) that] by (auto simp: table_roster_read_def)
  from get [OF assms(2)] show "table_roster_key_compare_with_value fb f off val = Return (cmp
      (ro_write_schema_id c) val)"
    by (simp add: table_roster_key_compare_with_value_def)
  from get [OF assms(2)] get show "rep table_roster_fields (fobjs f) off' d \<Longrightarrow>
      table_roster_key_compare_less_than fb f off off' = Return (ro_write_schema_id c <
          ro_write_schema_id d)"
    by (simp add: table_roster_key_compare_less_than_def)
qed

lemma keeps_table_roster_verify [simp]: "keep_laws fv ly \<Longrightarrow> keeps ly
    (table_roster_verify fv)"
  unfolding table_roster_verify_def by (rule keeps_verify_table) (simp_all add: keep_rules)

lemma table_roster_verified_reads:
  assumes "verify_laws fb fv ly" "verified ly (table_roster_verify fv) f off"
  shows "\<exists>c. table_roster_read fb f off = Return c"
proof -
  note kl = verify_lawsD(1) [OF assms(1)]
  have ok: "field_ok ly f off (fv_forward fv (fv_vector fv (fv_forward fv (fv_str fv)))) 6 True"
    using verified_fields [OF assms(1) _ assms(2) [unfolded table_roster_verify_def]]
    by (simp_all add: keep_rules [OF kl] kl)
  show ?thesis unfolding table_roster_read_def
    by (rule bind_total found [OF assms(1)] ok | assumption | (rule exI, rule refl))+
qed

section \<open>GenerationEntry\<close>

record 'o generation_entry_args =
  gea_version :: u32
  gea_base_url :: "'o option"

definition generation_entry_args_default :: "'o generation_entry_args" where
  "generation_entry_args_default =
    \<lparr>gea_version = 0, gea_base_url = None\<rparr>"

datatype 'o generation_entry_field =
    AddGenerationEntryVersion u32
  | AddGenerationEntryBaseUrl 'o

definition generation_entry_writer :: "('b, 'o, 'f) flatbuffers \<Rightarrow> ('o
    generation_entry_field, 'b, 'o) table_builder" where
  "generation_entry_writer fb =
    \<lparr>tb_new = fb_start_table fb,
     tb_add = (\<lambda>a. case a of
         AddGenerationEntryVersion x \<Rightarrow> fb_push_slot fb 4 (SlotU32 x) (SlotU32 0)
       | AddGenerationEntryBaseUrl x \<Rightarrow> fb_push_slot_always fb 6 (SlotOffset x)),
     tb_finish = finish_table fb
       [(6, ''base_url'')]\<rparr>"

definition generation_entry_create ::
  "('b, 'o, 'f) flatbuffers \<Rightarrow> 'o generation_entry_args \<Rightarrow> 'b \<Rightarrow>
      ('o \<times> 'b) outcome"
where
  "generation_entry_create fb args b =
    (let builder = generation_entry_writer fb;
         b = tb_new builder b;
         b = add_some builder AddGenerationEntryBaseUrl (gea_base_url args) b;
         b = tb_add builder (AddGenerationEntryVersion (gea_version args)) b
     in tb_finish builder b)"

definition generation_entry_read :: "('b, 'o, 'f) flatbuffers \<Rightarrow> 'f \<Rightarrow> 'o
    \<Rightarrow> generation_entry outcome" where
  "generation_entry_read fb f off =
    outcome_bind (unwrap (or_default 0 (fb_get_u32 fb f off 4))) (\<lambda>version.
    outcome_bind (unwrap (fb_get_str fb f off 6)) (\<lambda>base_url.
    Return \<lparr>ge_version = version, ge_base_url = base_url\<rparr>))"

definition generation_entry_key_compare_less_than ::
  "('b, 'o, 'f) flatbuffers \<Rightarrow> 'f \<Rightarrow> 'o \<Rightarrow> 'o \<Rightarrow> bool
      outcome"
where
  "generation_entry_key_compare_less_than fb f off off' =
    outcome_bind (unwrap (or_default 0 (fb_get_u32 fb f off 4))) (\<lambda>a.
    outcome_map (\<lambda>b. a < b) (unwrap (or_default 0 (fb_get_u32 fb f off' 4))))"

definition generation_entry_key_compare_with_value ::
  "('b, 'o, 'f) flatbuffers \<Rightarrow> 'f \<Rightarrow> 'o \<Rightarrow> u32 \<Rightarrow>
      ordering outcome"
where
  "generation_entry_key_compare_with_value fb f off val =
    outcome_map (\<lambda>key. cmp key val) (unwrap (or_default 0 (fb_get_u32 fb f off 4)))"

definition generation_entry_verify :: "('v, 'o, 'e, 'opts, 'f) flat_verifier \<Rightarrow> ('o, 'v,
    'e) check" where
  "generation_entry_verify fv = verify_table fv
    [(fv_in_buffer fv 4, ''version'', 4, False),
     (fv_forward fv (fv_str fv), ''base_url'', 6, True)]"

text \<open>The slots that hold the record, and those that \<^verbatim>\<open>create\<close> fills
    from its arguments.\<close>

definition generation_entry_fields :: "('o \<rightharpoonup> 'o stored) \<Rightarrow> 'o slots
    \<Rightarrow> generation_entry \<Rightarrow> bool" where
  "generation_entry_fields F t c =
    (holds_scalar SlotU32 t 4 0 (ge_version c) \<and>
     holds_slot denotes_str F t 6 (ge_base_url c))"

definition generation_entry_slots :: "'o generation_entry_args \<Rightarrow> 'o slots" where
  "generation_entry_slots args = Map.empty(
     6 := map_option SlotOffset (gea_base_url args),
     4 := if gea_version args = 0 then None else Some (SlotU32 (gea_version args)))"

lemma generation_entry_writer_simps:
  "tb_new (generation_entry_writer fb) = fb_start_table fb"
  "tb_add (generation_entry_writer fb) (AddGenerationEntryVersion x1) = fb_push_slot fb 4 (SlotU32
      x1) (SlotU32 0)"
  "tb_add (generation_entry_writer fb) (AddGenerationEntryBaseUrl x2) = fb_push_slot_always fb 6
      (SlotOffset x2)"
  by (simp_all add: generation_entry_writer_def)

lemma generation_entry_creates:
  assumes "write_laws fb opn objs" "opn b = None"
  shows "creates opn objs [6] (generation_entry_slots args) b (generation_entry_create fb args b)"
proof -
  let ?req = "[(6, ''base_url'')]"
  have fin: "tb_finish (generation_entry_writer fb) = finish_table fb ?req"
    by (simp add: generation_entry_writer_def)
  have "creates opn objs (map fst ?req) (generation_entry_slots args) b (generation_entry_create fb
      args b)"
    unfolding generation_entry_create_def Let_def fin generation_entry_slots_def
    by (rule creates_finish [OF assms(1)], (rule table_rules [OF assms(1)])+)
      (simp_all add: building_start [OF assms] generation_entry_writer_simps)
  then show ?thesis by simp
qed

lemma generation_entry_stays [simp]: "stays generation_entry_fields"
  unfolding stays_def generation_entry_fields_def
  by (intro allI impI, elim conjE, intro conjI)
    (assumption | (erule (1) holds_slot_stays holds_option_stays, simp))+

lemma generation_entry_stored:
  assumes "write_laws fb opn objs" "opn b = None" "generation_entry_fields (objs b)
      (generation_entry_slots args) c"
  shows "stores opn objs (rep generation_entry_fields) c b (generation_entry_create fb args b)"
  by (rule creates_rep [OF generation_entry_creates [OF assms(1,2)] generation_entry_stays
      assms(3)])
    (use assms(3) in \<open>auto simp: generation_entry_fields_def holds_slot_def\<close>)

lemma generation_entry_read_rep:
  assumes "read_laws fb fobjs" "rep generation_entry_fields (fobjs f) off c"
  shows "generation_entry_read fb f off = Return c"
proof -
  from assms(2) obtain t where t: "fobjs f off = Some (Table t)" and h: "generation_entry_fields
      (fobjs f) t c"
    by (auto simp: rep_def)
  from h have get: "or_default 0 (fb_get_u32 fb f off 4) = Some (ge_version c) \<and>
      fb_get_str fb f off 6 = Some (ge_base_url c)"
    unfolding generation_entry_fields_def by (elim conjE, intro conjI) (rule getters [OF assms(1)
        t], assumption)+
  show ?thesis using get
    by (simp add: generation_entry_read_def )
qed

text \<open>The key of a stored table compares like the record's.\<close>

lemma generation_entry_key_compare:
  assumes "read_laws fb fobjs" "rep generation_entry_fields (fobjs f) off c"
  shows "generation_entry_key_compare_with_value fb f off val = Return (cmp (ge_version c) val)"
    and "rep generation_entry_fields (fobjs f) off' d \<Longrightarrow>
      generation_entry_key_compare_less_than fb f off off' = Return (ge_version c < ge_version d)"
proof -
  have get: "unwrap (or_default 0 (fb_get_u32 fb f off 4)) = Return (ge_version c)" if "rep
      generation_entry_fields (fobjs f) off c" for off c
    using generation_entry_read_rep [OF assms(1) that] by (auto simp: generation_entry_read_def)
  from get [OF assms(2)] show "generation_entry_key_compare_with_value fb f off val = Return (cmp
      (ge_version c) val)"
    by (simp add: generation_entry_key_compare_with_value_def)
  from get [OF assms(2)] get show "rep generation_entry_fields (fobjs f) off' d \<Longrightarrow>
      generation_entry_key_compare_less_than fb f off off' = Return (ge_version c < ge_version d)"
    by (simp add: generation_entry_key_compare_less_than_def)
qed

lemma keeps_generation_entry_verify [simp]: "keep_laws fv ly \<Longrightarrow> keeps ly
    (generation_entry_verify fv)"
  unfolding generation_entry_verify_def by (rule keeps_verify_table) (simp_all add: keep_rules)

lemma generation_entry_verified_reads:
  assumes "verify_laws fb fv ly" "verified ly (generation_entry_verify fv) f off"
  shows "\<exists>c. generation_entry_read fb f off = Return c"
proof -
  note kl = verify_lawsD(1) [OF assms(1)]
  have ok: "field_ok ly f off (fv_forward fv (fv_str fv)) 6 True"
    using verified_fields [OF assms(1) _ assms(2) [unfolded generation_entry_verify_def]]
    by (simp_all add: keep_rules [OF kl] kl)
  show ?thesis unfolding generation_entry_read_def
    by (rule bind_total found [OF assms(1)] ok | assumption | (rule exI, rule refl))+
qed

section \<open>WorkerAssignmentDataset\<close>

record 'o worker_dataset_args =
  wda_id :: "'o option"
  wda_last_block :: u64
  wda_base_url :: "'o option"
  wda_generations :: "'o option"
  wda_first_blocks :: "'o option"
  wda_block_deltas :: "'o option"
  wda_hashes :: "'o option"
  wda_tops :: "'o option"
  wda_sizes :: "'o option"
  wda_write_schema_ids :: "'o option"
  wda_tables_present_offsets :: "'o option"
  wda_tables_present :: "'o option"
  wda_versions :: "'o option"
  wda_worker_offsets :: "'o option"
  wda_worker_indexes :: "'o option"

definition worker_dataset_args_default :: "'o worker_dataset_args" where
  "worker_dataset_args_default =
    \<lparr>wda_id = None, wda_last_block = 0, wda_base_url = None, wda_generations = None,
     wda_first_blocks = None, wda_block_deltas = None, wda_hashes = None, wda_tops = None,
     wda_sizes = None, wda_write_schema_ids = None, wda_tables_present_offsets = None,
     wda_tables_present = None, wda_versions = None, wda_worker_offsets = None,
     wda_worker_indexes = None\<rparr>"

datatype 'o worker_dataset_field =
    AddWorkerDatasetId 'o
  | AddWorkerDatasetLastBlock u64
  | AddWorkerDatasetBaseUrl 'o
  | AddWorkerDatasetGenerations 'o
  | AddWorkerDatasetFirstBlocks 'o
  | AddWorkerDatasetBlockDeltas 'o
  | AddWorkerDatasetHashes 'o
  | AddWorkerDatasetTops 'o
  | AddWorkerDatasetSizes 'o
  | AddWorkerDatasetWriteSchemaIds 'o
  | AddWorkerDatasetTablesPresentOffsets 'o
  | AddWorkerDatasetTablesPresent 'o
  | AddWorkerDatasetVersions 'o
  | AddWorkerDatasetWorkerOffsets 'o
  | AddWorkerDatasetWorkerIndexes 'o

definition worker_dataset_writer :: "('b, 'o, 'f) flatbuffers \<Rightarrow> ('o
    worker_dataset_field, 'b, 'o) table_builder" where
  "worker_dataset_writer fb =
    \<lparr>tb_new = fb_start_table fb,
     tb_add = (\<lambda>a. case a of
         AddWorkerDatasetId x \<Rightarrow> fb_push_slot_always fb 4 (SlotOffset x)
       | AddWorkerDatasetLastBlock x \<Rightarrow> fb_push_slot fb 6 (SlotU64 x) (SlotU64 0)
       | AddWorkerDatasetBaseUrl x \<Rightarrow> fb_push_slot_always fb 8 (SlotOffset x)
       | AddWorkerDatasetGenerations x \<Rightarrow> fb_push_slot_always fb 10 (SlotOffset x)
       | AddWorkerDatasetFirstBlocks x \<Rightarrow> fb_push_slot_always fb 12 (SlotOffset x)
       | AddWorkerDatasetBlockDeltas x \<Rightarrow> fb_push_slot_always fb 14 (SlotOffset x)
       | AddWorkerDatasetHashes x \<Rightarrow> fb_push_slot_always fb 16 (SlotOffset x)
       | AddWorkerDatasetTops x \<Rightarrow> fb_push_slot_always fb 18 (SlotOffset x)
       | AddWorkerDatasetSizes x \<Rightarrow> fb_push_slot_always fb 20 (SlotOffset x)
       | AddWorkerDatasetWriteSchemaIds x \<Rightarrow> fb_push_slot_always fb 22 (SlotOffset x)
       | AddWorkerDatasetTablesPresentOffsets x \<Rightarrow> fb_push_slot_always fb 24 (SlotOffset
           x)
       | AddWorkerDatasetTablesPresent x \<Rightarrow> fb_push_slot_always fb 26 (SlotOffset x)
       | AddWorkerDatasetVersions x \<Rightarrow> fb_push_slot_always fb 28 (SlotOffset x)
       | AddWorkerDatasetWorkerOffsets x \<Rightarrow> fb_push_slot_always fb 30 (SlotOffset x)
       | AddWorkerDatasetWorkerIndexes x \<Rightarrow> fb_push_slot_always fb 32 (SlotOffset x)),
     tb_finish = finish_table fb
       [(4, ''id''), (8, ''base_url''), (12, ''first_blocks''), (14, ''block_deltas''),
        (16, ''hashes''), (18, ''tops''), (20, ''sizes''), (22, ''write_schema_ids''),
        (30, ''worker_offsets''), (32, ''worker_indexes'')]\<rparr>"

definition worker_dataset_create ::
  "('b, 'o, 'f) flatbuffers \<Rightarrow> 'o worker_dataset_args \<Rightarrow> 'b \<Rightarrow> ('o
      \<times> 'b) outcome"
where
  "worker_dataset_create fb args b =
    (let builder = worker_dataset_writer fb;
         b = tb_new builder b;
         b = tb_add builder (AddWorkerDatasetLastBlock (wda_last_block args)) b;
         b = add_some builder AddWorkerDatasetWorkerIndexes (wda_worker_indexes args) b;
         b = add_some builder AddWorkerDatasetWorkerOffsets (wda_worker_offsets args) b;
         b = add_some builder AddWorkerDatasetVersions (wda_versions args) b;
         b = add_some builder AddWorkerDatasetTablesPresent (wda_tables_present args) b;
         b = add_some builder AddWorkerDatasetTablesPresentOffsets (wda_tables_present_offsets
             args) b;
         b = add_some builder AddWorkerDatasetWriteSchemaIds (wda_write_schema_ids args) b;
         b = add_some builder AddWorkerDatasetSizes (wda_sizes args) b;
         b = add_some builder AddWorkerDatasetTops (wda_tops args) b;
         b = add_some builder AddWorkerDatasetHashes (wda_hashes args) b;
         b = add_some builder AddWorkerDatasetBlockDeltas (wda_block_deltas args) b;
         b = add_some builder AddWorkerDatasetFirstBlocks (wda_first_blocks args) b;
         b = add_some builder AddWorkerDatasetGenerations (wda_generations args) b;
         b = add_some builder AddWorkerDatasetBaseUrl (wda_base_url args) b;
         b = add_some builder AddWorkerDatasetId (wda_id args) b
     in tb_finish builder b)"

definition worker_dataset_read :: "('b, 'o, 'f) flatbuffers \<Rightarrow> 'f \<Rightarrow> 'o
    \<Rightarrow> worker_dataset outcome" where
  "worker_dataset_read fb f off =
    outcome_bind (unwrap (fb_get_str fb f off 4)) (\<lambda>id.
    outcome_bind (unwrap (or_default 0 (fb_get_u64 fb f off 6))) (\<lambda>last_block.
    outcome_bind (unwrap (fb_get_str fb f off 8)) (\<lambda>base_url.
    outcome_bind (outcome_option (outcome_list (generation_entry_read fb f)) (fb_get_tables fb f
        off 10)) (\<lambda>generations.
    outcome_bind (unwrap (fb_get_u64s fb f off 12)) (\<lambda>first_blocks.
    outcome_bind (unwrap (fb_get_u32s fb f off 14)) (\<lambda>block_deltas.
    outcome_bind (unwrap (fb_get_structs fb f off 16)) (\<lambda>hashes.
    outcome_bind (unwrap (fb_get_structs fb f off 18)) (\<lambda>tops.
    outcome_bind (unwrap (fb_get_u32s fb f off 20)) (\<lambda>sizes.
    outcome_bind (unwrap (fb_get_u32s fb f off 22)) (\<lambda>write_schema_ids.
    outcome_bind (unwrap (fb_get_u32s fb f off 30)) (\<lambda>worker_offsets.
    outcome_bind (unwrap (fb_get_u16s fb f off 32)) (\<lambda>worker_indexes.
    Return \<lparr>wd_id = id, wd_last_block = last_block, wd_base_url = base_url,
            wd_generations = generations, wd_first_blocks = first_blocks,
            wd_block_deltas = block_deltas, wd_hashes = hashes,
            wd_tops = map top_run_of_struct tops, wd_sizes = sizes,
            wd_write_schema_ids = write_schema_ids,
            wd_tables_present_offsets = fb_get_u32s fb f off 24,
            wd_tables_present = fb_get_u8s fb f off 26, wd_versions = fb_get_u32s fb f off 28,
            wd_worker_offsets = worker_offsets, wd_worker_indexes =
                worker_indexes\<rparr>))))))))))))"

definition worker_dataset_key_compare_less_than ::
  "('b, 'o, 'f) flatbuffers \<Rightarrow> 'f \<Rightarrow> 'o \<Rightarrow> 'o \<Rightarrow> bool
      outcome"
where
  "worker_dataset_key_compare_less_than fb f off off' =
    outcome_bind (unwrap (fb_get_str fb f off 4)) (\<lambda>a.
    outcome_map (\<lambda>b. a < b) (unwrap (fb_get_str fb f off' 4)))"

definition worker_dataset_key_compare_with_value ::
  "('b, 'o, 'f) flatbuffers \<Rightarrow> 'f \<Rightarrow> 'o \<Rightarrow> string \<Rightarrow>
      ordering outcome"
where
  "worker_dataset_key_compare_with_value fb f off val =
    outcome_map (\<lambda>key. cmp key val) (unwrap (fb_get_str fb f off 4))"

definition worker_dataset_verify :: "('v, 'o, 'e, 'opts, 'f) flat_verifier \<Rightarrow> ('o, 'v,
    'e) check" where
  "worker_dataset_verify fv = verify_table fv
    [(fv_forward fv (fv_str fv), ''id'', 4, True),
     (fv_in_buffer fv 8, ''last_block'', 6, False),
     (fv_forward fv (fv_str fv), ''base_url'', 8, True),
     (fv_forward fv (fv_vector fv (fv_forward fv (generation_entry_verify fv))), ''generations'',
         10, False),
     (fv_forward fv (fv_slice fv 8), ''first_blocks'', 12, True),
     (fv_forward fv (fv_slice fv 4), ''block_deltas'', 14, True),
     (fv_forward fv (fv_slice fv 8), ''hashes'', 16, True),
     (fv_forward fv (fv_slice fv 16), ''tops'', 18, True),
     (fv_forward fv (fv_slice fv 4), ''sizes'', 20, True),
     (fv_forward fv (fv_slice fv 4), ''write_schema_ids'', 22, True),
     (fv_forward fv (fv_slice fv 4), ''tables_present_offsets'', 24, False),
     (fv_forward fv (fv_slice fv 1), ''tables_present'', 26, False),
     (fv_forward fv (fv_slice fv 4), ''versions'', 28, False),
     (fv_forward fv (fv_slice fv 4), ''worker_offsets'', 30, True),
     (fv_forward fv (fv_slice fv 2), ''worker_indexes'', 32, True)]"

text \<open>The slots that hold the record, and those that \<^verbatim>\<open>create\<close> fills
    from its arguments.\<close>

definition worker_dataset_fields :: "('o \<rightharpoonup> 'o stored) \<Rightarrow> 'o slots
    \<Rightarrow> worker_dataset \<Rightarrow> bool" where
  "worker_dataset_fields F t c =
    (holds_slot denotes_str F t 4 (wd_id c) \<and>
     holds_scalar SlotU64 t 6 0 (wd_last_block c) \<and>
     holds_slot denotes_str F t 8 (wd_base_url c) \<and>
     holds_option (denotes_each (rep generation_entry_fields)) F t 10 (wd_generations c) \<and>
     holds_slot (denotes_vec VecU64) F t 12 (wd_first_blocks c) \<and>
     holds_slot (denotes_vec VecU32) F t 14 (wd_block_deltas c) \<and>
     holds_slot (denotes_vec VecStruct) F t 16 (wd_hashes c) \<and>
     holds_slot (denotes_vec (\<lambda>rs. VecStruct (map top_run_struct rs))) F t 18 (wd_tops c)
         \<and>
     holds_slot (denotes_vec VecU32) F t 20 (wd_sizes c) \<and>
     holds_slot (denotes_vec VecU32) F t 22 (wd_write_schema_ids c) \<and>
     holds_option (denotes_vec VecU32) F t 24 (wd_tables_present_offsets c) \<and>
     holds_option (denotes_vec VecU8) F t 26 (wd_tables_present c) \<and>
     holds_option (denotes_vec VecU32) F t 28 (wd_versions c) \<and>
     holds_slot (denotes_vec VecU32) F t 30 (wd_worker_offsets c) \<and>
     holds_slot (denotes_vec VecU16) F t 32 (wd_worker_indexes c))"

definition worker_dataset_slots :: "'o worker_dataset_args \<Rightarrow> 'o slots" where
  "worker_dataset_slots args = Map.empty(
     6 := if wda_last_block args = 0 then None else Some (SlotU64 (wda_last_block args)),
     32 := map_option SlotOffset (wda_worker_indexes args),
     30 := map_option SlotOffset (wda_worker_offsets args),
     28 := map_option SlotOffset (wda_versions args),
     26 := map_option SlotOffset (wda_tables_present args),
     24 := map_option SlotOffset (wda_tables_present_offsets args),
     22 := map_option SlotOffset (wda_write_schema_ids args),
     20 := map_option SlotOffset (wda_sizes args),
     18 := map_option SlotOffset (wda_tops args),
     16 := map_option SlotOffset (wda_hashes args),
     14 := map_option SlotOffset (wda_block_deltas args),
     12 := map_option SlotOffset (wda_first_blocks args),
     10 := map_option SlotOffset (wda_generations args),
     8 := map_option SlotOffset (wda_base_url args),
     4 := map_option SlotOffset (wda_id args))"

lemma worker_dataset_writer_simps:
  "tb_new (worker_dataset_writer fb) = fb_start_table fb"
  "tb_add (worker_dataset_writer fb) (AddWorkerDatasetId x1) = fb_push_slot_always fb 4 (SlotOffset
      x1)"
  "tb_add (worker_dataset_writer fb) (AddWorkerDatasetLastBlock x2) = fb_push_slot fb 6 (SlotU64
      x2) (SlotU64 0)"
  "tb_add (worker_dataset_writer fb) (AddWorkerDatasetBaseUrl x3) = fb_push_slot_always fb 8
      (SlotOffset x3)"
  "tb_add (worker_dataset_writer fb) (AddWorkerDatasetGenerations x4) = fb_push_slot_always fb 10
      (SlotOffset x4)"
  "tb_add (worker_dataset_writer fb) (AddWorkerDatasetFirstBlocks x5) = fb_push_slot_always fb 12
      (SlotOffset x5)"
  "tb_add (worker_dataset_writer fb) (AddWorkerDatasetBlockDeltas x6) = fb_push_slot_always fb 14
      (SlotOffset x6)"
  "tb_add (worker_dataset_writer fb) (AddWorkerDatasetHashes x7) = fb_push_slot_always fb 16
      (SlotOffset x7)"
  "tb_add (worker_dataset_writer fb) (AddWorkerDatasetTops x8) = fb_push_slot_always fb 18
      (SlotOffset x8)"
  "tb_add (worker_dataset_writer fb) (AddWorkerDatasetSizes x9) = fb_push_slot_always fb 20
      (SlotOffset x9)"
  "tb_add (worker_dataset_writer fb) (AddWorkerDatasetWriteSchemaIds x10) = fb_push_slot_always fb
      22 (SlotOffset x10)"
  "tb_add (worker_dataset_writer fb) (AddWorkerDatasetTablesPresentOffsets x11) =
      fb_push_slot_always fb 24 (SlotOffset x11)"
  "tb_add (worker_dataset_writer fb) (AddWorkerDatasetTablesPresent x12) = fb_push_slot_always fb
      26 (SlotOffset x12)"
  "tb_add (worker_dataset_writer fb) (AddWorkerDatasetVersions x13) = fb_push_slot_always fb 28
      (SlotOffset x13)"
  "tb_add (worker_dataset_writer fb) (AddWorkerDatasetWorkerOffsets x14) = fb_push_slot_always fb
      30 (SlotOffset x14)"
  "tb_add (worker_dataset_writer fb) (AddWorkerDatasetWorkerIndexes x15) = fb_push_slot_always fb
      32 (SlotOffset x15)"
  by (simp_all add: worker_dataset_writer_def)

lemma worker_dataset_creates:
  assumes "write_laws fb opn objs" "opn b = None"
  shows "creates opn objs [4, 8, 12, 14, 16, 18, 20, 22, 30, 32] (worker_dataset_slots args) b
      (worker_dataset_create fb args b)"
proof -
  let ?req = "[(4, ''id''), (8, ''base_url''), (12, ''first_blocks''), (14, ''block_deltas''),
             (16, ''hashes''), (18, ''tops''), (20, ''sizes''), (22, ''write_schema_ids''),
             (30, ''worker_offsets''), (32, ''worker_indexes'')]"
  have fin: "tb_finish (worker_dataset_writer fb) = finish_table fb ?req"
    by (simp add: worker_dataset_writer_def)
  have "creates opn objs (map fst ?req) (worker_dataset_slots args) b (worker_dataset_create fb
      args b)"
    unfolding worker_dataset_create_def Let_def fin worker_dataset_slots_def
    by (rule creates_finish [OF assms(1)], (rule table_rules [OF assms(1)])+)
      (simp_all add: building_start [OF assms] worker_dataset_writer_simps)
  then show ?thesis by simp
qed

lemma worker_dataset_stays [simp]: "stays worker_dataset_fields"
  unfolding stays_def worker_dataset_fields_def
  by (intro allI impI, elim conjE, intro conjI)
    (assumption | (erule (1) holds_slot_stays holds_option_stays, simp))+

lemma worker_dataset_stored:
  assumes "write_laws fb opn objs" "opn b = None" "worker_dataset_fields (objs b)
      (worker_dataset_slots args) c"
  shows "stores opn objs (rep worker_dataset_fields) c b (worker_dataset_create fb args b)"
  by (rule creates_rep [OF worker_dataset_creates [OF assms(1,2)] worker_dataset_stays assms(3)])
    (use assms(3) in \<open>auto simp: worker_dataset_fields_def holds_slot_def\<close>)

lemma worker_dataset_read_rep:
  assumes "read_laws fb fobjs" "rep worker_dataset_fields (fobjs f) off c"
  shows "worker_dataset_read fb f off = Return c"
proof -
  from assms(2) obtain t where t: "fobjs f off = Some (Table t)" and h: "worker_dataset_fields
      (fobjs f) t c"
    by (auto simp: rep_def)
  from h have get: "fb_get_str fb f off 4 = Some (wd_id c) \<and>
      or_default 0 (fb_get_u64 fb f off 6) = Some (wd_last_block c) \<and>
      fb_get_str fb f off 8 = Some (wd_base_url c) \<and>
      fb_get_u64s fb f off 12 = Some (wd_first_blocks c) \<and>
      fb_get_u32s fb f off 14 = Some (wd_block_deltas c) \<and>
      fb_get_structs fb f off 16 = Some (wd_hashes c) \<and>
      fb_get_structs fb f off 18 = Some (map top_run_struct (wd_tops c)) \<and>
      fb_get_u32s fb f off 20 = Some (wd_sizes c) \<and>
      fb_get_u32s fb f off 22 = Some (wd_write_schema_ids c) \<and>
      fb_get_u32s fb f off 24 = wd_tables_present_offsets c \<and>
      fb_get_u8s fb f off 26 = wd_tables_present c \<and>
      fb_get_u32s fb f off 28 = wd_versions c \<and>
      fb_get_u32s fb f off 30 = Some (wd_worker_offsets c) \<and>
      fb_get_u16s fb f off 32 = Some (wd_worker_indexes c)"
    unfolding worker_dataset_fields_def by (elim conjE, intro conjI) (rule getters [OF assms(1) t],
        assumption)+
  from h have generations: "holds_option (denotes_each (rep generation_entry_fields)) (fobjs f) t
      10 (wd_generations c)"
    by (simp add: worker_dataset_fields_def)
  note tabs = read_tables [OF assms(1) t]
  show ?thesis using get
    by (simp add: worker_dataset_read_def tabs(2) [OF generation_entry_read_rep [OF assms(1)]
        generations])
qed

text \<open>The key of a stored table compares like the record's.\<close>

lemma worker_dataset_key_compare:
  assumes "read_laws fb fobjs" "rep worker_dataset_fields (fobjs f) off c"
  shows "worker_dataset_key_compare_with_value fb f off val = Return (cmp (wd_id c) val)"
    and "rep worker_dataset_fields (fobjs f) off' d \<Longrightarrow>
      worker_dataset_key_compare_less_than fb f off off' = Return (wd_id c < wd_id d)"
proof -
  have get: "unwrap (fb_get_str fb f off 4) = Return (wd_id c)" if "rep worker_dataset_fields
      (fobjs f) off c" for off c
    using worker_dataset_read_rep [OF assms(1) that] by (auto simp: worker_dataset_read_def)
  from get [OF assms(2)] show "worker_dataset_key_compare_with_value fb f off val = Return (cmp
      (wd_id c) val)"
    by (simp add: worker_dataset_key_compare_with_value_def)
  from get [OF assms(2)] get show "rep worker_dataset_fields (fobjs f) off' d \<Longrightarrow>
      worker_dataset_key_compare_less_than fb f off off' = Return (wd_id c < wd_id d)"
    by (simp add: worker_dataset_key_compare_less_than_def)
qed

lemma keeps_worker_dataset_verify [simp]: "keep_laws fv ly \<Longrightarrow> keeps ly
    (worker_dataset_verify fv)"
  unfolding worker_dataset_verify_def by (rule keeps_verify_table) (simp_all add: keep_rules)

lemma worker_dataset_verified_reads:
  assumes "verify_laws fb fv ly" "verified ly (worker_dataset_verify fv) f off"
  shows "\<exists>c. worker_dataset_read fb f off = Return c"
proof -
  note kl = verify_lawsD(1) [OF assms(1)]
  have ok: "field_ok ly f off (fv_forward fv (fv_str fv)) 4 True"
    "field_ok ly f off (fv_forward fv (fv_str fv)) 8 True"
    "field_ok ly f off (fv_forward fv (fv_vector fv (fv_forward fv (generation_entry_verify fv))))
        10 False"
    "field_ok ly f off (fv_forward fv (fv_slice fv 8)) 12 True"
    "field_ok ly f off (fv_forward fv (fv_slice fv 4)) 14 True"
    "field_ok ly f off (fv_forward fv (fv_slice fv 8)) 16 True"
    "field_ok ly f off (fv_forward fv (fv_slice fv 16)) 18 True"
    "field_ok ly f off (fv_forward fv (fv_slice fv 4)) 20 True"
    "field_ok ly f off (fv_forward fv (fv_slice fv 4)) 22 True"
    "field_ok ly f off (fv_forward fv (fv_slice fv 4)) 30 True"
    "field_ok ly f off (fv_forward fv (fv_slice fv 2)) 32 True"
    using verified_fields [OF assms(1) _ assms(2) [unfolded worker_dataset_verify_def]]
    by (simp_all add: keep_rules [OF kl] kl)
  show ?thesis unfolding worker_dataset_read_def
    by (rule bind_total found [OF assms(1)] ok | assumption | rule found_nested [OF assms(1)
        keeps_generation_entry_verify [OF kl] generation_entry_verified_reads [OF assms(1)]] |
      (rule exI, rule refl))+
qed

section \<open>WorkerAssignment\<close>

record 'o worker_assignment_args =
  waa_datasets :: "'o option"
  waa_workers :: "'o option"
  waa_schemas :: "'o option"

definition worker_assignment_args_default :: "'o worker_assignment_args" where
  "worker_assignment_args_default =
    \<lparr>waa_datasets = None, waa_workers = None, waa_schemas = None\<rparr>"

datatype 'o worker_assignment_field =
    AddWorkerAssignmentDatasets 'o
  | AddWorkerAssignmentWorkers 'o
  | AddWorkerAssignmentSchemas 'o

definition worker_assignment_writer :: "('b, 'o, 'f) flatbuffers \<Rightarrow> ('o
    worker_assignment_field, 'b, 'o) table_builder" where
  "worker_assignment_writer fb =
    \<lparr>tb_new = fb_start_table fb,
     tb_add = (\<lambda>a. case a of
         AddWorkerAssignmentDatasets x \<Rightarrow> fb_push_slot_always fb 4 (SlotOffset x)
       | AddWorkerAssignmentWorkers x \<Rightarrow> fb_push_slot_always fb 6 (SlotOffset x)
       | AddWorkerAssignmentSchemas x \<Rightarrow> fb_push_slot_always fb 8 (SlotOffset x)),
     tb_finish = finish_table fb
       [(4, ''datasets''), (6, ''workers''), (8, ''schemas'')]\<rparr>"

definition worker_assignment_create ::
  "('b, 'o, 'f) flatbuffers \<Rightarrow> 'o worker_assignment_args \<Rightarrow> 'b \<Rightarrow>
      ('o \<times> 'b) outcome"
where
  "worker_assignment_create fb args b =
    (let builder = worker_assignment_writer fb;
         b = tb_new builder b;
         b = add_some builder AddWorkerAssignmentSchemas (waa_schemas args) b;
         b = add_some builder AddWorkerAssignmentWorkers (waa_workers args) b;
         b = add_some builder AddWorkerAssignmentDatasets (waa_datasets args) b
     in tb_finish builder b)"

definition worker_assignment_read :: "('b, 'o, 'f) flatbuffers \<Rightarrow> 'f \<Rightarrow> 'o
    \<Rightarrow> worker_assignment outcome" where
  "worker_assignment_read fb f off =
    outcome_bind (unwrap (fb_get_tables fb f off 4)) (\<lambda>datasets.
    outcome_bind (outcome_list (worker_dataset_read fb f) datasets) (\<lambda>datasets.
    outcome_bind (unwrap (fb_get_tables fb f off 6)) (\<lambda>workers.
    outcome_bind (outcome_list (worker_entry_read fb f) workers) (\<lambda>workers.
    outcome_bind (unwrap (fb_get_tables fb f off 8)) (\<lambda>schemas.
    outcome_bind (outcome_list (table_roster_read fb f) schemas) (\<lambda>schemas.
    Return \<lparr>wa_datasets = datasets, wa_workers = workers, wa_schemas = schemas\<rparr>))))))"

definition worker_assignment_verify :: "('v, 'o, 'e, 'opts, 'f) flat_verifier \<Rightarrow> ('o,
    'v, 'e) check" where
  "worker_assignment_verify fv = verify_table fv
    [(fv_forward fv (fv_vector fv (fv_forward fv (worker_dataset_verify fv))), ''datasets'', 4,
        True),
     (fv_forward fv (fv_vector fv (fv_forward fv (worker_entry_verify fv))), ''workers'', 6, True),
     (fv_forward fv (fv_vector fv (fv_forward fv (table_roster_verify fv))), ''schemas'', 8, True)]"

text \<open>The slots that hold the record, and those that \<^verbatim>\<open>create\<close> fills
    from its arguments.\<close>

definition worker_assignment_fields :: "('o \<rightharpoonup> 'o stored) \<Rightarrow> 'o slots
    \<Rightarrow> worker_assignment \<Rightarrow> bool" where
  "worker_assignment_fields F t c =
    (holds_slot (denotes_each (rep worker_dataset_fields)) F t 4 (wa_datasets c) \<and>
     holds_slot (denotes_each (rep worker_entry_fields)) F t 6 (wa_workers c) \<and>
     holds_slot (denotes_each (rep table_roster_fields)) F t 8 (wa_schemas c))"

definition worker_assignment_slots :: "'o worker_assignment_args \<Rightarrow> 'o slots" where
  "worker_assignment_slots args = Map.empty(
     8 := map_option SlotOffset (waa_schemas args),
     6 := map_option SlotOffset (waa_workers args),
     4 := map_option SlotOffset (waa_datasets args))"

lemma worker_assignment_writer_simps:
  "tb_new (worker_assignment_writer fb) = fb_start_table fb"
  "tb_add (worker_assignment_writer fb) (AddWorkerAssignmentDatasets x1) = fb_push_slot_always fb 4
      (SlotOffset x1)"
  "tb_add (worker_assignment_writer fb) (AddWorkerAssignmentWorkers x2) = fb_push_slot_always fb 6
      (SlotOffset x2)"
  "tb_add (worker_assignment_writer fb) (AddWorkerAssignmentSchemas x3) = fb_push_slot_always fb 8
      (SlotOffset x3)"
  by (simp_all add: worker_assignment_writer_def)

lemma worker_assignment_creates:
  assumes "write_laws fb opn objs" "opn b = None"
  shows "creates opn objs [4, 6, 8] (worker_assignment_slots args) b (worker_assignment_create fb
      args b)"
proof -
  let ?req = "[(4, ''datasets''), (6, ''workers''), (8, ''schemas'')]"
  have fin: "tb_finish (worker_assignment_writer fb) = finish_table fb ?req"
    by (simp add: worker_assignment_writer_def)
  have "creates opn objs (map fst ?req) (worker_assignment_slots args) b (worker_assignment_create
      fb args b)"
    unfolding worker_assignment_create_def Let_def fin worker_assignment_slots_def
    by (rule creates_finish [OF assms(1)], (rule table_rules [OF assms(1)])+)
      (simp_all add: building_start [OF assms] worker_assignment_writer_simps)
  then show ?thesis by simp
qed

lemma worker_assignment_stays [simp]: "stays worker_assignment_fields"
  unfolding stays_def worker_assignment_fields_def
  by (intro allI impI, elim conjE, intro conjI)
    (assumption | (erule (1) holds_slot_stays holds_option_stays, simp))+

lemma worker_assignment_stored:
  assumes "write_laws fb opn objs" "opn b = None" "worker_assignment_fields (objs b)
      (worker_assignment_slots args) c"
  shows "stores opn objs (rep worker_assignment_fields) c b (worker_assignment_create fb args b)"
  by (rule creates_rep [OF worker_assignment_creates [OF assms(1,2)] worker_assignment_stays
      assms(3)])
    (use assms(3) in \<open>auto simp: worker_assignment_fields_def holds_slot_def\<close>)

lemma worker_assignment_read_rep:
  assumes "read_laws fb fobjs" "rep worker_assignment_fields (fobjs f) off c"
  shows "worker_assignment_read fb f off = Return c"
proof -
  from assms(2) obtain t where t: "fobjs f off = Some (Table t)" and h: "worker_assignment_fields
      (fobjs f) t c"
    by (auto simp: rep_def)
  from h have datasets: "holds_slot (denotes_each (rep worker_dataset_fields)) (fobjs f) t 4
      (wa_datasets c)"
    by (simp add: worker_assignment_fields_def)
  from h have workers: "holds_slot (denotes_each (rep worker_entry_fields)) (fobjs f) t 6
      (wa_workers c)"
    by (simp add: worker_assignment_fields_def)
  from h have schemas: "holds_slot (denotes_each (rep table_roster_fields)) (fobjs f) t 8
      (wa_schemas c)"
    by (simp add: worker_assignment_fields_def)
  note tabs = read_tables [OF assms(1) t]
  show ?thesis
    by (simp add: worker_assignment_read_def tabs(1) [OF worker_dataset_read_rep [OF assms(1)]
        datasets] tabs(1) [OF worker_entry_read_rep [OF assms(1)] workers] tabs(1) [OF
        table_roster_read_rep [OF assms(1)] schemas])
qed

lemma keeps_worker_assignment_verify [simp]: "keep_laws fv ly \<Longrightarrow> keeps ly
    (worker_assignment_verify fv)"
  unfolding worker_assignment_verify_def by (rule keeps_verify_table) (simp_all add: keep_rules)

lemma worker_assignment_verified_reads:
  assumes "verify_laws fb fv ly" "verified ly (worker_assignment_verify fv) f off"
  shows "\<exists>c. worker_assignment_read fb f off = Return c"
proof -
  note kl = verify_lawsD(1) [OF assms(1)]
  have ok: "field_ok ly f off (fv_forward fv (fv_vector fv (fv_forward fv (worker_dataset_verify
      fv)))) 4 True"
    "field_ok ly f off (fv_forward fv (fv_vector fv (fv_forward fv (worker_entry_verify fv)))) 6
        True"
    "field_ok ly f off (fv_forward fv (fv_vector fv (fv_forward fv (table_roster_verify fv)))) 8
        True"
    using verified_fields [OF assms(1) _ assms(2) [unfolded worker_assignment_verify_def]]
    by (simp_all add: keep_rules [OF kl] kl)
  show ?thesis unfolding worker_assignment_read_def
    by (rule bind_total found [OF assms(1)] ok | assumption | rule found_nested [OF assms(1)
        keeps_worker_dataset_verify [OF kl] worker_dataset_verified_reads [OF assms(1)]] |
      rule found_nested [OF assms(1) keeps_worker_entry_verify [OF kl] worker_entry_verified_reads
          [OF assms(1)]] |
      rule found_nested [OF assms(1) keeps_table_roster_verify [OF kl] table_roster_verified_reads
          [OF assms(1)]] |
      (rule exI, rule refl))+
qed

end
