(* ===== verification/Flat_Store.thy ===== *)
theory Flat_Store
  imports Flat_Tables
begin

text \<open>
  Writing a record is a sequence of calls that put strings, vectors and tables into the buffer, each
  keeping the offsets of earlier ones. The rules of this theory walk through such a sequence: \<open>known\<close>
  collects what the buffer holds so far, in a form that later calls cannot invalidate, and every rule
  takes one call and adds its object to it.
\<close>

section \<open>What the buffer is known to hold\<close>

definition known :: "('b \<Rightarrow> 'o \<rightharpoonup> 'o stored) \<Rightarrow> 'b \<Rightarrow> (('o \<rightharpoonup> 'o stored) \<Rightarrow> bool) list \<Rightarrow> bool" where
  "known objs b ps = (\<forall>p \<in> set ps. \<forall>G. objs b \<subseteq>\<^sub>m G \<longrightarrow> p G)"

lemma known_Nil: "known objs b []"
  by (simp add: known_def)

lemma known_later: "known objs b ps \<Longrightarrow> later opn objs b b' \<Longrightarrow> known objs b' ps"
  unfolding known_def later_def by (meson map_le_trans)

lemma known_Cons:
  "known objs b (p # ps) \<Longrightarrow> p (objs b) \<and> known objs b ps"
  by (auto simp: known_def)

lemma known_add:
  assumes "known objs b ps" "later opn objs b b'" "stays P" "P (objs b') v x"
  shows "known objs b' ((\<lambda>F. P F v x) # ps)"
proof -
  have "P G v x" if "objs b' \<subseteq>\<^sub>m G" for G
    by (rule staysD [where P = P, OF assms(3) that assms(4)])
  with known_later [OF assms(1,2)] show ?thesis by (simp add: known_def)
qed

text \<open>A sequence that started at \<open>b\<^sub>0\<close> has reached \<open>b\<close>, with no table left open.\<close>

definition progress ::
  "('b \<Rightarrow> 'o slots option) \<Rightarrow> ('b \<Rightarrow> 'o \<rightharpoonup> 'o stored) \<Rightarrow> 'b \<Rightarrow> 'b \<Rightarrow>
    (('o \<rightharpoonup> 'o stored) \<Rightarrow> bool) list \<Rightarrow> bool"
where
  "progress opn objs b\<^sub>0 b ps = (later opn objs b\<^sub>0 b \<and> known objs b ps)"

lemma progress_start: "opn b = None \<Longrightarrow> progress opn objs b b []"
  by (simp add: progress_def known_Nil)

lemma progress_closed: "progress opn objs b\<^sub>0 b ps \<Longrightarrow> opn b = None"
  by (simp add: progress_def later_def)

lemma progress_add:
  assumes "progress opn objs b\<^sub>0 b ps" "later opn objs b b'" "stays P" "P (objs b') v x"
  shows "progress opn objs b\<^sub>0 b' ((\<lambda>F. P F v x) # ps)"
  using assms known_add [OF _ assms(2-4)] by (auto simp: progress_def intro: later_trans)

section \<open>Single calls\<close>

text \<open>An optional vector is created only when it is there.\<close>

definition create_vector_opt ::
  "('b, 'o, 'f) flatbuffers \<Rightarrow> ('x \<Rightarrow> 'o vec) \<Rightarrow> 'x option \<Rightarrow> 'b \<Rightarrow> 'o option \<times> 'b"
where
  "create_vector_opt fb con x b =
    (case x of
       None \<Rightarrow> (None, b)
     | Some v \<Rightarrow> map_prod Some id (fb_create_vector fb (con v) b))"

definition create_string_opt ::
  "('b, 'o, 'f) flatbuffers \<Rightarrow> string option \<Rightarrow> 'b \<Rightarrow> 'o option \<times> 'b"
where
  "create_string_opt fb x b =
    (case x of
       None \<Rightarrow> (None, b)
     | Some v \<Rightarrow> map_prod Some id (fb_create_string fb v b))"

fun option_at :: "('x \<Rightarrow> 'o stored) \<Rightarrow> ('o \<rightharpoonup> 'o stored) \<Rightarrow> 'o option \<Rightarrow> 'x option \<Rightarrow> bool" where
  "option_at con F None x = (x = None)"
| "option_at con F (Some off) x = (\<exists>v. x = Some v \<and> F off = Some (con v))"

definition object_at :: "('x \<Rightarrow> 'o stored) \<Rightarrow> ('o \<rightharpoonup> 'o stored) \<Rightarrow> 'o \<Rightarrow> 'x \<Rightarrow> bool" where
  "object_at con F off x = (F off = Some (con x))"

lemma stays_object_at [simp]: "stays (object_at con)"
  by (auto simp: stays_def object_at_def dest: map_leD)

lemma stays_option_at [simp]: "stays (option_at con)"
  unfolding stays_def by (intro allI impI) (auto elim!: option_at.elims dest: map_leD)

lemma call_step:
  assumes "progress opn objs b\<^sub>0 b ps" "later opn objs b (snd r)" "stays P" "P (objs (snd r)) (fst r) x"
    and "\<And>off b'. progress opn objs b\<^sub>0 b' ((\<lambda>F. P F off x) # ps) \<Longrightarrow> stores opn objs R c b\<^sub>0 (k off b')"
  shows "stores opn objs R c b\<^sub>0 (case r of (off, b') \<Rightarrow> k off b')"
  using assms(5) [OF progress_add [OF assms(1-4)]] by (simp add: case_prod_unfold)

lemma adds_objectD:
  "adds_object opn objs (con x) b r \<Longrightarrow> later opn objs b (snd r) \<and> object_at con (objs (snd r)) (fst r) x"
  by (simp add: adds_object_def object_at_def)

lemma create_opt:
  assumes "opn b = None" "\<And>v. adds_object opn objs (con v) b (g v)"
    and "r = (case x of None \<Rightarrow> (None, b) | Some v \<Rightarrow> map_prod Some id (g v))"
  shows "later opn objs b (snd r) \<and> option_at con (objs (snd r)) (fst r) x"
  using assms by (cases x) (auto simp: adds_object_def)

lemma call_steps:
  assumes "write_laws fb opn objs" "progress opn objs b\<^sub>0 b ps"
  shows "(\<And>off b'. progress opn objs b\<^sub>0 b' ((\<lambda>F. object_at Vec F off v) # ps) \<Longrightarrow> stores opn objs R c b\<^sub>0 (k off b')) \<Longrightarrow>
      stores opn objs R c b\<^sub>0 (case fb_create_vector fb v b of (off, b') \<Rightarrow> k off b')"
    and "(\<And>off b'. progress opn objs b\<^sub>0 b' ((\<lambda>F. object_at Str F off s) # ps) \<Longrightarrow> stores opn objs R c b\<^sub>0 (k off b')) \<Longrightarrow>
      stores opn objs R c b\<^sub>0 (case fb_create_string fb s b of (off, b') \<Rightarrow> k off b')"
    and "(\<And>off b'. progress opn objs b\<^sub>0 b' ((\<lambda>F. object_at Str F off s) # ps) \<Longrightarrow> stores opn objs R c b\<^sub>0 (k off b')) \<Longrightarrow>
      stores opn objs R c b\<^sub>0 (case fb_create_shared_string fb s b of (off, b') \<Rightarrow> k off b')"
    and "(\<And>o' b'. progress opn objs b\<^sub>0 b' ((\<lambda>F. option_at (\<lambda>y. Vec (con y)) F o' x) # ps) \<Longrightarrow> stores opn objs R c b\<^sub>0 (k' o' b')) \<Longrightarrow>
      stores opn objs R c b\<^sub>0 (case create_vector_opt fb con x b of (o', b') \<Rightarrow> k' o' b')"
    and "(\<And>o' b'. progress opn objs b\<^sub>0 b' ((\<lambda>F. option_at Str F o' y) # ps) \<Longrightarrow> stores opn objs R c b\<^sub>0 (k' o' b')) \<Longrightarrow>
      stores opn objs R c b\<^sub>0 (case create_string_opt fb y b of (o', b') \<Rightarrow> k' o' b')"
proof -
  note closed = progress_closed [OF assms(2)] and w = write_lawsD [OF assms(1)]
  note v = adds_objectD [where con = Vec, OF w(8) [OF closed]]
    and s = adds_objectD [where con = Str, OF w(6) [OF closed]]
    and sh = adds_objectD [where con = Str, OF w(7) [OF closed]]
  note vo = create_opt [where con = "\<lambda>y. Vec (con y)", OF closed w(8) [OF closed] create_vector_opt_def]
  note so = create_opt [where con = Str, OF closed w(6) [OF closed] create_string_opt_def]
  show "(\<And>off b'. progress opn objs b\<^sub>0 b' ((\<lambda>F. object_at Vec F off v) # ps) \<Longrightarrow> stores opn objs R c b\<^sub>0 (k off b')) \<Longrightarrow>
      stores opn objs R c b\<^sub>0 (case fb_create_vector fb v b of (off, b') \<Rightarrow> k off b')"
    by (rule call_step [OF assms(2) v [THEN conjunct1] stays_object_at v [THEN conjunct2]])
  show "(\<And>off b'. progress opn objs b\<^sub>0 b' ((\<lambda>F. object_at Str F off s) # ps) \<Longrightarrow> stores opn objs R c b\<^sub>0 (k off b')) \<Longrightarrow>
      stores opn objs R c b\<^sub>0 (case fb_create_string fb s b of (off, b') \<Rightarrow> k off b')"
    by (rule call_step [OF assms(2) s [THEN conjunct1] stays_object_at s [THEN conjunct2]])
  show "(\<And>off b'. progress opn objs b\<^sub>0 b' ((\<lambda>F. object_at Str F off s) # ps) \<Longrightarrow> stores opn objs R c b\<^sub>0 (k off b')) \<Longrightarrow>
      stores opn objs R c b\<^sub>0 (case fb_create_shared_string fb s b of (off, b') \<Rightarrow> k off b')"
    by (rule call_step [OF assms(2) sh [THEN conjunct1] stays_object_at sh [THEN conjunct2]])
  show "(\<And>o' b'. progress opn objs b\<^sub>0 b' ((\<lambda>F. option_at (\<lambda>y. Vec (con y)) F o' x) # ps) \<Longrightarrow> stores opn objs R c b\<^sub>0 (k' o' b')) \<Longrightarrow>
      stores opn objs R c b\<^sub>0 (case create_vector_opt fb con x b of (o', b') \<Rightarrow> k' o' b')"
    by (rule call_step [OF assms(2) vo [THEN conjunct1] stays_option_at vo [THEN conjunct2]])
  show "(\<And>o' b'. progress opn objs b\<^sub>0 b' ((\<lambda>F. option_at Str F o' y) # ps) \<Longrightarrow> stores opn objs R c b\<^sub>0 (k' o' b')) \<Longrightarrow>
      stores opn objs R c b\<^sub>0 (case create_string_opt fb y b of (o', b') \<Rightarrow> k' o' b')"
    by (rule call_step [OF assms(2) so [THEN conjunct1] stays_option_at so [THEN conjunct2]])
qed

section \<open>Nested writes\<close>

lemma bind_step:
  assumes "progress opn objs b\<^sub>0 b ps" "stays P"
    and "opn b = None \<Longrightarrow> known objs b ps \<Longrightarrow> stores opn objs P x b m"
    and "\<And>off b'. progress opn objs b\<^sub>0 b' ((\<lambda>F. P F off x) # ps) \<Longrightarrow> stores opn objs R c b\<^sub>0 (k off b')"
  shows "stores opn objs R c b\<^sub>0 (outcome_bind m (\<lambda>(off, b'). k off b'))"
proof -
  have "stores opn objs P x b m"
    using assms(1,3) by (simp add: progress_def later_def)
  then obtain off b' where m: "m = Return (off, b')" and l: "later opn objs b b'"
    and p: "P (objs b') off x"
    by (auto simp: stores_def)
  from assms(4) [OF progress_add [OF assms(1) l assms(2) p]] m show ?thesis by simp
qed

lemma stores_last:
  assumes "progress opn objs b\<^sub>0 b ps" "opn b = None \<Longrightarrow> known objs b ps \<Longrightarrow> stores opn objs R c b m"
  shows "stores opn objs R c b\<^sub>0 m"
proof -
  from assms(1) have l: "later opn objs b\<^sub>0 b" and k: "known objs b ps"
    by (simp_all add: progress_def)
  from assms(2) [OF later_closed [OF l] k] show ?thesis
    by (auto simp: stores_def intro: later_trans [OF l])
qed

fun store_list :: "('x \<Rightarrow> 'b \<Rightarrow> ('y \<times> 'b) outcome) \<Rightarrow> 'x list \<Rightarrow> 'b \<Rightarrow> ('y list \<times> 'b) outcome" where
  "store_list st [] b = Return ([], b)"
| "store_list st (x # xs) b =
    outcome_bind (st x b) (\<lambda>(off, b). outcome_map (map_prod (\<lambda>offs. off # offs) id) (store_list st xs b))"

lemma stays_list [simp]: "stays R \<Longrightarrow> stays (\<lambda>F. list_all2 (R F))"
  unfolding stays_def by (meson list_all2_mono)

lemma store_list_stores:
  assumes "\<And>x b. opn b = None \<Longrightarrow> stores opn objs R x b (st x b)" "stays R" "opn b = None"
  shows "stores opn objs (\<lambda>F. list_all2 (R F)) xs b (store_list st xs b)"
  using assms(3)
proof (induction xs arbitrary: b)
  case (Cons x xs)
  from assms(1) [OF Cons.prems, of x] obtain off b' where st: "st x b = Return (off, b')"
    and l: "later opn objs b b'" and off: "R (objs b') off x"
    by (auto simp: stores_def)
  from Cons.IH [OF later_closed [OF l]] obtain offs b'' where
    sts: "store_list st xs b' = Return (offs, b'')" and l': "later opn objs b' b''"
    and offs: "list_all2 (R (objs b'')) offs xs"
    by (auto simp: stores_def)
  have "R (objs b'') off x"
    by (rule staysD [where P = R, OF assms(2) _ off]) (use l' in \<open>simp add: later_def\<close>)
  with st sts offs later_trans [OF l l'] show ?case by (simp add: stores_def)
qed (simp add: stores_def)

fun option_each ::
  "(('o \<rightharpoonup> 'o stored) \<Rightarrow> 'o \<Rightarrow> 'x \<Rightarrow> bool) \<Rightarrow> ('o \<rightharpoonup> 'o stored) \<Rightarrow> 'o option \<Rightarrow> 'x list option \<Rightarrow> bool"
where
  "option_each R F None xs = (xs = None)"
| "option_each R F (Some off) xs = (\<exists>ys. xs = Some ys \<and> denotes_each R F (SlotOffset off) ys)"

lemma stays_option_each [simp]:
  assumes "stays R"
  shows "stays (option_each R)"
  unfolding stays_def
proof (intro allI impI)
  fix F G :: "'a \<rightharpoonup> 'a stored" and oo xs
  assume le: "F \<subseteq>\<^sub>m G" and h: "option_each R F oo xs"
  show "option_each R G oo xs"
    using h staysD [OF stays_each [OF assms] le] by (cases oo) (auto simp del: denotes_each.simps)
qed

section \<open>From offsets to slots\<close>

lemma holds_of_known:
  "t s = map_option SlotOffset o' \<Longrightarrow> option_at (\<lambda>y. Vec (con y)) F o' x \<Longrightarrow>
    holds_option (denotes_vec con) F t s x"
  "t s = map_option SlotOffset o' \<Longrightarrow> option_at Str F o' y \<Longrightarrow> holds_option denotes_str F t s y"
  "t s = map_option SlotOffset o' \<Longrightarrow> option_each R F o' xs \<Longrightarrow>
    holds_option (denotes_each R) F t s xs"
  by (cases o'; auto simp: holds_option_def holds_slot_def)+

lemma holds_object:
  "t s = Some (SlotOffset off) \<Longrightarrow> object_at Vec F off (con x) \<Longrightarrow> holds_slot (denotes_vec con) F t s x"
  "t s = Some (SlotOffset off) \<Longrightarrow> object_at Str F off y \<Longrightarrow> holds_slot denotes_str F t s y"
  "t s = Some (SlotOffset off) \<Longrightarrow> object_at Vec F off (VecOffset offs) \<Longrightarrow>
    list_all2 (R F) offs xs \<Longrightarrow> holds_slot (denotes_each R) F t s xs"
  by (auto simp: holds_slot_def object_at_def)

lemmas stored_fields = holds_scalar_def holds_object holds_of_known

lemma list_all2_later:
  "later opn objs b b' \<Longrightarrow> stays R \<Longrightarrow> list_all2 (R (objs b)) offs xs \<Longrightarrow> list_all2 (R (objs b')) offs xs"
  by (rule staysD [OF stays_list]) (auto simp: later_def)

section \<open>The finished buffer\<close>

lemma blob_reads:
  assumes "flat_laws fb opn objs fobjs" "stores opn objs (rep flds) c b m" "stays flds"
    and "\<And>f off. read_laws fb fobjs \<Longrightarrow> rep flds (fobjs f) off c \<Longrightarrow> rd f off = Return c"
  shows "\<exists>f. outcome_map (\<lambda>(root, b). fb_finish fb root b) m = Return f \<and>
    rd f (fb_root_unchecked fb f) = Return c"
proof -
  from assms(2) obtain root b' where m: "m = Return (root, b')" and l: "later opn objs b b'"
    and r: "rep flds (objs b') root c"
    by (auto simp: stores_def)
  let ?f = "fb_finish fb root b'"
  from assms(1) later_closed [OF l] have fin: "objs b' \<subseteq>\<^sub>m fobjs ?f" "fb_root_unchecked fb ?f = root"
    and rl: "read_laws fb fobjs"
    by (auto simp: flat_laws_def finish_laws_def)
  have "rep flds (fobjs ?f) root c"
    by (rule staysD [where P = "rep flds", OF _ fin(1) r]) (simp add: assms(3))
  from assms(4) [OF rl this] fin(2) m show ?thesis by simp
qed

end
