(* ===== verification/Stored_Worker.thy ===== *)
theory Stored_Worker
  imports Gen_Worker Flat_Store Worker_Builder
begin

text \<open>
  How \<^verbatim>\<open>WorkerAssignmentBuilder\<close> writes its tables. \<^theory_text>\<open>Worker_Builder\<close> keeps the tables themselves
  in its lists; the code keeps their offsets, and puts each table into the buffer as it goes. Here are
  the writes of the same functions: the strings and vectors each one creates, in its order, and the
  arguments it passes to the generated \<^verbatim>\<open>create\<close>. Offsets are shared where the code shares them: the
  key every worker's headers name is written with the first headers only.

  The result is that reading the finished buffer through the generated accessors gives the record
  that \<^theory_text>\<open>worker_builder_finish\<close> denotes, in whatever order datasets and workers were added. This is
  what allows the rest of the development to treat an assignment as a record.
\<close>

section \<open>A dataset\<close>

definition store_generation ::
  "('b, 'o, 'f) flatbuffers \<Rightarrow> generation_entry \<Rightarrow> 'b \<Rightarrow> ('o \<times> 'b) outcome" where
  "store_generation fb g b =
    (case fb_create_shared_string fb (ge_base_url g) b of (base_url, b) \<Rightarrow>
     generation_entry_create fb \<lparr>gea_version = ge_version g, gea_base_url = Some base_url\<rparr> b)"

text \<open>\<^verbatim>\<open>create_generations\<close>: nothing is stored for a dataset that registered none.\<close>

fun store_generations ::
  "('b, 'o, 'f) flatbuffers \<Rightarrow> generation_entry list option \<Rightarrow> 'b \<Rightarrow> ('o option \<times> 'b) outcome" where
  "store_generations fb None b = Return (None, b)"
| "store_generations fb (Some gs) b =
    outcome_bind (store_list (store_generation fb) gs b) (\<lambda>(offsets, b).
     case fb_create_vector fb (VecOffset offsets) b of (off, b) \<Rightarrow> Return (Some off, b))"

text \<open>\<^verbatim>\<open>new_dataset\<close> writes the two strings, \<^verbatim>\<open>emit_dataset\<close> the columns and the table.\<close>

definition store_worker_dataset ::
  "('b, 'o, 'f) flatbuffers \<Rightarrow> worker_dataset \<Rightarrow> 'b \<Rightarrow> ('o \<times> 'b) outcome" where
  "store_worker_dataset fb d b =
    (case fb_create_shared_string fb (wd_id d) b of (id', b) \<Rightarrow>
     case fb_create_shared_string fb (wd_base_url d) b of (base_url, b) \<Rightarrow>
     outcome_bind (store_generations fb (wd_generations d) b) (\<lambda>(generations, b).
     case fb_create_vector fb (VecU64 (wd_first_blocks d)) b of (first_blocks, b) \<Rightarrow>
     case fb_create_vector fb (VecU32 (wd_block_deltas d)) b of (block_deltas, b) \<Rightarrow>
     case fb_create_vector fb (VecStruct (wd_hashes d)) b of (hashes, b) \<Rightarrow>
     case fb_create_vector fb (VecStruct (map top_run_struct (wd_tops d))) b of (tops, b) \<Rightarrow>
     case fb_create_vector fb (VecU32 (wd_sizes d)) b of (sizes, b) \<Rightarrow>
     case fb_create_vector fb (VecU32 (wd_write_schema_ids d)) b of (write_schema_ids, b) \<Rightarrow>
     case create_vector_opt fb VecU32 (wd_tables_present_offsets d) b of (present_offsets, b) \<Rightarrow>
     case create_vector_opt fb VecU8 (wd_tables_present d) b of (present, b) \<Rightarrow>
     case create_vector_opt fb VecU32 (wd_versions d) b of (versions, b) \<Rightarrow>
     case fb_create_vector fb (VecU32 (wd_worker_offsets d)) b of (worker_offsets, b) \<Rightarrow>
     case fb_create_vector fb (VecU16 (wd_worker_indexes d)) b of (worker_indexes, b) \<Rightarrow>
     worker_dataset_create fb
       \<lparr>wda_id = Some id', wda_last_block = wd_last_block d, wda_base_url = Some base_url,
        wda_generations = generations, wda_first_blocks = Some first_blocks,
        wda_block_deltas = Some block_deltas, wda_hashes = Some hashes, wda_tops = Some tops,
        wda_sizes = Some sizes, wda_write_schema_ids = Some write_schema_ids,
        wda_tables_present_offsets = present_offsets, wda_tables_present = present,
        wda_versions = versions, wda_worker_offsets = Some worker_offsets,
        wda_worker_indexes = Some worker_indexes\<rparr> b))"

section \<open>A worker\<close>

text \<open>
  \<^verbatim>\<open>generate_encrypted_headers\<close> writes what the encryption gave, then the common public key unless an
  earlier worker wrote it; the third value is the key's offset to keep.
\<close>

definition store_identity ::
  "('b, 'o, 'f) flatbuffers \<Rightarrow> u8 list \<Rightarrow> 'o option \<Rightarrow> 'b \<Rightarrow> 'o \<times> 'b" where
  "store_identity fb public_key common_identity b =
    (case common_identity of
       Some identity \<Rightarrow> (identity, b)
     | None \<Rightarrow> fb_create_vector fb (VecU8 public_key) b)"

definition store_headers ::
  "('b, 'o, 'f) flatbuffers \<Rightarrow> u8 list \<Rightarrow> 'o option \<Rightarrow> u8 list \<Rightarrow> u8 list \<Rightarrow> 'b \<Rightarrow>
    (('o \<times> 'o) \<times> 'b) outcome"
where
  "store_headers fb public_key common_identity ciphertext nonce b =
    (case fb_create_vector fb (VecU8 ciphertext) b of (ciphertext_offset, b) \<Rightarrow>
     case fb_create_vector fb (VecU8 nonce) b of (nonce_offset, b) \<Rightarrow>
     case store_identity fb public_key common_identity b of (identity, b) \<Rightarrow>
     outcome_bind
       (encrypted_headers_create fb
         \<lparr>eha_identity = Some identity, eha_nonce = Some nonce_offset,
          eha_ciphertext = Some ciphertext_offset\<rparr> b)
       (\<lambda>(headers, b). Return ((headers, identity), b)))"

definition store_sealed_headers ::
  "('b, 'o, 'f) flatbuffers \<Rightarrow> encrypted_headers \<Rightarrow> 'b \<Rightarrow> ('o \<times> 'b) outcome" where
  "store_sealed_headers fb h b =
    (case fb_create_vector fb (VecU8 (eh_identity h)) b of (identity, b) \<Rightarrow>
     case fb_create_vector fb (VecU8 (eh_nonce h)) b of (nonce, b) \<Rightarrow>
     case fb_create_vector fb (VecU8 (eh_ciphertext h)) b of (ciphertext, b) \<Rightarrow>
     encrypted_headers_create fb
       \<lparr>eha_identity = Some identity, eha_nonce = Some nonce, eha_ciphertext = Some ciphertext\<rparr> b)"

section \<open>The builder's lists of offsets\<close>

record ('b, 'o) worker_store =
  ws_builder :: 'b
  ws_all_datasets :: "'o list"
  ws_worker_entries :: "(u8 list \<times> 'o) list"
  ws_common_identity :: "'o option"

definition worker_store_new :: "'b \<Rightarrow> ('b, 'o) worker_store" where
  "worker_store_new b =
    \<lparr>ws_builder = b, ws_all_datasets = [], ws_worker_entries = [], ws_common_identity = None\<rparr>"

text \<open>What is put into the assignment: a dataset, a dataset that was opened and then dropped or rejected
  (its two strings stay in the buffer), a worker whose headers the builder may have encrypted
  (ciphertext and nonce), or a worker with sealed headers.\<close>

datatype worker_put =
    PutDataset worker_dataset
  | PutNothing string string
  | PutWorker "u8 list" u8 "(u8 list \<times> u8 list) option"
  | PutSealed "u8 list" u8 encrypted_headers

definition store_entry ::
  "('b, 'o, 'f) flatbuffers \<Rightarrow> u8 list \<Rightarrow> u8 \<Rightarrow> 'o option \<Rightarrow> 'o option \<Rightarrow> 'b \<Rightarrow>
    ('b, 'o) worker_store \<Rightarrow> ('b, 'o) worker_store outcome"
where
  "store_entry fb worker_id status headers common_identity b st =
    outcome_map
      (\<lambda>(off, b). st\<lparr>ws_builder := b, ws_worker_entries := ws_worker_entries st @ [(worker_id, off)],
         ws_common_identity := common_identity\<rparr>)
      (worker_entry_create fb
        \<lparr>wea_worker_id = Some worker_id, wea_status = status, wea_encrypted_headers = headers\<rparr> b)"

fun worker_store_put ::
  "('b, 'o, 'f) flatbuffers \<Rightarrow> u8 list \<Rightarrow> worker_put \<Rightarrow> ('b, 'o) worker_store \<Rightarrow>
    ('b, 'o) worker_store outcome"
where
  "worker_store_put fb public_key (PutDataset d) st =
    outcome_map (\<lambda>(off, b). st\<lparr>ws_builder := b, ws_all_datasets := ws_all_datasets st @ [off]\<rparr>)
      (store_worker_dataset fb d (ws_builder st))"
| "worker_store_put fb public_key (PutNothing id' base_url) st =
    (case fb_create_shared_string fb id' (ws_builder st) of (_, b) \<Rightarrow>
     case fb_create_shared_string fb base_url b of (_, b) \<Rightarrow> Return (st\<lparr>ws_builder := b\<rparr>))"
| "worker_store_put fb public_key (PutWorker worker_id status None) st =
    store_entry fb worker_id status None (ws_common_identity st) (ws_builder st) st"
| "worker_store_put fb public_key (PutWorker worker_id status (Some (ciphertext, nonce))) st =
    outcome_bind
      (store_headers fb public_key (ws_common_identity st) ciphertext nonce (ws_builder st))
      (\<lambda>((headers, identity), b).
        store_entry fb worker_id status (Some headers) (Some identity) b st)"
| "worker_store_put fb public_key (PutSealed worker_id status h) st =
    outcome_bind (store_sealed_headers fb h (ws_builder st))
      (\<lambda>(headers, b). store_entry fb worker_id status (Some headers) (ws_common_identity st) b st)"

fun worker_put_all ::
  "('b, 'o, 'f) flatbuffers \<Rightarrow> u8 list \<Rightarrow> worker_put list \<Rightarrow> ('b, 'o) worker_store \<Rightarrow>
    ('b, 'o) worker_store outcome"
where
  "worker_put_all fb public_key [] st = Return st"
| "worker_put_all fb public_key (p # ps) st =
    outcome_bind (worker_store_put fb public_key p st) (worker_put_all fb public_key ps)"

section \<open>Finishing\<close>

definition store_roster ::
  "('b, 'o, 'f) flatbuffers \<Rightarrow> table_roster \<Rightarrow> 'b \<Rightarrow> ('o \<times> 'b) outcome" where
  "store_roster fb r b =
    outcome_bind (store_list (\<lambda>t b. Return (fb_create_shared_string fb t b)) (ro_tables r) b)
      (\<lambda>(table_offsets, b).
     case fb_create_vector fb (VecOffset table_offsets) b of (tables, b) \<Rightarrow>
     table_roster_create fb \<lparr>roa_write_schema_id = ro_write_schema_id r, roa_tables = Some tables\<rparr> b)"

definition store_worker_root ::
  "('b, 'o, 'f) flatbuffers \<Rightarrow> table_roster list \<Rightarrow> 'o list \<Rightarrow> 'o list \<Rightarrow> 'b \<Rightarrow> ('o \<times> 'b) outcome" where
  "store_worker_root fb rosters all_datasets entries b =
    outcome_bind (store_list (store_roster fb) rosters b) (\<lambda>(offsets, b).
     case fb_create_vector fb (VecOffset offsets) b of (schemas, b) \<Rightarrow>
     case fb_create_vector fb (VecOffset all_datasets) b of (datasets, b) \<Rightarrow>
     case fb_create_vector fb (VecOffset entries) b of (workers, b) \<Rightarrow>
     worker_assignment_create fb
       \<lparr>waa_datasets = Some datasets, waa_workers = Some workers, waa_schemas = Some schemas\<rparr> b)"

definition worker_store_finish ::
  "('b, 'o, 'f) flatbuffers \<Rightarrow> table_roster list \<Rightarrow> ('b, 'o) worker_store \<Rightarrow> 'f outcome" where
  "worker_store_finish fb rosters st =
    outcome_map (\<lambda>(root, b). fb_finish fb root b)
      (store_worker_root fb rosters (ws_all_datasets st) (map snd (ws_worker_entries st)) (ws_builder st))"

section \<open>Every write stores its record\<close>

lemma store_generation_stores:
  assumes "write_laws fb opn objs" "opn b = None"
  shows "stores opn objs (rep generation_entry_fields) g b (store_generation fb g b)"
  unfolding store_generation_def
proof (rule call_steps [OF assms(1) progress_start [where opn = opn, OF assms(2)]])
  fix off b' assume "progress opn objs b b' [\<lambda>F. object_at Str F off (ge_base_url g)]"
  then show "stores opn objs (rep generation_entry_fields) g b
      (generation_entry_create fb \<lparr>gea_version = ge_version g, gea_base_url = Some off\<rparr> b')"
    by (rule stores_last, elim generation_entry_stored [OF assms(1)])
      (auto dest!: known_Cons simp: generation_entry_fields_def generation_entry_slots_def stored_fields)
qed

lemma store_generations_stores:
  assumes "write_laws fb opn objs" "opn b = None"
  shows "stores opn objs (option_each (rep generation_entry_fields)) gs b (store_generations fb gs b)"
proof (cases gs)
  case (Some xs)
  have start: "progress opn objs b b []" using assms(2) by (rule progress_start)
  show ?thesis
    unfolding Some store_generations.simps
    apply (rule bind_step [OF start _ store_list_stores [OF store_generation_stores [OF assms(1)]]])
        apply (assumption | simp)+
    apply (erule call_steps(1) [OF assms(1)])
    apply (erule stores_last)
    apply (auto dest!: known_Cons simp: stores_def object_at_def)
    done
qed (use assms(2) in \<open>simp add: stores_def\<close>)

lemma store_worker_dataset_stores:
  assumes "write_laws fb opn objs" "opn b = None"
  shows "stores opn objs (rep worker_dataset_fields) d b (store_worker_dataset fb d b)"
proof -
  have start: "progress opn objs b b []" using assms(2) by (rule progress_start)
  show ?thesis
    unfolding store_worker_dataset_def
    apply (rule call_steps(3) [OF assms(1) start])
    apply (erule call_steps(3) [OF assms(1)])
    apply (erule bind_step [OF _ _ store_generations_stores [OF assms(1)]], simp, assumption)
    apply (erule call_steps(1,4) [OF assms(1)])+
    apply (erule stores_last, erule worker_dataset_stored [OF assms(1)])
    apply (auto dest!: known_Cons simp: worker_dataset_fields_def worker_dataset_slots_def stored_fields)
    done
qed

text \<open>The headers' offset comes with that of the key, which later headers name again.\<close>

definition headers_at ::
  "u8 list \<Rightarrow> ('o \<rightharpoonup> 'o stored) \<Rightarrow> 'o \<times> 'o \<Rightarrow> encrypted_headers \<Rightarrow> bool" where
  "headers_at public_key F offs h =
    (rep encrypted_headers_fields F (fst offs) h \<and> object_at Vec F (snd offs) (VecU8 public_key))"

lemma stays_headers_at [simp]: "stays (headers_at public_key)"
  unfolding stays_def headers_at_def
  by (meson staysD [OF stays_rep [OF encrypted_headers_stays]] staysD [OF stays_object_at])

lemma store_headers_stores:
  assumes "write_laws fb opn objs" "opn b = None"
    and "\<forall>i. common_identity = Some i \<longrightarrow> objs b i = Some (Vec (VecU8 public_key))"
  shows "stores opn objs (headers_at public_key)
    \<lparr>eh_identity = public_key, eh_nonce = nonce, eh_ciphertext = ciphertext\<rparr> b
    (store_headers fb public_key common_identity ciphertext nonce b)"
proof -
  let ?h = "\<lparr>eh_identity = public_key, eh_nonce = nonce, eh_ciphertext = ciphertext\<rparr>"
  have start: "progress opn objs b b []" using assms(2) by (rule progress_start)
  have identity: "later opn objs c (snd (store_identity fb public_key common_identity c)) \<and>
      object_at Vec (objs (snd (store_identity fb public_key common_identity c)))
        (fst (store_identity fb public_key common_identity c)) (VecU8 public_key)"
    if "progress opn objs b c ps" for c ps
    using that assms(3) write_lawsD(8) [OF assms(1) progress_closed [OF that], of "VecU8 public_key"]
    by (cases common_identity)
      (auto simp: store_identity_def adds_object_def object_at_def progress_def later_closed
        intro: later_objs)
  have identity_step: "stores opn objs R x b
      (case store_identity fb public_key common_identity c of (i, b') \<Rightarrow> k i b')"
    if p: "progress opn objs b c ps"
      and k: "\<And>i b'. progress opn objs b b' ((\<lambda>F. object_at Vec F i (VecU8 public_key)) # ps) \<Longrightarrow>
        stores opn objs R x b (k i b')"
    for c ps k and R :: "_ \<Rightarrow> 'b \<times> 'b \<Rightarrow> encrypted_headers \<Rightarrow> bool" and x
    by (rule call_step [OF p identity [OF p, THEN conjunct1] stays_object_at
          identity [OF p, THEN conjunct2] k])
  show ?thesis
    unfolding store_headers_def
    apply (rule call_steps(1) [OF assms(1) start])
    apply (erule call_steps(1) [OF assms(1)])
    apply (erule identity_step)
    apply (erule bind_step [OF _ _ encrypted_headers_stored [OF assms(1), where c = ?h]], simp, assumption)
     apply (auto dest!: known_Cons simp: encrypted_headers_fields_def encrypted_headers_slots_def
        stored_fields)[1]
    apply (erule stores_last)
    apply (auto dest!: known_Cons simp: stores_def headers_at_def)
    done
qed

lemma store_sealed_headers_stores:
  assumes "write_laws fb opn objs" "opn b = None"
  shows "stores opn objs (rep encrypted_headers_fields) h b (store_sealed_headers fb h b)"
proof -
  have start: "progress opn objs b b []" using assms(2) by (rule progress_start)
  show ?thesis
    unfolding store_sealed_headers_def
    apply (rule call_steps(1) [OF assms(1) start])
    apply (erule call_steps(1) [OF assms(1)])+
    apply (erule stores_last, erule encrypted_headers_stored [OF assms(1)])
    apply (auto dest!: known_Cons simp: encrypted_headers_fields_def encrypted_headers_slots_def
        stored_fields)
    done
qed

lemma store_roster_stores:
  assumes "write_laws fb opn objs" "opn b = None"
  shows "stores opn objs (rep table_roster_fields) r b (store_roster fb r b)"
proof -
  have start: "progress opn objs b b []" using assms(2) by (rule progress_start)
  have str: "stores opn objs (object_at Str) t c (Return (fb_create_shared_string fb t c))"
    if "opn c = None" for t c
    using adds_objectD [where con = Str, OF write_lawsD(7) [OF assms(1) that], of t]
    by (auto simp: stores_def prod_eq_iff)
  show ?thesis
    unfolding store_roster_def
    apply (rule bind_step [OF start _ store_list_stores [OF str]])
        apply (assumption | simp)+
    apply (erule call_steps(1) [OF assms(1)])
    apply (erule stores_last, erule table_roster_stored [OF assms(1)])
    apply (auto dest!: known_Cons simp: table_roster_fields_def table_roster_slots_def stored_fields
        holds_object(3) [where R = "\<lambda>F off x. F off = Some (Str x)"] object_at_def [abs_def])
    done
qed

section \<open>What the builder's offsets denote\<close>

definition worker_stored ::
  "('b \<Rightarrow> 'o slots option) \<Rightarrow> ('b \<Rightarrow> 'o \<rightharpoonup> 'o stored) \<Rightarrow> u8 list \<Rightarrow> ('b, 'o) worker_store \<Rightarrow>
    worker_dataset list \<Rightarrow> worker_entry list \<Rightarrow> bool"
where
  "worker_stored opn objs public_key st ds es =
    (opn (ws_builder st) = None \<and>
     list_all2 (rep worker_dataset_fields (objs (ws_builder st))) (ws_all_datasets st) ds \<and>
     list_all2 (rep worker_entry_fields (objs (ws_builder st))) (map snd (ws_worker_entries st)) es \<and>
     (\<forall>i. ws_common_identity st = Some i \<longrightarrow>
        objs (ws_builder st) i = Some (Vec (VecU8 public_key))))"

fun put_datasets :: "worker_put \<Rightarrow> worker_dataset list" where
  "put_datasets (PutDataset d) = [d]"
| "put_datasets _ = []"

fun put_entries :: "u8 list \<Rightarrow> worker_put \<Rightarrow> worker_entry list" where
  "put_entries public_key (PutDataset d) = []"
| "put_entries public_key (PutNothing id' base_url) = []"
| "put_entries public_key (PutWorker worker_id status headers) =
    [\<lparr>we_worker_id = worker_id, we_status = status,
      we_encrypted_headers = map_option
        (\<lambda>(ciphertext, nonce). \<lparr>eh_identity = public_key, eh_nonce = nonce, eh_ciphertext = ciphertext\<rparr>)
        headers\<rparr>]"
| "put_entries public_key (PutSealed worker_id status h) =
    [\<lparr>we_worker_id = worker_id, we_status = status, we_encrypted_headers = Some h\<rparr>]"

lemma worker_stored_later:
  assumes "worker_stored opn objs public_key st ds es" "later opn objs (ws_builder st) b"
  shows "worker_stored opn objs public_key (st\<lparr>ws_builder := b\<rparr>) ds es"
proof -
  have "list_all2 (rep worker_dataset_fields (objs b)) (ws_all_datasets st) ds"
    by (rule list_all2_later [OF assms(2)]) (use assms(1) in \<open>simp_all add: worker_stored_def\<close>)
  moreover have "list_all2 (rep worker_entry_fields (objs b)) (map snd (ws_worker_entries st)) es"
    by (rule list_all2_later [OF assms(2)]) (use assms(1) in \<open>simp_all add: worker_stored_def\<close>)
  ultimately show ?thesis
    using assms later_objs [OF assms(2)] by (simp add: worker_stored_def later_closed)
qed

lemma worker_entry_stored_with:
  assumes "write_laws fb opn objs" "opn b = None"
    and headers: "rel_option (rep encrypted_headers_fields (objs b)) headers h"
  shows "stores opn objs (rep worker_entry_fields)
    \<lparr>we_worker_id = worker_id, we_status = status, we_encrypted_headers = h\<rparr> b
    (worker_entry_create fb
      \<lparr>wea_worker_id = Some worker_id, wea_status = status, wea_encrypted_headers = headers\<rparr> b)"
proof -
  let ?e = "\<lparr>we_worker_id = worker_id, we_status = status, we_encrypted_headers = h\<rparr>"
  let ?args = "\<lparr>wea_worker_id = Some worker_id, wea_status = status, wea_encrypted_headers = headers\<rparr>"
  have "worker_entry_fields (objs b) (worker_entry_slots ?args) ?e"
    using headers by (cases headers; cases h)
      (auto simp: worker_entry_fields_def worker_entry_slots_def holds_slot_def holds_scalar_def
        holds_option_def denotes_table_def)
  from worker_entry_stored [OF assms(1,2) this] show ?thesis .
qed

lemma store_entry_holds:
  assumes "write_laws fb opn objs" "worker_stored opn objs public_key st ds es"
    and "later opn objs (ws_builder st) b"
    and headers: "rel_option (rep encrypted_headers_fields (objs b)) headers h"
    and identity: "\<forall>i. common_identity = Some i \<longrightarrow> objs b i = Some (Vec (VecU8 public_key))"
  shows "\<exists>st'. store_entry fb worker_id status headers common_identity b st = Return st' \<and>
    worker_stored opn objs public_key st' ds
      (es @ [\<lparr>we_worker_id = worker_id, we_status = status, we_encrypted_headers = h\<rparr>])"
proof -
  let ?e = "\<lparr>we_worker_id = worker_id, we_status = status, we_encrypted_headers = h\<rparr>"
  let ?args = "\<lparr>wea_worker_id = Some worker_id, wea_status = status, wea_encrypted_headers = headers\<rparr>"
  from worker_entry_stored_with [OF assms(1) later_closed [OF assms(3)] headers, of worker_id status]
  obtain off b' where cr: "worker_entry_create fb ?args b = Return (off, b')"
    and l: "later opn objs b b'" and off: "rep worker_entry_fields (objs b') off ?e"
    by (auto simp: stores_def)
  from worker_stored_later [OF assms(2) later_trans [OF assms(3) l]] cr off identity later_objs [OF l]
  show ?thesis
    by (simp add: store_entry_def worker_stored_def list_all2_appendI)
qed

lemma worker_store_put_holds:
  assumes "write_laws fb opn objs" "worker_stored opn objs public_key st ds es"
  shows "\<exists>st'. worker_store_put fb public_key p st = Return st' \<and>
    worker_stored opn objs public_key st' (ds @ put_datasets p) (es @ put_entries public_key p)"
proof -
  let ?b = "ws_builder st"
  have closed: "opn ?b = None"
    and identity: "\<forall>i. ws_common_identity st = Some i \<longrightarrow> objs ?b i = Some (Vec (VecU8 public_key))"
    using assms(2) by (simp_all add: worker_stored_def)
  note entry = store_entry_holds [OF assms]
  show ?thesis
  proof (cases p)
    case (PutDataset d)
    from store_worker_dataset_stores [OF assms(1) closed, of d] obtain off b'
      where "store_worker_dataset fb d ?b = Return (off, b')" and l: "later opn objs ?b b'"
        and "rep worker_dataset_fields (objs b') off d"
      by (auto simp: stores_def)
    with worker_stored_later [OF assms(2) l] PutDataset show ?thesis
      by (simp add: worker_stored_def list_all2_appendI)
  next
    case (PutNothing x y)
    obtain i b1 where one: "fb_create_shared_string fb x ?b = (i, b1)" by (rule prod.exhaust)
    obtain j b2 where two: "fb_create_shared_string fb y b1 = (j, b2)" by (rule prod.exhaust)
    from write_lawsD(7) [OF assms(1) closed, of x] one have l: "later opn objs ?b b1"
      by (simp add: adds_object_def)
    from write_lawsD(7) [OF assms(1) later_closed [OF l], of y] two have "later opn objs b1 b2"
      by (simp add: adds_object_def)
    from worker_stored_later [OF assms(2) later_trans [OF l this]] one two PutNothing show ?thesis
      by simp
  next
    case (PutWorker i s headers)
    show ?thesis
    proof (cases headers)
      case None
      with entry [OF later_refl [where opn = opn, OF closed], of None None] identity PutWorker
      show ?thesis by simp
    next
      case (Some cn)
      let ?h = "\<lparr>eh_identity = public_key, eh_nonce = snd cn, eh_ciphertext = fst cn\<rparr>"
      from store_headers_stores [OF assms(1) closed identity, of "snd cn" "fst cn"] obtain offs b'
        where "store_headers fb public_key (ws_common_identity st) (fst cn) (snd cn) ?b = Return (offs, b')"
          and l: "later opn objs ?b b'" and "headers_at public_key (objs b') offs ?h"
        by (auto simp: stores_def)
      with entry [OF l, of "Some (fst offs)" "Some ?h" "Some (snd offs)"] PutWorker Some
      show ?thesis by (cases cn; cases offs) (simp add: headers_at_def object_at_def)
    qed
  next
    case (PutSealed i s h)
    from store_sealed_headers_stores [OF assms(1) closed, of h] obtain off b'
      where "store_sealed_headers fb h ?b = Return (off, b')" and l: "later opn objs ?b b'"
        and "rep encrypted_headers_fields (objs b') off h"
      by (auto simp: stores_def)
    with entry [OF l, of "Some off" "Some h"] identity later_objs [OF l] PutSealed show ?thesis by simp
  qed
qed

lemma worker_put_all_holds:
  assumes "write_laws fb opn objs" "worker_stored opn objs public_key st ds es"
  shows "\<exists>st'. worker_put_all fb public_key ps st = Return st' \<and>
    worker_stored opn objs public_key st' (ds @ concat (map put_datasets ps))
      (es @ concat (map (put_entries public_key) ps))"
  using assms(2)
proof (induction ps arbitrary: st ds es)
  case (Cons p ps)
  from worker_store_put_holds [OF assms(1) Cons.prems, of p] obtain st'
    where "worker_store_put fb public_key p st = Return st'"
      and "worker_stored opn objs public_key st' (ds @ put_datasets p) (es @ put_entries public_key p)"
    by blast
  with Cons.IH [of st'] show ?case by fastforce
qed simp

lemma store_worker_root_stores:
  assumes "write_laws fb opn objs" "worker_stored opn objs public_key st ds es"
  shows "stores opn objs (rep worker_assignment_fields)
    \<lparr>wa_datasets = ds, wa_workers = es, wa_schemas = rosters\<rparr> (ws_builder st)
    (store_worker_root fb rosters (ws_all_datasets st) (map snd (ws_worker_entries st)) (ws_builder st))"
proof -
  let ?b = "ws_builder st"
  note add = progress_add [OF _ later_refl stays_list [OF stays_rep]]
  have start: "progress opn objs ?b ?b
      [\<lambda>F. list_all2 (rep worker_dataset_fields F) (ws_all_datasets st) ds,
       \<lambda>F. list_all2 (rep worker_entry_fields F) (map snd (ws_worker_entries st)) es]"
    using assms(2) by (auto simp: worker_stored_def intro!: add progress_start)
  show ?thesis
    unfolding store_worker_root_def
    apply (rule bind_step [OF start _ store_list_stores [OF store_roster_stores [OF assms(1)]]])
        apply (assumption | simp)+
    apply (erule call_steps(1) [OF assms(1)])+
    apply (erule stores_last, erule worker_assignment_stored [OF assms(1)])
    apply (auto dest!: known_Cons simp: worker_assignment_fields_def worker_assignment_slots_def stored_fields)
    done
qed

lemma worker_blob_reads:
  assumes "flat_laws fb opn objs fobjs" "opn b = None"
    and "concat (map put_datasets ps) = wb_all_datasets w"
    and "concat (map (put_entries public_key) ps) = map snd (wb_worker_entries w)"
  shows "\<exists>st f. worker_put_all fb public_key ps (worker_store_new b) = Return st \<and>
    worker_store_finish fb (create_write_schema_rosters w) st = Return f \<and>
    worker_assignment_read fb f (fb_root_unchecked fb f) = Return (worker_builder_finish w)"
proof -
  have laws: "write_laws fb opn objs" using assms(1) by (simp add: flat_laws_def)
  have "worker_stored opn objs public_key (worker_store_new b) [] []"
    using assms(2) by (simp add: worker_stored_def worker_store_new_def)
  from worker_put_all_holds [OF laws this, of ps] assms(3,4) obtain st
    where st: "worker_put_all fb public_key ps (worker_store_new b) = Return st"
      and h: "worker_stored opn objs public_key st (wb_all_datasets w) (map snd (wb_worker_entries w))"
    by auto
  from blob_reads [OF assms(1) store_worker_root_stores [OF laws h] worker_assignment_stays
      worker_assignment_read_rep]
  show ?thesis
    using st by (fastforce simp: worker_store_finish_def worker_builder_finish_def)
qed

end
