(* ===== verification/Gen_Portal.thy ===== *)
theory Gen_Portal
  imports Gen_Assignment
begin

text \<open>The tables of \<^verbatim>\<open>portal_assignment_generated.rs\<close>, in the way of
    \<^theory_text>\<open>Gen_Assignment\<close>.\<close>

section \<open>PortalEntry\<close>

record portal_entry_args =
  pea_worker_id :: "u8 list option"
  pea_status :: u8

definition portal_entry_args_default :: "portal_entry_args" where
  "portal_entry_args_default =
    \<lparr>pea_worker_id = None, pea_status = 0\<rparr>"

datatype portal_entry_field =
    AddPortalEntryWorkerId "u8 list"
  | AddPortalEntryStatus u8

definition portal_entry_writer :: "('b, 'o, 'f) flatbuffers \<Rightarrow> (portal_entry_field, 'b,
    'o) table_builder" where
  "portal_entry_writer fb =
    \<lparr>tb_new = fb_start_table fb,
     tb_add = (\<lambda>a. case a of
         AddPortalEntryWorkerId x \<Rightarrow> fb_push_slot_always fb 4 (SlotStruct x)
       | AddPortalEntryStatus x \<Rightarrow> fb_push_slot fb 6 (SlotI8 x) (SlotI8 0)),
     tb_finish = finish_table fb
       [(4, ''worker_id'')]\<rparr>"

definition portal_entry_create ::
  "('b, 'o, 'f) flatbuffers \<Rightarrow> portal_entry_args \<Rightarrow> 'b \<Rightarrow> ('o
      \<times> 'b) outcome"
where
  "portal_entry_create fb args b =
    (let builder = portal_entry_writer fb;
         b = tb_new builder b;
         b = add_some builder AddPortalEntryWorkerId (pea_worker_id args) b;
         b = tb_add builder (AddPortalEntryStatus (pea_status args)) b
     in tb_finish builder b)"

definition portal_entry_read :: "('b, 'o, 'f) flatbuffers \<Rightarrow> 'f \<Rightarrow> 'o
    \<Rightarrow> portal_entry outcome" where
  "portal_entry_read fb f off =
    outcome_bind (unwrap (fb_get_struct fb f off 4)) (\<lambda>worker_id.
    outcome_bind (unwrap (or_default 0 (fb_get_i8 fb f off 6))) (\<lambda>status.
    Return \<lparr>pe_worker_id = worker_id, pe_status = status\<rparr>))"

definition portal_entry_verify :: "('v, 'o, 'e, 'opts, 'f) flat_verifier \<Rightarrow> ('o, 'v, 'e)
    check" where
  "portal_entry_verify fv = verify_table fv
    [(fv_in_buffer fv 38, ''worker_id'', 4, True),
     (fv_in_buffer fv 1, ''status'', 6, False)]"

text \<open>The slots that hold the record, and those that \<^verbatim>\<open>create\<close> fills
    from its arguments.\<close>

definition portal_entry_fields :: "('o \<rightharpoonup> 'o stored) \<Rightarrow> 'o slots
    \<Rightarrow> portal_entry \<Rightarrow> bool" where
  "portal_entry_fields F t c =
    (holds_slot (\<lambda>F v x. v = SlotStruct x) F t 4 (pe_worker_id c) \<and>
     holds_scalar SlotI8 t 6 0 (pe_status c))"

definition portal_entry_slots :: "portal_entry_args \<Rightarrow> 'o slots" where
  "portal_entry_slots args = Map.empty(
     4 := map_option SlotStruct (pea_worker_id args),
     6 := if pea_status args = 0 then None else Some (SlotI8 (pea_status args)))"

lemma portal_entry_writer_simps:
  "tb_new (portal_entry_writer fb) = fb_start_table fb"
  "tb_add (portal_entry_writer fb) (AddPortalEntryWorkerId x1) = fb_push_slot_always fb 4
      (SlotStruct x1)"
  "tb_add (portal_entry_writer fb) (AddPortalEntryStatus x2) = fb_push_slot fb 6 (SlotI8 x2)
      (SlotI8 0)"
  by (simp_all add: portal_entry_writer_def)

lemma portal_entry_creates:
  assumes "write_laws fb opn objs" "opn b = None"
  shows "creates opn objs [4] (portal_entry_slots args) b (portal_entry_create fb args b)"
proof -
  let ?req = "[(4, ''worker_id'')]"
  have fin: "tb_finish (portal_entry_writer fb) = finish_table fb ?req"
    by (simp add: portal_entry_writer_def)
  have "creates opn objs (map fst ?req) (portal_entry_slots args) b (portal_entry_create fb args b)"
    unfolding portal_entry_create_def Let_def fin portal_entry_slots_def
    by (rule creates_finish [OF assms(1)], (rule table_rules [OF assms(1)])+)
      (simp_all add: building_start [OF assms] portal_entry_writer_simps)
  then show ?thesis by simp
qed

lemma portal_entry_stays [simp]: "stays portal_entry_fields"
  unfolding stays_def portal_entry_fields_def
  by (intro allI impI, elim conjE, intro conjI)
    (assumption | (erule (1) holds_slot_stays holds_option_stays, simp))+

lemma portal_entry_stored:
  assumes "write_laws fb opn objs" "opn b = None" "portal_entry_fields (objs b) (portal_entry_slots
      args) c"
  shows "stores opn objs (rep portal_entry_fields) c b (portal_entry_create fb args b)"
  by (rule creates_rep [OF portal_entry_creates [OF assms(1,2)] portal_entry_stays assms(3)])
    (use assms(3) in \<open>auto simp: portal_entry_fields_def holds_slot_def\<close>)

lemma portal_entry_read_rep:
  assumes "read_laws fb fobjs" "rep portal_entry_fields (fobjs f) off c"
  shows "portal_entry_read fb f off = Return c"
proof -
  from assms(2) obtain t where t: "fobjs f off = Some (Table t)" and h: "portal_entry_fields (fobjs
      f) t c"
    by (auto simp: rep_def)
  from h have get: "fb_get_struct fb f off 4 = Some (pe_worker_id c) \<and>
      or_default 0 (fb_get_i8 fb f off 6) = Some (pe_status c)"
    unfolding portal_entry_fields_def by (elim conjE, intro conjI) (rule getters [OF assms(1) t],
        assumption)+
  show ?thesis using get
    by (simp add: portal_entry_read_def )
qed

lemma keeps_portal_entry_verify [simp]: "keep_laws fv ly \<Longrightarrow> keeps ly
    (portal_entry_verify fv)"
  unfolding portal_entry_verify_def by (rule keeps_verify_table) (simp_all add: keep_rules)

lemma portal_entry_verified_reads:
  assumes "verify_laws fb fv ly" "verified ly (portal_entry_verify fv) f off"
  shows "\<exists>c. portal_entry_read fb f off = Return c"
proof -
  note kl = verify_lawsD(1) [OF assms(1)]
  have ok: "field_ok ly f off (fv_in_buffer fv 38) 4 True"
    using verified_fields [OF assms(1) _ assms(2) [unfolded portal_entry_verify_def]]
    by (simp_all add: keep_rules [OF kl] kl)
  show ?thesis unfolding portal_entry_read_def
    by (rule bind_total found [OF assms(1)] ok | assumption | (rule exI, rule refl))+
qed

section \<open>PortalAssignmentDataset\<close>

record 'o portal_dataset_args =
  pda_id :: "'o option"
  pda_last_block :: u64
  pda_read_schema_id :: u32
  pda_first_blocks :: "'o option"
  pda_block_deltas :: "'o option"
  pda_hashes :: "'o option"
  pda_tops :: "'o option"
  pda_timestamps :: "'o option"
  pda_versions :: "'o option"
  pda_worker_offsets :: "'o option"
  pda_worker_indexes :: "'o option"
  pda_last_block_hash :: "'o option"

definition portal_dataset_args_default :: "'o portal_dataset_args" where
  "portal_dataset_args_default =
    \<lparr>pda_id = None, pda_last_block = 0, pda_read_schema_id = 0, pda_first_blocks = None,
     pda_block_deltas = None, pda_hashes = None, pda_tops = None, pda_timestamps = None,
     pda_versions = None, pda_worker_offsets = None, pda_worker_indexes = None,
     pda_last_block_hash = None\<rparr>"

datatype 'o portal_dataset_field =
    AddPortalDatasetId 'o
  | AddPortalDatasetLastBlock u64
  | AddPortalDatasetReadSchemaId u32
  | AddPortalDatasetFirstBlocks 'o
  | AddPortalDatasetBlockDeltas 'o
  | AddPortalDatasetHashes 'o
  | AddPortalDatasetTops 'o
  | AddPortalDatasetTimestamps 'o
  | AddPortalDatasetVersions 'o
  | AddPortalDatasetWorkerOffsets 'o
  | AddPortalDatasetWorkerIndexes 'o
  | AddPortalDatasetLastBlockHash 'o

definition portal_dataset_writer :: "('b, 'o, 'f) flatbuffers \<Rightarrow> ('o
    portal_dataset_field, 'b, 'o) table_builder" where
  "portal_dataset_writer fb =
    \<lparr>tb_new = fb_start_table fb,
     tb_add = (\<lambda>a. case a of
         AddPortalDatasetId x \<Rightarrow> fb_push_slot_always fb 4 (SlotOffset x)
       | AddPortalDatasetLastBlock x \<Rightarrow> fb_push_slot fb 6 (SlotU64 x) (SlotU64 0)
       | AddPortalDatasetReadSchemaId x \<Rightarrow> fb_push_slot fb 8 (SlotU32 x) (SlotU32 0)
       | AddPortalDatasetFirstBlocks x \<Rightarrow> fb_push_slot_always fb 10 (SlotOffset x)
       | AddPortalDatasetBlockDeltas x \<Rightarrow> fb_push_slot_always fb 12 (SlotOffset x)
       | AddPortalDatasetHashes x \<Rightarrow> fb_push_slot_always fb 14 (SlotOffset x)
       | AddPortalDatasetTops x \<Rightarrow> fb_push_slot_always fb 16 (SlotOffset x)
       | AddPortalDatasetTimestamps x \<Rightarrow> fb_push_slot_always fb 18 (SlotOffset x)
       | AddPortalDatasetVersions x \<Rightarrow> fb_push_slot_always fb 20 (SlotOffset x)
       | AddPortalDatasetWorkerOffsets x \<Rightarrow> fb_push_slot_always fb 22 (SlotOffset x)
       | AddPortalDatasetWorkerIndexes x \<Rightarrow> fb_push_slot_always fb 24 (SlotOffset x)
       | AddPortalDatasetLastBlockHash x \<Rightarrow> fb_push_slot_always fb 26 (SlotOffset x)),
     tb_finish = finish_table fb
       [(4, ''id''), (10, ''first_blocks''), (12, ''block_deltas''), (14, ''hashes''),
        (16, ''tops''), (18, ''timestamps''), (22, ''worker_offsets''), (24,
            ''worker_indexes'')]\<rparr>"

definition portal_dataset_create ::
  "('b, 'o, 'f) flatbuffers \<Rightarrow> 'o portal_dataset_args \<Rightarrow> 'b \<Rightarrow> ('o
      \<times> 'b) outcome"
where
  "portal_dataset_create fb args b =
    (let builder = portal_dataset_writer fb;
         b = tb_new builder b;
         b = tb_add builder (AddPortalDatasetLastBlock (pda_last_block args)) b;
         b = add_some builder AddPortalDatasetLastBlockHash (pda_last_block_hash args) b;
         b = add_some builder AddPortalDatasetWorkerIndexes (pda_worker_indexes args) b;
         b = add_some builder AddPortalDatasetWorkerOffsets (pda_worker_offsets args) b;
         b = add_some builder AddPortalDatasetVersions (pda_versions args) b;
         b = add_some builder AddPortalDatasetTimestamps (pda_timestamps args) b;
         b = add_some builder AddPortalDatasetTops (pda_tops args) b;
         b = add_some builder AddPortalDatasetHashes (pda_hashes args) b;
         b = add_some builder AddPortalDatasetBlockDeltas (pda_block_deltas args) b;
         b = add_some builder AddPortalDatasetFirstBlocks (pda_first_blocks args) b;
         b = tb_add builder (AddPortalDatasetReadSchemaId (pda_read_schema_id args)) b;
         b = add_some builder AddPortalDatasetId (pda_id args) b
     in tb_finish builder b)"

definition portal_dataset_read :: "('b, 'o, 'f) flatbuffers \<Rightarrow> 'f \<Rightarrow> 'o
    \<Rightarrow> portal_dataset outcome" where
  "portal_dataset_read fb f off =
    outcome_bind (unwrap (fb_get_str fb f off 4)) (\<lambda>id.
    outcome_bind (unwrap (or_default 0 (fb_get_u64 fb f off 6))) (\<lambda>last_block.
    outcome_bind (unwrap (or_default 0 (fb_get_u32 fb f off 8))) (\<lambda>read_schema_id.
    outcome_bind (unwrap (fb_get_u64s fb f off 10)) (\<lambda>first_blocks.
    outcome_bind (unwrap (fb_get_u32s fb f off 12)) (\<lambda>block_deltas.
    outcome_bind (unwrap (fb_get_structs fb f off 14)) (\<lambda>hashes.
    outcome_bind (unwrap (fb_get_structs fb f off 16)) (\<lambda>tops.
    outcome_bind (unwrap (fb_get_u64s fb f off 18)) (\<lambda>timestamps.
    outcome_bind (unwrap (fb_get_u32s fb f off 22)) (\<lambda>worker_offsets.
    outcome_bind (unwrap (fb_get_u16s fb f off 24)) (\<lambda>worker_indexes.
    Return \<lparr>pd_id = id, pd_last_block = last_block,
            pd_last_block_hash = fb_get_str fb f off 26, pd_read_schema_id = read_schema_id,
            pd_first_blocks = first_blocks, pd_block_deltas = block_deltas, pd_hashes = hashes,
            pd_tops = map top_run_of_struct tops, pd_timestamps = timestamps,
            pd_versions = fb_get_u32s fb f off 20, pd_worker_offsets = worker_offsets,
            pd_worker_indexes = worker_indexes\<rparr>))))))))))"

definition portal_dataset_key_compare_less_than ::
  "('b, 'o, 'f) flatbuffers \<Rightarrow> 'f \<Rightarrow> 'o \<Rightarrow> 'o \<Rightarrow> bool
      outcome"
where
  "portal_dataset_key_compare_less_than fb f off off' =
    outcome_bind (unwrap (fb_get_str fb f off 4)) (\<lambda>a.
    outcome_map (\<lambda>b. a < b) (unwrap (fb_get_str fb f off' 4)))"

definition portal_dataset_key_compare_with_value ::
  "('b, 'o, 'f) flatbuffers \<Rightarrow> 'f \<Rightarrow> 'o \<Rightarrow> string \<Rightarrow>
      ordering outcome"
where
  "portal_dataset_key_compare_with_value fb f off val =
    outcome_map (\<lambda>key. cmp key val) (unwrap (fb_get_str fb f off 4))"

definition portal_dataset_verify :: "('v, 'o, 'e, 'opts, 'f) flat_verifier \<Rightarrow> ('o, 'v,
    'e) check" where
  "portal_dataset_verify fv = verify_table fv
    [(fv_forward fv (fv_str fv), ''id'', 4, True),
     (fv_in_buffer fv 8, ''last_block'', 6, False),
     (fv_in_buffer fv 4, ''read_schema_id'', 8, False),
     (fv_forward fv (fv_slice fv 8), ''first_blocks'', 10, True),
     (fv_forward fv (fv_slice fv 4), ''block_deltas'', 12, True),
     (fv_forward fv (fv_slice fv 8), ''hashes'', 14, True),
     (fv_forward fv (fv_slice fv 16), ''tops'', 16, True),
     (fv_forward fv (fv_slice fv 8), ''timestamps'', 18, True),
     (fv_forward fv (fv_slice fv 4), ''versions'', 20, False),
     (fv_forward fv (fv_slice fv 4), ''worker_offsets'', 22, True),
     (fv_forward fv (fv_slice fv 2), ''worker_indexes'', 24, True),
     (fv_forward fv (fv_str fv), ''last_block_hash'', 26, False)]"

text \<open>The slots that hold the record, and those that \<^verbatim>\<open>create\<close> fills
    from its arguments.\<close>

definition portal_dataset_fields :: "('o \<rightharpoonup> 'o stored) \<Rightarrow> 'o slots
    \<Rightarrow> portal_dataset \<Rightarrow> bool" where
  "portal_dataset_fields F t c =
    (holds_slot denotes_str F t 4 (pd_id c) \<and>
     holds_scalar SlotU64 t 6 0 (pd_last_block c) \<and>
     holds_scalar SlotU32 t 8 0 (pd_read_schema_id c) \<and>
     holds_slot (denotes_vec VecU64) F t 10 (pd_first_blocks c) \<and>
     holds_slot (denotes_vec VecU32) F t 12 (pd_block_deltas c) \<and>
     holds_slot (denotes_vec VecStruct) F t 14 (pd_hashes c) \<and>
     holds_slot (denotes_vec (\<lambda>rs. VecStruct (map top_run_struct rs))) F t 16 (pd_tops c)
         \<and>
     holds_slot (denotes_vec VecU64) F t 18 (pd_timestamps c) \<and>
     holds_option (denotes_vec VecU32) F t 20 (pd_versions c) \<and>
     holds_slot (denotes_vec VecU32) F t 22 (pd_worker_offsets c) \<and>
     holds_slot (denotes_vec VecU16) F t 24 (pd_worker_indexes c) \<and>
     holds_option denotes_str F t 26 (pd_last_block_hash c))"

definition portal_dataset_slots :: "'o portal_dataset_args \<Rightarrow> 'o slots" where
  "portal_dataset_slots args = Map.empty(
     6 := if pda_last_block args = 0 then None else Some (SlotU64 (pda_last_block args)),
     26 := map_option SlotOffset (pda_last_block_hash args),
     24 := map_option SlotOffset (pda_worker_indexes args),
     22 := map_option SlotOffset (pda_worker_offsets args),
     20 := map_option SlotOffset (pda_versions args),
     18 := map_option SlotOffset (pda_timestamps args),
     16 := map_option SlotOffset (pda_tops args),
     14 := map_option SlotOffset (pda_hashes args),
     12 := map_option SlotOffset (pda_block_deltas args),
     10 := map_option SlotOffset (pda_first_blocks args),
     8 := if pda_read_schema_id args = 0 then None else Some (SlotU32 (pda_read_schema_id args)),
     4 := map_option SlotOffset (pda_id args))"

lemma portal_dataset_writer_simps:
  "tb_new (portal_dataset_writer fb) = fb_start_table fb"
  "tb_add (portal_dataset_writer fb) (AddPortalDatasetId x1) = fb_push_slot_always fb 4 (SlotOffset
      x1)"
  "tb_add (portal_dataset_writer fb) (AddPortalDatasetLastBlock x2) = fb_push_slot fb 6 (SlotU64
      x2) (SlotU64 0)"
  "tb_add (portal_dataset_writer fb) (AddPortalDatasetReadSchemaId x3) = fb_push_slot fb 8 (SlotU32
      x3) (SlotU32 0)"
  "tb_add (portal_dataset_writer fb) (AddPortalDatasetFirstBlocks x4) = fb_push_slot_always fb 10
      (SlotOffset x4)"
  "tb_add (portal_dataset_writer fb) (AddPortalDatasetBlockDeltas x5) = fb_push_slot_always fb 12
      (SlotOffset x5)"
  "tb_add (portal_dataset_writer fb) (AddPortalDatasetHashes x6) = fb_push_slot_always fb 14
      (SlotOffset x6)"
  "tb_add (portal_dataset_writer fb) (AddPortalDatasetTops x7) = fb_push_slot_always fb 16
      (SlotOffset x7)"
  "tb_add (portal_dataset_writer fb) (AddPortalDatasetTimestamps x8) = fb_push_slot_always fb 18
      (SlotOffset x8)"
  "tb_add (portal_dataset_writer fb) (AddPortalDatasetVersions x9) = fb_push_slot_always fb 20
      (SlotOffset x9)"
  "tb_add (portal_dataset_writer fb) (AddPortalDatasetWorkerOffsets x10) = fb_push_slot_always fb
      22 (SlotOffset x10)"
  "tb_add (portal_dataset_writer fb) (AddPortalDatasetWorkerIndexes x11) = fb_push_slot_always fb
      24 (SlotOffset x11)"
  "tb_add (portal_dataset_writer fb) (AddPortalDatasetLastBlockHash x12) = fb_push_slot_always fb
      26 (SlotOffset x12)"
  by (simp_all add: portal_dataset_writer_def)

lemma portal_dataset_creates:
  assumes "write_laws fb opn objs" "opn b = None"
  shows "creates opn objs [4, 10, 12, 14, 16, 18, 22, 24] (portal_dataset_slots args) b
      (portal_dataset_create fb args b)"
proof -
  let ?req = "[(4, ''id''), (10, ''first_blocks''), (12, ''block_deltas''), (14, ''hashes''),
             (16, ''tops''), (18, ''timestamps''), (22, ''worker_offsets''),
             (24, ''worker_indexes'')]"
  have fin: "tb_finish (portal_dataset_writer fb) = finish_table fb ?req"
    by (simp add: portal_dataset_writer_def)
  have "creates opn objs (map fst ?req) (portal_dataset_slots args) b (portal_dataset_create fb
      args b)"
    unfolding portal_dataset_create_def Let_def fin portal_dataset_slots_def
    by (rule creates_finish [OF assms(1)], (rule table_rules [OF assms(1)])+)
      (simp_all add: building_start [OF assms] portal_dataset_writer_simps)
  then show ?thesis by simp
qed

lemma portal_dataset_stays [simp]: "stays portal_dataset_fields"
  unfolding stays_def portal_dataset_fields_def
  by (intro allI impI, elim conjE, intro conjI)
    (assumption | (erule (1) holds_slot_stays holds_option_stays, simp))+

lemma portal_dataset_stored:
  assumes "write_laws fb opn objs" "opn b = None" "portal_dataset_fields (objs b)
      (portal_dataset_slots args) c"
  shows "stores opn objs (rep portal_dataset_fields) c b (portal_dataset_create fb args b)"
  by (rule creates_rep [OF portal_dataset_creates [OF assms(1,2)] portal_dataset_stays assms(3)])
    (use assms(3) in \<open>auto simp: portal_dataset_fields_def holds_slot_def\<close>)

lemma portal_dataset_read_rep:
  assumes "read_laws fb fobjs" "rep portal_dataset_fields (fobjs f) off c"
  shows "portal_dataset_read fb f off = Return c"
proof -
  from assms(2) obtain t where t: "fobjs f off = Some (Table t)" and h: "portal_dataset_fields
      (fobjs f) t c"
    by (auto simp: rep_def)
  from h have get: "fb_get_str fb f off 4 = Some (pd_id c) \<and>
      or_default 0 (fb_get_u64 fb f off 6) = Some (pd_last_block c) \<and>
      or_default 0 (fb_get_u32 fb f off 8) = Some (pd_read_schema_id c) \<and>
      fb_get_u64s fb f off 10 = Some (pd_first_blocks c) \<and>
      fb_get_u32s fb f off 12 = Some (pd_block_deltas c) \<and>
      fb_get_structs fb f off 14 = Some (pd_hashes c) \<and>
      fb_get_structs fb f off 16 = Some (map top_run_struct (pd_tops c)) \<and>
      fb_get_u64s fb f off 18 = Some (pd_timestamps c) \<and>
      fb_get_u32s fb f off 20 = pd_versions c \<and>
      fb_get_u32s fb f off 22 = Some (pd_worker_offsets c) \<and>
      fb_get_u16s fb f off 24 = Some (pd_worker_indexes c) \<and>
      fb_get_str fb f off 26 = pd_last_block_hash c"
    unfolding portal_dataset_fields_def by (elim conjE, intro conjI) (rule getters [OF assms(1) t],
        assumption)+
  show ?thesis using get
    by (simp add: portal_dataset_read_def )
qed

text \<open>The key of a stored table compares like the record's.\<close>

lemma portal_dataset_key_compare:
  assumes "read_laws fb fobjs" "rep portal_dataset_fields (fobjs f) off c"
  shows "portal_dataset_key_compare_with_value fb f off val = Return (cmp (pd_id c) val)"
    and "rep portal_dataset_fields (fobjs f) off' d \<Longrightarrow>
      portal_dataset_key_compare_less_than fb f off off' = Return (pd_id c < pd_id d)"
proof -
  have get: "unwrap (fb_get_str fb f off 4) = Return (pd_id c)" if "rep portal_dataset_fields
      (fobjs f) off c" for off c
    using portal_dataset_read_rep [OF assms(1) that] by (auto simp: portal_dataset_read_def)
  from get [OF assms(2)] show "portal_dataset_key_compare_with_value fb f off val = Return (cmp
      (pd_id c) val)"
    by (simp add: portal_dataset_key_compare_with_value_def)
  from get [OF assms(2)] get show "rep portal_dataset_fields (fobjs f) off' d \<Longrightarrow>
      portal_dataset_key_compare_less_than fb f off off' = Return (pd_id c < pd_id d)"
    by (simp add: portal_dataset_key_compare_less_than_def)
qed

lemma keeps_portal_dataset_verify [simp]: "keep_laws fv ly \<Longrightarrow> keeps ly
    (portal_dataset_verify fv)"
  unfolding portal_dataset_verify_def by (rule keeps_verify_table) (simp_all add: keep_rules)

lemma portal_dataset_verified_reads:
  assumes "verify_laws fb fv ly" "verified ly (portal_dataset_verify fv) f off"
  shows "\<exists>c. portal_dataset_read fb f off = Return c"
proof -
  note kl = verify_lawsD(1) [OF assms(1)]
  have ok: "field_ok ly f off (fv_forward fv (fv_str fv)) 4 True"
    "field_ok ly f off (fv_forward fv (fv_slice fv 8)) 10 True"
    "field_ok ly f off (fv_forward fv (fv_slice fv 4)) 12 True"
    "field_ok ly f off (fv_forward fv (fv_slice fv 8)) 14 True"
    "field_ok ly f off (fv_forward fv (fv_slice fv 16)) 16 True"
    "field_ok ly f off (fv_forward fv (fv_slice fv 8)) 18 True"
    "field_ok ly f off (fv_forward fv (fv_slice fv 4)) 22 True"
    "field_ok ly f off (fv_forward fv (fv_slice fv 2)) 24 True"
    using verified_fields [OF assms(1) _ assms(2) [unfolded portal_dataset_verify_def]]
    by (simp_all add: keep_rules [OF kl] kl)
  show ?thesis unfolding portal_dataset_read_def
    by (rule bind_total found [OF assms(1)] ok | assumption | (rule exI, rule refl))+
qed

section \<open>PortalAssignment\<close>

record 'o portal_assignment_args =
  paa_datasets :: "'o option"
  paa_workers :: "'o option"

definition portal_assignment_args_default :: "'o portal_assignment_args" where
  "portal_assignment_args_default =
    \<lparr>paa_datasets = None, paa_workers = None\<rparr>"

datatype 'o portal_assignment_field =
    AddPortalAssignmentDatasets 'o
  | AddPortalAssignmentWorkers 'o

definition portal_assignment_writer :: "('b, 'o, 'f) flatbuffers \<Rightarrow> ('o
    portal_assignment_field, 'b, 'o) table_builder" where
  "portal_assignment_writer fb =
    \<lparr>tb_new = fb_start_table fb,
     tb_add = (\<lambda>a. case a of
         AddPortalAssignmentDatasets x \<Rightarrow> fb_push_slot_always fb 4 (SlotOffset x)
       | AddPortalAssignmentWorkers x \<Rightarrow> fb_push_slot_always fb 6 (SlotOffset x)),
     tb_finish = finish_table fb
       [(4, ''datasets''), (6, ''workers'')]\<rparr>"

definition portal_assignment_create ::
  "('b, 'o, 'f) flatbuffers \<Rightarrow> 'o portal_assignment_args \<Rightarrow> 'b \<Rightarrow>
      ('o \<times> 'b) outcome"
where
  "portal_assignment_create fb args b =
    (let builder = portal_assignment_writer fb;
         b = tb_new builder b;
         b = add_some builder AddPortalAssignmentWorkers (paa_workers args) b;
         b = add_some builder AddPortalAssignmentDatasets (paa_datasets args) b
     in tb_finish builder b)"

definition portal_assignment_read :: "('b, 'o, 'f) flatbuffers \<Rightarrow> 'f \<Rightarrow> 'o
    \<Rightarrow> portal_assignment outcome" where
  "portal_assignment_read fb f off =
    outcome_bind (unwrap (fb_get_tables fb f off 4)) (\<lambda>datasets.
    outcome_bind (outcome_list (portal_dataset_read fb f) datasets) (\<lambda>datasets.
    outcome_bind (unwrap (fb_get_tables fb f off 6)) (\<lambda>workers.
    outcome_bind (outcome_list (portal_entry_read fb f) workers) (\<lambda>workers.
    Return \<lparr>pa_datasets = datasets, pa_workers = workers\<rparr>))))"

definition portal_assignment_verify :: "('v, 'o, 'e, 'opts, 'f) flat_verifier \<Rightarrow> ('o,
    'v, 'e) check" where
  "portal_assignment_verify fv = verify_table fv
    [(fv_forward fv (fv_vector fv (fv_forward fv (portal_dataset_verify fv))), ''datasets'', 4,
        True),
     (fv_forward fv (fv_vector fv (fv_forward fv (portal_entry_verify fv))), ''workers'', 6, True)]"

text \<open>The slots that hold the record, and those that \<^verbatim>\<open>create\<close> fills
    from its arguments.\<close>

definition portal_assignment_fields :: "('o \<rightharpoonup> 'o stored) \<Rightarrow> 'o slots
    \<Rightarrow> portal_assignment \<Rightarrow> bool" where
  "portal_assignment_fields F t c =
    (holds_slot (denotes_each (rep portal_dataset_fields)) F t 4 (pa_datasets c) \<and>
     holds_slot (denotes_each (rep portal_entry_fields)) F t 6 (pa_workers c))"

definition portal_assignment_slots :: "'o portal_assignment_args \<Rightarrow> 'o slots" where
  "portal_assignment_slots args = Map.empty(
     6 := map_option SlotOffset (paa_workers args),
     4 := map_option SlotOffset (paa_datasets args))"

lemma portal_assignment_writer_simps:
  "tb_new (portal_assignment_writer fb) = fb_start_table fb"
  "tb_add (portal_assignment_writer fb) (AddPortalAssignmentDatasets x1) = fb_push_slot_always fb 4
      (SlotOffset x1)"
  "tb_add (portal_assignment_writer fb) (AddPortalAssignmentWorkers x2) = fb_push_slot_always fb 6
      (SlotOffset x2)"
  by (simp_all add: portal_assignment_writer_def)

lemma portal_assignment_creates:
  assumes "write_laws fb opn objs" "opn b = None"
  shows "creates opn objs [4, 6] (portal_assignment_slots args) b (portal_assignment_create fb args
      b)"
proof -
  let ?req = "[(4, ''datasets''), (6, ''workers'')]"
  have fin: "tb_finish (portal_assignment_writer fb) = finish_table fb ?req"
    by (simp add: portal_assignment_writer_def)
  have "creates opn objs (map fst ?req) (portal_assignment_slots args) b (portal_assignment_create
      fb args b)"
    unfolding portal_assignment_create_def Let_def fin portal_assignment_slots_def
    by (rule creates_finish [OF assms(1)], (rule table_rules [OF assms(1)])+)
      (simp_all add: building_start [OF assms] portal_assignment_writer_simps)
  then show ?thesis by simp
qed

lemma portal_assignment_stays [simp]: "stays portal_assignment_fields"
  unfolding stays_def portal_assignment_fields_def
  by (intro allI impI, elim conjE, intro conjI)
    (assumption | (erule (1) holds_slot_stays holds_option_stays, simp))+

lemma portal_assignment_stored:
  assumes "write_laws fb opn objs" "opn b = None" "portal_assignment_fields (objs b)
      (portal_assignment_slots args) c"
  shows "stores opn objs (rep portal_assignment_fields) c b (portal_assignment_create fb args b)"
  by (rule creates_rep [OF portal_assignment_creates [OF assms(1,2)] portal_assignment_stays
      assms(3)])
    (use assms(3) in \<open>auto simp: portal_assignment_fields_def holds_slot_def\<close>)

lemma portal_assignment_read_rep:
  assumes "read_laws fb fobjs" "rep portal_assignment_fields (fobjs f) off c"
  shows "portal_assignment_read fb f off = Return c"
proof -
  from assms(2) obtain t where t: "fobjs f off = Some (Table t)" and h: "portal_assignment_fields
      (fobjs f) t c"
    by (auto simp: rep_def)
  from h have datasets: "holds_slot (denotes_each (rep portal_dataset_fields)) (fobjs f) t 4
      (pa_datasets c)"
    by (simp add: portal_assignment_fields_def)
  from h have workers: "holds_slot (denotes_each (rep portal_entry_fields)) (fobjs f) t 6
      (pa_workers c)"
    by (simp add: portal_assignment_fields_def)
  note tabs = read_tables [OF assms(1) t]
  show ?thesis
    by (simp add: portal_assignment_read_def tabs(1) [OF portal_dataset_read_rep [OF assms(1)]
        datasets] tabs(1) [OF portal_entry_read_rep [OF assms(1)] workers])
qed

lemma keeps_portal_assignment_verify [simp]: "keep_laws fv ly \<Longrightarrow> keeps ly
    (portal_assignment_verify fv)"
  unfolding portal_assignment_verify_def by (rule keeps_verify_table) (simp_all add: keep_rules)

lemma portal_assignment_verified_reads:
  assumes "verify_laws fb fv ly" "verified ly (portal_assignment_verify fv) f off"
  shows "\<exists>c. portal_assignment_read fb f off = Return c"
proof -
  note kl = verify_lawsD(1) [OF assms(1)]
  have ok: "field_ok ly f off (fv_forward fv (fv_vector fv (fv_forward fv (portal_dataset_verify
      fv)))) 4 True"
    "field_ok ly f off (fv_forward fv (fv_vector fv (fv_forward fv (portal_entry_verify fv)))) 6
        True"
    using verified_fields [OF assms(1) _ assms(2) [unfolded portal_assignment_verify_def]]
    by (simp_all add: keep_rules [OF kl] kl)
  show ?thesis unfolding portal_assignment_read_def
    by (rule bind_total found [OF assms(1)] ok | assumption | rule found_nested [OF assms(1)
        keeps_portal_dataset_verify [OF kl] portal_dataset_verified_reads [OF assms(1)]] |
      rule found_nested [OF assms(1) keeps_portal_entry_verify [OF kl] portal_entry_verified_reads
          [OF assms(1)]] |
      (rule exI, rule refl))+
qed

end
