(* ===== verification/Stored_Portal.thy ===== *)
theory Stored_Portal
  imports Gen_Portal Flat_Store Portal_Builder
begin

text \<open>
  How \<^verbatim>\<open>PortalAssignmentBuilder\<close> writes its tables, in the way of \<^theory_text>\<open>Stored_Worker\<close>: the writes of
  \<^verbatim>\<open>new_dataset\<close> and \<^verbatim>\<open>emit_dataset\<close>, of \<^verbatim>\<open>add_worker\<close> and of \<^verbatim>\<open>finish\<close>, and that the finished buffer
  reads back as the record \<^theory_text>\<open>portal_builder_finish\<close> denotes.
\<close>

section \<open>Writes\<close>

definition store_portal_dataset ::
  "('b, 'o, 'f) flatbuffers \<Rightarrow> portal_dataset \<Rightarrow> 'b \<Rightarrow> ('o \<times> 'b) outcome" where
  "store_portal_dataset fb d b =
    (case fb_create_shared_string fb (pd_id d) b of (id', b) \<Rightarrow>
     case create_string_opt fb (pd_last_block_hash d) b of (last_block_hash, b) \<Rightarrow>
     case fb_create_vector fb (VecU64 (pd_first_blocks d)) b of (first_blocks, b) \<Rightarrow>
     case fb_create_vector fb (VecU32 (pd_block_deltas d)) b of (block_deltas, b) \<Rightarrow>
     case fb_create_vector fb (VecStruct (pd_hashes d)) b of (hashes, b) \<Rightarrow>
     case fb_create_vector fb (VecStruct (map top_run_struct (pd_tops d))) b of (tops, b) \<Rightarrow>
     case fb_create_vector fb (VecU64 (pd_timestamps d)) b of (timestamps, b) \<Rightarrow>
     case create_vector_opt fb VecU32 (pd_versions d) b of (versions, b) \<Rightarrow>
     case fb_create_vector fb (VecU32 (pd_worker_offsets d)) b of (worker_offsets, b) \<Rightarrow>
     case fb_create_vector fb (VecU16 (pd_worker_indexes d)) b of (worker_indexes, b) \<Rightarrow>
     portal_dataset_create fb
       \<lparr>pda_id = Some id', pda_last_block = pd_last_block d, pda_read_schema_id = pd_read_schema_id d,
        pda_first_blocks = Some first_blocks, pda_block_deltas = Some block_deltas,
        pda_hashes = Some hashes, pda_tops = Some tops, pda_timestamps = Some timestamps,
        pda_versions = versions, pda_worker_offsets = Some worker_offsets,
        pda_worker_indexes = Some worker_indexes, pda_last_block_hash = last_block_hash\<rparr> b)"

record ('b, 'o) portal_store =
  ps_builder :: 'b
  ps_all_datasets :: "'o list"
  ps_worker_entries :: "(u8 list \<times> 'o) list"

definition portal_store_new :: "'b \<Rightarrow> ('b, 'o) portal_store" where
  "portal_store_new b = \<lparr>ps_builder = b, ps_all_datasets = [], ps_worker_entries = []\<rparr>"

datatype portal_put = PutPortalDataset portal_dataset | PutPortalNothing string | PutPortalWorker "u8 list" u8

fun portal_store_put ::
  "('b, 'o, 'f) flatbuffers \<Rightarrow> portal_put \<Rightarrow> ('b, 'o) portal_store \<Rightarrow> ('b, 'o) portal_store outcome"
where
  "portal_store_put fb (PutPortalDataset d) st =
    outcome_map (\<lambda>(off, b). st\<lparr>ps_builder := b, ps_all_datasets := ps_all_datasets st @ [off]\<rparr>)
      (store_portal_dataset fb d (ps_builder st))"
| "portal_store_put fb (PutPortalNothing id') st =
    (case fb_create_shared_string fb id' (ps_builder st) of (_, b) \<Rightarrow> Return (st\<lparr>ps_builder := b\<rparr>))"
| "portal_store_put fb (PutPortalWorker worker_id status) st =
    outcome_map
      (\<lambda>(off, b). st\<lparr>ps_builder := b, ps_worker_entries := ps_worker_entries st @ [(worker_id, off)]\<rparr>)
      (portal_entry_create fb \<lparr>pea_worker_id = Some worker_id, pea_status = status\<rparr> (ps_builder st))"

fun portal_put_all ::
  "('b, 'o, 'f) flatbuffers \<Rightarrow> portal_put list \<Rightarrow> ('b, 'o) portal_store \<Rightarrow> ('b, 'o) portal_store outcome"
where
  "portal_put_all fb [] st = Return st"
| "portal_put_all fb (p # ps) st = outcome_bind (portal_store_put fb p st) (portal_put_all fb ps)"

definition store_portal_root ::
  "('b, 'o, 'f) flatbuffers \<Rightarrow> 'o list \<Rightarrow> 'o list \<Rightarrow> 'b \<Rightarrow> ('o \<times> 'b) outcome" where
  "store_portal_root fb all_datasets entries b =
    (case fb_create_vector fb (VecOffset all_datasets) b of (datasets, b) \<Rightarrow>
     case fb_create_vector fb (VecOffset entries) b of (workers, b) \<Rightarrow>
     portal_assignment_create fb \<lparr>paa_datasets = Some datasets, paa_workers = Some workers\<rparr> b)"

definition portal_store_finish ::
  "('b, 'o, 'f) flatbuffers \<Rightarrow> ('b, 'o) portal_store \<Rightarrow> 'f outcome" where
  "portal_store_finish fb st =
    outcome_map (\<lambda>(root, b). fb_finish fb root b)
      (store_portal_root fb (ps_all_datasets st) (map snd (ps_worker_entries st)) (ps_builder st))"

section \<open>Every write stores its record\<close>

lemma store_portal_dataset_stores:
  assumes "write_laws fb opn objs" "opn b = None"
  shows "stores opn objs (rep portal_dataset_fields) d b (store_portal_dataset fb d b)"
proof -
  have start: "progress opn objs b b []" using assms(2) by (rule progress_start)
  show ?thesis
    unfolding store_portal_dataset_def
    apply (rule call_steps(3) [OF assms(1) start])
    apply (erule call_steps(1,4,5) [OF assms(1)])+
    apply (erule stores_last, erule portal_dataset_stored [OF assms(1)])
    apply (auto dest!: known_Cons simp: portal_dataset_fields_def portal_dataset_slots_def stored_fields)
    done
qed

lemma portal_entry_stores:
  assumes "write_laws fb opn objs" "opn b = None"
  shows "stores opn objs (rep portal_entry_fields) \<lparr>pe_worker_id = worker_id, pe_status = status\<rparr> b
    (portal_entry_create fb \<lparr>pea_worker_id = Some worker_id, pea_status = status\<rparr> b)"
  by (rule portal_entry_stored [OF assms])
    (simp add: portal_entry_fields_def portal_entry_slots_def holds_slot_def holds_scalar_def)

section \<open>What the builder's offsets denote\<close>

definition portal_stored ::
  "('b \<Rightarrow> 'o slots option) \<Rightarrow> ('b \<Rightarrow> 'o \<rightharpoonup> 'o stored) \<Rightarrow> ('b, 'o) portal_store \<Rightarrow>
    portal_dataset list \<Rightarrow> portal_entry list \<Rightarrow> bool"
where
  "portal_stored opn objs st ds es =
    (opn (ps_builder st) = None \<and>
     list_all2 (rep portal_dataset_fields (objs (ps_builder st))) (ps_all_datasets st) ds \<and>
     list_all2 (rep portal_entry_fields (objs (ps_builder st))) (map snd (ps_worker_entries st)) es)"

fun put_portal_datasets :: "portal_put \<Rightarrow> portal_dataset list" where
  "put_portal_datasets (PutPortalDataset d) = [d]"
| "put_portal_datasets _ = []"

fun put_portal_entries :: "portal_put \<Rightarrow> portal_entry list" where
  "put_portal_entries (PutPortalWorker worker_id status) =
    [\<lparr>pe_worker_id = worker_id, pe_status = status\<rparr>]"
| "put_portal_entries _ = []"

lemma portal_stored_later:
  assumes "portal_stored opn objs st ds es" "later opn objs (ps_builder st) b"
  shows "portal_stored opn objs (st\<lparr>ps_builder := b\<rparr>) ds es"
proof -
  have "list_all2 (rep portal_dataset_fields (objs b)) (ps_all_datasets st) ds"
    by (rule list_all2_later [OF assms(2)]) (use assms(1) in \<open>simp_all add: portal_stored_def\<close>)
  moreover have "list_all2 (rep portal_entry_fields (objs b)) (map snd (ps_worker_entries st)) es"
    by (rule list_all2_later [OF assms(2)]) (use assms(1) in \<open>simp_all add: portal_stored_def\<close>)
  ultimately show ?thesis
    using assms by (simp add: portal_stored_def later_closed)
qed

lemma portal_store_put_stored:
  assumes "write_laws fb opn objs" "portal_stored opn objs st ds es"
  shows "\<exists>st'. portal_store_put fb p st = Return st' \<and>
    portal_stored opn objs st' (ds @ put_portal_datasets p) (es @ put_portal_entries p)"
proof -
  have closed: "opn (ps_builder st) = None" using assms(2) by (simp add: portal_stored_def)
  show ?thesis
  proof (cases p)
    case (PutPortalDataset d)
    from store_portal_dataset_stores [OF assms(1) closed, of d] obtain off b'
      where "store_portal_dataset fb d (ps_builder st) = Return (off, b')"
        and l: "later opn objs (ps_builder st) b'" and "rep portal_dataset_fields (objs b') off d"
      by (auto simp: stores_def)
    with portal_stored_later [OF assms(2) l] PutPortalDataset show ?thesis
      by (simp add: portal_stored_def list_all2_appendI)
  next
    case (PutPortalNothing x)
    obtain i b' where one: "fb_create_shared_string fb x (ps_builder st) = (i, b')" by (rule prod.exhaust)
    with write_lawsD(7) [OF assms(1) closed, of x] have l: "later opn objs (ps_builder st) b'"
      by (simp add: adds_object_def)
    from portal_stored_later [OF assms(2) l] one PutPortalNothing show ?thesis by simp
  next
    case (PutPortalWorker worker_id status)
    let ?e = "\<lparr>pe_worker_id = worker_id, pe_status = status\<rparr>"
    from portal_entry_stores [OF assms(1) closed, of worker_id status] obtain off b'
      where "portal_entry_create fb \<lparr>pea_worker_id = Some worker_id, pea_status = status\<rparr> (ps_builder st)
          = Return (off, b')"
        and l: "later opn objs (ps_builder st) b'" and "rep portal_entry_fields (objs b') off ?e"
      by (auto simp: stores_def)
    with portal_stored_later [OF assms(2) l] PutPortalWorker show ?thesis
      by (simp add: portal_stored_def list_all2_appendI)
  qed
qed

lemma portal_put_all_stored:
  assumes "write_laws fb opn objs" "portal_stored opn objs st ds es"
  shows "\<exists>st'. portal_put_all fb ps st = Return st' \<and>
    portal_stored opn objs st' (ds @ concat (map put_portal_datasets ps))
      (es @ concat (map put_portal_entries ps))"
  using assms(2)
proof (induction ps arbitrary: st ds es)
  case (Cons p ps)
  from portal_store_put_stored [OF assms(1) Cons.prems, of p] obtain st'
    where "portal_store_put fb p st = Return st'"
      and "portal_stored opn objs st' (ds @ put_portal_datasets p) (es @ put_portal_entries p)"
    by blast
  with Cons.IH [of st'] show ?case by fastforce
qed simp

lemma store_portal_root_stores:
  assumes "write_laws fb opn objs" "portal_stored opn objs st ds es"
  shows "stores opn objs (rep portal_assignment_fields) \<lparr>pa_datasets = ds, pa_workers = es\<rparr>
    (ps_builder st)
    (store_portal_root fb (ps_all_datasets st) (map snd (ps_worker_entries st)) (ps_builder st))"
proof -
  note add = progress_add [OF _ later_refl stays_list [OF stays_rep]]
  have start: "progress opn objs (ps_builder st) (ps_builder st)
      [\<lambda>F. list_all2 (rep portal_dataset_fields F) (ps_all_datasets st) ds,
       \<lambda>F. list_all2 (rep portal_entry_fields F) (map snd (ps_worker_entries st)) es]"
    using assms(2) by (auto simp: portal_stored_def intro!: add progress_start)
  show ?thesis
    unfolding store_portal_root_def
    apply (rule call_steps(1) [OF assms(1) start])
    apply (erule call_steps(1) [OF assms(1)])
    apply (erule stores_last, erule portal_assignment_stored [OF assms(1)])
    apply (auto dest!: known_Cons simp: portal_assignment_fields_def portal_assignment_slots_def stored_fields)
    done
qed

lemma portal_blob_reads:
  assumes "flat_laws fb opn objs fobjs" "opn b = None"
    and "concat (map put_portal_datasets ps) = pb_all_datasets p"
    and "concat (map put_portal_entries ps) = map snd (pb_worker_entries p)"
  shows "\<exists>st f. portal_put_all fb ps (portal_store_new b) = Return st \<and>
    portal_store_finish fb st = Return f \<and>
    portal_assignment_read fb f (fb_root_unchecked fb f) = Return (portal_builder_finish p)"
proof -
  have laws: "write_laws fb opn objs" using assms(1) by (simp add: flat_laws_def)
  have "portal_stored opn objs (portal_store_new b) [] []"
    using assms(2) by (simp add: portal_stored_def portal_store_new_def)
  from portal_put_all_stored [OF laws this, of ps] assms(3,4) obtain st
    where st: "portal_put_all fb ps (portal_store_new b) = Return st"
      and h: "portal_stored opn objs st (pb_all_datasets p) (map snd (pb_worker_entries p))"
    by auto
  from blob_reads [OF assms(1) store_portal_root_stores [OF laws h] portal_assignment_stays
      portal_assignment_read_rep]
  show ?thesis
    using st by (fastforce simp: portal_store_finish_def portal_builder_finish_def)
qed

end
