(* ===== verification/Stored_Legacy.thy ===== *)
theory Stored_Legacy
  imports Stored_Worker Legacy_Builder
begin

text \<open>
  How \<^verbatim>\<open>AssignmentBuilder\<close> and its \<^verbatim>\<open>ChunkBuilder\<close> write their tables. Here a setter writes its string
  or vector at once and keeps the offset, equal file lists share one vector, and the key of the headers
  is written when the builder is made.

  The writes are related to the operations of \<^theory_text>\<open>Legacy_Builder\<close> by a simulation: \<open>legacy_at\<close> and
  \<open>chunk_at\<close> say that the offsets denote the records, every operation keeps the relation, and an
  operation of the one panics exactly when that of the other does. The fields that the schema requires
  are thus those that \<open>legacy_chunk_finish\<close> and \<open>finish_dataset\<close> insist on.
\<close>

section \<open>State\<close>

record ('b, 'o) legacy_store =
  ls_builder :: 'b
  ls_files_list_offsets :: "(string list \<times> 'o) list"
  ls_all_chunks :: "'o list"
  ls_last_block :: "u64 option"
  ls_current_chunks :: "'o list"
  ls_current_dataset_id :: "'o option"
  ls_all_datasets :: "'o list"
  ls_worker_assignments :: "(u8 list \<times> 'o) list"
  ls_common_identity :: 'o
  ls_check_continuity :: bool

definition legacy_store_new :: "('b, 'o, 'f) flatbuffers \<Rightarrow> u8 list \<Rightarrow> 'b \<Rightarrow> ('b, 'o) legacy_store" where
  "legacy_store_new fb public_key b =
    (case fb_create_vector fb (VecU8 public_key) b of (identity, b) \<Rightarrow>
     \<lparr>ls_builder = b, ls_files_list_offsets = [], ls_all_chunks = [], ls_last_block = None,
      ls_current_chunks = [], ls_current_dataset_id = None, ls_all_datasets = [],
      ls_worker_assignments = [], ls_common_identity = identity, ls_check_continuity = True\<rparr>)"

record 'o chunk_store =
  cs_block_range :: "block_range option"
  cs_id :: "'o option"
  cs_dataset_id :: "'o option"
  cs_size :: "u32 option"
  cs_last_block_hash :: "'o option"
  cs_last_block_timestamp :: "u64 option"
  cs_dataset_base_url :: "'o option"
  cs_files :: "'o option"
  cs_worker_indexes :: "'o option"

definition chunk_store_new :: "'o chunk_store" where
  "chunk_store_new =
    \<lparr>cs_block_range = None, cs_id = None, cs_dataset_id = None, cs_size = None,
     cs_last_block_hash = None, cs_last_block_timestamp = None, cs_dataset_base_url = None,
     cs_files = None, cs_worker_indexes = None\<rparr>"

section \<open>Chunks\<close>

definition store_file :: "('b, 'o, 'f) flatbuffers \<Rightarrow> string \<Rightarrow> 'b \<Rightarrow> ('o \<times> 'b) outcome" where
  "store_file fb f b =
    (case fb_create_string fb f b of (name, b) \<Rightarrow>
     file_url_create fb \<lparr>fua_filename = Some name, fua_url = Some name\<rparr> b)"

definition store_files ::
  "('b, 'o, 'f) flatbuffers \<Rightarrow> string list \<Rightarrow> ('b, 'o) legacy_store \<Rightarrow> ('o \<times> ('b, 'o) legacy_store) outcome"
where
  "store_files fb files st =
    (case map_of (ls_files_list_offsets st) files of
       Some off \<Rightarrow> Return (off, st)
     | None \<Rightarrow>
         outcome_bind (store_list (store_file fb) files (ls_builder st)) (\<lambda>(file_offsets, b).
         case fb_create_vector fb (VecOffset file_offsets) b of (off, b) \<Rightarrow>
         Return (off, st\<lparr>ls_builder := b,
           ls_files_list_offsets := (files, off) # ls_files_list_offsets st\<rparr>)))"

datatype chunk_setter =
    SetId string
  | SetDatasetId string
  | SetBlockRange block_range
  | SetSize u32
  | SetLastBlockHash string
  | SetLastBlockTimestamp u64
  | SetDatasetBaseUrl string
  | SetWorkerIndexes "u16 list"
  | SetFiles "string list"

fun store_setter ::
  "('b, 'o, 'f) flatbuffers \<Rightarrow> chunk_setter \<Rightarrow> ('b, 'o) legacy_store \<Rightarrow> 'o chunk_store \<Rightarrow>
    (('b, 'o) legacy_store \<times> 'o chunk_store) outcome"
where
  "store_setter fb (SetId s) st cs =
    (case fb_create_string fb s (ls_builder st) of (off, b) \<Rightarrow>
     Return (st\<lparr>ls_builder := b\<rparr>, cs\<lparr>cs_id := Some off\<rparr>))"
| "store_setter fb (SetDatasetId s) st cs =
    (case fb_create_shared_string fb s (ls_builder st) of (off, b) \<Rightarrow>
     Return (st\<lparr>ls_builder := b\<rparr>, cs\<lparr>cs_dataset_id := Some off\<rparr>))"
| "store_setter fb (SetBlockRange r) st cs = Return (st, cs\<lparr>cs_block_range := Some r\<rparr>)"
| "store_setter fb (SetSize n) st cs = Return (st, cs\<lparr>cs_size := Some n\<rparr>)"
| "store_setter fb (SetLastBlockHash s) st cs =
    (case fb_create_string fb s (ls_builder st) of (off, b) \<Rightarrow>
     Return (st\<lparr>ls_builder := b\<rparr>, cs\<lparr>cs_last_block_hash := Some off\<rparr>))"
| "store_setter fb (SetLastBlockTimestamp n) st cs = Return (st, cs\<lparr>cs_last_block_timestamp := Some n\<rparr>)"
| "store_setter fb (SetDatasetBaseUrl s) st cs =
    (case fb_create_shared_string fb s (ls_builder st) of (off, b) \<Rightarrow>
     Return (st\<lparr>ls_builder := b\<rparr>, cs\<lparr>cs_dataset_base_url := Some off\<rparr>))"
| "store_setter fb (SetWorkerIndexes xs) st cs =
    (case fb_create_vector fb (VecU16 xs) (ls_builder st) of (off, b) \<Rightarrow>
     Return (st\<lparr>ls_builder := b\<rparr>, cs\<lparr>cs_worker_indexes := Some off\<rparr>))"
| "store_setter fb (SetFiles files) st cs =
    outcome_map (\<lambda>(off, st). (st, cs\<lparr>cs_files := Some off\<rparr>)) (store_files fb files st)"

text \<open>The same setter on the records.\<close>

fun legacy_setter ::
  "chunk_setter \<Rightarrow> ('p, 'sk, 'rng) assignment_builder \<Rightarrow> legacy_chunk_builder \<Rightarrow>
    ('p, 'sk, 'rng) assignment_builder \<times> legacy_chunk_builder"
where
  "legacy_setter (SetId s) b cb = (b, cb\<lparr>lc_id := Some s\<rparr>)"
| "legacy_setter (SetDatasetId s) b cb = (b, legacy_chunk_dataset_id s cb)"
| "legacy_setter (SetBlockRange r) b cb = (b, legacy_chunk_block_range r cb)"
| "legacy_setter (SetSize n) b cb = (b, legacy_chunk_size n cb)"
| "legacy_setter (SetLastBlockHash s) b cb = (b, legacy_chunk_last_block_hash s cb)"
| "legacy_setter (SetLastBlockTimestamp n) b cb = (b, legacy_chunk_last_block_timestamp n cb)"
| "legacy_setter (SetDatasetBaseUrl s) b cb = (b, legacy_chunk_dataset_base_url s cb)"
| "legacy_setter (SetWorkerIndexes xs) b cb = (b, legacy_chunk_worker_indexes xs cb)"
| "legacy_setter (SetFiles files) b cb = legacy_chunk_files files b cb"

definition store_add_chunk ::
  "'o \<Rightarrow> 'o \<Rightarrow> block_range \<Rightarrow> ('b, 'o) legacy_store \<Rightarrow> ('b, 'o) legacy_store \<times> (string, unit) result"
where
  "store_add_chunk off dataset block_range st =
    (let result = continuity (ls_last_block st) (fst block_range)
     in (if result = Ok () \<or> \<not> ls_check_continuity st then
           st\<lparr>ls_all_chunks := ls_all_chunks st @ [off],
              ls_last_block := Some (snd block_range),
              ls_current_chunks := ls_current_chunks st @ [off],
              ls_current_dataset_id := Some dataset\<rparr>
         else st, result))"

definition chunk_args_of :: "block_range \<Rightarrow> u32 \<Rightarrow> 'o chunk_store \<Rightarrow> 'o chunk_args" where
  "chunk_args_of block_range size' cs =
    \<lparr>cka_first_block = fst block_range, cka_id = cs_id cs, cka_dataset_id = cs_dataset_id cs,
     cka_size = size', cka_last_block_hash = cs_last_block_hash cs,
     cka_last_block_timestamp = cs_last_block_timestamp cs,
     cka_dataset_base_url = cs_dataset_base_url cs, cka_base_url = cs_id cs, cka_files = cs_files cs,
     cka_worker_indexes = cs_worker_indexes cs\<rparr>"

definition store_chunk_finish ::
  "('b, 'o, 'f) flatbuffers \<Rightarrow> ('b, 'o) legacy_store \<Rightarrow> 'o chunk_store \<Rightarrow>
    (('b, 'o) legacy_store \<times> (string, unit) result) outcome"
where
  "store_chunk_finish fb st cs =
    outcome_bind (expect ''Block range must be set'' (cs_block_range cs)) (\<lambda>block_range.
    outcome_bind (expect ''Size must be set'' (cs_size cs)) (\<lambda>size'.
    outcome_bind (chunk_create fb (chunk_args_of block_range size' cs) (ls_builder st)) (\<lambda>(off, b).
    outcome_map (\<lambda>dataset. store_add_chunk off dataset block_range (st\<lparr>ls_builder := b\<rparr>))
      (expect ''Dataset ID must be set'' (cs_dataset_id cs)))))"

section \<open>Datasets, workers and the root\<close>

definition store_finish_dataset ::
  "('b, 'o, 'f) flatbuffers \<Rightarrow> ('b, 'o) legacy_store \<Rightarrow> ('b, 'o) legacy_store outcome" where
  "store_finish_dataset fb st =
    (case fb_create_vector fb (VecOffset (ls_current_chunks st)) (ls_builder st) of (chunks, b) \<Rightarrow>
     outcome_bind (expect ''At least one chunk should be present in the dataset'' (ls_last_block st))
       (\<lambda>last_block.
     outcome_map (\<lambda>(off, b).
       st\<lparr>ls_builder := b, ls_current_dataset_id := None, ls_last_block := None,
          ls_all_datasets := ls_all_datasets st @ [off], ls_current_chunks := []\<rparr>)
       (dataset_create fb
         \<lparr>dsa_id = ls_current_dataset_id st, dsa_chunks = Some chunks, dsa_last_block = last_block\<rparr> b)))"

definition store_legacy_entry ::
  "('b, 'o, 'f) flatbuffers \<Rightarrow> u8 list \<Rightarrow> u8 \<Rightarrow> 'o option \<Rightarrow> 'b \<Rightarrow> ('b, 'o) legacy_store \<Rightarrow>
    ('b, 'o) legacy_store outcome"
where
  "store_legacy_entry fb worker_id status headers b st =
    outcome_map
      (\<lambda>(off, b). st\<lparr>ls_builder := b,
         ls_worker_assignments := ls_worker_assignments st @ [(worker_id, off)]\<rparr>)
      (worker_entry_create fb
        \<lparr>wea_worker_id = Some worker_id, wea_status = status, wea_encrypted_headers = headers\<rparr> b)"

fun store_legacy_worker ::
  "('b, 'o, 'f) flatbuffers \<Rightarrow> u8 list \<Rightarrow> u8 \<Rightarrow> (u8 list \<times> u8 list) option \<Rightarrow>
    ('b, 'o) legacy_store \<Rightarrow> ('b, 'o) legacy_store outcome"
where
  "store_legacy_worker fb worker_id status None st =
    store_legacy_entry fb worker_id status None (ls_builder st) st"
| "store_legacy_worker fb worker_id status (Some (ciphertext, nonce)) st =
    outcome_bind
      (store_headers fb [] (Some (ls_common_identity st)) ciphertext nonce (ls_builder st))
      (\<lambda>((headers, identity), b). store_legacy_entry fb worker_id status (Some headers) b st)"

definition store_legacy_root ::
  "('b, 'o, 'f) flatbuffers \<Rightarrow> 'o list \<Rightarrow> 'o list \<Rightarrow> 'b \<Rightarrow> ('o \<times> 'b) outcome" where
  "store_legacy_root fb all_datasets entries b =
    (case fb_create_vector fb (VecOffset all_datasets) b of (datasets, b) \<Rightarrow>
     case fb_create_vector fb (VecOffset entries) b of (workers, b) \<Rightarrow>
     assignment_create fb \<lparr>asa_datasets = Some datasets, asa_workers = Some workers\<rparr> b)"

definition legacy_store_finish ::
  "('b, 'o, 'f) flatbuffers \<Rightarrow> ('b, 'o) legacy_store \<Rightarrow> 'f outcome" where
  "legacy_store_finish fb st =
    outcome_map (\<lambda>(root, b). fb_finish fb root b)
      (store_legacy_root fb (ls_all_datasets st) (map snd (ls_worker_assignments st)) (ls_builder st))"

section \<open>The relation to the records\<close>

definition chunk_at :: "('o \<rightharpoonup> 'o stored) \<Rightarrow> 'o chunk_store \<Rightarrow> legacy_chunk_builder \<Rightarrow> bool" where
  "chunk_at F cs cb =
    (cs_block_range cs = lc_block_range cb \<and> cs_size cs = lc_size cb \<and>
     cs_last_block_timestamp cs = lc_last_block_timestamp cb \<and>
     option_at Str F (cs_id cs) (lc_id cb) \<and> option_at Str F (cs_dataset_id cs) (lc_dataset_id cb) \<and>
     option_at Str F (cs_last_block_hash cs) (lc_last_block_hash cb) \<and>
     option_at Str F (cs_dataset_base_url cs) (lc_dataset_base_url cb) \<and>
     option_each (rep file_url_fields) F (cs_files cs) (lc_files cb) \<and>
     option_at (\<lambda>y. Vec (VecU16 y)) F (cs_worker_indexes cs) (lc_worker_indexes cb))"

definition files_at ::
  "('o \<rightharpoonup> 'o stored) \<Rightarrow> string list \<times> 'o \<Rightarrow> string list \<times> file_url list \<Rightarrow> bool" where
  "files_at F x y = (fst x = fst y \<and> denotes_each (rep file_url_fields) F (SlotOffset (snd x)) (snd y))"

definition legacy_at ::
  "('o \<rightharpoonup> 'o stored) \<Rightarrow> ('b, 'o) legacy_store \<Rightarrow> ('p, 'sk, 'rng) assignment_builder \<Rightarrow> bool" where
  "legacy_at F st b =
    (list_all2 (files_at F) (ls_files_list_offsets st) (lb_files_list_offsets b) \<and>
     list_all2 (rep chunk_fields F) (ls_all_chunks st) (lb_all_chunks b) \<and>
     ls_last_block st = lb_last_block b \<and>
     list_all2 (rep chunk_fields F) (ls_current_chunks st) (lb_current_chunks b) \<and>
     option_at Str F (ls_current_dataset_id st) (lb_current_dataset_id b) \<and>
     list_all2 (rep dataset_fields F) (ls_all_datasets st) (lb_all_datasets b) \<and>
     list_all2 (rep worker_entry_fields F) (map snd (ls_worker_assignments st))
       (map snd (lb_worker_assignments b)) \<and>
     F (ls_common_identity st) = Some (Vec (VecU8 (lb_common_identity b))) \<and>
     ls_check_continuity st = lb_check_continuity b)"

lemma stays_files_at [simp]: "stays files_at"
proof -
  have "denotes_each (rep file_url_fields) G v x"
    if "F \<subseteq>\<^sub>m G" "denotes_each (rep file_url_fields) F v x" for F G :: "'a \<rightharpoonup> 'a stored" and v x
    by (rule staysD [where P = "denotes_each (rep file_url_fields)", OF _ that]) simp
  then show ?thesis unfolding stays_def files_at_def by blast
qed

lemma stays_chunk_at [simp]: "stays chunk_at"
  unfolding stays_def chunk_at_def
  by (meson staysD [OF stays_option_at] staysD [OF stays_option_each [OF stays_rep [OF file_url_stays]]])

lemma stays_legacy_at [simp]: "stays (\<lambda>F. legacy_at F)"
  unfolding stays_def legacy_at_def
  by (meson map_leD staysD [OF stays_option_at] staysD [OF stays_list [OF stays_files_at]]
    staysD [OF stays_list [OF stays_rep [OF chunk_stays]]]
    staysD [OF stays_list [OF stays_rep [OF dataset_stays]]]
    staysD [OF stays_list [OF stays_rep [OF worker_entry_stays]]])

definition legacy_rel ::
  "('b \<Rightarrow> 'o slots option) \<Rightarrow> ('b \<Rightarrow> 'o \<rightharpoonup> 'o stored) \<Rightarrow> ('b, 'o) legacy_store \<Rightarrow>
    ('p, 'sk, 'rng) assignment_builder \<Rightarrow> bool"
where
  "legacy_rel opn objs st b = (opn (ls_builder st) = None \<and> legacy_at (objs (ls_builder st)) st b)"

lemma legacy_at_builder [simp]: "legacy_at F (st\<lparr>ls_builder := c\<rparr>) b = legacy_at F st b"
  by (simp add: legacy_at_def)

lemma legacy_rel_later:
  assumes "legacy_rel opn objs st b" "later opn objs (ls_builder st) c"
  shows "legacy_rel opn objs (st\<lparr>ls_builder := c\<rparr>) b"
proof -
  have "legacy_at (objs c) st b"
    by (rule staysD [OF stays_legacy_at]) (use assms in \<open>auto simp: legacy_rel_def later_def\<close>)
  with assms(2) show ?thesis by (simp add: legacy_rel_def later_def)
qed

lemma chunk_at_later: "chunk_at (objs b) cs cb \<Longrightarrow> later opn objs b c \<Longrightarrow> chunk_at (objs c) cs cb"
  by (rule staysD [OF stays_chunk_at]) (auto simp: later_def)

section \<open>Setters\<close>

definition url_at :: "('o \<rightharpoonup> 'o stored) \<Rightarrow> 'o \<Rightarrow> string \<Rightarrow> bool" where
  "url_at F off f = rep file_url_fields F off \<lparr>fu_filename = f, fu_url = f\<rparr>"

lemma stays_url_at [simp]: "stays url_at"
  unfolding stays_def url_at_def by (meson staysD [OF stays_rep [OF file_url_stays]])

lemma url_at_each:
  "list_all2 (url_at F) offs files \<Longrightarrow>
    list_all2 (rep file_url_fields F) offs (map (\<lambda>f. \<lparr>fu_filename = f, fu_url = f\<rparr>) files)"
  by (simp add: list_all2_map2 url_at_def [abs_def])

lemma store_file_stores:
  assumes "write_laws fb opn objs" "opn b = None"
  shows "stores opn objs url_at f b (store_file fb f b)"
proof -
  have start: "progress opn objs b b []" using assms(2) by (rule progress_start)
  have "stores opn objs (rep file_url_fields) \<lparr>fu_filename = f, fu_url = f\<rparr> b (store_file fb f b)"
    unfolding store_file_def
    apply (rule call_steps(2) [OF assms(1) start])
    apply (erule stores_last, erule file_url_stored [OF assms(1)])
    apply (auto dest!: known_Cons simp: file_url_fields_def file_url_slots_def stored_fields)
    done
  then show ?thesis by (simp add: stores_def url_at_def)
qed

lemma files_at_lookup:
  assumes "list_all2 (files_at F) xs ys"
  shows "rel_option (\<lambda>off fs. denotes_each (rep file_url_fields) F (SlotOffset off) fs)
    (map_of xs k) (map_of ys k)"
  using assms by (induction rule: list_all2_induct) (auto simp: files_at_def)

lemma store_files_sim:
  assumes "write_laws fb opn objs" "legacy_rel opn objs st b"
  shows "\<exists>off st'. store_files fb files st = Return (off, st') \<and>
    later opn objs (ls_builder st) (ls_builder st') \<and>
    legacy_rel opn objs st' (fst (cache_files_list files b)) \<and>
    denotes_each (rep file_url_fields) (objs (ls_builder st')) (SlotOffset off)
      (snd (cache_files_list files b))"
proof -
  have closed: "opn (ls_builder st) = None" using assms(2) by (simp add: legacy_rel_def)
  have look: "rel_option (\<lambda>off fs. denotes_each (rep file_url_fields) (objs (ls_builder st)) (SlotOffset off) fs)
      (map_of (ls_files_list_offsets st) files) (map_of (lb_files_list_offsets b) files)"
    by (rule files_at_lookup) (use assms(2) in \<open>simp add: legacy_rel_def legacy_at_def\<close>)
  show ?thesis
  proof (cases "map_of (ls_files_list_offsets st) files")
    case (Some off)
    with look obtain fs where "map_of (lb_files_list_offsets b) files = Some fs"
      and "denotes_each (rep file_url_fields) (objs (ls_builder st)) (SlotOffset off) fs"
      by (auto elim: option.rel_cases)
    with Some assms(2) closed show ?thesis by (simp add: store_files_def cache_files_list_def)
  next
    case None
    with look have none: "map_of (lb_files_list_offsets b) files = None" by (auto elim: option.rel_cases)
    from store_list_stores [OF store_file_stores [OF assms(1)] stays_url_at closed, of files]
    obtain offs c where st: "store_list (store_file fb) files (ls_builder st) = Return (offs, c)"
      and l: "later opn objs (ls_builder st) c" and offs: "list_all2 (url_at (objs c)) offs files"
      by (auto simp: stores_def)
    obtain off c' where cv: "fb_create_vector fb (VecOffset offs) c = (off, c')" by fastforce
    from write_lawsD(8) [OF assms(1) later_closed [OF l], of "VecOffset offs"] cv
    have l': "later opn objs c c'" and off: "objs c' off = Some (Vec (VecOffset offs))"
      by (simp_all add: adds_object_def)
    from url_at_each [OF list_all2_later [OF l' stays_url_at offs]] off
    have "denotes_each (rep file_url_fields) (objs c') (SlotOffset off)
        (map (\<lambda>f. \<lparr>fu_filename = f, fu_url = f\<rparr>) files)"
      by simp
    with legacy_rel_later [OF assms(2) later_trans [OF l l']] later_trans [OF l l'] None none st cv
    show ?thesis
      by (simp add: store_files_def cache_files_list_def legacy_rel_def legacy_at_def files_at_def Let_def)
  qed
qed

text \<open>A setter that writes one string or vector.\<close>

lemma setter_write:
  assumes "legacy_rel opn objs st b" "chunk_at (objs (ls_builder st)) cs cb"
    and "adds_object opn objs x (ls_builder st) (off, c)"
  shows "legacy_rel opn objs (st\<lparr>ls_builder := c\<rparr>) b \<and> chunk_at (objs c) cs cb \<and>
    later opn objs (ls_builder st) c \<and> objs c off = Some x"
proof -
  from assms(3) have l: "later opn objs (ls_builder st) c" and off: "objs c off = Some x"
    by (simp_all add: adds_object_def)
  from legacy_rel_later [OF assms(1) l] chunk_at_later [OF assms(2) l] l off show ?thesis by simp
qed

lemma store_setter_sim:
  assumes "write_laws fb opn objs" "legacy_rel opn objs st b" "chunk_at (objs (ls_builder st)) cs cb"
    and "legacy_setter s b cb = (b', cb')"
  shows "\<exists>st' cs'. store_setter fb s st cs = Return (st', cs') \<and> legacy_rel opn objs st' b' \<and>
    chunk_at (objs (ls_builder st')) cs' cb'"
proof -
  have closed: "opn (ls_builder st) = None" using assms(2) by (simp add: legacy_rel_def)
  note w = write_lawsD(6-8) [OF assms(1) closed] and wr = setter_write [OF assms(2,3)]
  show ?thesis
  proof (cases s)
    case (SetId x)
    obtain off c where e: "fb_create_string fb x (ls_builder st) = (off, c)" by (rule prod.exhaust)
    from wr [OF w(1) [of x, unfolded e]] e SetId assms(4) show ?thesis
      by (auto simp: chunk_at_def)
  next
    case (SetDatasetId x)
    obtain off c where e: "fb_create_shared_string fb x (ls_builder st) = (off, c)" by (rule prod.exhaust)
    from wr [OF w(2) [of x, unfolded e]] e SetDatasetId assms(4) show ?thesis
      by (auto simp: chunk_at_def legacy_chunk_dataset_id_def)
  next
    case (SetLastBlockHash x)
    obtain off c where e: "fb_create_string fb x (ls_builder st) = (off, c)" by (rule prod.exhaust)
    from wr [OF w(1) [of x, unfolded e]] e SetLastBlockHash assms(4) show ?thesis
      by (auto simp: chunk_at_def legacy_chunk_last_block_hash_def)
  next
    case (SetDatasetBaseUrl x)
    obtain off c where e: "fb_create_shared_string fb x (ls_builder st) = (off, c)" by (rule prod.exhaust)
    from wr [OF w(2) [of x, unfolded e]] e SetDatasetBaseUrl assms(4) show ?thesis
      by (auto simp: chunk_at_def legacy_chunk_dataset_base_url_def)
  next
    case (SetWorkerIndexes xs)
    obtain off c where e: "fb_create_vector fb (VecU16 xs) (ls_builder st) = (off, c)" by (rule prod.exhaust)
    from wr [OF w(3) [of "VecU16 xs", unfolded e]] e SetWorkerIndexes assms(4) show ?thesis
      by (auto simp: chunk_at_def legacy_chunk_worker_indexes_def)
  next
    case (SetFiles files)
    from store_files_sim [OF assms(1,2), of files] obtain off st'
      where st': "store_files fb files st = Return (off, st')"
        and l: "later opn objs (ls_builder st) (ls_builder st')"
        and r: "legacy_rel opn objs st' (fst (cache_files_list files b))"
        and d: "denotes_each (rep file_url_fields) (objs (ls_builder st')) (SlotOffset off)
          (snd (cache_files_list files b))"
      by blast
    from st' r d chunk_at_later [OF assms(3) l] SetFiles assms(4) show ?thesis
      by (cases "cache_files_list files b") (auto simp: legacy_chunk_files_def chunk_at_def)
  qed (use assms in \<open>auto simp: chunk_at_def legacy_chunk_block_range_def legacy_chunk_size_def
      legacy_chunk_last_block_timestamp_def\<close>)
qed

section \<open>Finishing a chunk\<close>

text \<open>The table is complete exactly when the record's required fields are set.\<close>

definition legacy_chunk_of :: "block_range \<Rightarrow> u32 \<Rightarrow> legacy_chunk_builder \<Rightarrow> fb_chunk" where
  "legacy_chunk_of block_range size' cb =
    \<lparr>ck_first_block = fst block_range, ck_id = the (lc_id cb), ck_dataset_id = the (lc_dataset_id cb),
     ck_size = size', ck_last_block_hash = lc_last_block_hash cb,
     ck_last_block_timestamp = lc_last_block_timestamp cb,
     ck_dataset_base_url = the (lc_dataset_base_url cb), ck_base_url = the (lc_id cb),
     ck_files = the (lc_files cb), ck_worker_indexes = the (lc_worker_indexes cb)\<rparr>"

definition chunk_complete :: "legacy_chunk_builder \<Rightarrow> bool" where
  "chunk_complete cb =
    (lc_id cb \<noteq> None \<and> lc_dataset_id cb \<noteq> None \<and> lc_dataset_base_url cb \<noteq> None \<and>
     lc_files cb \<noteq> None \<and> lc_worker_indexes cb \<noteq> None)"

lemma option_at_None:
  "option_at con F o' x \<Longrightarrow> o' = None \<longleftrightarrow> x = None"
  "option_each R F o' y \<Longrightarrow> o' = None \<longleftrightarrow> y = None"
  by (cases o'; auto)+

lemma holds_required:
  "t s = map_option SlotOffset o' \<Longrightarrow> option_at Str F o' x \<Longrightarrow> x \<noteq> None \<Longrightarrow>
    holds_slot denotes_str F t s (the x)"
  "t s = map_option SlotOffset o' \<Longrightarrow> option_at (\<lambda>y. Vec (con y)) F o' z \<Longrightarrow> z \<noteq> None \<Longrightarrow>
    holds_slot (denotes_vec con) F t s (the z)"
  "t s = map_option SlotOffset o' \<Longrightarrow> option_each R F o' y \<Longrightarrow> y \<noteq> None \<Longrightarrow>
    holds_slot (denotes_each R) F t s (the y)"
  by (cases o'; auto simp: holds_slot_def)+

lemma holds_timestamp:
  "t s = map_option SlotU64 x \<Longrightarrow> holds_option (\<lambda>F v x. v = SlotU64 x) F t s x"
  by (cases x) (simp_all add: holds_option_def holds_slot_def)

lemma chunk_create_sim:
  assumes "write_laws fb opn objs" "opn b = None" "chunk_at (objs b) cs cb"
  shows "if chunk_complete cb
    then stores opn objs (rep chunk_fields) (legacy_chunk_of r n cb) b (chunk_create fb (chunk_args_of r n cs) b)
    else \<exists>m. chunk_create fb (chunk_args_of r n cs) b = Panic m"
proof (cases "chunk_complete cb")
  case True
  have "chunk_fields (objs b) (chunk_slots (chunk_args_of r n cs)) (legacy_chunk_of r n cb)"
    using assms(3) True unfolding chunk_complete_def chunk_at_def
    by (simp add: chunk_fields_def chunk_slots_def chunk_args_of_def legacy_chunk_of_def holds_scalar_def
        holds_required holds_of_known holds_timestamp del: not_None_eq)
  from chunk_stored [OF assms(1,2) this] True show ?thesis by simp
next
  case False
  have "\<not> (\<forall>s \<in> set [6, 8, 16, 18, 20, 22]. chunk_slots (chunk_args_of r n cs) s \<noteq> None)"
    using assms(3) False
    by (auto simp: chunk_complete_def chunk_at_def chunk_slots_def chunk_args_of_def
        dest: option_at_None)
  with chunk_creates [OF assms(1,2), of "chunk_args_of r n cs"] False show ?thesis
    by (simp add: creates_def)
qed

lemma legacy_chunk_finish_cases:
  assumes "lc_block_range cb = Some r" "lc_size cb = Some n"
  shows "if chunk_complete cb
    then legacy_chunk_finish b cb = Return (add_chunk (legacy_chunk_of r n cb) (the (lc_dataset_id cb)) r b)
    else \<exists>m. legacy_chunk_finish b cb = Panic m"
  using assms
  by (auto simp: legacy_chunk_finish_def chunk_complete_def legacy_chunk_of_def expect_def split: option.splits)

lemma store_add_chunk_sim:
  assumes "legacy_rel opn objs st b" "rep chunk_fields (objs (ls_builder st)) off c"
    and "objs (ls_builder st) ds = Some (Str dataset)"
  shows "\<exists>st'. store_add_chunk off ds r st = (st', snd (add_chunk c dataset r b)) \<and>
    legacy_rel opn objs st' (fst (add_chunk c dataset r b))"
  using assms by (auto simp: store_add_chunk_def add_chunk_def Let_def legacy_rel_def legacy_at_def
      list_all2_appendI)

lemma store_chunk_finish_sim:
  assumes "write_laws fb opn objs" "legacy_rel opn objs st b" "chunk_at (objs (ls_builder st)) cs cb"
  shows "case legacy_chunk_finish b cb of
      Return (b', result) \<Rightarrow> \<exists>st'. store_chunk_finish fb st cs = Return (st', result) \<and> legacy_rel opn objs st' b'
    | Panic m \<Rightarrow> \<exists>m'. store_chunk_finish fb st cs = Panic m'"
proof (cases "lc_block_range cb = None \<or> lc_size cb = None")
  case True
  with assms(3) show ?thesis
    by (auto simp: legacy_chunk_finish_def store_chunk_finish_def chunk_at_def expect_def split: option.splits)
next
  case False
  then obtain r n where rn: "lc_block_range cb = Some r" "lc_size cb = Some n" by auto
  with assms(3) have csrn: "cs_block_range cs = Some r" "cs_size cs = Some n" by (simp_all add: chunk_at_def)
  have closed: "opn (ls_builder st) = None" using assms(2) by (simp add: legacy_rel_def)
  note create = chunk_create_sim [OF assms(1) closed assms(3), of r n]
  note ends = legacy_chunk_finish_cases [OF rn, of b]
  show ?thesis
  proof (cases "chunk_complete cb")
    case False
    with create ends csrn show ?thesis by (auto simp: store_chunk_finish_def)
  next
    case True
    with create obtain off c
      where cr: "chunk_create fb (chunk_args_of r n cs) (ls_builder st) = Return (off, c)"
        and l: "later opn objs (ls_builder st) c" and off: "rep chunk_fields (objs c) off (legacy_chunk_of r n cb)"
      by (auto simp: stores_def)
    from True chunk_at_later [OF assms(3) l] obtain ds where ds: "cs_dataset_id cs = Some ds"
      and str: "objs c ds = Some (Str (the (lc_dataset_id cb)))"
      by (cases "cs_dataset_id cs") (auto simp: chunk_complete_def chunk_at_def)
    from store_add_chunk_sim [OF legacy_rel_later [OF assms(2) l], of off "legacy_chunk_of r n cb" ds
        "the (lc_dataset_id cb)" r] off str
    obtain st' where "store_add_chunk off ds r (st\<lparr>ls_builder := c\<rparr>) =
        (st', snd (add_chunk (legacy_chunk_of r n cb) (the (lc_dataset_id cb)) r b))"
      and "legacy_rel opn objs st' (fst (add_chunk (legacy_chunk_of r n cb) (the (lc_dataset_id cb)) r b))"
      by auto
    with True ends csrn cr ds show ?thesis
      by (cases "add_chunk (legacy_chunk_of r n cb) (the (lc_dataset_id cb)) r b")
        (simp add: store_chunk_finish_def)
  qed
qed

section \<open>Finishing a dataset\<close>

lemma dataset_create_sim:
  assumes "write_laws fb opn objs" "opn b = None" "option_at Str (objs b) o' name"
    and "list_all2 (rep chunk_fields (objs b)) offs cs" "objs b chunks = Some (Vec (VecOffset offs))"
  shows "case name of
      Some id' \<Rightarrow> stores opn objs (rep dataset_fields) \<lparr>ds_id = id', ds_chunks = cs, ds_last_block = n\<rparr> b
        (dataset_create fb \<lparr>dsa_id = o', dsa_chunks = Some chunks, dsa_last_block = n\<rparr> b)
    | None \<Rightarrow> \<exists>m. dataset_create fb \<lparr>dsa_id = o', dsa_chunks = Some chunks, dsa_last_block = n\<rparr> b = Panic m"
proof (cases name)
  case None
  with assms(3) have "o' = None" by (cases o') auto
  with dataset_creates [OF assms(1,2), of "\<lparr>dsa_id = o', dsa_chunks = Some chunks, dsa_last_block = n\<rparr>"] None
  show ?thesis by (simp add: creates_def dataset_slots_def)
next
  case (Some id')
  with assms(3) obtain i where "o' = Some i" "objs b i = Some (Str id')" by (cases o') auto
  with assms(4,5) have "dataset_fields (objs b)
      (dataset_slots \<lparr>dsa_id = o', dsa_chunks = Some chunks, dsa_last_block = n\<rparr>)
      \<lparr>ds_id = id', ds_chunks = cs, ds_last_block = n\<rparr>"
    by (simp add: dataset_fields_def dataset_slots_def stored_fields object_at_def holds_slot_def)
  from dataset_stored [OF assms(1,2) this] Some show ?thesis by simp
qed

lemma store_finish_dataset_sim:
  assumes "write_laws fb opn objs" "legacy_rel opn objs st b"
  shows "case finish_dataset b of
      Return b' \<Rightarrow> \<exists>st'. store_finish_dataset fb st = Return st' \<and> legacy_rel opn objs st' b'
    | Panic m \<Rightarrow> \<exists>m'. store_finish_dataset fb st = Panic m'"
proof -
  have closed: "opn (ls_builder st) = None" using assms(2) by (simp add: legacy_rel_def)
  obtain chunks c where cv: "fb_create_vector fb (VecOffset (ls_current_chunks st)) (ls_builder st) = (chunks, c)"
    by (rule prod.exhaust)
  from write_lawsD(8) [OF assms(1) closed, of "VecOffset (ls_current_chunks st)"] cv
  have l: "later opn objs (ls_builder st) c"
    and vec: "objs c chunks = Some (Vec (VecOffset (ls_current_chunks st)))"
    by (simp_all add: adds_object_def)
  note rel = legacy_rel_later [OF assms(2) l]
  have at: "option_at Str (objs c) (ls_current_dataset_id st) (lb_current_dataset_id b)"
    "list_all2 (rep chunk_fields (objs c)) (ls_current_chunks st) (lb_current_chunks b)"
    and last: "ls_last_block st = lb_last_block b"
    using rel by (simp_all add: legacy_rel_def legacy_at_def)
  note create = dataset_create_sim [OF assms(1) later_closed [OF l] at vec]
  show ?thesis
  proof (cases "lb_last_block b")
    case None
    with last cv show ?thesis by (simp add: finish_dataset_def store_finish_dataset_def)
  next
    case (Some n)
    show ?thesis
    proof (cases "lb_current_dataset_id b")
      case None
      with Some last cv create [of n] show ?thesis
        by (auto simp: finish_dataset_def store_finish_dataset_def)
    next
      case (Some id')
      let ?d = "\<lparr>ds_id = id', ds_chunks = lb_current_chunks b, ds_last_block = n\<rparr>"
      from create [of n] Some obtain off c'
        where cr: "dataset_create fb \<lparr>dsa_id = ls_current_dataset_id st, dsa_chunks = Some chunks,
            dsa_last_block = n\<rparr> c = Return (off, c')"
          and l': "later opn objs c c'" and off: "rep dataset_fields (objs c') off ?d"
        by (auto simp: stores_def)
      from legacy_rel_later [OF assms(2) later_trans [OF l l']] off cr cv last Some \<open>lb_last_block b = Some n\<close>
      show ?thesis
        by (simp add: finish_dataset_def store_finish_dataset_def legacy_rel_def legacy_at_def
            list_all2_appendI)
    qed
  qed
qed

section \<open>Workers\<close>

lemma store_headers_known_key:
  "store_headers fb k (Some i) ciphertext nonce b = store_headers fb k' (Some i) ciphertext nonce b"
  by (simp add: store_headers_def store_identity_def)

definition legacy_put_worker :: "u8 list \<Rightarrow> u8 \<Rightarrow> (u8 list \<times> u8 list) option \<Rightarrow>
    ('p, 'sk, 'rng) assignment_builder \<Rightarrow> ('p, 'sk, 'rng) assignment_builder"
where
  "legacy_put_worker worker_id status headers b =
    b\<lparr>lb_worker_assignments := lb_worker_assignments b @
      [(worker_id, \<lparr>we_worker_id = worker_id, we_status = status, we_encrypted_headers =
         map_option (\<lambda>(ciphertext, nonce). \<lparr>eh_identity = lb_common_identity b, eh_nonce = nonce,
           eh_ciphertext = ciphertext\<rparr>) headers\<rparr>)]\<rparr>"

text \<open>
  \<open>legacy_put_worker\<close> is what \<open>legacy_add_worker_with_timestamp\<close> does to the tables, given the pair that the
  encryption returned.
\<close>

lemma legacy_add_worker_tables:
  assumes "legacy_add_worker_with_timestamp cr p status cs ts b = Return b'"
  shows "\<exists>headers. b' = legacy_put_worker (take WORKER_ID_LEN (cr_to_bytes cr p)) (status_to_fb status) headers
    (b\<lparr>lb_last_peer_id := Some p, lb_rng := lb_rng b'\<rparr>)"
proof -
  obtain rng r where e: "encrypt_with_rng cr p (lb_common_secret_key b)
      (as_bytes (header_plaintext (cr_to_string cr p)
        (timed_hmac cr (cr_to_string cr p) (lb_cloudflare_storage_secret b) ts))) (lb_rng b) = (rng, r)"
    by (rule prod.exhaust)
  with assms show ?thesis
    by (cases r)
      (auto simp: legacy_add_worker_with_timestamp_def legacy_put_worker_def worker_id_from_def Let_def result_ok_def
        legacy_generate_encrypted_headers_def split: if_splits
        intro: exI [where x = None] exI [where x = "Some (u, v)" for u v])
qed

lemma store_legacy_entry_sim:
  assumes "write_laws fb opn objs" "legacy_rel opn objs st b" "later opn objs (ls_builder st) c"
    and "rel_option (rep encrypted_headers_fields (objs c)) headers h"
  shows "\<exists>st'. store_legacy_entry fb worker_id status headers c st = Return st' \<and>
    legacy_rel opn objs st' (b\<lparr>lb_worker_assignments := lb_worker_assignments b @
      [(worker_id, \<lparr>we_worker_id = worker_id, we_status = status, we_encrypted_headers = h\<rparr>)]\<rparr>)"
proof -
  from worker_entry_stored_with [OF assms(1) later_closed [OF assms(3)] assms(4), of worker_id status]
  obtain off c' where "worker_entry_create fb
      \<lparr>wea_worker_id = Some worker_id, wea_status = status, wea_encrypted_headers = headers\<rparr> c = Return (off, c')"
    and l: "later opn objs c c'" and "rep worker_entry_fields (objs c') off
      \<lparr>we_worker_id = worker_id, we_status = status, we_encrypted_headers = h\<rparr>"
    by (auto simp: stores_def)
  with legacy_rel_later [OF assms(2) later_trans [OF assms(3) l]] show ?thesis
    by (simp add: store_legacy_entry_def legacy_rel_def legacy_at_def list_all2_appendI)
qed

lemma store_legacy_worker_sim:
  assumes "write_laws fb opn objs" "legacy_rel opn objs st b"
  shows "\<exists>st'. store_legacy_worker fb worker_id status headers st = Return st' \<and>
    legacy_rel opn objs st' (legacy_put_worker worker_id status headers b)"
proof (cases headers)
  case None
  have "opn (ls_builder st) = None" using assms(2) by (simp add: legacy_rel_def)
  from store_legacy_entry_sim [OF assms later_refl [where opn = opn, OF this], of None None] None
  show ?thesis by (simp add: legacy_put_worker_def)
next
  case (Some cn)
  let ?k = "lb_common_identity b" and ?i = "ls_common_identity st"
  let ?h = "\<lparr>eh_identity = ?k, eh_nonce = snd cn, eh_ciphertext = fst cn\<rparr>"
  have closed: "opn (ls_builder st) = None"
    and key: "\<forall>i. Some ?i = Some i \<longrightarrow> objs (ls_builder st) i = Some (Vec (VecU8 ?k))"
    using assms(2) by (simp_all add: legacy_rel_def legacy_at_def)
  from store_headers_stores [OF assms(1) closed key, of "snd cn" "fst cn"] obtain offs c
    where cr: "store_headers fb ?k (Some ?i) (fst cn) (snd cn) (ls_builder st) = Return (offs, c)"
      and l: "later opn objs (ls_builder st) c" and at: "headers_at ?k (objs c) offs ?h"
    by (auto simp: stores_def)
  from at have "rel_option (rep encrypted_headers_fields (objs c)) (Some (fst offs)) (Some ?h)"
    by (cases offs) (simp add: headers_at_def)
  from store_legacy_entry_sim [OF assms l this] cr Some show ?thesis
    by (cases cn; cases offs)
      (simp add: legacy_put_worker_def store_headers_known_key [of fb "[]" _ _ _ _ ?k])
qed

section \<open>Runs of the builder\<close>

datatype legacy_call =
    CheckContinuity bool
  | AddChunk "chunk_setter list"
  | DropChunk "chunk_setter list"
  | FinishDataset
  | AddWorker "u8 list" u8 "(u8 list \<times> u8 list) option"

fun store_setters ::
  "('b, 'o, 'f) flatbuffers \<Rightarrow> chunk_setter list \<Rightarrow> ('b, 'o) legacy_store \<Rightarrow> 'o chunk_store \<Rightarrow>
    (('b, 'o) legacy_store \<times> 'o chunk_store) outcome"
where
  "store_setters fb [] st cs = Return (st, cs)"
| "store_setters fb (s # ss) st cs =
    outcome_bind (store_setter fb s st cs) (\<lambda>(st, cs). store_setters fb ss st cs)"

fun legacy_setters ::
  "chunk_setter list \<Rightarrow> ('p, 'sk, 'rng) assignment_builder \<Rightarrow> legacy_chunk_builder \<Rightarrow>
    ('p, 'sk, 'rng) assignment_builder \<times> legacy_chunk_builder"
where
  "legacy_setters [] b cb = (b, cb)"
| "legacy_setters (s # ss) b cb = (case legacy_setter s b cb of (b, cb) \<Rightarrow> legacy_setters ss b cb)"

fun store_call ::
  "('b, 'o, 'f) flatbuffers \<Rightarrow> legacy_call \<Rightarrow> ('b, 'o) legacy_store \<Rightarrow>
    (('b, 'o) legacy_store \<times> (string, unit) result) outcome"
where
  "store_call fb (CheckContinuity check) st = Return (st\<lparr>ls_check_continuity := check\<rparr>, Ok ())"
| "store_call fb (AddChunk setters) st =
    outcome_bind (store_setters fb setters st chunk_store_new) (\<lambda>(st, cs). store_chunk_finish fb st cs)"
| "store_call fb (DropChunk setters) st =
    outcome_map (\<lambda>(st, cs). (st, Ok ())) (store_setters fb setters st chunk_store_new)"
| "store_call fb FinishDataset st = outcome_map (\<lambda>st. (st, Ok ())) (store_finish_dataset fb st)"
| "store_call fb (AddWorker worker_id status headers) st =
    outcome_map (\<lambda>st. (st, Ok ())) (store_legacy_worker fb worker_id status headers st)"

fun records_call ::
  "legacy_call \<Rightarrow> ('p, 'sk, 'rng) assignment_builder \<Rightarrow>
    (('p, 'sk, 'rng) assignment_builder \<times> (string, unit) result) outcome"
where
  "records_call (CheckContinuity check) b = Return (legacy_check_continuity check b, Ok ())"
| "records_call (AddChunk setters) b =
    (case legacy_setters setters b legacy_new_chunk of (b, cb) \<Rightarrow> legacy_chunk_finish b cb)"
| "records_call (DropChunk setters) b = Return (fst (legacy_setters setters b legacy_new_chunk), Ok ())"
| "records_call FinishDataset b = outcome_map (\<lambda>b. (b, Ok ())) (finish_dataset b)"
| "records_call (AddWorker worker_id status headers) b =
    Return (legacy_put_worker worker_id status headers b, Ok ())"

text \<open>A run keeps the answer of every call.\<close>

fun run_calls ::
  "('c \<Rightarrow> 's \<Rightarrow> ('s \<times> (string, unit) result) outcome) \<Rightarrow> 'c list \<Rightarrow> 's \<Rightarrow>
    ('s \<times> (string, unit) result list) outcome"
where
  "run_calls call [] st = Return (st, [])"
| "run_calls call (c # cs) st =
    outcome_bind (call c st) (\<lambda>(st, r). outcome_map (\<lambda>(st, rs). (st, r # rs)) (run_calls call cs st))"

text \<open>Two outcomes agree: both panic, or both return the same answer and related states.\<close>

definition agree ::
  "('s \<Rightarrow> 't \<Rightarrow> bool) \<Rightarrow> ('s \<times> 'r) outcome \<Rightarrow> ('t \<times> 'r) outcome \<Rightarrow> bool" where
  "agree R x y =
    (case y of
       Return (t, r) \<Rightarrow> \<exists>s. x = Return (s, r) \<and> R s t
     | Panic m \<Rightarrow> \<exists>m'. x = Panic m')"

lemma agree_simps [simp]:
  "agree R x (Panic m) \<longleftrightarrow> (\<exists>m'. x = Panic m')"
  "agree R x (Return (t, r)) \<longleftrightarrow> (\<exists>s. x = Return (s, r) \<and> R s t)"
  by (simp_all add: agree_def)

lemma agree_run:
  assumes "\<And>c s t. R s t \<Longrightarrow> agree R (f c s) (g c t)" "R s t"
  shows "agree R (run_calls f cs s) (run_calls g cs t)"
  using assms(2)
proof (induction cs arbitrary: s t)
  case (Cons c cs)
  note one = assms(1) [OF Cons.prems, of c]
  show ?case
  proof (cases "g c t")
    case (Panic m)
    with one show ?thesis by auto
  next
    case (Return x)
    obtain t' r where x: "x = (t', r)" by (rule prod.exhaust)
    with one Return obtain s' where s': "f c s = Return (s', r)" and "R s' t'" by auto
    with Cons.IH have rest: "agree R (run_calls f cs s') (run_calls g cs t')" by blast
    show ?thesis
    proof (cases "run_calls g cs t'")
      case (Panic m)
      with rest Return x s' show ?thesis by auto
    next
      case ret: (Return y)
      with rest Return x s' show ?thesis by (cases y) auto
    qed
  qed
qed simp

lemma store_setters_sim:
  assumes "write_laws fb opn objs" "legacy_rel opn objs st b" "chunk_at (objs (ls_builder st)) cs cb"
    and "legacy_setters ss b cb = (b', cb')"
  shows "\<exists>st' cs'. store_setters fb ss st cs = Return (st', cs') \<and> legacy_rel opn objs st' b' \<and>
    chunk_at (objs (ls_builder st')) cs' cb'"
  using assms(2-)
proof (induction ss arbitrary: st cs b cb)
  case (Cons s ss)
  obtain b1 cb1 where one: "legacy_setter s b cb = (b1, cb1)" by (rule prod.exhaust)
  from store_setter_sim [OF assms(1) Cons.prems(1,2) one] obtain st1 cs1
    where "store_setter fb s st cs = Return (st1, cs1)" and "legacy_rel opn objs st1 b1"
      and "chunk_at (objs (ls_builder st1)) cs1 cb1"
    by blast
  with Cons.IH [of st1 b1 cs1 cb1] Cons.prems(3) one show ?case by simp
qed simp

lemma chunk_new_at: "chunk_at F chunk_store_new legacy_new_chunk"
  by (simp add: chunk_at_def chunk_store_new_def legacy_new_chunk_def)

lemma store_call_sim:
  assumes "write_laws fb opn objs" "legacy_rel opn objs st b"
  shows "agree (legacy_rel opn objs) (store_call fb c st) (records_call c b)"
proof (cases c)
  case (CheckContinuity x)
  with assms(2) show ?thesis
    by (simp add: agree_def legacy_check_continuity_def legacy_rel_def legacy_at_def)
next
  case (AddChunk ss)
  obtain b' cb' where set: "legacy_setters ss b legacy_new_chunk = (b', cb')" by (rule prod.exhaust)
  from store_setters_sim [OF assms chunk_new_at set] obtain st' cs'
    where run: "store_setters fb ss st chunk_store_new = Return (st', cs')"
      and "legacy_rel opn objs st' b'" "chunk_at (objs (ls_builder st')) cs' cb'"
    by blast
  from store_chunk_finish_sim [OF assms(1) this(2,3)] AddChunk set run show ?thesis
    by (simp add: agree_def)
next
  case (DropChunk ss)
  obtain b' cb' where set: "legacy_setters ss b legacy_new_chunk = (b', cb')" by (rule prod.exhaust)
  from store_setters_sim [OF assms chunk_new_at set] DropChunk set show ?thesis by auto
next
  case FinishDataset
  with store_finish_dataset_sim [OF assms] show ?thesis
    by (auto simp: agree_def split: outcome.splits)
next
  case (AddWorker i s h)
  with store_legacy_worker_sim [OF assms, of i s h] show ?thesis by (auto simp: agree_def)
qed

lemma legacy_store_new_rel:
  assumes "write_laws fb opn objs" "opn b = None"
  shows "legacy_rel opn objs
    (legacy_store_new fb (lb_common_identity (assignment_builder_new cr secret rng)) b)
    (assignment_builder_new cr secret rng)"
  using write_lawsD(8) [OF assms, of "VecU8 (lb_common_identity (assignment_builder_new cr secret rng))"]
  by (auto simp: legacy_store_new_def legacy_rel_def legacy_at_def assignment_builder_new_def
      adds_object_def later_closed split: prod.splits)

lemma store_legacy_root_stores:
  assumes "write_laws fb opn objs" "legacy_rel opn objs st b"
  shows "stores opn objs (rep assignment_fields) (assignment_builder_finish b) (ls_builder st)
    (store_legacy_root fb (ls_all_datasets st) (map snd (ls_worker_assignments st)) (ls_builder st))"
proof -
  let ?b = "ls_builder st"
  note add = progress_add [OF _ later_refl stays_list [OF stays_rep]]
  have start: "progress opn objs ?b ?b
      [\<lambda>F. list_all2 (rep dataset_fields F) (ls_all_datasets st) (lb_all_datasets b),
       \<lambda>F. list_all2 (rep worker_entry_fields F) (map snd (ls_worker_assignments st))
         (map snd (lb_worker_assignments b))]"
    using assms(2) by (auto simp: legacy_rel_def legacy_at_def intro!: add progress_start)
  show ?thesis
    unfolding store_legacy_root_def
    apply (insert start)
    apply (erule call_steps(1) [OF assms(1)])+
    apply (erule stores_last, erule assignment_stored [OF assms(1)])
    apply (auto dest!: known_Cons simp: assignment_fields_def assignment_slots_def stored_fields
        assignment_builder_finish_def)
    done
qed

lemma legacy_blob_reads:
  assumes "flat_laws fb opn objs fobjs" "legacy_rel opn objs st b"
  shows "\<exists>f. legacy_store_finish fb st = Return f \<and>
    assignment_read fb f (fb_root_unchecked fb f) = Return (assignment_builder_finish b)"
proof -
  have laws: "write_laws fb opn objs" using assms(1) by (simp add: flat_laws_def)
  from blob_reads [OF assms(1) store_legacy_root_stores [OF laws assms(2)] assignment_stays
      assignment_read_rep]
  show ?thesis by (fastforce simp: legacy_store_finish_def)
qed

text \<open>
  Whatever calls a client makes, the writes and the operations on records panic together and give the
  same answers; when they return, the finished blob reads as the records.
\<close>

lemma legacy_run_reads:
  assumes "flat_laws fb opn objs fobjs" "opn b = None"
  shows "case run_calls records_call calls (assignment_builder_new cr secret rng) of
      Return (lb, answers) \<Rightarrow>
        \<exists>st f. run_calls (store_call fb) calls
            (legacy_store_new fb (lb_common_identity (assignment_builder_new cr secret rng)) b) =
              Return (st, answers) \<and>
          legacy_store_finish fb st = Return f \<and>
          assignment_read fb f (fb_root_unchecked fb f) = Return (assignment_builder_finish lb)
    | Panic m \<Rightarrow>
        \<exists>m'. run_calls (store_call fb) calls
          (legacy_store_new fb (lb_common_identity (assignment_builder_new cr secret rng)) b) = Panic m'"
proof -
  have laws: "write_laws fb opn objs" using assms(1) by (simp add: flat_laws_def)
  note run = agree_run [where R = "legacy_rel opn objs" and f = "store_call fb" and g = records_call,
      OF store_call_sim [OF laws] legacy_store_new_rel [OF laws assms(2)]]
  from run [of calls cr secret rng] legacy_blob_reads [OF assms(1)] show ?thesis
    by (cases "run_calls records_call calls (assignment_builder_new cr secret rng)") fastforce+
qed

end
