(* ===== verification/Flat_Heap.thy ===== *)
theory Flat_Heap
  imports Flat_Store Flat_Verify
begin

text \<open>
  An instance of the FlatBuffers interface that keeps the objects in a list, with the newest at the end,
  and addresses them by position. It shows that the laws assumed of the runtime can be met together, and
  it is what the concrete examples of the development run on.
\<close>

datatype loc = Obj nat | Field nat nat | Elem nat nat

type_synonym heap = "loc stored list"
type_synonym heap_builder = "heap \<times> loc slots option"
type_synonym heap_buffer = "heap \<times> loc"

fun heap_at :: "heap \<Rightarrow> loc \<Rightarrow> loc stored option" where
  "heap_at h (Obj n) = (if n < length h then Some (h ! n) else None)"
| "heap_at h _ = None"

definition heap_push :: "loc stored \<Rightarrow> heap_builder \<Rightarrow> loc \<times> heap_builder" where
  "heap_push x b = (Obj (length (fst b)), (fst b @ [x], snd b))"

definition heap_slot :: "heap_buffer \<Rightarrow> loc \<Rightarrow> nat \<Rightarrow> loc slot option" where
  "heap_slot f off s = (case heap_at (fst f) off of Some (Table t) \<Rightarrow> t s | _ \<Rightarrow> None)"

definition heap_deref :: "heap_buffer \<Rightarrow> loc slot \<Rightarrow> loc stored option" where
  "heap_deref f v = (case v of SlotOffset r \<Rightarrow> heap_at (fst f) r | _ \<Rightarrow> None)"

definition heap_get :: "(heap_buffer \<Rightarrow> loc slot \<Rightarrow> 'x) \<Rightarrow> heap_buffer \<Rightarrow> loc \<Rightarrow> nat \<Rightarrow> 'x option" where
  "heap_get g f off s = map_option (g f) (heap_slot f off s)"

definition heap_vec :: "(loc vec \<Rightarrow> 'x list) \<Rightarrow> heap_buffer \<Rightarrow> loc slot \<Rightarrow> 'x list" where
  "heap_vec g f v = (case heap_deref f v of Some (Vec xs) \<Rightarrow> g xs | _ \<Rightarrow> [])"

definition heap_str :: "heap_buffer \<Rightarrow> loc \<Rightarrow> string" where
  "heap_str f off = (case heap_at (fst f) off of Some (Str x) \<Rightarrow> x | _ \<Rightarrow> [])"

definition heap_fb :: "(heap_builder, loc, heap_buffer) flatbuffers" where
  "heap_fb =
    \<lparr>fb_start_table = (\<lambda>b. (fst b, Some Map.empty)),
     fb_push_slot_always = (\<lambda>s v b. (fst b, map_option (\<lambda>t. t(s \<mapsto> v)) (snd b))),
     fb_push_slot = (\<lambda>s v d b. if v = d then b else (fst b, map_option (\<lambda>t. t(s \<mapsto> v)) (snd b))),
     fb_end_table = (\<lambda>b. heap_push (Table (case snd b of Some t \<Rightarrow> t | None \<Rightarrow> Map.empty)) (fst b, None)),
     fb_required = (\<lambda>off s name b.
       case heap_at (fst b) off of
         Some (Table t) \<Rightarrow> (if t s = None then Panic name else Return ())
       | _ \<Rightarrow> Panic name),
     fb_create_string = (\<lambda>x. heap_push (Str x)),
     fb_create_shared_string = (\<lambda>x. heap_push (Str x)),
     fb_create_vector = (\<lambda>x. heap_push (Vec x)),
     fb_finish = (\<lambda>root b. (fst b, root)),
     fb_root_unchecked = snd,
     fb_get_u32 = heap_get (\<lambda>f v. case v of SlotU32 x \<Rightarrow> x | _ \<Rightarrow> 0),
     fb_get_u64 = heap_get (\<lambda>f v. case v of SlotU64 x \<Rightarrow> x | _ \<Rightarrow> 0),
     fb_get_i8 = heap_get (\<lambda>f v. case v of SlotI8 x \<Rightarrow> x | _ \<Rightarrow> 0),
     fb_get_struct = heap_get (\<lambda>f v. case v of SlotStruct x \<Rightarrow> x | _ \<Rightarrow> []),
     fb_get_str = heap_get (\<lambda>f v. case v of SlotOffset r \<Rightarrow> heap_str f r | _ \<Rightarrow> []),
     fb_get_table = heap_get (\<lambda>f v. case v of SlotOffset r \<Rightarrow> r | _ \<Rightarrow> Field 0 0),
     fb_get_u8s = heap_get (heap_vec (\<lambda>v. case v of VecU8 xs \<Rightarrow> xs | _ \<Rightarrow> [])),
     fb_get_u16s = heap_get (heap_vec (\<lambda>v. case v of VecU16 xs \<Rightarrow> xs | _ \<Rightarrow> [])),
     fb_get_u32s = heap_get (heap_vec (\<lambda>v. case v of VecU32 xs \<Rightarrow> xs | _ \<Rightarrow> [])),
     fb_get_u64s = heap_get (heap_vec (\<lambda>v. case v of VecU64 xs \<Rightarrow> xs | _ \<Rightarrow> [])),
     fb_get_structs = heap_get (heap_vec (\<lambda>v. case v of VecStruct xs \<Rightarrow> xs | _ \<Rightarrow> [])),
     fb_get_tables = heap_get (heap_vec (\<lambda>v. case v of VecOffset xs \<Rightarrow> xs | _ \<Rightarrow> [])),
     fb_get_strs = heap_get (\<lambda>f. heap_vec (\<lambda>v. case v of VecOffset xs \<Rightarrow> map (heap_str f) xs | _ \<Rightarrow> []) f)\<rparr>"

section \<open>The laws of writing and reading\<close>

lemma heap_at_append: "heap_at h off = Some x \<Longrightarrow> heap_at (h @ ys) off = Some x"
  by (cases off) (auto simp: nth_append split: if_splits)

lemma heap_at_le: "heap_at h \<subseteq>\<^sub>m heap_at (h @ ys)"
  by (auto simp: map_le_def dom_def heap_at_append)

lemma heap_push_adds:
  "snd b = None \<Longrightarrow> adds_object snd (\<lambda>b. heap_at (fst b)) x b (heap_push x b)"
  by (simp add: adds_object_def later_def heap_push_def heap_at_le)

lemma heap_write_laws: "write_laws heap_fb snd (\<lambda>b. heap_at (fst b))"
  unfolding write_laws_def building_def
  by (intro conjI allI impI)
    (auto simp: heap_fb_def heap_push_adds heap_at_le, auto simp: heap_push_def heap_at_le)

lemma reads_heap_get:
  "(\<And>f v x. P (heap_at (fst f)) v x \<Longrightarrow> g f v = x) \<Longrightarrow>
    slot_reads (\<lambda>f. heap_at (fst f)) (heap_get g) P"
  by (simp add: slot_reads_def heap_get_def heap_slot_def)

lemma heap_strs:
  "list_all2 (\<lambda>off x. heap_at (fst f) off = Some (Str x)) offs xs \<Longrightarrow> map (heap_str f) offs = xs"
  by (induction rule: list_all2_induct) (simp_all add: heap_str_def)

lemma heap_read_laws: "read_laws heap_fb (\<lambda>f. heap_at (fst f))"
  unfolding read_laws_def heap_fb_def flatbuffers.simps
  by (intro conjI; rule reads_heap_get)
    (auto elim!: denotes_str.elims denotes_vec.elims denotes_each.elims
      simp: heap_vec_def heap_deref_def heap_str_def heap_strs)

lemma heap_flat_laws: "flat_laws heap_fb snd (\<lambda>b. heap_at (fst b)) (\<lambda>f. heap_at (fst f))"
proof -
  have "finish_laws heap_fb snd (\<lambda>b. heap_at (fst b)) (\<lambda>f. heap_at (fst f))"
    by (simp add: finish_laws_def heap_fb_def)
  then show ?thesis by (simp add: flat_laws_def heap_write_laws heap_read_laws)
qed

section \<open>The laws of verification\<close>

fun heap_field :: "heap_buffer \<Rightarrow> loc \<Rightarrow> nat \<Rightarrow> loc option" where
  "heap_field f (Obj n) s = (case heap_slot f (Obj n) s of None \<Rightarrow> None | Some _ \<Rightarrow> Some (Field n s))"
| "heap_field f _ s = None"

fun heap_target :: "heap_buffer \<Rightarrow> loc \<Rightarrow> loc" where
  "heap_target f (Field n s) = (case heap_slot f (Obj n) s of Some (SlotOffset r) \<Rightarrow> r | _ \<Rightarrow> Field 0 0)"
| "heap_target f (Elem n k) =
    (case heap_at (fst f) (Obj n) of Some (Vec (VecOffset offs)) \<Rightarrow> offs ! k | _ \<Rightarrow> Field 0 0)"
| "heap_target f (Obj n) = Obj n"

fun heap_elems :: "heap_buffer \<Rightarrow> loc \<Rightarrow> loc list" where
  "heap_elems f (Obj n) =
    (case heap_at (fst f) (Obj n) of
       Some (Vec (VecOffset offs)) \<Rightarrow> map (Elem n) [0 ..< length offs]
     | _ \<Rightarrow> [])"
| "heap_elems f _ = []"

definition heap_layout :: "(heap_buffer, loc, heap_buffer) layout" where
  "heap_layout = \<lparr>ly_buf = id, ly_field = heap_field, ly_target = heap_target, ly_elems = heap_elems\<rparr>"

fun heap_check_all :: "(loc, heap_buffer, string) check \<Rightarrow> loc list \<Rightarrow> heap_buffer \<Rightarrow> (string, heap_buffer) result" where
  "heap_check_all chk [] v = Ok v"
| "heap_check_all chk (p # ps) v = (case chk p v of Err e \<Rightarrow> Err e | Ok v' \<Rightarrow> heap_check_all chk ps v')"

definition heap_fv :: "(heap_buffer, loc, string, unit verifier_options, heap_buffer) flat_verifier" where
  "heap_fv =
    \<lparr>fv_visit_table = (\<lambda>off v. case heap_at (fst v) off of Some (Table t) \<Rightarrow> Ok v | _ \<Rightarrow> Err ''table''),
     fv_visit_field = (\<lambda>chk name s req off v.
       case heap_field v off s of
         None \<Rightarrow> (if req then Err name else Ok v)
       | Some p \<Rightarrow> chk p v),
     fv_end = id,
     fv_in_buffer = (\<lambda>n p v. Ok v),
     fv_slice = (\<lambda>n p v. Ok v),
     fv_str = (\<lambda>p v. Ok v),
     fv_forward = (\<lambda>chk p v. chk (heap_target v p) v),
     fv_vector = (\<lambda>chk p v. heap_check_all chk (heap_elems v p) v),
     fv_root_with_opts = (\<lambda>chk opts f. result_map (\<lambda>_. snd f) (chk (snd f) f))\<rparr>"

lemma heap_check_all_Ok:
  assumes "keeps heap_layout chk" "heap_check_all chk ps v = Ok v'"
  shows "v' = v \<and> (\<forall>p \<in> set ps. chk p v = Ok v)"
  using assms(2)
proof (induction ps arbitrary: v)
  case (Cons p ps)
  from Cons.prems obtain w where w: "chk p v = Ok w" "heap_check_all chk ps w = Ok v'"
    by (auto split: result.splits)
  from keepsD [OF assms(1) w(1)] have "w = v" by (simp add: heap_layout_def)
  with w Cons.IH show ?case by auto
qed simp

lemma heap_keep_laws: "keep_laws heap_fv heap_layout"
proof -
  have "keeps heap_layout (fv_vector heap_fv chk)" if "keeps heap_layout chk" for chk
    unfolding keeps_def heap_fv_def by (auto dest: heap_check_all_Ok [OF that])
  moreover have "keeps heap_layout (fv_forward heap_fv chk)" if "keeps heap_layout chk" for chk
    unfolding keeps_def heap_fv_def by (auto dest: keepsD [OF that])
  moreover have "keeps heap_layout (fv_visit_field heap_fv chk name s req)" if "keeps heap_layout chk"
    for chk name s req
    unfolding keeps_def heap_fv_def by (auto dest: keepsD [OF that] split: option.splits if_splits)
  moreover have "keeps heap_layout (fv_visit_table heap_fv)" "keeps heap_layout (fv_str heap_fv)"
    "keeps heap_layout (fv_in_buffer heap_fv n)" "keeps heap_layout (fv_slice heap_fv n)"
    "ly_buf heap_layout (fv_end heap_fv v) = ly_buf heap_layout v" for n v
    by (auto simp: heap_fv_def keeps_def split: option.splits stored.splits)
  ultimately show ?thesis by (simp add: keep_laws_def)
qed

lemma heap_visit_laws: "visit_laws heap_fv heap_layout"
proof -
  have "verified heap_layout chk f e"
    if "keeps heap_layout chk" "verified heap_layout (fv_vector heap_fv chk) f p"
      "e \<in> set (ly_elems heap_layout f p)" for chk f p e
  proof -
    from that(2) obtain v' where "heap_check_all chk (heap_elems f p) f = Ok v'"
      by (auto simp: verified_def heap_fv_def heap_layout_def)
    from heap_check_all_Ok [OF that(1) this] that(3) show ?thesis
      by (auto simp: verified_def heap_layout_def)
  qed
  moreover have "verified heap_layout chk f off"
    if "fv_root_with_opts heap_fv chk opts f = Ok off" for chk opts f off
    using that by (auto simp: verified_def heap_fv_def heap_layout_def)
  moreover have "case ly_field heap_layout f off s of None \<Rightarrow> \<not> req | Some p \<Rightarrow> verified heap_layout chk f p"
    if "verified heap_layout (fv_visit_field heap_fv chk name s req) f off" for chk name s req f off
    using that by (auto simp: verified_def heap_fv_def heap_layout_def split: option.splits if_splits)
  moreover have "verified heap_layout chk f (ly_target heap_layout f p)"
    if "verified heap_layout (fv_forward heap_fv chk) f p" for chk f p
    using that by (simp add: verified_def heap_fv_def heap_layout_def)
  ultimately show ?thesis unfolding visit_laws_def by blast
qed

lemma heap_finds: "finds heap_layout (heap_get g)"
proof -
  have "heap_get g f off s = None \<longleftrightarrow> heap_field f off s = None" for f off s
    by (cases off) (auto simp: heap_get_def heap_slot_def split: option.splits)
  then show ?thesis by (simp add: finds_def heap_layout_def)
qed

lemma elems_targets:
  "map (heap_target f) (heap_elems f off) =
    (case heap_at (fst f) off of Some (Vec (VecOffset offs)) \<Rightarrow> offs | _ \<Rightarrow> [])"
  by (cases off) (auto simp: comp_def map_nth split: stored.splits vec.splits)

lemma heap_verify_laws: "verify_laws heap_fb heap_fv heap_layout"
proof -
  have "fb_get_table heap_fb f off s = map_option (heap_target f) (heap_field f off s)" for f off s
    by (cases off) (auto simp: heap_fb_def heap_get_def heap_slot_def split: option.splits)
  moreover have "fb_get_tables heap_fb f off s =
      map_option (\<lambda>p. map (heap_target f) (heap_elems f (heap_target f p))) (heap_field f off s)" for f off s
  proof (cases "heap_slot f off s")
    case None
    then show ?thesis by (cases off) (simp_all add: heap_fb_def heap_get_def heap_slot_def)
  next
    case (Some v)
    then obtain n where n: "off = Obj n" by (cases off) (simp_all add: heap_slot_def)
    have "heap_vec (\<lambda>v. case v of VecOffset xs \<Rightarrow> xs | _ \<Rightarrow> []) f v =
        map (heap_target f) (heap_elems f (heap_target f (Field n s)))"
      using Some unfolding n
      by (cases v) (simp_all add: heap_vec_def heap_deref_def elems_targets)
    with Some n show ?thesis by (simp add: heap_fb_def heap_get_def)
  qed
  moreover have "finds heap_layout (fb_get_struct heap_fb)" "finds heap_layout (fb_get_str heap_fb)"
    "finds heap_layout (fb_get_u8s heap_fb)" "finds heap_layout (fb_get_u16s heap_fb)"
    "finds heap_layout (fb_get_u32s heap_fb)" "finds heap_layout (fb_get_u64s heap_fb)"
    "finds heap_layout (fb_get_structs heap_fb)" "finds heap_layout (fb_get_strs heap_fb)"
    by (simp_all add: heap_fb_def heap_finds)
  moreover have "ly_target heap_layout = heap_target" "ly_field heap_layout = heap_field"
    "ly_elems heap_layout = heap_elems"
    by (simp_all add: heap_layout_def)
  ultimately have "find_laws heap_fb heap_layout" by (simp add: find_laws_def)
  moreover have "root_law heap_fb heap_fv" by (auto simp: root_law_def heap_fb_def heap_fv_def)
  ultimately show ?thesis using heap_keep_laws heap_visit_laws by (simp add: verify_laws_def)
qed

end
