(* ===== verification/Blob_Roots.thy ===== *)
theory Blob_Roots
  imports Stored_Worker Stored_Portal Stored_Legacy Flat_Heap Legacy_Reader Worker_Guarantees
    Portal_Guarantees
begin

text \<open>
  Opening a blob: the root functions of the generated files and the \<^verbatim>\<open>from_owned\<close> of the three readers
  on top of them, and the two facts the rest of the development rests on. What the builders wrote is
  what the readers see, and a blob that passed the verifier is read without a panic.
\<close>

section \<open>Roots\<close>

text \<open>
  Access to the fields of a root is deferred in the code; here all of them are read at once, so a panic
  of any accessor of any table below the root is a panic of the root.
\<close>

definition open_root ::
  "('v, 'o, 'e, 'opts, 'f) flat_verifier \<Rightarrow> ('o, 'v, 'e) check \<Rightarrow> ('f \<Rightarrow> 'o \<Rightarrow> 'a outcome) \<Rightarrow>
    'opts \<Rightarrow> 'f \<Rightarrow> ('e, 'a) result outcome"
where
  "open_root fv chk rd opts f =
    (case fv_root_with_opts fv chk opts f of
       Err e \<Rightarrow> Return (Err e)
     | Ok off \<Rightarrow> outcome_map Ok (rd f off))"

definition root_as_assignment_with_opts ::
  "('b, 'o, 'f) flatbuffers \<Rightarrow> ('v, 'o, 'e, 'opts, 'f) flat_verifier \<Rightarrow> 'opts \<Rightarrow> 'f \<Rightarrow>
    ('e, fb_assignment) result outcome"
where
  "root_as_assignment_with_opts fb fv opts f =
    open_root fv (assignment_verify fv) (assignment_read fb) opts f"

definition root_as_worker_assignment_with_opts ::
  "('b, 'o, 'f) flatbuffers \<Rightarrow> ('v, 'o, 'e, 'opts, 'f) flat_verifier \<Rightarrow> 'opts \<Rightarrow> 'f \<Rightarrow>
    ('e, worker_assignment) result outcome"
where
  "root_as_worker_assignment_with_opts fb fv opts f =
    open_root fv (worker_assignment_verify fv) (worker_assignment_read fb) opts f"

definition root_as_portal_assignment_with_opts ::
  "('b, 'o, 'f) flatbuffers \<Rightarrow> ('v, 'o, 'e, 'opts, 'f) flat_verifier \<Rightarrow> 'opts \<Rightarrow> 'f \<Rightarrow>
    ('e, portal_assignment) result outcome"
where
  "root_as_portal_assignment_with_opts fb fv opts f =
    open_root fv (portal_assignment_verify fv) (portal_assignment_read fb) opts f"

definition root_as_assignment_unchecked ::
  "('b, 'o, 'f) flatbuffers \<Rightarrow> 'f \<Rightarrow> fb_assignment outcome" where
  "root_as_assignment_unchecked fb f = assignment_read fb f (fb_root_unchecked fb f)"

definition root_as_worker_assignment_unchecked ::
  "('b, 'o, 'f) flatbuffers \<Rightarrow> 'f \<Rightarrow> worker_assignment outcome" where
  "root_as_worker_assignment_unchecked fb f = worker_assignment_read fb f (fb_root_unchecked fb f)"

definition root_as_portal_assignment_unchecked ::
  "('b, 'o, 'f) flatbuffers \<Rightarrow> 'f \<Rightarrow> portal_assignment outcome" where
  "root_as_portal_assignment_unchecked fb f = portal_assignment_read fb f (fb_root_unchecked fb f)"

section \<open>Readers\<close>

definition reader_opts :: "'r verifier_options \<Rightarrow> 'r verifier_options" where
  "reader_opts dflt =
    dflt\<lparr>vo_max_tables := 1000000000000, vo_max_apparent_size := push_bit 40 1\<rparr>"

definition legacy_open ::
  "('b, 'o, 'f) flatbuffers \<Rightarrow> ('v, 'o, string, 'r verifier_options, 'f) flat_verifier \<Rightarrow>
    'r verifier_options \<Rightarrow> 'f \<Rightarrow> (string, fb_assignment) result outcome"
where
  "legacy_open fb fv dflt f =
    outcome_map (\<lambda>root. legacy_from_owned (\<lambda>_. root) f)
      (root_as_assignment_with_opts fb fv (reader_opts dflt) f)"

definition worker_open ::
  "('b, 'o, 'f) flatbuffers \<Rightarrow> ('v, 'o, string, 'r verifier_options, 'f) flat_verifier \<Rightarrow>
    'r verifier_options \<Rightarrow> 'f \<Rightarrow> (invalid_assignment, worker_assignment) result outcome"
where
  "worker_open fb fv dflt f =
    outcome_map (\<lambda>root. worker_from_owned (\<lambda>_. root) f)
      (root_as_worker_assignment_with_opts fb fv (reader_opts dflt) f)"

definition portal_open ::
  "('b, 'o, 'f) flatbuffers \<Rightarrow> ('v, 'o, string, 'r verifier_options, 'f) flat_verifier \<Rightarrow>
    'r verifier_options \<Rightarrow> 'f \<Rightarrow> (invalid_assignment, portal_assignment) result outcome"
where
  "portal_open fb fv dflt f =
    outcome_map (\<lambda>root. portal_from_owned (\<lambda>_. root) f)
      (root_as_portal_assignment_with_opts fb fv (reader_opts dflt) f)"

definition legacy_open_unchecked :: "('b, 'o, 'f) flatbuffers \<Rightarrow> 'f \<Rightarrow> fb_assignment outcome" where
  "legacy_open_unchecked fb f = root_as_assignment_unchecked fb f"

definition worker_open_unchecked :: "('b, 'o, 'f) flatbuffers \<Rightarrow> 'f \<Rightarrow> worker_assignment outcome" where
  "worker_open_unchecked fb f = root_as_worker_assignment_unchecked fb f"

definition portal_open_unchecked :: "('b, 'o, 'f) flatbuffers \<Rightarrow> 'f \<Rightarrow> portal_assignment outcome" where
  "portal_open_unchecked fb f = root_as_portal_assignment_unchecked fb f"

section \<open>Lemmas\<close>

lemma open_root_total:
  assumes "verify_laws fb fv ly" "keeps ly chk"
    and "\<And>off. verified ly chk f off \<Longrightarrow> \<exists>c. rd f off = Return c"
  shows "\<exists>r. open_root fv chk rd opts f = Return r"
proof (cases "fv_root_with_opts fv chk opts f")
  case (Ok off)
  from assms(3) [OF visit_lawsD(4) [OF verify_lawsD(2) [OF assms(1)] assms(2) Ok]] Ok show ?thesis
    by (auto simp: open_root_def)
qed (simp add: open_root_def)

lemma roots_total:
  assumes "verify_laws fb fv ly"
  shows "\<exists>r. root_as_assignment_with_opts fb fv opts f = Return r"
    and "\<exists>r. root_as_worker_assignment_with_opts fb fv opts f = Return r"
    and "\<exists>r. root_as_portal_assignment_with_opts fb fv opts f = Return r"
  using open_root_total [OF assms keeps_assignment_verify assignment_verified_reads]
    open_root_total [OF assms keeps_worker_assignment_verify worker_assignment_verified_reads]
    open_root_total [OF assms keeps_portal_assignment_verify portal_assignment_verified_reads]
    verify_lawsD(1) [OF assms] assms
  by (simp_all add: root_as_assignment_with_opts_def root_as_worker_assignment_with_opts_def
      root_as_portal_assignment_with_opts_def)

lemma open_root_reads:
  assumes "verify_laws fb fv ly" "rd f (fb_root_unchecked fb f) = Return c"
  shows "open_root fv chk rd opts f = Return (Ok c) \<or> (\<exists>e. open_root fv chk rd opts f = Return (Err e))"
proof (cases "fv_root_with_opts fv chk opts f")
  case (Ok off)
  with verify_lawsD(4) [OF assms(1)] have "off = fb_root_unchecked fb f" by (simp add: root_law_def)
  with Ok assms(2) show ?thesis by (simp add: open_root_def)
qed (simp add: open_root_def)

section \<open>Properties\<close>

text \<open>
  C13: A worker assignment survives its bytes. However the dataset and worker calls of
  \<^verbatim>\<open>WorkerAssignmentBuilder\<close> are interleaved, writing the tables as the builder does never panics, and the
  generated accessors read the finished blob as exactly the datasets, workers and rosters that were put
  in. Loading it with \<^verbatim>\<open>from_owned\<close> is then loading that value, unless the verifier itself refuses the
  blob.
\<close>
theorem worker_blob_loads:
  assumes "flat_laws fb opn objs fobjs" "verify_laws fb fv ly" "opn b = None"
    and "concat (map put_datasets ps) = wb_all_datasets w"
    and "concat (map (put_entries public_key) ps) = map snd (wb_worker_entries w)"
  shows "\<exists>st f. worker_put_all fb public_key ps (worker_store_new b) = Return st \<and>
    worker_store_finish fb (create_write_schema_rosters w) st = Return f \<and>
    worker_open_unchecked fb f = Return (worker_builder_finish w) \<and>
    (worker_open fb fv dflt f = Return (worker_from_owned Ok (worker_builder_finish w)) \<or>
     (\<exists>e. worker_open fb fv dflt f = Return (Err (Flatbuffer e))))"
proof -
  from worker_blob_reads [OF assms(1,3,4,5)] obtain st f
    where run: "worker_put_all fb public_key ps (worker_store_new b) = Return st"
      "worker_store_finish fb (create_write_schema_rosters w) st = Return f"
      and rd: "worker_assignment_read fb f (fb_root_unchecked fb f) = Return (worker_builder_finish w)"
    by blast
  from open_root_reads [where rd = "worker_assignment_read fb" and
      chk = "worker_assignment_verify fv" and opts = "reader_opts dflt", OF assms(2) rd]
  have "worker_open fb fv dflt f = Return (worker_from_owned Ok (worker_builder_finish w)) \<or>
     (\<exists>e. worker_open fb fv dflt f = Return (Err (Flatbuffer e)))"
    by (auto simp: worker_open_def root_as_worker_assignment_with_opts_def worker_from_owned_def)
  with run rd show ?thesis by (auto simp: worker_open_unchecked_def root_as_worker_assignment_unchecked_def)
qed

text \<open>
  C25: A portal assignment survives its bytes, in the same sense: the blob that \<^verbatim>\<open>PortalAssignmentBuilder\<close>
  writes is read as the datasets and workers that were put in, and \<^verbatim>\<open>from_owned\<close> loads that value unless
  the verifier refuses the blob.
\<close>
theorem portal_blob_loads:
  assumes "flat_laws fb opn objs fobjs" "verify_laws fb fv ly" "opn b = None"
    and "concat (map put_portal_datasets ps) = pb_all_datasets p"
    and "concat (map put_portal_entries ps) = map snd (pb_worker_entries p)"
  shows "\<exists>st f. portal_put_all fb ps (portal_store_new b) = Return st \<and>
    portal_store_finish fb st = Return f \<and>
    portal_open_unchecked fb f = Return (portal_builder_finish p) \<and>
    (portal_open fb fv dflt f = Return (portal_from_owned Ok (portal_builder_finish p)) \<or>
     (\<exists>e. portal_open fb fv dflt f = Return (Err (Flatbuffer e))))"
proof -
  from portal_blob_reads [OF assms(1,3,4,5)] obtain st f
    where run: "portal_put_all fb ps (portal_store_new b) = Return st"
      "portal_store_finish fb st = Return f"
      and rd: "portal_assignment_read fb f (fb_root_unchecked fb f) = Return (portal_builder_finish p)"
    by blast
  from open_root_reads [where rd = "portal_assignment_read fb" and
      chk = "portal_assignment_verify fv" and opts = "reader_opts dflt", OF assms(2) rd]
  have "portal_open fb fv dflt f = Return (portal_from_owned Ok (portal_builder_finish p)) \<or>
     (\<exists>e. portal_open fb fv dflt f = Return (Err (Flatbuffer e)))"
    by (auto simp: portal_open_def root_as_portal_assignment_with_opts_def portal_from_owned_def)
  with run rd show ?thesis by (auto simp: portal_open_unchecked_def root_as_portal_assignment_unchecked_def)
qed

text \<open>
  C15: The combined assignment survives its bytes, whatever calls are made. For every sequence of chunk,
  dataset and worker calls on \<^verbatim>\<open>AssignmentBuilder\<close>, the writes into the FlatBuffers builder and the
  operations on records panic together and answer every chunk alike; if they return, the finished blob
  is read as the records, and opening it gives them unless the verifier refuses.
\<close>
theorem legacy_run_loads:
  assumes "flat_laws fb opn objs fobjs" "verify_laws fb fv ly" "opn b = None"
    and "new = assignment_builder_new cr secret rng"
  shows "case run_calls records_call calls new of
      Panic m \<Rightarrow>
        \<exists>m'. run_calls (store_call fb) calls (legacy_store_new fb (lb_common_identity new) b) = Panic m'
    | Return (lb, answers) \<Rightarrow>
        \<exists>st f. run_calls (store_call fb) calls (legacy_store_new fb (lb_common_identity new) b) =
            Return (st, answers) \<and>
          legacy_store_finish fb st = Return f \<and>
          legacy_open_unchecked fb f = Return (assignment_builder_finish lb) \<and>
          (legacy_open fb fv dflt f = Return (Ok (assignment_builder_finish lb)) \<or>
           (\<exists>e. legacy_open fb fv dflt f = Return (Err e)))"
proof -
  note reads = legacy_run_reads [OF assms(1,3), of calls cr secret rng, folded assms(4)]
  show ?thesis
  proof (cases "run_calls records_call calls new")
    case (Panic m)
    with reads show ?thesis by simp
  next
    case (Return x)
    obtain lb answers where x: "x = (lb, answers)" by (rule prod.exhaust)
    with reads Return obtain st f
      where run: "run_calls (store_call fb) calls (legacy_store_new fb (lb_common_identity new) b) =
          Return (st, answers)" "legacy_store_finish fb st = Return f"
        and rd: "assignment_read fb f (fb_root_unchecked fb f) = Return (assignment_builder_finish lb)"
      by auto
    from open_root_reads [where rd = "assignment_read fb" and
      chk = "assignment_verify fv" and opts = "reader_opts dflt", OF assms(2) rd]
    have "legacy_open fb fv dflt f = Return (Ok (assignment_builder_finish lb)) \<or>
        (\<exists>e. legacy_open fb fv dflt f = Return (Err e))"
      by (auto simp: legacy_open_def root_as_assignment_with_opts_def legacy_from_owned_def)
    with Return x run rd show ?thesis
      by (auto simp: legacy_open_unchecked_def root_as_assignment_unchecked_def)
  qed
qed

text \<open>
  C14: Opening never panics. For any bytes at all, \<^verbatim>\<open>from_owned\<close> of the three formats returns: a rejection,
  or an assignment every accessor of which, down to the last table, finds the fields it unwraps.
\<close>
theorem blobs_open_without_panic:
  assumes "verify_laws fb fv ly"
  shows "(\<exists>r. worker_open fb fv dflt f = Return r) \<and> (\<exists>r. portal_open fb fv dflt f = Return r) \<and>
    (\<exists>r. legacy_open fb fv dflt f = Return r)"
proof -
  note total = roots_total [OF assms, of "reader_opts dflt" f]
  from total(2) have "\<exists>r. worker_open fb fv dflt f = Return r" by (auto simp: worker_open_def)
  moreover from total(3) have "\<exists>r. portal_open fb fv dflt f = Return r" by (auto simp: portal_open_def)
  moreover from total(1) have "\<exists>r. legacy_open fb fv dflt f = Return r" by (auto simp: legacy_open_def)
  ultimately show ?thesis by blast
qed

section \<open>Witnesses\<close>

definition sample_opts :: "unit verifier_options" where
  "sample_opts = \<lparr>vo_max_tables = 0, vo_max_apparent_size = 0, vo_rest = ()\<rparr>"

definition sample_id :: "u8 list" where
  "sample_id = replicate WORKER_ID_LEN 5"

definition sample_puts :: "worker_put list" where
  "sample_puts = PutNothing ''s3://b'' ''https://b'' # map PutDataset (wb_all_datasets sample_emitted) @ [PutWorker sample_id 1 (Some ([1, 2], [3]))]"

definition sample_written :: "(u8, u8, nat) worker_builder" where
  "sample_written = sample_emitted\<lparr>wb_worker_entries :=
    [(sample_id, \<lparr>we_worker_id = sample_id, we_status = 1, we_encrypted_headers =
      Some \<lparr>eh_identity = [9], eh_nonce = [3], eh_ciphertext = [1, 2]\<rparr>\<rparr>)]\<rparr>"

lemma concat_put_datasets [simp]:
  "concat (map (put_datasets \<circ> PutDataset) ds) = ds"
  "concat (map (put_entries public_key \<circ> PutDataset) ds) = []"
  by (induction ds) simp_all

theorem worker_blob_loads_witness:
  "\<exists>st f. worker_put_all heap_fb [9] sample_puts (worker_store_new ([], None)) = Return st \<and>
    worker_store_finish heap_fb (create_write_schema_rosters sample_written) st = Return f \<and>
    worker_open_unchecked heap_fb f = Return (worker_builder_finish sample_written)"
proof -
  have "concat (map put_datasets sample_puts) = wb_all_datasets sample_written"
    "concat (map (put_entries [9]) sample_puts) = map snd (wb_worker_entries sample_written)"
    by (simp_all add: sample_puts_def sample_written_def)
  from worker_blob_loads [where b = "([], None)" and dflt = sample_opts, OF heap_flat_laws heap_verify_laws _ this]
  show ?thesis by fastforce
qed

definition sample_portal_puts :: "portal_put list" where
  "sample_portal_puts = map PutPortalDataset (pb_all_datasets sample_portal_emitted) @
    map (\<lambda>e. PutPortalWorker (pe_worker_id (snd e)) (pe_status (snd e))) (pb_worker_entries sample_portal_emitted)"

lemma concat_put_portal [simp]:
  "concat (map (put_portal_datasets \<circ> PutPortalDataset) ds) = ds"
  "concat (map (put_portal_entries \<circ> PutPortalDataset) ds) = []"
  "concat (map (put_portal_datasets \<circ> (\<lambda>e. PutPortalWorker (f e) (g e))) es) = []"
  by (induction ds) simp_all

lemma concat_put_workers [simp]:
  "concat (map (put_portal_entries \<circ> (\<lambda>e. PutPortalWorker (pe_worker_id (snd e)) (pe_status (snd e)))) es) =
    map snd es"
  by (induction es) simp_all

theorem portal_blob_loads_witness:
  "\<exists>st f. portal_put_all heap_fb sample_portal_puts (portal_store_new ([], None)) = Return st \<and>
    portal_store_finish heap_fb st = Return f \<and>
    portal_open_unchecked heap_fb f = Return (portal_builder_finish sample_portal_emitted)"
proof -
  have "concat (map put_portal_datasets sample_portal_puts) = pb_all_datasets sample_portal_emitted"
    "concat (map put_portal_entries sample_portal_puts) = map snd (pb_worker_entries sample_portal_emitted)"
    by (simp_all add: sample_portal_puts_def)
  from portal_blob_loads [where b = "([], None)" and dflt = sample_opts, OF heap_flat_laws heap_verify_laws _ this]
  show ?thesis by fastforce
qed

text \<open>One dataset of one chunk, then a chunk without its files, which panics.\<close>

definition sample_setters :: "chunk_setter list" where
  "sample_setters =
    [SetId ''0000000000/0000000000-0000000009-abcdefgh'', SetDatasetId ''s3://a'', SetBlockRange (0, 9),
     SetSize 10, SetDatasetBaseUrl ''https://a'', SetWorkerIndexes [0]]"

definition sample_calls :: "legacy_call list" where
  "sample_calls =
    [AddChunk (sample_setters @ [SetFiles [''blocks.parquet'']]), FinishDataset, AddWorker sample_id 1 None]"

definition sample_new :: "(u8, u8, nat) assignment_builder" where
  "sample_new = assignment_builder_new sample_crypto ''secret'' 0"

theorem legacy_run_loads_witness:
  "(\<exists>st f. \<exists>lb :: (u8, u8, nat) assignment_builder. run_calls (store_call heap_fb) sample_calls
      (legacy_store_new heap_fb (lb_common_identity sample_new) ([], None)) = Return (st, [Ok (), Ok (), Ok ()]) \<and>
    legacy_store_finish heap_fb st = Return f \<and>
    legacy_open_unchecked heap_fb f = Return (assignment_builder_finish lb) \<and>
    map ds_id (lb_all_datasets lb) = [''s3://a'']) \<and>
   (\<exists>m. run_calls (store_call heap_fb) [AddChunk sample_setters]
      (legacy_store_new heap_fb (lb_common_identity sample_new) ([], None)) = Panic m)"
proof -
  note laws = legacy_run_loads [where b = "([], None)" and dflt = sample_opts,
      OF heap_flat_laws heap_verify_laws _ sample_new_def]
  have "case run_calls records_call sample_calls sample_new of
      Return (lb, answers) \<Rightarrow> answers = [Ok (), Ok (), Ok ()] \<and> map ds_id (lb_all_datasets lb) = [''s3://a'']
    | Panic m \<Rightarrow> False"
    by code_simp
  then obtain lb where run: "run_calls records_call sample_calls sample_new = Return (lb, [Ok (), Ok (), Ok ()])"
    and ids: "map ds_id (lb_all_datasets lb) = [''s3://a'']"
    by (auto split: outcome.splits)
  have "case run_calls records_call [AddChunk sample_setters] sample_new of Return x \<Rightarrow> False | Panic m \<Rightarrow> True"
    by code_simp
  then obtain m where "run_calls records_call [AddChunk sample_setters] sample_new = Panic m"
    by (auto split: outcome.splits)
  from laws [of "[AddChunk sample_setters]", unfolded this]
  have "\<exists>m. run_calls (store_call heap_fb) [AddChunk sample_setters]
      (legacy_store_new heap_fb (lb_common_identity sample_new) ([], None)) = Panic m"
    by simp
  moreover from laws [of sample_calls, unfolded run]
  obtain st f where "run_calls (store_call heap_fb) sample_calls
      (legacy_store_new heap_fb (lb_common_identity sample_new) ([], None)) = Return (st, [Ok (), Ok (), Ok ()])"
    "legacy_store_finish heap_fb st = Return f"
    "legacy_open_unchecked heap_fb f = Return (assignment_builder_finish lb)"
    by auto
  ultimately show ?thesis using ids by (intro conjI exI [of _ st] exI [of _ f] exI [of _ lb])
qed

definition sample_blob :: heap_buffer where
  "sample_blob =
    (case outcome_bind
       (worker_put_all heap_fb [9] [PutWorker [5] 1 (Some ([1, 2], [3]))] (worker_store_new ([], None)))
       (worker_store_finish heap_fb []) of
       Return f \<Rightarrow> f
     | Panic m \<Rightarrow> ([], Obj 0))"

theorem blobs_open_without_panic_witness:
  "(\<exists>a. worker_open heap_fb heap_fv sample_opts sample_blob = Return (Ok a) \<and> length (wa_workers a) = 1) \<and>
   worker_open heap_fb heap_fv sample_opts ([], Obj 0) = Return (Err (Flatbuffer ''table''))"
proof -
  have "case worker_open heap_fb heap_fv sample_opts sample_blob of
      Return (Ok a) \<Rightarrow> length (wa_workers a) = 1 | Return (Err e) \<Rightarrow> False | Panic m \<Rightarrow> True"
    by code_simp
  moreover have "worker_open heap_fb heap_fv sample_opts ([], Obj 0) = Return (Err (Flatbuffer ''table''))"
    by code_simp
  moreover obtain r where "worker_open heap_fb heap_fv sample_opts sample_blob = Return r"
    using blobs_open_without_panic [OF heap_verify_laws, of sample_opts sample_blob] by blast
  ultimately show ?thesis by (cases r) simp_all
qed

end
