(* ===== verification/Convert_Assignment.thy ===== *)
theory Convert_Assignment
  imports Legacy_Reader Portal_Properties Worker_Properties
begin

text \<open>
  The conversion tool \<^verbatim>\<open>crates/assignments/examples/convert_assignment.rs\<close>: it reads a combined
  assignment, builds the worker-facing and the portal-facing ones from it, loads the two results and
  compares them with the source field by field. The definitions run the builders and readers of the
  other theories; files and compression are left out, so what the tool writes is what it loads.

  An \<^verbatim>\<open>anyhow\<close> error is a value of \<open>convert_error\<close>; a call that can panic has an \<open>outcome\<close> type. On an
  error the builders are dropped, so only the error is returned.
\<close>

datatype convert_error =
    ChunkIdUnparsed string
  | ChunkIdDisagrees data_chunk u64
  | BuilderError string
  | WorkerWithoutHeaders
  | BadPeerId
  | Unloadable invalid_assignment
  | Missing string
  | Mismatch string

section \<open>The question mark operator and loops\<close>

definition try_bind ::
  "('e, 'a) result outcome \<Rightarrow> ('a \<Rightarrow> ('e, 'b) result outcome) \<Rightarrow> ('e, 'b) result outcome" where
  "try_bind r f = outcome_bind r (\<lambda>r. case r of Ok a \<Rightarrow> f a | Err e \<Rightarrow> Return (Err e))"

fun try_fold ::
  "('x \<Rightarrow> 's \<Rightarrow> ('e, 's) result outcome) \<Rightarrow> 'x list \<Rightarrow> 's \<Rightarrow> ('e, 's) result outcome" where
  "try_fold f [] s = Return (Ok s)"
| "try_fold f (x # xs) s = try_bind (f x s) (try_fold f xs)"

text \<open>A builder call, whose new state is kept when it succeeded.\<close>

definition accepted ::
  "('b \<times> (string, unit) result) outcome \<Rightarrow> (convert_error, 'b) result outcome" where
  "accepted r = outcome_map (\<lambda>(b, r). case r of Ok _ \<Rightarrow> Ok b | Err e \<Rightarrow> Err (BuilderError e)) r"

lemma try_bind_Ok [simp]:
  "try_bind r f = Return (Ok b) \<longleftrightarrow> (\<exists>a. r = Return (Ok a) \<and> f a = Return (Ok b))"
  by (cases r; cases "\<exists>a. r = Return (Ok a)") (auto simp: try_bind_def split: result.splits)

lemma try_bind_simps [simp]:
  "try_bind (Return (Ok a)) f = f a"
  "try_bind (Return (Err e)) f = Return (Err e)"
  "try_bind (Panic m) f = Panic m"
  by (simp_all add: try_bind_def)

lemma accepted_Ok [simp]: "accepted r = Return (Ok b) \<longleftrightarrow> r = Return (b, Ok ())"
  by (cases r) (auto simp: accepted_def split: result.splits)

section \<open>Tables and identifiers\<close>

definition strip_suffix :: "string \<Rightarrow> string \<Rightarrow> string option" where
  "strip_suffix sfx s =
    (if drop (length s - length sfx) s = sfx then Some (take (length s - length sfx) s) else None)"

definition tables_of :: "fb_chunk \<Rightarrow> string list" where
  "tables_of chunk =
    remdups_adj (sort (List.map_filter (\<lambda>file. strip_suffix ''.parquet'' (fu_filename file)) (ck_files chunk)))"

text \<open>The union is a \<^verbatim>\<open>BTreeSet\<close>: a sorted list into which a present name is not inserted again.\<close>

definition union_tables :: "fb_dataset \<Rightarrow> string list" where
  "union_tables dataset =
    fold (\<lambda>chunk union. fold (insort_insert_key (\<lambda>x. x)) (tables_of chunk) union) (ds_chunks dataset) []"

definition rosters :: "fb_assignment \<Rightarrow> string list list" where
  "rosters legacy = map union_tables (as_datasets legacy)"

definition id_of :: "fb_chunk \<Rightarrow> (convert_error, data_chunk) result" where
  "id_of chunk =
    (case data_chunk_from_str (ck_id chunk) of
       None \<Rightarrow> Err (ChunkIdUnparsed (ck_id chunk))
     | Some id' \<Rightarrow>
         if dc_first_block id' = ck_first_block chunk then Ok id'
         else Err (ChunkIdDisagrees id' (ck_first_block chunk)))"

definition schema_id :: "nat \<Rightarrow> u32" where
  "schema_id dataset_index = of_nat dataset_index + 1"

section \<open>build\_worker\<close>

fun register_rosters ::
  "nat \<Rightarrow> string list list \<Rightarrow> ('p, 'sk, 'rng) worker_builder \<Rightarrow>
    (convert_error, ('p, 'sk, 'rng) worker_builder) result"
where
  "register_rosters index [] b = Ok b"
| "register_rosters index (roster # rest) b =
    (case register_write_schema (schema_id index) roster b of
       (b, Ok _) \<Rightarrow> register_rosters (Suc index) rest b
     | (b, Err e) \<Rightarrow> Err (BuilderError e))"

definition worker_convert_chunk ::
  "u32 \<Rightarrow> string list \<Rightarrow> fb_chunk \<Rightarrow> ('p, 'sk, 'rng) worker_builder \<Rightarrow>
    (convert_error, ('p, 'sk, 'rng) worker_builder) result outcome"
where
  "worker_convert_chunk write_schema_id roster chunk b =
    (let tables = tables_of chunk
     in try_bind (Return (id_of chunk)) (\<lambda>id'.
        let (b, staged) = worker_new_chunk b;
            staged = worker_chunk_id id' staged;
            staged = worker_chunk_block_range (dc_first_block id', dc_last_block id') staged;
            staged = worker_chunk_size (ck_size chunk) staged;
            staged = worker_chunk_write_schema_id write_schema_id staged;
            b = worker_chunk_worker_indexes (ck_worker_indexes chunk) b
        in if length tables \<noteq> length roster then
             (case tables_present tables b staged of
                (b, Err e) \<Rightarrow> Return (Err (BuilderError e))
              | (b, Ok staged) \<Rightarrow> accepted (worker_chunk_finish b staged))
           else accepted (worker_chunk_finish b staged)))"

definition worker_convert_dataset ::
  "string list list \<Rightarrow> nat \<times> fb_dataset \<Rightarrow> ('p, 'sk, 'rng) worker_builder \<Rightarrow>
    (convert_error, ('p, 'sk, 'rng) worker_builder) result outcome"
where
  "worker_convert_dataset rs entry b =
    (let (index, dataset) = entry;
         write_schema_id = schema_id index
     in outcome_bind (vec_get rs index) (\<lambda>roster.
        outcome_bind (vec_get (ds_chunks dataset) 0) (\<lambda>first_chunk.
        let staging = worker_new_dataset (ds_id dataset) (ck_dataset_base_url first_chunk)
        in try_bind (try_fold (worker_convert_chunk write_schema_id roster) (ds_chunks dataset) b) (\<lambda>b.
           accepted (worker_dataset_finish staging b)))))"

definition worker_copy_worker ::
  "('p::linorder, 'sk, 'rng) crypto \<Rightarrow> (u8 list \<Rightarrow> 'p option) \<Rightarrow> fb_assignment \<Rightarrow> nat \<Rightarrow>
    ('p, 'sk, 'rng) worker_builder \<Rightarrow> (convert_error, ('p, 'sk, 'rng) worker_builder) result outcome"
where
  "worker_copy_worker cr from_bytes legacy index b =
    outcome_bind (vec_get (as_workers legacy) index) (\<lambda>entry.
    case we_encrypted_headers entry of
      None \<Rightarrow> Return (Err WorkerWithoutHeaders)
    | Some headers \<Rightarrow>
        outcome_bind (legacy_get_worker_by_index legacy (of_nat index)) (\<lambda>worker.
        case lw_peer_id from_bytes worker of
          None \<Rightarrow> Return (Err BadPeerId)
        | Some peer_id \<Rightarrow>
            outcome_map Ok (add_worker_with_sealed_headers cr peer_id (lw_status worker)
              (eh_identity headers) (eh_nonce headers) (eh_ciphertext headers) b)))"

definition build_worker ::
  "('p::linorder, 'sk, 'rng) crypto \<Rightarrow> (u8 list \<Rightarrow> 'p option) \<Rightarrow> 'rng \<Rightarrow> fb_assignment \<Rightarrow>
    (convert_error, worker_assignment) result outcome"
where
  "build_worker cr from_bytes rng legacy =
    (let rs = rosters legacy;
         b = worker_check_continuity False (worker_builder_new cr '''' rng)
     in try_bind (Return (register_rosters 0 rs b)) (\<lambda>b.
        try_bind (try_fold (worker_convert_dataset rs) (enumerate 0 (as_datasets legacy)) b) (\<lambda>b.
        try_bind (try_fold (worker_copy_worker cr from_bytes legacy) [0 ..< length (as_workers legacy)] b) (\<lambda>b.
        Return (Ok (worker_builder_finish b))))))"

section \<open>build\_portal\<close>

text \<open>The counters of unrecorded and descending timestamps, which the tool prints.\<close>

record timestamp_stats =
  st_previous :: u64
  st_zeros :: nat
  st_descents :: nat

definition note_timestamp :: "u64 \<Rightarrow> timestamp_stats \<Rightarrow> timestamp_stats" where
  "note_timestamp timestamp st =
    (let st = (if timestamp = 0 then st\<lparr>st_zeros := st_zeros st + 1\<rparr> else st);
         st = (if timestamp < st_previous st then st\<lparr>st_descents := st_descents st + 1\<rparr> else st)
     in st\<lparr>st_previous := timestamp\<rparr>)"

definition portal_convert_chunk ::
  "fb_chunk \<Rightarrow> 'p portal_builder \<times> timestamp_stats \<Rightarrow>
    (convert_error, 'p portal_builder \<times> timestamp_stats) result outcome"
where
  "portal_convert_chunk chunk s =
    (let (b, st) = s
     in try_bind (Return (id_of chunk)) (\<lambda>id'.
        let (b, staged) = portal_new_chunk b;
            staged = portal_chunk_id id' staged;
            staged = portal_chunk_block_range (dc_first_block id', dc_last_block id') staged;
            b = portal_chunk_worker_indexes (ck_worker_indexes chunk) b;
            (st, staged) =
              (case ck_last_block_timestamp chunk of
                 None \<Rightarrow> (st, staged)
               | Some timestamp \<Rightarrow>
                   (note_timestamp timestamp st, portal_chunk_last_block_timestamp timestamp staged))
        in try_bind (accepted (portal_chunk_finish b staged)) (\<lambda>b. Return (Ok (b, st)))))"

record anomalies =
  an_zeros :: nat
  an_descents :: nat
  an_datasets :: "(string, nat \<times> nat) btree"

definition note_dataset :: "string \<Rightarrow> timestamp_stats \<Rightarrow> anomalies \<Rightarrow> anomalies" where
  "note_dataset id' st an =
    (if st_zeros st > 0 \<or> st_descents st > 0 then
       an\<lparr>an_zeros := an_zeros an + st_zeros st, an_descents := an_descents an + st_descents st,
          an_datasets := btree_insert id' (st_zeros st, st_descents st) (an_datasets an)\<rparr>
     else an)"

definition portal_convert_dataset ::
  "nat \<times> fb_dataset \<Rightarrow> 'p portal_builder \<times> anomalies \<Rightarrow>
    (convert_error, 'p portal_builder \<times> anomalies) result outcome"
where
  "portal_convert_dataset entry s =
    (let (index, dataset) = entry; (b, an) = s;
         staging = portal_new_dataset (ds_id dataset) (schema_id index)
     in try_bind (try_fold portal_convert_chunk (ds_chunks dataset)
          (b, \<lparr>st_previous = 0, st_zeros = 0, st_descents = 0\<rparr>)) (\<lambda>(b, st).
        outcome_bind (dataset_last_block_hash dataset) (\<lambda>last_block_hash.
        try_bind (accepted (portal_dataset_finish last_block_hash staging b)) (\<lambda>b.
        Return (Ok (b, note_dataset (ds_id dataset) st an))))))"

definition portal_copy_worker ::
  "('p::linorder \<Rightarrow> u8 list) \<Rightarrow> (u8 list \<Rightarrow> 'p option) \<Rightarrow> fb_assignment \<Rightarrow> nat \<Rightarrow>
    'p portal_builder \<Rightarrow> (convert_error, 'p portal_builder) result outcome"
where
  "portal_copy_worker to_bytes from_bytes legacy index b =
    outcome_bind (legacy_get_worker_by_index legacy (of_nat index)) (\<lambda>worker.
    case lw_peer_id from_bytes worker of
      None \<Rightarrow> Return (Err BadPeerId)
    | Some peer_id \<Rightarrow> outcome_map Ok (portal_add_worker to_bytes peer_id (lw_status worker) b))"

definition build_portal ::
  "('p::linorder \<Rightarrow> u8 list) \<Rightarrow> (u8 list \<Rightarrow> 'p option) \<Rightarrow> fb_assignment \<Rightarrow>
    (convert_error, portal_assignment \<times> anomalies) result outcome"
where
  "build_portal to_bytes from_bytes legacy =
    (let b = portal_check_continuity False portal_builder_new;
         an = \<lparr>an_zeros = 0, an_descents = 0, an_datasets = []\<rparr>
     in try_bind (try_fold portal_convert_dataset (enumerate 0 (as_datasets legacy)) (b, an)) (\<lambda>(b, an).
        try_bind (try_fold (portal_copy_worker to_bytes from_bytes legacy) [0 ..< length (as_workers legacy)] b) (\<lambda>b.
        Return (Ok (portal_builder_finish b, an)))))"

section \<open>verify\<close>

text \<open>\<^verbatim>\<open>ensure!\<close>, with a condition whose accessors can panic, and the short-circuit conjunction.\<close>

definition ensure ::
  "string \<Rightarrow> bool outcome \<Rightarrow> (convert_error, unit) result outcome \<Rightarrow> (convert_error, unit) result outcome"
where
  "ensure msg c rest = outcome_bind c (\<lambda>ok. if ok then rest else Return (Err (Mismatch msg)))"

definition reads :: "'a outcome \<Rightarrow> 'a \<Rightarrow> bool outcome" where
  "reads r a = outcome_map (\<lambda>x. x = a) r"

definition also_reads :: "bool outcome \<Rightarrow> bool outcome \<Rightarrow> bool outcome" where
  "also_reads c d = outcome_bind c (\<lambda>ok. if ok then d else Return False)"

definition ends_with_str :: "string \<Rightarrow> string \<Rightarrow> bool" where
  "ends_with_str s sfx = (length sfx \<le> length s \<and> drop (length s - length sfx) s = sfx)"

definition verify_chunk ::
  "key_lookup \<Rightarrow> worker_assignment \<Rightarrow> string \<Rightarrow> worker_dataset \<Rightarrow> portal_dataset \<Rightarrow> nat \<times> fb_chunk \<Rightarrow>
    unit \<Rightarrow> (convert_error, unit) result outcome"
where
  "verify_chunk lk worker id' w p entry u =
    (let (i, source_chunk) = entry; chunk_id = ck_id source_chunk
     in try_bind (Return (id_of source_chunk)) (\<lambda>source_id.
        let last_block = dc_last_block source_id in
        ensure ''chunk filed under another dataset'' (Return (ck_dataset_id source_chunk = id'))
        (case worker_chunk_at w (of_nat i) of
           None \<Rightarrow> Return (Err (Missing ''worker chunk''))
         | Some wc \<Rightarrow>
        ensure ''worker chunk id'' (reads (wk_id wc) (Some chunk_id))
        (ensure ''worker block range''
          (also_reads (reads (wk_first_block wc) (ck_first_block source_chunk)) (reads (wk_last_block wc) last_block))
        (ensure ''size'' (reads (wk_size wc) (ck_size source_chunk))
        (ensure ''download url''
          (outcome_map (\<lambda>url. case url of None \<Rightarrow> True | Some url \<Rightarrow> ends_with_str url chunk_id) (wk_url lk wc))
        (outcome_bind (chunk_tables lk worker wc) (\<lambda>tables.
        case tables of
          None \<Rightarrow> Return (Err (Missing ''roster''))
        | Some resolved \<Rightarrow>
        ensure ''tables'' (Return (resolved = tables_of source_chunk))
        (case portal_chunk_at p (of_nat i) of
           None \<Rightarrow> Return (Err (Missing ''portal chunk''))
         | Some pc \<Rightarrow>
        ensure ''portal chunk id'' (reads (pk_id pc) (Some chunk_id))
        (ensure ''portal block range''
          (also_reads (reads (pk_first_block pc) (ck_first_block source_chunk)) (reads (pk_last_block pc) last_block))
        (ensure ''timestamp''
          (reads (pk_last_block_timestamp pc)
            (case ck_last_block_timestamp source_chunk of None \<Rightarrow> 0 | Some ts \<Rightarrow> ts))
        (ensure ''version'' (also_reads (reads (pk_version pc) 0) (reads (wk_version wc) 0))
        (ensure ''worker indexes''
          (also_reads (reads (pk_worker_indexes pc) (ck_worker_indexes source_chunk))
            (reads (wk_worker_indexes wc) (ck_worker_indexes source_chunk)))
          (Return (Ok ())))))))))))))))"

definition verify_dataset ::
  "key_lookup \<Rightarrow> worker_assignment \<Rightarrow> portal_assignment \<Rightarrow> nat \<times> fb_dataset \<Rightarrow> unit \<Rightarrow>
    (convert_error, unit) result outcome"
where
  "verify_dataset lk worker portal entry u =
    (let (index, source) = entry; id' = ds_id source; chunks = ds_chunks source in
     outcome_bind (vec_get (wa_datasets worker) index) (\<lambda>w.
     outcome_bind (vec_get (pa_datasets portal) index) (\<lambda>p.
     ensure ''dataset id'' (Return (wd_id w = id' \<and> pd_id p = id'))
     (ensure ''last block''
       (Return (wd_last_block w = ds_last_block source \<and> pd_last_block p = ds_last_block source))
     (ensure ''head hash'' (reads (dataset_last_block_hash source) (pd_last_block_hash p))
     (ensure ''worker chunk count'' (Return (worker_chunk_count w = length chunks))
     (ensure ''portal chunk count'' (Return (portal_chunk_count p = length chunks))
     (ensure ''base url''
       (reads (outcome_map ck_dataset_base_url (vec_get chunks 0)) (wd_base_url w))
     (try_fold (verify_chunk lk worker id' w p) (enumerate 0 chunks) ())))))))))"

definition verify_worker ::
  "(u8 list \<Rightarrow> 'p option) \<Rightarrow> fb_assignment \<Rightarrow> worker_assignment \<Rightarrow> portal_assignment \<Rightarrow> nat \<Rightarrow> unit \<Rightarrow>
    (convert_error, unit) result outcome"
where
  "verify_worker from_bytes legacy worker portal index u =
    outcome_bind (legacy_get_worker_by_index legacy (of_nat index)) (\<lambda>source.
    case lw_peer_id from_bytes source of
      None \<Rightarrow> Return (Err BadPeerId)
    | Some peer_id \<Rightarrow>
    outcome_bind (worker_get_worker_by_index worker (of_nat index)) (\<lambda>w.
    outcome_bind (portal_get_worker_by_index portal (of_nat index)) (\<lambda>p.
    case aw_peer_id from_bytes w of
      None \<Rightarrow> Return (Err BadPeerId)
    | Some w_peer \<Rightarrow>
    if w_peer \<noteq> peer_id then Return (Err (Mismatch ''worker identity''))
    else case worker_id_try_into from_bytes (pe_worker_id p) of
      None \<Rightarrow> Return (Err BadPeerId)
    | Some p_peer \<Rightarrow>
    ensure ''worker identity'' (Return (p_peer = peer_id))
    (ensure ''worker status''
      (Return (aw_status w = lw_status source \<and> portal_worker_status p = lw_status source))
    (outcome_bind (vec_get (as_workers legacy) index) (\<lambda>entry.
    case we_encrypted_headers entry of
      None \<Rightarrow> Return (Err WorkerWithoutHeaders)
    | Some source_headers \<Rightarrow>
    outcome_bind (vec_get (wa_workers worker) index) (\<lambda>copied_entry.
    case we_encrypted_headers copied_entry of
      None \<Rightarrow> Return (Err (Missing ''headers''))
    | Some copied \<Rightarrow>
    ensure ''sealed headers''
      (Return (eh_identity copied = eh_identity source_headers \<and>
        eh_nonce copied = eh_nonce source_headers \<and>
        eh_ciphertext copied = eh_ciphertext source_headers))
      (Return (Ok ())))))))))"

definition verify_conversion ::
  "key_lookup \<Rightarrow> (u8 list \<Rightarrow> 'p option) \<Rightarrow> fb_assignment \<Rightarrow> worker_assignment \<Rightarrow> portal_assignment \<Rightarrow>
    (convert_error, unit) result outcome"
where
  "verify_conversion lk from_bytes legacy worker portal =
    ensure ''dataset count''
      (Return (length (wa_datasets worker) = length (as_datasets legacy) \<and>
        length (pa_datasets portal) = length (as_datasets legacy)))
    (try_bind (try_fold (verify_dataset lk worker portal) (enumerate 0 (as_datasets legacy)) ()) (\<lambda>_.
    ensure ''worker count''
      (Return (length (wa_workers worker) = length (as_workers legacy) \<and>
        length (pa_workers portal) = length (as_workers legacy)))
    (try_fold (verify_worker from_bytes legacy worker portal) [0 ..< length (as_workers legacy)] ())))"

section \<open>main\<close>

text \<open>\<^verbatim>\<open>parse::<i32>\<close>: an optional sign and at least one digit, within the 32-bit range.\<close>

definition parse_i32 :: "string \<Rightarrow> int option" where
  "parse_i32 s =
    (case s of
       [] \<Rightarrow> None
     | c # cs \<Rightarrow>
         let (neg, digits) = (if c = CHR ''-'' then (True, cs) else if c = CHR ''+'' then (False, cs) else (False, s))
         in if digits = [] then None
            else case parse_digits 0 digits of
              None \<Rightarrow> None
            | Some n \<Rightarrow>
                if neg \<and> n \<le> 2147483648 then Some (- int n)
                else if \<not> neg \<and> n < 2147483648 then Some (int n)
                else None)"

record compress =
  co_gzip :: bool
  co_zstd :: bool
  co_zstd_level :: int

record convert_args =
  ca_input :: "string option"
  ca_out_dir :: string
  ca_verify_only :: bool
  ca_compress :: compress

definition default_args :: convert_args where
  "default_args =
    \<lparr>ca_input = None, ca_out_dir = ''.'', ca_verify_only = False,
     ca_compress = \<lparr>co_gzip = True, co_zstd = True, co_zstd_level = 9\<rparr>\<rparr>"

definition compress_choice :: "string \<Rightarrow> (bool \<times> bool) option" where
  "compress_choice which =
    (if which = ''gzip'' then Some (True, False)
     else if which = ''zstd'' then Some (False, True)
     else if which = ''both'' then Some (True, True)
     else if which = ''none'' then Some (False, False)
     else None)"

text \<open>Every flag that takes a value consumes the next argument; anything else is the input, the last one given.\<close>

fun parse_args :: "string list \<Rightarrow> convert_args \<Rightarrow> (string, convert_args) result" where
  "parse_args [] a =
    (if ca_input a = None
     then Err ''usage: convert_assignment <assignment.fb> [--out-dir DIR] [--verify-only]'' else Ok a)"
| "parse_args (arg # rest) a =
    (if arg = ''--verify-only'' then parse_args rest (a\<lparr>ca_verify_only := True\<rparr>)
     else if arg = ''--out-dir'' then
       (case rest of
          [] \<Rightarrow> Err ''--out-dir needs a path''
        | dir # rest \<Rightarrow> parse_args rest (a\<lparr>ca_out_dir := dir\<rparr>))
     else if arg = ''--zstd-level'' then
       (case rest of
          [] \<Rightarrow> Err ''--zstd-level needs a value''
        | v # rest \<Rightarrow>
            (case parse_i32 v of
               None \<Rightarrow> Err ''invalid digit''
             | Some l \<Rightarrow> parse_args rest (a\<lparr>ca_compress := (ca_compress a)\<lparr>co_zstd_level := l\<rparr>\<rparr>)))
     else if arg = ''--compress'' then
       (case rest of
          [] \<Rightarrow> Err ''--compress needs gzip, zstd, both or none''
        | which # rest \<Rightarrow>
            (case compress_choice which of
               None \<Rightarrow> Err (''--compress takes gzip, zstd, both or none, got '' @ CHR 0x27 # which @ [CHR 0x27])
             | Some (gzip, zstd) \<Rightarrow>
                 parse_args rest (a\<lparr>ca_compress := (ca_compress a)\<lparr>co_gzip := gzip, co_zstd := zstd\<rparr>\<rparr>)))
     else parse_args rest (a\<lparr>ca_input := Some arg\<rparr>))"

declare parse_args.simps(2) [simp del]

text \<open>An accepted command line names an input.\<close>

lemma parse_args_input: "parse_args args a = Ok a' \<Longrightarrow> ca_input a' \<noteq> None"
proof (induction args a rule: parse_args.induct)
  case (2 arg rest a)
  from 2(6) [unfolded parse_args.simps(2)] show ?case
    using 2(1-5) by (auto split: if_split_asm list.split_asm option.split_asm prod.split_asm)
qed (simp split: if_splits)

text \<open>
  The body of \<^verbatim>\<open>main\<close> once the source is read. With \<^verbatim>\<open>--verify-only\<close> nothing is built and the
  two output files are loaded as they are (\<open>files\<close>).
\<close>

definition convert ::
  "('p::linorder, 'sk, 'rng) crypto \<Rightarrow> key_lookup \<Rightarrow> (u8 list \<Rightarrow> 'p option) \<Rightarrow> 'rng \<Rightarrow> bool \<Rightarrow>
    worker_assignment \<times> portal_assignment \<Rightarrow> fb_assignment \<Rightarrow> (convert_error, unit) result outcome"
where
  "convert cr lk from_bytes rng verify_only files legacy =
    try_bind
      (if \<not> verify_only then
         try_bind (build_worker cr from_bytes rng legacy) (\<lambda>worker.
         try_bind (build_portal (cr_to_bytes cr) from_bytes legacy) (\<lambda>(portal, _).
         Return (Ok (worker, portal))))
       else Return (Ok files))
      (\<lambda>(worker, portal).
        case worker_from_owned Ok worker of
          Err e \<Rightarrow> Return (Err (Unloadable e))
        | Ok worker \<Rightarrow>
            (case portal_from_owned Ok portal of
               Err e \<Rightarrow> Return (Err (Unloadable e))
             | Ok portal \<Rightarrow> verify_conversion lk from_bytes legacy worker portal))"

end
