(* ===== verification/Convert_Worker.thy ===== *)
theory Convert_Worker
  imports Convert_Assignment Worker_Guarantees
begin

text \<open>
  What \<^verbatim>\<open>build_worker\<close> of the conversion tool produces: the rosters it registers, and, for every
  source dataset, the worker dataset emitted for the descriptions of its chunks.
\<close>

section \<open>Loops\<close>

lemma try_fold_invariant:
  assumes "try_fold f xs s = Return (Ok s')" "P 0 s"
    and "\<And>i s s'. i < length xs \<Longrightarrow> P i s \<Longrightarrow> f (xs ! i) s = Return (Ok s') \<Longrightarrow> P (Suc i) s'"
  shows "P (length xs) s'"
  using assms
proof (induction xs arbitrary: s P)
  case (Cons x xs)
  from Cons.prems(1) obtain s1 where s1: "f x s = Return (Ok s1)" "try_fold f xs s1 = Return (Ok s')"
    by auto
  show ?case
    using Cons.IH [OF s1(2), of "\<lambda>i. P (Suc i)"] Cons.prems(2) Cons.prems(3) [of 0 s s1]
      Cons.prems(3) [of "Suc i" for i] s1(1) by auto
qed simp

lemma try_fold_unit:
  "try_fold f xs () = Return (Ok ()) \<longleftrightarrow> (\<forall>x \<in> set xs. f x () = Return (Ok ()))"
  by (induction xs) auto

section \<open>Tables\<close>

lemma remdups_adj_strict: "sorted xs \<Longrightarrow> sorted_wrt (<) (remdups_adj xs :: 'a::linorder list)"
  by (induction xs rule: remdups_adj.induct) (auto simp: order.strict_iff_order)

lemma tables_of_strict: "sorted_wrt (<) (tables_of c)"
  by (simp add: tables_of_def remdups_adj_strict)

lemma union_step:
  assumes "sorted_wrt (<) (u :: string list)"
  shows "sorted_wrt (<) (fold (insort_insert_key (\<lambda>x. x)) ts u) \<and>
    set (fold (insort_insert_key (\<lambda>x. x)) ts u) = set ts \<union> set u"
  using assms
proof (induction ts arbitrary: u)
  case (Cons t ts)
  have "sorted_wrt (<) (insort_insert_key (\<lambda>x. x) t u)"
    using Cons.prems
    by (auto simp: strict_sorted_iff insort_insert_key_def sorted_insort distinct_insort)
  with Cons.IH [OF this] show ?case
    by (auto simp: set_insort_insert)
qed simp

lemma union_tables_fold:
  assumes "sorted_wrt (<) (u :: string list)"
  shows "sorted_wrt (<) (fold (\<lambda>c u. fold (insort_insert_key (\<lambda>x. x)) (tables_of c) u) cs u) \<and>
    set (fold (\<lambda>c u. fold (insort_insert_key (\<lambda>x. x)) (tables_of c) u) cs u) =
      (\<Union>c \<in> set cs. set (tables_of c)) \<union> set u"
  using assms
proof (induction cs arbitrary: u)
  case (Cons c cs)
  with Cons.IH [of "fold (insort_insert_key (\<lambda>x. x)) (tables_of c) u"] union_step [OF Cons.prems, of "tables_of c"]
  show ?case
    by auto
qed simp

lemma union_tables_strict: "sorted_wrt (<) (union_tables d)"
  using union_tables_fold [of "[]" "ds_chunks d"] by (simp add: union_tables_def)

lemma set_union_tables: "set (union_tables d) = (\<Union>c \<in> set (ds_chunks d). set (tables_of c))"
  using union_tables_fold [of "[]" "ds_chunks d"] by (simp add: union_tables_def)

text \<open>A chunk with as many tables as its dataset's roster has the whole roster.\<close>

lemma tables_of_full:
  assumes "c \<in> set (ds_chunks d)" "length (tables_of c) = length (union_tables d)"
  shows "tables_of c = union_tables d"
proof -
  have dist: "distinct (tables_of c)" "distinct (union_tables d)"
    using tables_of_strict union_tables_strict sorted_wrt_less_distinct by blast+
  have "set (tables_of c) \<subseteq> set (union_tables d)"
    using assms(1) by (auto simp: set_union_tables)
  moreover have "card (set (tables_of c)) = card (set (union_tables d))"
    using dist assms(2) by (simp add: distinct_card)
  ultimately have "set (tables_of c) = set (union_tables d)"
    by (simp add: card_subset_eq)
  then show ?thesis
    using tables_of_strict [of c] union_tables_strict [of d]
    by (intro sorted_distinct_set_unique) (simp_all add: dist sorted_wrt_less_sorted)
qed

section \<open>Rosters\<close>

lemma schema_id_eq: "i < U32_MAX \<Longrightarrow> j < U32_MAX \<Longrightarrow> schema_id i = schema_id j \<longleftrightarrow> i = j"
  by (metis add_right_cancel less_imp_le schema_id_def unat_of_nat_u32)

lemma register_rosters_Ok:
  assumes "rosters_ok (wb_write_schemas b)" "n + length rs \<le> U32_MAX"
    and "\<forall>roster \<in> set rs. sorted_wrt (<) roster"
    and "\<forall>j \<ge> n. j < n + length rs \<longrightarrow> map_of (wb_write_schemas b) (schema_id j) = None"
  shows "\<exists>schemas. register_rosters n rs b = Ok (b\<lparr>wb_write_schemas := schemas\<rparr>) \<and> rosters_ok schemas \<and>
    map_of (wb_write_schemas b) \<subseteq>\<^sub>m map_of schemas \<and>
    (\<forall>j < length rs. map_of schemas (schema_id (n + j)) = Some (rs ! j))"
  using assms
proof (induction rs arbitrary: n b)
  case Nil
  show ?case
    using Nil.prems(1) by (intro exI [of _ "wb_write_schemas b"]) simp
next
  case (Cons r rs)
  let ?s = "btree_insert (schema_id n) r (wb_write_schemas b)"
  let ?b = "b\<lparr>wb_write_schemas := ?s\<rparr>"
  have fresh: "map_of (wb_write_schemas b) (schema_id n) = None" and strict: "is_sorted_strict r"
    using Cons.prems(3,4) by (auto simp: is_sorted_strict_iff)
  then have reg: "register_write_schema (schema_id n) r b = (?b, Ok ())"
    by (simp add: register_write_schema_def)
  have inv: "btree_inv (wb_write_schemas b)"
    using Cons.prems(1) by (simp add: rosters_ok_def)
  have ok: "rosters_ok (wb_write_schemas ?b)"
    using register_write_schema_rosters_ok [OF Cons.prems(1), of "schema_id n" r] by (simp add: reg)
  have "map_of (wb_write_schemas ?b) (schema_id j) = None" if "Suc n \<le> j" "j < Suc n + length rs" for j
    using that Cons.prems(2,4) inv schema_id_eq [of n j] by simp
  with Cons.IH [OF ok, of "Suc n"] Cons.prems(2,3) obtain schemas where
    rest: "register_rosters (Suc n) rs ?b = Ok (?b\<lparr>wb_write_schemas := schemas\<rparr>)" "rosters_ok schemas"
      "map_of ?s \<subseteq>\<^sub>m map_of schemas" "\<forall>j < length rs. map_of schemas (schema_id (Suc n + j)) = Some (rs ! j)"
    by auto
  have le: "map_of (wb_write_schemas b) \<subseteq>\<^sub>m map_of schemas"
    using rest(3) inv fresh by (auto simp: map_le_def dom_def)
  have "map_of schemas (schema_id n) = Some r"
    using rest(3) inv by (auto simp: map_le_def dom_def)
  then have "map_of schemas (schema_id (n + j)) = Some ((r # rs) ! j)" if "j < length (r # rs)" for j
    using that rest(4) by (cases j) auto
  with rest le reg show ?case
    by (intro exI [of _ schemas]) simp
qed

section \<open>Chunks\<close>

text \<open>The identifier a source chunk names, and the description it is staged with.\<close>

definition chunk_of :: "fb_chunk \<Rightarrow> data_chunk" where
  "chunk_of c = the (data_chunk_from_str (ck_id c))"

definition worker_spec_of :: "u32 \<Rightarrow> string list \<Rightarrow> fb_chunk \<Rightarrow> worker_spec" where
  "worker_spec_of w roster c =
    \<lparr>ws_id = chunk_of c, ws_size = ck_size c, ws_version = 0, ws_schema = w,
     ws_tables = (if length (tables_of c) \<noteq> length roster then Some (tables_of c) else None),
     ws_workers = ck_worker_indexes c\<rparr>"

lemma worker_spec_of_simps [simp]:
  "ws_id (worker_spec_of w roster c) = chunk_of c"
  "ws_size (worker_spec_of w roster c) = ck_size c"
  "ws_version (worker_spec_of w roster c) = 0"
  "ws_schema (worker_spec_of w roster c) = w"
  "ws_tables (worker_spec_of w roster c) =
    (if length (tables_of c) \<noteq> length roster then Some (tables_of c) else None)"
  "ws_workers (worker_spec_of w roster c) = ck_worker_indexes c"
  by (simp_all add: worker_spec_of_def)

lemma id_of_Ok:
  assumes "id_of c = Ok x"
  shows "x = chunk_of c" "dc_wf x" "dc_first_block x = ck_first_block c"
proof -
  have parse: "data_chunk_from_str (ck_id c) = Some x" and "dc_first_block x = ck_first_block c"
    using assms by (auto simp: id_of_def split: option.splits if_splits)
  then show "x = chunk_of c" "dc_first_block x = ck_first_block c"
    by (simp_all add: chunk_of_def)
  show "dc_wf x"
    using parse data_chunk_new_wf unfolding data_chunk_from_str_Some by blast
qed

lemma worker_convert_chunk_stage:
  assumes "id_of c = Ok x"
  shows "worker_convert_chunk w roster c b = accepted (worker_stage (worker_spec_of w roster c) b)"
  using assms id_of_Ok(1) [OF assms]
  by (simp add: worker_convert_chunk_def worker_stage_def worker_new_chunk_def worker_chunk_id_def
      worker_chunk_block_range_def worker_chunk_size_def worker_chunk_version_def
      worker_chunk_write_schema_id_def worker_chunk_worker_indexes_def accepted_def Let_def
      split: prod.splits result.splits)

lemma worker_convert_chunks:
  assumes "try_fold (worker_convert_chunk w roster) cs b = Return (Ok b')"
  shows "(\<forall>c \<in> set cs. id_of c = Ok (chunk_of c)) \<and>
    stage_all worker_stage (map (worker_spec_of w roster) cs) b = Some b'"
  using assms
proof (induction cs arbitrary: b)
  case (Cons c cs)
  then obtain b1 where b1: "worker_convert_chunk w roster c b = Return (Ok b1)"
    and rest: "try_fold (worker_convert_chunk w roster) cs b1 = Return (Ok b')"
    by auto
  obtain x where x: "id_of c = Ok x"
    using b1 by (cases "id_of c") (auto simp: worker_convert_chunk_def)
  have "worker_stage (worker_spec_of w roster c) b = Return (b1, Ok ())"
    using b1 by (simp add: worker_convert_chunk_stage [OF x])
  with Cons.IH [OF rest] x id_of_Ok(1) [OF x] show ?case
    by simp
qed simp

lemma stage_all_keeps:
  assumes "stage_all worker_stage specs b = Some b'" "\<forall>s \<in> set specs. dc_wf (ws_id s)"
  shows "wb_all_datasets b' = wb_all_datasets b \<and> wb_worker_entries b' = wb_worker_entries b \<and>
    wb_write_schemas b' = wb_write_schemas b \<and> wb_current_generations b' = wb_current_generations b \<and>
    wb_last_peer_id b' = wb_last_peer_id b"
  using assms
proof (induction specs arbitrary: b)
  case (Cons s specs)
  then obtain b1 where b1: "worker_stage s b = Return (b1, Ok ())" "stage_all worker_stage specs b1 = Some b'"
    by (auto split: outcome.splits prod.splits result.splits)
  have wf: "dc_wf (ws_id s)" "\<forall>s \<in> set specs. dc_wf (ws_id s)"
    using Cons.prems(2) by simp_all
  from Cons.IH [OF b1(2) wf(2)] show ?case
    by (simp add: worker_stage_Ok(1) [OF b1(1) wf(1)])
qed simp

section \<open>Datasets\<close>

definition worker_dataset_of ::
  "(u32, string list) btree \<Rightarrow> u32 \<Rightarrow> fb_dataset \<Rightarrow> worker_dataset \<Rightarrow> bool" where
  "worker_dataset_of schemas w source d =
    (wd_id d = ds_id source \<and> ds_chunks source \<noteq> [] \<and>
     wd_base_url d = ck_dataset_base_url (ds_chunks source ! 0) \<and>
     (\<forall>c \<in> set (ds_chunks source). id_of c = Ok (chunk_of c)) \<and>
     emitted schemas [] d (map (worker_spec_of w (union_tables source)) (ds_chunks source)))"

definition worker_clean :: "(u32, string list) btree \<Rightarrow> ('p, 'sk, 'rng) worker_builder \<Rightarrow> bool" where
  "worker_clean schemas b =
    (wb_columns b = worker_columns_default \<and> wb_last_block b = None \<and>
     wb_current_generations b = [] \<and> wb_write_schemas b = schemas)"

lemma worker_convert_dataset_Ok:
  assumes "worker_convert_dataset rs (i, source) b = Return (Ok b')" "worker_clean schemas b"
    and "i < length rs" "rs ! i = union_tables source"
  shows "\<exists>d. worker_dataset_of schemas (schema_id i) source d \<and> worker_clean schemas b' \<and>
    wb_all_datasets b' = wb_all_datasets b @ [d] \<and> wb_worker_entries b' = wb_worker_entries b \<and>
    wb_last_peer_id b' = wb_last_peer_id b"
proof -
  let ?specs = "map (worker_spec_of (schema_id i) (union_tables source)) (ds_chunks source)"
  let ?db = "worker_new_dataset (ds_id source) (ck_dataset_base_url (ds_chunks source ! 0))"
  from assms(1,3,4) obtain b1 where nonempty: "0 < length (ds_chunks source)"
    and fold: "try_fold (worker_convert_chunk (schema_id i) (union_tables source)) (ds_chunks source) b = Return (Ok b1)"
    and fin: "worker_dataset_finish ?db b1 = Return (b', Ok ())"
    by (auto simp: worker_convert_dataset_def vec_get_Return_iff Let_def)
  note staged = worker_convert_chunks [OF fold]
  have wf: "\<forall>s \<in> set ?specs. dc_wf (ws_id s)"
    using staged id_of_Ok(2) by fastforce
  note keeps = stage_all_keeps [OF conjunct2 [OF staged] wf]
  have "worker_holds b []"
    using assms(2) by (intro worker_holds_Nil) (simp_all add: worker_clean_def)
  from worker_stager.holds_stage_all [OF this wf conjunct2 [OF staged]]
  have "worker_holds b1 ([] @ ?specs)" .
  then have holds: "worker_holds b1 ?specs"
    by simp
  obtain d where "b' = b1\<lparr>wb_columns := worker_columns_default, wb_last_block := None,
      wb_all_datasets := wb_all_datasets b1 @ [d], wb_current_generations := []\<rparr>"
    "wd_id d = wdb_id ?db" "wd_base_url d = wdb_base_url ?db"
    "emitted (wb_write_schemas b1) (wb_current_generations b1) d ?specs"
    by (rule worker_finish_Ok [OF holds fin])
  then show ?thesis
    using keeps staged nonempty assms(2)
    by (intro exI [of _ d]) (auto simp: worker_dataset_of_def worker_clean_def worker_new_dataset_def)
qed

lemma worker_convert_datasets:
  assumes "try_fold (worker_convert_dataset rs) (enumerate 0 ds) b = Return (Ok b')"
    and "rs = map union_tables ds" "worker_clean schemas b" "wb_all_datasets b = []"
  shows "worker_clean schemas b' \<and> wb_worker_entries b' = wb_worker_entries b \<and>
    wb_last_peer_id b' = wb_last_peer_id b \<and> length (wb_all_datasets b') = length ds \<and>
    (\<forall>j < length ds. worker_dataset_of schemas (schema_id j) (ds ! j) (wb_all_datasets b' ! j))"
proof -
  let ?P = "\<lambda>n s. worker_clean schemas s \<and> wb_worker_entries s = wb_worker_entries b \<and>
    wb_last_peer_id s = wb_last_peer_id b \<and> length (wb_all_datasets s) = n \<and>
    (\<forall>j < n. worker_dataset_of schemas (schema_id j) (ds ! j) (wb_all_datasets s ! j))"
  have "?P (length (enumerate 0 ds)) b'"
  proof (rule try_fold_invariant [OF assms(1), of ?P])
    show "?P 0 b"
      using assms(3,4) by simp
    fix i s s'
    assume i: "i < length (enumerate 0 ds)" and s: "?P i s"
      and step: "worker_convert_dataset rs (enumerate 0 ds ! i) s = Return (Ok s')"
    from step i have "worker_convert_dataset rs (i, ds ! i) s = Return (Ok s')"
      by (simp add: nth_enumerate_eq)
    from worker_convert_dataset_Ok [OF this conjunct1 [OF s]] i assms(2) s
    show "?P (Suc i) s'"
      by (auto simp: nth_append less_Suc_eq)
  qed
  then show ?thesis
    by simp
qed

section \<open>Workers\<close>

text \<open>The entry written for worker \<open>j\<close>: the source is read at \<^verbatim>\<open>j as u16\<close>.\<close>

definition source_entry :: "fb_assignment \<Rightarrow> nat \<Rightarrow> worker_entry" where
  "source_entry legacy j = as_workers legacy ! unat (of_nat j :: u16)"

definition peers_ok :: "('p \<Rightarrow> u8 list) \<Rightarrow> (u8 list \<Rightarrow> 'p option) \<Rightarrow> fb_assignment \<Rightarrow> bool" where
  "peers_ok to_bytes from_bytes legacy =
    (\<forall>e \<in> set (as_workers legacy). case from_bytes (we_worker_id e) of
       None \<Rightarrow> True | Some p \<Rightarrow> codec_ok to_bytes from_bytes p)"

lemma u16_index: "j < n \<Longrightarrow> unat (of_nat j :: u16) < n"
  by (rule le_less_trans [of _ j]) (simp_all add: unat_of_nat take_bit_nat_less_eq_self)

lemma peers_ok_source:
  assumes "peers_ok to_bytes from_bytes legacy" "j < length (as_workers legacy)"
    and "from_bytes (we_worker_id (source_entry legacy j)) = Some p"
  shows "codec_ok to_bytes from_bytes p"
proof -
  have "source_entry legacy j \<in> set (as_workers legacy)"
    using u16_index [OF assms(2)] by (simp add: source_entry_def)
  with assms(1,3) show ?thesis
    by (auto simp: peers_ok_def split: option.splits)
qed

definition worker_entry_of ::
  "('p \<Rightarrow> u8 list) \<Rightarrow> (u8 list \<Rightarrow> 'p option) \<Rightarrow> fb_assignment \<Rightarrow> nat \<Rightarrow> worker_entry \<Rightarrow> bool" where
  "worker_entry_of to_bytes from_bytes legacy j e =
    (\<exists>p h. from_bytes (we_worker_id (source_entry legacy j)) = Some p \<and>
       we_encrypted_headers (as_workers legacy ! j) = Some h \<and>
       e = \<lparr>we_worker_id = to_bytes p,
         we_status = status_to_fb (status_from_fb (we_status (source_entry legacy j))),
         we_encrypted_headers = Some h\<rparr>)"

lemma legacy_worker_at:
  assumes "j < length (as_workers legacy)"
  shows "legacy_get_worker_by_index legacy (of_nat j) =
    Return \<lparr>lw_assignment = legacy, lw_reader = source_entry legacy j, lw_index = of_nat j\<rparr>"
  using u16_index [OF assms] by (simp add: legacy_get_worker_by_index_def source_entry_def)

lemma worker_copy_workers:
  assumes "try_fold (worker_copy_worker cr from_bytes legacy) [0 ..< length (as_workers legacy)] b = Return (Ok b')"
    and "peers_ok (cr_to_bytes cr) from_bytes legacy" "wb_worker_entries b = []"
  shows "wb_all_datasets b' = wb_all_datasets b \<and> wb_write_schemas b' = wb_write_schemas b \<and>
    length (wb_worker_entries b') = length (as_workers legacy) \<and>
    (\<forall>j < length (as_workers legacy).
      worker_entry_of (cr_to_bytes cr) from_bytes legacy j (snd (wb_worker_entries b' ! j)))"
proof -
  let ?P = "\<lambda>n s. wb_all_datasets s = wb_all_datasets b \<and> wb_write_schemas s = wb_write_schemas b \<and>
    length (wb_worker_entries s) = n \<and>
    (\<forall>j < n. worker_entry_of (cr_to_bytes cr) from_bytes legacy j (snd (wb_worker_entries s ! j)))"
  have "?P (length [0 ..< length (as_workers legacy)]) b'"
  proof (rule try_fold_invariant [OF assms(1), of ?P])
    show "?P 0 b"
      using assms(3) by simp
    fix i s s'
    assume "i < length [0 ..< length (as_workers legacy)]" and s: "?P i s"
      and step: "worker_copy_worker cr from_bytes legacy ([0 ..< length (as_workers legacy)] ! i) s = Return (Ok s')"
    then have i: "i < length (as_workers legacy)"
      by simp
    from step i obtain p h where p: "from_bytes (we_worker_id (source_entry legacy i)) = Some p"
      and h: "we_encrypted_headers (as_workers legacy ! i) = Some h"
      and add: "add_worker_with_sealed_headers cr p (status_from_fb (we_status (source_entry legacy i)))
        (eh_identity h) (eh_nonce h) (eh_ciphertext h) s = Return s'"
      by (auto simp: worker_copy_worker_def legacy_worker_at lw_peer_id_def lw_status_def
          worker_id_try_into_def split: option.splits)
    have "length (cr_to_bytes cr p) = WORKER_ID_LEN"
      using peers_ok_source [OF assms(2) i p] by (simp add: codec_ok_def)
    from worker_add_sealed_fields [OF add this] s p h show "?P (Suc i) s'"
      by (auto simp: nth_append less_Suc_eq worker_entry_of_def)
  qed
  then show ?thesis
    by simp
qed

section \<open>The worker assignment\<close>

definition converted_worker ::
  "('p \<Rightarrow> u8 list) \<Rightarrow> (u8 list \<Rightarrow> 'p option) \<Rightarrow> fb_assignment \<Rightarrow> worker_assignment \<Rightarrow>
    (u32, string list) btree \<Rightarrow> bool" where
  "converted_worker to_bytes from_bytes legacy a schemas =
    (length (wa_datasets a) = length (as_datasets legacy) \<and>
     length (wa_workers a) = length (as_workers legacy) \<and> rosters_ok schemas \<and>
     (\<forall>j < length (as_datasets legacy).
        map_of schemas (schema_id j) = Some (union_tables (as_datasets legacy ! j)) \<and>
        worker_dataset_of schemas (schema_id j) (as_datasets legacy ! j) (wa_datasets a ! j)) \<and>
     (\<forall>j < length (as_workers legacy).
        worker_entry_of to_bytes from_bytes legacy j (wa_workers a ! j)))"

lemma register_all:
  assumes "length (as_datasets legacy) \<le> U32_MAX" "wb_write_schemas b = []"
  obtains schemas where "register_rosters 0 (rosters legacy) b = Ok (b\<lparr>wb_write_schemas := schemas\<rparr>)"
    and "rosters_ok schemas"
    and "\<forall>j < length (as_datasets legacy). map_of schemas (schema_id j) = Some (union_tables (as_datasets legacy ! j))"
  using register_rosters_Ok [of b 0 "rosters legacy"] assms union_tables_strict
  by (auto simp: rosters_def)

lemma build_worker_converted:
  fixes cr :: "('p::linorder, 'sk, 'rng) crypto"
  assumes "build_worker cr from_bytes rng legacy = Return (Ok a)"
    and "peers_ok (cr_to_bytes cr) from_bytes legacy" "length (as_datasets legacy) \<le> U32_MAX"
  obtains b :: "('p, 'sk, 'rng) worker_builder"
    where "a = worker_builder_finish b"
      and "converted_worker (cr_to_bytes cr) from_bytes legacy a (wb_write_schemas b)"
proof -
  let ?b = "worker_check_continuity False (worker_builder_new cr '''' rng)"
  have fresh: "worker_clean [] ?b" "wb_all_datasets ?b = []" "wb_worker_entries ?b = []"
    by (simp_all add: worker_clean_def worker_check_continuity_def worker_builder_new_def split: prod.splits)
  then have "wb_write_schemas ?b = []"
    by (simp add: worker_clean_def)
  from register_all [OF assms(3) this] obtain schemas where
    reg: "register_rosters 0 (rosters legacy) ?b = Ok (?b\<lparr>wb_write_schemas := schemas\<rparr>)"
    and schemas: "rosters_ok schemas" "\<forall>j < length (as_datasets legacy).
      map_of schemas (schema_id j) = Some (union_tables (as_datasets legacy ! j))"
    by blast
  let ?b0 = "?b\<lparr>wb_write_schemas := schemas\<rparr>"
  from assms(1) reg obtain b1 b2 where
    ds: "try_fold (worker_convert_dataset (rosters legacy)) (enumerate 0 (as_datasets legacy)) ?b0 = Return (Ok b1)"
    and ws: "try_fold (worker_copy_worker cr from_bytes legacy) [0 ..< length (as_workers legacy)] b1 = Return (Ok b2)"
    and a: "a = worker_builder_finish b2"
    by (auto simp: build_worker_def Let_def)
  have clean: "worker_clean schemas ?b0" "wb_all_datasets ?b0 = []" "wb_worker_entries ?b0 = []"
    using fresh by (simp_all add: worker_clean_def)
  note built = worker_convert_datasets [OF ds rosters_def [of legacy] clean(1,2)]
  then have "wb_worker_entries b1 = []"
    by (simp add: clean(3))
  note copied = worker_copy_workers [OF ws assms(2) this]
  have "wb_write_schemas b2 = schemas"
    using copied built by (simp add: worker_clean_def)
  then show ?thesis
    using that [of b2] a built copied schemas by (simp add: converted_worker_def worker_builder_finish_def)
qed

end
