(* ===== verification/Convert_Portal.thy ===== *)
theory Convert_Portal
  imports Convert_Worker Portal_Guarantees
begin

text \<open>
  What \<^verbatim>\<open>build_portal\<close> of the conversion tool produces: for every source dataset the portal dataset
  emitted for the descriptions of its chunks, and the counts of unusual timestamps it reports.
\<close>

section \<open>Chunks\<close>

definition portal_spec_of :: "fb_chunk \<Rightarrow> portal_spec" where
  "portal_spec_of c =
    \<lparr>ps_id = chunk_of c, ps_version = 0, ps_timestamp = ts_or_0 c, ps_workers = ck_worker_indexes c\<rparr>"

lemma portal_spec_of_simps [simp]:
  "ps_id (portal_spec_of c) = chunk_of c"
  "ps_version (portal_spec_of c) = 0"
  "ps_timestamp (portal_spec_of c) = ts_or_0 c"
  "ps_workers (portal_spec_of c) = ck_worker_indexes c"
  by (simp_all add: portal_spec_of_def)

definition note_chunk :: "fb_chunk \<Rightarrow> timestamp_stats \<Rightarrow> timestamp_stats" where
  "note_chunk c st = (case ck_last_block_timestamp c of None \<Rightarrow> st | Some ts \<Rightarrow> note_timestamp ts st)"

lemma portal_convert_chunk_stage:
  assumes "id_of c = Ok x"
  shows "portal_convert_chunk c (b, st) =
    try_bind (accepted (portal_stage (portal_spec_of c) b)) (\<lambda>b. Return (Ok (b, note_chunk c st)))"
  using assms id_of_Ok(1) [OF assms]
  by (simp add: portal_convert_chunk_def portal_stage_def portal_new_chunk_def portal_chunk_id_def
      portal_chunk_block_range_def portal_chunk_version_def portal_chunk_last_block_timestamp_def
      portal_chunk_worker_indexes_def note_chunk_def ts_or_0_def Let_def split: option.splits)

lemma portal_convert_chunks:
  assumes "try_fold portal_convert_chunk cs (b, st) = Return (Ok (b', st'))"
  shows "(\<forall>c \<in> set cs. id_of c = Ok (chunk_of c)) \<and> st' = fold note_chunk cs st \<and>
    stage_all portal_stage (map portal_spec_of cs) b = Some b'"
  using assms
proof (induction cs arbitrary: b st)
  case (Cons c cs)
  then obtain b1 st1 where b1: "portal_convert_chunk c (b, st) = Return (Ok (b1, st1))"
    and rest: "try_fold portal_convert_chunk cs (b1, st1) = Return (Ok (b', st'))"
    by auto
  obtain x where x: "id_of c = Ok x"
    using b1 by (cases "id_of c") (auto simp: portal_convert_chunk_def)
  have "portal_stage (portal_spec_of c) b = Return (b1, Ok ())" "st1 = note_chunk c st"
    using b1 by (auto simp: portal_convert_chunk_stage [OF x])
  with Cons.IH [OF rest] x id_of_Ok(1) [OF x] show ?case
    by simp
qed simp

lemma portal_stage_keeps:
  assumes "portal_stage s b = Return (b', Ok ())" "dc_wf (ps_id s)"
  shows "pb_all_datasets b' = pb_all_datasets b \<and> pb_worker_entries b' = pb_worker_entries b \<and>
    pb_last_peer_id b' = pb_last_peer_id b"
  using assms(1)
  by (auto simp: portal_stage_push [OF assms(2)] portal_push_chunk_def Let_def split: if_splits)

lemma portal_stage_all_keeps:
  assumes "stage_all portal_stage specs b = Some b'" "\<forall>s \<in> set specs. dc_wf (ps_id s)"
  shows "pb_all_datasets b' = pb_all_datasets b \<and> pb_worker_entries b' = pb_worker_entries b \<and>
    pb_last_peer_id b' = pb_last_peer_id b"
  using assms
proof (induction specs arbitrary: b)
  case (Cons s specs)
  then obtain b1 where b1: "portal_stage s b = Return (b1, Ok ())" "stage_all portal_stage specs b1 = Some b'"
    by (auto split: outcome.splits prod.splits result.splits)
  with Cons.IH [OF b1(2)] portal_stage_keeps [OF b1(1)] Cons.prems(2) show ?case
    by simp
qed simp

section \<open>Datasets\<close>

definition portal_dataset_of :: "nat \<Rightarrow> fb_dataset \<Rightarrow> portal_dataset \<Rightarrow> bool" where
  "portal_dataset_of i source d =
    (pd_id d = ds_id source \<and> ds_chunks source \<noteq> [] \<and> pd_read_schema_id d = schema_id i \<and>
     dataset_last_block_hash source = Return (pd_last_block_hash d) \<and>
     consecutive (map portal_spec_of (ds_chunks source)) \<and>
     portal_emitted d (map portal_spec_of (ds_chunks source)))"

definition portal_clean :: "'p portal_builder \<Rightarrow> bool" where
  "portal_clean b = (pb_columns b = portal_columns_default \<and> pb_last_block b = None)"

lemma portal_finish_keeps:
  assumes "portal_dataset_finish h db b = Return (b', Ok ())"
  shows "portal_clean b' \<and> pb_worker_entries b' = pb_worker_entries b \<and>
    pb_last_peer_id b' = pb_last_peer_id b"
  using assms
  by (auto simp: portal_dataset_finish_def portal_emit_dataset_def portal_dataset_drop_def portal_clean_def
      Let_def split: if_splits result.splits)

text \<open>The stats of one dataset, and what the report adds for it.\<close>

definition dataset_stats :: "fb_dataset \<Rightarrow> timestamp_stats" where
  "dataset_stats source =
    fold note_chunk (ds_chunks source) \<lparr>st_previous = 0, st_zeros = 0, st_descents = 0\<rparr>"

lemma portal_convert_dataset_Ok:
  assumes "portal_convert_dataset (i, source) (b, an) = Return (Ok (b', an'))" "portal_clean b"
  shows "an' = note_dataset (ds_id source) (dataset_stats source) an \<and>
    (\<exists>d. portal_dataset_of i source d \<and> portal_clean b' \<and>
      pb_all_datasets b' = pb_all_datasets b @ [d] \<and> pb_worker_entries b' = pb_worker_entries b \<and>
      pb_last_peer_id b' = pb_last_peer_id b)"
proof -
  let ?specs = "map portal_spec_of (ds_chunks source)"
  let ?db = "portal_new_dataset (ds_id source) (schema_id i)"
  from assms(1) obtain b1 st h where
    fold: "try_fold portal_convert_chunk (ds_chunks source)
      (b, \<lparr>st_previous = 0, st_zeros = 0, st_descents = 0\<rparr>) = Return (Ok (b1, st))"
    and h: "dataset_last_block_hash source = Return h"
    and fin: "portal_dataset_finish h ?db b1 = Return (b', Ok ())"
    and an': "an' = note_dataset (ds_id source) st an"
    by (auto simp: portal_convert_dataset_def Let_def)
  note staged = portal_convert_chunks [OF fold]
  have wf: "\<forall>s \<in> set ?specs. dc_wf (ps_id s)"
    using staged id_of_Ok(2) by fastforce
  note keeps = portal_stage_all_keeps [OF conjunct2 [OF conjunct2 [OF staged]] wf]
  have "pb_columns b = portal_columns_default" "pb_last_block b = None"
    using assms(2) by (simp_all add: portal_clean_def)
  from portal_staged_emitted [OF this wf conjunct2 [OF conjunct2 [OF staged]] fin]
  obtain d where d: "pb_all_datasets b' = pb_all_datasets b1 @ [d]" "pd_id d = pdb_id ?db"
    "pd_last_block_hash d = h" "pd_read_schema_id d = pdb_read_schema_id ?db" "portal_emitted d ?specs" .
  moreover have "consecutive ?specs"
    using portal_stage_all_consecutive [OF conjunct2 [OF conjunct2 [OF staged]] wf] by simp
  moreover have "ds_chunks source \<noteq> []"
    using h by (auto simp: dataset_last_block_hash_def split: if_splits)
  ultimately show ?thesis
    using keeps portal_finish_keeps [OF fin] h an' staged
    by (auto simp: portal_dataset_of_def portal_new_dataset_def dataset_stats_def)
qed

lemma portal_convert_datasets:
  assumes "try_fold portal_convert_dataset (enumerate 0 ds) (b, an) = Return (Ok (b', an'))"
    and "portal_clean b" "pb_all_datasets b = []"
  shows "pb_worker_entries b' = pb_worker_entries b \<and> pb_last_peer_id b' = pb_last_peer_id b \<and>
    length (pb_all_datasets b') = length ds \<and>
    an' = fold (\<lambda>d. note_dataset (ds_id d) (dataset_stats d)) ds an \<and>
    (\<forall>j < length ds. portal_dataset_of j (ds ! j) (pb_all_datasets b' ! j))"
proof -
  let ?P = "\<lambda>n (s, a). portal_clean s \<and> pb_worker_entries s = pb_worker_entries b \<and>
    pb_last_peer_id s = pb_last_peer_id b \<and> length (pb_all_datasets s) = n \<and>
    a = fold (\<lambda>d. note_dataset (ds_id d) (dataset_stats d)) (take n ds) an \<and>
    (\<forall>j < n. portal_dataset_of j (ds ! j) (pb_all_datasets s ! j))"
  have "?P (length (enumerate 0 ds)) (b', an')"
  proof (rule try_fold_invariant [OF assms(1), of ?P])
    show "?P 0 (b, an)"
      using assms(2,3) by simp
    fix i s s'
    assume i: "i < length (enumerate 0 ds)" and s: "?P i s"
      and step: "portal_convert_dataset (enumerate 0 ds ! i) s = Return (Ok s')"
    obtain c a c' a' where eqs: "s = (c, a)" "s' = (c', a')"
      by fastforce
    from step i have "portal_convert_dataset (i, ds ! i) (c, a) = Return (Ok (c', a'))"
      by (simp add: nth_enumerate_eq eqs)
    from portal_convert_dataset_Ok [OF this] i s
    show "?P (Suc i) s'"
      by (auto simp: nth_append less_Suc_eq take_Suc_nth eqs)
  qed
  then show ?thesis
    by simp
qed

section \<open>Workers\<close>

definition portal_entry_of ::
  "('p \<Rightarrow> u8 list) \<Rightarrow> (u8 list \<Rightarrow> 'p option) \<Rightarrow> fb_assignment \<Rightarrow> nat \<Rightarrow> portal_entry \<Rightarrow> bool" where
  "portal_entry_of to_bytes from_bytes legacy j e =
    (\<exists>p. from_bytes (we_worker_id (source_entry legacy j)) = Some p \<and>
       e = \<lparr>pe_worker_id = to_bytes p,
         pe_status = status_to_fb (status_from_fb (we_status (source_entry legacy j)))\<rparr>)"

lemma portal_add_fields:
  assumes "portal_add_worker to_bytes p st b = Return b'" "length (to_bytes p) = WORKER_ID_LEN"
  shows "b' = b\<lparr>pb_last_peer_id := Some p, pb_worker_entries := pb_worker_entries b @
      [(to_bytes p, \<lparr>pe_worker_id = to_bytes p, pe_status = status_to_fb st\<rparr>)]\<rparr>"
  using assms by (auto simp: portal_add_worker_def worker_id_from_def Let_def split: if_splits)

lemma portal_copy_workers:
  assumes "try_fold (portal_copy_worker to_bytes from_bytes legacy) [0 ..< length (as_workers legacy)] b = Return (Ok b')"
    and "peers_ok to_bytes from_bytes legacy" "pb_worker_entries b = []"
  shows "pb_all_datasets b' = pb_all_datasets b \<and>
    length (pb_worker_entries b') = length (as_workers legacy) \<and>
    (\<forall>j < length (as_workers legacy).
      portal_entry_of to_bytes from_bytes legacy j (snd (pb_worker_entries b' ! j)))"
proof -
  let ?P = "\<lambda>n s. pb_all_datasets s = pb_all_datasets b \<and> length (pb_worker_entries s) = n \<and>
    (\<forall>j < n. portal_entry_of to_bytes from_bytes legacy j (snd (pb_worker_entries s ! j)))"
  have "?P (length [0 ..< length (as_workers legacy)]) b'"
  proof (rule try_fold_invariant [OF assms(1), of ?P])
    show "?P 0 b"
      using assms(3) by simp
    fix i s s'
    assume "i < length [0 ..< length (as_workers legacy)]" and s: "?P i s"
      and step: "portal_copy_worker to_bytes from_bytes legacy ([0 ..< length (as_workers legacy)] ! i) s = Return (Ok s')"
    then have i: "i < length (as_workers legacy)"
      by simp
    from step i obtain p where p: "from_bytes (we_worker_id (source_entry legacy i)) = Some p"
      and add: "portal_add_worker to_bytes p (status_from_fb (we_status (source_entry legacy i))) s = Return s'"
      by (auto simp: portal_copy_worker_def legacy_worker_at lw_peer_id_def lw_status_def
          worker_id_try_into_def split: option.splits)
    have "length (to_bytes p) = WORKER_ID_LEN"
      using peers_ok_source [OF assms(2) i p] by (simp add: codec_ok_def)
    from portal_add_fields [OF add this] s p show "?P (Suc i) s'"
      by (auto simp: nth_append less_Suc_eq portal_entry_of_def)
  qed
  then show ?thesis
    by simp
qed

section \<open>The portal assignment\<close>

definition converted_portal ::
  "('p \<Rightarrow> u8 list) \<Rightarrow> (u8 list \<Rightarrow> 'p option) \<Rightarrow> fb_assignment \<Rightarrow> portal_assignment \<Rightarrow> bool" where
  "converted_portal to_bytes from_bytes legacy a =
    (length (pa_datasets a) = length (as_datasets legacy) \<and>
     length (pa_workers a) = length (as_workers legacy) \<and>
     (\<forall>j < length (as_datasets legacy). portal_dataset_of j (as_datasets legacy ! j) (pa_datasets a ! j)) \<and>
     (\<forall>j < length (as_workers legacy).
        portal_entry_of to_bytes from_bytes legacy j (pa_workers a ! j)))"

lemma build_portal_converted:
  assumes "build_portal to_bytes from_bytes legacy = Return (Ok (a, an))"
    and "peers_ok to_bytes from_bytes legacy"
  shows "converted_portal to_bytes from_bytes legacy a \<and>
    an = fold (\<lambda>d. note_dataset (ds_id d) (dataset_stats d)) (as_datasets legacy)
      \<lparr>an_zeros = 0, an_descents = 0, an_datasets = []\<rparr>"
proof -
  let ?b = "portal_check_continuity False (portal_builder_new :: 'a portal_builder)"
  have fresh: "portal_clean ?b" "pb_all_datasets ?b = []" "pb_worker_entries ?b = []"
    by (simp_all add: portal_clean_def portal_check_continuity_def portal_builder_new_def)
  from assms(1) obtain b1 b2 where
    ds: "try_fold portal_convert_dataset (enumerate 0 (as_datasets legacy))
      (?b, \<lparr>an_zeros = 0, an_descents = 0, an_datasets = []\<rparr>) = Return (Ok (b1, an))"
    and ws: "try_fold (portal_copy_worker to_bytes from_bytes legacy) [0 ..< length (as_workers legacy)] b1 = Return (Ok b2)"
    and a: "a = portal_builder_finish b2"
    by (auto simp: build_portal_def Let_def)
  note built = portal_convert_datasets [OF ds fresh(1,2)]
  then have "pb_worker_entries b1 = []"
    by (simp add: fresh(3))
  note copied = portal_copy_workers [OF ws assms(2) this]
  show ?thesis
    using a built copied by (simp add: converted_portal_def portal_builder_finish_def)
qed

end
