(* ===== verification/Convert_Verify.thy ===== *)
theory Convert_Verify
  imports Convert_Portal
begin

text \<open>
  The comparison \<^verbatim>\<open>verify\<close> of the conversion tool on what the tool built: it accepts a chunk, a
  dataset and the whole exactly when the source is consistent.
\<close>

section \<open>Comparing one chunk\<close>

lemma ensure_Ok [simp]:
  "ensure msg c rest = Return (Ok ()) \<longleftrightarrow> c = Return True \<and> rest = Return (Ok ())"
  by (cases c) (auto simp: ensure_def)

lemma reads_True [simp]: "reads (Return x) a = Return (x = a)"
  by (simp add: reads_def)

lemma also_reads_True [simp]: "also_reads (Return a) (Return b) = Return (a \<and> b)"
  by (simp add: also_reads_def)

lemma ends_with_str_append: "ends_with_str (xs @ s) s"
  by (simp add: ends_with_str_def)

text \<open>The bitmaps of one dataset fit the 32-bit offsets of their column.\<close>

definition bitmaps_fit :: "fb_assignment \<Rightarrow> bool" where
  "bitmaps_fit legacy =
    list_all (\<lambda>d. length (ds_chunks d) * ((length (union_tables d) + 7) div 8) \<le> U32_MAX) (as_datasets legacy)"

lemma length_concat_le: "(\<And>x. x \<in> set xs \<Longrightarrow> length (f x) \<le> n) \<Longrightarrow> length (concat (map f xs)) \<le> length xs * n"
proof (induction xs)
  case (Cons x xs)
  then have "length (concat (map f xs)) \<le> length xs * n" "length (f x) \<le> n"
    by simp_all
  then show ?case
    by simp
qed simp

lemma spec_bits_length:
  assumes "map_of schemas (ws_schema s) = Some roster"
  shows "length (spec_bits schemas s) \<le> (length roster + 7) div 8"
  using assms merge_tables_length [of "ws_schema s" roster _ 0 "zero_bits roster"]
  by (auto simp: spec_bits_def zero_bits_def split: option.splits)

lemma converted_bits:
  assumes "bitmaps_fit legacy" "source \<in> set (as_datasets legacy)"
    and "map_of schemas w = Some (union_tables source)"
  shows "length (concat (map (spec_bits schemas)
    (map (worker_spec_of w (union_tables source)) (ds_chunks source)))) \<le> U32_MAX"
proof -
  let ?specs = "map (worker_spec_of w (union_tables source)) (ds_chunks source)"
  have "length (concat (map (spec_bits schemas) ?specs)) \<le>
      length ?specs * ((length (union_tables source) + 7) div 8)"
    using assms(3) by (intro length_concat_le) (auto intro!: spec_bits_length)
  also have "\<dots> \<le> U32_MAX"
    using assms(1,2) by (auto simp: bitmaps_fit_def list_all_iff)
  finally show ?thesis .
qed

lemma converted_tables:
  assumes "c \<in> set (ds_chunks source)" "map_of schemas w = Some (union_tables source)"
  shows "spec_table_list schemas (worker_spec_of w (union_tables source) c) = tables_of c"
  using assms(2) tables_of_full [OF assms(1)] by (auto simp: spec_table_list_def)

text \<open>
  A source chunk is consistent with its dataset when it names the dataset it is filed under and its id
  is written the way the identifier prints.
\<close>

definition chunk_consistent :: "fb_dataset \<Rightarrow> fb_chunk \<Rightarrow> bool" where
  "chunk_consistent d c =
    (ck_dataset_id c = ds_id d \<and>
     (case data_chunk_from_str (ck_id c) of
        None \<Rightarrow> False
      | Some id' \<Rightarrow> data_chunk_display id' = Return (ck_id c)))"

definition dataset_consistent :: "fb_dataset \<Rightarrow> bool" where
  "dataset_consistent d =
    (list_all (chunk_consistent d) (ds_chunks d) \<and>
     (case data_chunk_from_str (ck_id (last (ds_chunks d))) of
        None \<Rightarrow> False
      | Some id' \<Rightarrow> dc_last_block id' = ds_last_block d))"

lemma id_of_parse: "id_of c = Ok (chunk_of c) \<Longrightarrow> data_chunk_from_str (ck_id c) = Some (chunk_of c)"
  by (auto simp: id_of_def chunk_of_def split: option.splits)

lemma verify_chunk_iff:
  assumes "key_search lk" "rosters_ok (wb_write_schemas b)"
    and "worker_dataset_of (wb_write_schemas b) w source d" "portal_dataset_of j source p"
    and "map_of (wb_write_schemas b) w = Some (union_tables source)"
    and "length (concat (map (spec_bits (wb_write_schemas b))
      (map (worker_spec_of w (union_tables source)) (ds_chunks source)))) \<le> U32_MAX"
    and "i < length (ds_chunks source)"
  shows "verify_chunk lk (worker_builder_finish b) (ds_id source) d p (i, ds_chunks source ! i) () = Return (Ok ())
    \<longleftrightarrow> chunk_consistent source (ds_chunks source ! i)"
proof -
  let ?c = "ds_chunks source ! i" and ?r = "union_tables source"
  let ?ws = "map (worker_spec_of w ?r) (ds_chunks source)" and ?ps = "map portal_spec_of (ds_chunks source)"
  have c: "?c \<in> set (ds_chunks source)"
    using assms(7) by simp
  have em: "emitted (wb_write_schemas b) [] d ?ws" and pem: "portal_emitted p ?ps"
    and ok: "id_of ?c = Ok (chunk_of ?c)"
    using assms(3,4) c by (auto simp: worker_dataset_of_def portal_dataset_of_def)
  have i: "i < length ?ws" "i < length ?ps"
    using assms(7) by simp_all
  obtain s where s: "data_chunk_display (chunk_of ?c) = Return s"
    using data_chunk_display_wf [OF id_of_Ok(2) [OF ok]] by blast
  have url: "wk_url lk (row d i) = Return (Some (push_separator (wd_base_url d) @ s))"
    using row_url [OF assms(1) em i(1)] assms(7) s by (simp add: expected_base_def)
  have tables: "chunk_tables lk (worker_builder_finish b) (row d i) = Return (Some (tables_of ?c))"
    using row_chunk_tables [OF assms(1) em i(1) assms(2,6)] assms(7) converted_tables [OF c assms(5)]
    by simp
  have ts: "(case ck_last_block_timestamp ?c of None \<Rightarrow> 0 | Some ts \<Rightarrow> ts) = ts_or_0 ?c"
    by (simp add: ts_or_0_def)
  note worker = row_chunk_at [OF em i(1)] row_fields [OF em i(1)] row_last_block [OF em i(1)]
    row_version [OF em i(1)] row_id [OF em i(1)] row_worker_indexes [OF em i(1)]
  note portal = prow_chunk_at [OF pem i(2)] prow_fields [OF pem i(2)] prow_last_block [OF pem i(2)]
    prow_version [OF pem i(2)] prow_id [OF pem i(2)] prow_worker_indexes [OF pem i(2)]
  show ?thesis
    using worker portal ok id_of_Ok(3) [OF ok] assms(7) ends_with_str_append
    by (auto simp: verify_chunk_def Let_def url tables ts s chunk_consistent_def id_of_parse [OF ok])
qed

section \<open>Comparing datasets and workers\<close>

lemma enumerate_all: "(\<forall>x \<in> set (enumerate 0 xs). P x) \<longleftrightarrow> (\<forall>i < length xs. P (i, xs ! i))"
  by (metis (no_types, lifting) add_0 in_set_conv_nth length_enumerate nth_enumerate_eq)

lemma verify_dataset_iff:
  assumes "key_search lk" "bitmaps_fit legacy" "a = worker_builder_finish b"
    and "converted_worker to_bytes from_bytes legacy a (wb_write_schemas b)"
    and "converted_portal to_bytes from_bytes legacy a'" "j < length (as_datasets legacy)"
  shows "verify_dataset lk a a' (j, as_datasets legacy ! j) () = Return (Ok ()) \<longleftrightarrow>
    dataset_consistent (as_datasets legacy ! j)"
proof -
  let ?s = "as_datasets legacy ! j" and ?d = "wa_datasets a ! j" and ?p = "pa_datasets a' ! j"
  let ?S = "wb_write_schemas b" and ?cs = "ds_chunks (as_datasets legacy ! j)"
  have len: "j < length (wa_datasets a)" "j < length (pa_datasets a')" and ok: "rosters_ok ?S"
    and w: "worker_dataset_of ?S (schema_id j) ?s ?d" "portal_dataset_of j ?s ?p"
      "map_of ?S (schema_id j) = Some (union_tables ?s)"
    using assms(4-6) by (auto simp: converted_worker_def converted_portal_def)
  have "length (concat (map (spec_bits ?S)
      (map (worker_spec_of (schema_id j) (union_tables ?s)) ?cs))) \<le> U32_MAX"
    by (rule converted_bits [OF assms(2) _ w(3)]) (simp add: assms(6))
  note chunk = verify_chunk_iff [OF assms(1) ok w this, folded assms(3)]
  have chunks: "try_fold (verify_chunk lk a (ds_id ?s) ?d ?p) (enumerate 0 ?cs) () = Return (Ok ()) \<longleftrightarrow>
      list_all (chunk_consistent ?s) ?cs"
    using chunk by (simp add: try_fold_unit enumerate_all list_all_length)
  have ne: "?cs \<noteq> []" and last_ok: "id_of (last ?cs) = Ok (chunk_of (last ?cs))"
    using w(1) by (auto simp: worker_dataset_of_def)
  have blocks: "wd_last_block ?d = dc_last_block (chunk_of (last ?cs))"
    "pd_last_block ?p = dc_last_block (chunk_of (last ?cs))"
    "worker_chunk_count ?d = length ?cs" "portal_chunk_count ?p = length ?cs"
    using w(1,2) ne
    by (auto simp: worker_dataset_of_def portal_dataset_of_def emitted_def portal_emitted_def last_map
        worker_chunk_count_def portal_chunk_count_def)
  show ?thesis
    using len w(1,2) ne chunks
    by (auto simp: verify_dataset_def Let_def blocks dataset_consistent_def id_of_parse [OF last_ok]
        worker_dataset_of_def portal_dataset_of_def)
qed

lemma verify_worker_Ok:
  assumes "converted_worker to_bytes from_bytes legacy a S" "converted_portal to_bytes from_bytes legacy a'"
    and "peers_ok to_bytes from_bytes legacy" "j < length (as_workers legacy)"
  shows "verify_worker from_bytes legacy a a' j () = Return (Ok ())"
proof -
  let ?k = "unat (of_nat j :: u16)"
  have k: "?k < length (as_workers legacy)"
    by (rule u16_index [OF assms(4)])
  have same: "source_entry legacy ?k = source_entry legacy j"
    by (simp add: source_entry_def)
  have len: "length (wa_workers a) = length (as_workers legacy)" "length (pa_workers a') = length (as_workers legacy)"
    and entries: "worker_entry_of to_bytes from_bytes legacy ?k (wa_workers a ! ?k)"
      "worker_entry_of to_bytes from_bytes legacy j (wa_workers a ! j)"
      "portal_entry_of to_bytes from_bytes legacy ?k (pa_workers a' ! ?k)"
    using assms(1,2,4) k by (auto simp: converted_worker_def converted_portal_def)
  obtain p where p: "from_bytes (we_worker_id (source_entry legacy j)) = Some p"
    using entries(2) by (auto simp: worker_entry_of_def)
  have codec: "from_bytes (to_bytes p) = Some p"
    using peers_ok_source [OF assms(3,4) p] by (simp add: codec_ok_def)
  show ?thesis
    using entries len k assms(4) p codec
    by (auto simp: verify_worker_def legacy_worker_at lw_peer_id_def lw_status_def aw_peer_id_def
        aw_status_def worker_get_worker_by_index_def portal_get_worker_by_index_def same
        portal_worker_status_def worker_id_try_into_def worker_entry_of_def portal_entry_of_def)
qed

lemma verify_conversion_iff:
  assumes "key_search lk" "bitmaps_fit legacy" "peers_ok to_bytes from_bytes legacy"
    and "a = worker_builder_finish b" "converted_worker to_bytes from_bytes legacy a (wb_write_schemas b)"
    and "converted_portal to_bytes from_bytes legacy a'"
  shows "verify_conversion lk from_bytes legacy a a' = Return (Ok ()) \<longleftrightarrow>
    list_all dataset_consistent (as_datasets legacy)"
proof -
  have "try_fold (verify_dataset lk a a') (enumerate 0 (as_datasets legacy)) () = Return (Ok ()) \<longleftrightarrow>
      list_all dataset_consistent (as_datasets legacy)"
    using verify_dataset_iff [OF assms(1,2,4-6)] by (simp add: try_fold_unit enumerate_all list_all_length)
  moreover have "try_fold (verify_worker from_bytes legacy a a') [0 ..< length (as_workers legacy)] () = Return (Ok ())"
    using verify_worker_Ok [OF assms(5,6,3)] by (simp add: try_fold_unit)
  ultimately show ?thesis
    using assms(5,6) by (auto simp: verify_conversion_def converted_worker_def converted_portal_def)
qed

section \<open>Loading what was built\<close>

lemma converted_loads:
  assumes "converted_worker to_bytes from_bytes legacy a S" "converted_portal to_bytes from_bytes legacy a'"
  shows "worker_from_owned Ok a = Ok a" "portal_from_owned Ok a' = Ok a'"
proof -
  have "worker_check_dataset d = Ok ()" if "d \<in> set (wa_datasets a)" for d
    using that assms(1) emitted_check
    by (fastforce simp: in_set_conv_nth converted_worker_def worker_dataset_of_def)
  then show "worker_from_owned Ok a = Ok a"
    using check_datasets_Ok [of worker_check_dataset "wa_datasets a"] by (simp add: worker_from_owned_def)
  have "portal_check_dataset d = Ok ()" if "d \<in> set (pa_datasets a')" for d
    using that assms(2) portal_emitted_check
    by (fastforce simp: in_set_conv_nth converted_portal_def portal_dataset_of_def)
  then show "portal_from_owned Ok a' = Ok a'"
    using check_datasets_Ok [of portal_check_dataset "pa_datasets a'"] by (simp add: portal_from_owned_def)
qed

end
