(* ===== verification/Convert_Properties.thy ===== *)
theory Convert_Properties
  imports Convert_Verify
begin

text \<open>
  The conversion tool as a whole: when it builds its two assignments (for a source whose counts fit and
  whose workers are in order, exactly when no dataset has a gap), and that what it builds passes its
  own comparison exactly when the source is consistent.
\<close>

section \<open>Gaps\<close>

fun linked :: "data_chunk list \<Rightarrow> bool" where
  "linked (a # b # rest) = (dc_last_block a + 1 = dc_first_block b \<and> linked (b # rest))"
| "linked rest = True"

definition gap_free :: "fb_dataset \<Rightarrow> bool" where
  "gap_free d = linked (map chunk_of (ds_chunks d))"

lemma linked_nth: "linked xs \<longleftrightarrow> (\<forall>i. Suc i < length xs \<longrightarrow> dc_last_block (xs ! i) + 1 = dc_first_block (xs ! Suc i))"
proof (induction xs rule: linked.induct)
  case (1 a b rest)
  then show ?case
    by (auto simp: nth_Cons split: nat.splits)
qed simp_all

lemma linked_middle: "linked (xs @ y # ys) \<Longrightarrow> xs \<noteq> [] \<Longrightarrow> dc_last_block (last xs) + 1 = dc_first_block y"
  by (induction xs rule: linked.induct) (auto split: if_splits)

lemma worker_stage_continues:
  assumes "worker_stage s b = Return (b', Ok ())" "dc_wf (ws_id s)"
  shows "continues (wb_last_block b) (dc_first_block (ws_id s)) \<and> wb_last_block b' = Some (dc_last_block (ws_id s))"
proof -
  let ?b = "b\<lparr>wb_staged_worker_indexes := ws_workers s,
      wb_staged_tables_present := spec_bits (wb_write_schemas b) s\<rparr>"
  obtain cb where fin: "worker_chunk_finish ?b cb = Return (b', Ok ())" and cb: "cb_id cb = Some (ws_id s)"
      "cb_write_schema_id cb = Some (ws_schema s)"
      "cb_block_range cb = Some (dc_first_block (ws_id s), dc_last_block (ws_id s))"
    using worker_stage_tables [OF assms(1)] by blast
  from worker_chunk_finish_Ok [OF fin cb(1) assms(2) cb(2)] obtain args where
    "push_chunk args ?b = (b', Ok ())" "pc_block_range args = (dc_first_block (ws_id s), dc_last_block (ws_id s))"
    using cb(3) by (metis option.inject push_chunk_args.select_convs(2))
  then have "continuity (wb_last_block b) (dc_first_block (ws_id s)) = Ok () \<and>
      wb_last_block b' = Some (dc_last_block (ws_id s))"
    by (auto simp: push_chunk_def Let_def split: if_splits)
  then show ?thesis
    using is_err_continuity [of "wb_last_block b" "dc_first_block (ws_id s)"] by simp
qed

lemma worker_stage_all_linked:
  assumes "stage_all worker_stage specs b = Some b'" "\<forall>s \<in> set specs. dc_wf (ws_id s)"
  shows "linked (map ws_id specs) \<and>
    (specs \<noteq> [] \<longrightarrow> continues (wb_last_block b) (dc_first_block (ws_id (hd specs))))"
  using assms
proof (induction specs arbitrary: b)
  case (Cons s specs)
  then obtain b1 where s: "worker_stage s b = Return (b1, Ok ())"
    and rest: "stage_all worker_stage specs b1 = Some b'"
    by (auto split: outcome.splits prod.splits result.splits)
  have "linked (map ws_id specs)" "specs \<noteq> [] \<longrightarrow> continues (wb_last_block b1) (dc_first_block (ws_id (hd specs)))"
    using Cons.IH [OF rest] Cons.prems(2) by simp_all
  then show ?case
    using worker_stage_continues [OF s] Cons.prems(2) by (cases specs) (auto simp: continues_def)
qed simp

lemma try_fold_each: "try_fold f xs s = Return (Ok s') \<Longrightarrow> x \<in> set xs \<Longrightarrow> \<exists>t t'. f x t = Return (Ok t')"
  by (induction xs arbitrary: s) auto

lemma worker_convert_dataset_linked:
  fixes b :: "('p, 'sk, 'rng) worker_builder"
  assumes "worker_convert_dataset rs (i, source) b = Return (Ok b')"
  shows "gap_free source"
proof -
  from assms obtain roster and b1 :: "('p, 'sk, 'rng) worker_builder" where
    "try_fold (worker_convert_chunk (schema_id i) roster) (ds_chunks source) b = Return (Ok b1)"
    by (auto simp: worker_convert_dataset_def Let_def)
  note staged = worker_convert_chunks [OF this]
  then have "\<forall>s \<in> set (map (worker_spec_of (schema_id i) roster) (ds_chunks source)). dc_wf (ws_id s)"
    using id_of_Ok(2) by fastforce
  from worker_stage_all_linked [OF conjunct2 [OF staged] this] show ?thesis
    by (simp add: gap_free_def comp_def)
qed

lemma portal_convert_dataset_linked:
  fixes s :: "'p portal_builder \<times> anomalies"
  assumes "portal_convert_dataset (i, source) s = Return (Ok s')"
  shows "gap_free source"
proof -
  from assms obtain b :: "'p portal_builder" and b1 st where "try_fold portal_convert_chunk (ds_chunks source)
      (b, \<lparr>st_previous = 0, st_zeros = 0, st_descents = 0\<rparr>) = Return (Ok (b1, st))"
    by (cases s) (auto simp: portal_convert_dataset_def Let_def)
  note staged = portal_convert_chunks [OF this]
  then have "\<forall>s \<in> set (map portal_spec_of (ds_chunks source)). dc_wf (ps_id s)"
    using id_of_Ok(2) by fastforce
  from portal_stage_all_consecutive [OF _ this] staged show ?thesis
    by (auto simp: gap_free_def linked_nth consecutive_def)
qed

lemma enumerate_in: "x \<in> set xs \<Longrightarrow> \<exists>i. (i, x) \<in> set (enumerate 0 xs)"
proof -
  assume "x \<in> set xs"
  then obtain i where "i < length xs" "xs ! i = x"
    by (auto simp: in_set_conv_nth)
  then have "(i, x) \<in> set (enumerate 0 xs)"
    by (simp add: in_set_enumerate_eq)
  then show ?thesis
    by blast
qed

lemma built_gap_free:
  fixes cr :: "('p::linorder, 'sk, 'rng) crypto" and to_bytes :: "'p \<Rightarrow> u8 list"
  shows
  "build_worker cr from_bytes rng legacy = Return (Ok a) \<Longrightarrow> list_all gap_free (as_datasets legacy)"
  "build_portal to_bytes from_bytes legacy = Return (Ok p) \<Longrightarrow> list_all gap_free (as_datasets legacy)"
proof -
  assume "build_worker cr from_bytes rng legacy = Return (Ok a)"
  then obtain b b' :: "('p, 'sk, 'rng) worker_builder" where fold: "try_fold (worker_convert_dataset (rosters legacy)) (enumerate 0 (as_datasets legacy)) b = Return (Ok b')"
    by (auto simp: build_worker_def Let_def)
  have "gap_free d" if "d \<in> set (as_datasets legacy)" for d
    using enumerate_in [OF that] try_fold_each [OF fold] worker_convert_dataset_linked by blast
  then show "list_all gap_free (as_datasets legacy)"
    by (simp add: list_all_iff)
next
  assume "build_portal to_bytes from_bytes legacy = Return (Ok p)"
  then obtain b b' :: "'p portal_builder \<times> anomalies" where fold: "try_fold portal_convert_dataset (enumerate 0 (as_datasets legacy)) b = Return (Ok b')"
    by (auto simp: build_portal_def Let_def)
  have "gap_free d" if "d \<in> set (as_datasets legacy)" for d
    using enumerate_in [OF that] try_fold_each [OF fold] portal_convert_dataset_linked by blast
  then show "list_all gap_free (as_datasets legacy)"
    by (simp add: list_all_iff)
qed

section \<open>When the builders accept the source\<close>

lemma try_fold_total:
  assumes "P 0 s" "\<And>i s. i < length xs \<Longrightarrow> P i s \<Longrightarrow> \<exists>s'. f (xs ! i) s = Return (Ok s') \<and> P (Suc i) s'"
  shows "\<exists>s'. try_fold f xs s = Return (Ok s') \<and> P (length xs) s'"
  using assms
proof (induction xs arbitrary: s P)
  case (Cons x xs)
  from Cons.prems(2) [of 0 s] Cons.prems(1) obtain s1 where s1: "f x s = Return (Ok s1)" "P (Suc 0) s1"
    by auto
  from Cons.IH [of "\<lambda>i. P (Suc i)" s1] s1(2) Cons.prems(2) [of "Suc i" for i] s1(1) show ?case
    by auto
qed auto

definition dataset_fits :: "fb_dataset \<Rightarrow> bool" where
  "dataset_fits d =
    (ds_chunks d \<noteq> [] \<and> list_all (\<lambda>c. id_of c = Ok (chunk_of c) \<and>
       unat (dc_last_block (chunk_of c) - dc_first_block (chunk_of c)) \<le> U32_MAX) (ds_chunks d) \<and>
     length (ds_chunks d) \<le> U32_MAX \<and>
     sum_list (map (\<lambda>c. length (ck_worker_indexes c)) (ds_chunks d)) \<le> U32_MAX)"

definition dataset_ready :: "fb_dataset \<Rightarrow> bool" where
  "dataset_ready d = (dataset_fits d \<and> gap_free d)"

definition workers_ready :: "(u8 list \<Rightarrow> 'p::linorder option) \<Rightarrow> fb_assignment \<Rightarrow> bool" where
  "workers_ready from_bytes legacy =
    (list_all (\<lambda>e. we_encrypted_headers e \<noteq> None \<and> from_bytes (we_worker_id e) \<noteq> None) (as_workers legacy) \<and>
     sorted_wrt (<) (map (\<lambda>e. the (from_bytes (we_worker_id e))) (as_workers legacy)) \<and>
     length (as_workers legacy) \<le> 65536)"

lemma worker_stage_total:
  assumes "spec_ok (wb_write_schemas b) (wb_current_generations b) s"
    and "continues (wb_last_block b) (dc_first_block (ws_id s))"
    and "length (wc_first_blocks (wb_columns b)) \<le> U32_MAX"
    and "length (wc_worker_indexes (wb_columns b)) + length (ws_workers s) \<le> U32_MAX"
  shows "\<exists>b'. worker_stage s b = Return (b', Ok ())"
proof -
  obtain roster where r: "map_of (wb_write_schemas b) (ws_schema s) = Some roster"
    and m: "\<forall>tables. ws_tables s = Some tables \<longrightarrow>
      (\<exists>bits. merge_tables (ws_schema s) roster tables 0 (zero_bits roster) = (bits, Ok ()))"
    using assms(1) by (fastforce simp: spec_ok_def intro: prod_eqI)
  have "dc_wf (ws_id s)" "ws_version s = 0 \<or> map_of (wb_current_generations b) (ws_version s) \<noteq> None"
    and span: "unat (dc_last_block (ws_id s) - dc_first_block (ws_id s)) \<le> U32_MAX"
    using assms(1) by (auto simp: spec_ok_def)
  from worker_stage_push [OF this(1) r this(2) m] show ?thesis
    using assms(2-4) span
    by (auto simp: push_chunk_def Let_def push_bitmap_def is_err_continuity continuity_Ok)
qed

lemma worker_stage_all_total:
  assumes "worker_holds b xs"
    and "\<forall>s \<in> set ys. spec_ok (wb_write_schemas b) (wb_current_generations b) s"
    and "linked (map ws_id (xs @ ys))" "length (xs @ ys) \<le> U32_MAX"
    and "sum_list (map (\<lambda>s. length (ws_workers s)) (xs @ ys)) \<le> U32_MAX"
  shows "\<exists>b'. stage_all worker_stage ys b = Some b'"
  using assms
proof (induction ys arbitrary: b xs)
  case (Cons s ys)
  have rel: "wc_rel (wb_write_schemas b) (wb_columns b) xs"
    and l: "wb_last_block b = (if xs = [] then None else Some (dc_last_block (ws_id (last xs))))"
    using Cons.prems(1) by (simp_all add: worker_holds_def)
  have link: "continues (wb_last_block b) (dc_first_block (ws_id s))"
    using l linked_middle [of "map ws_id xs"] Cons.prems(3) by (simp add: continues_def last_map)
  have lens: "length (wc_first_blocks (wb_columns b)) = length xs"
    "length (wc_worker_indexes (wb_columns b)) = sum_list (map (\<lambda>s. length (ws_workers s)) xs)"
    using rel by (simp_all add: wc_rel_def csr_rel_def length_concat comp_def)
  obtain b1 where b1: "worker_stage s b = Return (b1, Ok ())"
    using worker_stage_total [OF _ link] Cons.prems(2,4,5) lens by auto
  have wf: "dc_wf (ws_id s)"
    using Cons.prems(2) by (simp add: spec_ok_def)
  have "worker_holds b1 (xs @ [s])"
    by (rule worker_holds_stage [OF Cons.prems(1) wf b1])
  from Cons.IH [OF this] Cons.prems(2-5) b1 show ?case
    by (simp add: worker_stage_Ok(1) [OF b1 wf])
qed simp

lemma worker_spec_of_ok:
  assumes "c \<in> set (ds_chunks source)" "map_of schemas w = Some (union_tables source)"
    and "id_of c = Ok (chunk_of c)"
    and "unat (dc_last_block (chunk_of c) - dc_first_block (chunk_of c)) \<le> U32_MAX"
  shows "spec_ok schemas [] (worker_spec_of w (union_tables source) c)"
proof -
  have "set (tables_of c) \<subseteq> set (union_tables source)"
    using assms(1) by (auto simp: set_union_tables)
  from merge_tables_complete [OF union_tables_strict tables_of_strict this]
  have "snd (merge_tables w (union_tables source) (tables_of c) 0 (zero_bits (union_tables source))) = Ok ()"
    by (metis snd_conv)
  then show ?thesis
    using assms(2,4) id_of_Ok(2) [OF assms(3)] by (simp add: spec_ok_def)
qed

lemma worker_convert_chunks_total:
  assumes "stage_all worker_stage (map (worker_spec_of w roster) cs) b = Some b'"
    and "\<forall>c \<in> set cs. id_of c = Ok (chunk_of c)"
  shows "try_fold (worker_convert_chunk w roster) cs b = Return (Ok b')"
  using assms
proof (induction cs arbitrary: b)
  case (Cons c cs)
  then obtain b1 where "worker_stage (worker_spec_of w roster c) b = Return (b1, Ok ())"
    "stage_all worker_stage (map (worker_spec_of w roster) cs) b1 = Some b'"
    by (auto split: outcome.splits prod.splits result.splits)
  with Cons worker_convert_chunk_stage [of c "chunk_of c" w roster b] show ?case
    by (simp add: accepted_def)
qed simp

lemma worker_convert_dataset_total:
  assumes "dataset_ready source" "worker_clean schemas b" "i < length rs" "rs ! i = union_tables source"
    and "map_of schemas (schema_id i) = Some (union_tables source)"
  shows "\<exists>b'. worker_convert_dataset rs (i, source) b = Return (Ok b')"
proof -
  let ?specs = "map (worker_spec_of (schema_id i) (union_tables source)) (ds_chunks source)"
  let ?db = "worker_new_dataset (ds_id source) (ck_dataset_base_url (ds_chunks source ! 0))"
  have ids: "\<forall>c \<in> set (ds_chunks source). id_of c = Ok (chunk_of c)" and ne: "ds_chunks source \<noteq> []"
    using assms(1) by (auto simp: dataset_ready_def dataset_fits_def list_all_iff)
  have ok: "\<forall>s \<in> set ?specs. spec_ok (wb_write_schemas b) (wb_current_generations b) s"
    using worker_spec_of_ok [OF _ assms(5)] assms(1,2)
    by (auto simp: dataset_ready_def dataset_fits_def list_all_iff worker_clean_def)
  have holds: "worker_holds b []"
    using assms(2) by (intro worker_holds_Nil) (simp_all add: worker_clean_def)
  obtain b1 where b1: "stage_all worker_stage ?specs b = Some b1"
    using worker_stage_all_total [OF holds ok] assms(1)
    by (auto simp: dataset_ready_def dataset_fits_def gap_free_def comp_def)
  have wf: "\<forall>s \<in> set ?specs. dc_wf (ws_id s)"
    using ok by (simp add: spec_ok_def)
  from worker_stager.holds_stage_all [OF holds wf b1] have "worker_holds b1 ?specs"
    by simp
  from worker_emit_Ok [OF this, of ?db] ne obtain b2 where "worker_dataset_finish ?db b1 = Return (b2, Ok ())"
    by auto
  then show ?thesis
    using worker_convert_chunks_total [OF b1 ids] assms(3,4) ne
    by (auto simp: worker_convert_dataset_def Let_def accepted_def)
qed

text \<open>The peer id registered before worker \<open>i\<close>, and worker \<open>i\<close> following it.\<close>

definition peer_before :: "(u8 list \<Rightarrow> 'p option) \<Rightarrow> fb_assignment \<Rightarrow> nat \<Rightarrow> 'p option" where
  "peer_before from_bytes legacy i =
    (if i = 0 then None else from_bytes (we_worker_id (as_workers legacy ! (i - 1))))"

lemma ready_worker:
  assumes "workers_ready from_bytes legacy" "peers_ok to_bytes from_bytes legacy" "i < length (as_workers legacy)"
  obtains p h where "source_entry legacy i = as_workers legacy ! i"
    and "we_encrypted_headers (as_workers legacy ! i) = Some h"
    and "from_bytes (we_worker_id (as_workers legacy ! i)) = Some p"
    and "length (to_bytes p) = WORKER_ID_LEN" "\<not> out_of_order (peer_before from_bytes legacy i) p"
    and "peer_before from_bytes legacy (Suc i) = Some p"
proof -
  have e: "source_entry legacy i = as_workers legacy ! i"
    using assms(1,3) by (simp add: source_entry_def workers_ready_def unat_of_nat take_bit_nat_eq_self)
  have some: "\<exists>p. from_bytes (we_worker_id (as_workers legacy ! j)) = Some p" if "j < length (as_workers legacy)" for j
    using assms(1) that by (fastforce simp: workers_ready_def list_all_length)
  obtain h p where h: "we_encrypted_headers (as_workers legacy ! i) = Some h"
    and p: "from_bytes (we_worker_id (as_workers legacy ! i)) = Some p"
    using assms(1,3) some by (fastforce simp: workers_ready_def list_all_length)
  have "length (to_bytes p) = WORKER_ID_LEN"
    using peers_ok_source [OF assms(2,3)] p e by (simp add: codec_ok_def)
  moreover have "\<not> out_of_order (peer_before from_bytes legacy i) p"
  proof (cases "i = 0")
    case False
    have "i - 1 < length (as_workers legacy)"
      using assms(3) by linarith
    from some [OF this] obtain q where q: "from_bytes (we_worker_id (as_workers legacy ! (i - 1))) = Some q"
      by blast
    have "q < p"
      using assms(1,3) False p q
        sorted_wrt_nth_less [of "(<)" "map (\<lambda>e. the (from_bytes (we_worker_id e))) (as_workers legacy)" "i - 1" i]
      by (simp add: workers_ready_def)
    with q False show ?thesis
      by (simp add: out_of_order_def peer_before_def)
  qed (simp add: out_of_order_def peer_before_def)
  ultimately show ?thesis
    using that [OF e h p] p by (simp add: peer_before_def)
qed

lemma worker_copy_total:
  assumes "workers_ready from_bytes legacy" "peers_ok (cr_to_bytes cr) from_bytes legacy"
    and "wb_last_peer_id b = None"
  shows "\<exists>b'. try_fold (worker_copy_worker cr from_bytes legacy) [0 ..< length (as_workers legacy)] b = Return (Ok b')"
proof -
  let ?P = "\<lambda>i s. wb_last_peer_id s = peer_before from_bytes legacy i"
  have "\<exists>s'. worker_copy_worker cr from_bytes legacy ([0 ..< length (as_workers legacy)] ! i) s = Return (Ok s') \<and>
      ?P (Suc i) s'" if "i < length [0 ..< length (as_workers legacy)]" "?P i s" for i s
  proof -
    have i: "i < length (as_workers legacy)"
      using that(1) by simp
    obtain p h where w: "source_entry legacy i = as_workers legacy ! i"
      "we_encrypted_headers (as_workers legacy ! i) = Some h"
      "from_bytes (we_worker_id (as_workers legacy ! i)) = Some p"
      "length (cr_to_bytes cr p) = WORKER_ID_LEN" "\<not> out_of_order (peer_before from_bytes legacy i) p"
      "peer_before from_bytes legacy (Suc i) = Some p"
      by (rule ready_worker [OF assms(1,2) i])
    show ?thesis
      using that(2) i w by (simp add: worker_copy_worker_def legacy_worker_at lw_peer_id_def
          worker_id_try_into_def add_worker_with_sealed_headers_def worker_id_from_def Let_def)
  qed
  from try_fold_total [of ?P b "[0 ..< length (as_workers legacy)]" "worker_copy_worker cr from_bytes legacy", OF _ this]
    assms(3) show ?thesis
    by (auto simp: peer_before_def)
qed

lemma build_worker_total:
  fixes cr :: "('p::linorder, 'sk, 'rng) crypto"
  assumes "list_all dataset_ready (as_datasets legacy)" "workers_ready from_bytes legacy"
    and "peers_ok (cr_to_bytes cr) from_bytes legacy" "length (as_datasets legacy) \<le> U32_MAX"
  shows "\<exists>a. build_worker cr from_bytes rng legacy = Return (Ok a)"
proof -
  let ?b = "worker_check_continuity False (worker_builder_new cr '''' rng)"
  have fresh: "worker_clean [] ?b" "wb_all_datasets ?b = []" "wb_last_peer_id ?b = None"
    by (simp_all add: worker_clean_def worker_check_continuity_def worker_builder_new_def split: prod.splits)
  then have "wb_write_schemas ?b = []"
    by (simp add: worker_clean_def)
  from register_all [OF assms(4) this] obtain schemas where
    reg: "register_rosters 0 (rosters legacy) ?b = Ok (?b\<lparr>wb_write_schemas := schemas\<rparr>)"
    and schemas: "\<forall>j < length (as_datasets legacy).
      map_of schemas (schema_id j) = Some (union_tables (as_datasets legacy ! j))"
    by blast
  let ?b0 = "?b\<lparr>wb_write_schemas := schemas\<rparr>"
  have "\<exists>s'. worker_convert_dataset (rosters legacy) (enumerate 0 (as_datasets legacy) ! i) s = Return (Ok s') \<and>
      worker_clean schemas s'" if i: "i < length (enumerate 0 (as_datasets legacy))" and s: "worker_clean schemas s"
    for i and s :: "('p, 'sk, 'rng) worker_builder"
  proof -
    have "i < length (as_datasets legacy)" "dataset_ready (as_datasets legacy ! i)"
      "i < length (rosters legacy)" "rosters legacy ! i = union_tables (as_datasets legacy ! i)"
      using i assms(1) by (simp_all add: rosters_def list_all_length)
    then show ?thesis
      using worker_convert_dataset_total [OF _ s, of "as_datasets legacy ! i" i "rosters legacy"]
        worker_convert_dataset_Ok [OF _ s, of "rosters legacy" i "as_datasets legacy ! i"] schemas
      by (fastforce simp: nth_enumerate_eq)
  qed
  moreover have clean: "worker_clean schemas ?b0" "wb_all_datasets ?b0 = []"
    using fresh by (simp_all add: worker_clean_def)
  ultimately obtain b1 where
    b1: "try_fold (worker_convert_dataset (rosters legacy)) (enumerate 0 (as_datasets legacy)) ?b0 = Return (Ok b1)"
    using try_fold_total [of "\<lambda>_. worker_clean schemas" ?b0] by blast
  have "wb_last_peer_id b1 = None"
    using worker_convert_datasets [OF b1 rosters_def [of legacy] clean] fresh(3) by simp
  from worker_copy_total [OF assms(2,3) this] b1 reg show ?thesis
    by (auto simp: build_worker_def Let_def)
qed

text \<open>The portal side asks for the same, with no rosters and no headers.\<close>

lemma portal_stage_total:
  assumes "portal_spec_ok s" "continues (pb_last_block b) (dc_first_block (ps_id s))"
    and "length (pc_first_blocks (pb_columns b)) \<le> U32_MAX"
    and "length (pc_worker_indexes (pb_columns b)) + length (ps_workers s) \<le> U32_MAX"
  shows "\<exists>b'. portal_stage s b = Return (b', Ok ())"
  using assms portal_stage_push [of s b]
  by (auto simp: portal_spec_ok_def portal_push_chunk_def Let_def is_err_continuity continuity_Ok)

lemma portal_stage_all_total:
  assumes "portal_holds b xs" "\<forall>s \<in> set ys. portal_spec_ok s"
    and "linked (map ps_id (xs @ ys))" "length (xs @ ys) \<le> U32_MAX"
    and "sum_list (map (\<lambda>s. length (ps_workers s)) (xs @ ys)) \<le> U32_MAX"
  shows "\<exists>b'. stage_all portal_stage ys b = Some b'"
  using assms
proof (induction ys arbitrary: b xs)
  case (Cons s ys)
  have rel: "pc_rel (pb_columns b) xs"
    and l: "pb_last_block b = (if xs = [] then None else Some (dc_last_block (ps_id (last xs))))"
    using Cons.prems(1) by (simp_all add: portal_holds_def)
  have link: "continues (pb_last_block b) (dc_first_block (ps_id s))"
    using l linked_middle [of "map ps_id xs"] Cons.prems(3) by (simp add: continues_def last_map)
  have lens: "length (pc_first_blocks (pb_columns b)) = length xs"
    "length (pc_worker_indexes (pb_columns b)) = sum_list (map (\<lambda>s. length (ps_workers s)) xs)"
    using rel by (simp_all add: pc_rel_def csr_rel_def length_concat comp_def)
  obtain b1 where b1: "portal_stage s b = Return (b1, Ok ())"
    using portal_stage_total [OF _ link] Cons.prems(2,4,5) lens by auto
  have "portal_holds b1 (xs @ [s])"
    using portal_holds_stage [OF Cons.prems(1) _ b1] Cons.prems(2) by (simp add: portal_spec_ok_def)
  from Cons.IH [OF this] Cons.prems(2-5) b1 show ?case
    by simp
qed simp

lemma portal_convert_chunks_total:
  assumes "stage_all portal_stage (map portal_spec_of cs) b = Some b'"
    and "\<forall>c \<in> set cs. id_of c = Ok (chunk_of c)"
  shows "\<exists>st'. try_fold portal_convert_chunk cs (b, st) = Return (Ok (b', st'))"
  using assms
proof (induction cs arbitrary: b st)
  case (Cons c cs)
  then obtain b1 where "portal_stage (portal_spec_of c) b = Return (b1, Ok ())"
    "stage_all portal_stage (map portal_spec_of cs) b1 = Some b'"
    by (auto split: outcome.splits prod.splits result.splits)
  with Cons portal_convert_chunk_stage [of c "chunk_of c" b st] show ?case
    by (simp add: accepted_def)
qed simp

lemma portal_convert_dataset_total:
  assumes "dataset_ready source" "portal_clean b"
  shows "\<exists>b' an'. portal_convert_dataset (i, source) (b, an) = Return (Ok (b', an'))"
proof -
  let ?specs = "map portal_spec_of (ds_chunks source)"
  let ?db = "portal_new_dataset (ds_id source) (schema_id i)"
  have ids: "\<forall>c \<in> set (ds_chunks source). id_of c = Ok (chunk_of c)" and ne: "ds_chunks source \<noteq> []"
    using assms(1) by (auto simp: dataset_ready_def dataset_fits_def list_all_iff)
  have ok: "\<forall>s \<in> set ?specs. portal_spec_ok s"
    using assms(1) id_of_Ok(2) by (auto simp: dataset_ready_def dataset_fits_def list_all_iff portal_spec_ok_def)
  have holds: "portal_holds b []"
    using assms(2) by (intro portal_holds_Nil) (simp_all add: portal_clean_def)
  obtain b1 where b1: "stage_all portal_stage ?specs b = Some b1"
    using portal_stage_all_total [OF holds ok] assms(1)
    by (auto simp: dataset_ready_def dataset_fits_def gap_free_def comp_def)
  have wf: "\<forall>s \<in> set ?specs. dc_wf (ps_id s)"
    using ok by (simp add: portal_spec_ok_def)
  from portal_stager.holds_stage_all [OF holds wf b1] have "portal_holds b1 ?specs"
    by simp
  from portal_emit_Ok [OF this] ne
  have "\<exists>b2. portal_dataset_finish h ?db b1 = Return (b2, Ok ())" for h
    by auto
  moreover obtain h where "dataset_last_block_hash source = Return h"
    using ne by (simp add: dataset_last_block_hash_def)
  ultimately show ?thesis
    using portal_convert_chunks_total [OF b1 ids] ne
    by (auto simp: portal_convert_dataset_def Let_def accepted_def)
       (metis (no_types, lifting) case_prod_conv outcome_bind.simps(1) outcome_map.simps(1) result.simps(5) try_bind_simps(1))
qed

lemma portal_copy_total:
  assumes "workers_ready from_bytes legacy" "peers_ok to_bytes from_bytes legacy"
    and "pb_last_peer_id b = None"
  shows "\<exists>b'. try_fold (portal_copy_worker to_bytes from_bytes legacy) [0 ..< length (as_workers legacy)] b = Return (Ok b')"
proof -
  let ?P = "\<lambda>i s. pb_last_peer_id s = peer_before from_bytes legacy i"
  have "\<exists>s'. portal_copy_worker to_bytes from_bytes legacy ([0 ..< length (as_workers legacy)] ! i) s = Return (Ok s') \<and>
      ?P (Suc i) s'" if "i < length [0 ..< length (as_workers legacy)]" "?P i s" for i s
  proof -
    have i: "i < length (as_workers legacy)"
      using that(1) by simp
    obtain p h where w: "source_entry legacy i = as_workers legacy ! i"
      "we_encrypted_headers (as_workers legacy ! i) = Some h"
      "from_bytes (we_worker_id (as_workers legacy ! i)) = Some p"
      "length (to_bytes p) = WORKER_ID_LEN" "\<not> out_of_order (peer_before from_bytes legacy i) p"
      "peer_before from_bytes legacy (Suc i) = Some p"
      by (rule ready_worker [OF assms(1,2) i])
    show ?thesis
      using that(2) i w by (simp add: portal_copy_worker_def legacy_worker_at lw_peer_id_def
          worker_id_try_into_def portal_add_worker_def worker_id_from_def Let_def)
  qed
  from try_fold_total [of ?P b "[0 ..< length (as_workers legacy)]" "portal_copy_worker to_bytes from_bytes legacy", OF _ this]
    assms(3) show ?thesis
    by (auto simp: peer_before_def)
qed

lemma build_portal_total:
  fixes to_bytes :: "'p::linorder \<Rightarrow> u8 list"
  assumes "list_all dataset_ready (as_datasets legacy)" "workers_ready from_bytes legacy"
    and "peers_ok to_bytes from_bytes legacy"
  shows "\<exists>a an. build_portal to_bytes from_bytes legacy = Return (Ok (a, an))"
proof -
  let ?b = "portal_check_continuity False (portal_builder_new :: 'p portal_builder)"
  let ?an = "\<lparr>an_zeros = 0, an_descents = 0, an_datasets = []\<rparr>"
  have fresh: "portal_clean ?b" "pb_all_datasets ?b = []" "pb_last_peer_id ?b = None"
    by (simp_all add: portal_clean_def portal_check_continuity_def portal_builder_new_def)
  have "\<exists>s'. portal_convert_dataset (enumerate 0 (as_datasets legacy) ! i) s = Return (Ok s') \<and>
      portal_clean (fst s')" if i: "i < length (enumerate 0 (as_datasets legacy))" and s: "portal_clean (fst s)"
    for i and s :: "'p portal_builder \<times> anomalies"
  proof -
    obtain b an where eq: "s = (b, an)"
      by fastforce
    have "dataset_ready (as_datasets legacy ! i)" "portal_clean b"
      using i s eq assms(1) by (simp_all add: list_all_length)
    with portal_convert_dataset_total [OF this, of i an] portal_convert_dataset_Ok [of i "as_datasets legacy ! i" b an]
    show ?thesis
      using i eq by (fastforce simp: nth_enumerate_eq)
  qed
  then obtain b1 an1 where
    b1: "try_fold portal_convert_dataset (enumerate 0 (as_datasets legacy)) (?b, ?an) = Return (Ok (b1, an1))"
    using try_fold_total [of "\<lambda>_ s. portal_clean (fst s)" "(?b, ?an)"
      "enumerate 0 (as_datasets legacy)" portal_convert_dataset] fresh(1) by auto
  have "pb_last_peer_id b1 = None"
    using portal_convert_datasets [OF b1 fresh(1,2)] fresh(3) by simp
  from portal_copy_total [OF assms(2,3) this] b1 show ?thesis
    by (auto simp: build_portal_def Let_def)
qed

text \<open>
  C17: The tool converts a source exactly when its datasets have no gaps. For a source with non-empty
  datasets whose chunk ids parse and agree with their first blocks, whose spans and counts fit 32
  bits, and whose workers carry headers and stand in ascending order of at most 65536 peer ids, both
  builders succeed if and only if in every dataset each chunk starts right after the previous one. So
  switching the continuity check off, as the tool does for the gaps it calls legal, is not enough: a
  gap is still reported by \<^verbatim>\<open>finish\<close>, and the tool propagates that error.
\<close>
theorem conversion_accepts_iff:
  assumes "list_all dataset_fits (as_datasets legacy)" "workers_ready from_bytes legacy"
    and "peers_ok (cr_to_bytes cr) from_bytes legacy" "length (as_datasets legacy) \<le> U32_MAX"
  shows "((\<exists>a. build_worker cr from_bytes rng legacy = Return (Ok a)) \<longleftrightarrow>
      list_all gap_free (as_datasets legacy)) \<and>
    ((\<exists>p. build_portal (cr_to_bytes cr) from_bytes legacy = Return (Ok p)) \<longleftrightarrow>
      list_all gap_free (as_datasets legacy))"
proof -
  have ready: "list_all dataset_ready (as_datasets legacy)" if "list_all gap_free (as_datasets legacy)"
    using assms(1) that by (simp add: list_all_iff dataset_ready_def)
  show ?thesis
  proof (intro conjI iffI)
    assume free: "list_all gap_free (as_datasets legacy)"
    show "\<exists>a. build_worker cr from_bytes rng legacy = Return (Ok a)"
      by (rule build_worker_total [OF ready [OF free] assms(2-4)])
    show "\<exists>p. build_portal (cr_to_bytes cr) from_bytes legacy = Return (Ok p)"
      using build_portal_total [OF ready [OF free] assms(2,3)] by auto
  qed (auto dest: built_gap_free)
qed

text \<open>A source of two datasets, one with a trimmed chunk and a gap-free run, and two workers.\<close>

definition sample_source_chunk ::
  "string \<Rightarrow> string \<Rightarrow> u64 \<Rightarrow> string list \<Rightarrow> u64 option \<Rightarrow> u16 list \<Rightarrow> fb_chunk" where
  "sample_source_chunk dataset id' first_block files ts ws =
    \<lparr>ck_first_block = first_block, ck_id = id', ck_dataset_id = dataset, ck_size = 10,
     ck_last_block_hash = None, ck_last_block_timestamp = ts, ck_dataset_base_url = ''https://a.io'',
     ck_base_url = ''x'', ck_files = map (\<lambda>f. \<lparr>fu_filename = f, fu_url = f\<rparr>) files,
     ck_worker_indexes = ws\<rparr>"

definition sample_source :: "u64 \<Rightarrow> fb_assignment" where
  "sample_source second_start =
    \<lparr>as_datasets =
      [\<lparr>ds_id = ''a'', ds_chunks =
          [sample_source_chunk ''a'' ''0000000000/0000000000-0000000099-aaaaa'' 0
             [''logs.parquet'', ''blocks.parquet'', ''readme''] (Some 7) [0, 1],
           sample_source_chunk ''a'' (''0000000000/'' @ fmt_pad 10 (unat second_start) @ ''-0000000199-bbbbb'')
             second_start [''blocks.parquet''] None [1]],
        ds_last_block = 199\<rparr>],
     as_workers =
      [\<lparr>we_worker_id = sample_to_bytes 3, we_status = 0,
        we_encrypted_headers = Some \<lparr>eh_identity = [1], eh_nonce = [2], eh_ciphertext = [3]\<rparr>\<rparr>,
       \<lparr>we_worker_id = sample_to_bytes 5, we_status = 2,
        we_encrypted_headers = Some \<lparr>eh_identity = [4], eh_nonce = [5], eh_ciphertext = [6]\<rparr>\<rparr>]\<rparr>"

lemma sample_source_ok:
  "list_all dataset_fits (as_datasets (sample_source 100))" "workers_ready sample_from_bytes (sample_source 100)"
  "list_all gap_free (as_datasets (sample_source 100))" "bitmaps_fit (sample_source 100)"
  "length (as_datasets (sample_source 100)) \<le> U32_MAX"
  "list_all dataset_consistent (as_datasets (sample_source 100))"
  by code_simp+

lemma sample_gap:
  "list_all dataset_fits (as_datasets (sample_source 101))" "workers_ready sample_from_bytes (sample_source 101)"
  "\<not> list_all gap_free (as_datasets (sample_source 101))" "length (as_datasets (sample_source 101)) \<le> U32_MAX"
  by code_simp+

lemma sample_source_peers: "peers_ok (cr_to_bytes sample_crypto) sample_from_bytes (sample_source n)"
  using sample_codec by (simp add: peers_ok_def split: option.splits)

theorem conversion_accepts_iff_witness:
  "(\<exists>a. build_worker sample_crypto sample_from_bytes 0 (sample_source 100) = Return (Ok a)) \<and>
   (\<exists>p. build_portal sample_to_bytes sample_from_bytes (sample_source 100) = Return (Ok p)) \<and>
   \<not> (\<exists>a. build_worker sample_crypto sample_from_bytes 0 (sample_source 101) = Return (Ok a))"
  using conversion_accepts_iff [OF sample_source_ok(1,2) sample_source_peers sample_source_ok(5), of 0]
    conversion_accepts_iff [OF sample_gap(1,2) sample_source_peers sample_gap(4), of 0]
    sample_source_ok(3) sample_gap(3)
  by simp

section \<open>The conversion reproduces its source\<close>

text \<open>
  C12: The conversion reproduces its source. When both split assignments could be built from a combined
  one, the tool loads them and its comparison (every id, block range, size, url, table list,
  timestamp, version, worker index, worker identity, status and sealed header) succeeds exactly when
  the source is consistent: each chunk names the dataset it is filed under, each chunk id is written
  as it prints, and the dataset's last block is the one its last chunk names. The key lookup of
  flatbuffers, the peer id codec, and counts that fit 32 bits are what is assumed.
\<close>
theorem conversion_reproduces_source:
  fixes cr :: "('p::linorder, 'sk, 'rng) crypto"
  assumes "build_worker cr from_bytes rng legacy = Return (Ok a)"
    and "build_portal (cr_to_bytes cr) from_bytes legacy = Return (Ok (a', an))"
    and "key_search lk" "peers_ok (cr_to_bytes cr) from_bytes legacy" "bitmaps_fit legacy"
    and "length (as_datasets legacy) \<le> U32_MAX"
  shows "convert cr lk from_bytes rng False files legacy = Return (Ok ()) \<longleftrightarrow>
    list_all dataset_consistent (as_datasets legacy)"
proof -
  obtain b :: "('p, 'sk, 'rng) worker_builder" where b: "a = worker_builder_finish b"
    and w: "converted_worker (cr_to_bytes cr) from_bytes legacy a (wb_write_schemas b)"
    by (rule build_worker_converted [OF assms(1,4,6)])
  have p: "converted_portal (cr_to_bytes cr) from_bytes legacy a'"
    using build_portal_converted [OF assms(2,4)] by blast
  show ?thesis
    using verify_conversion_iff [OF assms(3,5,4) b w p] assms(1,2) converted_loads [OF w p]
    by (simp add: convert_def)
qed

theorem conversion_reproduces_source_witness:
  "convert sample_crypto lookup_index_pure sample_from_bytes 0 False
    (\<lparr>wa_datasets = [], wa_workers = [], wa_schemas = []\<rparr>, \<lparr>pa_datasets = [], pa_workers = []\<rparr>)
    (sample_source 100) = Return (Ok ())"
proof -
  have ready: "list_all dataset_ready (as_datasets (sample_source 100))"
    using sample_source_ok(1,3) by (simp add: list_all_iff dataset_ready_def)
  obtain a where a: "build_worker sample_crypto sample_from_bytes 0 (sample_source 100) = Return (Ok a)"
    using build_worker_total [OF ready sample_source_ok(2) sample_source_peers sample_source_ok(5)] by blast
  obtain p an where p: "build_portal (cr_to_bytes sample_crypto) sample_from_bytes (sample_source 100) = Return (Ok (p, an))"
    using build_portal_total [OF ready sample_source_ok(2) sample_source_peers] by blast
  show ?thesis
    using conversion_reproduces_source [OF a p index_search.key_search_axioms sample_source_peers
        sample_source_ok(4,5)] sample_source_ok(6) by simp
qed

end
