(* ===== verification/Wrapped_Behaviour.thy ===== *)
theory Wrapped_Behaviour
  imports Query_Exchange
begin

text \<open>
  The adaptor every actor's behaviour is built with: \<^verbatim>\<open>crates/transport/src/behaviour/wrapped.rs\<close>. A
  wrapper translates the events of an inner behaviour into events of its own; \<^verbatim>\<open>Wrapped\<close> queues what the
  wrapper produces and hands it to the swarm one by one. The trait's methods are the fields of \<open>wrapper\<close>;
  \<^verbatim>\<open>poll\<close> loops, so it is a partial function, and a poll that does not return is \<^const>\<open>None\<close>.

  The actors use the defaults for everything but \<^verbatim>\<open>on_inner_event\<close>: \<open>actor_wrapper\<close> is a wrapper of
  that kind over an inner behaviour that has a finite list of commands ready.
\<close>

section \<open>The wrapper\<close>

text \<open>What a behaviour hands to the swarm: an event, or any other command.\<close>

datatype ('e, 'c) swarm_command = Generate 'e | Forward 'c

record ('t, 'f, 'ie, 'e, 'c) wrapper =
  wr_inner_on_swarm_event :: "'f \<Rightarrow> 't \<Rightarrow> 't"
  wr_inner_poll :: "'t \<Rightarrow> (('ie, 'c) swarm_command poll \<times> 't) option"
  wr_on_swarm_event :: "'f \<Rightarrow> 't \<Rightarrow> ('e, 'c) swarm_command list \<times> 't"
  wr_on_inner_event :: "'ie \<Rightarrow> 't \<Rightarrow> ('e, 'c) swarm_command list \<times> 't"
  wr_poll :: "'t \<Rightarrow> ('e, 'c) swarm_command list poll \<times> 't"

definition on_inner_command ::
  "('t, 'f, 'ie, 'e, 'c) wrapper \<Rightarrow> ('ie, 'c) swarm_command \<Rightarrow> 't \<Rightarrow> ('e, 'c) swarm_command list \<times> 't" where
  "on_inner_command wr ev t =
    (case ev of
       Generate ev \<Rightarrow> wr_on_inner_event wr ev t
     | Forward c \<Rightarrow> ([Forward c], t))"

record ('t, 'e, 'c) wrapped =
  wp_wrapper :: 't
  wp_pending_events :: "('e, 'c) swarm_command list"

definition wrapped_from :: "'t \<Rightarrow> ('t, 'e, 'c) wrapped" where
  "wrapped_from wrapper = \<lparr>wp_wrapper = wrapper, wp_pending_events = []\<rparr>"

definition wrapped_on_swarm_event ::
  "('t, 'f, 'ie, 'e, 'c) wrapper \<Rightarrow> 'f \<Rightarrow> ('t, 'e, 'c) wrapped \<Rightarrow> ('t, 'e, 'c) wrapped" where
  "wrapped_on_swarm_event wr event w =
    (let t = wr_inner_on_swarm_event wr event (wp_wrapper w);
         (evs, t) = wr_on_swarm_event wr event t
     in \<lparr>wp_wrapper = t, wp_pending_events = wp_pending_events w @ evs\<rparr>)"

partial_function (option) wrapped_poll ::
  "('t, 'f, 'ie, 'e, 'c) wrapper \<Rightarrow> ('t, 'e, 'c) wrapped \<Rightarrow>
    (('e, 'c) swarm_command poll \<times> ('t, 'e, 'c) wrapped) option"
where
  "wrapped_poll wr w =
    (case wp_pending_events w of
       ev # evs \<Rightarrow> Some (Ready ev, w\<lparr>wp_pending_events := evs\<rparr>)
     | [] \<Rightarrow>
         (case wr_poll wr (wp_wrapper w) of
            (Ready evs, t) \<Rightarrow> wrapped_poll wr \<lparr>wp_wrapper = t, wp_pending_events = evs\<rparr>
          | (Pending, t) \<Rightarrow>
              (case wr_inner_poll wr t of
                 None \<Rightarrow> None
               | Some (Ready ev, t) \<Rightarrow>
                   (case on_inner_command wr ev t of
                      (evs, t) \<Rightarrow> wrapped_poll wr \<lparr>wp_wrapper = t, wp_pending_events = evs\<rparr>)
               | Some (Pending, t) \<Rightarrow> Some (Pending, \<lparr>wp_wrapper = t, wp_pending_events = []\<rparr>))))"

section \<open>One poll as a run of the loop\<close>

text \<open>The batches of events the wrapper produced during a poll, in order, and how the poll ended.\<close>

inductive poll_run ::
  "('t, 'f, 'ie, 'e, 'c) wrapper \<Rightarrow> ('t, 'e, 'c) wrapped \<Rightarrow> ('e, 'c) swarm_command list list \<Rightarrow>
    ('e, 'c) swarm_command poll \<Rightarrow> ('t, 'e, 'c) wrapped \<Rightarrow> bool"
  for wr :: "('t, 'f, 'ie, 'e, 'c) wrapper"
where
  pop: "poll_run wr \<lparr>wp_wrapper = t, wp_pending_events = ev # evs\<rparr> [] (Ready ev)
      \<lparr>wp_wrapper = t, wp_pending_events = evs\<rparr>"
| from_wrapper: "wr_poll wr t = (Ready evs, t1) \<Longrightarrow>
    poll_run wr \<lparr>wp_wrapper = t1, wp_pending_events = evs\<rparr> batches out w' \<Longrightarrow>
    poll_run wr \<lparr>wp_wrapper = t, wp_pending_events = []\<rparr> (evs # batches) out w'"
| from_inner: "wr_poll wr t = (Pending, t1) \<Longrightarrow> wr_inner_poll wr t1 = Some (Ready ev, t2) \<Longrightarrow>
    on_inner_command wr ev t2 = (evs, t3) \<Longrightarrow>
    poll_run wr \<lparr>wp_wrapper = t3, wp_pending_events = evs\<rparr> batches out w' \<Longrightarrow>
    poll_run wr \<lparr>wp_wrapper = t, wp_pending_events = []\<rparr> (evs # batches) out w'"
| idle: "wr_poll wr t = (Pending, t1) \<Longrightarrow> wr_inner_poll wr t1 = Some (Pending, t2) \<Longrightarrow>
    poll_run wr \<lparr>wp_wrapper = t, wp_pending_events = []\<rparr> [] Pending \<lparr>wp_wrapper = t2, wp_pending_events = []\<rparr>"

lemma poll_run_poll: "poll_run wr w batches out w' \<Longrightarrow> wrapped_poll wr w = Some (out, w')"
  by (induction rule: poll_run.induct) (subst wrapped_poll.simps, simp)+

lemma poll_poll_run:
  fixes wr :: "('t, 'f, 'ie, 'e, 'c) wrapper"
  assumes "wrapped_poll wr w = Some (out, w')"
  shows "\<exists>batches. poll_run wr w batches out w'"
proof -
  have "\<exists>batches. poll_run wr w batches (fst r) (snd r)" if "wrapped_poll wr w = Some r"
    for wr :: "('t, 'f, 'ie, 'e, 'c) wrapper" and w r
  proof (rule wrapped_poll.raw_induct [OF _ that], goal_cases)
    case (1 poll wr w r)
    obtain t pend where w: "w = \<lparr>wp_wrapper = t, wp_pending_events = pend\<rparr>"
      by (cases w) auto
    show ?case
      using 1(2) unfolding w
      by (auto split: list.splits prod.splits poll.splits option.splits
          intro: poll_run.intros dest!: 1(1)) (blast intro: poll_run.intros)+
  qed
  from this [OF assms] show ?thesis
    by simp
qed

definition delivered :: "'a poll \<Rightarrow> 'a list" where
  "delivered out = (case out of Ready ev \<Rightarrow> [ev] | Pending \<Rightarrow> [])"

text \<open>What was pending and what was produced is delivered or still pending, in order.\<close>

lemma poll_run_order:
  "poll_run wr w batches out w' \<Longrightarrow>
    wp_pending_events w @ concat batches = delivered out @ wp_pending_events w'"
  by (induction rule: poll_run.induct) (simp_all add: delivered_def)

lemma poll_run_pending:
  "poll_run wr w batches out w' \<Longrightarrow> out = Pending \<Longrightarrow>
    wp_pending_events w' = [] \<and> (\<exists>t t1. wr_poll wr t = (Pending, t1) \<and> wr_inner_poll wr t1 = Some (Pending, wp_wrapper w'))"
  by (induction rule: poll_run.induct) auto

section \<open>Polls return\<close>

text \<open>
  The contract of a wrapper whose polls return: the inner polls return, and every answer uses up some of
  the work that is ready.
\<close>

locale finite_work =
  fixes wr :: "('t, 'f, 'ie, 'e, 'c) wrapper" and todo :: "'t \<Rightarrow> nat"
  assumes wrapper_answer: "wr_poll wr t = (Ready evs, t') \<Longrightarrow> todo t' < todo t"
    and wrapper_pending: "wr_poll wr t = (Pending, t') \<Longrightarrow> todo t' \<le> todo t"
    and inner_returns: "\<exists>r. wr_inner_poll wr t = Some r"
    and inner_answer: "wr_inner_poll wr t = Some (Ready ev, t') \<Longrightarrow> on_inner_command wr ev t' = (evs, t'') \<Longrightarrow>
      todo t'' < todo t"
begin

lemma poll_returns: "\<exists>batches out w'. poll_run wr w batches out w'"
proof (induction "todo (wp_wrapper w)" arbitrary: w rule: less_induct)
  case less
  obtain t pend where w: "w = \<lparr>wp_wrapper = t, wp_pending_events = pend\<rparr>"
    by (cases w) auto
  have next_run: "\<exists>batches out w'. poll_run wr \<lparr>wp_wrapper = t', wp_pending_events = evs\<rparr> batches out w'"
    if "todo t' < todo t" for t' evs
    using less [of "\<lparr>wp_wrapper = t', wp_pending_events = evs\<rparr>"] that w by simp
  show ?case
  proof (cases pend)
    case (Cons ev evs)
    then show ?thesis
      using w poll_run.pop by metis
  next
    case Nil
    obtain out t1 where p: "wr_poll wr t = (out, t1)"
      by fastforce
    show ?thesis
    proof (cases out)
      case (Ready evs)
      with p next_run [OF wrapper_answer] obtain batches o' w' where
        "poll_run wr \<lparr>wp_wrapper = t1, wp_pending_events = evs\<rparr> batches o' w'"
        by metis
      with p Ready show ?thesis
        using w Nil poll_run.from_wrapper by metis
    next
      case Pending
      obtain r t2 where i: "wr_inner_poll wr t1 = Some (r, t2)"
        using inner_returns [of t1] by auto
      show ?thesis
      proof (cases r)
        case (Ready ev)
        obtain evs t3 where c: "on_inner_command wr ev t2 = (evs, t3)"
          by fastforce
        have "todo t3 < todo t"
          using inner_answer [of t1 ev t2 evs t3] wrapper_pending [of t t1] i c p Ready Pending by simp
        from next_run [OF this] obtain batches o' w' where
          "poll_run wr \<lparr>wp_wrapper = t3, wp_pending_events = evs\<rparr> batches o' w'"
          by blast
        with p i c Ready Pending show ?thesis
          using w Nil poll_run.from_inner by metis
      next
        case Pending
        with p i \<open>out = Pending\<close> show ?thesis
          using w Nil poll_run.idle by metis
      qed
    qed
  qed
qed

lemma wrapped_poll_returns: "wrapped_poll wr w \<noteq> None"
  using poll_returns [of w] poll_run_poll by fastforce

end

section \<open>The actors\<close>

text \<open>
  An actor keeps a state of its own beside the inner behaviour and turns each inner event into at most
  some events. The second component is what the inner behaviour has ready; \<open>react\<close> is what an event of
  the swarm adds to it.
\<close>

definition actor_wrapper ::
  "('f \<Rightarrow> ('ie, 'c) swarm_command list) \<Rightarrow> ('ie \<Rightarrow> 's \<Rightarrow> 'e list \<times> 's) \<Rightarrow> ('s \<times> ('ie, 'c) swarm_command list, 'f, 'ie, 'e, 'c) wrapper" where
  "actor_wrapper react handler =
    \<lparr>wr_inner_on_swarm_event = (\<lambda>ev (s, q). (s, q @ react ev)),
     wr_inner_poll = (\<lambda>(s, q). case q of [] \<Rightarrow> Some (Pending, (s, [])) | ev # q \<Rightarrow> Some (Ready ev, (s, q))),
     wr_on_swarm_event = (\<lambda>_ t. ([], t)),
     wr_on_inner_event = (\<lambda>ev (s, q). case handler ev s of (evs, s) \<Rightarrow> (map Generate evs, (s, q))),
     wr_poll = (\<lambda>t. (Pending, t))\<rparr>"

lemma actor_wrapper_simps [simp]:
  "wr_poll (actor_wrapper react handler) t = (Pending, t)"
  "wr_inner_poll (actor_wrapper react handler) (s, []) = Some (Pending, (s, []))"
  "wr_inner_poll (actor_wrapper react handler) (s, cmd # q) = Some (Ready cmd, (s, q))"
  "on_inner_command (actor_wrapper react handler) (Forward c) t = ([Forward c], t)"
  "on_inner_command (actor_wrapper react handler) (Generate ev) (s, q) =
    (map Generate (fst (handler ev s)), (snd (handler ev s), q))"
  by (simp_all add: actor_wrapper_def on_inner_command_def split: prod.splits)

lemma actor_inner_cases:
  "wr_inner_poll (actor_wrapper react handler) (s, q) =
    (case q of [] \<Rightarrow> Some (Pending, (s, [])) | ev # q \<Rightarrow> Some (Ready ev, (s, q)))"
  by (cases q) simp_all

interpretation actor: finite_work "actor_wrapper react handler" "\<lambda>(s, q). length q"
  for react :: "'f \<Rightarrow> ('ie, 'c) swarm_command list" and handler :: "'ie \<Rightarrow> 's \<Rightarrow> 'e list \<times> 's"
proof
  fix ev t t' evs and t'' :: "'s \<times> ('ie, 'c) swarm_command list"
  assume "wr_inner_poll (actor_wrapper react handler) t = Some (Ready ev, t')"
    "on_inner_command (actor_wrapper react handler) ev t' = (evs, t'')"
  then show "(case t'' of (s, q) \<Rightarrow> length q) < (case t of (s, q) \<Rightarrow> length q)"
    by (cases t; cases ev) (auto simp: actor_inner_cases split: list.splits)
qed (auto simp: actor_inner_cases split: list.splits)

text \<open>What an actor makes of a list of inner commands.\<close>

primrec actor_outputs ::
  "('ie \<Rightarrow> 's \<Rightarrow> 'e list \<times> 's) \<Rightarrow> ('ie, 'c) swarm_command list \<Rightarrow> 's \<Rightarrow> ('e, 'c) swarm_command list \<times> 's" where
  "actor_outputs handler [] s = ([], s)"
| "actor_outputs handler (ev # q) s =
    (case ev of
       Forward c \<Rightarrow> (case actor_outputs handler q s of (evs, s) \<Rightarrow> (Forward c # evs, s))
     | Generate ev \<Rightarrow>
         (case handler ev s of (out, s) \<Rightarrow>
            (case actor_outputs handler q s of (evs, s) \<Rightarrow> (map Generate out @ evs, s))))"

text \<open>Polling until nothing is ready.\<close>

inductive drained ::
  "('t, 'f, 'ie, 'e, 'c) wrapper \<Rightarrow> ('t, 'e, 'c) wrapped \<Rightarrow> ('e, 'c) swarm_command list \<Rightarrow> ('t, 'e, 'c) wrapped \<Rightarrow> bool"
  for wr :: "('t, 'f, 'ie, 'e, 'c) wrapper"
where
  dry: "wrapped_poll wr w = Some (Pending, w') \<Longrightarrow> drained wr w [] w'"
| more: "wrapped_poll wr w = Some (Ready ev, w1) \<Longrightarrow> drained wr w1 evs w' \<Longrightarrow> drained wr w (ev # evs) w'"

lemma drained_unique: "drained wr w evs w' \<Longrightarrow> drained wr w evs1 w1 \<Longrightarrow> evs1 = evs \<and> w1 = w'"
proof (induction arbitrary: evs1 w1 rule: drained.induct)
  case (dry w w')
  from dry(2,1) show ?case
    by cases auto
next
  case (more w ev w1 evs w')
  from more(4) show ?case
  proof cases
    case (more ev' w1' evs')
    with more.hyps(1) more.IH show ?thesis
      by auto
  qed (use more.hyps(1) in simp)
qed

lemma poll_skips:
  assumes "wr_poll wr t = (Pending, t1)" "wr_inner_poll wr t1 = Some (Ready ev, t2)"
    and "on_inner_command wr ev t2 = (evs, t3)"
  shows "wrapped_poll wr \<lparr>wp_wrapper = t, wp_pending_events = []\<rparr> =
    wrapped_poll wr \<lparr>wp_wrapper = t3, wp_pending_events = evs\<rparr>"
  using assms by (subst wrapped_poll.simps) simp

lemma drained_same_poll:
  assumes "wrapped_poll wr w = wrapped_poll wr w1" "drained wr w1 evs w'"
  shows "drained wr w evs w'"
  using assms(2)
proof cases
  case dry
  with drained.dry [of wr w] show ?thesis
    by (simp add: assms(1))
next
  case (more ev w2 evs2)
  with drained.more [of wr w] show ?thesis
    by (simp add: assms(1))
qed

lemma drained_pending:
  "drained wr \<lparr>wp_wrapper = t, wp_pending_events = []\<rparr> evs w' \<Longrightarrow>
    drained wr \<lparr>wp_wrapper = t, wp_pending_events = pend\<rparr> (pend @ evs) w'"
proof (induction pend)
  case (Cons ev pend)
  have "wrapped_poll wr \<lparr>wp_wrapper = t, wp_pending_events = ev # pend\<rparr> =
      Some (Ready ev, \<lparr>wp_wrapper = t, wp_pending_events = pend\<rparr>)"
    by (subst wrapped_poll.simps) simp
  from drained.more [OF this Cons.IH [OF Cons.prems]] show ?case
    by simp
qed simp

lemma drained_actor_empty:
  "drained (actor_wrapper react handler) \<lparr>wp_wrapper = (s, q), wp_pending_events = []\<rparr> (fst (actor_outputs handler q s))
    \<lparr>wp_wrapper = (snd (actor_outputs handler q s), []), wp_pending_events = []\<rparr>"
proof (induction q arbitrary: s)
  case Nil
  have "wrapped_poll (actor_wrapper react handler) \<lparr>wp_wrapper = (s, []), wp_pending_events = []\<rparr> =
      Some (Pending, \<lparr>wp_wrapper = (s, []), wp_pending_events = []\<rparr>)"
    by (subst wrapped_poll.simps) simp
  from drained.dry [OF this] show ?case
    by simp
next
  case (Cons ev q)
  obtain evs s' where c: "on_inner_command (actor_wrapper react handler) ev (s, q) = (evs, (s', q))"
    by (cases ev) auto
  have "actor_outputs handler (ev # q) s =
      (evs @ fst (actor_outputs handler q s'), snd (actor_outputs handler q s'))"
    using c by (cases ev) (auto split: prod.splits)
  moreover have "drained (actor_wrapper react handler) \<lparr>wp_wrapper = (s, ev # q), wp_pending_events = []\<rparr>
      (evs @ fst (actor_outputs handler q s'))
      \<lparr>wp_wrapper = (snd (actor_outputs handler q s'), []), wp_pending_events = []\<rparr>"
    by (rule drained_same_poll [OF poll_skips [OF actor_wrapper_simps(1,3) c] drained_pending [OF Cons.IH]])
  ultimately show ?case
    by simp
qed

text \<open>
  An actor's behaviour delivers exactly the translation of what its inner behaviour had ready. Every
  poll of the wrapped actor returns; polling it until nothing is ready hands to the swarm first what was
  already queued, then, in the order of the inner behaviour, each of its commands unchanged and each of
  its events as the events the actor makes of it with the state it has by then; nothing is lost,
  repeated or reordered, and nothing is left queued.
\<close>
theorem wrapped_actor_exact:
  "wrapped_poll (actor_wrapper react handler) w \<noteq> None \<and>
   drained (actor_wrapper react handler) \<lparr>wp_wrapper = (s, q), wp_pending_events = pend\<rparr>
     (pend @ fst (actor_outputs handler q s))
     \<lparr>wp_wrapper = (snd (actor_outputs handler q s), []), wp_pending_events = []\<rparr>"
  by (intro conjI actor.wrapped_poll_returns drained_pending [OF drained_actor_empty])

end
