(* ===== verification/Held_Streams.thy ===== *)
theory Held_Streams
  imports Wrapped_Behaviour
begin

text \<open>
  The two behaviours that only hold streams: \<^verbatim>\<open>crates/transport/src/behaviour/keep_alive.rs\<close> and
  \<^verbatim>\<open>behaviour/noise.rs\<close>. Streams are numbered in the order they come; a task spawned for a stream is the
  stream it holds.
\<close>

section \<open>Keeping connections alive\<close>

text \<open>\<open>ka_opening\<close> are the peers a stream is being opened to, \<open>ka_held\<close> the streams accepted.\<close>

record 'p keep_alive =
  ka_active :: bool
  ka_opening :: "'p list"
  ka_held :: "('p \<times> nat) list"

definition keep_alive_default :: "'p keep_alive" where
  "keep_alive_default = \<lparr>ka_active = False, ka_opening = [], ka_held = []\<rparr>"

definition keep_all_connections_alive :: "'p keep_alive \<Rightarrow> 'p keep_alive" where
  "keep_all_connections_alive ka = ka\<lparr>ka_active := True\<rparr>"

definition ensure_keep_alive :: "'p \<Rightarrow> 'p keep_alive \<Rightarrow> 'p keep_alive" where
  "ensure_keep_alive peer ka = (if \<not> ka_active ka then ka else ka\<lparr>ka_opening := ka_opening ka @ [peer]\<rparr>)"

datatype 'p keep_alive_input = ConnectionEstablished 'p | OtherSwarmEvent

definition keep_alive_on_swarm_event :: "'p keep_alive_input \<Rightarrow> 'p keep_alive \<Rightarrow> 'p keep_alive" where
  "keep_alive_on_swarm_event ev ka =
    (case ev of ConnectionEstablished peer_id \<Rightarrow> ensure_keep_alive peer_id ka | OtherSwarmEvent \<Rightarrow> ka)"

text \<open>
  One poll: every stream that is ready is taken, until none is or the source has ended. \<open>None\<close> is the
  end of the source.
\<close>

fun keep_alive_accept :: "('p \<times> nat) option list \<Rightarrow> 'p keep_alive \<Rightarrow> ('p \<times> nat) option list \<times> 'p keep_alive" where
  "keep_alive_accept [] ka = ([], ka)"
| "keep_alive_accept (None # incoming) ka = (incoming, ka)"
| "keep_alive_accept (Some s # incoming) ka = keep_alive_accept incoming (ka\<lparr>ka_held := ka_held ka @ [s]\<rparr>)"

text \<open>What the task of a held stream makes of its single read: it always ends with the read.\<close>

datatype held_end = HeldClosed | HeldViolated | HeldFailed

definition held_read :: "(string, nat) result \<Rightarrow> held_end" where
  "held_read r =
    (case r of Ok n \<Rightarrow> if n = 0 then HeldClosed else HeldViolated | Err e \<Rightarrow> HeldFailed)"

text \<open>
  Once client mode is on, every connection established from then on gets one stream, in order; before
  that none does. Accepting takes every waiting stream.
\<close>

lemma keep_alive_opens:
  "ka_opening (fold keep_alive_on_swarm_event evs ka) =
    ka_opening ka @ (if ka_active ka
      then concat (map (\<lambda>ev. case ev of ConnectionEstablished p \<Rightarrow> [p] | OtherSwarmEvent \<Rightarrow> []) evs) else [])
   \<and> ka_active (fold keep_alive_on_swarm_event evs ka) = ka_active ka"
  by (induction evs arbitrary: ka)
    (auto simp: keep_alive_on_swarm_event_def ensure_keep_alive_def split: keep_alive_input.splits)

lemma keep_alive_accepts_all:
  "keep_alive_accept (map Some streams) ka = ([], ka\<lparr>ka_held := ka_held ka @ streams\<rparr>)"
  by (induction streams arbitrary: ka) simp_all

section \<open>Noise\<close>

definition NOISE_BUFFER_SIZE :: nat where
  "NOISE_BUFFER_SIZE = 10 * 1024 * 1024"

datatype noise_task = NoiseWriting | NoiseClosed | NoisePanicked

text \<open>
  The task of one stream, over the results of its writes and of the close that follows the first failed
  one: the bytes written, and where the task is.
\<close>

fun noise_serve :: "(string, nat) result list \<Rightarrow> (string, unit) result \<Rightarrow> nat \<times> noise_task" where
  "noise_serve [] close_result = (0, NoiseWriting)"
| "noise_serve (Ok n # writes) close_result = (case noise_serve writes close_result of (m, t) \<Rightarrow> (n + m, t))"
| "noise_serve (Err e # writes) close_result =
    (0, case close_result of Ok u \<Rightarrow> NoiseClosed | Err e' \<Rightarrow> NoisePanicked)"

text \<open>The task runs until a write fails, and then it is over.\<close>

lemma noise_serve_ends:
  "snd (noise_serve writes close_result) = NoiseWriting \<longleftrightarrow> (\<forall>w \<in> set writes. \<exists>n. w = Ok n)"
  by (induction writes close_result rule: noise_serve.induct) (auto split: prod.splits result.splits)

end
