(* ===== verification/Actor_Tasks.thy ===== *)
theory Actor_Tasks
  imports Wrapped_Behaviour "HOL-Library.Sublist"
begin

text \<open>
  The tasks of the actors: the loop that drives the swarm and forwards the events of the actor's behaviour
  into a bounded queue, and the reader at the other end of it. All actors share the loop
  (\<^verbatim>\<open>run\<close> and \<^verbatim>\<open>on_swarm_event\<close> of \<^verbatim>\<open>actors/worker.rs\<close>, \<^verbatim>\<open>portal.rs\<close>, \<^verbatim>\<open>observer.rs\<close> and
  \<^verbatim>\<open>portal_logs_collector.rs\<close>); they differ in what they make of an inner event, the handlers below. The
  portal's loop also starts a provider lookup at every tick of an interval, and its reader keeps the last
  list of listeners.
\<close>

section \<open>What each actor makes of an inner event\<close>

definition option_list :: "'a option \<Rightarrow> 'a list" where
  "option_list x = (case x of None \<Rightarrow> [] | Some a \<Rightarrow> [a])"

definition worker_handler :: "('p, 'r) worker_inner_event \<Rightarrow> unit \<Rightarrow> 'p worker_event list \<times> unit" where
  "worker_handler ev s = (option_list (on_inner_event ev), s)"

definition portal_handler ::
  "('p, 'q) provider_record base_event \<Rightarrow> ('c, 'k, 'p, 'q, 'l) portal_behaviour \<Rightarrow>
    'p set list \<times> ('c, 'k, 'p, 'q, 'l) portal_behaviour" where
  "portal_handler ev pt = (case portal_on_base_event ev pt of (listeners, pt) \<Rightarrow> (option_list listeners, pt))"

datatype ('p, 'f, 'r) collector_inner_event =
    CollectorBase "'r base_event"
  | CollectorV1 'p 'f
  | CollectorV2 'p "'f list"

definition collector_handler ::
  "('k \<Rightarrow> bool \<times> 'k) \<Rightarrow> ('p, 'f, 'r) collector_inner_event \<Rightarrow> ('c, 'k, 'p, 'q, 'l, 'r) logs_collector \<Rightarrow>
    ('p, 'f) collector_event list \<times> ('c, 'k, 'p, 'q, 'l, 'r) logs_collector" where
  "collector_handler start_providing ev lg =
    (case ev of
       CollectorBase ev \<Rightarrow> ([], collector_on_base_event start_providing ev lg)
     | CollectorV1 peer_id request \<Rightarrow> (option_list (on_collector_v1_request peer_id request), lg)
     | CollectorV2 peer_id request \<Rightarrow> (option_list (on_collector_v2_request peer_id request), lg))"

datatype sql_client_event = SqlConnect rat

definition sql_client_handler :: "'r base_event \<Rightarrow> unit \<Rightarrow> sql_client_event list \<times> unit" where
  "sql_client_handler ev s =
    (case ev of NetworkConnected confidence \<Rightarrow> ([SqlConnect confidence], s) | _ \<Rightarrow> ([], s))"

text \<open>The observer makes nothing of an event; the collector of pings keeps the default, which is the same.\<close>

definition observer_handler :: "'r base_event \<Rightarrow> unit \<Rightarrow> unit list \<times> unit" where
  "observer_handler ev s = ([], s)"

text \<open>
  The request-response server of \<^verbatim>\<open>request_server.rs\<close>: only a request becomes an event.
\<close>

datatype ('p, 'req, 'ch) request_response_event =
    RequestMessage 'p 'req 'ch
  | InboundFailure 'p string
  | OtherRequestResponse

definition request_server_handler ::
  "('p, 'req, 'ch) request_response_event \<Rightarrow> unit \<Rightarrow> ('p \<times> 'req \<times> 'ch) list \<times> unit" where
  "request_server_handler ev s =
    (case ev of
       RequestMessage peer request channel \<Rightarrow> ([(peer, request, channel)], s)
     | _ \<Rightarrow> ([], s))"

section \<open>The task\<close>

record ('s, 'ie, 'e, 'c) actor_task =
  at_behaviour :: "('s \<times> ('ie, 'c) swarm_command list, 'e, 'c) wrapped"
  at_events :: "'e channel"
  at_cancelled :: bool
  at_stopped :: bool

definition actor_start :: "nat \<Rightarrow> 's \<Rightarrow> ('s, 'ie, 'e, 'c) actor_task" where
  "actor_start queue_size s =
    \<lparr>at_behaviour = wrapped_from (s, []), at_events = new_queue queue_size, at_cancelled = False,
     at_stopped = False\<rparr>"

definition task_on_event :: "'e \<Rightarrow> ('s, 'ie, 'e, 'c) actor_task \<Rightarrow> ('s, 'ie, 'e, 'c) actor_task" where
  "task_on_event ev t = t\<lparr>at_events := queue_send_lossy ev (at_events t)\<rparr>"

definition task_tick :: "('s \<Rightarrow> 's) \<Rightarrow> ('s, 'ie, 'e, 'c) actor_task \<Rightarrow> ('s, 'ie, 'e, 'c) actor_task" where
  "task_tick tick t =
    (let w = at_behaviour t in
     t\<lparr>at_behaviour := w\<lparr>wp_wrapper := (tick (fst (wp_wrapper w)), snd (wp_wrapper w))\<rparr>\<rparr>)"

text \<open>
  What has happened so far: the inner commands made ready, the inputs the behaviour has handled (a
  command of the inner behaviour, or a tick), the events it generated, those that found the queue full,
  and those the reader received.
\<close>

record ('ie, 'e, 'c) task_history =
  hi_inner :: "('ie, 'c) swarm_command list"
  hi_handled :: "('ie, 'c) swarm_command option list"
  hi_generated :: "'e list"
  hi_dropped :: nat
  hi_received :: "'e list"

definition history_start :: "('ie, 'e, 'c) task_history" where
  "history_start = \<lparr>hi_inner = [], hi_handled = [], hi_generated = [], hi_dropped = 0, hi_received = []\<rparr>"

text \<open>
  One turn of the loop takes a tick, an answer of the swarm, or the cancellation. A poll of the swarm
  handles some of the ready commands, \<open>handled\<close>.
\<close>

inductive task_step ::
  "('f \<Rightarrow> ('ie, 'c) swarm_command list) \<Rightarrow> ('ie \<Rightarrow> 's \<Rightarrow> 'e list \<times> 's) \<Rightarrow> ('s \<Rightarrow> 's) \<Rightarrow>
    ('s, 'ie, 'e, 'c) actor_task \<times> ('ie, 'e, 'c) task_history \<Rightarrow>
    ('s, 'ie, 'e, 'c) actor_task \<times> ('ie, 'e, 'c) task_history \<Rightarrow> bool"
  for react :: "'f \<Rightarrow> ('ie, 'c) swarm_command list" and handler :: "'ie \<Rightarrow> 's \<Rightarrow> 'e list \<times> 's" and tick :: "'s \<Rightarrow> 's"
where
  swarm_event: "task_step react handler tick (t, h)
    (t\<lparr>at_behaviour := wrapped_on_swarm_event (actor_wrapper react handler) ev (at_behaviour t)\<rparr>,
     h\<lparr>hi_inner := hi_inner h @ react ev\<rparr>)"
| polled: "\<not> at_stopped t \<Longrightarrow>
    wrapped_poll (actor_wrapper react handler) (at_behaviour t) = Some (out, w') \<Longrightarrow>
    snd (wp_wrapper (at_behaviour t)) = handled @ snd (wp_wrapper w') \<Longrightarrow>
    t1 = t\<lparr>at_behaviour := w'\<rparr> \<Longrightarrow> h1 = h\<lparr>hi_handled := hi_handled h @ map Some handled\<rparr> \<Longrightarrow>
    task_step react handler tick (t, h)
      (case out of
         Ready (Generate ev) \<Rightarrow>
           (task_on_event ev t1,
            h1\<lparr>hi_generated := hi_generated h @ [ev],
               hi_dropped := hi_dropped h +
                 (if length (ch_items (at_events t)) < ch_capacity (at_events t) then 0 else 1)\<rparr>)
       | _ \<Rightarrow> (t1, h1))"
| ticked: "\<not> at_stopped t \<Longrightarrow>
    task_step react handler tick (t, h) (task_tick tick t, h\<lparr>hi_handled := hi_handled h @ [None]\<rparr>)"
| receive: "queue_recv (at_events t) = (Some ev, ch) \<Longrightarrow>
    task_step react handler tick (t, h) (t\<lparr>at_events := ch\<rparr>, h\<lparr>hi_received := hi_received h @ [ev]\<rparr>)"
| cancel: "task_step react handler tick (t, h) (t\<lparr>at_cancelled := True\<rparr>, h)"
| stop: "at_cancelled t \<Longrightarrow> task_step react handler tick (t, h) (t\<lparr>at_stopped := True\<rparr>, h)"

inductive task_reachable ::
  "('f \<Rightarrow> ('ie, 'c) swarm_command list) \<Rightarrow> ('ie \<Rightarrow> 's \<Rightarrow> 'e list \<times> 's) \<Rightarrow> ('s \<Rightarrow> 's) \<Rightarrow> nat \<Rightarrow> 's \<Rightarrow>
    ('s, 'ie, 'e, 'c) actor_task \<times> ('ie, 'e, 'c) task_history \<Rightarrow> bool"
  for react :: "'f \<Rightarrow> ('ie, 'c) swarm_command list" and handler :: "'ie \<Rightarrow> 's \<Rightarrow> 'e list \<times> 's" and tick :: "'s \<Rightarrow> 's"
    and queue_size :: nat and s0 :: 's
where
  start: "task_reachable react handler tick queue_size s0 (actor_start queue_size s0, history_start)"
| step: "task_reachable react handler tick queue_size s0 x \<Longrightarrow> task_step react handler tick x y \<Longrightarrow>
    task_reachable react handler tick queue_size s0 y"

section \<open>What a run of inputs amounts to\<close>

primrec inputs_run ::
  "('ie \<Rightarrow> 's \<Rightarrow> 'e list \<times> 's) \<Rightarrow> ('s \<Rightarrow> 's) \<Rightarrow> ('ie, 'c) swarm_command option list \<Rightarrow> 's \<Rightarrow>
    ('e, 'c) swarm_command list \<times> 's"
where
  "inputs_run handler tick [] s = ([], s)"
| "inputs_run handler tick (i # is) s =
    (case i of
       None \<Rightarrow> inputs_run handler tick is (tick s)
     | Some c \<Rightarrow>
         (case actor_outputs handler [c] s of (out, s) \<Rightarrow>
            (case inputs_run handler tick is s of (outs, s) \<Rightarrow> (out @ outs, s))))"

lemma inputs_run_append:
  "inputs_run handler tick (is @ js) s =
    (fst (inputs_run handler tick is s) @ fst (inputs_run handler tick js (snd (inputs_run handler tick is s))),
     snd (inputs_run handler tick js (snd (inputs_run handler tick is s))))"
  by (induction "is" arbitrary: s) (auto split: option.splits prod.splits)

lemma inputs_run_commands: "inputs_run handler tick (map Some q) s = actor_outputs handler q s"
  by (induction q arbitrary: s) (auto split: swarm_command.splits prod.splits)

primrec event_of :: "('e, 'c) swarm_command \<Rightarrow> 'e option" where
  "event_of (Generate ev) = Some ev"
| "event_of (Forward c) = None"

definition events_of :: "('e, 'c) swarm_command list \<Rightarrow> 'e list" where
  "events_of outs = List.map_filter event_of outs"

lemma events_of_simps [simp]:
  "events_of [] = []" "events_of (Generate ev # outs) = ev # events_of outs"
  "events_of (Forward c # outs) = events_of outs" "events_of (xs @ ys) = events_of xs @ events_of ys"
  by (simp_all add: events_of_def List.map_filter_simps map_filter_def)

section \<open>One poll\<close>

lemma actor_poll_run:
  assumes "poll_run (actor_wrapper react handler) w batches out w'"
  shows "\<exists>handled. snd (wp_wrapper w) = handled @ snd (wp_wrapper w') \<and>
    fst (wp_wrapper w') = snd (actor_outputs handler handled (fst (wp_wrapper w))) \<and>
    wp_pending_events w @ fst (actor_outputs handler handled (fst (wp_wrapper w))) =
      delivered out @ wp_pending_events w'"
  using assms
proof (induction rule: poll_run.induct)
  case (pop t ev evs)
  show ?case
    by (intro exI [of _ "[]"]) (simp add: delivered_def)
next
  case (from_inner t t1 cmd t2 evs t3 batches out w')
  obtain s q where t: "t = (s, q)"
    by fastforce
  then obtain q2 where q: "q = cmd # q2" "t2 = (s, q2)"
    using from_inner(1,2) by (auto simp: actor_inner_cases split: list.splits)
  from from_inner(5) obtain handled where
    IH: "snd t3 = handled @ snd (wp_wrapper w')" "fst (wp_wrapper w') = snd (actor_outputs handler handled (fst t3))"
      "evs @ fst (actor_outputs handler handled (fst t3)) = delivered out @ wp_pending_events w'"
    by auto
  have c: "snd t3 = q2" "actor_outputs handler (cmd # handled) s =
      (evs @ fst (actor_outputs handler handled (fst t3)), snd (actor_outputs handler handled (fst t3)))"
    using from_inner(3) by (cases cmd; force simp: q(2) case_prod_unfold)+
  show ?case
    using IH c q t by (intro exI [of _ "cmd # handled"]) simp
next
  case (idle t t1 t2)
  then show ?case
    by (intro exI [of _ "[]"]) (cases t; auto simp: delivered_def actor_inner_cases split: list.splits)
qed simp

text \<open>
  The state of a task against its history: every command made ready is handled or still there; the events
  generated are, in order, those the handled inputs produce, up to what is still queued in the behaviour;
  and the reader gets them in order, all of them unless one found the queue full.
\<close>

definition task_inv ::
  "('ie \<Rightarrow> 's \<Rightarrow> 'e list \<times> 's) \<Rightarrow> ('s \<Rightarrow> 's) \<Rightarrow> 's \<Rightarrow>
    ('s, 'ie, 'e, 'c) actor_task \<times> ('ie, 'e, 'c) task_history \<Rightarrow> bool" where
  "task_inv handler tick s0 = (\<lambda>(t, h).
    List.map_filter (\<lambda>i. i) (hi_handled h) @ snd (wp_wrapper (at_behaviour t)) = hi_inner h \<and>
    fst (wp_wrapper (at_behaviour t)) = snd (inputs_run handler tick (hi_handled h) s0) \<and>
    events_of (fst (inputs_run handler tick (hi_handled h) s0)) =
      hi_generated h @ events_of (wp_pending_events (at_behaviour t)) \<and>
    subseq (hi_received h @ ch_items (at_events t)) (hi_generated h) \<and>
    (hi_dropped h = 0 \<longrightarrow> hi_received h @ ch_items (at_events t) = hi_generated h) \<and>
    \<not> ch_closed (at_events t))"

lemma map_filter_Some [simp]: "List.map_filter (\<lambda>i. i) (map Some xs) = xs"
  by (induction xs) (simp_all add: List.map_filter_simps)

declare map_filter_append [simp]

lemma task_inv_polled:
  assumes "task_inv handler tick s0 (t, h)"
    and "wrapped_poll (actor_wrapper react handler) (at_behaviour t) = Some (out, w')"
    and "snd (wp_wrapper (at_behaviour t)) = handled @ snd (wp_wrapper w')"
  shows "List.map_filter (\<lambda>i. i) (hi_handled h @ map Some handled) @ snd (wp_wrapper w') = hi_inner h"
    and "fst (wp_wrapper w') = snd (inputs_run handler tick (hi_handled h @ map Some handled) s0)"
    and "events_of (fst (inputs_run handler tick (hi_handled h @ map Some handled) s0)) =
      hi_generated h @ events_of (delivered out) @ events_of (wp_pending_events w')"
proof -
  obtain batches where "poll_run (actor_wrapper react handler) (at_behaviour t) batches out w'"
    using poll_poll_run [OF assms(2)] by blast
  from actor_poll_run [OF this] assms(3) have
    step: "fst (wp_wrapper w') = snd (actor_outputs handler handled (fst (wp_wrapper (at_behaviour t))))"
      "wp_pending_events (at_behaviour t) @ fst (actor_outputs handler handled (fst (wp_wrapper (at_behaviour t)))) =
        delivered out @ wp_pending_events w'"
    by auto
  from arg_cong [OF step(2), of events_of] step(1) assms(1,3)
  show "List.map_filter (\<lambda>i. i) (hi_handled h @ map Some handled) @ snd (wp_wrapper w') = hi_inner h"
    "fst (wp_wrapper w') = snd (inputs_run handler tick (hi_handled h @ map Some handled) s0)"
    "events_of (fst (inputs_run handler tick (hi_handled h @ map Some handled) s0)) =
      hi_generated h @ events_of (delivered out) @ events_of (wp_pending_events w')"
    by (simp_all add: task_inv_def inputs_run_append inputs_run_commands)
qed

lemma send_lossy_items:
  "\<not> ch_closed q \<Longrightarrow> queue_send_lossy ev q =
    (if length (ch_items q) < ch_capacity q then q\<lparr>ch_items := ch_items q @ [ev]\<rparr> else q)"
  by (simp add: queue_send_lossy_def queue_try_send_def channel_try_send_def)

lemma task_inv_step:
  assumes "task_step react handler tick x y" "task_inv handler tick s0 x"
  shows "task_inv handler tick s0 y"
  using assms
proof (cases rule: task_step.cases)
  case (swarm_event t h ev)
  then show ?thesis
    using assms(2)
    by (auto simp: task_inv_def wrapped_on_swarm_event_def actor_wrapper_def Let_def case_prod_unfold)
next
  case (polled t out w' handled t1 h1 h)
  note after = task_inv_polled [OF assms(2) [unfolded polled(1)] polled(4,5)]
  show ?thesis
  proof (cases "\<exists>ev. out = Ready (Generate ev)")
    case True
    then obtain ev where out: "out = Ready (Generate ev)"
      by blast
    have open': "\<not> ch_closed (at_events t)"
      using assms(2) polled(1) by (simp add: task_inv_def)
    have sub: "subseq (hi_received h @ ch_items (at_events t)) (hi_generated h)"
      using assms(2) polled(1) by (simp add: task_inv_def)
    have "subseq (hi_received h @ ch_items (at_events t) @ [ev]) (hi_generated h @ [ev])"
      "subseq (hi_received h @ ch_items (at_events t)) (hi_generated h @ [ev])"
      using list_emb_append_mono [OF sub, of "[ev]" "[ev]"] list_emb_append_mono [OF sub, of "[]" "[ev]"]
      by simp_all
    then show ?thesis
      using assms(2) after open' unfolding polled(1,2,6,7) out task_inv_def
      by (auto simp: task_on_event_def send_lossy_items delivered_def)
  next
    case False
    then have "events_of (delivered out) = []" "y = (t1, h1)"
      using polled(2) by (auto simp: delivered_def split: poll.splits swarm_command.splits)
    then show ?thesis
      using assms(2) after unfolding polled(1,6,7) task_inv_def by auto
  qed
next
  case (ticked t h)
  then show ?thesis
    using assms(2) by (auto simp: task_inv_def task_tick_def Let_def inputs_run_append List.map_filter_simps)
next
  case (receive t ev ch h)
  then show ?thesis
    using assms(2) by (auto simp: task_inv_def queue_recv_def split: list.splits)
qed (use assms(2) in \<open>auto simp: task_inv_def\<close>)

lemma task_inv_reachable:
  "task_reachable react handler tick queue_size s0 x \<Longrightarrow> task_inv handler tick s0 x"
proof (induction rule: task_reachable.induct)
  case start
  show ?case
    by (simp add: task_inv_def actor_start_def history_start_def wrapped_from_def new_queue_def List.map_filter_simps)
next
  case (step x y)
  then show ?case
    by (blast intro: task_inv_step)
qed

text \<open>
  C5: What an application receives from an actor is what the actor's handler made of the inner events, in
  order. In every state the loop, the queue and the reader can reach together, in any interleaving with
  ticks and cancellation: the inner commands handled so far are the first of those made ready, in order;
  the events generated are those the handler produces from them, threading its state, up to the ones the
  behaviour still queues; the reader has received a subsequence of them and the queue holds the next; and
  if no event found the queue full, the reader has received exactly the first ones and the queue holds
  all the rest.
\<close>
theorem actor_events_delivered:
  assumes "task_reachable react handler tick queue_size s0 (t, h)"
  shows "List.map_filter (\<lambda>i. i) (hi_handled h) @ snd (wp_wrapper (at_behaviour t)) = hi_inner h \<and>
    fst (wp_wrapper (at_behaviour t)) = snd (inputs_run handler tick (hi_handled h) s0) \<and>
    events_of (fst (inputs_run handler tick (hi_handled h) s0)) =
      hi_generated h @ events_of (wp_pending_events (at_behaviour t)) \<and>
    subseq (hi_received h @ ch_items (at_events t)) (hi_generated h) \<and>
    (hi_dropped h = 0 \<longrightarrow> hi_received h @ ch_items (at_events t) = hi_generated h)"
  using task_inv_reachable [OF assms] by (simp add: task_inv_def)

text \<open>A status request that arrives together with a dial of the inner behaviour, and is received.\<close>

definition sample_sender :: response_sender where
  "sample_sender = \<lparr>rs_max_response_size = 10, rs_write_timeout = 5\<rparr>"

definition sample_arrival :: "((nat, unit) worker_inner_event, nat) swarm_command list" where
  "sample_arrival =
    [Generate (InnerBase (NetworkConnected 1)),
     Generate (InnerStatus \<lparr>rq_peer_id = 4, rq_request = [], rq_response_sender = sample_sender\<rparr>), Forward 7]"

definition sample_task ::
  "(unit, (nat, unit) worker_inner_event, nat worker_event, nat) actor_task" where
  "sample_task =
    \<lparr>at_behaviour = \<lparr>wp_wrapper = ((), [Forward 7]), wp_pending_events = []\<rparr>,
     at_events = new_queue 1, at_cancelled = False, at_stopped = False\<rparr>"

definition sample_history ::
  "((nat, unit) worker_inner_event, nat worker_event, nat) task_history" where
  "sample_history =
    \<lparr>hi_inner = sample_arrival, hi_handled = map Some (take 2 sample_arrival),
     hi_generated = [StatusRequest 4 sample_sender], hi_dropped = 0,
     hi_received = [StatusRequest 4 sample_sender]\<rparr>"

lemma sample_poll:
  "wrapped_poll (actor_wrapper (\<lambda>ev. ev) worker_handler)
     \<lparr>wp_wrapper = ((), sample_arrival), wp_pending_events = []\<rparr> =
   Some (Ready (Generate (StatusRequest 4 sample_sender)),
     \<lparr>wp_wrapper = ((), [Forward 7]), wp_pending_events = []\<rparr>)"
  by (subst wrapped_poll.simps, simp add: sample_arrival_def worker_handler_def option_list_def)
    (subst wrapped_poll.simps, simp add: worker_handler_def option_list_def on_status_request_def,
     subst wrapped_poll.simps, simp)

lemma sample_task_reachable:
  "task_reachable (\<lambda>ev. ev) worker_handler (\<lambda>s. s) 1 () (sample_task, sample_history)"
proof -
  let ?R = "task_reachable (\<lambda>ev. ev) worker_handler (\<lambda>s. s) 1 ()"
  let ?w = "\<lparr>wp_wrapper = ((), sample_arrival), wp_pending_events = []\<rparr>"
  let ?t = "(actor_start 1 ())\<lparr>at_behaviour := ?w\<rparr>" and ?h = "history_start\<lparr>hi_inner := sample_arrival\<rparr>"
  have "?R (?t, ?h)"
    using task_reachable.step [OF task_reachable.start task_step.swarm_event [of _ _ _ _ _ sample_arrival]]
    by (simp add: actor_start_def history_start_def wrapped_from_def wrapped_on_swarm_event_def actor_wrapper_def)
  from task_reachable.step [OF this task_step.polled [OF _ _ _ refl refl, where handled = "take 2 sample_arrival"]]
  have "?R (task_on_event (StatusRequest 4 sample_sender) (?t\<lparr>at_behaviour := at_behaviour sample_task\<rparr>),
      sample_history\<lparr>hi_received := []\<rparr>)"
    by (simp add: sample_poll sample_task_def sample_history_def history_start_def actor_start_def
        new_queue_def) (simp add: sample_arrival_def)
  from task_reachable.step [OF this task_step.receive]
  show ?thesis
    by (simp add: task_on_event_def actor_start_def sample_task_def sample_history_def queue_recv_def new_queue_def
        send_lossy_items)
qed

theorem actor_events_delivered_witness:
  "hi_received sample_history = [StatusRequest 4 sample_sender] \<and>
   subseq (hi_received sample_history @ ch_items (at_events sample_task)) (hi_generated sample_history) \<and>
   events_of (fst (inputs_run worker_handler (\<lambda>s. s) (hi_handled sample_history) ())) =
     hi_generated sample_history @ events_of (wp_pending_events (at_behaviour sample_task))"
  using actor_events_delivered [OF sample_task_reachable] by (simp add: sample_history_def)

section \<open>The portal's listeners\<close>

text \<open>The reader of the portal's queue stores every list it receives, so the last one counts.\<close>

definition log_listeners :: "('ie, 'p set, 'c) task_history \<Rightarrow> 'p set" where
  "log_listeners h = fold (\<lambda>listeners _. listeners) (hi_received h) {}"

lemma log_listeners_last: "log_listeners h = (if hi_received h = [] then {} else last (hi_received h))"
  by (cases "hi_received h" rule: rev_cases) (simp_all add: log_listeners_def)

text \<open>So the listeners a portal sends its logs to are always a list one of its lookups ended with.\<close>

lemma log_listeners_reported:
  assumes "task_reachable react portal_handler tick queue_size s0 (t, h)"
  shows "log_listeners h = {} \<or> log_listeners h \<in> set (hi_generated h)"
proof -
  have "subseq (hi_received h @ ch_items (at_events t)) (hi_generated h)"
    using task_inv_reachable [OF assms] by (simp add: task_inv_def)
  then have "set (hi_received h) \<subseteq> set (hi_generated h)"
    by (auto elim!: list_emb_set [of _ _ _ x for x])
  then show ?thesis
    using last_in_set [of "hi_received h"] by (auto simp only: log_listeners_last split: if_splits)
qed

end
