(* ===== verification/Transport_Setup.thy ===== *)
theory Transport_Setup
  imports Actor_Tasks
begin

text \<open>
  Starting a node: the boot node argument (\<^verbatim>\<open>crates/transport/src/cli.rs\<close>), the configuration and agent
  string (\<^verbatim>\<open>lib.rs\<close>), the key file (\<^verbatim>\<open>util.rs\<close>, and \<^verbatim>\<open>keygen\<close>, which is nothing else), the builder
  (\<^verbatim>\<open>builder.rs\<close>) with the wait of a worker for its registration, and the task manager
  (\<^verbatim>\<open>util/task_manager.rs\<close>). Files, clocks and the swarm are parameters.
\<close>

section \<open>Boot nodes\<close>

text \<open>
  \<^verbatim>\<open>split_whitespace\<close> over the bytes of a string: the length of the white space character at the
  front, 0 if there is none. The longer ones are the encodings of the Unicode white space; their first
  bytes begin no other kind of sequence inside a character.
\<close>

fun ws_len :: "nat list \<Rightarrow> nat" where
  "ws_len (a # b # c # bs) =
    (if a \<in> {9, 10, 11, 12, 13, 32} then 1
     else if a = 0xC2 \<and> b \<in> {0x85, 0xA0} then 2
     else if a = 0xE1 \<and> b = 0x9A \<and> c = 0x80 then 3
     else if a = 0xE2 \<and> b = 0x80 \<and> (0x80 \<le> c \<and> c \<le> 0x8A \<or> c \<in> {0xA8, 0xA9, 0xAF}) then 3
     else if a = 0xE2 \<and> b = 0x81 \<and> c = 0x9F then 3
     else if a = 0xE3 \<and> b = 0x80 \<and> c = 0x80 then 3
     else 0)"
| "ws_len [a, b] =
    (if a \<in> {9, 10, 11, 12, 13, 32} then 1 else if a = 0xC2 \<and> b \<in> {0x85, 0xA0} then 2 else 0)"
| "ws_len [a] = (if a \<in> {9, 10, 11, 12, 13, 32} then 1 else 0)"
| "ws_len [] = 0"

definition ws_at :: "string \<Rightarrow> nat" where
  "ws_at s = ws_len (map of_char (take 3 s))"

definition flush_word :: "string \<Rightarrow> string list" where
  "flush_word word = (if word = [] then [] else [word])"

function split_words :: "string \<Rightarrow> string \<Rightarrow> string list" where
  "split_words word s =
    (if s = [] then flush_word word
     else if ws_at s > 0 then flush_word word @ split_words [] (drop (ws_at s) s)
     else split_words (word @ [hd s]) (tl s))"
  by pat_completeness auto
termination
  by (relation "measure (\<lambda>(word, s). length s)") auto

declare split_words.simps [simp del]

definition split_whitespace :: "string \<Rightarrow> string list" where
  "split_whitespace s = split_words [] s"

record ('p, 'a) boot_node =
  bn_peer_id :: 'p
  bn_address :: 'a

text \<open>Further words are ignored.\<close>

definition boot_node_from_str ::
  "(string \<Rightarrow> 'p option) \<Rightarrow> (string \<Rightarrow> 'a option) \<Rightarrow> string \<Rightarrow> (string, ('p, 'a) boot_node) result" where
  "boot_node_from_str parse_peer parse_addr s =
    (case split_whitespace s of
       [] \<Rightarrow> Err ''Boot node peer ID missing''
     | p # parts \<Rightarrow>
         (case parse_peer p of
            None \<Rightarrow> Err ''Invalid peer ID''
          | Some peer_id \<Rightarrow>
              (case parts of
                 [] \<Rightarrow> Err ''Boot node address missing''
               | a # _ \<Rightarrow>
                   (case parse_addr a of
                      None \<Rightarrow> Err ''Invalid address''
                    | Some address \<Rightarrow> Ok \<lparr>bn_peer_id = peer_id, bn_address = address\<rparr>))))"

text \<open>A word: no white space begins anywhere in it, whatever follows.\<close>

definition is_word :: "string \<Rightarrow> bool" where
  "is_word w = (w \<noteq> [] \<and> (\<forall>rest. \<forall>i < length w. ws_at (drop i (w @ rest)) = 0))"

lemma split_words_skip:
  assumes "\<forall>i < length w. ws_at (drop i (w @ rest)) = 0"
  shows "split_words word (w @ rest) = split_words (word @ w) rest"
  using assms
proof (induction w arbitrary: word)
  case (Cons c w)
  have "ws_at (c # w @ rest) = 0"
    using Cons.prems by force
  moreover have "\<forall>i < length w. ws_at (drop i (w @ rest)) = 0"
    using Cons.prems by force
  ultimately show ?case
    using Cons.IH [of "word @ [c]"] by (subst split_words.simps) simp
qed simp

lemma ws_at_space [simp]: "ws_at (CHR '' '' # s) = 1"
  by (cases s; cases "tl s") (simp_all add: ws_at_def)

lemma split_two_words:
  assumes "is_word p" "is_word a"
  shows "split_whitespace (p @ '' '' @ a) = [p, a]"
proof -
  have "split_words [] (p @ '' '' @ a) = split_words p ('' '' @ a)"
    using split_words_skip [of p "'' '' @ a" "[]"] assms(1) by (simp add: is_word_def)
  also have "\<dots> = p # split_words [] a"
    using assms(1) by (subst split_words.simps) (simp add: is_word_def flush_word_def)
  also have "split_words [] a = [a]"
    using split_words_skip [of a "[]" "[]"] assms(2) split_words.simps [of a "[]"]
    by (fastforce simp: is_word_def flush_word_def dest: spec [of _ "[]"])
  finally show ?thesis
    by (simp add: split_whitespace_def)
qed

text \<open>So the documented form of the argument is read back, for a peer id and an address that parse.\<close>

lemma boot_node_roundtrip:
  assumes "is_word p" "is_word a" "parse_peer p = Some peer_id" "parse_addr a = Some address"
  shows "boot_node_from_str parse_peer parse_addr (p @ '' '' @ a) =
    Ok \<lparr>bn_peer_id = peer_id, bn_address = address\<rparr>"
  using split_two_words [OF assms(1,2)] assms(3,4) by (simp add: boot_node_from_str_def)

section \<open>Configuration\<close>

record transport_config =
  tc_mtu_discovery_max :: u16
  tc_keep_alive_interval_ms :: u32
  tc_max_idle_timeout_ms :: u32
  tc_idle_connection_timeout_ms :: u32

text \<open>\<^verbatim>\<open>parse\<close> of a shorter unsigned integer: the same text, with a smaller range.\<close>

definition parse_u16 :: "string \<Rightarrow> u16 option" where
  "parse_u16 s = (case parse_u64 s of None \<Rightarrow> None | Some x \<Rightarrow> if unat x < 2 ^ 16 then Some (ucast x) else None)"

definition parse_u32 :: "string \<Rightarrow> u32 option" where
  "parse_u32 s = (case parse_u64 s of None \<Rightarrow> None | Some x \<Rightarrow> if unat x < 2 ^ 32 then Some (ucast x) else None)"

definition transport_config_from_env :: "(string \<Rightarrow> string option) \<Rightarrow> transport_config" where
  "transport_config_from_env env =
    \<lparr>tc_mtu_discovery_max = parse_env_var env parse_u16 ''MTU_DISCOVERY_MAX'' 1452,
     tc_keep_alive_interval_ms = parse_env_var env parse_u32 ''KEEP_ALIVE_INTERVAL_MS'' 5000,
     tc_max_idle_timeout_ms = parse_env_var env parse_u32 ''MAX_IDLE_TIMEOUT_MS'' 60000,
     tc_idle_connection_timeout_ms = parse_env_var env parse_u32 ''IDLE_CONNECTION_TIMEOUT_MS'' 120000\<rparr>"

record agent_info =
  ai_name :: string
  ai_version :: string

definition agent_info_display :: "agent_info \<Rightarrow> string" where
  "agent_info_display a = ai_name a @ ''/'' @ ai_version a"

section \<open>The key file\<close>

datatype fs_entry = RegularFile "u8 list" | NotAFile

text \<open>The files by path, and the paths whose content can be read or written.\<close>

record file_system =
  fs_entries :: "string \<rightharpoonup> fs_entry"
  fs_readable :: "string \<Rightarrow> bool"
  fs_writable :: "string \<Rightarrow> bool"

record ('key, 'rng) key_ops =
  ko_generate :: "'rng \<Rightarrow> 'key \<times> 'rng"
  ko_to_bytes :: "'key \<Rightarrow> u8 list"
  ko_from_bytes :: "u8 list \<Rightarrow> 'key option"

text \<open>Without a path the key is not stored.\<close>

definition get_keypair ::
  "('key, 'rng) key_ops \<Rightarrow> string option \<Rightarrow> 'rng \<times> file_system \<Rightarrow> (string, 'key) result \<times> 'rng \<times> file_system" where
  "get_keypair ops path_opt st =
    (case st of (rng, fs) \<Rightarrow>
     case path_opt of
       None \<Rightarrow> (case ko_generate ops rng of (key, rng') \<Rightarrow> (Ok key, rng', fs))
     | Some path \<Rightarrow>
         (case fs_entries fs path of
            Some (RegularFile content) \<Rightarrow>
              if \<not> fs_readable fs path then (Err ''io error'', rng, fs)
              else (case ko_from_bytes ops content of
                      Some key \<Rightarrow> (Ok key, rng, fs)
                    | None \<Rightarrow> (Err ''invalid key'', rng, fs))
          | Some NotAFile \<Rightarrow> (Err ''Path exists and is not a file'', rng, fs)
          | None \<Rightarrow>
              (case ko_generate ops rng of
                 (key, rng') \<Rightarrow>
                   if \<not> fs_writable fs path then (Err ''io error'', rng', fs)
                   else (Ok key, rng',
                     fs\<lparr>fs_entries := (fs_entries fs)(path \<mapsto> RegularFile (ko_to_bytes ops key))\<rparr>))))"

text \<open>
  A node keeps its identity: once a key was returned for a path, every later start reads the same key,
  and a stored key is never overwritten.
\<close>

lemma get_keypair_stable:
  assumes "get_keypair ops (Some path) (rng, fs) = (Ok key, rng1, fs1)"
    and "\<And>k. ko_from_bytes ops (ko_to_bytes ops k) = Some k" "fs_readable fs path"
  shows "get_keypair ops (Some path) (rng', fs1) = (Ok key, rng', fs1)"
  using assms
  by (auto simp: get_keypair_def split: option.splits fs_entry.splits prod.splits if_splits)

lemma get_keypair_keeps:
  assumes "get_keypair ops path (rng, fs) = (r, rng1, fs1)" "fs_entries fs q = Some e"
  shows "fs_entries fs1 q = Some e"
  using assms
  by (auto simp: get_keypair_def split: option.splits fs_entry.splits prod.splits if_splits)

text \<open>The key generator is this call, and prints the peer id of the key.\<close>

definition keygen_main ::
  "('key, 'rng) key_ops \<Rightarrow> ('key \<Rightarrow> string) \<Rightarrow> string \<Rightarrow> 'rng \<times> file_system \<Rightarrow>
    (string, string) result \<times> 'rng \<times> file_system" where
  "keygen_main ops peer_id_of filename st =
    (case get_keypair ops (Some filename) st of
       (Ok keypair, st') \<Rightarrow> (Ok (peer_id_of keypair), st')
     | (Err e, st') \<Rightarrow> (Err e, st'))"

section \<open>The builder\<close>

datatype transport_error =
    TransportFailed string
  | ListenFailed string
  | DialFailed string
  | ContractFailed client_error

record ('p, 'a) transport_args =
  ta_key :: string
  ta_p2p_listen_addrs :: "'a list"
  ta_p2p_public_addrs :: "'a list"
  ta_boot_nodes :: "('p, 'a) boot_node list"
  ta_rpc :: rpc_args

record ('key, 'p, 'a, 'cc) transport_builder =
  tb_keypair :: 'key
  tb_listen_addrs :: "'a list"
  tb_public_addrs :: "'a list"
  tb_boot_nodes :: "('p, 'a) boot_node list"
  tb_transport_config :: transport_config
  tb_base_config :: base_config
  tb_contract_client :: 'cc
  tb_dht_protocol :: string
  tb_agent_info :: agent_info

text \<open>The base configuration panics when the address cache is configured to hold nothing.\<close>

definition builder_from_cli ::
  "(string \<Rightarrow> string option) \<Rightarrow> (string \<Rightarrow> nat option) \<Rightarrow> ('key, 'rng) key_ops \<Rightarrow>
    (rpc_args \<Rightarrow> 'cc call) \<Rightarrow> ('p, 'a) transport_args \<Rightarrow> agent_info \<Rightarrow> 'rng \<times> file_system \<Rightarrow>
    ((string + client_error, ('key, 'p, 'a, 'cc) transport_builder) result \<times> 'rng \<times> file_system) outcome"
where
  "builder_from_cli env parse ops client args agent st =
    (case get_keypair ops (Some (ta_key args)) st of
       (Err e, st') \<Rightarrow> Return (Err (Inl e), st')
     | (Ok keypair, st') \<Rightarrow>
         (case client (ta_rpc args) of
            Err e \<Rightarrow> Return (Err (Inr e), st')
          | Ok contract_client \<Rightarrow>
              outcome_map (\<lambda>base_config.
                (Ok \<lparr>tb_keypair = keypair,
                     tb_listen_addrs = ta_p2p_listen_addrs args,
                     tb_public_addrs = ta_p2p_public_addrs args,
                     tb_boot_nodes = ta_boot_nodes args,
                     tb_transport_config = transport_config_from_env env,
                     tb_base_config = base_config,
                     tb_contract_client = contract_client,
                     tb_dht_protocol = dht_protocol (ra_network (ta_rpc args)),
                     tb_agent_info = agent\<rparr>, st'))
                (base_config_from_env env parse MAX_PUBSUB_MSG_SIZE)))"

definition with_listen_addrs ::
  "'a list \<Rightarrow> ('key, 'p, 'a, 'cc) transport_builder \<Rightarrow> ('key, 'p, 'a, 'cc) transport_builder" where
  "with_listen_addrs addrs b = b\<lparr>tb_listen_addrs := tb_listen_addrs b @ addrs\<rparr>"

definition with_public_addrs ::
  "'a list \<Rightarrow> ('key, 'p, 'a, 'cc) transport_builder \<Rightarrow> ('key, 'p, 'a, 'cc) transport_builder" where
  "with_public_addrs addrs b = b\<lparr>tb_public_addrs := tb_public_addrs b @ addrs\<rparr>"

definition with_boot_nodes ::
  "('p, 'a) boot_node list \<Rightarrow> ('key, 'p, 'a, 'cc) transport_builder \<Rightarrow> ('key, 'p, 'a, 'cc) transport_builder" where
  "with_boot_nodes nodes b = b\<lparr>tb_boot_nodes := tb_boot_nodes b @ nodes\<rparr>"

definition with_transport_config ::
  "(transport_config \<Rightarrow> transport_config) \<Rightarrow> ('key, 'p, 'a, 'cc) transport_builder \<Rightarrow>
    ('key, 'p, 'a, 'cc) transport_builder" where
  "with_transport_config f b = b\<lparr>tb_transport_config := f (tb_transport_config b)\<rparr>"

definition with_base_config ::
  "(base_config \<Rightarrow> base_config) \<Rightarrow> ('key, 'p, 'a, 'cc) transport_builder \<Rightarrow>
    ('key, 'p, 'a, 'cc) transport_builder" where
  "with_base_config f b = b\<lparr>tb_base_config := f (tb_base_config b)\<rparr>"

text \<open>
  The calls on the swarm. \<open>sw_build\<close> builds it with the key, the QUIC and idle settings and a behaviour,
  and fails when the DNS configuration cannot be read. \<open>engine\<close> makes the engines of the base from the
  key, the DHT protocol and the agent.
\<close>

record ('sw, 't, 'key, 'p, 'a) swarm_ops =
  sw_build :: "'key \<Rightarrow> transport_config \<Rightarrow> 't \<Rightarrow> (string, 'sw) result"
  sw_listen_on :: "'a \<Rightarrow> 'sw \<Rightarrow> (string, 'sw) result"
  sw_add_external_address :: "'a \<Rightarrow> 'sw \<Rightarrow> 'sw"
  sw_dial :: "'p \<Rightarrow> 'a \<Rightarrow> 'sw \<Rightarrow> (string, 'sw) result"

fun result_fold :: "('x \<Rightarrow> 's \<Rightarrow> ('e, 's) result) \<Rightarrow> 'x list \<Rightarrow> 's \<Rightarrow> ('e, 's) result" where
  "result_fold f [] s = Ok s"
| "result_fold f (x # xs) s = (case f x s of Ok s' \<Rightarrow> result_fold f xs s' | Err e \<Rightarrow> Err e)"

definition boot_node_pairs :: "('p, 'a) boot_node list \<Rightarrow> ('p \<times> 'a) list" where
  "boot_node_pairs nodes = map (\<lambda>n. (bn_peer_id n, bn_address n)) nodes"

definition build_swarm ::
  "('c, 'k, 'p, 'a, 'q, 'l) base_env \<Rightarrow> ('sw, 't, 'key, 'p, 'a) swarm_ops \<Rightarrow>
    ('key \<Rightarrow> string \<Rightarrow> agent_info \<Rightarrow> 'k) \<Rightarrow> 'l \<Rightarrow>
    (('c, 'k, 'p, 'q, 'l, 'r) base \<Rightarrow> 't) \<Rightarrow> ('key, 'p, 'a, 'cc) transport_builder \<Rightarrow>
    (transport_error, 'sw) result"
where
  "build_swarm env ops engine allow behaviour b =
    (let base = base_new env (tb_base_config b)
           (engine (tb_keypair b) (tb_dht_protocol b) (tb_agent_info b)) allow
           (boot_node_pairs (tb_boot_nodes b))
     in case sw_build ops (tb_keypair b) (tb_transport_config b) (behaviour base) of
          Err e \<Rightarrow> Err (TransportFailed e)
        | Ok swarm \<Rightarrow>
            (case result_fold (sw_listen_on ops) (tb_listen_addrs b) swarm of
               Err e \<Rightarrow> Err (ListenFailed e)
             | Ok swarm \<Rightarrow>
                 (case result_fold (\<lambda>(peer_id, address). sw_dial ops peer_id address)
                     (boot_node_pairs (tb_boot_nodes b))
                     (fold (sw_add_external_address ops) (tb_public_addrs b) swarm) of
                    Err e \<Rightarrow> Err (DialFailed e)
                  | Ok swarm \<Rightarrow> Ok swarm)))"

text \<open>
  A built node has made every call it was configured for: whatever each call leaves in the swarm is there
  at the end, if later calls keep it.
\<close>

lemma result_fold_keeps:
  assumes "result_fold f xs s = Ok s'" "P s" "\<And>x s t. P s \<Longrightarrow> f x s = Ok t \<Longrightarrow> P t"
  shows "P s'"
  using assms(1,2)
proof (induction xs arbitrary: s)
  case (Cons y ys)
  then obtain t where "f y s = Ok t" "result_fold f ys t = Ok s'"
    by (auto split: result.splits)
  then show ?case
    using Cons.IH Cons.prems(2) assms(3) by blast
qed simp

lemma result_fold_each:
  assumes "result_fold f xs s = Ok s'" "x \<in> set xs" "\<And>s t. f x s = Ok t \<Longrightarrow> P t"
    and "\<And>y s t. P s \<Longrightarrow> f y s = Ok t \<Longrightarrow> P t"
  shows "P s'"
  using assms(1,2)
proof (induction xs arbitrary: s)
  case (Cons y ys)
  then obtain t where t: "f y s = Ok t" "result_fold f ys t = Ok s'"
    by (auto split: result.splits)
  show ?case
  proof (cases "x = y")
    case True
    then show ?thesis
      using result_fold_keeps [OF t(2), of P] assms(3,4) t(1) by blast
  next
    case False
    then show ?thesis
      using Cons.IH [OF t(2)] Cons.prems(2) by simp
  qed
qed simp

definition swarm_laws ::
  "('sw, 't, 'key, 'p, 'a) swarm_ops \<Rightarrow> ('sw \<Rightarrow> 'a set) \<Rightarrow> ('sw \<Rightarrow> 'a set) \<Rightarrow> ('sw \<Rightarrow> ('p \<times> 'a) set) \<Rightarrow> bool" where
  "swarm_laws ops listening external dials \<longleftrightarrow>
    (\<forall>a sw sw'. sw_listen_on ops a sw = Ok sw' \<longrightarrow> listening sw' = insert a (listening sw)) \<and>
    (\<forall>a sw. listening (sw_add_external_address ops a sw) = listening sw \<and>
       external (sw_add_external_address ops a sw) = insert a (external sw)) \<and>
    (\<forall>p a sw sw'. sw_dial ops p a sw = Ok sw' \<longrightarrow> listening sw' = listening sw \<and>
       external sw' = external sw \<and> dials sw' = insert (p, a) (dials sw))"

lemma fold_external:
  assumes "swarm_laws ops listening external dials"
  shows "listening (fold (sw_add_external_address ops) as sw) = listening sw \<and>
    external (fold (sw_add_external_address ops) as sw) = external sw \<union> set as"
  using assms by (induction as arbitrary: sw) (auto simp: swarm_laws_def)

theorem build_swarm_configured:
  assumes laws: "swarm_laws ops listening external dials"
    and built: "build_swarm env ops engine allow behaviour b = Ok swarm"
  shows "set (tb_listen_addrs b) \<subseteq> listening swarm \<and> set (tb_public_addrs b) \<subseteq> external swarm \<and>
    set (boot_node_pairs (tb_boot_nodes b)) \<subseteq> dials swarm"
proof -
  obtain sw0 sw1 where run: "result_fold (sw_listen_on ops) (tb_listen_addrs b) sw0 = Ok sw1"
    "result_fold (\<lambda>(peer_id, address). sw_dial ops peer_id address) (boot_node_pairs (tb_boot_nodes b))
      (fold (sw_add_external_address ops) (tb_public_addrs b) sw1) = Ok swarm"
    using built by (auto simp: build_swarm_def Let_def split: result.splits)
  let ?sw2 = "fold (sw_add_external_address ops) (tb_public_addrs b) sw1"
  have "a \<in> listening sw1" if "a \<in> set (tb_listen_addrs b)" for a
    using result_fold_each [OF run(1) that, of "\<lambda>sw. a \<in> listening sw"] laws by (auto simp: swarm_laws_def)
  moreover have "n \<in> dials swarm" if "n \<in> set (boot_node_pairs (tb_boot_nodes b))" for n
    using result_fold_each [OF run(2) that, of "\<lambda>sw. n \<in> dials sw"] laws
    by (auto simp: swarm_laws_def split: prod.splits)
  moreover have "listening swarm = listening ?sw2 \<and> external swarm = external ?sw2"
    by (rule result_fold_keeps [OF run(2)]) (use laws in \<open>auto simp: swarm_laws_def split: prod.splits\<close>)
  ultimately show ?thesis
    using fold_external [OF laws] by blast
qed

text \<open>The boot nodes are allowed from the start.\<close>

lemma boot_nodes_allowed:
  assumes "allow_laws (be_allow env) allowed"
  shows "allowed (wh_allow (bb_whitelist (base_new env cfg engine allow nodes))) = allowed allow \<union> fst ` set nodes"
proof -
  have "allowed (wh_allow (fold (\<lambda>(p, a). whitelist_allow_peer (be_allow env) p) nodes wh)) =
      allowed (wh_allow wh) \<union> fst ` set nodes" for wh
    using assms by (induction nodes arbitrary: wh) (auto simp: allow_laws_def whitelist_allow_peer_def)
  then show ?thesis
    by (simp add: base_new_def whitelist_new_def)
qed

text \<open>
  The wait of \<^verbatim>\<open>build_worker\<close>: \<open>registered t\<close> is what the contract client answers at second \<open>t\<close>, the
  registration time or none yet. The result is the time the swarm is built at. A registration time in
  the future counts as just now.
\<close>

partial_function (option) wait_registered ::
  "(nat \<Rightarrow> nat option call) \<Rightarrow> nat \<Rightarrow> nat \<Rightarrow> (transport_error, nat) result option" where
  "wait_registered registered interval now =
    (case registered now of
       Err e \<Rightarrow> Some (Err (ContractFailed e))
     | Ok None \<Rightarrow> wait_registered registered interval (now + 60)
     | Ok (Some reg_time) \<Rightarrow>
         let elapsed = now - reg_time
         in Some (Ok (if elapsed < interval then now + (interval - elapsed) else now)))"

lemma wait_registered_returns:
  assumes "\<forall>j < n. registered (now + 60 * j) = Ok None" "registered (now + 60 * n) = Ok (Some reg_time)"
    and "reg_time \<le> now + 60 * n"
  shows "wait_registered registered interval now = Some (Ok (max (now + 60 * n) (reg_time + interval)))"
  using assms
proof (induction n arbitrary: now)
  case 0
  then show ?case
    by (subst wait_registered.simps) (auto simp: Let_def)
next
  case (Suc n)
  have "registered (now + 60) = Ok None" if "0 < n"
    using Suc.prems(1)[rule_format, of 1] that by simp
  moreover have "registered (now + 60 + 60 * j) = Ok None" if "j < n" for j
    using Suc.prems(1)[rule_format, of "Suc j"] that by (simp add: algebra_simps)
  ultimately have "wait_registered registered interval (now + 60) =
      Some (Ok (max (now + 60 + 60 * n) (reg_time + interval)))"
    using Suc.IH [of "now + 60"] Suc.prems(2,3) by (simp add: algebra_simps)
  moreover have "registered now = Ok None"
    using Suc.prems(1)[rule_format, of 0] by simp
  ultimately show ?case
    by (subst wait_registered.simps) (simp add: algebra_simps)
qed

section \<open>The task manager\<close>

text \<open>A task is the state it was spawned in; a finished task is joined, a late one is given up.\<close>

record 'task task_manager =
  tm_shutdown_timeout :: nat
  tm_cancelled :: bool
  tm_tasks :: "'task list"

definition task_manager_new :: "bool \<Rightarrow> nat \<Rightarrow> 'task task_manager outcome" where
  "task_manager_new current_thread shutdown_timeout =
    (if current_thread then Panic ''Current thread runtime not supported''
     else Return \<lparr>tm_shutdown_timeout = shutdown_timeout, tm_cancelled = False, tm_tasks = []\<rparr>)"

definition spawn :: "'task \<Rightarrow> 'task task_manager \<Rightarrow> 'task task_manager outcome" where
  "spawn task m =
    (if tm_cancelled m then Panic ''assertion failed: !self.cancel_token.is_cancelled()''
     else Return (m\<lparr>tm_tasks := tm_tasks m @ [task]\<rparr>))"

definition cancel :: "'task task_manager \<Rightarrow> 'task task_manager" where
  "cancel m = m\<lparr>tm_cancelled := True\<rparr>"

text \<open>
  \<open>stops\<close> is how long a task takes to stop once cancelled and how it ended. The tasks are awaited
  together, so the wait is as long as the slowest one, and no longer than the timeout.
\<close>

datatype join_result = Joined | JoinError | JoinTimeout

fun join_task :: "nat \<Rightarrow> nat \<times> bool \<Rightarrow> join_result \<times> nat" where
  "join_task max_wait (time, ok) =
    (if time > max_wait then (JoinTimeout, max_wait) else (if ok then Joined else JoinError, time))"

definition await_stop ::
  "('task \<Rightarrow> nat \<times> bool) \<Rightarrow> 'task task_manager \<Rightarrow> join_result list \<times> nat \<times> 'task task_manager" where
  "await_stop stops m =
    (let m' = cancel m;
         results = map (\<lambda>task. join_task (tm_shutdown_timeout m') (stops task)) (tm_tasks m')
     in (map fst results, foldr max (map snd results) 0, m'\<lparr>tm_tasks := []\<rparr>))"

text \<open>Stopping waits for no longer than the timeout, forgets every task, and lets none start again.\<close>

lemma await_stop_bounded:
  assumes "await_stop stops m = (results, time, m')"
  shows "time \<le> tm_shutdown_timeout m \<and> length results = length (tm_tasks m) \<and> tm_tasks m' = [] \<and>
    (\<exists>msg. spawn task m' = Panic msg)"
proof -
  have "snd (join_task n stop) \<le> n" for n stop
    by (cases stop) auto
  then have "foldr max (map (\<lambda>t. snd (join_task n (stops t))) ts) 0 \<le> n" for n ts
    by (induction ts) auto
  then show ?thesis
    using assms by (auto simp: await_stop_def cancel_def spawn_def Let_def comp_def)
qed

text \<open>The loop of a periodic task: it runs at every tick until it sees the cancellation.\<close>

datatype periodic_event = IntervalTick | TokenCancelled

fun periodic_runs :: "('s \<Rightarrow> 's) \<Rightarrow> periodic_event list \<Rightarrow> 's \<Rightarrow> 's" where
  "periodic_runs f [] s = s"
| "periodic_runs f (IntervalTick # evs) s = periodic_runs f evs (f s)"
| "periodic_runs f (TokenCancelled # evs) s = s"

lemma periodic_runs_count:
  "periodic_runs f evs s = (f ^^ length (takeWhile (\<lambda>ev. ev = IntervalTick) evs)) s"
  by (induction f evs s rule: periodic_runs.induct) (simp_all add: funpow_swap1)

end
