(* ===== verification/Node_Programs.thy ===== *)
theory Node_Programs
  imports Transport_Setup Bit_String
begin

text \<open>
  The two node programs of the repository: the observer (\<^verbatim>\<open>crates/observer/src/main.rs\<close>, \<^verbatim>\<open>transport.rs\<close>,
  \<^verbatim>\<open>metrics.rs\<close>) and the boot node (\<^verbatim>\<open>crates/bootnode/src/main.rs\<close>). The swarm, the topic hash, the
  printers of the networking library and the parser of assignment times are parameters.
\<close>

section \<open>Topics\<close>

definition KNOWN_TOPICS :: "string list" where
  "KNOWN_TOPICS =
    [''/sqd/worker_heartbeats/1.1.0'',
     ''/sqd/portal_logs/1.1.0'',
     ''/subsquid/worker_pings/1.0.0'',
     ''/subsquid/worker_query_logs/1.0.0'',
     ''/subsquid/worker_query_logs/1.1.0'',
     ''/subsquid/logs_collected/1.0.0'']"

definition parse_topic :: "(string \<Rightarrow> 'h) \<Rightarrow> 'h \<Rightarrow> string" where
  "parse_topic topic_hash topic =
    (case fold (\<lambda>t m. m(topic_hash t \<mapsto> t)) KNOWN_TOPICS Map.empty topic of
       Some t \<Rightarrow> t
     | None \<Rightarrow> ''unknown'')"

text \<open>As long as the hash tells the known topics apart, a known topic is recognised and no other is.\<close>

lemma topics_by_hash:
  assumes "inj_on h (set ts \<union> A)" "\<And>x. m x = (if x \<in> h ` A then Some (inv_into (set ts \<union> A) h x) else None)"
  shows "fold (\<lambda>t m. m(h t \<mapsto> t)) ts m x =
    (if x \<in> h ` (set ts \<union> A) then Some (inv_into (set ts \<union> A) h x) else None)"
  using assms
proof (induction ts arbitrary: A m)
  case (Cons t ts)
  have un: "set (t # ts) \<union> A = set ts \<union> insert t A"
    by auto
  have "(m(h t \<mapsto> t)) y = (if y \<in> h ` insert t A then Some (inv_into (set ts \<union> insert t A) h y) else None)" for y
    using Cons.prems(1) Cons.prems(2) [of y] inv_into_f_f [of h "set ts \<union> insert t A" t] by (auto simp: un)
  then show ?case
    using Cons.IH [of "insert t A" "m(h t \<mapsto> t)"] Cons.prems(1) unfolding un by simp
qed simp

lemma parse_topic_known:
  assumes "inj_on h (set KNOWN_TOPICS)" "t \<in> set KNOWN_TOPICS"
  shows "parse_topic h (h t) = t"
  using topics_by_hash [of h KNOWN_TOPICS "{}" Map.empty "h t"] assms by (simp add: parse_topic_def inv_into_f_f)

lemma parse_topic_unknown:
  assumes "inj_on h (set KNOWN_TOPICS)" "x \<notin> h ` set KNOWN_TOPICS"
  shows "parse_topic h x = ''unknown''"
  using topics_by_hash [of h KNOWN_TOPICS "{}" Map.empty x] assms by (simp add: parse_topic_def)

section \<open>The observer's events\<close>

text \<open>An address is the list of its parts; \<open>'x\<close> is a part.\<close>

datatype ('p, 'x, 'h) observer_input =
    NewListenAddr "'x list"
  | PingInput 'p "(string, nat) result"
  | GossipMessage "'p option" 'h
  | GossipOther
  | IdentifyInput
  | RoutingUpdated 'p "'x list list"
  | RoutablePeer 'p "'x list"
  | KademliaOther
  | SwarmOther

record observer_heartbeat =
  oh_missing_chunks :: "bit_string option"
  oh_assignment_id :: string
  oh_stored_bytes :: "u64 option"

datatype ('p, 'x) observer_event =
    Gossipsub "'p option" string
  | PeerSeen 'p "'x list"
  | WorkerHeartbeat "'p option" observer_heartbeat
  | PingEvent 'p "(string, nat) result"

text \<open>The events one swarm event pushes.\<close>

definition on_gossipsub :: "(string \<Rightarrow> 'h) \<Rightarrow> 'p option \<Rightarrow> 'h \<Rightarrow> ('p, 'x) observer_event list" where
  "on_gossipsub topic_hash source topic = [Gossipsub source (parse_topic topic_hash topic)]"

definition on_kademlia :: "('p, 'x, 'h) observer_input \<Rightarrow> ('p, 'x) observer_event list" where
  "on_kademlia ev =
    (case ev of
       RoutingUpdated peer addresses \<Rightarrow> map (PeerSeen peer) addresses
     | RoutablePeer peer address \<Rightarrow> [PeerSeen peer address]
     | _ \<Rightarrow> [])"

definition on_swarm_input :: "(string \<Rightarrow> 'h) \<Rightarrow> ('p, 'x, 'h) observer_input \<Rightarrow> ('p, 'x) observer_event list" where
  "on_swarm_input topic_hash ev =
    (case ev of
       PingInput peer r \<Rightarrow> [PingEvent peer r]
     | GossipMessage source topic \<Rightarrow> on_gossipsub topic_hash source topic
     | _ \<Rightarrow> on_kademlia ev)"

text \<open>\<open>inputs\<close> are the swarm events that are ready; the swarm is pending after them.\<close>

fun poll_event ::
  "(string \<Rightarrow> 'h) \<Rightarrow> ('p, 'x, 'h) observer_input list \<Rightarrow> ('p, 'x) observer_event list \<Rightarrow>
    ('p, 'x) observer_event poll \<times> ('p, 'x, 'h) observer_input list \<times> ('p, 'x) observer_event list"
where
  "poll_event topic_hash inputs (e # events) = (Ready e, inputs, events)"
| "poll_event topic_hash [] [] = (Pending, [], [])"
| "poll_event topic_hash (ev # inputs) [] = poll_event topic_hash inputs (on_swarm_input topic_hash ev)"

definition observer_backlog ::
  "(string \<Rightarrow> 'h) \<Rightarrow> ('p, 'x, 'h) observer_input list \<Rightarrow> ('p, 'x) observer_event list \<Rightarrow> ('p, 'x) observer_event list" where
  "observer_backlog topic_hash inputs events = events @ concat (map (on_swarm_input topic_hash) inputs)"

text \<open>Each poll yields the next event, in the order the swarm reported them, and is pending only when none is left.\<close>

lemma poll_event_next:
  "poll_event topic_hash inputs events = (Ready e, inputs', events') \<Longrightarrow>
    observer_backlog topic_hash inputs events = e # observer_backlog topic_hash inputs' events'"
  by (induction topic_hash inputs events rule: poll_event.induct) (auto simp: observer_backlog_def)

lemma poll_event_pending:
  "fst (poll_event topic_hash inputs events) = Pending \<longleftrightarrow> observer_backlog topic_hash inputs events = []"
  by (induction topic_hash inputs events rule: poll_event.induct) (auto simp: observer_backlog_def)

section \<open>The observer's metrics\<close>

text \<open>A family of metrics is a map from labels to values; creating on demand is adding the key.\<close>

record 'f metrics =
  mt_gossipsub_received :: "string \<times> string \<rightharpoonup> u64"
  mt_last_seen :: "string \<times> string \<rightharpoonup> u64"
  mt_missing_chunks :: "string \<rightharpoonup> u64"
  mt_stored_bytes :: "string \<rightharpoonup> u64"
  mt_assignment_timestamp :: "string \<rightharpoonup> u64"
  mt_pings_total :: "string \<rightharpoonup> u64"
  mt_last_ping_time :: "string \<rightharpoonup> 'f"

definition counter_inc :: "'k \<Rightarrow> ('k \<rightharpoonup> u64) \<Rightarrow> 'k \<rightharpoonup> u64" where
  "counter_inc k m = m(k \<mapsto> (case m k of Some n \<Rightarrow> n | None \<Rightarrow> 0) + 1)"

definition record_message :: "string \<Rightarrow> string \<Rightarrow> 'f metrics \<Rightarrow> 'f metrics" where
  "record_message topic peer_id mt =
    mt\<lparr>mt_gossipsub_received := counter_inc (topic, peer_id) (mt_gossipsub_received mt)\<rparr>"

definition peer_seen :: "u64 \<Rightarrow> string \<Rightarrow> string \<Rightarrow> 'f metrics \<Rightarrow> 'f metrics" where
  "peer_seen now peer_id addr mt = mt\<lparr>mt_last_seen := (mt_last_seen mt)((peer_id, addr) \<mapsto> now)\<rparr>"

definition worker_heartbeat :: "string \<Rightarrow> u64 \<Rightarrow> u64 \<Rightarrow> u64 \<Rightarrow> 'f metrics \<Rightarrow> 'f metrics" where
  "worker_heartbeat peer_id missing_chunks stored_bytes assignment_timestamp mt =
    mt\<lparr>mt_missing_chunks := (mt_missing_chunks mt)(peer_id \<mapsto> missing_chunks),
       mt_stored_bytes := (mt_stored_bytes mt)(peer_id \<mapsto> stored_bytes),
       mt_assignment_timestamp := (mt_assignment_timestamp mt)(peer_id \<mapsto> assignment_timestamp)\<rparr>"

definition ping :: "(nat \<Rightarrow> 'f) \<Rightarrow> string \<Rightarrow> nat \<Rightarrow> 'f metrics \<Rightarrow> 'f metrics" where
  "ping as_secs_f64 peer_id duration mt =
    mt\<lparr>mt_pings_total := counter_inc peer_id (mt_pings_total mt),
       mt_last_ping_time := (mt_last_ping_time mt)(peer_id \<mapsto> as_secs_f64 duration)\<rparr>"

definition ping_failed :: "string \<Rightarrow> 'f metrics \<Rightarrow> 'f metrics" where
  "ping_failed peer_id mt = mt\<lparr>mt_last_ping_time := (mt_last_ping_time mt)(peer_id := None)\<rparr>"

text \<open>The parts of an address that name peers are taken off its end.\<close>

function pop_p2p :: "('x \<Rightarrow> bool) \<Rightarrow> 'x list \<Rightarrow> 'x list" where
  "pop_p2p is_p2p address = (if address \<noteq> [] \<and> is_p2p (last address) then pop_p2p is_p2p (butlast address) else address)"
  by pat_completeness auto
termination
  by (relation "measure (\<lambda>(is_p2p, address). length address)") auto

declare pop_p2p.simps [simp del]

record ('p, 'x, 'f) observer_lib =
  ol_peer_to_string :: "'p \<Rightarrow> string"
  ol_address_to_string :: "'x list \<Rightarrow> string"
  ol_is_p2p :: "'x \<Rightarrow> bool"
  ol_parse_time :: "string \<Rightarrow> u64 option"
  ol_as_secs_f64 :: "nat \<Rightarrow> 'f"

definition peer_label :: "('p, 'x, 'f) observer_lib \<Rightarrow> 'p option \<Rightarrow> string" where
  "peer_label lib peer_id = (case peer_id of Some p \<Rightarrow> ol_peer_to_string lib p | None \<Rightarrow> ''unknown'')"

definition run_transport_step ::
  "('p, 'x, 'f) observer_lib \<Rightarrow> u64 \<Rightarrow> ('p, 'x) observer_event \<Rightarrow> 'f metrics \<Rightarrow> 'f metrics" where
  "run_transport_step lib now ev =
    (case ev of
       Gossipsub peer_id topic \<Rightarrow> record_message topic (peer_label lib peer_id)
     | PeerSeen peer_id address \<Rightarrow>
         peer_seen now (ol_peer_to_string lib peer_id)
           (ol_address_to_string lib (pop_p2p (ol_is_p2p lib) address))
     | WorkerHeartbeat peer_id heartbeat \<Rightarrow>
         worker_heartbeat (peer_label lib peer_id)
           (case oh_missing_chunks heartbeat of Some bits \<Rightarrow> bit_string_ones bits | None \<Rightarrow> 0)
           (case oh_stored_bytes heartbeat of Some n \<Rightarrow> n | None \<Rightarrow> 0)
           (case ol_parse_time lib (oh_assignment_id heartbeat) of Some t \<Rightarrow> t | None \<Rightarrow> 0)
     | PingEvent peer result \<Rightarrow>
         (case result of
            Ok duration \<Rightarrow> ping (ol_as_secs_f64 lib) (ol_peer_to_string lib peer) duration
          | Err e \<Rightarrow> ping_failed (ol_peer_to_string lib peer)))"

definition run_transport ::
  "('p, 'x, 'f) observer_lib \<Rightarrow> (u64 \<times> ('p, 'x) observer_event) list \<Rightarrow> 'f metrics \<Rightarrow> 'f metrics" where
  "run_transport lib evs mt = fold (\<lambda>(now, ev). run_transport_step lib now ev) evs mt"

text \<open>No address is reported with a peer at its end.\<close>

lemma pop_p2p_spec:
  "\<exists>ps. address = pop_p2p is_p2p address @ ps \<and> (\<forall>x \<in> set ps. is_p2p x) \<and>
    (pop_p2p is_p2p address \<noteq> [] \<longrightarrow> \<not> is_p2p (last (pop_p2p is_p2p address)))"
proof (induction is_p2p address rule: pop_p2p.induct)
  case (1 is_p2p address)
  show ?case
  proof (cases "address \<noteq> [] \<and> is_p2p (last address)")
    case True
    with 1 obtain ps where "butlast address = pop_p2p is_p2p (butlast address) @ ps" "\<forall>x \<in> set ps. is_p2p x"
      "pop_p2p is_p2p (butlast address) \<noteq> [] \<longrightarrow> \<not> is_p2p (last (pop_p2p is_p2p (butlast address)))"
      by blast
    moreover have "address = butlast address @ [last address]" "pop_p2p is_p2p address = pop_p2p is_p2p (butlast address)"
      using True by (simp_all add: pop_p2p.simps [of is_p2p address])
    ultimately show ?thesis
      using True by (intro exI [of _ "ps @ [last address]"]) (metis append.assoc set_append Un_iff empty_iff empty_set set_ConsD)
  next
    case False
    then show ?thesis
      by (auto simp: pop_p2p.simps [of is_p2p address])
  qed
qed

text \<open>The message counter of a topic and a peer is the number of their messages, up to the counter's width.\<close>

lemma gossip_counter_exact:
  "(case mt_gossipsub_received (run_transport lib evs mt) (topic, label) of Some n \<Rightarrow> n | None \<Rightarrow> 0) =
    (case mt_gossipsub_received mt (topic, label) of Some n \<Rightarrow> n | None \<Rightarrow> 0) +
    of_nat (length (filter (\<lambda>(now, ev). case ev of
      Gossipsub peer_id t \<Rightarrow> t = topic \<and> peer_label lib peer_id = label | _ \<Rightarrow> False) evs))"
proof (induction evs arbitrary: mt)
  case (Cons nev evs)
  obtain now ev where "nev = (now, ev)"
    by (cases nev)
  with Cons show ?case
    by (cases ev) (auto simp: run_transport_def run_transport_step_def record_message_def counter_inc_def peer_seen_def
      worker_heartbeat_def ping_def ping_failed_def algebra_simps split: result.splits)
qed (simp add: run_transport_def)

section \<open>The boot node\<close>

text \<open>The swarm of the boot node: its whitelist, its DHT and the rest.\<close>

record ('p, 'l, 'k, 'sw) boot_swarm =
  bs_whitelist :: "('p, 'l) whitelist"
  bs_kademlia :: 'k
  bs_rest :: 'sw

record ('sw, 'p, 'a) boot_ops =
  bo_listen_on :: "'a \<Rightarrow> 'sw \<Rightarrow> (string, 'sw) result"
  bo_add_external_address :: "'a \<Rightarrow> 'sw \<Rightarrow> 'sw"
  bo_dial :: "'p \<Rightarrow> 'sw \<Rightarrow> (string, 'sw) result"

definition boot_connect ::
  "('p, 'l) allow_ops \<Rightarrow> ('k, 'p, 'a, 'q) engine_ops \<Rightarrow> ('sw, 'p, 'a) boot_ops \<Rightarrow> ('p, 'a) boot_node \<Rightarrow>
    ('p, 'l, 'k, 'sw) boot_swarm \<Rightarrow> (string, ('p, 'l, 'k, 'sw) boot_swarm) result"
where
  "boot_connect allow engine ops node s =
    (case bo_dial ops (bn_peer_id node) (bs_rest s) of
       Err e \<Rightarrow> Err e
     | Ok rest \<Rightarrow> Ok (s\<lparr>bs_whitelist := whitelist_allow_peer allow (bn_peer_id node) (bs_whitelist s),
         bs_kademlia := en_add_address engine (bn_peer_id node) (bn_address node) (bs_kademlia s),
         bs_rest := rest\<rparr>))"

definition boot_allow ::
  "('p, 'l) allow_ops \<Rightarrow> 'p \<Rightarrow> ('p, 'l, 'k, 'sw) boot_swarm \<Rightarrow> ('p, 'l, 'k, 'sw) boot_swarm" where
  "boot_allow allow peer_id s = s\<lparr>bs_whitelist := whitelist_allow_peer allow peer_id (bs_whitelist s)\<rparr>"

text \<open>
  The start of the boot node, from the built swarm. An error ends the program, so the changes made
  before a failed dial are not seen by anyone.
\<close>

definition bootnode_start ::
  "('p, 'l) allow_ops \<Rightarrow> ('k, 'p, 'a, 'q) engine_ops \<Rightarrow> ('sw, 'p, 'a) boot_ops \<Rightarrow> ('p, 'a) transport_args \<Rightarrow>
    'p list \<Rightarrow> 'p \<Rightarrow> ('p, 'l, 'k, 'sw) boot_swarm \<Rightarrow> (string, ('p, 'l, 'k, 'sw) boot_swarm) result"
where
  "bootnode_start allow engine ops args allowed_nodes local_peer_id s =
    (case result_fold (bo_listen_on ops) (ta_p2p_listen_addrs args) (bs_rest s) of
       Err e \<Rightarrow> Err e
     | Ok rest \<Rightarrow>
         (let rest' = fold (bo_add_external_address ops) (ta_p2p_public_addrs args) rest;
              s' = s\<lparr>bs_rest := rest', bs_kademlia := en_set_server_mode engine (bs_kademlia s)\<rparr>
          in case result_fold (boot_connect allow engine ops)
                 (filter (\<lambda>node. bn_peer_id node \<noteq> local_peer_id) (ta_boot_nodes args)) s' of
               Err e \<Rightarrow> Err e
             | Ok s'' \<Rightarrow> Ok (fold (boot_allow allow) allowed_nodes s'')))"

datatype ('p, 'a) boot_event = IdentifyReceived 'p "'a list" | BootOther

definition bootnode_on_event ::
  "('k, 'p, 'a, 'q) engine_ops \<Rightarrow> ('a \<Rightarrow> bool) \<Rightarrow> ('p, 'a) boot_event \<Rightarrow> ('p, 'l, 'k, 'sw) boot_swarm \<Rightarrow>
    ('p, 'l, 'k, 'sw) boot_swarm"
where
  "bootnode_on_event engine is_reachable ev s =
    (case ev of
       IdentifyReceived peer_id listen_addrs \<Rightarrow>
         s\<lparr>bs_kademlia := fold (en_add_address engine peer_id) (filter is_reachable listen_addrs) (bs_kademlia s)\<rparr>
     | BootOther \<Rightarrow> s)"

text \<open>
  A boot node that starts accepts exactly the other boot nodes and the nodes it was told to allow, on top
  of what its list held, and the events its loop handles do not change this. The updates from the chain,
  which its whitelist applies by itself, are those of \<^verbatim>\<open>Node_Whitelist\<close>.
\<close>

lemma boot_connect_fold:
  assumes "allow_laws allow allowed" "result_fold (boot_connect allow engine ops) nodes s = Ok s'"
  shows "allowed (wh_allow (bs_whitelist s')) = allowed (wh_allow (bs_whitelist s)) \<union> bn_peer_id ` set nodes"
  using assms(2)
proof (induction nodes arbitrary: s)
  case (Cons node nodes)
  then show ?case
    using assms(1)
    by (auto simp: boot_connect_def whitelist_allow_peer_def allow_laws_def split: result.splits)
qed simp

lemma boot_allow_fold:
  assumes "allow_laws allow allowed"
  shows "allowed (wh_allow (bs_whitelist (fold (boot_allow allow) ps s))) =
    allowed (wh_allow (bs_whitelist s)) \<union> set ps"
  using assms by (induction ps arbitrary: s) (auto simp: boot_allow_def whitelist_allow_peer_def allow_laws_def)

lemma bootnode_events_whitelist:
  "bs_whitelist (fold (bootnode_on_event engine is_reachable) evs s) = bs_whitelist s"
  by (induction evs arbitrary: s) (auto simp: bootnode_on_event_def split: boot_event.splits)

theorem bootnode_accepts:
  assumes laws: "allow_laws allow allowed"
    and started: "bootnode_start allow engine ops args allowed_nodes local_peer_id s = Ok s'"
  shows "allowed (wh_allow (bs_whitelist (fold (bootnode_on_event engine is_reachable) evs s'))) =
    allowed (wh_allow (bs_whitelist s)) \<union> (bn_peer_id ` set (ta_boot_nodes args) - {local_peer_id}) \<union> set allowed_nodes"
proof -
  obtain rest s2 where run: "s' = fold (boot_allow allow) allowed_nodes s2"
    "result_fold (boot_connect allow engine ops)
      (filter (\<lambda>node. bn_peer_id node \<noteq> local_peer_id) (ta_boot_nodes args))
      (s\<lparr>bs_rest := rest, bs_kademlia := en_set_server_mode engine (bs_kademlia s)\<rparr>) = Ok s2"
    using started by (auto simp: bootnode_start_def Let_def split: result.splits)
  then show ?thesis
    using boot_connect_fold [OF laws run(2)]
    by (auto simp: run(1) bootnode_events_whitelist boot_allow_fold [OF laws])
qed

end
