(* ===== verification/Block_Routing.thy ===== *)
theory Block_Routing
  imports Convert_Properties
begin

text \<open>
  From a block to a worker: a portal routes a block with the portal-facing assignment and reads from it
  the peers to ask; each of those peers finds itself in the worker-facing assignment and reads from it
  the chunks it holds. The lemmas relate the two files when both were converted from one source.
\<close>

lemma source_entry_nth: "length (as_workers legacy) \<le> 65536 \<Longrightarrow> i < length (as_workers legacy) \<Longrightarrow>
    source_entry legacy i = as_workers legacy ! i"
  by (simp add: source_entry_def unat_of_nat take_bit_nat_eq_self)

definition source_peer :: "(u8 list \<Rightarrow> 'p option) \<Rightarrow> fb_assignment \<Rightarrow> nat \<Rightarrow> 'p" where
  "source_peer from_bytes legacy i = the (from_bytes (we_worker_id (as_workers legacy ! i)))"

lemma source_peer_codec:
  assumes "peers_ok to_bytes from_bytes legacy" "workers_ready from_bytes legacy" "i < length (as_workers legacy)"
  shows "from_bytes (we_worker_id (as_workers legacy ! i)) = Some (source_peer from_bytes legacy i)"
    and "codec_ok to_bytes from_bytes (source_peer from_bytes legacy i)"
proof -
  have "as_workers legacy ! i \<in> set (as_workers legacy)"
    using assms(3) by simp
  then show "from_bytes (we_worker_id (as_workers legacy ! i)) = Some (source_peer from_bytes legacy i)"
    "codec_ok to_bytes from_bytes (source_peer from_bytes legacy i)"
    using assms(1,2) by (auto simp: peers_ok_def workers_ready_def list_all_iff source_peer_def split: option.splits)
qed

text \<open>The portal file names at an index the peer the source has there.\<close>

lemma converted_portal_peer:
  assumes "converted_portal to_bytes from_bytes legacy a'" "peers_ok to_bytes from_bytes legacy"
    and "workers_ready from_bytes legacy" "unat i < length (as_workers legacy)"
  shows "portal_get_worker_id from_bytes a' i = Return (Some (source_peer from_bytes legacy (unat i)))"
proof -
  have "length (as_workers legacy) \<le> 65536"
    using assms(3) by (simp add: workers_ready_def)
  then have "pa_workers a' ! unat i = \<lparr>pe_worker_id = to_bytes (source_peer from_bytes legacy (unat i)),
      pe_status = status_to_fb (status_from_fb (we_status (as_workers legacy ! unat i)))\<rparr>"
    using assms(1,4) source_peer_codec(1) [OF assms(2,3,4)]
    by (auto simp: converted_portal_def portal_entry_of_def source_entry_nth)
  moreover have "unat i < length (pa_workers a')"
    using assms(1,4) by (simp add: converted_portal_def)
  ultimately show ?thesis
    using worker_id_roundtrip [OF source_peer_codec(2) [OF assms(2,3,4)]]
    by (simp add: portal_get_worker_id_def vec_get_in_range)
qed

text \<open>That peer finds itself in the worker file, at the same index.\<close>

lemma converted_worker_finds_itself:
  assumes "converted_worker to_bytes from_bytes legacy a schemas" "peers_ok to_bytes from_bytes legacy"
    and "workers_ready from_bytes legacy" "i < length (as_workers legacy)"
  shows "worker_get_worker from_bytes a (source_peer from_bytes legacy i) =
    Return (Some \<lparr>aw_assignment = a, aw_reader = wa_workers a ! i, aw_index = of_nat i\<rparr>)"
proof -
  let ?n = "length (as_workers legacy)" and ?peer = "source_peer from_bytes legacy"
  let ?st = "\<lambda>j. status_from_fb (we_status (as_workers legacy ! j))"
  have n: "?n \<le> 65536" "length (wa_workers a) = ?n"
    using assms(1,3) by (simp_all add: converted_worker_def workers_ready_def)
  have "(we_worker_id (wa_workers a ! j), we_status (wa_workers a ! j)) = (to_bytes (?peer j), status_to_fb (?st j))"
    if "j < ?n" for j
    using assms(1) source_peer_codec(1) [OF assms(2,3) that] source_entry_nth [OF n(1) that] that
    by (auto simp: converted_worker_def worker_entry_of_def)
  then have entries: "map (\<lambda>e. (we_worker_id e, we_status e)) (wa_workers a) =
      map (\<lambda>j. (to_bytes (?peer j), status_to_fb (?st j))) [0 ..< ?n]"
    using n(2) by (intro nth_equalityI) simp_all
  have "map ?peer [0 ..< ?n] = map (\<lambda>e. the (from_bytes (we_worker_id e))) (as_workers legacy)"
    by (intro nth_equalityI) (simp_all add: source_peer_def)
  then have sorted: "sorted_wrt (<) (map ?peer [0 ..< ?n])"
    using assms(3) by (simp add: workers_ready_def)
  have codec: "\<forall>j \<in> set [0 ..< ?n]. codec_ok to_bytes from_bytes (?peer j)"
    using source_peer_codec(2) [OF assms(2,3)] by simp
  from find_worker(4) [OF entries sorted codec, of i] assms(4) n(2) show ?thesis
    by (simp add: worker_get_worker_def vec_get_in_range)
qed

text \<open>The datasets of both files are found under the name the source has.\<close>

lemma converted_datasets_found:
  assumes "converted_worker to_bytes from_bytes legacy a schemas" "converted_portal to_bytes from_bytes legacy a'"
    and "key_search lk" "sorted_wrt (<) (map ds_id (as_datasets legacy))" "j < length (as_datasets legacy)"
  shows "worker_get_dataset lk a (ds_id (as_datasets legacy ! j)) = Some (wa_datasets a ! j)"
    and "portal_get_dataset lk a' (ds_id (as_datasets legacy ! j)) = Some (pa_datasets a' ! j)"
proof -
  let ?n = "length (as_datasets legacy)"
  have len: "length (wa_datasets a) = ?n" "length (pa_datasets a') = ?n"
    using assms(1,2) by (simp_all add: converted_worker_def converted_portal_def)
  have ids: "wd_id (wa_datasets a ! j) = ds_id (as_datasets legacy ! j)"
    "pd_id (pa_datasets a' ! j) = ds_id (as_datasets legacy ! j)" if "j < ?n" for j
    using assms(1,2) that
    by (simp_all add: converted_worker_def converted_portal_def worker_dataset_of_def portal_dataset_of_def)
  have "map wd_id (wa_datasets a) = map ds_id (as_datasets legacy)"
    "map pd_id (pa_datasets a') = map ds_id (as_datasets legacy)"
    using len ids by (auto intro!: nth_equalityI)
  then have sorted: "sorted_wrt (<) (map wd_id (wa_datasets a))" "sorted_wrt (<) (map pd_id (pa_datasets a'))"
    using assms(4) by simp_all
  show "worker_get_dataset lk a (ds_id (as_datasets legacy ! j)) = Some (wa_datasets a ! j)"
    using lookup_by_key_eq [OF assms(3) sorted(1), of "wa_datasets a ! j"] len ids assms(5)
    by (simp add: worker_get_dataset_def)
  show "portal_get_dataset lk a' (ds_id (as_datasets legacy ! j)) = Some (pa_datasets a' ! j)"
    using lookup_by_key_eq [OF assms(3) sorted(2), of "pa_datasets a' ! j"] len ids assms(5)
    by (simp add: portal_get_dataset_def)
qed

text \<open>A block of a converted dataset is routed to one of its chunks that covers it.\<close>

lemma converted_routes:
  assumes "portal_dataset_of j source d" "portal_get_dataset lk a' (ds_id source) = Some d"
    and "\<forall>c \<in> set (ds_chunks source). dc_last_block (chunk_of c) \<noteq> - 1"
    and "dc_first_block (chunk_of (hd (ds_chunks source))) \<le> block"
    and "block \<le> dc_last_block (chunk_of (last (ds_chunks source)))"
  obtains i where "i < length (ds_chunks source)" "portal_find_chunk lk a' (ds_id source) block = Return (Ok (prow d i))"
    and "dc_first_block (chunk_of (ds_chunks source ! i)) \<le> block" "block \<le> dc_last_block (chunk_of (ds_chunks source ! i))"
proof -
  let ?specs = "map portal_spec_of (ds_chunks source)"
  have em: "portal_emitted d ?specs" and cons: "consecutive ?specs" and ne: "ds_chunks source \<noteq> []"
    using assms(1) by (simp_all add: portal_dataset_of_def)
  have wf: "\<forall>s \<in> set ?specs. dc_wf (ps_id s)" and max: "\<forall>s \<in> set ?specs. dc_last_block (ps_id s) \<noteq> - 1"
    using em assms(3) by (auto simp: portal_emitted_def portal_spec_ok_def)
  have "\<exists>s \<in> set ?specs. block_in s block"
    using consecutive_covers [OF cons wf max, of "length ?specs - 1" block] assms(4,5) ne
    by (simp add: last_conv_nth hd_map)
  moreover obtain r where r: "portal_find_chunk lk a' (ds_id source) block = Return r"
    "case r of Ok k \<Rightarrow> \<exists>i < length ?specs. k = prow d i \<and> block_in (?specs ! i) block
     | Err e \<Rightarrow> (\<forall>s \<in> set ?specs. \<not> block_in s block) \<and> e = missing_block ?specs block"
    using portal_find_in_emitted [OF em consecutive_ascending [OF cons wf max] assms(2), of block] by blast
  ultimately obtain i where "i < length ?specs" "block_in (?specs ! i) block" "r = Ok (prow d i)"
    by (cases r) auto
  then show thesis
    using r(1) by (intro that [of i]) (simp_all add: block_in_def)
qed

text \<open>A worker's holdings contain each row that lists its index.\<close>

lemma holdings_contains:
  assumes "emitted schemas gens d specs" "i < length specs" "aw_index w \<in> set (ws_workers (specs ! i))"
  obtains held where "holdings w d = Return held" "row d i \<in> set held"
  using holdings_emitted [OF assms(1), of w] assms(2,3) by simp

end
