(* ===== verification/Spec2Isabelle.thy ===== *)
theory Spec2Isabelle
  imports Worker_Guarantees Portal_Guarantees Legacy_Properties Range_Set Message_Signing Network_State Bit_String Version_Match
    Contract_Properties Pubsub Query_Exchange Stream_Requests
    Blob_Roots Convert_Properties Held_Streams Node_Programs Block_Routing
begin

text \<open>
  \<^bold>\<open>The Subsquid network crates.\<close> This library models the Rust workspace of the Subsquid network
  (\<^verbatim>\<open>src/crates\<close>) and proves what its parts promise. The workspace has five libraries and three
  programs. A scheduler publishes \<^emph>\<open>assignments\<close>, files that say which worker stores which chunk of which
  dataset. A portal reads one to route a query for a block to workers; a worker reads one to learn what
  to download. Queries, results, logs and heartbeats are signed messages that travel over libp2p streams;
  every node keeps connections to the workers registered on chain, which it learns from smart contracts.

  \<^bold>\<open>How the code is modelled.\<close> A struct is a record, an enum a datatype, an integer a word of its width
  whose arithmetic wraps as in a release build, a \<^verbatim>\<open>str\<close> a list of bytes. A function that returns a
  \<^verbatim>\<open>Result\<close> returns a \<open>result\<close>, one that can panic an \<open>outcome\<close>; a method with \<^verbatim>\<open>&mut self\<close> returns the state
  it leaves, also on error. A hash set is a set with a parameter \<open>iter\<close> or \<open>pick\<close> for its order. Loops are
  recursive functions with a termination proof; the two that need not end (\<open>wrapped_poll\<close> and
  \<open>wait_registered\<close>) are partial functions into \<open>option\<close>, and that they return is proved where it holds. No
  definition uses fuel. Concurrency is a step relation that interleaves the atomic steps of the tasks, and
  an invariant of the reachable states. Code of other crates (flatbuffers, protobuf, cryptography, semver,
  deflate, the contracts, libp2p) is a record or function parameter; what is relied on is a named
  hypothesis (\<open>key_search\<close>, \<open>keys_match\<close>, \<open>allow_laws\<close>, \<open>engine_laws\<close> and the like), and each that a
  property assumes is discharged for a concrete instance in its witness.

  \<^bold>\<open>Foundations.\<close>
  \<^item> \<open>Prelude\<close>: words, \<open>result\<close>, \<open>outcome\<close>, three-way comparison and shared facts. \<open>Rust_Std\<close>: UTF-8, decimal
    text, \<^verbatim>\<open>parse\<close>, splitting, binary search. \<open>Byte_Encoding\<close>: little-endian bytes. \<open>Float32\<close>: rounding to
    24 bits for the confidence of the base behaviour. \<open>Ordered_Map\<close>: \<^verbatim>\<open>BTreeMap\<close>, with the locales
    \<open>ordered_map\<close> and \<open>searched_map\<close>. \<open>Search\<close>: the binary searches of \<^verbatim>\<open>reader.rs\<close>, with the locale
    \<open>key_search\<close> for a lookup by key.
  \<^item> \<open>Data_Chunk\<close> and \<open>Chunk_Id\<close> (\<^verbatim>\<open>data-chunk/src/lib.rs\<close>): the chunk identifier. Parsing inverts printing,
    what parses is well formed, and the hand-written digit loops print what the standard library prints.

  \<^bold>\<open>Assignments\<close> (\<^verbatim>\<open>crates/assignments\<close>).
  \<^item> \<open>Assignment_FB\<close>, \<open>Columns\<close>, \<open>Headers\<close>, \<open>Registry\<close>, \<open>Staging\<close>, \<open>Table_Bitmap\<close>: the tables of the schemas,
    the column encodings, sealed headers, and the contracts the builders share (locales \<open>worker_registry\<close>
    and \<open>chunk_stager\<close>, interpreted for each builder).
  \<^item> \<open>Worker_Builder\<close>, \<open>Worker_Reader\<close> with \<open>Worker_Rows\<close>, \<open>Worker_Roundtrip\<close>, \<open>Worker_Lookup\<close>,
    \<open>Worker_Trace\<close>, \<open>Worker_Properties\<close>, \<open>Worker_Guarantees\<close>: the worker-facing file. Staged chunks read
    back, tables survive their bitmap, holdings and lookups are exact, headers decrypt, a rejected
    dataset leaves nothing behind, after any sequence of builder calls the finished file loads exactly when
    no dataset exceeds the limit on worker references, and no accessor panics on a loaded file.
  \<^item> \<open>Portal_Builder\<close>, \<open>Portal_Reader\<close>, \<open>Portal_Properties\<close>, \<open>Portal_Guarantees\<close>: the portal-facing file;
    round trip, routing by block (chunks with gaps between them included) and by timestamp, gap-free routing,
    and accessors that do not panic.
  \<^item> \<open>Legacy_Builder\<close>, \<open>Legacy_Reader\<close>, \<open>Legacy_Properties\<close>: the combined file, in the same way.
  \<^item> \<open>Gen_Assignment\<close>, \<open>Gen_Worker\<close>, \<open>Gen_Portal\<close>, \<open>Gen_Structs\<close> (\<^verbatim>\<open>schema/gen\<close>): the generated code of every
    table: arguments and defaults, the table builder, \<^verbatim>\<open>create\<close>, the accessors, the keys and
    \<^verbatim>\<open>run_verifier\<close>; the structs byte by byte. \<open>Flat_Tables\<close> and \<open>Flat_Verify\<close> hold the runtime they call as
    two records of operations with laws (\<open>flat_laws\<close>, \<open>verify_laws\<close>), \<open>Flat_Heap\<close> an instance.
  \<^item> \<open>Flat_Store\<close>, \<open>Stored_Worker\<close>, \<open>Stored_Portal\<close>, \<open>Stored_Legacy\<close>, \<open>Blob_Roots\<close>: what the builders write into
    the FlatBuffers builder, and \<^verbatim>\<open>from_owned\<close>. A data refinement: the offsets a builder holds denote the
    records of the theories above, every write keeps that, and the finished blob reads back as the
    records. Whatever passes the verifier is read without a panic. The verifier may refuse a blob that was
    written, as it counts tables and bytes; no more is claimed there.
  \<^item> \<open>Convert_Assignment\<close>, \<open>Convert_Worker\<close>, \<open>Convert_Portal\<close>, \<open>Convert_Verify\<close>, \<open>Convert_Properties\<close>
    (\<^verbatim>\<open>examples/convert_assignment.rs\<close>): the tool that splits a combined file; when it succeeds, and that
    what it builds reproduces its source. \<open>Block_Routing\<close> and the theorem below combine the two files: a
    worker a portal asks for a block holds it.
  \<^item> \<open>Network_State\<close> (\<^verbatim>\<open>common.rs\<close>): which published assignments a consumer reads.
  \<^item> \<open>Samples\<close>: concrete assignments for the witnesses.

  \<^bold>\<open>Messages\<close> (\<^verbatim>\<open>crates/messages\<close>). \<open>Range_Set\<close>: range sets as sets of points. \<open>Message_Signing\<close>: the signed
  payloads byte by byte; they determine the fields they cover, what is signed verifies, and what verifies was signed over the same
  fields. \<open>Bit_String\<close>
  and \<open>Version_Match\<close>: compressed bit strings and version requirements.

  \<^bold>\<open>Contract client\<close> (\<^verbatim>\<open>crates/contract-client\<close>). \<open>Contract_Merge\<close>, \<open>Contract_Client\<close>, \<open>Contract_Config\<close>,
  \<open>Contract_Properties\<close>: the two registries and their merge, every read of the on-chain and of the in-memory
  client, and the configuration. Paged lists are read completely by loops that end.

  \<^bold>\<open>Transport\<close> (\<^verbatim>\<open>crates/transport\<close>).
  \<^item> \<open>Address_Cache\<close>, \<open>Node_Whitelist\<close>, \<open>Base_Behaviour\<close>, \<open>Base_Invariants\<close>, \<open>Base_Properties\<close>: the base of every
    node. In every reachable state no registered worker is forgotten and none waits twice.
  \<^item> \<open>Pubsub\<close>: admission of gossip messages, bounded per peer.
  \<^item> \<open>Stream_Shared\<close>, \<open>Stream_Requests\<close> (\<^verbatim>\<open>libp2p_stream\<close>): opening streams; no request is left behind in any
    interleaving. \<open>Stream_Exchange\<close>, \<open>Query_Exchange\<close>: requests over a stream, the queues, the codec and the
    actors; a query reaches the worker byte for byte and its answer comes back; how a stream that is dropped
    looks to the client is left to the transport. \<open>Held_Streams\<close>: the
    keep-alive and noise behaviours.
  \<^item> \<open>Wrapped_Behaviour\<close>, \<open>Actor_Tasks\<close>: the wrapper of all behaviours (locale \<open>finite_work\<close>: a poll returns)
    and the task of an actor; the application receives what the handlers made, in order.
  \<^item> \<open>Transport_Setup\<close>: arguments, configuration, key file, builder, the wait for registration, tasks.

  \<^bold>\<open>Programs.\<close> \<open>Node_Programs\<close>: \<^verbatim>\<open>crates/observer\<close> and \<^verbatim>\<open>crates/bootnode\<close>; \<^verbatim>\<open>crates/keygen\<close> is in
  \<open>Transport_Setup\<close>. The observer reports every event in order and counts messages exactly; a boot node
  starts by accepting exactly the peers it was told to, and its loop changes nothing about that.

  \<^bold>\<open>Not modelled.\<close>
  \<^item> Generated code that is not in the sources, the protobuf encoders and the contract bindings. Of the code
    under \<^verbatim>\<open>schema/gen\<close>: \<^verbatim>\<open>Debug\<close> printing, the trait implementations the runtime asks for (\<^verbatim>\<open>Follow\<close>, \<^verbatim>\<open>Push\<close>)
    and the size-prefixed roots, which nothing calls. Of a table the fields are read together, where the
    code reads each when asked. Layout and alignment of tables are the runtime's.
  \<^item> Logging and prometheus metrics of the transport, serde and \<^verbatim>\<open>Debug\<close> derivations, benchmarks, tests and
    the two example programs that print what the clients return.
  \<^item> Pure delegation: the connection callbacks of the wrappers and of \<^verbatim>\<open>StreamWithPayload\<close> pass their
    arguments on. Building a libp2p swarm, QUIC, DNS, signals, the HTTP endpoint of the observer and the
    registration of its metrics are calls into libraries.
  \<^item> Files and compression of the conversion tool, and the size report it prints.
  \<^item> The empty acknowledgement of a log request, and the withdrawal of the collector's advertisement on drop.
  \<^item> Time passes only where a duration is an argument: calls to contracts and to the operating system take
    none, and concurrent calls joined by \<^verbatim>\<open>try_join!\<close> are read in the order they are written.
\<close>

section \<open>From a block to the workers that hold it\<close>

text \<open>
  C2: A portal that routes a block asks workers that hold it. Take the two assignments built from one
  source whose datasets are sorted by name and whose workers are in order. Every block from the first to
  the last of a dataset is routed by the portal's file to a chunk; and every worker index that chunk
  lists names in the portal's file a peer that finds itself in the worker's file, and whose holdings
  there contain a chunk with the same id whose range covers the block. Nothing in between panics. The
  indexes are those of listed workers, and block numbers stay below \<^verbatim>\<open>u64::MAX\<close>.
\<close>
theorem routed_block_is_held:
  fixes cr :: "('p::linorder, 'sk, 'rng) crypto"
  assumes "build_worker cr from_bytes rng legacy = Return (Ok a)"
    and "build_portal (cr_to_bytes cr) from_bytes legacy = Return (Ok (a', an))"
    and "key_search lk" "peers_ok (cr_to_bytes cr) from_bytes legacy" "workers_ready from_bytes legacy"
    and "length (as_datasets legacy) \<le> U32_MAX" "sorted_wrt (<) (map ds_id (as_datasets legacy))"
    and "source \<in> set (as_datasets legacy)"
    and "\<forall>c \<in> set (ds_chunks source). dc_last_block (chunk_of c) \<noteq> - 1"
    and "dc_first_block (chunk_of (hd (ds_chunks source))) \<le> block"
    and "block \<le> dc_last_block (chunk_of (last (ds_chunks source)))"
  shows "\<exists>k id' indexes d. portal_find_chunk lk a' (ds_id source) block = Return (Ok k) \<and>
    pk_id k = Return (Some id') \<and> pk_worker_indexes k = Return indexes \<and>
    worker_get_dataset lk a (ds_id source) = Some d \<and>
    (\<forall>i \<in> set indexes. unat i < length (as_workers legacy) \<longrightarrow>
      (\<exists>p w held r f l. portal_get_worker_id from_bytes a' i = Return (Some p) \<and>
        worker_get_worker from_bytes a p = Return (Some w) \<and> holdings w d = Return held \<and> r \<in> set held \<and>
        wk_id r = Return (Some id') \<and> wk_first_block r = Return f \<and> wk_last_block r = Return l \<and>
        f \<le> block \<and> block \<le> l))"
proof -
  obtain b :: "('p, 'sk, 'rng) worker_builder" where
    w: "converted_worker (cr_to_bytes cr) from_bytes legacy a (wb_write_schemas b)"
    by (rule build_worker_converted [OF assms(1,4,6)])
  have p: "converted_portal (cr_to_bytes cr) from_bytes legacy a'"
    using build_portal_converted [OF assms(2,4)] by blast
  obtain j where j: "j < length (as_datasets legacy)" "source = as_datasets legacy ! j"
    using assms(8) by (auto simp: in_set_conv_nth)
  let ?d = "wa_datasets a ! j" and ?d' = "pa_datasets a' ! j"
  have wd: "worker_dataset_of (wb_write_schemas b) (schema_id j) source ?d" and pd: "portal_dataset_of j source ?d'"
    using w p j by (simp_all add: converted_worker_def converted_portal_def)
  note found = converted_datasets_found [OF w p assms(3,7) j(1), folded j(2)]
  from converted_routes [OF pd found(2) assms(9-11)] obtain i where
    i: "i < length (ds_chunks source)" "portal_find_chunk lk a' (ds_id source) block = Return (Ok (prow ?d' i))"
    "dc_first_block (chunk_of (ds_chunks source ! i)) \<le> block" "block \<le> dc_last_block (chunk_of (ds_chunks source ! i))" .
  let ?c = "ds_chunks source ! i"
  have em: "emitted (wb_write_schemas b) [] ?d (map (worker_spec_of (schema_id j) (union_tables source)) (ds_chunks source))"
    and pem: "portal_emitted ?d' (map portal_spec_of (ds_chunks source))"
    and "id_of ?c = Ok (chunk_of ?c)"
    using wd pd i(1) by (auto simp: worker_dataset_of_def portal_dataset_of_def)
  then obtain id' where id': "data_chunk_display (chunk_of ?c) = Return id'"
    using data_chunk_display_wf id_of_Ok(2) by blast
  have held: "\<exists>p w held r f l. portal_get_worker_id from_bytes a' x = Return (Some p) \<and>
      worker_get_worker from_bytes a p = Return (Some w) \<and> holdings w ?d = Return held \<and> r \<in> set held \<and>
      wk_id r = Return (Some id') \<and> wk_first_block r = Return f \<and> wk_last_block r = Return l \<and> f \<le> block \<and> block \<le> l"
    if "x \<in> set (ck_worker_indexes ?c)" "unat x < length (as_workers legacy)" for x
  proof -
    let ?w = "\<lparr>aw_assignment = a, aw_reader = wa_workers a ! unat x, aw_index = x\<rparr>"
    have "aw_index ?w \<in> set (ck_worker_indexes ?c)"
      using that(1) by simp
    then obtain hs where "holdings ?w ?d = Return hs" "row ?d i \<in> set hs"
      using holdings_contains [OF em, of i ?w] i(1) by auto
    then show ?thesis
      using converted_portal_peer [OF p assms(4,5) that(2)] converted_worker_finds_itself [OF w assms(4,5) that(2)]
        row_id [OF em, of i] row_fields(1) [OF em, of i] row_last_block [OF em, of i] i id'
      by (intro exI [of _ "source_peer from_bytes legacy (unat x)"] exI [of _ ?w] exI [of _ hs] exI [of _ "row ?d i"]
          exI [of _ "dc_first_block (chunk_of ?c)"] exI [of _ "dc_last_block (chunk_of ?c)"]) simp
  qed
  show ?thesis
    using i found(1) prow_id [OF pem] prow_worker_indexes [OF pem] id' held
    by (intro exI [of _ "prow ?d' i"] exI [of _ id'] exI [of _ "ck_worker_indexes ?c"] exI [of _ ?d]) simp
qed

lemma sample_source_routed:
  "sorted_wrt (<) (map ds_id (as_datasets (sample_source 100)))"
  "hd (as_datasets (sample_source 100)) \<in> set (as_datasets (sample_source 100))"
  "\<forall>c \<in> set (ds_chunks (hd (as_datasets (sample_source 100)))). dc_last_block (chunk_of c) \<noteq> - 1"
  "dc_first_block (chunk_of (hd (ds_chunks (hd (as_datasets (sample_source 100)))))) \<le> 150"
  "150 \<le> dc_last_block (chunk_of (last (ds_chunks (hd (as_datasets (sample_source 100))))))"
  "ds_id (hd (as_datasets (sample_source 100))) = ''a''"
  by code_simp+

text \<open>Block 150 of the sample, whose second chunk names one worker.\<close>

theorem routed_block_is_held_witness:
  "\<exists>a a' k d. worker_get_dataset lookup_index_pure a ''a'' = Some d \<and>
    portal_find_chunk lookup_index_pure a' ''a'' 150 = Return (Ok k) \<and> (\<exists>id'. pk_id k = Return (Some id'))"
proof -
  have ready: "list_all dataset_ready (as_datasets (sample_source 100))"
    using sample_source_ok(1,3) by (simp add: list_all_iff dataset_ready_def)
  obtain a where a: "build_worker sample_crypto sample_from_bytes 0 (sample_source 100) = Return (Ok a)"
    using build_worker_total [OF ready sample_source_ok(2) sample_source_peers sample_source_ok(5)] by blast
  obtain p an where p: "build_portal (cr_to_bytes sample_crypto) sample_from_bytes (sample_source 100) = Return (Ok (p, an))"
    using build_portal_total [OF ready sample_source_ok(2) sample_source_peers] by blast
  from routed_block_is_held [OF a p index_search.key_search_axioms sample_source_peers sample_source_ok(2,5)
      sample_source_routed(1-5)]
  show ?thesis
    unfolding sample_source_routed(6) by blast
qed

end
